(* ===== verification/Prelude.thy ===== *)
theory Prelude
  imports Complex_Main
begin

text \<open>
  Shared vocabulary of the development: the collections of rewrite rules the component
  theories add to, the type synonyms that name the values the control plane passes around,
  and the generic facts on options, lists and maps the component proofs use.
\<close>

named_theorems py_simps \<open>rewrite rules for the Python operations the model uses\<close>
named_theorems row_simps \<open>rewrite rules for table scans and row updates\<close>

section \<open>Names of the values the services exchange\<close>

text \<open>
  An instant is a timezone-aware datetime read as microseconds since the epoch, which is the
  resolution of Python's datetime and of PostgreSQL's timestamptz. A duration is a timedelta,
  again in microseconds.
\<close>

type_synonym instant = int
type_synonym duration = int
type_synonym account_id = string
type_synonym symbol = string
type_synonym node_id = string

section \<open>Raised exceptions as values\<close>

text \<open>
  A function that may raise returns a sum: \<open>Inl\<close> is the exception that leaves it, \<open>Inr\<close> the
  value it returns.
\<close>

datatype py_exc = ValueError | KeyError | TypeError | InvalidOperation | ZeroDivision
  | CommandError | CommandRunError | CommandRunTransitionError | IntegrityError
  | StalePositionRevision | GatewayError | AttributeError | OwnershipLedgerError | PermissionError | OutboxStateError

type_synonym 'a result = "py_exc + 'a"

definition bind_result :: "'e + 'a \<Rightarrow> ('a \<Rightarrow> 'e + 'b) \<Rightarrow> 'e + 'b" where
  "bind_result r f = (case r of Inl e \<Rightarrow> Inl e | Inr x \<Rightarrow> f x)"

lemma bind_result_simps [simp, py_simps]:
  "bind_result (Inl e) f = Inl e"
  "bind_result (Inr x) f = f x"
  by (simp_all add: bind_result_def)

lemma bind_result_Inr_iff: "bind_result r f = Inr y \<longleftrightarrow> (\<exists>x. r = Inr x \<and> f x = Inr y)"
  by (cases r) auto

section \<open>Python's truth value tests and defaults\<close>

text \<open>Python's \<open>a or b\<close> on an optional value whose falsy values are None and those of \<open>falsy\<close>.\<close>

definition or_else :: "('a \<Rightarrow> bool) \<Rightarrow> 'a option \<Rightarrow> 'a option \<Rightarrow> 'a option" where
  "or_else falsy a b = (case a of None \<Rightarrow> b | Some x \<Rightarrow> if falsy x then b else Some x)"

lemma or_else_simps [simp, py_simps]:
  "or_else f None b = b"
  "or_else f (Some x) b = (if f x then b else Some x)"
  by (simp_all add: or_else_def)

lemma or_else_Some_iff:
  "or_else f a b = Some x \<longleftrightarrow> (a = Some x \<and> \<not> f x) \<or> (b = Some x \<and> (\<forall>y. a = Some y \<longrightarrow> f y))"
  by (auto simp: or_else_def split: option.splits)

section \<open>Lists used as table scans\<close>

text \<open>
  A table is a list of rows; an SQL UPDATE with a WHERE clause changes the rows that satisfy
  it and leaves the order of the others alone.
\<close>

definition update_where :: "('r \<Rightarrow> bool) \<Rightarrow> ('r \<Rightarrow> 'r) \<Rightarrow> 'r list \<Rightarrow> 'r list" where
  "update_where p f rs = map (\<lambda>r. if p r then f r else r) rs"

lemma update_where_Nil [simp, row_simps]: "update_where p f [] = []"
  by (simp add: update_where_def)

lemma update_where_Cons [simp, row_simps]:
  "update_where p f (r # rs) = (if p r then f r else r) # update_where p f rs"
  by (simp add: update_where_def)

lemma update_where_append [simp, row_simps]:
  "update_where p f (rs @ rs') = update_where p f rs @ update_where p f rs'"
  by (simp add: update_where_def)

lemma length_update_where [simp, row_simps]: "length (update_where p f rs) = length rs"
  by (simp add: update_where_def)

lemma set_update_where [row_simps]:
  "set (update_where p f rs) = {r \<in> set rs. \<not> p r} \<union> f ` {r \<in> set rs. p r}"
  by (auto simp: update_where_def)

lemma update_where_none [row_simps]: "\<forall>r \<in> set rs. \<not> p r \<Longrightarrow> update_where p f rs = rs"
  by (induction rs) auto

text \<open>A field no updated row changes keeps its column.\<close>

lemma map_update_where_frame [row_simps]:
  "(\<And>r. p r \<Longrightarrow> g (f r) = g r) \<Longrightarrow> map g (update_where p f rs) = map g rs"
  by (induction rs) auto

lemma filter_update_where_other [row_simps]:
  "(\<And>r. p r \<Longrightarrow> \<not> q r \<and> \<not> q (f r)) \<Longrightarrow> filter q (update_where p f rs) = filter q rs"
  by (induction rs) auto

lemma filter_update_where_same [row_simps]:
  "(\<And>r. p r \<Longrightarrow> q (f r) = q r) \<Longrightarrow>
   filter q (update_where p f rs) = update_where p f (filter q rs)"
  by (induction rs) auto

lemma filter_update_where_drop [row_simps]:
  "(\<And>r. p r \<Longrightarrow> \<not> q (f r)) \<Longrightarrow> filter q (update_where p f rs) = filter (\<lambda>r. \<not> p r) (filter q rs)"
  by (induction rs) auto

text \<open>\<open>find\<close> is \<open>fetchone\<close> after a scan: the first row that satisfies the condition.\<close>

lemma list_ex_update_where_same [row_simps]:
  "(\<And>r. p r \<Longrightarrow> p (f r)) \<Longrightarrow> list_ex p (update_where p f rs) \<longleftrightarrow> list_ex p rs"
  by (induction rs) auto

lemma find_None_iff': "List.find p rs = None \<longleftrightarrow> (\<forall>r \<in> set rs. \<not> p r)"
  by (induction rs) auto

lemma find_SomeD: "List.find p rs = Some r \<Longrightarrow> r \<in> set rs \<and> p r"
  by (induction rs) (auto split: if_splits)

lemma find_split: "List.find p rs = Some r \<Longrightarrow> \<exists>xs ys. rs = xs @ r # ys \<and> p r \<and> (\<forall>x \<in> set xs. \<not> p x)"
proof (induction rs)
  case (Cons x rs)
  show ?case
  proof (cases "p x")
    case True
    with Cons.prems show ?thesis by (intro exI[of _ "[]"] exI[of _ rs]) simp
  next
    case False
    with Cons obtain xs ys where "rs = xs @ r # ys" "p r" "\<forall>x \<in> set xs. \<not> p x" by auto
    with False show ?thesis by (intro exI[of _ "x # xs"] exI[of _ ys]) simp
  qed
qed simp

lemma find_map': "List.find p (map f rs) = map_option f (List.find (\<lambda>r. p (f r)) rs)"
  by (induction rs) auto

lemma find_append: "List.find p (rs @ rs') = (case List.find p rs of None \<Rightarrow> List.find p rs' | Some r \<Rightarrow> Some r)"
  by (induction rs) auto

lemma find_unique:
  assumes "distinct (map k rs)" "r \<in> set rs" "k r = x"
  shows "List.find (\<lambda>r. k r = x) rs = Some r"
  using assms by (induction rs) (auto simp: image_iff)

lemma distinct_map_update_where:
  "(\<And>r. p r \<Longrightarrow> k (f r) = k r) \<Longrightarrow> distinct (map k (update_where p f rs)) = distinct (map k rs)"
  by (simp add: map_update_where_frame)

section \<open>Sums of list columns\<close>

lemma sum_list_filter_mono:
  fixes g :: "'r \<Rightarrow> 'a :: linordered_idom"
  assumes "\<And>r. r \<in> set rs \<Longrightarrow> 0 \<le> g r" and "\<And>r. r \<in> set rs \<Longrightarrow> p r \<Longrightarrow> q r"
  shows "sum_list (map g (filter p rs)) \<le> sum_list (map g (filter q rs))"
  using assms
proof (induction rs)
  case (Cons r rs)
  then have "sum_list (map g (filter p rs)) \<le> sum_list (map g (filter q rs))" by auto
  with Cons.prems show ?case
    by (auto simp: add_increasing)
qed simp

section \<open>Stores with an invariant\<close>

text \<open>
  The contract every table of the development meets: operations are steps on a state, an initial
  state satisfies the invariant and every step keeps it. The components interpret it on their own
  operations and take the facts about whole histories from here.
\<close>

locale invariant_store =
  fixes init :: "'s" and step :: "'s \<Rightarrow> 's \<Rightarrow> bool" and inv :: "'s \<Rightarrow> bool"
  assumes inv_init: "inv init"
    and inv_step: "inv s \<Longrightarrow> step s s' \<Longrightarrow> inv s'"
begin

lemma inv_steps: "step\<^sup>*\<^sup>* s s' \<Longrightarrow> inv s \<Longrightarrow> inv s'"
  by (induction rule: rtranclp_induct) (auto intro: inv_step)

lemma reachable_inv: "step\<^sup>*\<^sup>* init s \<Longrightarrow> inv s"
  using inv_steps inv_init by blast

text \<open>A quantity that no step of an invariant state lowers only grows along a history.\<close>

lemma steps_mono:
  fixes m :: "'s \<Rightarrow> 'm :: order"
  assumes "step\<^sup>*\<^sup>* s s'" "inv s" "\<And>t t'. inv t \<Longrightarrow> step t t' \<Longrightarrow> m t \<le> m t'"
  shows "m s \<le> m s'"
  using assms(1,2)
proof (induction rule: rtranclp_induct)
  case (step t t')
  have "inv t" using inv_steps[OF step.hyps(1) step.prems] .
  with step assms(3) show ?case by (metis order_trans)
qed simp

end

section \<open>Durable queues\<close>

text \<open>
  What a client relies on when it hands entries to a durable queue: a step with the acknowledged ids \<open>A\<close> keeps every entry whose id
  is not among them. Steps are whatever may happen, restarts included.
\<close>

locale durable_queue =
  fixes step :: "'i set \<Rightarrow> 's \<Rightarrow> 's \<Rightarrow> bool" and waiting :: "'s \<Rightarrow> 'e set" and ident :: "'e \<Rightarrow> 'i" and ok :: "'s \<Rightarrow> bool"
  assumes step_ok: "step A s s' \<Longrightarrow> ok s \<Longrightarrow> ok s'"
    and step_keeps: "step A s s' \<Longrightarrow> ok s \<Longrightarrow> e \<in> waiting s \<Longrightarrow> ident e \<notin> A \<Longrightarrow> e \<in> waiting s'"
begin

lemma kept_until_acked:
  assumes "(\<lambda>s s'. \<exists>A. A \<inter> keep = {} \<and> step A s s')\<^sup>*\<^sup>* s s'" "ok s" "e \<in> waiting s" "ident e \<in> keep"
  shows "ok s' \<and> e \<in> waiting s'"
  using assms
proof (induction rule: rtranclp_induct)
  case (step t t')
  then obtain A where "A \<inter> keep = {}" "step A t t'" by blast
  with step show ?case using step_ok step_keeps by blast
qed simp

end

end
