(* ===== verification/Py_Text.thy ===== *)
theory Py_Text
  imports Prelude
begin

text \<open>
  The string methods the services call: \<open>strip\<close>, \<open>lower\<close>, \<open>upper\<close>, \<open>partition\<close>,
  \<open>startswith\<close> and \<open>in\<close>. A string is a list of characters with code points below 256;
  case conversion is the one of ASCII, which is what account ids, symbols, sides and
  statuses are written in.
\<close>

definition is_space :: "char \<Rightarrow> bool" where
  "is_space c = (let n = of_char c :: nat in
     (9 \<le> n \<and> n \<le> 13) \<or> (28 \<le> n \<and> n \<le> 32) \<or> n = 133 \<or> n = 160)"

definition lower_char :: "char \<Rightarrow> char" where
  "lower_char c = (let n = of_char c :: nat in if 65 \<le> n \<and> n \<le> 90 then char_of (n + 32) else c)"

definition upper_char :: "char \<Rightarrow> char" where
  "upper_char c = (let n = of_char c :: nat in if 97 \<le> n \<and> n \<le> 122 then char_of (n - 32) else c)"

definition lower :: "string \<Rightarrow> string" where
  "lower s = map lower_char s"

definition upper :: "string \<Rightarrow> string" where
  "upper s = map upper_char s"

definition lstrip :: "string \<Rightarrow> string" where
  "lstrip s = dropWhile is_space s"

definition strip :: "string \<Rightarrow> string" where
  "strip s = rev (lstrip (rev (lstrip s)))"

text \<open>\<open>s.partition(c)\<close>: before the first \<open>c\<close>, whether it occurs, and after it.\<close>

definition before_char :: "char \<Rightarrow> string \<Rightarrow> string" where
  "before_char c s = takeWhile (\<lambda>x. x \<noteq> c) s"

definition after_char :: "char \<Rightarrow> string \<Rightarrow> string" where
  "after_char c s = drop 1 (dropWhile (\<lambda>x. x \<noteq> c) s)"

fun startswith :: "string \<Rightarrow> string \<Rightarrow> bool" where
  "startswith s [] = True"
| "startswith [] (p # ps) = False"
| "startswith (c # s) (p # ps) = (c = p \<and> startswith s ps)"

definition endswith :: "string \<Rightarrow> string \<Rightarrow> bool" where
  "endswith s suffix = startswith (rev s) (rev suffix)"

text \<open>\<open>s.rstrip(":")\<close>.\<close>

definition rstrip_colons :: "string \<Rightarrow> string" where
  "rstrip_colons s = rev (dropWhile (\<lambda>c. c = CHR '':'') (rev s))"

text \<open>\<open>s.split(c)\<close>.\<close>

fun split_all :: "char \<Rightarrow> string \<Rightarrow> string list" where
  "split_all c [] = [[]]"
| "split_all c (x # s) = (if x = c then [] # split_all c s else (x # hd (split_all c s)) # tl (split_all c s))"

text \<open>\<open>sub in s\<close>.\<close>

fun contains_sub :: "string \<Rightarrow> string \<Rightarrow> bool" where
  "contains_sub sub [] = startswith [] sub"
| "contains_sub sub (c # s) = (startswith (c # s) sub \<or> contains_sub sub s)"

section \<open>Stripping\<close>

lemma lstrip_Nil [simp]: "lstrip [] = []"
  by (simp add: lstrip_def)

lemma lstrip_Cons: "lstrip (c # s) = (if is_space c then lstrip s else c # s)"
  by (simp add: lstrip_def)

lemma strip_Nil [simp]: "strip [] = []"
  by (simp add: strip_def)

lemma hd_lstrip: "lstrip s \<noteq> [] \<Longrightarrow> \<not> is_space (hd (lstrip s))"
  by (simp add: lstrip_def hd_dropWhile)

lemma lstrip_id: "s = [] \<or> \<not> is_space (hd s) \<Longrightarrow> lstrip s = s"
  by (cases s) (auto simp: lstrip_def)

lemma lstrip_suffix: "\<exists>p. s = p @ lstrip s"
  unfolding lstrip_def by (metis takeWhile_dropWhile_id)

lemma strip_prefix_lstrip: "\<exists>q. lstrip s = strip s @ q"
proof -
  obtain p where "rev (lstrip s) = p @ lstrip (rev (lstrip s))"
    using lstrip_suffix by blast
  then have "lstrip s = rev (lstrip (rev (lstrip s))) @ rev p"
    by (metis rev_append rev_rev_ident)
  then show ?thesis by (auto simp: strip_def)
qed

lemma strip_ends:
  assumes "strip s \<noteq> []"
  shows "\<not> is_space (hd (strip s))" "\<not> is_space (last (strip s))"
proof -
  obtain q where q: "lstrip s = strip s @ q" using strip_prefix_lstrip by blast
  with assms have "hd (lstrip s) = hd (strip s)" "lstrip s \<noteq> []" by auto
  then show "\<not> is_space (hd (strip s))" using hd_lstrip by metis
  show "\<not> is_space (last (strip s))"
    using assms hd_lstrip[of "rev (lstrip s)"] by (simp add: strip_def last_rev)
qed

lemma strip_id:
  assumes "s = [] \<or> (\<not> is_space (hd s) \<and> \<not> is_space (last s))"
  shows "strip s = s"
proof (cases "s = []")
  case False
  with assms have "lstrip s = s" by (auto intro: lstrip_id)
  moreover have "lstrip (rev s) = rev s"
    using assms False by (intro lstrip_id) (simp add: hd_rev)
  ultimately show ?thesis by (simp add: strip_def)
qed simp

lemma strip_strip [simp, py_simps]: "strip (strip s) = strip s"
  using strip_id strip_ends by metis

lemma set_strip: "set (strip s) \<subseteq> set s"
proof -
  have "set (lstrip t) \<subseteq> set t" for t by (auto simp: lstrip_def dest: set_dropWhileD)
  then show ?thesis unfolding strip_def by (metis order_trans set_rev)
qed

section \<open>Case conversion\<close>

lemma of_char_upper_char:
  "(of_char (upper_char c) :: nat) = (if 97 \<le> (of_char c :: nat) \<and> (of_char c :: nat) \<le> 122 then (of_char c :: nat) - 32 else of_char c)"
  by (auto simp: upper_char_def Let_def mod_less)

lemma of_char_lower_char:
  "(of_char (lower_char c) :: nat) = (if 65 \<le> (of_char c :: nat) \<and> (of_char c :: nat) \<le> 90 then (of_char c :: nat) + 32 else of_char c)"
  by (auto simp: lower_char_def Let_def mod_less)

lemma char_eq_iff: "c = d \<longleftrightarrow> (of_char c :: nat) = of_char d"
  by simp

lemma upper_char_idem [simp]: "upper_char (upper_char c) = upper_char c"
  unfolding char_eq_iff of_char_upper_char by auto

lemma lower_char_idem [simp]: "lower_char (lower_char c) = lower_char c"
  unfolding char_eq_iff of_char_lower_char by auto

lemma upper_upper [simp, py_simps]: "upper (upper s) = upper s"
  by (simp add: upper_def)

lemma lower_lower [simp, py_simps]: "lower (lower s) = lower s"
  by (simp add: lower_def)

lemma is_space_upper_char [simp]: "is_space (upper_char c) = is_space c"
  unfolding is_space_def Let_def of_char_upper_char by auto

lemma upper_Nil_iff [simp]: "upper s = [] \<longleftrightarrow> s = []"
  by (simp add: upper_def)

lemma strip_upper: "strip (upper s) = upper (strip s)"
proof -
  have d: "lstrip (upper t) = upper (lstrip t)" for t
    by (induction t) (simp_all add: lstrip_Cons upper_def)
  have r: "rev (upper t) = upper (rev t)" for t by (simp add: upper_def rev_map)
  show ?thesis by (simp add: strip_def d r)
qed

end
