(* ===== verification/Rounding.thy ===== *)
theory Rounding
  imports Prelude "HOL-Library.Log_Nat"
begin

text \<open>
  The arithmetic of the program's numbers. Every price, quantity and notional of the services
  is a Python \<open>Decimal\<close> computed in the default context (28 significant digits,
  ROUND_HALF_EVEN), and the decision governor adds IEEE binary64 floats (53 significant bits,
  round half to even). Both are one operation, rounding a rational to \<open>P\<close> significant
  digits in base \<open>B\<close>, so the theory develops that operation once, states what its
  clients rely on as the locale \<open>sig_rounding\<close>, and interprets the locale for both.
  Values are finite; the exponent ranges of the two formats (about ten to the million, and
  ten to the 308) are not reached by prices and quantities and are not modelled.
\<close>

section \<open>Rounding to an integer\<close>

text \<open>
  ROUND_HALF_EVEN, ROUND_HALF_UP (ties away from zero), ROUND_DOWN (towards zero) and
  ROUND_FLOOR, which is \<open>floor\<close>.
\<close>

definition round_half_even :: "rat \<Rightarrow> int" where
  "round_half_even x =
     (let f = \<lfloor>x\<rfloor>; r = x - of_int f
      in if r < 1 / 2 then f else if 1 / 2 < r then f + 1 else if even f then f else f + 1)"

definition round_half_up :: "rat \<Rightarrow> int" where
  "round_half_up x = (if 0 \<le> x then \<lfloor>x + 1 / 2\<rfloor> else - \<lfloor>1 / 2 - x\<rfloor>)"

definition round_down :: "rat \<Rightarrow> int" where
  "round_down x = (if 0 \<le> x then \<lfloor>x\<rfloor> else - \<lfloor>- x\<rfloor>)"

section \<open>Rounding to significant digits\<close>

text \<open>
  \<open>expo B x\<close> is the exponent of the leading base-\<open>B\<close> digit of \<open>x\<close>, read off the digit
  counts of numerator and denominator; \<open>sig_round\<close> scales by it, rounds half to even and
  scales back.
\<close>

definition expo :: "nat \<Rightarrow> rat \<Rightarrow> int" where
  "expo B x =
     (let (a, b) = quotient_of \<bar>x\<bar>;
          d = int (floorlog B (nat a)) - int (floorlog B (nat b))
      in if of_nat B powi d \<le> \<bar>x\<bar> then d else d - 1)"

definition sig_round :: "nat \<Rightarrow> nat \<Rightarrow> rat \<Rightarrow> rat" where
  "sig_round B P x =
     (if x = 0 then 0
      else let s = of_nat B powi (expo B x - (int P - 1))
           in of_int (round_half_even (x / s)) * s)"

lemma round_half_even_mono: "x \<le> y \<Longrightarrow> round_half_even x \<le> round_half_even y"
proof -
  assume xy: "x \<le> y"
  then consider "\<lfloor>x\<rfloor> = \<lfloor>y\<rfloor>" | "\<lfloor>x\<rfloor> + 1 \<le> \<lfloor>y\<rfloor>"
    using floor_mono[OF xy] by linarith
  then show ?thesis
  proof cases
    case 1
    then show ?thesis using xy by (auto simp: round_half_even_def Let_def)
  next
    case 2
    have "round_half_even x \<le> \<lfloor>x\<rfloor> + 1" "\<lfloor>y\<rfloor> \<le> round_half_even y"
      by (auto simp: round_half_even_def Let_def)
    with 2 show ?thesis by linarith
  qed
qed

lemma round_half_even_of_int [simp]: "round_half_even (of_int k) = k"
  by (simp add: round_half_even_def)

lemma round_half_even_near: "\<bar>of_int (round_half_even x) - x\<bar> \<le> 1 / 2"
proof -
  have f: "of_int \<lfloor>x\<rfloor> \<le> x" "x < of_int \<lfloor>x\<rfloor> + 1"
    by linarith+
  then show ?thesis
    by (auto simp: round_half_even_def Let_def abs_le_iff)
qed

lemma round_half_even_unique:
  assumes "\<bar>of_int k - x\<bar> < 1 / 2"
  shows "round_half_even x = k"
proof -
  have "\<bar>of_int (round_half_even x) - of_int k\<bar> < (1::rat)"
    using round_half_even_near[of x] assms by linarith
  then have "\<bar>of_int (round_half_even x - k)\<bar> < (1::rat)" by simp
  then show ?thesis by linarith
qed

lemma round_half_even_minus: "round_half_even (- x) = - round_half_even x"
proof (cases "x - of_int \<lfloor>x\<rfloor> = 1 / 2")
  case True
  then have "x = of_int \<lfloor>x\<rfloor> + 1 / 2" by linarith
  moreover have "\<lfloor>- x\<rfloor> = - \<lfloor>x\<rfloor> - 1"
    using True by linarith
  ultimately show ?thesis
    using True by (auto simp: round_half_even_def Let_def)
next
  case False
  have "\<bar>of_int (round_half_even x) - x\<bar> < 1 / 2"
    using False floor_correct[of x]
    by (auto simp: round_half_even_def Let_def abs_less_iff) 
  then have "\<bar>of_int (- round_half_even x) - (- x)\<bar> < 1 / 2"
    by (simp add: abs_minus_commute)
  then show ?thesis by (rule round_half_even_unique)
qed

lemma expo_bounds:
  assumes B: "1 < B" and x: "x \<noteq> 0"
  shows "of_nat B powi expo B x \<le> \<bar>x\<bar>" "\<bar>x\<bar> < of_nat B powi (expo B x + 1)"
proof -
  obtain a b where ab: "quotient_of \<bar>x\<bar> = (a, b)" by fastforce
  then have b: "0 < b" and xab: "\<bar>x\<bar> = of_int a / of_int b"
    by (auto dest: quotient_of_denom_pos quotient_of_div)
  from xab x b have a: "0 < a"
    by (metis divide_le_0_iff of_int_le_0_iff of_int_0_less_iff less_eq_rat_def not_less zero_less_abs_iff)
  define la lb where "la = floorlog B (nat a)" and "lb = floorlog B (nat b)"
  define d where "d = int la - int lb"
  let ?B = "of_nat B :: rat"
  have B1: "1 < ?B" using B by simp
  have la: "B ^ (la - 1) \<le> nat a" "nat a < B ^ la" and lb: "B ^ (lb - 1) \<le> nat b" "nat b < B ^ lb"
    using floorlog_bounds[of "nat a" B] floorlog_bounds[of "nat b" B] a b B
    by (auto simp: la_def lb_def)
  have la0: "0 < la" and lb0: "0 < lb" using la(2) lb(2) a b
    by (metis gr0I nat_0_iff not_less power_0 less_one zero_less_nat_eq)+
  have ra: "?B ^ (la - 1) \<le> of_int a" "of_int a < ?B ^ la"
    using la a by (metis of_nat_le_iff of_nat_power of_nat_nat less_imp_le, metis of_nat_less_iff of_nat_power of_nat_nat less_imp_le)
  have rb: "?B ^ (lb - 1) \<le> of_int b" "of_int b < ?B ^ lb"
    using lb b by (metis of_nat_le_iff of_nat_power of_nat_nat less_imp_le, metis of_nat_less_iff of_nat_power of_nat_nat less_imp_le)
  have pd: "?B powi (int m - int n) = ?B ^ m / ?B ^ n" for m n
    using B1 by (simp add: power_int_diff power_int_of_nat)
  have up: "\<bar>x\<bar> < ?B powi (d + 1)"
  proof -
    have "\<bar>x\<bar> < ?B ^ la / ?B ^ (lb - 1)"
      unfolding xab using ra rb B1 b a
      by (intro frac_less) auto
    also have "\<dots> = ?B powi (d + 1)"
      using pd[of la "lb - 1"] lb0 by (simp add: d_def of_nat_diff algebra_simps)
    finally show ?thesis .
  qed
  have lo: "?B powi (d - 1) \<le> \<bar>x\<bar>"
  proof -
    have "?B powi (d - 1) = ?B ^ (la - 1) / ?B ^ lb"
      using pd[of "la - 1" lb] la0 by (simp add: d_def of_nat_diff algebra_simps)
    also have "\<dots> \<le> \<bar>x\<bar>"
      unfolding xab using ra rb B1 b a
      by (intro frac_le) auto
    finally show ?thesis .
  qed
  have e: "expo B x = (if ?B powi d \<le> \<bar>x\<bar> then d else d - 1)"
    by (simp add: expo_def ab Let_def d_def la_def lb_def)
  show "?B powi expo B x \<le> \<bar>x\<bar>" using lo by (simp add: e)
  show "\<bar>x\<bar> < ?B powi (expo B x + 1)" using up by (simp add: e not_le)
qed

lemma expo_unique:
  assumes B: "1 < B" and "of_nat B powi e \<le> \<bar>x\<bar>" "\<bar>x\<bar> < of_nat B powi (e + 1)"
  shows "expo B x = e"
proof -
  let ?B = "of_nat B :: rat"
  have B1: "1 < ?B" using B by simp
  have "0 < ?B powi e" using B1 by simp
  with assms(2) have x: "x \<noteq> 0" by auto
  note b = expo_bounds[OF B x]
  have "?B powi e < ?B powi (expo B x + 1)" "?B powi expo B x < ?B powi (e + 1)"
    using b assms by linarith+
  then show ?thesis
    using B1 power_int_increasing[of "e + 1" "expo B x" ?B] power_int_increasing[of "expo B x + 1" e ?B]
    by (meson less_le_not_le linorder_not_le not_less_iff_gr_or_eq zless_imp_add1_zle)
qed

lemma expo_minus [simp]: "expo B (- x) = expo B x"
  by (simp add: expo_def)

lemma sig_round_zero [simp]: "sig_round B P 0 = 0"
  by (simp add: sig_round_def)

lemma sig_round_minus [simp]: "sig_round B P (- x) = - sig_round B P x"
  by (simp add: sig_round_def Let_def round_half_even_minus)

lemma pow_mult_powi: "b \<noteq> 0 \<Longrightarrow> b ^ n * b powi m = b powi (int n + m)"
  for b :: "'a :: field"
  by (simp add: power_int_add)

lemma scaled_bounds:
  assumes B: "1 < B" and P: "0 < P" and x: "0 < x"
    and s: "s = of_nat B powi (expo B x - (int P - 1))"
  shows "0 < s" "of_nat B ^ (P - 1) \<le> x / s" "x / s < of_nat B ^ P"
proof -
  let ?B = "of_nat B :: rat"
  have B1: "1 < ?B" using B by simp
  show s0: "0 < s" using B1 by (simp add: s)
  note b = expo_bounds[OF B, of x]
  have "?B ^ (P - 1) * s = ?B powi expo B x"
    using B1 P unfolding s by (subst pow_mult_powi) (auto simp: of_nat_diff)
  then show "?B ^ (P - 1) \<le> x / s"
    using b(1) x s0 by (simp add: pos_le_divide_eq)
  have "?B ^ P * s = ?B powi (expo B x + 1)"
    using B1 unfolding s by (subst pow_mult_powi) (auto simp: algebra_simps)
  then show "x / s < ?B ^ P"
    using b(2) x s0 by (simp add: pos_divide_less_eq)
qed

lemma sig_round_pos_bounds:
  assumes B: "1 < B" and P: "0 < P" and x: "0 < x"
  shows "of_nat B powi expo B x \<le> sig_round B P x"
    "sig_round B P x \<le> of_nat B powi (expo B x + 1)"
    "\<bar>sig_round B P x - x\<bar> \<le> x / (2 * of_nat B ^ (P - 1))"
proof -
  let ?B = "of_nat B :: rat"
  define s where "s = ?B powi (expo B x - (int P - 1))"
  note sb = scaled_bounds[OF B P x s_def]
  have B1: "1 < ?B" using B by simp
  have sr: "sig_round B P x = of_int (round_half_even (x / s)) * s"
    using x by (simp add: sig_round_def s_def Let_def)
  have bi: "?B ^ n = of_int (int B ^ n)" for n by simp
  have lo: "int B ^ (P - 1) \<le> round_half_even (x / s)"
    using round_half_even_mono[OF sb(2)] round_half_even_of_int[of "int B ^ (P - 1)"] by simp
  have hi: "round_half_even (x / s) \<le> int B ^ P"
    using round_half_even_mono[OF less_imp_le[OF sb(3)]] round_half_even_of_int[of "int B ^ P"] by simp
  have e1: "?B ^ (P - 1) * s = ?B powi expo B x"
    using B1 P unfolding s_def by (subst pow_mult_powi) (auto simp: of_nat_diff)
  have e2: "?B ^ P * s = ?B powi (expo B x + 1)"
    using B1 unfolding s_def by (subst pow_mult_powi) (auto simp: algebra_simps)
  have "?B ^ (P - 1) \<le> of_int (round_half_even (x / s))"
    using lo by (metis bi of_int_le_iff)
  then show "?B powi expo B x \<le> sig_round B P x"
    using sb(1) by (simp add: sr e1[symmetric])
  have "of_int (round_half_even (x / s)) \<le> ?B ^ P"
    using hi by (metis bi of_int_le_iff)
  then show "sig_round B P x \<le> ?B powi (expo B x + 1)"
    using sb(1) by (simp add: sr e2[symmetric])
  have "\<bar>sig_round B P x - x\<bar> = \<bar>of_int (round_half_even (x / s)) - x / s\<bar> * s"
  proof -
    have "sig_round B P x - x = (of_int (round_half_even (x / s)) - x / s) * s"
      using sb(1) by (simp add: sr left_diff_distrib)
    then show ?thesis using sb(1) by (simp add: abs_mult)
  qed
  also have "\<dots> \<le> 1 / 2 * s"
    using sb(1) round_half_even_near by (intro mult_right_mono) auto
  also have "\<dots> \<le> x / (2 * ?B ^ (P - 1))"
  proof -
    have "?B ^ (P - 1) * s \<le> x" using sb(1,2) by (simp add: pos_le_divide_eq)
    moreover have "0 < ?B ^ (P - 1)" using B1 by simp
    ultimately show ?thesis by (simp add: pos_le_divide_eq mult.commute)
  qed
  finally show "\<bar>sig_round B P x - x\<bar> \<le> x / (2 * ?B ^ (P - 1))" .
qed

lemma sig_round_mono_pos:
  assumes B: "1 < B" and P: "0 < P" and x: "0 < x" and xy: "x \<le> y"
  shows "sig_round B P x \<le> sig_round B P y"
proof (cases "expo B x = expo B y")
  case True
  have B1: "1 < (of_nat B :: rat)" using B by simp
  define s :: rat where "s = of_nat B powi (expo B x - (int P - 1))"
  have "0 < s" using B1 by (simp add: s_def)
  then have "round_half_even (x / s) \<le> round_half_even (y / s)"
    using xy by (intro round_half_even_mono divide_right_mono) auto
  with \<open>0 < s\<close> True x xy show ?thesis
    by (simp add: sig_round_def Let_def s_def)
next
  case False
  let ?B = "of_nat B :: rat"
  have B1: "1 < ?B" using B by simp
  have y: "0 < y" using x xy by simp
  have "?B powi expo B x < ?B powi (expo B y + 1)"
    using expo_bounds[OF B, of x] expo_bounds[OF B, of y] x y xy by simp
  then have "expo B x < expo B y + 1"
    using B1 power_int_increasing[of "expo B y + 1" "expo B x" ?B] by (meson leD not_less less_imp_le)
  with False have "expo B x + 1 \<le> expo B y" by simp
  then have "?B powi (expo B x + 1) \<le> ?B powi expo B y"
    using B1 by (intro power_int_increasing) auto
  with sig_round_pos_bounds[OF B P x] sig_round_pos_bounds[OF B P y] show ?thesis by linarith
qed

lemma sig_round_nonneg:
  assumes "1 < B" "0 < P" "0 \<le> x"
  shows "0 \<le> sig_round B P x"
proof (cases "x = 0")
  case False
  have "0 < (of_nat B :: rat) powi expo B x" using assms by simp
  with sig_round_pos_bounds(1)[OF assms(1,2), of x] False assms(3) show ?thesis by simp
qed simp

lemma sig_round_mono:
  assumes B: "1 < B" and P: "0 < P" and xy: "x \<le> y"
  shows "sig_round B P x \<le> sig_round B P y"
proof -
  consider "0 < x" | "x \<le> 0" "0 \<le> y" | "y < 0" by linarith
  then show ?thesis
  proof cases
    case 1
    then show ?thesis using sig_round_mono_pos[OF B P _ xy] by simp
  next
    case 2
    then have "0 \<le> sig_round B P (- x)" "0 \<le> sig_round B P y"
      by (intro sig_round_nonneg[OF B P]; simp)+
    then show ?thesis by simp
  next
    case 3
    then show ?thesis using sig_round_mono_pos[OF B P, of "- y" "- x"] xy by simp
  qed
qed

lemma sig_round_error:
  assumes "1 < B" "0 < P"
  shows "\<bar>sig_round B P x - x\<bar> \<le> \<bar>x\<bar> / (2 * of_nat B ^ (P - 1))"
proof -
  consider "x = 0" | "0 < x" | "x < 0" by linarith
  then show ?thesis
  proof cases
    case 3
    then show ?thesis
      using sig_round_pos_bounds(3)[OF assms, of "- x"] by (simp add: abs_minus_commute)
  qed (use sig_round_pos_bounds(3)[OF assms, of x] in auto)
qed

lemma sig_round_exact_pos:
  assumes B: "1 < B" and P: "0 < P" and x: "x = of_int k * of_nat B powi e" "0 < x"
    and k: "k \<le> int B ^ P"
  shows "sig_round B P x = x"
proof -
  let ?B = "of_nat B :: rat"
  have B1: "1 < ?B" using B by simp
  define E where "E = expo B x"
  define s where "s = ?B powi (E - (int P - 1))"
  have s0: "0 < s" using B1 by (simp add: s_def)
  have "\<exists>m. x / s = of_int m"
  proof (cases "E - (int P - 1) \<le> e")
    case True
    have "x / s = of_int k * ?B powi (e - (E - (int P - 1)))"
      using B1 by (simp add: x(1) s_def power_int_diff)
    also have "\<dots> = of_int (k * int B ^ nat (e - (E - (int P - 1))))"
      using True by (simp add: power_int_def)
    finally show ?thesis by blast
  next
    case False
    have "(of_int k :: rat) \<le> of_int (int B ^ P)" using k by (simp only: of_int_le_iff)
    then have "x \<le> ?B ^ P * ?B powi e"
      using B1 unfolding x(1) by (intro mult_right_mono) auto
    also have "\<dots> = ?B powi (int P + e)"
      using B1 by (simp add: power_int_add power_int_of_nat)
    also have "\<dots> \<le> ?B powi E"
      using False B1 by (intro power_int_increasing) auto
    finally have "x = ?B powi E"
      using expo_bounds(1)[OF B, of x] x(2) by (simp add: E_def)
    then have "x / s = ?B powi (E - (E - (int P - 1)))"
      using B1 by (simp add: s_def power_int_diff)
    also have "\<dots> = of_int (int B ^ (P - 1))"
      using P by (simp add: power_int_def nat_diff_distrib)
    finally show ?thesis by blast
  qed
  then obtain m where m: "x / s = of_int m" ..
  then have "sig_round B P x = x / s * s"
    using x(2) by (simp add: sig_round_def Let_def flip: E_def s_def)
  then show ?thesis using s0 by simp
qed

lemma sig_round_exact:
  assumes "1 < B" "0 < P" "x = of_int k * of_nat B powi e" "\<bar>k\<bar> \<le> int B ^ P"
  shows "sig_round B P x = x"
proof -
  consider "x = 0" | "0 < x" | "0 < - x" by linarith
  then show ?thesis
  proof cases
    case 2
    with assms show ?thesis by (intro sig_round_exact_pos[where k = k and e = e]) auto
  next
    case 3
    then have "sig_round B P (- x) = - x"
      using assms by (intro sig_round_exact_pos[where k = "- k" and e = e]) auto
    then show ?thesis by simp
  qed simp
qed

lemma sig_round_idem:
  assumes B: "1 < B" and P: "0 < P"
  shows "sig_round B P (sig_round B P x) = sig_round B P x"
proof -
  have pos: "sig_round B P (sig_round B P y) = sig_round B P y" if y: "0 < y" for y
  proof -
    define s :: rat where "s = of_nat B powi (expo B y - (int P - 1))"
    note sb = scaled_bounds[OF B P y s_def]
    have "round_half_even (y / s) \<le> int B ^ P"
      using round_half_even_mono[OF less_imp_le[OF sb(3)]] round_half_even_of_int[of "int B ^ P"] by simp
    moreover have "0 \<le> round_half_even (y / s)"
      using round_half_even_mono[of 0 "y / s"] y sb(1) round_half_even_of_int[of 0] by simp
    moreover have "sig_round B P y = of_int (round_half_even (y / s)) * s"
      using y by (simp add: sig_round_def Let_def s_def)
    ultimately show ?thesis
      by (intro sig_round_exact[OF B P, where k = "round_half_even (y / s)"
            and e = "expo B y - (int P - 1)"]) (auto simp: s_def)
  qed
  consider "x = 0" | "0 < x" | "0 < - x" by linarith
  then show ?thesis
    using pos[of x] pos[of "- x"] by cases auto
qed

section \<open>The interface of a rounded arithmetic\<close>

text \<open>
  What the services rely on when they compute with rounded numbers: order is never inverted,
  zero and signs are kept, a stored value is not rounded again, and one operation is off by
  at most the relative error \<open>eps\<close>.
\<close>

locale sig_rounding =
  fixes rnd :: "rat \<Rightarrow> rat" and eps :: rat
  assumes rnd_mono: "x \<le> y \<Longrightarrow> rnd x \<le> rnd y"
    and rnd_idem: "rnd (rnd x) = rnd x"
    and rnd_minus: "rnd (- x) = - rnd x"
    and rnd_error: "\<bar>rnd x - x\<bar> \<le> eps * \<bar>x\<bar>"
    and eps_bounds: "0 \<le> eps" "eps < 1"
begin

lemma rnd_zero: "rnd 0 = 0"
  using rnd_minus[of 0] by simp

lemma rnd_nonneg: "0 \<le> x \<Longrightarrow> 0 \<le> rnd x"
  using rnd_mono[of 0 x] rnd_zero by simp

lemma rnd_nonpos: "x \<le> 0 \<Longrightarrow> rnd x \<le> 0"
  using rnd_mono[of x 0] rnd_zero by simp

lemma rnd_eq_zero_iff: "rnd x = 0 \<longleftrightarrow> x = 0"
proof
  assume "rnd x = 0"
  then have "\<bar>x\<bar> \<le> eps * \<bar>x\<bar>" using rnd_error[of x] by simp
  moreover have "eps * \<bar>x\<bar> < \<bar>x\<bar>" if "x \<noteq> 0"
    using that eps_bounds by simp
  ultimately show "x = 0" by fastforce
qed (simp add: rnd_zero)

lemma rnd_pos_iff: "0 < rnd x \<longleftrightarrow> 0 < x"
  using rnd_nonneg[of x] rnd_nonpos[of x] rnd_eq_zero_iff[of x] by (meson less_le not_le)

text \<open>A bound that is itself a stored value survives the rounding.\<close>

lemma rnd_le_stored: "x \<le> y \<Longrightarrow> rnd y = y \<Longrightarrow> rnd x \<le> y"
  using rnd_mono by metis

lemma stored_le_rnd: "y \<le> x \<Longrightarrow> rnd y = y \<Longrightarrow> y \<le> rnd x"
  using rnd_mono by metis

lemma rnd_upper: "0 \<le> x \<Longrightarrow> rnd x \<le> (1 + eps) * x"
  using rnd_error[of x] by (simp add: algebra_simps abs_le_iff)

lemma rnd_lower: "0 \<le> x \<Longrightarrow> (1 - eps) * x \<le> rnd x"
  using rnd_error[of x] by (simp add: algebra_simps abs_le_iff)

lemma rnd_abs: "rnd \<bar>x\<bar> = \<bar>rnd x\<bar>"
  using rnd_minus[of x] rnd_nonneg[of x] rnd_nonpos[of x] by (auto simp: abs_if)

end

text \<open>Any precision in any base gives such an arithmetic.\<close>

lemma sig_round_sig_rounding:
  assumes "1 < B" "0 < P"
  shows "sig_rounding (sig_round B P) (1 / (2 * of_nat B ^ (P - 1)))"
proof
  fix x y :: rat
  show "x \<le> y \<Longrightarrow> sig_round B P x \<le> sig_round B P y" by (rule sig_round_mono[OF assms])
  show "sig_round B P (sig_round B P x) = sig_round B P x" by (rule sig_round_idem[OF assms])
  show "\<bar>sig_round B P x - x\<bar> \<le> 1 / (2 * of_nat B ^ (P - 1)) * \<bar>x\<bar>"
    using sig_round_error[OF assms, of x] by simp
  have "1 \<le> (of_nat B :: rat) ^ (P - 1)" using assms by (intro one_le_power) auto
  then show "1 / (2 * of_nat B ^ (P - 1)) < (1 :: rat)" by (subst divide_less_eq_1_pos) linarith+
qed simp_all

section \<open>Decimal in the default context\<close>

text \<open>
  A \<open>Decimal\<close> is modelled by its value. \<open>dec\<close> is the rounding every arithmetic operation
  applies to its exact result; construction from a string and comparison are exact.
\<close>

definition dec :: "rat \<Rightarrow> rat" where
  "dec x = sig_round 10 28 x"

definition dec_eps :: rat where
  "dec_eps = 1 / (2 * 10 ^ 27)"

interpretation dec: sig_rounding dec dec_eps
proof -
  have "dec = sig_round 10 28" by (rule ext) (simp add: dec_def)
  then show "sig_rounding dec dec_eps"
    using sig_round_sig_rounding[of 10 28] by (simp add: dec_eps_def)
qed

definition dadd :: "rat \<Rightarrow> rat \<Rightarrow> rat" where "dadd x y = dec (x + y)"
definition dsub :: "rat \<Rightarrow> rat \<Rightarrow> rat" where "dsub x y = dec (x - y)"
definition dmul :: "rat \<Rightarrow> rat \<Rightarrow> rat" where "dmul x y = dec (x * y)"
definition dabs :: "rat \<Rightarrow> rat" where "dabs x = dec \<bar>x\<bar>"

text \<open>
  Division raises on a zero divisor. The callers that have already excluded it use \<open>ddiv\<close>,
  the others the checked form.
\<close>

definition ddiv :: "rat \<Rightarrow> rat \<Rightarrow> rat" where "ddiv x y = dec (x / y)"

definition ddiv_checked :: "rat \<Rightarrow> rat \<Rightarrow> rat option" where
  "ddiv_checked x y = (if y = 0 then None else Some (ddiv x y))"

text \<open>
  \<open>quantize\<close> with the exponent \<open>e\<close> of its argument: the coefficient is rounded by the given
  mode and InvalidOperation is raised when it has more than 28 digits.
\<close>

definition quantize :: "(rat \<Rightarrow> int) \<Rightarrow> int \<Rightarrow> rat \<Rightarrow> rat option" where
  "quantize mode e x =
     (let k = mode (x / 10 powi e)
      in if 10 ^ 28 \<le> \<bar>k\<bar> then None else Some (of_int k * 10 powi e))"

text \<open>The built-in \<open>sum\<close> over Decimals, starting from zero and rounding at every step.\<close>

fun dsum_from :: "rat \<Rightarrow> rat list \<Rightarrow> rat" where
  "dsum_from acc [] = acc"
| "dsum_from acc (x # xs) = dsum_from (dadd acc x) xs"

definition dsum :: "rat list \<Rightarrow> rat" where
  "dsum xs = dsum_from 0 xs"

lemma dec_exact:
  "x = of_int k * 10 powi e \<Longrightarrow> \<bar>k\<bar> \<le> 10 ^ 28 \<Longrightarrow> dec x = x"
  using sig_round_exact[of 10 28 x k e] by (simp add: dec_def)

lemma dec_of_int: "\<bar>k\<bar> \<le> 10 ^ 28 \<Longrightarrow> dec (of_int k) = of_int k"
  by (rule dec_exact[where e = 0]) simp_all

lemma dec_numeral [simp]: "(numeral k :: int) \<le> 10 ^ 28 \<Longrightarrow> dec (numeral k) = numeral k"
  using dec_of_int[of "numeral k"] by simp

lemma dec_one [simp]: "dec 1 = 1"
  using dec_of_int[of 1] by simp

lemma dec_0 [simp]: "dec 0 = 0"
  by (rule dec.rnd_zero)

lemma dec_cents: "\<bar>k\<bar> \<le> 10 ^ 28 \<Longrightarrow> dec (of_int k / 10 ^ n) = of_int k / 10 ^ n"
  by (rule dec_exact[where e = "- int n"]) (simp_all add: power_int_minus field_simps)

lemma dsum_from_nonneg: "0 \<le> acc \<Longrightarrow> \<forall>x \<in> set xs. 0 \<le> x \<Longrightarrow> 0 \<le> dsum_from acc xs"
proof (induction xs arbitrary: acc)
  case (Cons x xs)
  then have "0 \<le> dadd acc x" by (simp add: dadd_def dec.rnd_nonneg)
  with Cons show ?case by simp
qed simp

lemma dsum_nonneg: "\<forall>x \<in> set xs. 0 \<le> x \<Longrightarrow> 0 \<le> dsum xs"
  by (simp add: dsum_def dsum_from_nonneg)

lemma dsum_from_append: "dsum_from acc (xs @ ys) = dsum_from (dsum_from acc xs) ys"
  by (induction xs arbitrary: acc) auto

lemma dsum_from_stored: "dec acc = acc \<Longrightarrow> dec (dsum_from acc xs) = dsum_from acc xs"
  by (induction xs arbitrary: acc) (simp_all add: dadd_def dec.rnd_idem)

lemma dsum_stored: "dec (dsum xs) = dsum xs"
  by (simp add: dsum_def dsum_from_stored)

lemma dsum_from_mono: "acc \<le> acc' \<Longrightarrow> dsum_from acc xs \<le> dsum_from acc' xs"
  by (induction xs arbitrary: acc acc') (simp_all add: dadd_def dec.rnd_mono)

lemma dsum_from_filter_le:
  assumes "dec acc = acc" "\<forall>x \<in> set xs. 0 \<le> g x"
  shows "dsum_from acc (map g (filter p xs)) \<le> dsum_from acc (map g xs)"
  using assms
proof (induction xs arbitrary: acc)
  case (Cons x xs)
  have stored: "dec (dadd acc (g x)) = dadd acc (g x)" by (simp add: dadd_def dec.rnd_idem)
  have "acc \<le> dadd acc (g x)"
    unfolding dadd_def using Cons.prems dec.rnd_mono[of acc "acc + g x"] by simp
  then have "dsum_from acc (map g (filter p xs)) \<le> dsum_from (dadd acc (g x)) (map g (filter p xs))"
    by (rule dsum_from_mono)
  with Cons.IH[OF stored] Cons.IH[of acc] Cons.prems show ?case by (auto intro: order_trans)
qed simp

lemma dsum_filter_le:
  "\<forall>x \<in> set xs. 0 \<le> g x \<Longrightarrow> dsum (map g (filter p xs)) \<le> dsum (map g xs)"
  unfolding dsum_def by (rule dsum_from_filter_le) simp_all

lemma dsum_snoc: "dsum (xs @ [x]) = dadd (dsum xs) x"
  by (simp add: dsum_def dsum_from_append)

text \<open>Whole multiples of a power of ten below the precision add up exactly.\<close>

lemma quantize_multiple:
  "quantize mode e x = Some y \<Longrightarrow> \<exists>k. y = of_int k * 10 powi e \<and> \<bar>k\<bar> < 10 ^ 28"
  by (auto simp: quantize_def Let_def not_le split: if_splits)

lemma quantize_stored: "quantize mode e x = Some y \<Longrightarrow> dec y = y"
  by (metis quantize_multiple dec_exact less_imp_le)

lemma round_half_up_near: "\<bar>of_int (round_half_up x) - x\<bar> \<le> 1 / 2"
proof (cases "0 \<le> x")
  case True
  then have "round_half_up x = \<lfloor>x + 1 / 2\<rfloor>" by (simp add: round_half_up_def)
  moreover have "\<bar>of_int \<lfloor>x + 1 / 2\<rfloor> - x\<bar> \<le> 1 / 2" by linarith
  ultimately show ?thesis by simp
next
  case False
  then have "round_half_up x = - \<lfloor>1 / 2 - x\<rfloor>" by (simp add: round_half_up_def)
  moreover have "\<bar>- of_int \<lfloor>1 / 2 - x\<rfloor> - x\<bar> \<le> 1 / 2" by linarith
  ultimately show ?thesis by simp
qed

lemma round_half_up_mono: "x \<le> y \<Longrightarrow> round_half_up x \<le> round_half_up y"
proof -
  assume "x \<le> y"
  consider "0 \<le> x" | "x < 0" "0 \<le> y" | "y < 0" by linarith
  then show ?thesis
  proof cases
    case 1
    with \<open>x \<le> y\<close> show ?thesis by (simp add: round_half_up_def floor_mono)
  next
    case 2
    then have "0 \<le> \<lfloor>1 / 2 - x\<rfloor>" "0 \<le> \<lfloor>y + 1 / 2\<rfloor>" by simp_all
    moreover have "round_half_up x = - \<lfloor>1 / 2 - x\<rfloor>" "round_half_up y = \<lfloor>y + 1 / 2\<rfloor>"
      using 2 by (simp_all add: round_half_up_def)
    ultimately show ?thesis by linarith
  next
    case 3
    with \<open>x \<le> y\<close> have "\<lfloor>1 / 2 - y\<rfloor> \<le> \<lfloor>1 / 2 - x\<rfloor>" by (intro floor_mono) simp
    with 3 \<open>x \<le> y\<close> show ?thesis by (simp add: round_half_up_def)
  qed
qed

lemma round_down_le: "0 \<le> x \<Longrightarrow> of_int (round_down x) \<le> x"
  by (simp add: round_down_def)

lemma round_down_nonneg: "0 \<le> x \<Longrightarrow> 0 \<le> round_down x"
  by (simp add: round_down_def)

section \<open>Binary64 floats\<close>

definition flt :: "rat \<Rightarrow> rat" where
  "flt x = sig_round 2 53 x"

definition flt_eps :: rat where
  "flt_eps = 1 / 2 ^ 53"

interpretation flt: sig_rounding flt flt_eps
proof -
  have "flt = sig_round 2 53" by (rule ext) (simp add: flt_def)
  then show "sig_rounding flt flt_eps"
    using sig_round_sig_rounding[of 2 53] by (simp add: flt_eps_def)
qed

definition fadd :: "rat \<Rightarrow> rat \<Rightarrow> rat" where "fadd x y = flt (x + y)"

text \<open>
  The built-in \<open>sum\<close> over floats in the interpreter the services pin (3.12): the first float
  replaces the integer zero, then every addition keeps its rounding error in a compensation term
  that is added at the end.
\<close>

fun fsum_from :: "rat \<Rightarrow> rat \<Rightarrow> rat list \<Rightarrow> rat" where
  "fsum_from hi c [] = (if c = 0 then hi else fadd hi c)"
| "fsum_from hi c (x # xs) =
     (let t = fadd hi x;
          c' = (if \<bar>x\<bar> \<le> \<bar>hi\<bar> then fadd c (fadd (fadd hi (- t)) x) else fadd c (fadd (fadd x (- t)) hi))
      in fsum_from t c' xs)"

fun fsum :: "rat list \<Rightarrow> rat" where
  "fsum [] = 0"
| "fsum (x # xs) = fsum_from x 0 xs"

lemma flt_exact:
  "x = of_int k * 2 powi e \<Longrightarrow> \<bar>k\<bar> \<le> 2 ^ 53 \<Longrightarrow> flt x = x"
  using sig_round_exact[of 2 53 x k e] by (simp add: flt_def)

lemma flt_of_int: "\<bar>k\<bar> \<le> 2 ^ 53 \<Longrightarrow> flt (of_int k) = of_int k"
  by (rule flt_exact[where e = 0]) simp_all

lemma flt_numeral [simp]: "(numeral k :: int) \<le> 2 ^ 53 \<Longrightarrow> flt (numeral k) = numeral k"
  using flt_of_int[of "numeral k"] by simp

lemma flt_0 [simp]: "flt 0 = 0"
  by (rule flt.rnd_zero)

section \<open>Elapsed time\<close>

text \<open>
  \<open>timedelta.total_seconds\<close> is a float: the microseconds divided by a million, rounded once.
  Against a whole number of seconds the comparison is nevertheless the exact one for every
  duration below 2 to the 33 seconds, about 272 years.
\<close>

definition total_seconds :: "duration \<Rightarrow> rat" where
  "total_seconds d = flt (of_int d / 1000000)"

lemma total_seconds_mono: "d \<le> d' \<Longrightarrow> total_seconds d \<le> total_seconds d'"
  by (simp add: total_seconds_def flt.rnd_mono divide_right_mono)

lemma total_seconds_less_iff:
  assumes d: "\<bar>d\<bar> \<le> 2 ^ 33 * 1000000" and n: "\<bar>n\<bar> \<le> 2 ^ 53"
  shows "total_seconds d < of_int n \<longleftrightarrow> d < n * 1000000"
proof
  assume "d < n * 1000000"
  then have "d \<le> n * 1000000 - 1" by simp
  then have "(of_int d :: rat) \<le> of_int (n * 1000000 - 1)" by (simp only: of_int_le_iff)
  then have lt: "of_int d / 1000000 \<le> (of_int n :: rat) - 1 / 1000000" by (simp add: field_simps)
  have "(of_int \<bar>d\<bar> :: rat) \<le> of_int (2 ^ 33 * 1000000)" using d by (simp only: of_int_le_iff)
  then have "\<bar>of_int d / 1000000\<bar> \<le> (2 ^ 33 :: rat)" by (simp add: abs_divide)
  then have "flt_eps * \<bar>of_int d / 1000000\<bar> \<le> flt_eps * 2 ^ 33"
    by (intro mult_left_mono) (simp_all add: flt_eps_def)
  then have "total_seconds d \<le> of_int d / 1000000 + flt_eps * 2 ^ 33"
    using flt.rnd_error[of "of_int d / 1000000"] unfolding total_seconds_def by linarith
  also have "\<dots> < of_int d / 1000000 + 1 / 1000000" by (simp add: flt_eps_def)
  finally show "total_seconds d < of_int n" using lt by simp
next
  assume *: "total_seconds d < of_int n"
  show "d < n * 1000000"
  proof (rule ccontr)
    assume "\<not> d < n * 1000000"
    then have "(of_int (n * 1000000) :: rat) \<le> of_int d" by (simp only: of_int_le_iff not_less)
    then have "flt (of_int n) \<le> total_seconds d"
      unfolding total_seconds_def by (intro flt.rnd_mono) (simp add: field_simps)
    with * flt_of_int[OF n] show False by simp
  qed
qed

lemma total_seconds_greater_iff:
  assumes "\<bar>d\<bar> \<le> 2 ^ 33 * 1000000" and "\<bar>n\<bar> \<le> 2 ^ 53"
  shows "of_int n < total_seconds d \<longleftrightarrow> n * 1000000 < d"
  using total_seconds_less_iff[of "- d" "- n"] assms flt.rnd_minus[of "of_int d / 1000000"]
  by (simp add: total_seconds_def)

end
