(* ===== verification/State_Descriptor.thy ===== *)
theory State_Descriptor
  imports Py_Text Rounding
begin

text \<open>
  \<open>services/control-plane/order_management/state_descriptor.py\<close> over the frozen lifecycle
  descriptor \<open>packages/contracts/v1/order_state.v1.json\<close>: the legal d_transitions, the targets of
  venue events, the breadth-first rank used to recognise stale backfills, and the permission
  matrix of the ACTIVE, REDUCING and HALTED modes. The descriptor's four domains are the data
  definitions below; the functions take a domain as their argument, as the source takes its
  name and looks it up.
\<close>

record domain =
  d_initial :: string
  d_states :: "(string \<times> bool) list"          \<comment> \<open>name and terminal flag\<close>
  d_transitions :: "(string \<times> string \<times> string) list"   \<comment> \<open>from, to, trigger\<close>
  d_any_state_to :: "string list"
  d_event_state_map :: "(string \<times> string) list"

section \<open>The descriptor\<close>

definition intent_domain :: domain where
  "intent_domain =
    \<lparr> d_initial = ''approved'',
      d_states = [
       (''approved'', False), (''dispatched'', False), (''node_accepted'', False),
       (''executing'', False), (''completed'', True), (''rejected'', True), (''denied'', True),
       (''failed'', True), (''expired'', True), (''cancelled'', True), (''needs_review'',
       False)],
      d_transitions = [
       (''approved'', ''dispatched'', ''execution_job_dispatched''),
       (''dispatched'', ''node_accepted'', ''node_accepted_intent''),
       (''node_accepted'', ''executing'', ''first_order_working_or_fill''),
       (''executing'', ''completed'', ''terminal_execution_result''),
       (''needs_review'', ''dispatched'', ''operator_resume''),
       (''needs_review'', ''cancelled'', ''operator_cancel'')],
      d_any_state_to = [''rejected'', ''denied'', ''failed'', ''expired'', ''cancelled'', ''needs_review''],
      d_event_state_map = [] \<rparr>"

definition order_domain :: domain where
  "order_domain =
    \<lparr> d_initial = ''planned'',
      d_states = [
       (''planned'', False), (''pending_submit'', False), (''submitted'', False),
       (''accepted'', False), (''working'', False), (''partially_filled'', False), (''filled'',
       True), (''rejected'', True), (''denied'', True), (''pending_cancel'', False),
       (''cancelled'', True), (''expired'', True), (''failed'', True), (''lost'', False)],
      d_transitions = [
       (''planned'', ''pending_submit'', ''plan_committed''),
       (''planned'', ''denied'', ''risk_denied_pre_submit''),
       (''planned'', ''denied'', ''OrderDenied''),
       (''pending_submit'', ''submitted'', ''OrderSubmitted''),
       (''pending_submit'', ''failed'', ''submit_failed_terminal''),
       (''pending_submit'', ''denied'', ''OrderDenied''),
       (''submitted'', ''accepted'', ''OrderAccepted''),
       (''submitted'', ''rejected'', ''OrderRejected''),
       (''submitted'', ''denied'', ''OrderDenied''),
       (''accepted'', ''working'', ''order_live_on_book''),
       (''accepted'', ''partially_filled'', ''OrderFilled_partial''),
       (''accepted'', ''filled'', ''OrderFilled_full''),
       (''working'', ''partially_filled'', ''OrderFilled_partial''),
       (''working'', ''filled'', ''OrderFilled_full''),
       (''partially_filled'', ''partially_filled'', ''OrderFilled_partial''),
       (''partially_filled'', ''filled'', ''OrderFilled_full''),
       (''accepted'', ''pending_cancel'', ''OrderPendingCancel''),
       (''working'', ''pending_cancel'', ''OrderPendingCancel''),
       (''partially_filled'', ''pending_cancel'', ''OrderPendingCancel''),
       (''pending_cancel'', ''cancelled'', ''OrderCanceled''),
       (''accepted'', ''cancelled'', ''OrderCanceled''),
       (''working'', ''cancelled'', ''OrderCanceled''),
       (''partially_filled'', ''cancelled'', ''OrderCanceled''),
       (''working'', ''expired'', ''OrderExpired''),
       (''accepted'', ''expired'', ''OrderExpired''),
       (''lost'', ''working'', ''reconciliation_resolved_live''),
       (''lost'', ''filled'', ''reconciliation_resolved_filled''),
       (''lost'', ''cancelled'', ''reconciliation_resolved_cancelled'')],
      d_any_state_to = [''lost''],
      d_event_state_map = [
       (''OrderSubmitted'', ''submitted''), (''OrderAccepted'', ''accepted''),
       (''OrderFilled'', ''derive''), (''OrderCanceled'', ''cancelled''), (''OrderRejected'',
       ''rejected''), (''OrderDenied'', ''denied''), (''OrderExpired'', ''expired''),
       (''OrderUpdated'', ''self''), (''OrderPendingUpdate'', ''self''),
       (''OrderPendingCancel'', ''pending_cancel'')] \<rparr>"

definition position_domain :: domain where
  "position_domain =
    \<lparr> d_initial = ''opening'',
      d_states = [
       (''opening'', False), (''open'', False), (''reducing'', False), (''closed'', True),
       (''external'', False), (''reconciliation_required'', False)],
      d_transitions = [
       (''opening'', ''open'', ''PositionOpened''),
       (''open'', ''reducing'', ''PositionChanged_reduce''),
       (''reducing'', ''reducing'', ''PositionChanged_reduce''),
       (''reducing'', ''open'', ''PositionChanged_increase''),
       (''open'', ''closed'', ''PositionClosed''),
       (''reducing'', ''closed'', ''PositionClosed''),
       (''external'', ''open'', ''reconciliation_adopt_external''),
       (''external'', ''closed'', ''reconciliation_close_external''),
       (''reconciliation_required'', ''open'', ''reconciliation_resolved_open''),
       (''reconciliation_required'', ''closed'', ''reconciliation_resolved_closed'')],
      d_any_state_to = [''reconciliation_required''],
      d_event_state_map = [
       (''PositionOpened'', ''open''), (''PositionChanged'', ''derive''), (''PositionClosed'',
       ''closed'')] \<rparr>"

definition command_domain :: domain where
  "command_domain =
    \<lparr> d_initial = ''requested'',
      d_states = [
       (''requested'', False), (''accepted'', False), (''running'', False), (''verifying'',
       False), (''completed'', True), (''partial'', True), (''failed'', True), (''timed_out'',
       True)],
      d_transitions = [
       (''requested'', ''accepted'', ''orchestrator_accept''),
       (''accepted'', ''running'', ''dispatched_to_nodes''),
       (''running'', ''verifying'', ''all_nodes_acked''),
       (''verifying'', ''completed'', ''venue_final_verified''),
       (''verifying'', ''partial'', ''venue_residual_found''),
       (''running'', ''partial'', ''some_nodes_failed''),
       (''running'', ''failed'', ''all_nodes_failed''),
       (''running'', ''timed_out'', ''ack_timeout''),
       (''verifying'', ''timed_out'', ''verify_timeout'')],
      d_any_state_to = [],
      d_event_state_map = [] \<rparr>"

definition permission_matrix :: "(string \<times> (string \<times> bool) list) list" where
  "permission_matrix = [
     (''ACTIVE'',
       [(''open_position'', True), (''add_position'', True), (''partial_close'', True),
        (''close_position'', True), (''move_stop_loss'', True), (''move_stop_to_entry'', True),
        (''replace_take_profits'', True), (''cancel'', True), (''cancel_all'', True),
        (''close_all'', True)]),
     (''REDUCING'',
       [(''open_position'', False), (''add_position'', False), (''partial_close'', True),
        (''close_position'', True), (''move_stop_loss'', True), (''move_stop_to_entry'', True),
        (''replace_take_profits'', True), (''cancel'', True), (''cancel_all'', True),
        (''close_all'', True)]),
     (''HALTED'',
       [(''open_position'', False), (''add_position'', False), (''partial_close'', True),
        (''close_position'', True), (''move_stop_loss'', True), (''move_stop_to_entry'', True),
        (''replace_take_profits'', True), (''cancel'', True), (''cancel_all'', True),
        (''close_all'', True)])]"

definition opening_actions :: "string list" where
  "opening_actions = [''open_position'', ''add_position'']"

definition reduce_only_actions :: "string list" where
  "reduce_only_actions = [''partial_close'', ''close_position'', ''cancel'', ''cancel_all'', ''close_all'']"

section \<open>Functions over the descriptor\<close>

text \<open>
  The payload fields the derivations read, after \<open>_decimal\<close>: absent and unparsable values are
  None. \<open>quantity\<close> stands for \<open>payload.get("quantity") or payload.get("qty")\<close>.
\<close>

record fill_payload =
  p_quantity :: "rat option"
  p_filled_qty :: "rat option"
  p_leaves_qty :: "rat option"

definition derive_order_fill_state :: "fill_payload \<Rightarrow> string" where
  "derive_order_fill_state p =
     (if (case p_leaves_qty p of Some l \<Rightarrow> l \<le> 0 | None \<Rightarrow> False) then ''filled''
      else if (case (p_quantity p, p_filled_qty p) of
                 (Some q, Some f) \<Rightarrow> q \<le> f | _ \<Rightarrow> False) then ''filled''
      else ''partially_filled'')"

definition derive_position_changed_state :: "rat option \<Rightarrow> rat option \<Rightarrow> string" where
  "derive_position_changed_state quantity current_quantity =
     (case (quantity, current_quantity) of
        (Some q, Some c) \<Rightarrow> if dabs q < dabs c then ''reducing'' else ''open''
      | _ \<Rightarrow> ''open'')"

text \<open>\<open>event_target\<close> for the two domains the reducers ask about.\<close>

definition mapped_event :: "domain \<Rightarrow> string \<Rightarrow> string option" where
  "mapped_event d event_type = map_of (d_event_state_map d) event_type"

definition event_target_order :: "string \<Rightarrow> fill_payload \<Rightarrow> string option result" where
  "event_target_order event_type payload =
     (case mapped_event order_domain event_type of
        None \<Rightarrow> Inr None
      | Some m \<Rightarrow>
          if m = ''self'' then Inr (Some ''self'')
          else if m \<noteq> ''derive'' then Inr (Some m)
          else if event_type = ''OrderFilled'' then Inr (Some (derive_order_fill_state payload))
          else Inl ValueError)"

definition event_target_position ::
    "string \<Rightarrow> rat option \<Rightarrow> rat option \<Rightarrow> string option result" where
  "event_target_position event_type quantity current_quantity =
     (case mapped_event position_domain event_type of
        None \<Rightarrow> Inr None
      | Some m \<Rightarrow>
          if m = ''self'' then Inr (Some ''self'')
          else if m \<noteq> ''derive'' then Inr (Some m)
          else if event_type = ''PositionChanged''
            then Inr (Some (derive_position_changed_state quantity current_quantity))
          else Inl ValueError)"

definition state_is_terminal :: "domain \<Rightarrow> string \<Rightarrow> bool" where
  "state_is_terminal d s = (map_of (d_states d) s = Some True)"

definition legal_transition :: "domain \<Rightarrow> string \<Rightarrow> string \<Rightarrow> bool" where
  "legal_transition d current target =
     (if current = target then True
      else if state_is_terminal d current then False
      else if \<exists>e \<in> set (d_transitions d). fst e = current \<and> fst (snd e) = target then True
      else target \<in> set (d_any_state_to d))"

definition transition_matches :: "domain \<Rightarrow> string option \<Rightarrow> string \<Rightarrow> string list" where
  "transition_matches d current trigger =
     [t. (f, t, g) \<leftarrow> d_transitions d, g = trigger, current = None \<or> current = Some f]"

text \<open>
  The last branch of \<open>transition_target\<close> (no current state and no match) scans the same edges
  again and can only find the empty set, so it contributes None.
\<close>

definition transition_target :: "domain \<Rightarrow> string option \<Rightarrow> string \<Rightarrow> string option" where
  "transition_target d current trigger =
     (let matches = transition_matches d current trigger
      in if length (remdups matches) = 1 then Some (hd matches)
         else if current = None \<and> matches = []
           then (let all_targets = remdups [t. (f, t, g) \<leftarrow> d_transitions d, g = trigger]
                 in if length all_targets = 1 then Some (hd all_targets) else None)
         else None)"

subsection \<open>Breadth-first ranks\<close>

definition succs :: "domain \<Rightarrow> string \<Rightarrow> string list" where
  "succs d node = [t. (f, t, g) \<leftarrow> d_transitions d, f = node]"

text \<open>The inner loop over the successors of a node of rank \<open>r\<close>.\<close>

fun visit :: "nat \<Rightarrow> string list \<Rightarrow> (string \<rightharpoonup> nat) \<Rightarrow> string list \<Rightarrow> (string \<rightharpoonup> nat) \<times> string list" where
  "visit r [] ranks queue = (ranks, queue)"
| "visit r (nxt # ns) ranks queue =
     (case ranks nxt of
        None \<Rightarrow> visit r ns (ranks(nxt \<mapsto> Suc r)) (queue @ [nxt])
      | Some _ \<Rightarrow> visit r ns ranks queue)"

definition edge_targets :: "domain \<Rightarrow> string set" where
  "edge_targets d = set (map (\<lambda>e. fst (snd e)) (d_transitions d))"

lemma set_succs: "set (succs d n) \<subseteq> edge_targets d"
  by (force simp: succs_def edge_targets_def)

lemma visit_measure:
  assumes "set ns \<subseteq> T" "finite T" "visit r ns ranks queue = (ranks', queue')"
  shows "(ranks', queue') = (ranks, queue) \<or> card (T - dom ranks') < card (T - dom ranks)"
  using assms
proof (induction ns arbitrary: ranks queue)
  case (Cons n ns)
  show ?case
  proof (cases "ranks n")
    case None
    with Cons.prems have v: "visit r ns (ranks(n \<mapsto> Suc r)) (queue @ [n]) = (ranks', queue')" by simp
    have "n \<in> T - dom ranks" using Cons.prems None by auto
    moreover have "T - dom (ranks(n \<mapsto> Suc r)) = (T - dom ranks) - {n}" by auto
    ultimately have "card (T - dom (ranks(n \<mapsto> Suc r))) < card (T - dom ranks)"
      using Cons.prems(2) by (metis card_Diff1_less finite_Diff)
    moreover have "ranks' = ranks(n \<mapsto> Suc r)
        \<or> card (T - dom ranks') < card (T - dom (ranks(n \<mapsto> Suc r)))"
    proof -
      have "set ns \<subseteq> T" using Cons.prems(1) by simp
      from Cons.IH[OF this Cons.prems(2) v] show ?thesis by (simp only: prod.inject) blast
    qed
    ultimately have "card (T - dom ranks') < card (T - dom ranks)"
      by (elim disjE) (hypsubst, assumption, erule (1) less_trans)
    then show ?thesis ..
  next
    case (Some x)
    with Cons show ?thesis by auto
  qed
qed auto

text \<open>
  The outer loop. A queued node is always ranked, so the default rank is never read. The loop
  ends: each round either ranks a further target of an edge or shortens the queue.
\<close>

function bfs :: "domain \<Rightarrow> (string \<rightharpoonup> nat) \<Rightarrow> string list \<Rightarrow> (string \<rightharpoonup> nat)" where
  "bfs d ranks [] = ranks"
| "bfs d ranks (node # queue) =
     (let (ranks', queue') = visit (case ranks node of Some r \<Rightarrow> r | None \<Rightarrow> 0) (succs d node) ranks queue
      in bfs d ranks' queue')"
  by pat_completeness auto
termination
proof (relation "measures [\<lambda>(d, ranks, queue). card (edge_targets d - dom ranks), \<lambda>(d, ranks, queue). length queue]")
  fix d ranks node queue p ranks' queue'
  assume "p = visit (case ranks node of Some r \<Rightarrow> r | None \<Rightarrow> 0) (succs d node) ranks queue"
    and "(ranks', queue') = p"
  then have "(ranks', queue') = (ranks, queue)
      \<or> card (edge_targets d - dom ranks') < card (edge_targets d - dom ranks)"
    by (intro visit_measure[OF set_succs, where r = "case ranks node of Some r \<Rightarrow> r | None \<Rightarrow> 0"])
      (simp_all add: edge_targets_def)
  then show "((d, ranks', queue'), d, ranks, node # queue) \<in> measures
      [\<lambda>(d, ranks, queue). card (edge_targets d - dom ranks), \<lambda>(d, ranks, queue). length queue]"
    by auto
qed simp

definition state_rank :: "domain \<Rightarrow> string option \<Rightarrow> int" where
  "state_rank d s =
     (case s of
        None \<Rightarrow> -1
      | Some st \<Rightarrow>
          (case bfs d [d_initial d \<mapsto> 0] [d_initial d] st of
             Some r \<Rightarrow> int r
           | None \<Rightarrow> 10000))"

subsection \<open>Permissions\<close>

definition halted_action_allowed :: "string \<Rightarrow> string \<Rightarrow> bool result" where
  "halted_action_allowed action mode =
     (case map_of permission_matrix (upper mode) of
        None \<Rightarrow> Inl KeyError
      | Some row \<Rightarrow> (case map_of row action of None \<Rightarrow> Inl KeyError | Some b \<Rightarrow> Inr b))"


section \<open>The ranks are shortest distances\<close>

inductive walk :: "domain \<Rightarrow> nat \<Rightarrow> string \<Rightarrow> string \<Rightarrow> bool" for d where
  walk_refl: "walk d 0 u u"
| walk_step: "walk d n u v \<Longrightarrow> w \<in> set (succs d v) \<Longrightarrow> walk d (Suc n) u w"

lemma visit_spec:
  "visit r ns ranks queue = (ranks', queue') \<Longrightarrow>
     \<exists>new. queue' = queue @ new \<and> set new = set ns - dom ranks
       \<and> ranks' = (\<lambda>x. if x \<in> set ns \<and> ranks x = None then Some (Suc r) else ranks x)"
proof (induction ns arbitrary: ranks queue)
  case (Cons n ns)
  show ?case
  proof (cases "ranks n")
    case None
    with Cons.prems have "visit r ns (ranks(n \<mapsto> Suc r)) (queue @ [n]) = (ranks', queue')" by simp
    from Cons.IH[OF this] obtain new where
      "queue' = (queue @ [n]) @ new" "set new = set ns - dom (ranks(n \<mapsto> Suc r))"
      "ranks' = (\<lambda>x. if x \<in> set ns \<and> (ranks(n \<mapsto> Suc r)) x = None then Some (Suc r) else (ranks(n \<mapsto> Suc r)) x)"
      by blast
    then have "queue' = queue @ n # new \<and> set (n # new) = set (n # ns) - dom ranks
       \<and> ranks' = (\<lambda>x. if x \<in> set (n # ns) \<and> ranks x = None then Some (Suc r) else ranks x)"
      using None by (auto simp: fun_eq_iff)
    then show ?thesis by blast
  next
    case (Some k)
    with Cons.prems have "visit r ns ranks queue = (ranks', queue')" by simp
    from Cons.IH[OF this] obtain new where
      "queue' = queue @ new \<and> set new = set ns - dom ranks
       \<and> ranks' = (\<lambda>x. if x \<in> set ns \<and> ranks x = None then Some (Suc r) else ranks x)" by blast
    with Some have "queue' = queue @ new \<and> set new = set (n # ns) - dom ranks
       \<and> ranks' = (\<lambda>x. if x \<in> set (n # ns) \<and> ranks x = None then Some (Suc r) else ranks x)"
      by (auto simp: fun_eq_iff)
    then show ?thesis by blast
  qed
qed auto

text \<open>
  The invariant of the outer loop: a rank is the length of a walk from the d_initial state, the
  queue is ordered by rank, no rank exceeds that of the queue's head by more than one, and a
  node that has left the queue has all its successors ranked at most one higher.
\<close>

definition rank_of :: "(string \<rightharpoonup> nat) \<Rightarrow> string \<Rightarrow> nat" where
  "rank_of ranks x = (case ranks x of Some r \<Rightarrow> r | None \<Rightarrow> 0)"

definition bfs_inv :: "domain \<Rightarrow> (string \<rightharpoonup> nat) \<Rightarrow> string list \<Rightarrow> bool" where
  "bfs_inv d ranks queue \<longleftrightarrow>
     ranks (d_initial d) = Some 0
     \<and> (\<forall>x r. ranks x = Some r \<longrightarrow> walk d r (d_initial d) x)
     \<and> set queue \<subseteq> dom ranks
     \<and> sorted (map (rank_of ranks) queue)
     \<and> (\<forall>x r. queue \<noteq> [] \<longrightarrow> ranks x = Some r \<longrightarrow> r \<le> Suc (rank_of ranks (hd queue)))
     \<and> (\<forall>x r. ranks x = Some r \<longrightarrow> x \<notin> set queue \<longrightarrow>
           (\<forall>y \<in> set (succs d x). \<exists>r'. ranks y = Some r' \<and> r' \<le> Suc r))"

lemma bfs_inv_init: "bfs_inv d [d_initial d \<mapsto> 0] [d_initial d]"
  by (auto simp: bfs_inv_def intro: walk_refl split: if_splits)

lemma bfs_inv_step:
  assumes inv: "bfs_inv d ranks (node # queue)"
    and v: "visit (rank_of ranks node) (succs d node) ranks queue = (ranks', queue')"
  shows "bfs_inv d ranks' queue'"
proof -
  obtain r where r: "ranks node = Some r" using inv by (auto simp: bfs_inv_def)
  then have rn: "rank_of ranks node = r" by (simp add: rank_of_def)
  obtain new where q: "queue' = queue @ new" and new: "set new = set (succs d node) - dom ranks"
    and ranks': "ranks' = (\<lambda>x. if x \<in> set (succs d node) \<and> ranks x = None then Some (Suc r) else ranks x)"
    using visit_spec[OF v] rn by blast
  have keep: "ranks' x = ranks x" "rank_of ranks' x = rank_of ranks x" if "x \<in> dom ranks" for x
    using that by (auto simp: ranks' rank_of_def)
  have fresh: "rank_of ranks' x = Suc r" if "x \<in> set new" for x
    using that new by (auto simp: ranks' rank_of_def split: option.splits)
  have old: "\<And>x k. ranks x = Some k \<Longrightarrow> k \<le> Suc r" and sub: "set queue \<subseteq> dom ranks"
    and srt: "sorted (map (rank_of ranks) queue)" "\<forall>x \<in> set queue. r \<le> rank_of ranks x"
    using inv rn by (auto simp: bfs_inv_def)
  have all: "k \<le> Suc r" if "ranks' x = Some k" for x k
    using that old by (auto simp: ranks' split: if_splits)
  have le: "rank_of ranks x \<le> Suc r" for x
    using old by (auto simp: rank_of_def split: option.splits)
  have s1: "map (rank_of ranks') queue = map (rank_of ranks) queue"
    and s2: "map (rank_of ranks') new = map (\<lambda>_. Suc r) new"
    using sub keep fresh by auto
  have sorted': "sorted (map (rank_of ranks') queue')"
    unfolding q map_append s1 s2 using srt le
    by (auto simp: sorted_append map_replicate_const)
  have head: "k \<le> Suc (rank_of ranks' (hd queue'))" if "queue' \<noteq> []" "ranks' x = Some k" for x k
  proof -
    have "hd queue' \<in> set queue \<or> hd queue' \<in> set new"
      using that(1) q by (cases queue) (auto simp: hd_in_set)
    then have "r \<le> rank_of ranks' (hd queue')"
      using srt(2) sub keep fresh by fastforce
    with all[OF that(2)] show ?thesis by linarith
  qed
  have walks: "walk d k (d_initial d) x" if "ranks' x = Some k" for x k
    using that inv r by (auto simp: ranks' bfs_inv_def split: if_splits intro: walk_step)
  have out: "\<exists>k'. ranks' y = Some k' \<and> k' \<le> Suc k"
    if "ranks' x = Some k" "x \<notin> set queue'" and y: "y \<in> set (succs d x)" for x k y
  proof (cases "x = node")
    case True
    then have "k = r" using that(1) r by (simp add: ranks')
    moreover have "y \<in> dom ranks'" using y True by (auto simp: ranks' split: if_splits)
    ultimately show ?thesis using all by auto
  next
    case False
    have "x \<in> dom ranks" using that(1,2) new by (auto simp: ranks' q split: if_splits)
    then have "ranks x = Some k" "x \<notin> set (node # queue)"
      using that(1,2) False keep(1)[of x] q by auto
    then obtain k' where "ranks y = Some k'" "k' \<le> Suc k"
      using inv y unfolding bfs_inv_def by blast
    then show ?thesis by (auto simp: ranks')
  qed
  have "ranks' (d_initial d) = Some 0" using inv by (simp add: ranks' bfs_inv_def)
  moreover have "set queue' \<subseteq> dom ranks'" using sub new by (auto simp: q ranks')
  ultimately show ?thesis unfolding bfs_inv_def using walks sorted' head out by blast
qed

lemma bfs_inv_final: "bfs_inv d ranks queue \<Longrightarrow> bfs_inv d (bfs d ranks queue) []"
proof (induction d ranks queue rule: bfs.induct)
  case (2 d ranks node queue)
  obtain ranks' queue' where v: "visit (rank_of ranks node) (succs d node) ranks queue = (ranks', queue')"
    by (cases "visit (rank_of ranks node) (succs d node) ranks queue") auto
  with "2.prems" have "bfs_inv d ranks' queue'" by (rule bfs_inv_step)
  with "2.IH" v show ?case by (simp add: rank_of_def)
qed simp

lemma bfs_complete:
  assumes "bfs_inv d ranks []" "walk d n (d_initial d) x"
  shows "\<exists>r \<le> n. ranks x = Some r"
  using assms(2)
proof (induction n "d_initial d" x rule: walk.induct)
  case walk_refl
  then show ?case using assms(1) by (simp add: bfs_inv_def)
next
  case (walk_step n v w)
  then obtain r where r: "r \<le> n" "ranks v = Some r" by blast
  with assms(1) walk_step(3) obtain r' where "ranks w = Some r'" "r' \<le> Suc r"
    unfolding bfs_inv_def by fastforce
  with r show ?case by auto
qed

text \<open>
  \<open>state_rank\<close> computes breadth-first distance: the rank of a state is the length of the
  shortest chain of descriptor transitions that leads to it from the domain's initial state,
  and 10000 exactly when no chain leads to it (the interrupt-only states).
\<close>

theorem state_rank_is_distance:
  "state_rank d (Some s) =
     (if \<exists>n. walk d n (d_initial d) s then int (LEAST n. walk d n (d_initial d) s) else 10000)"
proof -
  define ranks where "ranks = bfs d [d_initial d \<mapsto> 0] [d_initial d]"
  have inv: "bfs_inv d ranks []" unfolding ranks_def by (rule bfs_inv_final[OF bfs_inv_init])
  have walks: "walk d r (d_initial d) s" if "ranks s = Some r" for r
    using inv that by (simp add: bfs_inv_def)
  have rank: "state_rank d (Some s) = (case ranks s of Some r \<Rightarrow> int r | None \<Rightarrow> 10000)"
    unfolding state_rank_def ranks_def by (simp only: option.case)
  show ?thesis
  proof (cases "\<exists>n. walk d n (d_initial d) s")
    case True
    then have "walk d (LEAST n. walk d n (d_initial d) s) (d_initial d) s" by (rule LeastI_ex)
    then obtain r where r: "r \<le> (LEAST n. walk d n (d_initial d) s)" "ranks s = Some r"
      using bfs_complete[OF inv] by blast
    then have "r = (LEAST n. walk d n (d_initial d) s)"
      using walks by (meson Least_le le_antisym)
    with r rank True show ?thesis by simp
  next
    case False
    with walks have "ranks s = None" by (cases "ranks s") auto
    with False rank show ?thesis by simp
  qed
qed

section \<open>The descriptor is consistent and the reduce channel is always open\<close>

definition domain_well_formed :: "domain \<Rightarrow> bool" where
  "domain_well_formed d \<longleftrightarrow>
     (let names = map fst (d_states d) in
      distinct names \<and> d_initial d \<in> set names
      \<and> (\<forall>(f, t, g) \<in> set (d_transitions d). f \<in> set names \<and> t \<in> set names \<and> \<not> state_is_terminal d f)
      \<and> set (d_any_state_to d) \<subseteq> set names
      \<and> (\<forall>(e, m) \<in> set (d_event_state_map d). m \<in> set names \<or> m = ''self'' \<or> m = ''derive''))"

lemma intent_domain_well_formed: "domain_well_formed intent_domain"
  by code_simp

lemma order_domain_well_formed: "domain_well_formed order_domain"
  by code_simp

lemma position_domain_well_formed: "domain_well_formed position_domain"
  by code_simp

lemma command_domain_well_formed: "domain_well_formed command_domain"
  by code_simp

text \<open>A legal move never leaves a terminal state, so a terminal state is absorbing.\<close>

lemma legal_from_terminal:
  "state_is_terminal d s \<Longrightarrow> legal_transition d s t \<longleftrightarrow> t = s"
  by (auto simp: legal_transition_def)

lemma legal_closed:
  assumes "domain_well_formed d" "s \<in> fst ` set (d_states d)" "legal_transition d s t"
  shows "t \<in> fst ` set (d_states d)"
  using assms by (auto simp: domain_well_formed_def legal_transition_def Let_def split: if_splits)

lemma halted_action_allowed_Inr:
  assumes "halted_action_allowed a m = Inr b"
  shows "\<exists>row. (upper m, row) \<in> set permission_matrix \<and> (a, b) \<in> set row"
  using assms by (auto simp: halted_action_allowed_def split: option.splits dest!: map_of_SomeD)

lemma permission_rows:
  "list_all (\<lambda>(m, row). list_all (\<lambda>(a, b). b = (m = ''ACTIVE'' \<or> a \<notin> set opening_actions)) row)
     permission_matrix"
  by code_simp

lemma halted_action_allowed_char:
  assumes "halted_action_allowed a m = Inr b"
  shows "b \<longleftrightarrow> upper m = ''ACTIVE'' \<or> a \<notin> set opening_actions"
proof -
  obtain row where "(upper m, row) \<in> set permission_matrix" "(a, b) \<in> set row"
    using halted_action_allowed_Inr[OF assms] by blast
  with permission_rows show ?thesis by (fastforce simp: list_all_iff)
qed

lemma reduce_only_always_allowed:
  "list_all (\<lambda>a. list_all (\<lambda>m. halted_action_allowed a m = Inr True) [''ACTIVE'', ''REDUCING'', ''HALTED''])
     reduce_only_actions"
  by code_simp

text \<open>
  The kill-switch matrix blocks exactly new risk: whenever mode and action are in the
  frozen matrix, the action is permitted if and only if the mode is ACTIVE or the action does
  not open or add to a position. In particular cancelling, reducing and closing are permitted
  in every mode, HALTED included.
\<close>

theorem halted_action_allowed_iff:
  assumes "halted_action_allowed a m = Inr b"
  shows "(b \<longleftrightarrow> upper m = ''ACTIVE'' \<or> a \<notin> set opening_actions)
    \<and> (a \<in> set reduce_only_actions \<longrightarrow> b)"
proof -
  have "set reduce_only_actions \<inter> set opening_actions = {}" by code_simp
  with halted_action_allowed_char[OF assms] show ?thesis by blast
qed

theorem halted_action_allowed_iff_witness:
  "halted_action_allowed ''close_all'' ''halted'' = Inr True
   \<and> ''close_all'' \<notin> set opening_actions"
proof -
  have h: "halted_action_allowed ''close_all'' ''halted'' = Inr True" by code_simp
  have "upper ''halted'' \<noteq> ''ACTIVE''" by code_simp
  with halted_action_allowed_iff[OF h] h show ?thesis by blast
qed

end
