(* ===== verification/Freshness.thy ===== *)
theory Freshness
  imports State_Descriptor
begin

text \<open>
  \<open>services/control-plane/order_management/freshness.py\<close>: the staleness gate. A component
  that has not been heard from within its window blocks new risk and leaves the reduce-only
  channel open.
\<close>

record FreshnessConfig =
  market_data_stale_seconds :: int
  account_data_stale_seconds :: int
  execution_event_stale_seconds :: int
  projection_lag_threshold_ms :: int
  reconciliation_stale_seconds :: int

definition default_freshness_config :: FreshnessConfig where
  "default_freshness_config =
     \<lparr> market_data_stale_seconds = 10, account_data_stale_seconds = 15,
       execution_event_stale_seconds = 30, projection_lag_threshold_ms = 5000,
       reconciliation_stale_seconds = 300 \<rparr>"

record FreshnessState =
  fs_config :: FreshnessConfig
  fs_market_data_last_seen_at :: "instant option"
  fs_account_data_last_seen_at :: "instant option"
  fs_execution_event_last_seen_at :: "instant option"
  fs_projection_applied_at :: "instant option"
  fs_reconciliation_verified_at :: "instant option"

text \<open>\<open>payload k\<close> is the truth value of \<open>payload.get(k)\<close>.\<close>

definition record_heartbeat :: "FreshnessState \<Rightarrow> (string \<Rightarrow> bool) \<Rightarrow> instant \<Rightarrow> FreshnessState" where
  "record_heartbeat st payload observed_at =
     (let st1 = if payload ''market_data'' then st\<lparr>fs_market_data_last_seen_at := Some observed_at\<rparr> else st;
          st2 = if payload ''account_data'' then st1\<lparr>fs_account_data_last_seen_at := Some observed_at\<rparr> else st1;
          st3 = if payload ''execution_event'' then st2\<lparr>fs_execution_event_last_seen_at := Some observed_at\<rparr> else st2;
          st4 = if payload ''projection_applied'' then st3\<lparr>fs_projection_applied_at := Some observed_at\<rparr> else st3
      in if payload ''reconciliation_verified'' then st4\<lparr>fs_reconciliation_verified_at := Some observed_at\<rparr> else st4)"

text \<open>The guard of the single recorders: no payload, or one that is not empty.\<close>

definition payload_counts :: "'a list option \<Rightarrow> bool" where
  "payload_counts payload = (case payload of None \<Rightarrow> True | Some p \<Rightarrow> p \<noteq> [])"

definition record_market_data :: "FreshnessState \<Rightarrow> instant \<Rightarrow> 'a list option \<Rightarrow> FreshnessState" where
  "record_market_data st observed_at payload =
     (if payload_counts payload then st\<lparr>fs_market_data_last_seen_at := Some observed_at\<rparr> else st)"

definition record_account_data :: "FreshnessState \<Rightarrow> instant \<Rightarrow> 'a list option \<Rightarrow> FreshnessState" where
  "record_account_data st observed_at payload =
     (if payload_counts payload then st\<lparr>fs_account_data_last_seen_at := Some observed_at\<rparr> else st)"

definition record_execution_event :: "FreshnessState \<Rightarrow> instant \<Rightarrow> 'a list option \<Rightarrow> FreshnessState" where
  "record_execution_event st observed_at payload =
     (if payload_counts payload then st\<lparr>fs_execution_event_last_seen_at := Some observed_at\<rparr> else st)"

definition record_projection_applied :: "FreshnessState \<Rightarrow> instant \<Rightarrow> 'a list option \<Rightarrow> FreshnessState" where
  "record_projection_applied st observed_at payload =
     (if payload_counts payload then st\<lparr>fs_projection_applied_at := Some observed_at\<rparr> else st)"

definition record_reconciliation_verified :: "FreshnessState \<Rightarrow> instant \<Rightarrow> 'a list option \<Rightarrow> FreshnessState" where
  "record_reconciliation_verified st observed_at payload =
     (if payload_counts payload then st\<lparr>fs_reconciliation_verified_at := Some observed_at\<rparr> else st)"

definition seen_stale :: "instant \<Rightarrow> instant option \<Rightarrow> int \<Rightarrow> bool" where
  "seen_stale now timestamp seconds =
     (case timestamp of None \<Rightarrow> True | Some t \<Rightarrow> of_int seconds < total_seconds (now - t))"

definition projection_stale :: "instant \<Rightarrow> instant option \<Rightarrow> int \<Rightarrow> bool" where
  "projection_stale now applied_at threshold_ms =
     (case applied_at of
        None \<Rightarrow> True
      | Some t \<Rightarrow> of_int threshold_ms < flt (total_seconds (now - t) * 1000))"

definition stale_reasons :: "FreshnessState \<Rightarrow> instant \<Rightarrow> string list" where
  "stale_reasons st now =
     (let c = fs_config st;
          checks = [(''market_data'', fs_market_data_last_seen_at st, market_data_stale_seconds c),
                    (''account_data'', fs_account_data_last_seen_at st, account_data_stale_seconds c),
                    (''execution_event'', fs_execution_event_last_seen_at st, execution_event_stale_seconds c),
                    (''reconciliation'', fs_reconciliation_verified_at st, reconciliation_stale_seconds c)]
      in [name. (name, timestamp, seconds) \<leftarrow> checks, seen_stale now timestamp seconds]
         @ (if projection_stale now (fs_projection_applied_at st) (projection_lag_threshold_ms c)
            then [''projection''] else []))"

definition is_stale :: "FreshnessState \<Rightarrow> instant \<Rightarrow> bool" where
  "is_stale st now = (stale_reasons st now \<noteq> [])"

definition max_new_risk_notional :: "FreshnessState \<Rightarrow> rat \<Rightarrow> instant \<Rightarrow> rat" where
  "max_new_risk_notional st requested_notional now =
     (if is_stale st now then 0 else requested_notional)"

definition is_action_allowed :: "FreshnessState \<Rightarrow> string \<Rightarrow> instant \<Rightarrow> string \<Rightarrow> bool result" where
  "is_action_allowed st action now mode =
     (if is_stale st now then halted_action_allowed action ''HALTED''
      else if action \<in> set opening_actions then Inr (upper mode = ''ACTIVE'')
      else halted_action_allowed action mode)"

lemma is_stale_iff:
  "is_stale st now \<longleftrightarrow>
     seen_stale now (fs_market_data_last_seen_at st) (market_data_stale_seconds (fs_config st))
     \<or> seen_stale now (fs_account_data_last_seen_at st) (account_data_stale_seconds (fs_config st))
     \<or> seen_stale now (fs_execution_event_last_seen_at st) (execution_event_stale_seconds (fs_config st))
     \<or> seen_stale now (fs_reconciliation_verified_at st) (reconciliation_stale_seconds (fs_config st))
     \<or> projection_stale now (fs_projection_applied_at st) (projection_lag_threshold_ms (fs_config st))"
  by (auto simp: is_stale_def stale_reasons_def Let_def)

text \<open>Staleness grows with time: a window that has closed does not reopen by waiting.\<close>

lemma seen_stale_mono:
  assumes "seen_stale now ts n" "now \<le> now'"
  shows "seen_stale now' ts n"
proof (cases ts)
  case (Some t)
  have "total_seconds (now - t) \<le> total_seconds (now' - t)"
    using assms(2) by (intro total_seconds_mono) simp
  with Some assms(1) show ?thesis by (simp add: seen_stale_def)
qed (simp add: seen_stale_def)

lemma projection_stale_mono:
  assumes "projection_stale now ts n" "now \<le> now'"
  shows "projection_stale now' ts n"
proof (cases ts)
  case (Some t)
  have "total_seconds (now - t) \<le> total_seconds (now' - t)"
    using assms(2) by (intro total_seconds_mono) simp
  then have "flt (total_seconds (now - t) * 1000) \<le> flt (total_seconds (now' - t) * 1000)"
    by (intro flt.rnd_mono) simp
  with Some assms(1) show ?thesis by (simp add: projection_stale_def)
qed (simp add: projection_stale_def)

lemma is_stale_mono: "is_stale st now \<Longrightarrow> now \<le> now' \<Longrightarrow> is_stale st now'"
  unfolding is_stale_iff using seen_stale_mono projection_stale_mono by blast

text \<open>A heartbeat that carries every channel makes the state fresh at the moment it is seen.\<close>

lemma total_seconds_0 [simp]: "total_seconds 0 = 0"
  by (simp add: total_seconds_def flt.rnd_zero)

definition windows_nonneg :: "FreshnessConfig \<Rightarrow> bool" where
  "windows_nonneg c \<longleftrightarrow>
     0 \<le> market_data_stale_seconds c \<and> 0 \<le> account_data_stale_seconds c
     \<and> 0 \<le> execution_event_stale_seconds c \<and> 0 \<le> reconciliation_stale_seconds c
     \<and> 0 \<le> projection_lag_threshold_ms c"

lemma full_heartbeat_fresh:
  assumes "windows_nonneg (fs_config st)"
  shows "\<not> is_stale (record_heartbeat st (\<lambda>_. True) now) now"
  using assms
  by (auto simp: is_stale_iff record_heartbeat_def Let_def windows_nonneg_def seen_stale_def
      projection_stale_def flt.rnd_zero)

text \<open>
  The freshness gate fails closed: an action that opens or adds risk is allowed only when
  every monitored feed is inside its window and the mode is ACTIVE, and once stale the state
  stays closed to it until a feed is recorded again, however long one waits.
\<close>

theorem freshness_gate_fails_closed:
  assumes "action \<in> set opening_actions" and "is_action_allowed st action now mode = Inr True"
  shows "\<not> is_stale st now \<and> upper mode = ''ACTIVE''
    \<and> (\<forall>earlier. earlier \<le> now \<longrightarrow> \<not> is_stale st earlier)"
proof -
  have fresh: "\<not> is_stale st now"
  proof
    assume "is_stale st now"
    then have "halted_action_allowed action ''HALTED'' = Inr True"
      using assms(2) by (simp add: is_action_allowed_def)
    then have "upper ''HALTED'' = ''ACTIVE''"
      using halted_action_allowed_char[of action "''HALTED''" True] assms(1) by blast
    then show False by code_simp
  qed
  with assms have "upper mode = ''ACTIVE''" by (simp add: is_action_allowed_def)
  with fresh show ?thesis using is_stale_mono by blast
qed

theorem freshness_gate_fails_closed_witness:
  "is_action_allowed (record_heartbeat
       \<lparr> fs_config = default_freshness_config, fs_market_data_last_seen_at = None,
         fs_account_data_last_seen_at = None, fs_execution_event_last_seen_at = None,
         fs_projection_applied_at = None, fs_reconciliation_verified_at = None \<rparr>
       (\<lambda>_. True) 1000000) ''open_position'' 5000000 ''active'' = Inr True
   \<and> upper ''active'' = ''ACTIVE''"
proof -
  let ?st = "record_heartbeat
       \<lparr> fs_config = default_freshness_config, fs_market_data_last_seen_at = None,
         fs_account_data_last_seen_at = None, fs_execution_event_last_seen_at = None,
         fs_projection_applied_at = None, fs_reconciliation_verified_at = None \<rparr>
       (\<lambda>_. True) 1000000"
  have 1: "''open_position'' \<in> set opening_actions" by code_simp
  have 2: "is_action_allowed ?st ''open_position'' 5000000 ''active'' = Inr True"
  proof -
    have "total_seconds 4000000 = 4" "flt 4000 = 4000"
      using flt_of_int[of 4] flt_of_int[of 4000] by (simp_all add: total_seconds_def)
    moreover have "upper ''active'' = ''ACTIVE''" by code_simp
    ultimately show ?thesis using 1
      by (simp add: is_action_allowed_def is_stale_iff record_heartbeat_def Let_def seen_stale_def
          projection_stale_def default_freshness_config_def)
  qed
  from freshness_gate_fails_closed[OF 1 2] 2 show ?thesis by simp
qed

end
