(* ===== verification/Identifiers.thy ===== *)
theory Identifiers
  imports Py_Text
begin

text \<open>
  \<open>packages/execution-domain/execution_domain/identifiers.py\<close>: the canonical spelling of
  instruments, accounts and positions that every projection, reservation and risk row is
  keyed by.
\<close>

record CanonicalInstrument =
  ci_raw :: string
  ci_venue_symbol :: symbol
  ci_venue :: "string option"
  ci_product :: "string option"

definition venue_symbol :: "string \<Rightarrow> symbol" where
  "venue_symbol x =
     (let r = strip x;
          before_venue = before_char (CHR ''.'') r;
          before_product = before_char (CHR ''-'') before_venue
      in upper (strip before_product))"

definition parse_instrument :: "string \<Rightarrow> CanonicalInstrument" where
  "parse_instrument x =
     (let r = strip x;
          before_venue = before_char (CHR ''.'') r; sep = CHR ''.'' \<in> set r;
          after_venue = after_char (CHR ''.'') r;
          before_product = before_char (CHR ''-'') before_venue;
          product_sep = CHR ''-'' \<in> set before_venue;
          prod = after_char (CHR ''-'') before_venue
      in \<lparr> ci_raw = r,
           ci_venue_symbol = venue_symbol before_product,
           ci_venue = (if sep \<and> strip after_venue \<noteq> [] then Some (upper (strip after_venue)) else None),
           ci_product = (if product_sep \<and> strip prod \<noteq> [] then Some (upper (strip prod)) else None) \<rparr>)"

definition canonical_instrument_key :: "string \<Rightarrow> symbol" where
  "canonical_instrument_key x = venue_symbol x"

definition instruments_match :: "string option \<Rightarrow> string option \<Rightarrow> bool" where
  "instruments_match a b =
     (case (a, b) of
        (Some a', Some b') \<Rightarrow>
          (let left = canonical_instrument_key a'; right = canonical_instrument_key b'
           in left \<noteq> [] \<and> right \<noteq> [] \<and> left = right)
      | _ \<Rightarrow> False)"

definition canonical_account_id :: "string option \<Rightarrow> account_id result" where
  "canonical_account_id x =
     (case x of
        None \<Rightarrow> Inl ValueError
      | Some s \<Rightarrow> if strip s = [] then Inl ValueError else Inr (strip s))"

record PositionKey =
  pk_account_id :: "string option"
  pk_venue_symbol :: string
  pk_side :: "string option"

definition position_key_key :: "PositionKey \<Rightarrow> string result" where
  "position_key_key k =
     bind_result (canonical_account_id (pk_account_id k)) (\<lambda>account.
       let sym = canonical_instrument_key (pk_venue_symbol k)
       in if sym = [] then Inl ValueError
          else (case pk_side k of
                  None \<Rightarrow> Inr (account @ '':'' @ sym)
                | Some s \<Rightarrow>
                    (let side = lower (strip s)
                     in if side \<notin> {''long'', ''short''} then Inl ValueError
                        else Inr (account @ '':'' @ sym @ '':'' @ side))))"

definition canonical_position_key :: "string option \<Rightarrow> string \<Rightarrow> string option \<Rightarrow> string result" where
  "canonical_position_key account instrument side =
     position_key_key \<lparr> pk_account_id = account, pk_venue_symbol = instrument, pk_side = side \<rparr>"

section \<open>Canonical symbols\<close>

lemma not_in_before_char: "c \<notin> set (before_char c s)"
  by (auto simp: before_char_def dest: set_takeWhileD)

lemma before_char_id: "c \<notin> set s \<Longrightarrow> before_char c s = s"
  by (auto simp: before_char_def takeWhile_eq_all_conv)

lemma set_before_char: "set (before_char c s) \<subseteq> set s"
  by (auto simp: before_char_def dest: set_takeWhileD)

lemma upper_char_dot [simp]: "upper_char c = CHR ''.'' \<longleftrightarrow> c = CHR ''.''"
  and upper_char_dash [simp]: "upper_char c = CHR ''-'' \<longleftrightarrow> c = CHR ''-''"
  and upper_char_colon [simp]: "upper_char c = CHR '':'' \<longleftrightarrow> c = CHR '':''"
  unfolding char_eq_iff of_char_upper_char by auto

lemma venue_symbol_clean:
  "CHR ''.'' \<notin> set (venue_symbol x)" "CHR ''-'' \<notin> set (venue_symbol x)"
proof -
  let ?b = "before_char (CHR ''-'') (before_char (CHR ''.'') (strip x))"
  have "CHR ''.'' \<notin> set ?b" "CHR ''-'' \<notin> set ?b"
    using not_in_before_char set_before_char by fast+
  then have "CHR ''.'' \<notin> set (strip ?b)" "CHR ''-'' \<notin> set (strip ?b)"
    using set_strip by fast+
  then show "CHR ''.'' \<notin> set (venue_symbol x)" "CHR ''-'' \<notin> set (venue_symbol x)"
    by (simp_all add: venue_symbol_def Let_def upper_def image_iff) (metis upper_char_dot, metis upper_char_dash)
qed

lemma venue_symbol_upper_strip: "strip (venue_symbol x) = venue_symbol x" "upper (venue_symbol x) = venue_symbol x"
  by (simp_all add: venue_symbol_def Let_def strip_upper)

lemma venue_symbol_idem: "venue_symbol (venue_symbol x) = venue_symbol x"
  unfolding venue_symbol_def [of "venue_symbol x"]
  by (simp add: Let_def venue_symbol_upper_strip before_char_id venue_symbol_clean)

lemma position_key_key_Inr:
  "position_key_key k = Inr key \<longleftrightarrow>
     (\<exists>account. canonical_account_id (pk_account_id k) = Inr account
        \<and> venue_symbol (pk_venue_symbol k) \<noteq> []
        \<and> (case pk_side k of
             None \<Rightarrow> key = account @ '':'' @ venue_symbol (pk_venue_symbol k)
           | Some s \<Rightarrow> lower (strip s) \<in> {''long'', ''short''}
               \<and> key = account @ '':'' @ venue_symbol (pk_venue_symbol k) @ '':'' @ lower (strip s)))"
  by (cases "canonical_account_id (pk_account_id k)")
    (auto simp: position_key_key_def canonical_instrument_key_def Let_def split: option.splits)

section \<open>Position keys tell positions apart\<close>

lemma split_at_char:
  assumes "c \<notin> set a"
  shows "before_char c (a @ c # r) = a" "after_char c (a @ c # r) = r"
  using assms by (induction a) (auto simp: before_char_def after_char_def)

lemma split_at_char_none: "c \<notin> set a \<Longrightarrow> before_char c a = a \<and> after_char c a = []"
  by (induction a) (auto simp: before_char_def after_char_def)

lemma colon_free_side: "side \<in> {''long'', ''short''} \<Longrightarrow> CHR '':'' \<notin> set side"
  by auto

lemma position_key_parts:
  assumes key: "position_key_key k = Inr key"
    and acct: "canonical_account_id (pk_account_id k) = Inr a" "CHR '':'' \<notin> set a"
    and sym: "CHR '':'' \<notin> set (venue_symbol (pk_venue_symbol k))"
  shows "before_char (CHR '':'') key = a"
    "before_char (CHR '':'') (after_char (CHR '':'') key) = venue_symbol (pk_venue_symbol k)"
    "after_char (CHR '':'') (after_char (CHR '':'') key) =
       (case pk_side k of None \<Rightarrow> [] | Some s \<Rightarrow> lower (strip s))"
  using key acct sym split_at_char split_at_char_none colon_free_side
  unfolding position_key_key_Inr by (auto split: option.splits)

text \<open>
  Position identity is unambiguous: for accounts and symbols without a colon, two position
  keys built by \<open>PositionKey.key\<close> are equal only if they name the same account, the same
  venue symbol and the same side, so netting and hedge books, and the long and the short
  book of one symbol, never share a projection row.
\<close>

theorem position_key_injective:
  assumes "position_key_key k = Inr key" "position_key_key k' = Inr key"
    and "canonical_account_id (pk_account_id k) = Inr a" "CHR '':'' \<notin> set a"
    and "canonical_account_id (pk_account_id k') = Inr a'" "CHR '':'' \<notin> set a'"
    and "CHR '':'' \<notin> set (venue_symbol (pk_venue_symbol k))"
    and "CHR '':'' \<notin> set (venue_symbol (pk_venue_symbol k'))"
  shows "a = a' \<and> venue_symbol (pk_venue_symbol k) = venue_symbol (pk_venue_symbol k')
    \<and> map_option (\<lambda>s. lower (strip s)) (pk_side k) = map_option (\<lambda>s. lower (strip s)) (pk_side k')"
proof -
  note p = position_key_parts[OF assms(1,3,4,7)] and p' = position_key_parts[OF assms(2,5,6,8)]
  have "lower (strip s) \<noteq> []" if "pk_side k = Some s" for s
    using assms(1) that unfolding position_key_key_Inr by auto
  moreover have "lower (strip s) \<noteq> []" if "pk_side k' = Some s" for s
    using assms(2) that unfolding position_key_key_Inr by auto
  ultimately show ?thesis using p p' by (auto split: option.splits)
qed

theorem position_key_injective_witness:
  "(let k = \<lparr> pk_account_id = Some '' acct-a '', pk_venue_symbol = ''btcusdt-PERP.BINANCE'', pk_side = Some ''LONG'' \<rparr>;
        k' = \<lparr> pk_account_id = Some ''acct-a'', pk_venue_symbol = ''BTCUSDT'', pk_side = Some ''long'' \<rparr>
    in position_key_key k = Inr ''acct-a:BTCUSDT:long'' \<and> position_key_key k' = Inr ''acct-a:BTCUSDT:long''
       \<and> venue_symbol (pk_venue_symbol k) = venue_symbol (pk_venue_symbol k'))"
proof -
  let ?k = "\<lparr> pk_account_id = Some '' acct-a '', pk_venue_symbol = ''btcusdt-PERP.BINANCE'', pk_side = Some ''LONG'' \<rparr>"
  let ?k' = "\<lparr> pk_account_id = Some ''acct-a'', pk_venue_symbol = ''BTCUSDT'', pk_side = Some ''long'' \<rparr>"
  have 1: "position_key_key ?k = Inr ''acct-a:BTCUSDT:long''" by code_simp
  have 2: "position_key_key ?k' = Inr ''acct-a:BTCUSDT:long''" by code_simp
  have 3: "canonical_account_id (pk_account_id ?k) = Inr ''acct-a''" by code_simp
  have 4: "canonical_account_id (pk_account_id ?k') = Inr ''acct-a''" by code_simp
  have 5: "CHR '':'' \<notin> set (venue_symbol (pk_venue_symbol ?k))" by code_simp
  have 6: "CHR '':'' \<notin> set (venue_symbol (pk_venue_symbol ?k'))" by code_simp
  have 7: "CHR '':'' \<notin> set ''acct-a''" by simp
  from position_key_injective[OF 1 2 3 7 4 7 5 6] 1 2 show ?thesis by (simp add: Let_def)
qed

end
