(* ===== verification/Account_Budget.thy ===== *)
theory Account_Budget
  imports Freshness Identifiers
begin

text \<open>
  \<open>services/control-plane/risk/risk_config.py\<close> and \<open>account_budget.py\<close>: the risk limits
  and the account figures every sizing and reservation decision starts from. An account whose
  projection is stale, missing or without equity can take no new risk.
\<close>

record RiskConfig =
  risk_per_trade_pct :: rat
  max_total_open_risk_pct :: rat
  max_notional_per_order :: rat
  rc_max_leverage :: rat
  max_instrument_exposure :: rat
  max_correlated_exposure :: rat
  min_free_margin :: rat
  reserve_balance :: rat
  daily_loss_limit :: rat
  max_drawdown_pct :: rat
  loss_cooldown_seconds :: int

definition default_risk_config :: RiskConfig where
  "default_risk_config =
     \<lparr> risk_per_trade_pct = 15 / 1000, max_total_open_risk_pct = 10 / 100,
       max_notional_per_order = 50000, rc_max_leverage = 10,
       max_instrument_exposure = 100000, max_correlated_exposure = 150000,
       min_free_margin = 0, reserve_balance = 0, daily_loss_limit = 0, max_drawdown_pct = 0,
       loss_cooldown_seconds = 0 \<rparr>"

definition decimal_value :: "rat option \<Rightarrow> rat \<Rightarrow> rat" where
  "decimal_value v dflt = (case v of None \<Rightarrow> dflt | Some x \<Rightarrow> x)"

section \<open>The account budget\<close>

record AccountBudget =
  ab_account_id :: account_id
  ab_currency :: string
  ab_equity :: rat
  ab_margin :: rat
  ab_free_margin :: rat
  ab_margin_ratio :: rat
  ab_updated_at :: "instant option"
  ab_stale_reasons :: "string list"

definition is_fresh :: "AccountBudget \<Rightarrow> bool" where
  "is_fresh b = (ab_stale_reasons b = [])"

definition can_take_new_risk :: "AccountBudget \<Rightarrow> bool" where
  "can_take_new_risk b = (is_fresh b \<and> 0 < ab_equity b \<and> 0 < ab_free_margin b)"

text \<open>A row of \<open>accounts_projection\<close>, the columns the query selects.\<close>

record account_row =
  ar_account_id :: account_id
  ar_currency :: string
  ar_equity :: rat
  ar_margin :: rat
  ar_available_balance :: "rat option"
  ar_last_execution_event_at :: "instant option"
  ar_projection_lag_ms :: int
  ar_updated_at :: instant

definition account_stale_reasons ::
    "instant \<Rightarrow> instant \<Rightarrow> int \<Rightarrow> instant \<Rightarrow> FreshnessConfig \<Rightarrow> string list" where
  "account_stale_reasons updated last_execution_event_at projection_lag_ms now freshness =
     (let state = \<lparr> fs_config = freshness,
                    fs_market_data_last_seen_at = Some now,
                    fs_account_data_last_seen_at = Some last_execution_event_at,
                    fs_execution_event_last_seen_at = Some now,
                    fs_projection_applied_at = Some updated,
                    fs_reconciliation_verified_at = Some now \<rparr>;
          reasons = stale_reasons state now
      in if projection_lag_threshold_ms freshness < projection_lag_ms \<and> ''projection_lag'' \<notin> set reasons
         then reasons @ [''projection_lag''] else reasons)"

definition load_account_budget ::
    "account_row list \<Rightarrow> string option \<Rightarrow> instant \<Rightarrow> FreshnessConfig \<Rightarrow> AccountBudget result" where
  "load_account_budget accounts account now freshness =
     bind_result (canonical_account_id account) (\<lambda>normalized.
       case List.find (\<lambda>r. ar_account_id r = normalized) accounts of
         None \<Rightarrow>
           Inr \<lparr> ab_account_id = normalized, ab_currency = [], ab_equity = 0, ab_margin = 0, ab_free_margin = 0,
                 ab_margin_ratio = 0, ab_updated_at = None, ab_stale_reasons = [''account_missing''] \<rparr>
       | Some row \<Rightarrow>
           (let eq = ar_equity row; mg = ar_margin row;
                free = (case ar_available_balance row of
                          Some a \<Rightarrow> a | None \<Rightarrow> max (dsub eq mg) 0);
                updated = ar_updated_at row;
                reasons = account_stale_reasons updated
                  (case ar_last_execution_event_at row of Some t \<Rightarrow> t | None \<Rightarrow> updated)
                  (ar_projection_lag_ms row) now freshness
            in Inr \<lparr> ab_account_id = ar_account_id row, ab_currency = ar_currency row, ab_equity = eq,
                     ab_margin = mg, ab_free_margin = free,
                     ab_margin_ratio = (if 0 < eq then ddiv mg eq else 0),
                     ab_updated_at = Some updated, ab_stale_reasons = reasons \<rparr>))"

lemma missing_account_takes_no_risk:
  assumes "canonical_account_id account = Inr a" "\<forall>r \<in> set accounts. ar_account_id r \<noteq> a"
    and "load_account_budget accounts account now freshness = Inr b"
  shows "\<not> can_take_new_risk b"
proof -
  have "List.find (\<lambda>r. ar_account_id r = a) accounts = None"
    using assms(2) by (auto simp: find_None_iff')
  with assms(1,3) show ?thesis
    by (auto simp: load_account_budget_def can_take_new_risk_def)
qed

lemma stale_projection_takes_no_risk:
  assumes "load_account_budget accounts account now freshness = Inr b"
    and "canonical_account_id account = Inr a"
    and "List.find (\<lambda>r. ar_account_id r = a) accounts = Some row"
    and "projection_lag_threshold_ms freshness < ar_projection_lag_ms row"
  shows "\<not> can_take_new_risk b"
proof -
  have "account_stale_reasons u l (ar_projection_lag_ms row) now freshness \<noteq> []" for u l
    using assms(4) by (auto simp: account_stale_reasons_def Let_def)
  then show ?thesis
    using assms by (auto simp: load_account_budget_def Let_def can_take_new_risk_def is_fresh_def)
qed

lemma load_account_budget_row:
  assumes "load_account_budget accounts account now freshness = Inr b" "can_take_new_risk b"
  shows "\<exists>row \<in> set accounts. ar_account_id row = ab_account_id b \<and> ab_equity b = ar_equity row"
proof -
  obtain a where a: "canonical_account_id account = Inr a"
    using assms(1) by (auto simp: load_account_budget_def bind_result_Inr_iff)
  show ?thesis
  proof (cases "List.find (\<lambda>r. ar_account_id r = a) accounts")
    case None
    with a assms show ?thesis by (auto simp: load_account_budget_def can_take_new_risk_def)
  next
    case (Some row)
    with a assms(1) have "ab_account_id b = ar_account_id row" "ab_equity b = ar_equity row"
      by (auto simp: load_account_budget_def Let_def)
    with find_SomeD[OF Some] show ?thesis by auto
  qed
qed

end
