(* ===== verification/Position_Sizing.thy ===== *)
theory Position_Sizing
  imports Account_Budget
begin

text \<open>
  \<open>services/control-plane/risk/position_sizing.py\<close>: fixed-risk sizing. The quantity is the
  largest multiple of the exchange step whose loss at the stop fits the remaining risk budgets
  and whose notional fits every exposure and margin cap.
\<close>

record SizingRequest =
  sr_account_id :: account_id
  sr_instrument_id :: symbol
  sr_side :: string
  sr_entry_price :: rat
  sr_stop_price :: "rat option"
  sr_quantity_step :: rat
  sr_min_quantity :: rat
  sr_min_notional :: rat
  sr_remaining_daily_budget :: "rat option"
  sr_existing_total_open_risk :: rat
  sr_remaining_instrument_exposure :: "rat option"
  sr_remaining_correlated_exposure :: "rat option"
  sr_leverage :: "rat option"

record sizing_check =
  sc_name :: string
  sc_passed :: bool
  sc_value :: "rat option"

record SizingResult =
  sz_status :: string
  sz_reason :: string
  sz_quantity :: rat
  sz_notional :: rat
  sz_risk_amount :: rat
  sz_stop_distance_pct :: rat
  sz_raw_notional :: rat
  sz_allowed_notional :: rat
  sz_headroom :: "(string \<times> rat) list"
  sz_checks :: "sizing_check list"

definition floor_to_increment :: "rat \<Rightarrow> rat \<Rightarrow> rat" where
  "floor_to_increment value increment =
     (if increment \<le> 0 then value
      else dmul (of_int \<lfloor>ddiv value increment\<rfloor>) increment)"

definition sizing_blocked :: "string \<Rightarrow> string \<Rightarrow> sizing_check list \<Rightarrow> SizingResult" where
  "sizing_blocked status reason checks =
     \<lparr> sz_status = status, sz_reason = reason, sz_quantity = 0, sz_notional = 0, sz_risk_amount = 0,
       sz_stop_distance_pct = 0, sz_raw_notional = 0, sz_allowed_notional = 0, sz_headroom = [],
       sz_checks = checks \<rparr>"

text \<open>The remaining budgets and caps, in the order the function computes them.\<close>

definition sizing_risk_amount :: "AccountBudget \<Rightarrow> SizingRequest \<Rightarrow> RiskConfig \<Rightarrow> rat" where
  "sizing_risk_amount budget request cfg =
     (let per_trade = dmul (ab_equity budget) (risk_per_trade_pct cfg);
          remaining_daily = (case sr_remaining_daily_budget request of Some r \<Rightarrow> r | None \<Rightarrow> per_trade);
          total_budget = dmul (ab_equity budget) (max_total_open_risk_pct cfg);
          remaining_total = max (dsub total_budget (sr_existing_total_open_risk request)) 0
      in min (min per_trade remaining_daily) remaining_total)"

definition available_margin_adjusted :: "AccountBudget \<Rightarrow> SizingRequest \<Rightarrow> RiskConfig \<Rightarrow> rat" where
  "available_margin_adjusted budget request cfg =
     (let leverage = (case sr_leverage request of Some l \<Rightarrow> l | None \<Rightarrow> rc_max_leverage cfg);
          available = max (dsub (dsub (ab_free_margin budget) (min_free_margin cfg)) (reserve_balance cfg)) 0
      in dmul available leverage)"

definition sizing_headroom :: "AccountBudget \<Rightarrow> SizingRequest \<Rightarrow> RiskConfig \<Rightarrow> rat \<Rightarrow> (string \<times> rat) list" where
  "sizing_headroom budget request cfg raw =
     (let per_trade = dmul (ab_equity budget) (risk_per_trade_pct cfg)
      in [(''risk_per_trade'', per_trade),
          (''daily'', case sr_remaining_daily_budget request of Some r \<Rightarrow> r | None \<Rightarrow> per_trade),
          (''total'', max (dsub (dmul (ab_equity budget) (max_total_open_risk_pct cfg))
                            (sr_existing_total_open_risk request)) 0),
          (''raw_notional'', raw),
          (''max_notional_per_order'', max_notional_per_order cfg),
          (''instrument'', case sr_remaining_instrument_exposure request of
              Some r \<Rightarrow> r | None \<Rightarrow> max_instrument_exposure cfg),
          (''correlated'', case sr_remaining_correlated_exposure request of
              Some r \<Rightarrow> r | None \<Rightarrow> max_correlated_exposure cfg),
          (''available_margin_adjusted'', available_margin_adjusted budget request cfg)])"

definition sizing_allowed_notional :: "AccountBudget \<Rightarrow> SizingRequest \<Rightarrow> RiskConfig \<Rightarrow> rat \<Rightarrow> rat" where
  "sizing_allowed_notional budget request cfg raw =
     (let instrument = (case sr_remaining_instrument_exposure request of
                          Some r \<Rightarrow> r | None \<Rightarrow> max_instrument_exposure cfg);
          correlated = (case sr_remaining_correlated_exposure request of
                          Some r \<Rightarrow> r | None \<Rightarrow> max_correlated_exposure cfg)
      in min (min (min (min raw (max_notional_per_order cfg)) instrument) correlated)
           (available_margin_adjusted budget request cfg))"

text \<open>From the positive risk amount to the result: caps, step and exchange minimum.\<close>

definition size_within_caps ::
    "AccountBudget \<Rightarrow> SizingRequest \<Rightarrow> RiskConfig \<Rightarrow> rat \<Rightarrow> rat \<Rightarrow> sizing_check list \<Rightarrow> SizingResult" where
  "size_within_caps budget request cfg risk distance checks =
     (let raw = ddiv risk distance;
          hr = sizing_headroom budget request cfg raw;
          allowed = sizing_allowed_notional budget request cfg raw;
          quantity = floor_to_increment (ddiv allowed (sr_entry_price request)) (sr_quantity_step request);
          notional = dmul quantity (sr_entry_price request)
      in if quantity < sr_min_quantity request \<or> notional < sr_min_notional request
         then \<lparr> sz_status = ''rejected'', sz_reason = ''quantity below exchange minimum'',
                sz_quantity = 0, sz_notional = 0, sz_risk_amount = risk,
                sz_stop_distance_pct = distance, sz_raw_notional = raw, sz_allowed_notional = allowed,
                sz_headroom = hr,
                sz_checks = checks @ [\<lparr> sc_name = ''exchange_minimum'', sc_passed = False, sc_value = None \<rparr>] \<rparr>
         else \<lparr> sz_status = ''approved'', sz_reason = ''fixed risk size approved'',
                sz_quantity = quantity, sz_notional = notional, sz_risk_amount = risk,
                sz_stop_distance_pct = distance, sz_raw_notional = raw, sz_allowed_notional = allowed,
                sz_headroom = hr, sz_checks = checks \<rparr>)"

definition fixed_risk_size :: "AccountBudget \<Rightarrow> SizingRequest \<Rightarrow> RiskConfig \<Rightarrow> SizingResult" where
  "fixed_risk_size budget request cfg =
     (if \<not> can_take_new_risk budget
      then sizing_blocked ''needs_review'' ''account budget stale or unavailable'' []
      else case sr_stop_price request of
        None \<Rightarrow> sizing_blocked ''needs_review'' ''no verifiable stop distance'' []
      | Some stop \<Rightarrow>
        (let entry = sr_entry_price request in
         if entry \<le> 0 \<or> stop \<le> 0 \<or> stop = entry
         then sizing_blocked ''needs_review'' ''no verifiable stop distance'' []
         else
          (let distance = ddiv (dabs (dsub entry stop)) entry;
               checks = [\<lparr> sc_name = ''stop_distance'', sc_passed = True, sc_value = Some distance \<rparr>];
               risk = sizing_risk_amount budget request cfg
           in if risk \<le> 0 then sizing_blocked ''rejected'' ''no remaining risk budget'' checks
              else size_within_caps budget request cfg risk distance checks)))"

section \<open>What an approval establishes\<close>

lemma sizing_blocked_status [simp]: "sz_status (sizing_blocked st reason cs) = st"
  by (simp add: sizing_blocked_def)

lemma fixed_risk_size_approvedE:
  assumes "sz_status (fixed_risk_size budget request cfg) = ''approved''"
  obtains stop distance where
    "can_take_new_risk budget" "sr_stop_price request = Some stop" "0 < stop" "stop \<noteq> sr_entry_price request"
    "0 < sr_entry_price request"
    "distance = ddiv (dabs (dsub (sr_entry_price request) stop)) (sr_entry_price request)"
    "0 < sizing_risk_amount budget request cfg"
    "fixed_risk_size budget request cfg =
       size_within_caps budget request cfg (sizing_risk_amount budget request cfg) distance
         [\<lparr> sc_name = ''stop_distance'', sc_passed = True, sc_value = Some distance \<rparr>]"
  using assms by (auto simp: fixed_risk_size_def Let_def not_le split: if_splits option.splits)

lemma size_within_caps_approved:
  assumes "sz_status (size_within_caps budget request cfg risk distance cs) = ''approved''"
  defines "r \<equiv> size_within_caps budget request cfg risk distance cs"
  shows "sz_risk_amount r = risk" "sz_stop_distance_pct r = distance" "sz_raw_notional r = ddiv risk distance"
    "sz_allowed_notional r = sizing_allowed_notional budget request cfg (ddiv risk distance)"
    "sz_quantity r = floor_to_increment (ddiv (sz_allowed_notional r) (sr_entry_price request)) (sr_quantity_step request)"
    "sz_notional r = dmul (sz_quantity r) (sr_entry_price request)"
    "sr_min_quantity request \<le> sz_quantity r" "sr_min_notional request \<le> sz_notional r"
  using assms by (simp_all add: size_within_caps_def Let_def not_less split: if_splits)

lemma sizing_allowed_le:
  "sizing_allowed_notional budget request cfg raw \<le> raw"
  "sizing_allowed_notional budget request cfg raw \<le> max_notional_per_order cfg"
  "sizing_allowed_notional budget request cfg raw \<le> available_margin_adjusted budget request cfg"
  "sr_remaining_instrument_exposure request = Some x \<Longrightarrow> sizing_allowed_notional budget request cfg raw \<le> x"
  "sr_remaining_correlated_exposure request = Some x \<Longrightarrow> sizing_allowed_notional budget request cfg raw \<le> x"
  by (auto simp: sizing_allowed_notional_def Let_def min_def)

lemma sizing_risk_amount_le:
  "sizing_risk_amount budget request cfg \<le> dmul (ab_equity budget) (risk_per_trade_pct cfg)"
  "sr_remaining_daily_budget request = Some x \<Longrightarrow> sizing_risk_amount budget request cfg \<le> x"
  by (auto simp: sizing_risk_amount_def Let_def min_def)

section \<open>Rounding to the step\<close>

lemma dec_eps_nonneg [simp]: "0 \<le> dec_eps"
  by (simp add: dec_eps_def)

lemma floor_to_increment_le:
  assumes "0 \<le> value"
  shows "floor_to_increment value increment \<le> (1 + dec_eps) ^ 2 * value"
proof (cases "increment \<le> 0")
  case True
  have "1 * value \<le> (1 + dec_eps) ^ 2 * value"
    using assms by (intro mult_right_mono one_le_power) auto
  with True show ?thesis by (simp add: floor_to_increment_def)
next
  case False
  let ?u = "of_int \<lfloor>ddiv value increment\<rfloor> :: rat"
  have u0: "0 \<le> ?u" using assms False by (simp add: ddiv_def dec.rnd_nonneg)
  have "ddiv value increment \<le> (1 + dec_eps) * (value / increment)"
    unfolding ddiv_def using assms False by (intro dec.rnd_upper) simp
  with of_int_floor_le have "?u \<le> (1 + dec_eps) * (value / increment)"
    by (rule order_trans)
  then have "?u * increment \<le> (1 + dec_eps) * value"
    using False by (simp add: field_simps)
  then have "(1 + dec_eps) * (?u * increment) \<le> (1 + dec_eps) * ((1 + dec_eps) * value)"
    by (intro mult_left_mono) simp_all
  moreover have "dmul ?u increment \<le> (1 + dec_eps) * (?u * increment)"
    unfolding dmul_def using u0 False by (intro dec.rnd_upper) simp
  ultimately show ?thesis using False by (simp add: floor_to_increment_def power2_eq_square algebra_simps)
qed

lemma floor_to_increment_neg:
  assumes "value < 0"
  shows "floor_to_increment value increment < 0"
proof (cases "increment \<le> 0")
  case False
  then have "ddiv value increment < 0"
    using assms dec.rnd_pos_iff[of "- (value / increment)"] dec.rnd_minus[of "value / increment"]
    by (simp add: ddiv_def divide_neg_pos)
  then have "\<lfloor>ddiv value increment\<rfloor> < 0" by simp
  then have "of_int \<lfloor>ddiv value increment\<rfloor> * increment < 0"
    using False by (simp add: mult_neg_pos)
  then have "dmul (of_int \<lfloor>ddiv value increment\<rfloor>) increment < 0"
    using dec.rnd_pos_iff[of "- (of_int \<lfloor>ddiv value increment\<rfloor> * increment)"]
      dec.rnd_minus[of "of_int \<lfloor>ddiv value increment\<rfloor> * increment"]
    by (simp add: dmul_def)
  with False show ?thesis by (simp add: floor_to_increment_def)
qed (use assms in \<open>simp add: floor_to_increment_def\<close>)

section \<open>The size fits the budgets\<close>

lemma sizing_quantity_bound:
  assumes e: "0 < entry" and a: "0 \<le> allowed"
  shows "floor_to_increment (ddiv allowed entry) step * entry \<le> (1 + dec_eps) ^ 3 * allowed"
proof -
  have d0: "0 \<le> ddiv allowed entry" using e a by (simp add: ddiv_def dec.rnd_nonneg)
  have "ddiv allowed entry \<le> (1 + dec_eps) * (allowed / entry)"
    unfolding ddiv_def using e a by (intro dec.rnd_upper) simp
  then have "(1 + dec_eps) ^ 2 * ddiv allowed entry \<le> (1 + dec_eps) ^ 2 * ((1 + dec_eps) * (allowed / entry))"
    by (intro mult_left_mono) simp_all
  with floor_to_increment_le[OF d0] 
  have "floor_to_increment (ddiv allowed entry) step \<le> (1 + dec_eps) ^ 3 * (allowed / entry)"
    by (metis (no_types, lifting) mult.assoc order_trans power2_eq_square power3_eq_cube)
  then have "floor_to_increment (ddiv allowed entry) step * entry \<le> (1 + dec_eps) ^ 3 * (allowed / entry) * entry"
    using e by (intro mult_right_mono) simp_all
  with e show ?thesis by simp
qed

lemma sizing_notional_bound:
  assumes e: "0 < entry" and a: "0 \<le> allowed" and q: "0 \<le> floor_to_increment (ddiv allowed entry) step"
  shows "dmul (floor_to_increment (ddiv allowed entry) step) entry \<le> (1 + dec_eps) ^ 4 * allowed"
proof -
  let ?q = "floor_to_increment (ddiv allowed entry) step"
  have "dmul ?q entry \<le> (1 + dec_eps) * (?q * entry)"
    unfolding dmul_def using q e by (intro dec.rnd_upper) simp
  also have "\<dots> \<le> (1 + dec_eps) * ((1 + dec_eps) ^ 3 * allowed)"
    using sizing_quantity_bound[OF e a] by (intro mult_left_mono) simp_all
  also have "\<dots> = (1 + dec_eps) ^ 4 * allowed" by (simp add: power_numeral_reduce)
  finally show ?thesis .
qed

lemma stop_distance_lower:
  assumes "0 < entry"
  shows "(1 - dec_eps) ^ 2 * \<bar>entry - stop\<bar> \<le> ddiv (dabs (dsub entry stop)) entry * entry"
proof -
  have e1: "(1 - dec_eps) * \<bar>entry - stop\<bar> \<le> dabs (dsub entry stop)"
    using dec.rnd_lower[of "\<bar>entry - stop\<bar>"] by (simp add: dabs_def dsub_def dec.rnd_abs dec.rnd_idem)
  have p: "0 \<le> dabs (dsub entry stop)" by (simp add: dabs_def dec.rnd_nonneg)
  have "(1 - dec_eps) * (dabs (dsub entry stop) / entry) \<le> ddiv (dabs (dsub entry stop)) entry"
    unfolding ddiv_def using p assms by (intro dec.rnd_lower) simp
  then have "(1 - dec_eps) * dabs (dsub entry stop) \<le> ddiv (dabs (dsub entry stop)) entry * entry"
    using assms by (simp add: field_simps)
  moreover have "(1 - dec_eps) * ((1 - dec_eps) * \<bar>entry - stop\<bar>) \<le> (1 - dec_eps) * dabs (dsub entry stop)"
    using e1 by (intro mult_left_mono) (simp_all add: dec_eps_def)
  ultimately show ?thesis by (simp add: power2_eq_square mult.assoc)
qed

lemma sizing_loss_bound:
  assumes e: "0 < entry" and a: "0 \<le> allowed" and r: "0 < risk"
    and d: "0 < distance" "(1 - dec_eps) ^ 2 * move \<le> distance * entry" and m: "0 \<le> move"
    and le: "allowed \<le> ddiv risk distance" and q: "0 \<le> floor_to_increment (ddiv allowed entry) step"
  shows "floor_to_increment (ddiv allowed entry) step * move \<le> (1 + 1 / 10 ^ 26) * risk"
proof -
  let ?q = "floor_to_increment (ddiv allowed entry) step" and ?e = "1 + dec_eps" and ?f = "1 - dec_eps"
  have "ddiv risk distance \<le> ?e * (risk / distance)"
    unfolding ddiv_def using r d by (intro dec.rnd_upper) simp
  with le have "allowed \<le> ?e * risk / distance" by simp
  with d have al: "allowed * distance \<le> ?e * risk" by (simp add: pos_le_divide_eq)
  have "?f ^ 2 * (?q * move) = ?q * (?f ^ 2 * move)" by simp
  also have "\<dots> \<le> ?q * (distance * entry)" using d q by (intro mult_left_mono)
  also have "\<dots> = (?q * entry) * distance" by simp
  also have "\<dots> \<le> (?e ^ 3 * allowed) * distance"
    using sizing_quantity_bound[OF e a] d by (intro mult_right_mono) simp_all
  also have "\<dots> = ?e ^ 3 * (allowed * distance)" by simp
  also have "\<dots> \<le> ?e ^ 3 * (?e * risk)" using al by (intro mult_left_mono) simp_all
  also have "\<dots> = ?e ^ 4 * risk" by (simp add: power_numeral_reduce)
  also have "\<dots> \<le> (?f ^ 2 * (1 + 1 / 10 ^ 26)) * risk"
    using r by (intro mult_right_mono) (simp_all add: dec_eps_def power_numeral_reduce)
  finally have "?f ^ 2 * (?q * move) \<le> ?f ^ 2 * ((1 + 1 / 10 ^ 26) * risk)" by (simp only: mult.assoc)
  moreover have "0 < ?f ^ 2" by (simp add: dec_eps_def)
  ultimately show ?thesis by (rule mult_left_le_imp_le)
qed

lemma stop_distance_pos:
  assumes "0 < entry" "stop \<noteq> entry"
  shows "0 < ddiv (dabs (dsub entry stop)) entry"
  using assms by (simp add: ddiv_def dabs_def dsub_def dec.rnd_pos_iff dec.rnd_eq_zero_iff)


definition sizing_example_budget :: AccountBudget where
  "sizing_example_budget =
     \<lparr> ab_account_id = ''acc'', ab_currency = ''USDT'', ab_equity = 10000, ab_margin = 0,
       ab_free_margin = 10000, ab_margin_ratio = 0, ab_updated_at = Some 0, ab_stale_reasons = [] \<rparr>"

definition sizing_example_request :: SizingRequest where
  "sizing_example_request =
     \<lparr> sr_account_id = ''acc'', sr_instrument_id = ''BTCUSDT'', sr_side = ''buy'', sr_entry_price = 100,
       sr_stop_price = Some 90, sr_quantity_step = 1, sr_min_quantity = 1, sr_min_notional = 5,
       sr_remaining_daily_budget = None, sr_existing_total_open_risk = 0,
       sr_remaining_instrument_exposure = None, sr_remaining_correlated_exposure = None,
       sr_leverage = None \<rparr>"

lemma dec_tenth: "dec (1 / 10) = 1 / 10"
  using dec_cents[of 1 1] by simp

lemmas sizing_example_simps =
  sizing_example_budget_def sizing_example_request_def default_risk_config_def fixed_risk_size_def
  can_take_new_risk_def is_fresh_def ddiv_def dabs_def dsub_def dmul_def sizing_risk_amount_def
  size_within_caps_def sizing_allowed_notional_def available_margin_adjusted_def
  floor_to_increment_def Let_def dec_tenth

lemma sizing_example_approved:
  "sz_status (fixed_risk_size sizing_example_budget sizing_example_request default_risk_config) = ''approved''"
  "sz_quantity (fixed_risk_size sizing_example_budget sizing_example_request default_risk_config) = 15"
  by (simp_all add: sizing_example_simps)


end
