(* ===== verification/Exposure.thy ===== *)
theory Exposure
  imports Account_Budget "HOL-Library.AList"
begin

text \<open>
  \<open>services/control-plane/risk/exposure.py\<close>: the notional an account already holds per
  instrument and per group of correlated instruments, and the caps a new order is checked
  against. A Python dict is an association list in insertion order, which is the order the
  group sum adds its members in.
\<close>

record ExposureSnapshot =
  es_account_id :: "account_id option"
  es_instrument_notional :: "(symbol \<times> rat) list"
  es_total_notional :: rat
  es_total_risk_amount :: rat

record ProposedExposure =
  pe_account_id :: account_id
  pe_instrument_id :: symbol
  pe_notional :: rat
  pe_risk_amount :: rat

record exposure_check =
  ec_name :: string
  ec_passed :: bool
  ec_projected :: rat
  ec_limit :: rat

record ExposureCheckResult =
  er_status :: string
  er_reason :: string
  er_projected_instrument_exposure :: rat
  er_projected_correlated_exposure :: rat
  er_projected_total_risk :: rat
  er_headroom :: "(string \<times> rat) list"
  er_correlated_group :: "string option"
  er_checks :: "exposure_check list"

text \<open>A position dict, with the keys the functions read.\<close>

record position_row =
  po_account_id :: "string option"
  po_status :: "string option"
  po_instrument_id :: "string option"
  po_venue_symbol :: "string option"
  po_notional :: "rat option"
  po_quantity :: "rat option"
  po_avg_entry_price :: "rat option"
  po_mark_price :: "rat option"
  po_risk_amount :: "rat option"
  po_payload_risk_amount :: "rat option"

definition proposed_exposure :: "string option \<Rightarrow> string \<Rightarrow> rat \<Rightarrow> rat \<Rightarrow> ProposedExposure result" where
  "proposed_exposure account instrument n r =
     bind_result (canonical_account_id account) (\<lambda>a.
       Inr \<lparr> pe_account_id = a, pe_instrument_id = canonical_instrument_key instrument,
             pe_notional = n, pe_risk_amount = r \<rparr>)"

definition position_notional :: "position_row \<Rightarrow> rat" where
  "position_notional p =
     (case po_notional p of
        Some n \<Rightarrow> dabs n
      | None \<Rightarrow> dmul (dabs (decimal_value (po_quantity p) 0))
                 (decimal_value (or_else (\<lambda>x. x = 0) (po_avg_entry_price p) (po_mark_price p)) 0))"

definition position_instrument :: "position_row \<Rightarrow> symbol" where
  "position_instrument p =
     canonical_instrument_key
       (case or_else (\<lambda>s. s = []) (po_instrument_id p) (po_venue_symbol p) of
          Some s \<Rightarrow> s | None \<Rightarrow> ''None'')"

definition position_counted :: "position_row \<Rightarrow> bool" where
  "position_counted p =
     (lower (case or_else (\<lambda>s. s = []) (po_status p) (Some ''open'') of Some s \<Rightarrow> s | None \<Rightarrow> ''open'')
        \<in> {''open'', ''external''})"

definition position_risk :: "position_row \<Rightarrow> rat" where
  "position_risk p = decimal_value (or_else (\<lambda>x. x = 0) (po_risk_amount p) (po_payload_risk_amount p)) 0"

definition dict_get :: "('k \<times> 'v) list \<Rightarrow> 'k \<Rightarrow> 'v \<Rightarrow> 'v" where
  "dict_get d k v = (case map_of d k of Some w \<Rightarrow> w | None \<Rightarrow> v)"

fun exposure_loop :: "account_id option \<Rightarrow> ExposureSnapshot \<Rightarrow> position_row list \<Rightarrow> ExposureSnapshot result" where
  "exposure_loop account snap [] = Inr snap"
| "exposure_loop account snap (p # ps) =
     bind_result
       (case account of
          None \<Rightarrow> Inr True
        | Some a \<Rightarrow> bind_result (canonical_account_id (po_account_id p)) (\<lambda>b. Inr (b = a)))
       (\<lambda>same.
         if \<not> same \<or> \<not> position_counted p then exposure_loop account snap ps
         else (let key = position_instrument p; n = position_notional p
               in exposure_loop account
                    \<lparr> es_account_id = es_account_id snap,
                      es_instrument_notional =
                        AList.update key (dadd (dict_get (es_instrument_notional snap) key 0) n)
                          (es_instrument_notional snap),
                      es_total_notional = dadd (es_total_notional snap) n,
                      es_total_risk_amount = dadd (es_total_risk_amount snap) (position_risk p) \<rparr> ps))"

definition exposure_from_positions :: "position_row list \<Rightarrow> string option \<Rightarrow> ExposureSnapshot result" where
  "exposure_from_positions positions account =
     bind_result
       (case account of None \<Rightarrow> Inr None
        | Some a \<Rightarrow> bind_result (canonical_account_id (Some a)) (\<lambda>x. Inr (Some x)))
       (\<lambda>normalized.
         exposure_loop normalized
           \<lparr> es_account_id = normalized, es_instrument_notional = [],
             es_total_notional = 0, es_total_risk_amount = 0 \<rparr> positions)"

definition default_correlated_groups :: "(string \<times> string list) list" where
  "default_correlated_groups = [(''majors'', [''BTCUSDT'', ''ETHUSDT''])]"

fun correlated_existing ::
    "ExposureSnapshot \<Rightarrow> symbol \<Rightarrow> (string \<times> string list) list \<Rightarrow> string option \<times> rat" where
  "correlated_existing snap key [] = (None, dict_get (es_instrument_notional snap) key 0)"
| "correlated_existing snap key ((name, members) # groups) =
     (let canonical_members = map canonical_instrument_key members in
      if key \<in> set canonical_members
      then (Some name,
            dsum (map snd (filter (\<lambda>(k, _). canonical_instrument_key k \<in> set canonical_members)
                            (es_instrument_notional snap))))
      else correlated_existing snap key groups)"

definition check_exposure ::
    "ExposureSnapshot \<Rightarrow> ProposedExposure \<Rightarrow> RiskConfig \<Rightarrow> (string \<times> string list) list \<Rightarrow>
     ExposureCheckResult" where
  "check_exposure snap proposed cfg correlated_groups =
     (let groups = (if correlated_groups = [] then default_correlated_groups else correlated_groups);
          key = canonical_instrument_key (pe_instrument_id proposed);
          existing_instrument = dict_get (es_instrument_notional snap) key 0;
          (group_name, group_existing) = correlated_existing snap key groups;
          projected_instrument = dadd existing_instrument (pe_notional proposed);
          projected_correlated = dadd group_existing (pe_notional proposed);
          projected_total_risk = dadd (es_total_risk_amount snap) (pe_risk_amount proposed);
          headroom =
            [(''instrument'', max (dsub (max_instrument_exposure cfg) existing_instrument) 0),
             (''correlated'', max (dsub (max_correlated_exposure cfg) group_existing) 0)];
          checks =
            [\<lparr> ec_name = ''instrument_exposure'',
               ec_passed = (projected_instrument \<le> max_instrument_exposure cfg),
               ec_projected = projected_instrument, ec_limit = max_instrument_exposure cfg \<rparr>,
             \<lparr> ec_name = ''correlated_exposure'',
               ec_passed = (projected_correlated \<le> max_correlated_exposure cfg),
               ec_projected = projected_correlated, ec_limit = max_correlated_exposure cfg \<rparr>];
          (status, reason) =
            (case List.find (\<lambda>c. \<not> ec_passed c) checks of
               Some c \<Rightarrow> (''rejected'', ec_name c @ '' cap exceeded'')
             | None \<Rightarrow> (''approved'', ''exposure within caps''))
      in \<lparr> er_status = status, er_reason = reason,
           er_projected_instrument_exposure = projected_instrument,
           er_projected_correlated_exposure = projected_correlated,
           er_projected_total_risk = projected_total_risk,
           er_headroom = headroom, er_correlated_group = group_name, er_checks = checks \<rparr>)"

section \<open>The snapshot is the per-instrument sum of the counted positions\<close>

text \<open>The specification: which positions of the account count toward an instrument.\<close>

definition position_of_account :: "account_id option \<Rightarrow> position_row \<Rightarrow> bool" where
  "position_of_account account p =
     (case account of None \<Rightarrow> True | Some a \<Rightarrow> canonical_account_id (po_account_id p) = Inr a)"

definition instrument_positions :: "account_id option \<Rightarrow> symbol \<Rightarrow> position_row list \<Rightarrow> position_row list" where
  "instrument_positions account key ps =
     filter (\<lambda>p. position_of_account account p \<and> position_counted p \<and> position_instrument p = key) ps"

lemma dict_get_update [simp]:
  "dict_get (AList.update k v d) k' w = (if k' = k then v else dict_get d k' w)"
  by (simp add: dict_get_def AList.update_conv)

lemma exposure_loop_instrument:
  "exposure_loop account snap ps = Inr snap' \<Longrightarrow>
   dict_get (es_instrument_notional snap') key 0 =
     dsum_from (dict_get (es_instrument_notional snap) key 0)
       (map position_notional (instrument_positions account key ps))"
proof (induction ps arbitrary: snap)
  case (Cons p ps)
  show ?case
  proof (cases "position_of_account account p \<and> position_counted p")
    case True
    with Cons show ?thesis
      by (cases account) (auto simp: instrument_positions_def position_of_account_def Let_def)
  next
    case False
    with Cons show ?thesis
      by (cases account)
        (auto simp: instrument_positions_def position_of_account_def bind_result_Inr_iff split: if_splits)
  qed
qed (simp add: instrument_positions_def)

lemma exposure_from_positions_instrument:
  assumes "exposure_from_positions ps account = Inr snap"
  shows "\<exists>normalized. (account = None \<longleftrightarrow> normalized = None)
    \<and> (\<forall>a. account = Some a \<longrightarrow> canonical_account_id (Some a) = Inr (the normalized))
    \<and> dict_get (es_instrument_notional snap) key 0 =
        dsum (map position_notional (instrument_positions normalized key ps))"
  using assms
  by (auto simp: exposure_from_positions_def bind_result_Inr_iff dsum_def dict_get_def
      dest!: exposure_loop_instrument[where key = key] split: option.splits)

lemma check_exposure_approved:
  assumes "er_status (check_exposure snap proposed cfg groups) = ''approved''"
  shows "dadd (dict_get (es_instrument_notional snap) (canonical_instrument_key (pe_instrument_id proposed)) 0)
           (pe_notional proposed) \<le> max_instrument_exposure cfg"
    and "dadd (snd (correlated_existing snap (canonical_instrument_key (pe_instrument_id proposed))
           (if groups = [] then default_correlated_groups else groups))) (pe_notional proposed)
         \<le> max_correlated_exposure cfg"
  using assms by (auto simp: check_exposure_def Let_def split: prod.splits if_splits)

text \<open>
  Approved exposure keeps the instrument cap: if \<open>check_exposure\<close> approves an order against the
  snapshot of an account's positions, then once the resulting position is booked, the notional the
  snapshot shows for that instrument is the Decimal sum of its counted positions and within
  \<open>max_instrument_exposure\<close>.
\<close>

theorem approved_exposure_keeps_cap:
  assumes snap: "exposure_from_positions ps (Some account) = Inr snap"
    and ok: "er_status (check_exposure snap proposed cfg groups) = ''approved''"
    and key: "key = canonical_instrument_key (pe_instrument_id proposed)"
    and acct: "canonical_account_id (po_account_id p) = canonical_account_id (Some account)"
    and p: "position_counted p" "position_instrument p = key" "position_notional p = pe_notional proposed"
    and snap': "exposure_from_positions (ps @ [p]) (Some account) = Inr snap'"
  shows "\<exists>a. canonical_account_id (Some account) = Inr a
    \<and> dict_get (es_instrument_notional snap') key 0 =
        dsum (map position_notional (instrument_positions (Some a) key (ps @ [p])))
    \<and> dict_get (es_instrument_notional snap') key 0 \<le> max_instrument_exposure cfg"
proof -
  obtain a where a: "canonical_account_id (Some account) = Inr a"
    and s: "dict_get (es_instrument_notional snap) key 0 =
              dsum (map position_notional (instrument_positions (Some a) key ps))"
    using exposure_from_positions_instrument[OF snap, of key] by auto
  have s': "dict_get (es_instrument_notional snap') key 0 =
              dsum (map position_notional (instrument_positions (Some a) key (ps @ [p])))"
    using exposure_from_positions_instrument[OF snap', of key] a by auto
  moreover have "instrument_positions (Some a) key (ps @ [p]) = instrument_positions (Some a) key ps @ [p]"
    using p acct a by (simp add: instrument_positions_def position_of_account_def)
  ultimately have "dict_get (es_instrument_notional snap') key 0
      = dadd (dict_get (es_instrument_notional snap) key 0) (pe_notional proposed)"
    using s p by (simp add: dsum_snoc)
  with check_exposure_approved(1)[OF ok] key a s' show ?thesis by auto
qed

definition exposure_example_position :: "rat \<Rightarrow> position_row" where
  "exposure_example_position n =
     \<lparr> po_account_id = Some ''acc'', po_status = None, po_instrument_id = Some ''BTCUSDT-PERP.BINANCE'',
       po_venue_symbol = None, po_notional = Some n, po_quantity = None, po_avg_entry_price = None,
       po_mark_price = None, po_risk_amount = None, po_payload_risk_amount = None \<rparr>"

definition exposure_example_order :: ProposedExposure where
  "exposure_example_order =
     \<lparr> pe_account_id = ''acc'', pe_instrument_id = ''BTCUSDT'', pe_notional = 30000, pe_risk_amount = 0 \<rparr>"

definition exposure_example_snapshot :: "rat \<Rightarrow> ExposureSnapshot" where
  "exposure_example_snapshot n =
     \<lparr> es_account_id = Some ''acc'', es_instrument_notional = [(''BTCUSDT'', n)],
       es_total_notional = n, es_total_risk_amount = 0 \<rparr>"

lemma exposure_example_text:
  "canonical_account_id (Some ''acc'') = Inr ''acc''"
  "canonical_instrument_key ''BTCUSDT-PERP.BINANCE'' = ''BTCUSDT''"
  "canonical_instrument_key ''BTCUSDT'' = ''BTCUSDT''"
  "canonical_instrument_key ''ETHUSDT'' = ''ETHUSDT''"
  "lower ''open'' = ''open''"
  by code_simp+

lemma exposure_example_position_simps:
  "position_instrument (exposure_example_position n) = ''BTCUSDT''"
  "position_counted (exposure_example_position n)"
  "position_risk (exposure_example_position n) = 0"
  "canonical_account_id (po_account_id (exposure_example_position n)) = Inr ''acc''"
  by (simp_all add: exposure_example_position_def position_instrument_def position_counted_def
      position_risk_def decimal_value_def exposure_example_text)

lemma exposure_example_notional:
  "position_notional (exposure_example_position 60000) = 60000"
  "position_notional (exposure_example_position 30000) = 30000"
  by (simp_all add: exposure_example_position_def position_notional_def dabs_def)

lemma exposure_example_snapshots:
  "exposure_from_positions [exposure_example_position 60000] (Some ''acc'') = Inr (exposure_example_snapshot 60000)"
  "exposure_from_positions ([exposure_example_position 60000] @ [exposure_example_position 30000]) (Some ''acc'') =
     Inr (exposure_example_snapshot 90000)"
  by (simp_all add: exposure_from_positions_def exposure_example_text exposure_example_position_simps
      exposure_example_notional dict_get_def dadd_def exposure_example_snapshot_def)

lemma exposure_example_approved:
  "er_status (check_exposure (exposure_example_snapshot 60000) exposure_example_order default_risk_config []) = ''approved''"
  by (simp add: check_exposure_def exposure_example_order_def exposure_example_text dict_get_def dadd_def
      exposure_example_snapshot_def default_correlated_groups_def dsum_def default_risk_config_def)

theorem approved_exposure_keeps_cap_witness:
  "dict_get (es_instrument_notional (exposure_example_snapshot 90000)) ''BTCUSDT'' 0 \<le> 100000"
  using approved_exposure_keeps_cap[OF exposure_example_snapshots(1) exposure_example_approved refl _ _ _ _
      exposure_example_snapshots(2)]
  by (simp add: exposure_example_text exposure_example_position_simps exposure_example_notional
      exposure_example_order_def default_risk_config_def)

end
