(* ===== verification/Exchange_Filters.thy ===== *)
theory Exchange_Filters
  imports Position_Sizing
begin

text \<open>
  \<open>services/control-plane/risk/exchange_filters.py\<close>: the exchange's own limits on quantity,
  price, leverage and margin mode. The metadata source is a protocol the deployment provides; it is
  the parameter \<open>get_instrument\<close> of the model.
\<close>

record InstrumentMetadata =
  im_instrument_id :: symbol
  im_min_notional :: rat
  im_min_quantity :: rat
  im_quantity_step :: rat
  im_price_tick :: rat
  im_min_price :: "rat option"
  im_max_price :: "rat option"
  im_max_leverage :: "rat option"
  im_allowed_margin_modes :: "string list"

record OrderFilterRequest =
  fr_instrument_id :: symbol
  fr_quantity :: rat
  fr_price :: rat
  fr_leverage :: "rat option"
  fr_margin_mode :: "string option"

datatype filter_check =
    NumberCheck (fc_name: string) (fc_passed: bool) (fc_value: rat) (fc_limit: rat)
  | ModeCheck (fc_name: string) (fc_passed: bool) (fc_mode: string) (fc_allowed: "string list")

record FilterResult =
  fl_status :: string
  fl_reason :: string
  fl_checks :: "filter_check list"
  fl_metadata :: InstrumentMetadata

text \<open>
  The margin modes are a frozenset that the check reports sorted: the model keeps the sorted list.

  Decimal's remainder takes the sign of the dividend; it raises when the integer quotient has more
  digits than the context.
\<close>

definition decimal_mod :: "rat \<Rightarrow> rat \<Rightarrow> rat result" where
  "decimal_mod x y =
     (let q = round_down (x / y)
      in if 10 ^ 28 \<le> \<bar>q\<bar> then Inl InvalidOperation else Inr (dec (x - of_int q * y)))"

definition aligned :: "rat \<Rightarrow> rat \<Rightarrow> bool result" where
  "aligned value increment =
     (if increment \<le> 0 then Inr True
      else bind_result (decimal_mod value increment) (\<lambda>r. Inr (r = 0)))"

definition filter_checks ::
    "OrderFilterRequest \<Rightarrow> InstrumentMetadata \<Rightarrow> RiskConfig \<Rightarrow> bool \<Rightarrow> bool \<Rightarrow> filter_check list" where
  "filter_checks request metadata cfg quantity_aligned price_aligned =
     (let notional = dmul (fr_quantity request) (fr_price request) in
      [NumberCheck ''min_quantity'' (im_min_quantity metadata \<le> fr_quantity request)
         (fr_quantity request) (im_min_quantity metadata),
       NumberCheck ''quantity_step'' quantity_aligned (fr_quantity request) (im_quantity_step metadata),
       NumberCheck ''min_notional'' (im_min_notional metadata \<le> notional) notional (im_min_notional metadata),
       NumberCheck ''price_tick'' price_aligned (fr_price request) (im_price_tick metadata)]
      @ (case im_min_price metadata of None \<Rightarrow> []
         | Some lo \<Rightarrow> [NumberCheck ''min_price'' (lo \<le> fr_price request) (fr_price request) lo])
      @ (case im_max_price metadata of None \<Rightarrow> []
         | Some hi \<Rightarrow> [NumberCheck ''max_price'' (fr_price request \<le> hi) (fr_price request) hi])
      @ (case fr_leverage request of None \<Rightarrow> []
         | Some l \<Rightarrow>
             (let max_lev = min (rc_max_leverage cfg)
                    (case or_else (\<lambda>x. x = 0) (im_max_leverage metadata) (Some (rc_max_leverage cfg)) of
                       Some m \<Rightarrow> m | None \<Rightarrow> rc_max_leverage cfg)
              in [NumberCheck ''leverage'' (l \<le> max_lev) l max_lev]))
      @ (if im_allowed_margin_modes metadata = [] then []
         else case fr_margin_mode request of None \<Rightarrow> []
         | Some m \<Rightarrow> [ModeCheck ''margin_mode'' (m \<in> set (im_allowed_margin_modes metadata)) m
                       (im_allowed_margin_modes metadata)]))"

definition validate_exchange_filters ::
    "OrderFilterRequest \<Rightarrow> (symbol \<Rightarrow> InstrumentMetadata) \<Rightarrow> RiskConfig \<Rightarrow> FilterResult result" where
  "validate_exchange_filters request get_instrument cfg =
     (let metadata = get_instrument (fr_instrument_id request) in
      bind_result (aligned (fr_quantity request) (im_quantity_step metadata)) (\<lambda>qa.
      bind_result (aligned (fr_price request) (im_price_tick metadata)) (\<lambda>pa.
        let checks = filter_checks request metadata cfg qa pa;
            failed = filter (\<lambda>c. \<not> fc_passed c) checks
        in Inr \<lparr> fl_status = (if failed = [] then ''approved'' else ''rejected''),
                 fl_reason = (if failed = [] then ''filters passed'' else fc_name (hd failed)),
                 fl_checks = checks, fl_metadata = metadata \<rparr>)))"

section \<open>Alignment is divisibility\<close>

lemma decimal_mod_zero_iff:
  assumes "0 < y" "decimal_mod x y = Inr r"
  shows "r = 0 \<longleftrightarrow> (\<exists>n::int. x = of_int n * y)"
proof -
  have r: "r = dec (x - of_int (round_down (x / y)) * y)"
    using assms(2) by (simp add: decimal_mod_def Let_def split: if_splits)
  show ?thesis
  proof
    assume "r = 0"
    with r show "\<exists>n::int. x = of_int n * y"
      by (metis dec.rnd_eq_zero_iff eq_iff_diff_eq_0)
  next
    assume "\<exists>n::int. x = of_int n * y"
    then obtain n :: int where n: "x = of_int n * y" by blast
    then have "round_down (x / y) = n" using assms(1) by (simp add: round_down_def)
    with r n show "r = 0" by simp
  qed
qed

lemma aligned_iff:
  assumes "0 < increment" "aligned value increment = Inr b"
  shows "b \<longleftrightarrow> (\<exists>n::int. value = of_int n * increment)"
  using assms decimal_mod_zero_iff[of increment "value"]
  by (auto simp: aligned_def bind_result_Inr_iff)

lemma aligned_multiple:
  assumes "0 < increment" "\<bar>n\<bar> < 10 ^ 28"
  shows "aligned (of_int n * increment) increment = Inr True"
  using assms by (auto simp: aligned_def decimal_mod_def round_down_def)

lemma validate_approvedD:
  assumes "validate_exchange_filters request get_instrument cfg = Inr res" "fl_status res = ''approved''"
  defines "metadata \<equiv> get_instrument (fr_instrument_id request)"
  shows "aligned (fr_quantity request) (im_quantity_step metadata) = Inr True"
    "aligned (fr_price request) (im_price_tick metadata) = Inr True"
    "\<forall>c \<in> set (filter_checks request metadata cfg True True). fc_passed c"
proof -
  obtain qa pa where al: "aligned (fr_quantity request) (im_quantity_step metadata) = Inr qa"
      "aligned (fr_price request) (im_price_tick metadata) = Inr pa"
    and c: "\<forall>c \<in> set (filter_checks request metadata cfg qa pa). fc_passed c"
    using assms(1,2) unfolding metadata_def validate_exchange_filters_def
    by (auto simp: Let_def bind_result_Inr_iff filter_empty_conv split: if_splits)
  from c have "qa" "pa" by (simp_all add: filter_checks_def Let_def)
  with al c show "aligned (fr_quantity request) (im_quantity_step metadata) = Inr True"
    "aligned (fr_price request) (im_price_tick metadata) = Inr True"
    "\<forall>c \<in> set (filter_checks request metadata cfg True True). fc_passed c"
    by simp_all
qed

text \<open>
  An order the exchange filters approve respects the exchange's grid and limits: with a positive
  step and tick, its quantity is a whole number of steps at or above the minimum, its price a whole
  number of ticks inside the price band, its notional at or above the minimum, and its leverage
  within the configured limit and the instrument's own non-zero limit.
\<close>

theorem approved_order_on_grid:
  assumes res: "validate_exchange_filters request get_instrument cfg = Inr res" "fl_status res = ''approved''"
    and m: "m = get_instrument (fr_instrument_id request)"
    and pos: "0 < im_quantity_step m" "0 < im_price_tick m"
  shows "(\<exists>n::int. fr_quantity request = of_int n * im_quantity_step m)
    \<and> (\<exists>n::int. fr_price request = of_int n * im_price_tick m)
    \<and> im_min_quantity m \<le> fr_quantity request
    \<and> im_min_notional m \<le> dmul (fr_quantity request) (fr_price request)
    \<and> (\<forall>lo. im_min_price m = Some lo \<longrightarrow> lo \<le> fr_price request)
    \<and> (\<forall>hi. im_max_price m = Some hi \<longrightarrow> fr_price request \<le> hi)
    \<and> (\<forall>l. fr_leverage request = Some l \<longrightarrow> l \<le> rc_max_leverage cfg
          \<and> (\<forall>ml. im_max_leverage m = Some ml \<longrightarrow> ml \<noteq> 0 \<longrightarrow> l \<le> ml))
    \<and> (\<forall>mode. fr_margin_mode request = Some mode \<longrightarrow> im_allowed_margin_modes m \<noteq> [] \<longrightarrow>
          mode \<in> set (im_allowed_margin_modes m))"
proof -
  note v = validate_approvedD[OF res, folded m]
  have c: "\<forall>c \<in> set (filter_checks request m cfg True True). fc_passed c" by (rule v(3))
  have lev: "l \<le> rc_max_leverage cfg \<and> (\<forall>ml. im_max_leverage m = Some ml \<longrightarrow> ml \<noteq> 0 \<longrightarrow> l \<le> ml)"
    if "fr_leverage request = Some l" for l
    using c that by (auto simp: filter_checks_def Let_def)
  have band: "im_min_price m = Some lo \<Longrightarrow> lo \<le> fr_price request"
    "im_max_price m = Some hi \<Longrightarrow> fr_price request \<le> hi" for lo hi
    using c by (auto simp: filter_checks_def Let_def)
  have mode: "mode \<in> set (im_allowed_margin_modes m)"
    if "fr_margin_mode request = Some mode" "im_allowed_margin_modes m \<noteq> []" for mode
    using c that by (auto simp: filter_checks_def Let_def)
  have mins: "im_min_quantity m \<le> fr_quantity request"
    "im_min_notional m \<le> dmul (fr_quantity request) (fr_price request)"
    using c by (auto simp: filter_checks_def Let_def)
  show ?thesis
    using aligned_iff[OF pos(1) v(1)] aligned_iff[OF pos(2) v(2)] lev band mode mins by blast
qed

definition filter_example_metadata :: InstrumentMetadata where
  "filter_example_metadata =
     \<lparr> im_instrument_id = ''BTCUSDT'', im_min_notional = 5, im_min_quantity = 1, im_quantity_step = 1,
       im_price_tick = 2, im_min_price = Some 10, im_max_price = Some 1000, im_max_leverage = Some 20,
       im_allowed_margin_modes = [''cross'', ''isolated''] \<rparr>"

definition filter_example_request :: "rat \<Rightarrow> OrderFilterRequest" where
  "filter_example_request q =
     \<lparr> fr_instrument_id = ''BTCUSDT'', fr_quantity = q, fr_price = 100, fr_leverage = Some 5,
       fr_margin_mode = Some ''cross'' \<rparr>"

lemma filter_example_aligned:
  "aligned 15 1 = Inr True" "aligned 100 2 = Inr True"
  using aligned_multiple[of 1 15] aligned_multiple[of 2 50] by simp_all

lemma filter_example_approved:
  "\<exists>res. validate_exchange_filters (filter_example_request 15) (\<lambda>_. filter_example_metadata) default_risk_config = Inr res
     \<and> fl_status res = ''approved''"
  by (simp add: validate_exchange_filters_def filter_example_metadata_def filter_example_request_def
      filter_example_aligned filter_checks_def default_risk_config_def dmul_def)

theorem approved_order_on_grid_witness:
  "\<exists>n::int. fr_price (filter_example_request 15) = of_int n * im_price_tick filter_example_metadata"
proof -
  obtain res where r: "validate_exchange_filters (filter_example_request 15) (\<lambda>_. filter_example_metadata)
      default_risk_config = Inr res" "fl_status res = ''approved''"
    using filter_example_approved by blast
  show ?thesis
    using approved_order_on_grid[OF r refl] by (simp add: filter_example_metadata_def)
qed

section \<open>A sized quantity passes the quantity filters\<close>

text \<open>
  Sizing and filters agree: an approved fixed-risk size whose request carries the exchange's step
  and minima is accepted by the exchange filters at the entry price, provided the price itself is on
  the tick and in the band and the product of step count and step needs no rounding. A size is
  never approved only to be rejected by the exchange filters for its quantity.
\<close>

theorem approved_size_passes_filters:
  assumes ok: "sz_status (fixed_risk_size budget request cfg) = ''approved''"
    and m: "m = get_instrument (sr_instrument_id request)"
    and req: "sr_quantity_step request = im_quantity_step m" "sr_min_quantity request = im_min_quantity m"
      "sr_min_notional request = im_min_notional m"
    and step: "0 < im_quantity_step m"
    and n: "sz_quantity (fixed_risk_size budget request cfg) = of_int n * im_quantity_step m" "\<bar>n\<bar> < 10 ^ 28"
    and price: "aligned (sr_entry_price request) (im_price_tick m) = Inr True"
      "case im_min_price m of None \<Rightarrow> True | Some lo \<Rightarrow> lo \<le> sr_entry_price request"
      "case im_max_price m of None \<Rightarrow> True | Some hi \<Rightarrow> sr_entry_price request \<le> hi"
  shows "\<exists>res. validate_exchange_filters
      \<lparr> fr_instrument_id = sr_instrument_id request,
        fr_quantity = sz_quantity (fixed_risk_size budget request cfg),
        fr_price = sr_entry_price request, fr_leverage = None, fr_margin_mode = None \<rparr>
      get_instrument cfg = Inr res \<and> fl_status res = ''approved''"
proof -
  obtain stop dist where r: "fixed_risk_size budget request cfg =
      size_within_caps budget request cfg (sizing_risk_amount budget request cfg) dist
        [\<lparr> sc_name = ''stop_distance'', sc_passed = True, sc_value = Some dist \<rparr>]"
    using fixed_risk_size_approvedE[OF ok] by metis
  note w = size_within_caps_approved[OF ok[unfolded r], folded r]
  have "aligned (of_int n * im_quantity_step m) (im_quantity_step m) = Inr True"
    by (rule aligned_multiple[OF step n(2)])
  then show ?thesis
    using w(6-8) req price m n(1)
    by (simp add: validate_exchange_filters_def filter_checks_def Let_def split: option.splits)
qed

theorem approved_size_passes_filters_witness:
  "\<exists>res. validate_exchange_filters
      \<lparr> fr_instrument_id = ''BTCUSDT'', fr_quantity = 15, fr_price = 100, fr_leverage = None,
        fr_margin_mode = None \<rparr>
      (\<lambda>_. filter_example_metadata) default_risk_config = Inr res
    \<and> fl_status res = ''approved''"
  using approved_size_passes_filters[OF sizing_example_approved(1) refl, of
      "\<lambda>_. filter_example_metadata" 15]
  by (simp add: sizing_example_approved(2)[unfolded sizing_example_request_def] sizing_example_request_def filter_example_metadata_def
      filter_example_aligned)

end
