(* ===== verification/Loss_Limits.thy ===== *)
theory Loss_Limits
  imports Account_Budget
begin

text \<open>
  \<open>services/control-plane/risk/loss_limits.py\<close>: the daily loss limit and the drawdown limit. The
  state remembers the equity at the start of the day, the peak, and the mode a breach put the
  account in; only an explicit confirmation resets the mode. A day key is the day number of the
  local time, which its ISO rendering determines and is determined by.
\<close>

type_synonym day = int

record LossLimitState =
  ll_account_id :: account_id
  ll_mode :: string
  ll_day_key :: day
  ll_day_start_equity :: rat
  ll_peak_equity :: rat
  ll_breached_at :: "instant option"
  ll_cooldown_until :: "instant option"

record LossLimitDecision =
  ld_mode :: string
  ld_reason :: string
  ld_daily_loss :: rat
  ld_drawdown_pct :: rat
  ld_requires_confirmation :: bool
  ld_state :: LossLimitState

text \<open>The constructor upper-cases the mode, also when \<open>replace\<close> calls it.\<close>

definition loss_limit_state ::
    "account_id \<Rightarrow> string \<Rightarrow> day \<Rightarrow> rat \<Rightarrow> rat \<Rightarrow> instant option \<Rightarrow> instant option \<Rightarrow> LossLimitState" where
  "loss_limit_state a m d start peak breached cooldown =
     \<lparr> ll_account_id = a, ll_mode = upper m, ll_day_key = d, ll_day_start_equity = start,
       ll_peak_equity = peak, ll_breached_at = breached, ll_cooldown_until = cooldown \<rparr>"

definition day_key_of :: "instant \<Rightarrow> duration \<Rightarrow> day" where
  "day_key_of now tz = (now + tz) div 86400000000"

definition cooldown_until :: "instant \<Rightarrow> RiskConfig \<Rightarrow> instant option" where
  "cooldown_until now cfg =
     (if loss_cooldown_seconds cfg \<le> 0 then None else Some (now + loss_cooldown_seconds cfg * 1000000))"

definition roll_day :: "LossLimitState \<Rightarrow> rat \<Rightarrow> day \<Rightarrow> LossLimitState" where
  "roll_day st equity day =
     (if ll_day_key st \<noteq> day
      then loss_limit_state (ll_account_id st) (ll_mode st) day equity (max equity (ll_peak_equity st))
             (ll_breached_at st) (ll_cooldown_until st)
      else st)"

definition breach_modes :: "string list" where
  "breach_modes = [''REDUCING'', ''HALT'', ''HALTED'']"

definition breach ::
    "LossLimitState \<Rightarrow> string \<Rightarrow> string \<Rightarrow> rat \<Rightarrow> instant \<Rightarrow> RiskConfig \<Rightarrow> rat \<Rightarrow> rat \<Rightarrow> LossLimitDecision" where
  "breach st m reason peak now cfg daily_loss drawdown =
     \<lparr> ld_mode = m, ld_reason = reason, ld_daily_loss = daily_loss, ld_drawdown_pct = drawdown,
       ld_requires_confirmation = False,
       ld_state = loss_limit_state (ll_account_id st) m (ll_day_key st) (ll_day_start_equity st) peak
         (Some (case ll_breached_at st of Some t \<Rightarrow> t | None \<Rightarrow> now)) (cooldown_until now cfg) \<rparr>"

definition evaluate_loss_limits ::
    "LossLimitState \<Rightarrow> rat \<Rightarrow> instant \<Rightarrow> RiskConfig \<Rightarrow> duration \<Rightarrow> LossLimitDecision" where
  "evaluate_loss_limits st0 equity now cfg tz =
     (let st = roll_day st0 equity (day_key_of now tz);
          peak = max (ll_peak_equity st) equity;
          daily_loss = max (dsub (ll_day_start_equity st) equity) 0;
          drawdown = (if 0 < peak then ddiv (dsub peak equity) peak else 0)
      in if 0 < max_drawdown_pct cfg \<and> max_drawdown_pct cfg \<le> drawdown
         then breach st ''HALT'' ''max drawdown breached'' peak now cfg daily_loss drawdown
         else if 0 < daily_loss_limit cfg \<and> daily_loss_limit cfg \<le> daily_loss
         then breach st ''REDUCING'' ''daily loss limit breached'' peak now cfg daily_loss drawdown
         else
           (let confirm = (ll_mode st \<in> set breach_modes
                  \<and> (case ll_cooldown_until st of None \<Rightarrow> False | Some t \<Rightarrow> t \<le> now));
                m = (if ll_mode st \<in> set breach_modes then ll_mode st else ''ACTIVE'')
            in \<lparr> ld_mode = m,
                 ld_reason = (if confirm then ''cooldown ended; explicit confirm required'' else ''within loss limits''),
                 ld_daily_loss = daily_loss, ld_drawdown_pct = drawdown, ld_requires_confirmation = confirm,
                 ld_state = loss_limit_state (ll_account_id st) m (ll_day_key st) (ll_day_start_equity st) peak
                   (ll_breached_at st) (ll_cooldown_until st) \<rparr>))"

definition confirm_loss_limit_reset :: "LossLimitState \<Rightarrow> rat \<Rightarrow> instant \<Rightarrow> duration \<Rightarrow> LossLimitState" where
  "confirm_loss_limit_reset st equity now tz =
     loss_limit_state (ll_account_id st) ''ACTIVE'' (day_key_of now tz) equity equity None None"

section \<open>Invariant and behaviour\<close>

lemma upper_breach_modes [simp]:
  "upper ''REDUCING'' = ''REDUCING''" "upper ''HALT'' = ''HALT''" "upper ''HALTED'' = ''HALTED''"
  "upper ''ACTIVE'' = ''ACTIVE''"
  by code_simp+

lemma loss_limit_state_simps [simp]:
  "ll_account_id (loss_limit_state a m d s p b c) = a" "ll_mode (loss_limit_state a m d s p b c) = upper m"
  "ll_day_key (loss_limit_state a m d s p b c) = d" "ll_day_start_equity (loss_limit_state a m d s p b c) = s"
  "ll_peak_equity (loss_limit_state a m d s p b c) = p" "ll_breached_at (loss_limit_state a m d s p b c) = b"
  "ll_cooldown_until (loss_limit_state a m d s p b c) = c"
  by (simp_all add: loss_limit_state_def)

lemma roll_day_simps [simp]:
  "ll_account_id (roll_day st e d) = ll_account_id st"
  "ll_day_key (roll_day st e d) = d"
  "ll_breached_at (roll_day st e d) = ll_breached_at st"
  "ll_cooldown_until (roll_day st e d) = ll_cooldown_until st"
  by (simp_all add: roll_day_def)

lemma roll_day_mode: "upper (ll_mode st) = ll_mode st \<Longrightarrow> ll_mode (roll_day st e d) = ll_mode st"
  by (simp add: roll_day_def)

lemma roll_day_peak: "max (ll_peak_equity (roll_day st e d)) e = max (ll_peak_equity st) e"
  by (simp add: roll_day_def max.commute)

lemma breach_simps [simp]:
  "ld_mode (breach st m r p now cfg l d) = m"
  "ll_mode (ld_state (breach st m r p now cfg l d)) = upper m"
  "ll_peak_equity (ld_state (breach st m r p now cfg l d)) = p"
  "ll_account_id (ld_state (breach st m r p now cfg l d)) = ll_account_id st"
  "ld_daily_loss (breach st m r p now cfg l d) = l"
  "ld_drawdown_pct (breach st m r p now cfg l d) = d"
  "ll_breached_at (ld_state (breach st m r p now cfg l d)) \<noteq> None"
  by (simp_all add: breach_def)

lemma breach_modes_upper: "m \<in> set breach_modes \<Longrightarrow> upper m = m"
  by (auto simp: breach_modes_def)

text \<open>A state is well formed when its mode is upper case, as the constructor leaves it.\<close>

definition loss_state_ok :: "LossLimitState \<Rightarrow> bool" where
  "loss_state_ok st = (upper (ll_mode st) = ll_mode st)"

lemma evaluate_mode:
  assumes "loss_state_ok st"
  shows "ll_mode (ld_state (evaluate_loss_limits st e now cfg tz)) = ld_mode (evaluate_loss_limits st e now cfg tz)"
    and "loss_state_ok (ld_state (evaluate_loss_limits st e now cfg tz))"
    and "ll_mode st \<in> set breach_modes \<Longrightarrow> ld_mode (evaluate_loss_limits st e now cfg tz) \<in> set breach_modes"
    and "ld_mode (evaluate_loss_limits st e now cfg tz) \<in> set (''ACTIVE'' # breach_modes)"
  using assms
  by (auto simp: evaluate_loss_limits_def Let_def loss_state_ok_def roll_day_mode breach_modes_upper
      breach_modes_def)

lemma evaluate_peak:
  "ll_peak_equity (ld_state (evaluate_loss_limits st e now cfg tz)) = max (ll_peak_equity st) e"
  by (simp add: evaluate_loss_limits_def Let_def roll_day_peak)

lemma evaluate_active_within_limits:
  assumes "ld_mode (evaluate_loss_limits st e now cfg tz) = ''ACTIVE''"
  shows "(0 < max_drawdown_pct cfg \<longrightarrow> ld_drawdown_pct (evaluate_loss_limits st e now cfg tz) < max_drawdown_pct cfg)
    \<and> (0 < daily_loss_limit cfg \<longrightarrow> ld_daily_loss (evaluate_loss_limits st e now cfg tz) < daily_loss_limit cfg)"
  using assms by (auto simp: evaluate_loss_limits_def Let_def split: if_splits)

text \<open>A day of operation: evaluations at given equities and instants, without a confirmation.\<close>

fun evaluate_all :: "LossLimitState \<Rightarrow> (rat \<times> instant) list \<Rightarrow> RiskConfig \<Rightarrow> duration \<Rightarrow> LossLimitState" where
  "evaluate_all st [] cfg tz = st"
| "evaluate_all st ((e, now) # es) cfg tz =
     evaluate_all (ld_state (evaluate_loss_limits st e now cfg tz)) es cfg tz"

lemma evaluate_all_breached:
  assumes "loss_state_ok st" "ll_mode st \<in> set breach_modes"
  shows "ll_mode (evaluate_all st es cfg tz) \<in> set breach_modes"
  using assms by (induction es arbitrary: st rule: list.induct) (auto simp: evaluate_mode)

lemma evaluate_all_peak: "ll_peak_equity st \<le> ll_peak_equity (evaluate_all st es cfg tz)"
proof (induction es arbitrary: st)
  case (Cons x es)
  obtain e now where x: "x = (e, now)" by fastforce
  show ?case
    using Cons[of "ld_state (evaluate_loss_limits st e now cfg tz)"] by (simp add: x evaluate_peak)
qed simp

lemma evaluate_breach_mode:
  assumes "loss_state_ok st"
    and "0 < max_drawdown_pct cfg \<and> max_drawdown_pct cfg \<le> ld_drawdown_pct (evaluate_loss_limits st e now cfg tz)
      \<or> 0 < daily_loss_limit cfg \<and> daily_loss_limit cfg \<le> ld_daily_loss (evaluate_loss_limits st e now cfg tz)"
  shows "ld_mode (evaluate_loss_limits st e now cfg tz) \<in> set breach_modes"
  using evaluate_active_within_limits[of st e now cfg tz] evaluate_mode(4)[OF assms(1), of e now cfg tz] assms(2)
  by auto

text \<open>
  A loss breach latches: once an evaluation finds the drawdown or the daily loss at or above its
  configured limit, the account stays out of ACTIVE through every later evaluation, whatever the
  equity, the day or the elapsed cooldown, with the peak equity never falling; only the explicit
  confirmation returns it to ACTIVE, with day start and peak reset to the current equity.
\<close>

theorem loss_breach_latches:
  assumes ok: "loss_state_ok st"
    and d: "d = evaluate_loss_limits st e now cfg tz"
    and hit: "0 < max_drawdown_pct cfg \<and> max_drawdown_pct cfg \<le> ld_drawdown_pct d
      \<or> 0 < daily_loss_limit cfg \<and> daily_loss_limit cfg \<le> ld_daily_loss d"
  shows "ll_mode (evaluate_all (ld_state d) es cfg tz) \<in> set breach_modes
    \<and> max (ll_peak_equity st) e \<le> ll_peak_equity (evaluate_all (ld_state d) es cfg tz)
    \<and> ll_mode (confirm_loss_limit_reset (evaluate_all (ld_state d) es cfg tz) e' now' tz) = ''ACTIVE''
    \<and> ll_peak_equity (confirm_loss_limit_reset (evaluate_all (ld_state d) es cfg tz) e' now' tz) = e'"
proof -
  have "ll_mode (ld_state d) \<in> set breach_modes" "loss_state_ok (ld_state d)"
    using evaluate_breach_mode[OF ok] evaluate_mode[OF ok] hit unfolding d by simp_all
  then have "ll_mode (evaluate_all (ld_state d) es cfg tz) \<in> set breach_modes"
    by (rule evaluate_all_breached[rotated])
  moreover have "max (ll_peak_equity st) e \<le> ll_peak_equity (evaluate_all (ld_state d) es cfg tz)"
    using evaluate_all_peak[of "ld_state d" es cfg tz] by (simp add: d evaluate_peak)
  ultimately show ?thesis by (simp add: confirm_loss_limit_reset_def)
qed

definition loss_example_config :: RiskConfig where
  "loss_example_config = default_risk_config \<lparr> daily_loss_limit := 100, max_drawdown_pct := 2 / 10 \<rparr>"

definition loss_example_state :: "string \<Rightarrow> LossLimitState" where
  "loss_example_state m = loss_limit_state ''acc'' m 0 1000 1000 None None"

lemma loss_example_dec: "dec (21 / 100) = 21 / 100" "dec (3 / 20) = 3 / 20"
  using dec_cents[of 21 2] dec_cents[of 15 2] by simp_all

lemma loss_example_halt:
  "evaluate_loss_limits (loss_example_state ''ACTIVE'') 790 0 loss_example_config 0 =
     \<lparr> ld_mode = ''HALT'', ld_reason = ''max drawdown breached'', ld_daily_loss = 210, ld_drawdown_pct = 21 / 100,
       ld_requires_confirmation = False,
       ld_state = loss_limit_state ''acc'' ''HALT'' 0 1000 1000 (Some 0) None \<rparr>"
  by (simp add: evaluate_loss_limits_def loss_example_state_def loss_example_config_def roll_day_def
      day_key_of_def breach_def cooldown_until_def default_risk_config_def dsub_def ddiv_def loss_example_dec)

theorem loss_breach_latches_witness:
  "ll_mode (evaluate_all (ld_state (evaluate_loss_limits (loss_example_state ''ACTIVE'') 790 0 loss_example_config 0))
      [(1500, 90000000000)] loss_example_config 0) \<in> set breach_modes"
proof -
  have "loss_state_ok (loss_example_state ''ACTIVE'')" by (simp add: loss_state_ok_def loss_example_state_def)
  moreover have "0 < max_drawdown_pct loss_example_config \<and> max_drawdown_pct loss_example_config \<le>
      ld_drawdown_pct (evaluate_loss_limits (loss_example_state ''ACTIVE'') 790 0 loss_example_config 0)"
    unfolding loss_example_halt by (simp add: loss_example_config_def)
  ultimately show ?thesis using loss_breach_latches[OF _ refl] by blast
qed

text \<open>
  A HALT is not kept: after a drawdown breach has put the account in HALT, a partial recovery of
  the equity that still exceeds the daily loss limit makes the next evaluation answer REDUCING and
  store it, so the stricter mode is lifted without the confirmation that a reset requires.
\<close>

theorem halt_downgraded_to_reducing:
  "ld_mode (evaluate_loss_limits
      (ld_state (evaluate_loss_limits (loss_example_state ''ACTIVE'') 790 0 loss_example_config 0))
      850 1 loss_example_config 0) = ''REDUCING''
   \<and> ld_mode (evaluate_loss_limits (loss_example_state ''ACTIVE'') 790 0 loss_example_config 0) = ''HALT''"
  by (simp add: loss_example_halt)
    (simp add: evaluate_loss_limits_def loss_example_config_def roll_day_def
      day_key_of_def breach_def cooldown_until_def default_risk_config_def dsub_def ddiv_def loss_example_dec)

end
