(* ===== verification/Reservations.thy ===== *)
theory Reservations
  imports Account_Budget "HOL-Library.Product_Lexorder" "HOL-Library.List_Lexorder" "HOL-Library.Char_ord"
begin

text \<open>
  \<open>services/control-plane/risk/reservations.py\<close>: risk held for an intent between its approval
  and its execution. The table \<open>risk_reservations\<close> is a list of rows in insertion order, with the
  constraints of its migration: the primary key, the unique idempotency key of an account, and
  amounts that are not negative. Every operation is one transaction under the account's advisory
  lock, so operations interleave as whole steps; a raised exception rolls the table back.
\<close>

record ReservationRequest =
  rq_account_id :: account_id
  rq_instrument_id :: symbol
  rq_intent_id :: string
  rq_idempotency_key :: string
  rq_risk_amount :: rat
  rq_notional :: rat
  rq_ttl_seconds :: int
  rq_now :: instant
  rq_margin_amount :: rat
  rq_position_key :: "string option"

record ReservationResult =
  rr_status :: string
  rr_reason :: string
  rr_reservation_id :: "string option"
  rr_account_id :: account_id
  rr_instrument_id :: "symbol option"
  rr_risk_amount :: rat
  rr_notional :: rat
  rr_expires_at :: "instant option"
  rr_remaining_budget :: "rat option"

record reservation =
  rv_id :: string
  rv_account_id :: account_id
  rv_position_key :: "string option"
  rv_venue_symbol :: symbol
  rv_idempotency_key :: string
  rv_status :: string
  rv_notional :: rat
  rv_risk_amount :: rat
  rv_margin_amount :: rat
  rv_expires_at :: "instant option"
  rv_released_at :: "instant option"
  rv_payload :: "(string \<times> string) list"
  rv_created_at :: instant
  rv_updated_at :: instant

definition reservation_request ::
    "string option \<Rightarrow> string \<Rightarrow> string \<Rightarrow> string \<Rightarrow> rat \<Rightarrow> rat \<Rightarrow> int \<Rightarrow> instant \<Rightarrow> rat \<Rightarrow> string option \<Rightarrow>
     ReservationRequest result" where
  "reservation_request account instrument intent idem risk n ttl now mg key =
     bind_result (canonical_account_id account) (\<lambda>a.
       Inr \<lparr> rq_account_id = a, rq_instrument_id = canonical_instrument_key instrument,
             rq_intent_id = intent, rq_idempotency_key = idem, rq_risk_amount = risk, rq_notional = n,
             rq_ttl_seconds = ttl, rq_now = now, rq_margin_amount = mg, rq_position_key = key \<rparr>)"

definition active_status :: "string \<Rightarrow> bool" where
  "active_status s = (s \<in> {''held'', ''reserved''})"

definition row_result :: "reservation \<Rightarrow> string \<Rightarrow> rat option \<Rightarrow> ReservationResult" where
  "row_result r reason remaining =
     \<lparr> rr_status = rv_status r, rr_reason = reason, rr_reservation_id = Some (rv_id r),
       rr_account_id = rv_account_id r, rr_instrument_id = Some (rv_venue_symbol r),
       rr_risk_amount = rv_risk_amount r, rr_notional = rv_notional r,
       rr_expires_at = rv_expires_at r, rr_remaining_budget = remaining \<rparr>"

definition expired_at :: "instant \<Rightarrow> reservation \<Rightarrow> bool" where
  "expired_at now r =
     (active_status (rv_status r) \<and> (case rv_expires_at r of None \<Rightarrow> False | Some t \<Rightarrow> t \<le> now))"

definition mark_expired :: "instant \<Rightarrow> reservation \<Rightarrow> reservation" where
  "mark_expired clock r = r \<lparr> rv_status := ''expired'', rv_updated_at := clock \<rparr>"

definition expire_account_reservations :: "account_id \<Rightarrow> instant \<Rightarrow> instant \<Rightarrow> reservation list \<Rightarrow> reservation list" where
  "expire_account_reservations a now clock tbl =
     update_where (\<lambda>r. rv_account_id r = a \<and> expired_at now r) (mark_expired clock) tbl"

definition existing_by_idempotency :: "account_id \<Rightarrow> string \<Rightarrow> reservation list \<Rightarrow> reservation option" where
  "existing_by_idempotency a idem tbl =
     List.find (\<lambda>r. rv_account_id r = a \<and> rv_idempotency_key r = idem) tbl"

definition active_risk_amount :: "account_id \<Rightarrow> instant \<Rightarrow> reservation list \<Rightarrow> rat" where
  "active_risk_amount a now tbl =
     dsum (map rv_risk_amount
       (filter (\<lambda>r. rv_account_id r = a \<and> active_status (rv_status r)
                  \<and> (case rv_expires_at r of None \<Rightarrow> True | Some t \<Rightarrow> now < t)) tbl))"

text \<open>INSERT checks the constraints of the table.\<close>

definition insert_reservation :: "reservation \<Rightarrow> reservation list \<Rightarrow> reservation list result" where
  "insert_reservation r tbl =
     (if rv_id r \<in> set (map rv_id tbl)
         \<or> (rv_account_id r, rv_idempotency_key r) \<in> set (map (\<lambda>x. (rv_account_id x, rv_idempotency_key x)) tbl)
         \<or> rv_notional r < 0 \<or> rv_risk_amount r < 0 \<or> rv_margin_amount r < 0
      then Inl IntegrityError else Inr (tbl @ [r]))"

definition held_row :: "ReservationRequest \<Rightarrow> string \<Rightarrow> instant \<Rightarrow> reservation" where
  "held_row request uuid clock =
     \<lparr> rv_id = uuid, rv_account_id = rq_account_id request, rv_position_key = rq_position_key request,
       rv_venue_symbol = rq_instrument_id request, rv_idempotency_key = rq_idempotency_key request,
       rv_status = ''held'', rv_notional = rq_notional request, rv_risk_amount = rq_risk_amount request,
       rv_margin_amount = rq_margin_amount request,
       rv_expires_at = Some (rq_now request + rq_ttl_seconds request * 1000000), rv_released_at = None,
       rv_payload = [(''intent_id'', rq_intent_id request), (''instrument_id'', rq_instrument_id request)],
       rv_created_at = clock, rv_updated_at = clock \<rparr>"

definition refused :: "ReservationRequest \<Rightarrow> string \<Rightarrow> string \<Rightarrow> rat \<Rightarrow> ReservationResult" where
  "refused request status reason remaining =
     \<lparr> rr_status = status, rr_reason = reason, rr_reservation_id = None,
       rr_account_id = rq_account_id request, rr_instrument_id = Some (rq_instrument_id request),
       rr_risk_amount = rq_risk_amount request, rr_notional = rq_notional request,
       rr_expires_at = None, rr_remaining_budget = Some remaining \<rparr>"

text \<open>The part of the transaction after the idempotency check.\<close>

definition reserve_new ::
    "account_row list \<Rightarrow> reservation list \<Rightarrow> ReservationRequest \<Rightarrow> RiskConfig \<Rightarrow> string \<Rightarrow> instant \<Rightarrow>
     (reservation list \<times> ReservationResult) result" where
  "reserve_new accounts tbl request cfg uuid clock =
     bind_result (load_account_budget accounts (Some (rq_account_id request)) (rq_now request)
        default_freshness_config) (\<lambda>budget.
       if \<not> can_take_new_risk budget
       then Inr (tbl, refused request ''needs_review'' ''account budget stale or unavailable'' 0)
       else
         (let active_risk = active_risk_amount (rq_account_id request) (rq_now request) tbl;
              max_budget = dmul (ab_equity budget) (max_total_open_risk_pct cfg);
              remaining = max (dsub max_budget active_risk) 0
          in if remaining < rq_risk_amount request
             then Inr (tbl, refused request ''rejected'' ''risk reservation budget exceeded'' remaining)
             else
               (let row = held_row request uuid clock
                in bind_result (insert_reservation row tbl) (\<lambda>tbl'.
                     Inr (tbl', row_result row ''risk reserved'' (Some (dsub remaining (rq_risk_amount request))))))))"

definition reserve_risk ::
    "account_row list \<Rightarrow> reservation list \<Rightarrow> ReservationRequest \<Rightarrow> RiskConfig \<Rightarrow> string \<Rightarrow> instant \<Rightarrow>
     (reservation list \<times> ReservationResult) result" where
  "reserve_risk accounts tbl0 request cfg uuid clock =
     (let tbl = expire_account_reservations (rq_account_id request) (rq_now request) clock tbl0
      in case existing_by_idempotency (rq_account_id request) (rq_idempotency_key request) tbl of
           Some row \<Rightarrow> Inr (tbl, row_result row ''idempotent reservation'' None)
         | None \<Rightarrow> reserve_new accounts tbl request cfg uuid clock)"

definition set_status ::
    "reservation list \<Rightarrow> string \<Rightarrow> string \<Rightarrow> instant \<Rightarrow> instant \<Rightarrow> reservation list \<times> ReservationResult" where
  "set_status tbl rid status now clock =
     (let tbl' = update_where (\<lambda>r. rv_id r = rid)
            (\<lambda>r. r \<lparr> rv_status := status, rv_updated_at := clock,
                     rv_released_at := (if status = ''released'' then Some now else rv_released_at r) \<rparr>) tbl
      in case List.find (\<lambda>r. rv_id r = rid) tbl' of
           None \<Rightarrow> (tbl', \<lparr> rr_status = status, rr_reason = ''reservation not found'', rr_reservation_id = None,
                     rr_account_id = [], rr_instrument_id = None, rr_risk_amount = 0, rr_notional = 0,
                     rr_expires_at = None, rr_remaining_budget = None \<rparr>)
         | Some r \<Rightarrow> (tbl', row_result r (''reservation '' @ status) None))"

definition release_reservation ::
    "reservation list \<Rightarrow> string \<Rightarrow> instant \<Rightarrow> instant \<Rightarrow> reservation list \<times> ReservationResult" where
  "release_reservation tbl rid now clock = set_status tbl rid ''released'' now clock"

definition consume_reservation ::
    "reservation list \<Rightarrow> string \<Rightarrow> instant \<Rightarrow> instant \<Rightarrow> reservation list \<times> ReservationResult" where
  "consume_reservation tbl rid now clock = set_status tbl rid ''consumed'' now clock"

definition expire_reservations :: "reservation list \<Rightarrow> instant \<Rightarrow> instant \<Rightarrow> reservation list \<times> nat" where
  "expire_reservations tbl now clock =
     (update_where (expired_at now) (mark_expired clock) tbl, length (filter (expired_at now) tbl))"

text \<open>The expiry is committed before the account id is read, so a bad id still leaves it.\<close>

definition load_active_reservations ::
    "reservation list \<Rightarrow> string option \<Rightarrow> instant \<Rightarrow> instant \<Rightarrow>
     reservation list \<times> ReservationResult list result" where
  "load_active_reservations tbl account now clock =
     (let tbl' = fst (expire_reservations tbl now clock) in
      (tbl', bind_result
        (case account of None \<Rightarrow> Inr (\<lambda>r. True)
         | Some a \<Rightarrow> bind_result (canonical_account_id (Some a)) (\<lambda>b. Inr (\<lambda>r. rv_account_id r = b)))
        (\<lambda>sel. Inr (map (\<lambda>r. row_result r ''active reservation'' None)
             (sort_key (\<lambda>r. (rv_created_at r, rv_id r))
               (filter (\<lambda>r. active_status (rv_status r) \<and> sel r) tbl'))))))"

section \<open>The table invariant\<close>

definition reservations_ok :: "reservation list \<Rightarrow> bool" where
  "reservations_ok tbl =
     (distinct (map rv_id tbl)
      \<and> distinct (map (\<lambda>r. (rv_account_id r, rv_idempotency_key r)) tbl)
      \<and> (\<forall>r \<in> set tbl. 0 \<le> rv_notional r \<and> 0 \<le> rv_risk_amount r \<and> 0 \<le> rv_margin_amount r))"

lemma reservations_ok_update:
  assumes "reservations_ok tbl"
    and "\<And>r. p r \<Longrightarrow> rv_id (f r) = rv_id r \<and> rv_account_id (f r) = rv_account_id r
      \<and> rv_idempotency_key (f r) = rv_idempotency_key r \<and> rv_notional (f r) = rv_notional r
      \<and> rv_risk_amount (f r) = rv_risk_amount r \<and> rv_margin_amount (f r) = rv_margin_amount r"
  shows "reservations_ok (update_where p f tbl)"
  using assms by (auto simp: reservations_ok_def distinct_map_update_where set_update_where)

lemma mark_expired_simps [simp]:
  "rv_id (mark_expired c r) = rv_id r" "rv_account_id (mark_expired c r) = rv_account_id r"
  "rv_idempotency_key (mark_expired c r) = rv_idempotency_key r" "rv_notional (mark_expired c r) = rv_notional r"
  "rv_risk_amount (mark_expired c r) = rv_risk_amount r" "rv_margin_amount (mark_expired c r) = rv_margin_amount r"
  "rv_expires_at (mark_expired c r) = rv_expires_at r" "rv_status (mark_expired c r) = ''expired''"
  by (simp_all add: mark_expired_def)

lemma active_status_simps [simp]:
  "active_status ''held''" "\<not> active_status ''expired''" "\<not> active_status ''released''" "\<not> active_status ''consumed''"
  by (simp_all add: active_status_def)

lemma expire_account_ok: "reservations_ok tbl \<Longrightarrow> reservations_ok (expire_account_reservations a now c tbl)"
  unfolding expire_account_reservations_def by (rule reservations_ok_update) simp_all

lemma set_status_ok: "reservations_ok tbl \<Longrightarrow> reservations_ok (fst (set_status tbl rid st now c))"
  unfolding set_status_def Let_def
  by (auto intro!: reservations_ok_update split: option.splits)

lemma expire_ok: "reservations_ok tbl \<Longrightarrow> reservations_ok (fst (expire_reservations tbl now c))"
  unfolding expire_reservations_def by (auto intro!: reservations_ok_update)

lemma insert_ok:
  "insert_reservation r tbl = Inr tbl' \<Longrightarrow> reservations_ok tbl \<Longrightarrow> reservations_ok tbl' \<and> tbl' = tbl @ [r]"
  by (auto simp: insert_reservation_def reservations_ok_def not_less split: if_splits)

lemma reserve_newE:
  assumes "reserve_new accounts tbl request cfg uuid clock = Inr (tbl', res)"
  obtains "tbl' = tbl" "rr_reservation_id res = None"
  | budget row where
    "load_account_budget accounts (Some (rq_account_id request)) (rq_now request) default_freshness_config = Inr budget"
    "can_take_new_risk budget" "row = held_row request uuid clock"
    "rq_risk_amount request \<le> max (dsub (dmul (ab_equity budget) (max_total_open_risk_pct cfg))
        (active_risk_amount (rq_account_id request) (rq_now request) tbl)) 0"
    "insert_reservation row tbl = Inr tbl'"
    "rr_status res = ''held''" "rr_reservation_id res = Some uuid"
  using assms
  by (auto simp: reserve_new_def bind_result_Inr_iff Let_def refused_def row_result_def held_row_def not_less
      split: if_splits)

lemma reserve_risk_ok:
  assumes "reserve_risk accounts tbl request cfg uuid clock = Inr (tbl', res)" "reservations_ok tbl"
  shows "reservations_ok tbl'"
  using assms
  by (auto simp: reserve_risk_def Let_def expire_account_ok dest: insert_ok elim!: reserve_newE
      split: option.splits)

section \<open>Held risk never exceeds the budget\<close>

text \<open>The risk an account holds, whatever the clock says about expiry.\<close>

definition held_risk :: "account_id \<Rightarrow> reservation list \<Rightarrow> rat" where
  "held_risk a tbl = dsum (map rv_risk_amount (filter (\<lambda>r. rv_account_id r = a \<and> active_status (rv_status r)) tbl))"

lemma held_risk_nonneg: "reservations_ok tbl \<Longrightarrow> 0 \<le> held_risk a tbl"
  unfolding held_risk_def by (rule dsum_nonneg) (auto simp: reservations_ok_def)

text \<open>Rows that leave the active statuses only lower the held risk.\<close>

lemma held_risk_drop:
  assumes "reservations_ok tbl" "\<And>r. p r \<Longrightarrow> \<not> active_status (rv_status (f r))"
  shows "held_risk a (update_where p f tbl) \<le> held_risk a tbl"
proof -
  let ?q = "\<lambda>r. rv_account_id r = a \<and> active_status (rv_status r)"
  have "filter ?q (update_where p f tbl) = filter (\<lambda>r. \<not> p r) (filter ?q tbl)"
    using assms(2) by (intro filter_update_where_drop) simp
  then show ?thesis
    unfolding held_risk_def
    using dsum_filter_le[of "filter ?q tbl" rv_risk_amount "\<lambda>r. \<not> p r"] assms(1)
    by (auto simp: reservations_ok_def)
qed

lemma held_risk_expire_account:
  "reservations_ok tbl \<Longrightarrow> held_risk b (expire_account_reservations a now c tbl) \<le> held_risk b tbl"
  unfolding expire_account_reservations_def by (rule held_risk_drop) simp_all

lemma held_risk_set_status:
  "reservations_ok tbl \<Longrightarrow> \<not> active_status st \<Longrightarrow> held_risk b (fst (set_status tbl rid st now c)) \<le> held_risk b tbl"
  unfolding set_status_def Let_def by (auto intro!: held_risk_drop split: option.splits)

lemma held_risk_expire: "reservations_ok tbl \<Longrightarrow> held_risk b (fst (expire_reservations tbl now c)) \<le> held_risk b tbl"
  unfolding expire_reservations_def by (auto intro: held_risk_drop)

text \<open>After the account's own expiry step the query of active risk sees exactly the held rows.\<close>

lemma active_risk_after_expiry:
  "active_risk_amount a now (expire_account_reservations a now c tbl) =
   held_risk a (expire_account_reservations a now c tbl)"
proof -
  have "filter (\<lambda>r. rv_account_id r = a \<and> active_status (rv_status r)
          \<and> (case rv_expires_at r of None \<Rightarrow> True | Some t \<Rightarrow> now < t)) (expire_account_reservations a now c tbl) =
        filter (\<lambda>r. rv_account_id r = a \<and> active_status (rv_status r)) (expire_account_reservations a now c tbl)"
    by (rule filter_cong)
      (auto simp: expire_account_reservations_def set_update_where expired_at_def split: option.splits)
  then show ?thesis by (simp add: active_risk_amount_def held_risk_def)
qed

lemma held_risk_insert:
  "rv_status r = ''held'' \<Longrightarrow> rv_account_id r = a \<Longrightarrow> held_risk a (tbl @ [r]) = dadd (held_risk a tbl) (rv_risk_amount r)"
  by (simp add: held_risk_def dsum_snoc)

lemma reserve_within_budget:
  assumes "0 \<le> h" "r \<le> max (dsub B h) 0" "h \<le> (1 + dec_eps) ^ 2 * B" "dec h = h"
  shows "dadd h r \<le> (1 + dec_eps) ^ 2 * B"
proof (cases "h \<le> B")
  case True
  have "dsub B h \<le> (1 + dec_eps) * (B - h)"
    unfolding dsub_def using True by (intro dec.rnd_upper) simp
  moreover have "0 \<le> dsub B h" unfolding dsub_def using True by (intro dec.rnd_nonneg) simp
  ultimately have "r \<le> (1 + dec_eps) * (B - h)" using assms(2) by simp
  moreover have "h \<le> (1 + dec_eps) * h" using assms(1) by (simp add: algebra_simps dec_eps_def)
  ultimately have hr: "h + r \<le> (1 + dec_eps) * B" by (simp add: algebra_simps)
  have B0: "0 \<le> (1 + dec_eps) * B" using True assms(1) by (simp add: dec_eps_def)
  have "dadd h r \<le> dec ((1 + dec_eps) * B)" unfolding dadd_def using hr by (rule dec.rnd_mono)
  also have "\<dots> \<le> (1 + dec_eps) * ((1 + dec_eps) * B)" using B0 by (rule dec.rnd_upper)
  finally show ?thesis by (simp add: power2_eq_square mult.assoc)
next
  case False
  then have "dsub B h \<le> 0" unfolding dsub_def by (intro dec.rnd_nonpos) simp
  with assms(2) have "h + r \<le> h" by simp
  then have "dadd h r \<le> h" unfolding dadd_def using dec.rnd_mono[of "h + r" h] assms(4) by simp
  with assms(3) show ?thesis by simp
qed

lemma held_risk_stored: "dec (held_risk a tbl) = held_risk a tbl"
  unfolding held_risk_def by (rule dsum_stored)

text \<open>
  One step of the reservation book: any operation of the module, for any request, clock and account
  projection whose budget for the account stays within \<open>limit\<close>.
\<close>

inductive reservation_step ::
    "RiskConfig \<Rightarrow> (account_id \<Rightarrow> rat) \<Rightarrow> reservation list \<Rightarrow> reservation list \<Rightarrow> bool" for cfg limit where
  reserve: "reserve_risk accounts tbl request cfg uuid clock = Inr (tbl', res) \<Longrightarrow>
    (\<And>b. load_account_budget accounts (Some (rq_account_id request)) (rq_now request) default_freshness_config = Inr b \<Longrightarrow>
       dmul (ab_equity b) (max_total_open_risk_pct cfg) \<le> limit (rq_account_id request)) \<Longrightarrow>
    reservation_step cfg limit tbl tbl'"
| release: "reservation_step cfg limit tbl (fst (release_reservation tbl rid now clock))"
| consume: "reservation_step cfg limit tbl (fst (consume_reservation tbl rid now clock))"
| expire: "reservation_step cfg limit tbl (fst (expire_reservations tbl now clock))"
| load: "reservation_step cfg limit tbl (fst (load_active_reservations tbl account now clock))"

lemma held_risk_other:
  "rv_account_id r \<noteq> a \<Longrightarrow> held_risk a (tbl @ [r]) = held_risk a tbl"
  by (simp add: held_risk_def)

lemma reserve_risk_held:
  assumes step: "reserve_risk accounts tbl request cfg uuid clock = Inr (tbl', res)"
    and ok: "reservations_ok tbl" and inv: "held_risk a tbl \<le> (1 + dec_eps) ^ 2 * limit a"
    and lim: "\<And>b. load_account_budget accounts (Some (rq_account_id request)) (rq_now request)
        default_freshness_config = Inr b \<Longrightarrow>
      dmul (ab_equity b) (max_total_open_risk_pct cfg) \<le> limit (rq_account_id request)"
  shows "held_risk a tbl' \<le> (1 + dec_eps) ^ 2 * limit a"
proof -
  define t where "t = expire_account_reservations (rq_account_id request) (rq_now request) clock tbl"
  have t: "reservations_ok t" "held_risk a t \<le> (1 + dec_eps) ^ 2 * limit a"
    unfolding t_def
    by (rule expire_account_ok[OF ok], rule order_trans[OF held_risk_expire_account[OF ok] inv])
  show ?thesis
  proof (cases "existing_by_idempotency (rq_account_id request) (rq_idempotency_key request) t")
    case None
    with step have "reserve_new accounts t request cfg uuid clock = Inr (tbl', res)"
      by (simp add: reserve_risk_def t_def Let_def)
    then show ?thesis
    proof (cases rule: reserve_newE)
      case 1
      with t show ?thesis by simp
    next
      case (2 budget row)
      have tbl': "tbl' = t @ [row]" using insert_ok[OF 2(5) t(1)] by simp
      show ?thesis
      proof (cases "rq_account_id request = a")
        case True
        have "dsub (dmul (ab_equity budget) (max_total_open_risk_pct cfg)) (held_risk a t) \<le> dsub (limit a) (held_risk a t)"
          unfolding dsub_def using lim[OF 2(1)] True by (intro dec.rnd_mono) simp
        moreover have "active_risk_amount a (rq_now request) t = held_risk a t"
          unfolding t_def True by (rule active_risk_after_expiry)
        ultimately have "rq_risk_amount request \<le> max (dsub (limit a) (held_risk a t)) 0"
          using 2(4) True by (simp add: le_max_iff_disj) linarith
        then have "dadd (held_risk a t) (rq_risk_amount request) \<le> (1 + dec_eps) ^ 2 * limit a"
          by (intro reserve_within_budget held_risk_nonneg t held_risk_stored)
        then show ?thesis using 2(3) True by (simp add: tbl' held_risk_insert held_row_def)
      next
        case False
        with t 2(3) show ?thesis by (simp add: tbl' held_risk_other held_row_def)
      qed
    qed
  qed (use step t in \<open>simp add: reserve_risk_def t_def Let_def\<close>)
qed

lemma reservation_step_invariant:
  assumes "reservation_step cfg limit tbl tbl'" "reservations_ok tbl"
    and "held_risk a tbl \<le> (1 + dec_eps) ^ 2 * limit a"
  shows "reservations_ok tbl' \<and> held_risk a tbl' \<le> (1 + dec_eps) ^ 2 * limit a"
  using assms
proof (cases rule: reservation_step.cases)
  case (reserve accounts request uuid clock res)
  then show ?thesis using reserve_risk_ok reserve_risk_held assms(2,3) by blast
qed (auto simp: release_reservation_def consume_reservation_def load_active_reservations_def Let_def
    set_status_ok expire_ok intro: order_trans[OF held_risk_set_status] order_trans[OF held_risk_expire])

lemma reachable_reservations:
  assumes "(reservation_step cfg limit)\<^sup>*\<^sup>* [] tbl" "0 \<le> limit a"
  shows "reservations_ok tbl \<and> held_risk a tbl \<le> (1 + dec_eps) ^ 2 * limit a"
  using assms
proof (induction rule: rtranclp_induct)
  case base
  then show ?case by (simp add: reservations_ok_def held_risk_def dsum_def)
next
  case (step tbl tbl')
  then show ?case using reservation_step_invariant by blast
qed

text \<open>
  C8. The reservation book never over-commits: starting from an empty table, after any interleaving of
  reserve, release, consume, expire and load operations, with arbitrary requests and clocks, in which
  the account's total risk budget stays within a limit, the risk the account holds is within that
  limit up to two Decimal roundings, and the table satisfies its key and sign constraints.
\<close>

theorem held_risk_within_budget:
  assumes "(reservation_step cfg limit)\<^sup>*\<^sup>* [] tbl" "0 \<le> limit a"
  shows "reservations_ok tbl \<and> held_risk a tbl \<le> (1 + dec_eps) ^ 2 * limit a"
  using assms by (rule reachable_reservations)

definition reservation_example_accounts :: "account_row list" where
  "reservation_example_accounts =
     [\<lparr> ar_account_id = ''acc'', ar_currency = ''USDT'', ar_equity = 1000, ar_margin = 0,
        ar_available_balance = Some 1000, ar_last_execution_event_at = None, ar_projection_lag_ms = 0,
        ar_updated_at = 0 \<rparr>]"

definition reservation_example_request :: ReservationRequest where
  "reservation_example_request =
     \<lparr> rq_account_id = ''acc'', rq_instrument_id = ''BTCUSDT'', rq_intent_id = ''i1'', rq_idempotency_key = ''k1'',
       rq_risk_amount = 60, rq_notional = 500, rq_ttl_seconds = 30, rq_now = 0, rq_margin_amount = 0,
       rq_position_key = None \<rparr>"

lemma reservation_example_budget:
  "load_account_budget reservation_example_accounts (Some ''acc'') 0 default_freshness_config =
     Inr \<lparr> ab_account_id = ''acc'', ab_currency = ''USDT'', ab_equity = 1000, ab_margin = 0, ab_free_margin = 1000,
           ab_margin_ratio = 0, ab_updated_at = Some 0, ab_stale_reasons = [] \<rparr>"
proof -
  have "canonical_account_id (Some ''acc'') = Inr ''acc''" by code_simp
  moreover have "account_stale_reasons 0 0 0 0 default_freshness_config = []" by code_simp
  ultimately show ?thesis
    by (simp add: load_account_budget_def reservation_example_accounts_def ddiv_def)
qed

lemma reservation_example_reserved:
  "reserve_risk reservation_example_accounts [] reservation_example_request default_risk_config ''u1'' 0 =
     Inr ([held_row reservation_example_request ''u1'' 0],
       row_result (held_row reservation_example_request ''u1'' 0) ''risk reserved'' (Some 40))"
  using reservation_example_budget
  by (simp add: reserve_risk_def reserve_new_def expire_account_reservations_def existing_by_idempotency_def
      can_take_new_risk_def is_fresh_def active_risk_amount_def dsum_def dmul_def dsub_def insert_reservation_def
      held_row_def default_risk_config_def reservation_example_request_def Let_def)

lemma reservation_example_step:
  "reservation_step default_risk_config (\<lambda>_. 100) [] [held_row reservation_example_request ''u1'' 0]"
proof (rule reservation_step.reserve[OF reservation_example_reserved])
  fix b
  assume "load_account_budget reservation_example_accounts (Some (rq_account_id reservation_example_request))
    (rq_now reservation_example_request) default_freshness_config = Inr b"
  then show "dmul (ab_equity b) (max_total_open_risk_pct default_risk_config) \<le> 100"
    using reservation_example_budget
    by (auto simp: reservation_example_request_def default_risk_config_def dmul_def)
qed

theorem held_risk_within_budget_witness:
  "held_risk ''acc'' [held_row reservation_example_request ''u1'' 0] \<le> (1 + dec_eps) ^ 2 * 100"
  using held_risk_within_budget[OF r_into_rtranclp[of "reservation_step default_risk_config (\<lambda>_. 100)",
      OF reservation_example_step], of "''acc''"] by simp

section \<open>Idempotent retries\<close>

lemma find_update_where_key:
  assumes "\<And>r. p r \<Longrightarrow> q (f r) = q r"
  shows "List.find q (update_where p f tbl) = map_option (\<lambda>r. if p r then f r else r) (List.find q tbl)"
  using assms by (induction tbl) auto

lemma existing_after_expiry:
  "existing_by_idempotency a idem (expire_account_reservations b now c tbl) =
     map_option (\<lambda>r. if rv_account_id r = b \<and> expired_at now r then mark_expired c r else r)
       (existing_by_idempotency a idem tbl)"
  unfolding existing_by_idempotency_def expire_account_reservations_def
  by (rule find_update_where_key) simp

lemma map_id_after_expiry: "map rv_id (expire_account_reservations b now c tbl) = map rv_id tbl"
  unfolding expire_account_reservations_def by (rule map_update_where_frame) simp

lemma reserve_risk_existing:
  assumes "reserve_risk accounts tbl request cfg uuid clock = Inr (tbl', res)"
    and "rr_reservation_id res = Some i"
  shows "\<exists>row. existing_by_idempotency (rq_account_id request) (rq_idempotency_key request) tbl' = Some row
    \<and> rv_id row = i \<and> rv_risk_amount row = rr_risk_amount res"
proof -
  define t where "t = expire_account_reservations (rq_account_id request) (rq_now request) clock tbl"
  show ?thesis
  proof (cases "existing_by_idempotency (rq_account_id request) (rq_idempotency_key request) t")
    case None
    with assms have n: "reserve_new accounts t request cfg uuid clock = Inr (tbl', res)"
      by (simp add: reserve_risk_def t_def Let_def)
    then obtain rem where r: "res = row_result (held_row request uuid clock) ''risk reserved'' rem"
      and "tbl' = t @ [held_row request uuid clock]"
      using assms(2)
      by (auto simp: reserve_new_def bind_result_Inr_iff Let_def refused_def insert_reservation_def
          split: if_splits)
    with None assms(2) show ?thesis
      by (auto simp: existing_by_idempotency_def find_append held_row_def row_result_def)
  next
    case (Some row)
    with assms show ?thesis by (auto simp: reserve_risk_def t_def Let_def row_result_def)
  qed
qed

text \<open>
  Reserving is idempotent: once a request has been answered with a reservation, any later request
  of the account under the same idempotency key is answered with the same reservation and risk amount,
  whatever its own amounts, instant or the state of the account, and adds no row.
\<close>

theorem reserve_risk_idempotent:
  assumes first: "reserve_risk accounts tbl request cfg uuid clock = Inr (tbl', res)" "rr_reservation_id res = Some i"
    and same: "rq_account_id request' = rq_account_id request" "rq_idempotency_key request' = rq_idempotency_key request"
  shows "\<exists>tbl'' res'. reserve_risk accounts' tbl' request' cfg' uuid' clock' = Inr (tbl'', res')
    \<and> rr_reservation_id res' = Some i \<and> rr_risk_amount res' = rr_risk_amount res
    \<and> rr_reason res' = ''idempotent reservation'' \<and> map rv_id tbl'' = map rv_id tbl'"
proof -
  obtain row where "existing_by_idempotency (rq_account_id request) (rq_idempotency_key request) tbl' = Some row"
    "rv_id row = i" "rv_risk_amount row = rr_risk_amount res"
    using reserve_risk_existing[OF first] by blast
  then show ?thesis
    using same
    by (auto simp: reserve_risk_def Let_def existing_after_expiry row_result_def map_id_after_expiry)
qed

theorem reserve_risk_idempotent_witness:
  "\<exists>tbl'' res'. reserve_risk [] [held_row reservation_example_request ''u1'' 0]
      (reservation_example_request \<lparr> rq_risk_amount := 5 \<rparr>) default_risk_config ''u2'' 7 = Inr (tbl'', res')
    \<and> rr_reservation_id res' = Some ''u1'' \<and> map rv_id tbl'' = [''u1'']"
proof -
  have "rr_reservation_id (row_result (held_row reservation_example_request ''u1'' 0) ''risk reserved'' (Some 40)) = Some ''u1''"
    by (simp add: row_result_def held_row_def)
  from reserve_risk_idempotent[OF reservation_example_reserved this,
      of "reservation_example_request \<lparr> rq_risk_amount := 5 \<rparr>" "[]" default_risk_config "''u2''" 7]
  show ?thesis by (auto simp: held_row_def)
qed

end
