(* ===== verification/Governor.thy ===== *)
theory Governor
  imports Freshness Identifiers
begin

text \<open>
  \<open>services/control-plane/risk/policy.py\<close> and \<open>governor.py\<close>: the deterministic checks every
  decision passes before it becomes an intent. A float is represented by the decimal value of its
  shortest representation, which is what \<open>Decimal(str(x))\<close> reads back: comparing floats is
  comparing these values, and \<open>flt\<close> is the binary value that arithmetic starts from.
\<close>

record RiskPolicy =
  rp_instrument_whitelist :: "symbol list"
  rp_price_precision :: int
  rp_max_risk_fraction :: rat
  rp_default_risk_fraction :: rat
  rp_max_leverage :: rat
  rp_max_notional :: rat
  rp_max_instrument_notional :: rat
  rp_max_total_risk_fraction :: rat
  rp_correlated_groups :: "(string \<times> symbol list) list"
  rp_max_correlated_notional :: rat
  rp_freshness_seconds :: int
  rp_default_account_id :: "account_id option"
  rp_intent_ttl_seconds :: int

definition default_risk_policy :: RiskPolicy where
  "default_risk_policy =
     \<lparr> rp_instrument_whitelist = [''BTCUSDT'', ''ETHUSDT'', ''SOLUSDT''], rp_price_precision = 2,
       rp_max_risk_fraction = 2 / 100, rp_default_risk_fraction = 15 / 1000, rp_max_leverage = 10,
       rp_max_notional = 50000, rp_max_instrument_notional = 100000, rp_max_total_risk_fraction = 1 / 10,
       rp_correlated_groups = [(''majors'', [''BTCUSDT'', ''ETHUSDT''])],
       rp_max_correlated_notional = 150000, rp_freshness_seconds = 1800, rp_default_account_id = None,
       rp_intent_ttl_seconds = 900 \<rparr>"

definition policy_update_actions :: "string list" where
  "policy_update_actions =
     [''partial_close'', ''close_position'', ''move_stop_loss'', ''move_stop_to_entry'', ''replace_take_profits'']"

definition policy_opening_actions :: "string list" where
  "policy_opening_actions = [''open_position'', ''add_position'']"

definition non_actionable_actions :: "string list" where
  "non_actionable_actions = [''hold'', ''ignore'', ''needs_review'']"

definition update_message_types :: "string list" where
  "update_message_types = [''position_update'', ''close_update'']"

fun correlated_group_for :: "(string \<times> symbol list) list \<Rightarrow> symbol \<Rightarrow> (string \<times> symbol list) option" where
  "correlated_group_for [] instrument = None"
| "correlated_group_for ((name, members) # groups) instrument =
     (if instrument \<in> set members then Some (name, members) else correlated_group_for groups instrument)"

section \<open>The decision and its context\<close>

record gov_intent =
  gi_instrument_symbol :: "symbol option"
  gi_target_account_id :: "account_id option"
  gi_target_position_id :: "string option"
  gi_side :: "string option"
  gi_price :: "rat option"
  gi_price_min :: "rat option"
  gi_price_max :: "rat option"
  gi_stop_loss :: "rat option"
  gi_take_profits :: "rat list"
  gi_leverage :: "rat option"
  gi_sizing_notional :: "rat option"
  gi_sizing_max_notional :: "rat option"
  gi_sizing_quantity :: "rat option"

record gov_decision =
  gd_message_type :: string
  gd_action :: string
  gd_ambiguous :: bool
  gd_intent :: gov_intent

record gov_position =
  gp_position_id :: "string option"
  gp_account_id :: "account_id option"
  gp_instrument_id :: "string option"
  gp_notional :: "rat option"

record gov_risk_state =
  gs_mode :: "string option"
  gs_open_risk_fraction :: "rat option"

datatype gov_detail =
    Detail string
  | InstrumentNotAllowed "symbol option"
  | MessageProduced string string
  | TargetMatched nat
  | ModeBlocks string string
  | LeverageOver rat rat
  | GroupCap string

record gov_check =
  gc_name :: string
  gc_passed :: bool
  gc_detail :: "gov_detail option"

record risk_budget =
  rb_risk_fraction :: rat
  rb_max_notional :: rat
  rb_max_leverage :: rat

record RiskDecision =
  gr_status :: string
  gr_account_id :: "account_id option"
  gr_instrument_id :: "symbol option"
  gr_risk_budget :: "risk_budget option"
  gr_reason :: gov_detail
  gr_checks :: "gov_check list"

definition check_ok :: "string \<Rightarrow> gov_check" where
  "check_ok n = \<lparr> gc_name = n, gc_passed = True, gc_detail = None \<rparr>"

text \<open>\<open>reject\<close> and \<open>review\<close> record the failed check and return.\<close>

definition stop_with ::
    "string \<Rightarrow> gov_intent \<Rightarrow> account_id option \<Rightarrow> gov_check list \<Rightarrow> string \<Rightarrow> gov_detail \<Rightarrow> RiskDecision" where
  "stop_with status intent account checks n detail =
     \<lparr> gr_status = status, gr_account_id = account, gr_instrument_id = gi_instrument_symbol intent,
       gr_risk_budget = None, gr_reason = detail,
       gr_checks = checks @ [\<lparr> gc_name = n, gc_passed = False, gc_detail = Some detail \<rparr>] \<rparr>"

section \<open>Helpers\<close>

definition gov_instrument_matches :: "string option \<Rightarrow> string option \<Rightarrow> bool" where
  "gov_instrument_matches a b = instruments_match a b"

definition instrument_in_group :: "string option \<Rightarrow> symbol list \<Rightarrow> bool" where
  "instrument_in_group i members = list_ex (\<lambda>m. gov_instrument_matches (Some m) i) members"

definition gov_halted_action_allowed :: "string \<Rightarrow> string \<Rightarrow> bool" where
  "gov_halted_action_allowed action m = (case halted_action_allowed action m of Inl _ \<Rightarrow> False | Inr b \<Rightarrow> b)"

definition falsy_num :: "rat \<Rightarrow> bool" where
  "falsy_num x = (x = 0)"

definition proposed_notional :: "gov_intent \<Rightarrow> rat \<Rightarrow> rat" where
  "proposed_notional intent budget_max =
     (case or_else falsy_num (gi_sizing_notional intent) (gi_sizing_max_notional intent) of
        Some n \<Rightarrow> n
      | None \<Rightarrow>
          (case (gi_sizing_quantity intent,
                 or_else falsy_num (gi_price intent) (or_else falsy_num (gi_price_min intent) (gi_price_max intent))) of
             (Some q, Some p) \<Rightarrow> dabs (dmul q p)
           | _ \<Rightarrow> budget_max))"

text \<open>
  \<open>format(x, "f")\<close> prints six decimals of the binary value; trailing zeros are stripped and the
  rest after the point is counted.
\<close>

definition decimal_places :: "rat \<Rightarrow> int" where
  "decimal_places v =
     (let n = round_half_even (flt v * 10 ^ 6)
      in hd [int k. k \<leftarrow> [0..<7], n mod 10 ^ (6 - k) = 0])"

definition precision_ok :: "gov_intent \<Rightarrow> RiskPolicy \<Rightarrow> bool" where
  "precision_ok intent policy =
     (list_all (\<lambda>v. case v of None \<Rightarrow> True | Some x \<Rightarrow> decimal_places x \<le> rp_price_precision policy)
        [gi_price intent, gi_price_min intent, gi_price_max intent, gi_stop_loss intent]
      \<and> list_all (\<lambda>tp. decimal_places tp \<le> rp_price_precision policy) (gi_take_profits intent))"

definition geometry_error :: "gov_intent \<Rightarrow> string option" where
  "geometry_error intent =
     (let price = (case gi_price intent of Some p \<Rightarrow> Some p | None \<Rightarrow> gi_price_min intent);
          tps = gi_take_profits intent
      in case (gi_side intent, price, gi_stop_loss intent) of
           (Some side, Some p, Some sl) \<Rightarrow>
             if side = ''long'' then
               (if \<not> sl < p then Some ''long stop_loss must be below entry''
                else if tps \<noteq> [] \<and> \<not> list_all (\<lambda>tp. p < tp) tps then Some ''long take_profits must be above entry''
                else if tps \<noteq> sort tps then Some ''long take_profits must be ascending''
                else None)
             else if side = ''short'' then
               (if \<not> p < sl then Some ''short stop_loss must be above entry''
                else if tps \<noteq> [] \<and> \<not> list_all (\<lambda>tp. tp < p) tps then Some ''short take_profits must be below entry''
                else if tps \<noteq> rev (sort tps) then Some ''short take_profits must be descending''
                else None)
             else None
         | _ \<Rightarrow> None)"

text \<open>The notional the positions of an account already hold, over the instruments of a predicate.\<close>

definition positions_notional :: "gov_position list \<Rightarrow> account_id \<Rightarrow> (string option \<Rightarrow> bool) \<Rightarrow> rat" where
  "positions_notional positions account sel =
     fsum (map (\<lambda>p. case or_else falsy_num (gp_notional p) (Some 0) of Some n \<Rightarrow> flt n | None \<Rightarrow> 0)
       (filter (\<lambda>p. gp_account_id p = Some account \<and> sel (gp_instrument_id p)) positions))"

section \<open>The checks in order\<close>

text \<open>Check 8: exposure caps, for opening actions only.\<close>

definition check_exposure_caps ::
    "gov_decision \<Rightarrow> gov_position list \<Rightarrow> gov_risk_state \<Rightarrow> RiskPolicy \<Rightarrow> account_id \<Rightarrow> risk_budget \<Rightarrow>
     gov_check list \<Rightarrow> RiskDecision" where
  "check_exposure_caps decision positions rs policy account budget checks =
     (let intent = gd_intent decision;
          instrument = gi_instrument_symbol intent;
          approved = (\<lambda>cs. \<lparr> gr_status = ''approved'', gr_account_id = Some account, gr_instrument_id = instrument,
                            gr_risk_budget = Some budget, gr_reason = Detail ''all checks passed'', gr_checks = cs \<rparr>)
      in if gd_action decision \<notin> set policy_opening_actions then approved checks
         else
           (let proposed = flt (proposed_notional intent (rb_max_notional budget));
                existing = positions_notional positions account (gov_instrument_matches instrument);
                existing_risk = (case or_else falsy_num (gs_open_risk_fraction rs) (Some 0) of
                                   Some r \<Rightarrow> flt r | None \<Rightarrow> 0)
            in if flt (rp_max_instrument_notional policy) < fadd existing proposed
               then stop_with ''rejected'' intent (Some account) checks ''instrument_exposure''
                      (Detail ''instrument notional cap reached'')
               else if flt (rp_max_total_risk_fraction policy) < fadd existing_risk (flt (rb_risk_fraction budget))
               then stop_with ''rejected'' intent (Some account) checks ''total_risk''
                      (Detail ''total open risk fraction cap reached'')
               else case (case instrument of None \<Rightarrow> None
                          | Some i \<Rightarrow> correlated_group_for (rp_correlated_groups policy) i) of
                      None \<Rightarrow> approved (checks @ [check_ok ''exposure''])
                    | Some (name, members) \<Rightarrow>
                        (let group = positions_notional positions account (\<lambda>i. instrument_in_group i members)
                         in if flt (rp_max_correlated_notional policy) < fadd group proposed
                            then stop_with ''rejected'' intent (Some account) checks ''correlated_exposure'' (GroupCap name)
                            else approved (checks @ [check_ok ''exposure'']))))"

text \<open>Checks 6 and 7: geometry and risk units.\<close>

definition check_units ::
    "gov_decision \<Rightarrow> gov_position list \<Rightarrow> gov_risk_state \<Rightarrow> RiskPolicy \<Rightarrow> account_id \<Rightarrow> gov_check list \<Rightarrow>
     RiskDecision" where
  "check_units decision positions rs policy account checks =
     (let intent = gd_intent decision; reject = stop_with ''rejected'' intent (Some account) checks;
          lev = gi_leverage intent
      in  if (case lev of None \<Rightarrow> False | Some l \<Rightarrow> rp_max_leverage policy < l)
          then reject ''max_leverage'' (LeverageOver (the lev) (rp_max_leverage policy))
          else if rp_max_risk_fraction policy < rp_default_risk_fraction policy
          then reject ''max_risk_fraction'' (Detail ''configured risk fraction exceeds cap'')
          else check_exposure_caps decision positions rs policy account
                 \<lparr> rb_risk_fraction = rp_default_risk_fraction policy, rb_max_notional = rp_max_notional policy,
                   rb_max_leverage = min (case or_else falsy_num lev (Some (rp_max_leverage policy)) of
                                            Some l \<Rightarrow> l | None \<Rightarrow> rp_max_leverage policy) (rp_max_leverage policy) \<rparr>
                 (checks @ [check_ok ''risk_units'']))"

definition check_geometry ::
    "gov_decision \<Rightarrow> gov_position list \<Rightarrow> gov_risk_state \<Rightarrow> RiskPolicy \<Rightarrow> account_id \<Rightarrow> gov_check list \<Rightarrow>
     RiskDecision" where
  "check_geometry decision positions rs policy account checks =
     (if gd_action decision \<in> set policy_opening_actions
      then case geometry_error (gd_intent decision) of
             Some e \<Rightarrow> stop_with ''rejected'' (gd_intent decision) (Some account) checks ''geometry'' (Detail e)
           | None \<Rightarrow> check_units decision positions rs policy account (checks @ [check_ok ''geometry''])
      else check_units decision positions rs policy account checks)"

text \<open>Check 5: the kill switch.\<close>

definition effective_mode :: "gov_risk_state \<Rightarrow> string" where
  "effective_mode rs =
     upper (case or_else (\<lambda>s. s = []) (gs_mode rs) (Some ''ACTIVE'') of Some m \<Rightarrow> m | None \<Rightarrow> ''ACTIVE'')"

definition check_kill_switch ::
    "gov_decision \<Rightarrow> gov_position list \<Rightarrow> gov_risk_state \<Rightarrow> RiskPolicy \<Rightarrow> account_id \<Rightarrow> gov_check list \<Rightarrow>
     RiskDecision" where
  "check_kill_switch decision positions rs policy account checks =
     (let m = effective_mode rs in
      if \<not> gov_halted_action_allowed (gd_action decision) m
      then stop_with ''rejected'' (gd_intent decision) (Some account) checks ''kill_switch''
             (ModeBlocks m (gd_action decision))
      else check_geometry decision positions rs policy account (checks @ [check_ok ''kill_switch'']))"

text \<open>Checks 3 and 4: update messages and update targets.\<close>

definition update_matches ::
    "gov_position list \<Rightarrow> string \<Rightarrow> account_id \<Rightarrow> symbol option \<Rightarrow> gov_position list" where
  "update_matches positions target account instrument =
     filter (\<lambda>p. gp_position_id p = Some target \<and> gp_account_id p = Some account
               \<and> gov_instrument_matches instrument (gp_instrument_id p)) positions"

definition check_update_target ::
    "gov_decision \<Rightarrow> gov_position list \<Rightarrow> gov_risk_state \<Rightarrow> RiskPolicy \<Rightarrow> account_id \<Rightarrow> gov_check list \<Rightarrow>
     RiskDecision" where
  "check_update_target decision positions rs policy account checks =
     (let intent = gd_intent decision in
      if gd_action decision \<notin> set policy_update_actions
      then check_kill_switch decision positions rs policy account checks
      else case or_else (\<lambda>s. s = []) (gi_target_position_id intent) None of
             None \<Rightarrow> stop_with ''needs_review'' intent (Some account) checks ''update_target''
                      (Detail ''update action without target_position_id'')
           | Some target \<Rightarrow>
               (let n = length (update_matches positions target account (gi_instrument_symbol intent))
                in if n \<noteq> 1
                   then stop_with ''needs_review'' intent (Some account) checks ''update_target'' (TargetMatched n)
                   else check_kill_switch decision positions rs policy account (checks @ [check_ok ''update_target''])))"

definition check_update_message ::
    "gov_decision \<Rightarrow> gov_position list \<Rightarrow> gov_risk_state \<Rightarrow> RiskPolicy \<Rightarrow> account_id \<Rightarrow> gov_check list \<Rightarrow>
     RiskDecision" where
  "check_update_message decision positions rs policy account checks =
     (if gd_message_type decision \<in> set update_message_types \<and> gd_action decision \<in> set policy_opening_actions
      then stop_with ''rejected'' (gd_intent decision) (Some account) checks ''update_message_cannot_open''
             (MessageProduced (gd_message_type decision) (gd_action decision))
      else check_update_target decision positions rs policy account
             (checks @ [check_ok ''update_message_cannot_open'']))"

text \<open>Checks 0 to 2.5: actionable, account, instrument, precision and risk context.\<close>

definition check_instrument ::
    "gov_decision \<Rightarrow> gov_position list \<Rightarrow> gov_risk_state \<Rightarrow> RiskPolicy \<Rightarrow> account_id \<Rightarrow> gov_check list \<Rightarrow>
     RiskDecision" where
  "check_instrument decision positions rs policy account checks =
     (let intent = gd_intent decision; stop = (\<lambda>st cs. stop_with st intent (Some account) cs) in
      if (case gi_instrument_symbol intent of None \<Rightarrow> True
          | Some i \<Rightarrow> i = [] \<or> i \<notin> set (rp_instrument_whitelist policy))
      then stop ''rejected'' checks ''instrument_whitelist'' (InstrumentNotAllowed (gi_instrument_symbol intent))
      else if \<not> precision_ok intent policy
      then stop ''rejected'' checks ''price_precision'' (Detail ''price exceeds allowed precision'')
      else if gs_mode rs = None
      then stop ''needs_review'' (checks @ [check_ok ''instrument_whitelist'']) ''risk_context''
             (Detail ''risk_context_incomplete: risk_state unavailable for account/instrument'')
      else check_update_message decision positions rs policy account
             (checks @ [check_ok ''instrument_whitelist'', check_ok ''risk_context'']))"

definition evaluate ::
    "gov_decision \<Rightarrow> gov_position list \<Rightarrow> gov_risk_state option \<Rightarrow> RiskPolicy \<Rightarrow> RiskDecision" where
  "evaluate decision positions risk_state policy =
     (let intent = gd_intent decision;
          rs = (case risk_state of Some r \<Rightarrow> r | None \<Rightarrow> \<lparr> gs_mode = None, gs_open_risk_fraction = None \<rparr>)
      in if gd_ambiguous decision \<or> gd_action decision \<in> set non_actionable_actions
         then stop_with ''needs_review'' intent None [] ''actionable'' (Detail ''ambiguous or non-actionable decision'')
         else case or_else (\<lambda>s. s = []) (gi_target_account_id intent)
                     (or_else (\<lambda>s. s = []) (rp_default_account_id policy) None) of
                None \<Rightarrow> stop_with ''needs_review'' intent None [check_ok ''actionable''] ''account_resolution''
                         (Detail ''no target account and no default'')
              | Some account \<Rightarrow>
                  check_instrument decision positions rs policy account
                    [check_ok ''actionable'', check_ok ''account_resolution''])"

section \<open>What an approval establishes\<close>

lemma stop_with_status [simp]: "gr_status (stop_with st i a cs n d) = st"
  by (simp add: stop_with_def)

text \<open>The exposure an approved opening leaves the account with.\<close>

definition exposure_within_caps ::
    "gov_decision \<Rightarrow> gov_position list \<Rightarrow> gov_risk_state \<Rightarrow> RiskPolicy \<Rightarrow> account_id \<Rightarrow> rat \<Rightarrow> rat \<Rightarrow> bool" where
  "exposure_within_caps decision positions rs policy account max_notional fraction =
     (let instrument = gi_instrument_symbol (gd_intent decision);
          proposed = flt (proposed_notional (gd_intent decision) max_notional)
      in fadd (positions_notional positions account (gov_instrument_matches instrument)) proposed
           \<le> flt (rp_max_instrument_notional policy)
         \<and> fadd (case or_else falsy_num (gs_open_risk_fraction rs) (Some 0) of Some r \<Rightarrow> flt r | None \<Rightarrow> 0) (flt fraction)
           \<le> flt (rp_max_total_risk_fraction policy)
         \<and> (\<forall>i name members. instrument = Some i \<longrightarrow>
               correlated_group_for (rp_correlated_groups policy) i = Some (name, members) \<longrightarrow>
               fadd (positions_notional positions account (\<lambda>x. instrument_in_group x members)) proposed
                 \<le> flt (rp_max_correlated_notional policy)))"

lemma check_exposure_caps_approved:
  assumes "gr_status (check_exposure_caps decision positions rs policy account budget checks) = ''approved''"
  shows "gr_account_id (check_exposure_caps decision positions rs policy account budget checks) = Some account"
    and "gr_risk_budget (check_exposure_caps decision positions rs policy account budget checks) = Some budget"
    and "gd_action decision \<in> set policy_opening_actions \<Longrightarrow>
      exposure_within_caps decision positions rs policy account (rb_max_notional budget) (rb_risk_fraction budget)"
  using assms unfolding check_exposure_caps_def exposure_within_caps_def
  by (auto simp: Let_def not_less split: if_splits option.splits prod.splits)

lemma check_units_approvedE:
  assumes "gr_status (check_units decision positions rs policy account checks) = ''approved''"
  obtains budget cs where
    "check_units decision positions rs policy account checks =
       check_exposure_caps decision positions rs policy account budget cs"
    "rb_max_notional budget = rp_max_notional policy" "rb_risk_fraction budget = rp_default_risk_fraction policy"
    "rb_max_leverage budget \<le> rp_max_leverage policy" "rb_risk_fraction budget \<le> rp_max_risk_fraction policy"
    "\<forall>l. gi_leverage (gd_intent decision) = Some l \<longrightarrow> l \<le> rp_max_leverage policy"
proof -
  note a = assms[unfolded check_units_def Let_def]
  have lev: "\<forall>l. gi_leverage (gd_intent decision) = Some l \<longrightarrow> l \<le> rp_max_leverage policy"
    using a by (auto simp: not_less split: if_splits)
  have frac: "rp_default_risk_fraction policy \<le> rp_max_risk_fraction policy"
    using a by (auto simp: not_less split: if_splits)
  have "\<not> (case gi_leverage (gd_intent decision) of None \<Rightarrow> False | Some l \<Rightarrow> rp_max_leverage policy < l)"
    using lev by (auto split: option.splits)
  with frac show thesis
    by (intro that[of "\<lparr> rb_risk_fraction = rp_default_risk_fraction policy, rb_max_notional = rp_max_notional policy,
        rb_max_leverage = min (case or_else falsy_num (gi_leverage (gd_intent decision)) (Some (rp_max_leverage policy)) of
          Some l \<Rightarrow> l | None \<Rightarrow> rp_max_leverage policy) (rp_max_leverage policy) \<rparr>" "checks @ [check_ok ''risk_units'']"])
      (use lev in \<open>simp_all add: check_units_def Let_def\<close>)
qed

lemma check_geometry_approvedE:
  assumes "gr_status (check_geometry decision positions rs policy account checks) = ''approved''"
  obtains cs where
    "check_geometry decision positions rs policy account checks = check_units decision positions rs policy account cs"
    "gd_action decision \<in> set policy_opening_actions \<longrightarrow> geometry_error (gd_intent decision) = None"
  using assms by (auto simp: check_geometry_def split: if_splits option.splits)

lemma check_kill_switch_approvedE:
  assumes "gr_status (check_kill_switch decision positions rs policy account checks) = ''approved''"
  obtains cs where
    "check_kill_switch decision positions rs policy account checks = check_geometry decision positions rs policy account cs"
    "gov_halted_action_allowed (gd_action decision) (effective_mode rs)"
  using assms by (auto simp: check_kill_switch_def Let_def split: if_splits)

lemma check_update_target_approvedE:
  assumes "gr_status (check_update_target decision positions rs policy account checks) = ''approved''"
  obtains cs where
    "check_update_target decision positions rs policy account checks = check_kill_switch decision positions rs policy account cs"
    "gd_action decision \<in> set policy_update_actions \<longrightarrow>
       (\<exists>target. gi_target_position_id (gd_intent decision) = Some target
          \<and> length (update_matches positions target account (gi_instrument_symbol (gd_intent decision))) = 1)"
  using assms
  by (auto simp: check_update_target_def Let_def or_else_Some_iff split: if_splits option.splits)

lemma check_update_message_approvedE:
  assumes "gr_status (check_update_message decision positions rs policy account checks) = ''approved''"
  obtains cs where
    "check_update_message decision positions rs policy account checks = check_update_target decision positions rs policy account cs"
    "gd_message_type decision \<in> set update_message_types \<longrightarrow> gd_action decision \<notin> set policy_opening_actions"
  using assms by (auto simp: check_update_message_def split: if_splits)

lemma check_instrument_approvedE:
  assumes "gr_status (check_instrument decision positions rs policy account checks) = ''approved''"
  obtains cs i where
    "check_instrument decision positions rs policy account checks = check_update_message decision positions rs policy account cs"
    "gi_instrument_symbol (gd_intent decision) = Some i" "i \<in> set (rp_instrument_whitelist policy)"
    "precision_ok (gd_intent decision) policy" "gs_mode rs \<noteq> None"
proof -
  obtain i where i: "gi_instrument_symbol (gd_intent decision) = Some i" "i \<noteq> []"
      "i \<in> set (rp_instrument_whitelist policy)" "precision_ok (gd_intent decision) policy" "gs_mode rs \<noteq> None"
    using assms by (auto simp: check_instrument_def Let_def split: if_splits option.splits)
  then have "check_instrument decision positions rs policy account checks =
      check_update_message decision positions rs policy account
        (checks @ [check_ok ''instrument_whitelist'', check_ok ''risk_context''])"
    by (auto simp: check_instrument_def)
  then show thesis using i by (intro that) simp_all
qed

lemma evaluate_approvedE:
  assumes "gr_status (evaluate decision positions risk_state policy) = ''approved''"
  obtains rs account cs where
    "risk_state = Some rs" "\<not> gd_ambiguous decision" "gd_action decision \<notin> set non_actionable_actions"
    "gi_target_account_id (gd_intent decision) = Some account \<or> rp_default_account_id policy = Some account"
    "account \<noteq> []"
    "evaluate decision positions risk_state policy = check_instrument decision positions rs policy account cs"
proof (cases risk_state)
  case None
  then have False
    using assms
    by (auto simp: evaluate_def Let_def elim!: check_instrument_approvedE split: if_splits option.splits)
  then show thesis ..
next
  case (Some rs)
  then show thesis
    using assms that
    by (auto simp: evaluate_def Let_def or_else_Some_iff split: if_splits option.splits)
qed

lemma gov_halted_opening:
  assumes "gov_halted_action_allowed a m" "a \<in> set policy_opening_actions"
  shows "upper m = ''ACTIVE''"
proof -
  obtain b where b: "halted_action_allowed a m = Inr b" "b"
    using assms(1) by (auto simp: gov_halted_action_allowed_def split: sum.splits)
  have "a \<in> set opening_actions" using assms(2) by (simp add: policy_opening_actions_def opening_actions_def)
  with halted_action_allowed_char[OF b(1)] b(2) show ?thesis by simp
qed


definition governor_example_decision :: gov_decision where
  "governor_example_decision =
     \<lparr> gd_message_type = ''new_signal'', gd_action = ''open_position'', gd_ambiguous = False,
       gd_intent = \<lparr> gi_instrument_symbol = Some ''BTCUSDT'', gi_target_account_id = Some ''acc'',
         gi_target_position_id = None, gi_side = Some ''long'', gi_price = Some 100, gi_price_min = None,
         gi_price_max = None, gi_stop_loss = Some 90, gi_take_profits = [110, 120], gi_leverage = Some 5,
         gi_sizing_notional = Some 1000, gi_sizing_max_notional = None, gi_sizing_quantity = None \<rparr> \<rparr>"

lemma decimal_places_int:
  assumes "\<bar>k\<bar> \<le> 2 ^ 53"
  shows "decimal_places (of_int k) = 0"
proof -
  have "round_half_even (flt (of_int k) * 10 ^ 6) = k * 10 ^ 6"
    using flt_of_int[OF assms] round_half_even_of_int[of "k * 10 ^ 6"] by simp
  then show ?thesis by (simp add: decimal_places_def upt_rec)
qed

lemma decimal_places_numeral [simp]: "(numeral k :: int) \<le> 2 ^ 53 \<Longrightarrow> decimal_places (numeral k) = 0"
  using decimal_places_int[of "numeral k"] by simp

lemma governor_example_approved:
  "gr_status (evaluate governor_example_decision [] (Some \<lparr> gs_mode = Some ''active'', gs_open_risk_fraction = None \<rparr>)
     default_risk_policy) = ''approved''"
proof -
  have mode: "upper ''active'' = ''ACTIVE''" "gov_halted_action_allowed ''open_position'' ''ACTIVE''" by code_simp+
  have "flt (15 / 1000) \<le> flt (1 / 10)" by (rule flt.rnd_mono) simp
  then have frac: "flt (3 / 200) \<le> flt (1 / 10)" by simp
  show ?thesis
    using frac mode
    by (simp add: evaluate_def check_instrument_def check_update_message_def check_update_target_def
        check_kill_switch_def check_geometry_def check_units_def check_exposure_caps_def governor_example_decision_def
        default_risk_policy_def precision_ok_def geometry_error_def effective_mode_def proposed_notional_def
        positions_notional_def falsy_num_def non_actionable_actions_def policy_opening_actions_def
        policy_update_actions_def update_message_types_def fadd_def Let_def flt.rnd_idem)
qed


section \<open>Two gaps of the checks\<close>

text \<open>
  The precision check reads six printed decimals: the price 1.0000004, which has seven, counts as
  having none and passes at every allowed precision.
\<close>

theorem precision_check_misses_seventh_decimal: "decimal_places (10000004 / 10000000) = 0"
proof -
  let ?x = "10000004 / 10000000 :: rat"
  have "\<bar>flt ?x - ?x\<bar> \<le> flt_eps * ?x" using flt.rnd_error[of ?x] by simp
  then have "\<bar>flt ?x - ?x\<bar> \<le> 1 / 10 ^ 8" by (simp add: flt_eps_def)
  then have "\<bar>of_int 1000000 - flt ?x * 10 ^ 6\<bar> < 1 / 2" unfolding abs_le_iff abs_less_iff by simp
  then have "round_half_even (flt ?x * 10 ^ 6) = 1000000" by (rule round_half_even_unique)
  then show ?thesis by (simp add: decimal_places_def upt_rec)
qed

text \<open>
  A risk state whose mode is the empty string is not treated as incomplete: it passes the risk
  context check and reads as ACTIVE.
\<close>

theorem empty_mode_reads_active:
  "effective_mode \<lparr> gs_mode = Some [], gs_open_risk_fraction = None \<rparr> = ''ACTIVE''"
  by code_simp

end
