(* ===== verification/Position_Revisions.thy ===== *)
theory Position_Revisions
  imports Identifiers "HOL-Library.AList"
begin

text \<open>
  \<open>services/control-plane/api/position_revision.py\<close>: revision counters of position books. A close
  advances the counter of its book, CLOSE_ALL the wildcard counter of the account, each exactly once
  per operation id; a decision made on an earlier snapshot is then refused. A table is an association
  list over its primary key, and an upsert is \<open>AList.update\<close>; the time stamps, which nothing
  reads, are left out.
\<close>

type_synonym book = "string \<times> string"

record revisions =
  pv_revisions :: "((account_id \<times> book) \<times> int) list"
  pv_invalidations :: "((account_id \<times> string) \<times> book) list"

definition wildcard :: book where
  "wildcard = (''*'', ''*'')"

definition removesuffix :: "string \<Rightarrow> string \<Rightarrow> string" where
  "removesuffix s suf =
     (if startswith (rev s) (rev suf) then take (length s - length suf) s else s)"

definition book_char :: "char \<Rightarrow> bool" where
  "book_char c = (c \<in> set ''ABCDEFGHIJKLMNOPQRSTUVWXYZ0123456789_'')"

definition position_book :: "string \<Rightarrow> string \<Rightarrow> book result" where
  "position_book instrument side =
     (let s = removesuffix (upper (strip instrument)) ''-PERP.BINANCE''; sd = upper (strip side) in
      if s = [] \<or> \<not> list_all book_char s then Inl ValueError
      else if sd \<noteq> ''LONG'' \<and> sd \<noteq> ''SHORT'' then Inl ValueError
      else Inr (s, sd))"

record versions =
  vs_account_id :: "account_id option"
  vs_account_revision :: "int option"
  vs_books :: "(string \<times> int) list option"

definition book_key :: "book \<Rightarrow> string" where
  "book_key b = fst b @ ''|'' @ snd b"

fun capture_rows :: "account_id \<Rightarrow> int \<times> (string \<times> int) list \<Rightarrow> ((account_id \<times> book) \<times> int) list \<Rightarrow>
    int \<times> (string \<times> int) list" where
  "capture_rows a acc [] = acc"
| "capture_rows a (ar, books) (((a', b), r) # rows) =
     (if a' \<noteq> a then capture_rows a (ar, books) rows
      else if fst b = ''*'' then capture_rows a (r, books) rows
      else capture_rows a (ar, AList.update (book_key b) r books) rows)"

definition capture_versions :: "revisions \<Rightarrow> account_id \<Rightarrow> versions" where
  "capture_versions st a =
     (case capture_rows a (0, []) (pv_revisions st) of
        (ar, books) \<Rightarrow> \<lparr> vs_account_id = Some a, vs_account_revision = Some ar, vs_books = Some books \<rparr>)"

definition revision_of :: "revisions \<Rightarrow> account_id \<Rightarrow> book \<Rightarrow> int" where
  "revision_of st a b = (case map_of (pv_revisions st) (a, b) of Some r \<Rightarrow> r | None \<Rightarrow> 0)"

record current_revision =
  cr_account_id :: account_id
  cr_account_revision :: int
  cr_book_revision :: int
  cr_book :: book

definition read_current :: "revisions \<Rightarrow> account_id \<Rightarrow> string \<Rightarrow> string \<Rightarrow> current_revision result" where
  "read_current st a instrument side =
     bind_result (position_book instrument side) (\<lambda>b.
       Inr \<lparr> cr_account_id = a, cr_account_revision = revision_of st a wildcard,
             cr_book_revision = revision_of st a b, cr_book = b \<rparr>)"

definition bind_precondition ::
    "revisions \<Rightarrow> account_id \<Rightarrow> string \<Rightarrow> string \<Rightarrow> versions option \<Rightarrow> current_revision result" where
  "bind_precondition st a instrument side expected_versions =
     bind_result (read_current st a instrument side) (\<lambda>current.
       case expected_versions of
         None \<Rightarrow> Inr current
       | Some e \<Rightarrow>
           if vs_account_id e \<noteq> Some a then Inl StalePositionRevision
           else (case vs_books e of
               None \<Rightarrow> Inl StalePositionRevision
             | Some books \<Rightarrow>
                 (let book_revision = (case map_of books (book_key (cr_book current)) of Some r \<Rightarrow> r | None \<Rightarrow> 0)
                  in case vs_account_revision e of
                       None \<Rightarrow> Inl StalePositionRevision
                     | Some account_revision \<Rightarrow>
                         if account_revision < 0 \<or> book_revision < 0 then Inl StalePositionRevision
                         else if account_revision \<noteq> cr_account_revision current
                              \<or> book_revision \<noteq> cr_book_revision current
                         then Inl StalePositionRevision
                         else Inr current)))"

definition invalidate :: "revisions \<Rightarrow> account_id \<Rightarrow> book \<Rightarrow> string option \<Rightarrow> revisions result" where
  "invalidate st a b operation_id =
     (case operation_id of
        None \<Rightarrow> Inl ValueError
      | Some op \<Rightarrow>
          if strip op = [] then Inl ValueError
          else case map_of (pv_invalidations st) (a, op) of
                 Some b' \<Rightarrow> if b' \<noteq> b then Inl ValueError else Inr st
               | None \<Rightarrow>
                   Inr \<lparr> pv_revisions = AList.update (a, b) (revision_of st a b + 1) (pv_revisions st),
                         pv_invalidations = AList.update (a, op) b (pv_invalidations st) \<rparr>)"

definition invalidate_book :: "revisions \<Rightarrow> account_id \<Rightarrow> string \<Rightarrow> string \<Rightarrow> string option \<Rightarrow> revisions result" where
  "invalidate_book st a instrument side operation_id =
     bind_result (position_book instrument side) (\<lambda>b. invalidate st a b operation_id)"

definition invalidate_account :: "revisions \<Rightarrow> account_id \<Rightarrow> string option \<Rightarrow> revisions result" where
  "invalidate_account st a operation_id = invalidate st a wildcard operation_id"

section \<open>Invariant\<close>

definition valid_book :: "book \<Rightarrow> bool" where
  "valid_book b = (fst b \<noteq> [] \<and> list_all book_char (fst b) \<and> snd b \<in> {''LONG'', ''SHORT''})"

definition revisions_ok :: "revisions \<Rightarrow> bool" where
  "revisions_ok st =
     (distinct (map fst (pv_revisions st)) \<and> distinct (map fst (pv_invalidations st))
      \<and> (\<forall>((a, b), r) \<in> set (pv_revisions st). 0 \<le> r \<and> (b = wildcard \<or> valid_book b)))"

lemma position_book_valid: "position_book i sd = Inr b \<Longrightarrow> valid_book b"
  by (auto simp: position_book_def valid_book_def Let_def split: if_splits)

lemma book_char_special [simp]: "\<not> book_char (CHR ''|'')" "\<not> book_char (CHR ''*'')"
  by code_simp+

lemma valid_book_wildcard [simp]: "\<not> valid_book wildcard" "valid_book b \<Longrightarrow> fst b \<noteq> ''*''"
  by (auto simp: valid_book_def wildcard_def)

lemma valid_book_bar_free: "valid_book b \<Longrightarrow> CHR ''|'' \<notin> set (fst b)"
  using book_char_special(1) by (auto simp: valid_book_def list_all_iff)

lemma book_key_inj: "valid_book b \<Longrightarrow> valid_book b' \<Longrightarrow> book_key b = book_key b' \<Longrightarrow> b = b'"
proof -
  assume v: "valid_book b" "valid_book b'" and eq: "book_key b = book_key b'"
  have "fst b = before_char (CHR ''|'') (book_key b)" "snd b = after_char (CHR ''|'') (book_key b)"
    "fst b' = before_char (CHR ''|'') (book_key b')" "snd b' = after_char (CHR ''|'') (book_key b')"
    using v by (simp_all add: book_key_def split_at_char valid_book_bar_free)
  with eq show "b = b'" by (simp add: prod_eq_iff)
qed

lemma revision_of_nonneg: "revisions_ok st \<Longrightarrow> 0 \<le> revision_of st a b"
  by (auto simp: revision_of_def revisions_ok_def split: option.splits dest!: map_of_SomeD)

lemma update_ok:
  assumes "distinct (map fst xs)"
  shows "distinct (map fst (AList.update k v xs))"
  using assms by (rule AList.distinct_update)

lemma set_update_subset: "set (AList.update k v xs) \<subseteq> insert (k, v) (set xs)"
  by (induction xs) auto

lemma invalidate_ok:
  assumes "revisions_ok st" "invalidate st a b op = Inr st'" "b = wildcard \<or> valid_book b"
  shows "revisions_ok st'"
proof (cases "st' = st")
  case False
  then have st': "pv_revisions st' = AList.update (a, b) (revision_of st a b + 1) (pv_revisions st)"
    "distinct (map fst (pv_invalidations st'))"
    using assms by (auto simp: invalidate_def revisions_ok_def update_ok split: option.splits if_splits)
  have "\<forall>((a, b), r) \<in> set (pv_revisions st'). 0 \<le> r \<and> (b = wildcard \<or> valid_book b)"
    using assms(1,3) revision_of_nonneg[OF assms(1), of a b] set_update_subset[of "(a, b)" _ "pv_revisions st"]
    unfolding st' revisions_ok_def by fastforce
  with st' assms(1) show ?thesis by (simp add: revisions_ok_def update_ok)
qed (use assms in simp)

text \<open>A captured snapshot holds the counters of its instant.\<close>

lemma capture_rows_account:
  assumes "distinct (map fst rows)" "\<forall>((a, b), r) \<in> set rows. b = wildcard \<or> valid_book b"
  shows "fst (capture_rows a (ar, books) rows) =
    (case map_of rows (a, wildcard) of Some r \<Rightarrow> r | None \<Rightarrow> ar)"
  using assms
proof (induction rows arbitrary: ar books)
  case (Cons row rows)
  obtain a' b r where row: "row = ((a', b), r)" by (metis surj_pair)
  have none: "map_of rows (a, wildcard) = None" if "a' = a" "b = wildcard"
    using Cons.prems that by (auto simp: row map_of_eq_None_iff)
  have b: "b = wildcard \<or> valid_book b" using Cons.prems by (simp add: row)
  show ?case
    using Cons.IH Cons.prems none b by (auto simp: row wildcard_def)
qed simp

lemma capture_rows_book:
  assumes "distinct (map fst rows)" "\<forall>((a, b), r) \<in> set rows. b = wildcard \<or> valid_book b" "valid_book b"
  shows "map_of (snd (capture_rows a (ar, books) rows)) (book_key b) =
    (case map_of rows (a, b) of Some r \<Rightarrow> Some r | None \<Rightarrow> map_of books (book_key b))"
  using assms(1,2)
proof (induction rows arbitrary: ar books)
  case (Cons row rows)
  obtain a' b' r where row: "row = ((a', b'), r)" by (metis surj_pair)
  have none: "map_of rows (a, b) = None" if "a' = a" "b' = b"
    using Cons.prems that by (auto simp: row map_of_eq_None_iff)
  have b': "b' = wildcard \<or> valid_book b'" using Cons.prems by (simp add: row)
  show ?case
    using Cons.IH Cons.prems none b' assms(3) valid_book_wildcard(1)[unfolded wildcard_def] book_key_inj[of b' b]
    by (auto simp: row wildcard_def AList.update_conv split: option.splits)
qed simp

lemma capture_versions_counters:
  assumes "revisions_ok st" "valid_book b"
  shows "vs_account_id (capture_versions st a) = Some a"
    "vs_account_revision (capture_versions st a) = Some (revision_of st a wildcard)"
    "\<exists>books. vs_books (capture_versions st a) = Some books
       \<and> (case map_of books (book_key b) of Some r \<Rightarrow> r | None \<Rightarrow> 0) = revision_of st a b"
proof -
  have rows: "distinct (map fst (pv_revisions st))"
    "\<forall>((a, b), r) \<in> set (pv_revisions st). b = wildcard \<or> valid_book b"
    using assms(1) by (auto simp: revisions_ok_def)
  show "vs_account_id (capture_versions st a) = Some a"
    "vs_account_revision (capture_versions st a) = Some (revision_of st a wildcard)"
    "\<exists>books. vs_books (capture_versions st a) = Some books
       \<and> (case map_of books (book_key b) of Some r \<Rightarrow> r | None \<Rightarrow> 0) = revision_of st a b"
    using capture_rows_account[OF rows, of a 0 "[]"] capture_rows_book[OF rows assms(2), of a 0 "[]"]
    by (auto simp: capture_versions_def revision_of_def split: prod.splits option.splits)
qed

section \<open>Stale snapshots are refused\<close>

inductive revision_step :: "revisions \<Rightarrow> revisions \<Rightarrow> bool" where
  book: "invalidate_book st a i sd op = Inr st' \<Longrightarrow> revision_step st st'"
| account: "invalidate_account st a op = Inr st' \<Longrightarrow> revision_step st st'"

lemma invalidate_revision:
  assumes "invalidate st a b (Some op) = Inr st'"
  shows "revision_of st' a' b' =
    (if map_of (pv_invalidations st) (a, op) = None \<and> a' = a \<and> b' = b then revision_of st a b + 1
     else revision_of st a' b')"
  using assms
  by (auto simp: invalidate_def revision_of_def AList.update_conv split: option.splits if_splits)

lemma invalidate_Some: "invalidate st a b op = Inr st' \<Longrightarrow> \<exists>o'. op = Some o'"
  by (cases op) (simp_all add: invalidate_def)

lemma revision_step_invalidates:
  assumes "revision_step st st'"
  shows "\<exists>a b op. invalidate st a b (Some op) = Inr st' \<and> (b = wildcard \<or> valid_book b)"
  using assms
proof (cases rule: revision_step.cases)
  case (book a i sd op)
  then show ?thesis
    unfolding invalidate_book_def bind_result_Inr_iff using position_book_valid invalidate_Some by blast
next
  case (account a op)
  then show ?thesis unfolding invalidate_account_def using invalidate_Some by blast
qed

lemma revision_step_ok: "revision_step st st' \<Longrightarrow> revisions_ok st \<Longrightarrow> revisions_ok st'"
  using revision_step_invalidates invalidate_ok by blast

lemma revision_step_mono: "revision_step st st' \<Longrightarrow> revision_of st a b \<le> revision_of st' a b"
  by (drule revision_step_invalidates) (auto simp: invalidate_revision)

definition empty_revisions :: revisions where
  "empty_revisions = \<lparr> pv_revisions = [], pv_invalidations = [] \<rparr>"

interpretation revision_store: invariant_store empty_revisions revision_step revisions_ok
proof
  show "revisions_ok empty_revisions" by (simp add: revisions_ok_def empty_revisions_def)
qed (rule revision_step_ok)

lemma revision_steps_mono:
  "revision_step\<^sup>*\<^sup>* st st' \<Longrightarrow> revisions_ok st \<Longrightarrow> revision_of st a b \<le> revision_of st' a b"
  by (rule revision_store.steps_mono[where m = "\<lambda>s. revision_of s a b"]) (auto intro: revision_step_mono)

lemma bind_precondition_iff:
  assumes "revisions_ok st0" "position_book i sd = Inr b"
  shows "bind_precondition st a i sd (Some (capture_versions st0 a)) =
    (if revision_of st0 a wildcard = revision_of st a wildcard \<and> revision_of st0 a b = revision_of st a b
     then Inr \<lparr> cr_account_id = a, cr_account_revision = revision_of st a wildcard,
                cr_book_revision = revision_of st a b, cr_book = b \<rparr>
     else Inl StalePositionRevision)"
proof -
  obtain books where c: "vs_books (capture_versions st0 a) = Some books"
      "(case map_of books (book_key b) of Some r \<Rightarrow> r | None \<Rightarrow> 0) = revision_of st0 a b"
    using capture_versions_counters(3)[OF assms(1) position_book_valid[OF assms(2)]] by blast
  note v = position_book_valid[OF assms(2)]
  have nonneg: "\<not> revision_of st0 a wildcard < 0" "\<not> revision_of st0 a b < 0"
    using revision_of_nonneg[OF assms(1)] by (simp_all add: not_less)
  show ?thesis
    using capture_versions_counters(1,2)[OF assms(1) v] c nonneg assms(2)
    by (auto simp: bind_precondition_def read_current_def Let_def)
qed

text \<open>
  C11. A close makes every earlier snapshot of its book stale: if a snapshot was captured, later a book
  of that account (or the whole account) was invalidated under an operation id not used before, then
  binding the snapshot to that book is refused with a stale-revision error for ever after, whatever
  other invalidations come before, between or after.
\<close>

theorem stale_snapshot_refused:
  assumes ok: "revisions_ok st0" and before: "revision_step\<^sup>*\<^sup>* st0 st1"
    and b: "position_book i sd = Inr b"
    and inv: "invalidate_book st1 a i sd (Some op) = Inr st2 \<or> invalidate_account st1 a (Some op) = Inr st2"
    and fresh: "map_of (pv_invalidations st1) (a, op) = None"
    and after: "revision_step\<^sup>*\<^sup>* st2 st3"
  shows "bind_precondition st3 a i sd (Some (capture_versions st0 a)) = Inl StalePositionRevision"
proof -
  have ok1: "revisions_ok st1" using revision_store.inv_steps[OF before ok] .
  have "revision_step st1 st2" using inv by (auto intro: revision_step.intros)
  with ok1 have ok2: "revisions_ok st2" by (rule revision_step_ok[rotated])
  have mono: "revision_of st0 a c \<le> revision_of st1 a c" "revision_of st2 a c \<le> revision_of st3 a c" for c
    using revision_steps_mono[OF before ok] revision_steps_mono[OF after ok2] by auto
  have "revision_of st1 a b < revision_of st2 a b \<or> revision_of st1 a wildcard < revision_of st2 a wildcard"
    using inv fresh b by (auto simp: invalidate_book_def invalidate_account_def invalidate_revision)
  with mono[of b] mono[of wildcard]
  have "\<not> (revision_of st0 a wildcard = revision_of st3 a wildcard \<and> revision_of st0 a b = revision_of st3 a b)"
    by auto
  then show ?thesis by (simp add: bind_precondition_iff[OF ok b])
qed

theorem stale_snapshot_refused_witness:
  "bind_precondition \<lparr> pv_revisions = [((''acc'', (''BTCUSDT'', ''LONG'')), 1)],
      pv_invalidations = [((''acc'', ''op1''), (''BTCUSDT'', ''LONG''))] \<rparr>
    ''acc'' ''BTCUSDT-PERP.BINANCE'' ''long'' (Some (capture_versions empty_revisions ''acc'')) = Inl StalePositionRevision"
proof -
  have b: "position_book ''BTCUSDT-PERP.BINANCE'' ''long'' = Inr (''BTCUSDT'', ''LONG'')" by code_simp
  have op: "strip ''op1'' = ''op1''" by code_simp
  have "invalidate_book empty_revisions ''acc'' ''BTCUSDT-PERP.BINANCE'' ''long'' (Some ''op1'') =
      Inr \<lparr> pv_revisions = [((''acc'', (''BTCUSDT'', ''LONG'')), 1)],
            pv_invalidations = [((''acc'', ''op1''), (''BTCUSDT'', ''LONG''))] \<rparr>"
    by (simp add: invalidate_book_def b invalidate_def op empty_revisions_def revision_of_def)
  moreover have "revisions_ok empty_revisions" "map_of (pv_invalidations empty_revisions) (''acc'', ''op1'') = None"
    by (simp_all add: revisions_ok_def empty_revisions_def)
  ultimately show ?thesis
    using stale_snapshot_refused[OF _ rtranclp.rtrancl_refl b _ _ rtranclp.rtrancl_refl] by blast
qed

text \<open>
  Invalidation is idempotent per operation: repeating an invalidation of the same book under the
  same operation id succeeds and changes nothing, while reusing the operation id for another book or
  for the whole account is an error; so one close advances its counter by exactly one.
\<close>

theorem invalidate_once_per_operation:
  assumes "invalidate st a b (Some op) = Inr st'"
  shows "invalidate st' a b (Some op) = Inr st'
    \<and> (b' \<noteq> b \<longrightarrow> invalidate st' a b' (Some op) = Inl ValueError)
    \<and> revision_of st' a b \<le> revision_of st a b + 1"
  using assms
  by (auto simp: invalidate_revision)
    (auto simp: invalidate_def AList.update_conv split: option.splits if_splits)

theorem invalidate_once_per_operation_witness:
  "\<exists>st'. invalidate empty_revisions ''acc'' wildcard (Some ''op1'') = Inr st'
    \<and> invalidate st' ''acc'' wildcard (Some ''op1'') = Inr st'"
proof -
  have "strip ''op1'' = ''op1''" by code_simp
  then obtain st' where "invalidate empty_revisions ''acc'' wildcard (Some ''op1'') = Inr st'"
    by (simp add: invalidate_def empty_revisions_def)
  then show ?thesis using invalidate_once_per_operation by blast
qed

end
