(* ===== verification/Operator_Commands.thy ===== *)
theory Operator_Commands
  imports Position_Revisions "HOL-Library.List_Lexorder" "HOL-Library.Char_ord"
begin

text \<open>
  \<open>services/control-plane/commands/commands.py\<close> and \<open>risk_state/risk_state.py\<close>: operator
  commands with one acknowledgement row per target node, and the risk mode they set. The tables are
  lists of rows with the keys of their migrations; an operation that raises rolls back, so the state
  after it is the state before. \<open>clock\<close> is the database's \<open>now()\<close>.
\<close>

section \<open>The risk mode\<close>

record risk_row =
  rm_mode :: "string option"
  rm_version :: int

type_synonym risk_modes = "((account_id \<times> symbol) \<times> risk_row) list"

definition valid_modes :: "string list" where
  "valid_modes = [''ACTIVE'', ''REDUCING'', ''HALTED'']"

definition set_mode :: "risk_modes \<Rightarrow> account_id \<Rightarrow> symbol \<Rightarrow> string \<Rightarrow> risk_modes result" where
  "set_mode modes a i m =
     (if m \<notin> set valid_modes then Inl ValueError
      else Inr (AList.update (a, i)
             (case map_of modes (a, i) of
                None \<Rightarrow> \<lparr> rm_mode = Some m, rm_version = 1 \<rparr>
              | Some row \<Rightarrow> row \<lparr> rm_mode := Some m, rm_version := rm_version row + 1 \<rparr>) modes))"

definition get_mode :: "risk_modes \<Rightarrow> account_id \<Rightarrow> symbol \<Rightarrow> string" where
  "get_mode modes a i =
     (case map_of modes (a, i) of
        None \<Rightarrow> ''ACTIVE''
      | Some row \<Rightarrow> (case or_else (\<lambda>s. s = []) (rm_mode row) (Some ''ACTIVE'') of Some m \<Rightarrow> m | None \<Rightarrow> ''ACTIVE''))"

section \<open>Commands and acknowledgements\<close>

record command_scope =
  cs_account_id :: "account_id option"
  cs_instruments :: "symbol list"

record op_command =
  oc_id :: string
  oc_type :: string
  oc_scope :: command_scope
  oc_status :: string
  oc_requested_by :: string
  oc_reason :: string
  oc_idempotency_key :: string
  oc_completed_at :: "instant option"

record node_ack =
  na_command_id :: string
  na_node_id :: node_id
  na_status :: string
  na_detail :: "string option"
  na_ack_at :: "instant option"
  na_expires_at :: "instant option"

record command_state =
  os_commands :: "op_command list"
  os_acks :: "node_ack list"
  os_modes :: risk_modes
  os_revisions :: revisions

record command_status =
  ct_command_id :: string
  ct_status :: string
  ct_command_type :: string
  ct_completed :: bool
  ct_acks :: "(node_id \<times> string) list"

definition command_types :: "string list" where
  "command_types = [''HALT'', ''REDUCE'', ''RESUME'', ''CANCEL_ALL'', ''CLOSE_ALL'', ''REFRESH_EVIDENCE'']"

definition mode_for_type :: "string \<Rightarrow> string option" where
  "mode_for_type ty = map_of [(''HALT'', ''HALTED''), (''REDUCE'', ''REDUCING''), (''RESUME'', ''ACTIVE'')] ty"

definition terminal_statuses :: "string list" where
  "terminal_statuses = [''completed'', ''partial'', ''failed'']"

text \<open>The status a command has for given acknowledgement statuses.\<close>

definition rollup :: "string list \<Rightarrow> string" where
  "rollup ss =
     (if ss = [] \<or> list_all (\<lambda>s. s = ''acked'') ss then ''completed''
      else if list_all (\<lambda>s. s = ''failed'') ss then ''failed''
      else if list_ex (\<lambda>s. s = ''pending'') ss
      then (if list_ex (\<lambda>s. s = ''acked'') ss then ''acknowledged'' else ''pending'')
      else ''partial'')"

definition ack_statuses :: "node_ack list \<Rightarrow> string \<Rightarrow> string list" where
  "ack_statuses acks cid = map na_status (filter (\<lambda>a. na_command_id a = cid) acks)"

definition recompute :: "command_state \<Rightarrow> string \<Rightarrow> instant \<Rightarrow> command_state" where
  "recompute st cid clock =
     (let new_status = rollup (ack_statuses (os_acks st) cid)
      in st \<lparr> os_commands := update_where (\<lambda>c. oc_id c = cid)
           (\<lambda>c. c \<lparr> oc_status := new_status,
                    oc_completed_at := (if new_status \<in> set terminal_statuses \<and> oc_completed_at c = None
                                        then Some clock else oc_completed_at c) \<rparr>)
           (os_commands st) \<rparr>)"

definition get_status :: "command_state \<Rightarrow> string \<Rightarrow> command_status result" where
  "get_status st cid =
     (case List.find (\<lambda>c. oc_id c = cid) (os_commands st) of
        None \<Rightarrow> Inl CommandError
      | Some c \<Rightarrow>
          Inr \<lparr> ct_command_id = cid, ct_status = oc_status c, ct_command_type = oc_type c,
                ct_completed = (oc_status c \<in> set terminal_statuses),
                ct_acks = map (\<lambda>a. (na_node_id a, na_status a))
                  (sort_key na_node_id (filter (\<lambda>a. na_command_id a = cid) (os_acks st))) \<rparr>)"

text \<open>The primary key of the acknowledgement rows rejects a node listed twice.\<close>

fun insert_acks :: "node_ack list \<Rightarrow> string \<Rightarrow> node_id list \<Rightarrow> instant \<Rightarrow> node_ack list result" where
  "insert_acks acks cid [] expiry = Inr acks"
| "insert_acks acks cid (n # ns) expiry =
     (if (cid, n) \<in> set (map (\<lambda>a. (na_command_id a, na_node_id a)) acks) then Inl IntegrityError
      else insert_acks
             (acks @ [\<lparr> na_command_id = cid, na_node_id = n, na_status = ''pending'', na_detail = None,
                        na_ack_at = None, na_expires_at = Some expiry \<rparr>]) cid ns expiry)"

fun invalidate_accounts :: "revisions \<Rightarrow> account_id list \<Rightarrow> string \<Rightarrow> revisions result" where
  "invalidate_accounts rv [] cid = Inr rv"
| "invalidate_accounts rv (a # as) cid =
     bind_result (invalidate_account rv a (Some cid)) (\<lambda>rv'. invalidate_accounts rv' as cid)"

fun set_modes :: "risk_modes \<Rightarrow> account_id \<Rightarrow> symbol list \<Rightarrow> string \<Rightarrow> risk_modes result" where
  "set_modes modes a [] m = Inr modes"
| "set_modes modes a (i # is) m = bind_result (set_mode modes a i m) (\<lambda>modes'. set_modes modes' a is m)"

definition insert_command :: "op_command list \<Rightarrow> op_command \<Rightarrow> op_command list result" where
  "insert_command cs c =
     (if oc_id c \<in> set (map oc_id cs) \<or> oc_idempotency_key c \<in> set (map oc_idempotency_key cs)
         \<or> oc_type c \<notin> set command_types
      then Inl IntegrityError else Inr (cs @ [c]))"

record issue_request =
  ir_command_type :: string
  ir_requested_by :: string
  ir_reason :: string
  ir_idempotency_key :: string
  ir_target_nodes :: "node_id list"
  ir_scope :: command_scope
  ir_ack_timeout_seconds :: int
  ir_invalidate_accounts :: "account_id list"

text \<open>The command's row when it is inserted; without target nodes it is completed at once.\<close>

definition new_command :: "issue_request \<Rightarrow> string \<Rightarrow> instant \<Rightarrow> op_command" where
  "new_command rq uuid clock =
     \<lparr> oc_id = uuid, oc_type = ir_command_type rq, oc_scope = ir_scope rq,
       oc_status = (if ir_target_nodes rq = [] then ''completed'' else ''pending''),
       oc_requested_by = ir_requested_by rq, oc_reason = ir_reason rq,
       oc_idempotency_key = ir_idempotency_key rq,
       oc_completed_at = (if ir_target_nodes rq = [] then Some clock else None) \<rparr>"

definition issue_command ::
    "command_state \<Rightarrow> issue_request \<Rightarrow> string \<Rightarrow> instant \<Rightarrow> (command_state \<times> (string \<times> string \<times> bool)) result" where
  "issue_command st rq uuid clock =
     (case List.find (\<lambda>c. oc_idempotency_key c = ir_idempotency_key rq) (os_commands st) of
        Some c \<Rightarrow> Inr (st, (oc_id c, oc_status c, True))
      | None \<Rightarrow>
          bind_result (insert_command (os_commands st) (new_command rq uuid clock)) (\<lambda>cs.
          bind_result (insert_acks (os_acks st) uuid (ir_target_nodes rq)
              (clock + ir_ack_timeout_seconds rq * 1000000)) (\<lambda>acks.
          bind_result (if ir_command_type rq = ''CLOSE_ALL''
                       then invalidate_accounts (os_revisions st) (sort (remdups (ir_invalidate_accounts rq))) uuid
                       else Inr (os_revisions st)) (\<lambda>rv.
          bind_result
            (case (mode_for_type (ir_command_type rq), or_else (\<lambda>s. s = []) (cs_account_id (ir_scope rq)) None) of
               (Some m, Some a) \<Rightarrow> set_modes (os_modes st) a (cs_instruments (ir_scope rq)) m
             | _ \<Rightarrow> Inr (os_modes st)) (\<lambda>modes.
            Inr (\<lparr> os_commands = cs, os_acks = acks, os_modes = modes, os_revisions = rv \<rparr>,
                 (uuid, oc_status (new_command rq uuid clock), False)))))))"

definition record_ack ::
    "command_state \<Rightarrow> string \<Rightarrow> node_id \<Rightarrow> string \<Rightarrow> string option \<Rightarrow> instant \<Rightarrow>
     (command_state \<times> command_status) result" where
  "record_ack st cid node status detail clock =
     (if status \<notin> {''acked'', ''failed''} then Inl ValueError
      else
        (let hit = (\<lambda>a. na_command_id a = cid \<and> na_node_id a = node);
             acks = update_where hit
               (\<lambda>a. a \<lparr> na_status := status, na_detail := detail, na_ack_at := Some clock \<rparr>) (os_acks st)
         in if length (filter hit (os_acks st)) \<noteq> 1 then Inl CommandError
            else (let st' = recompute (st \<lparr> os_acks := acks \<rparr>) cid clock
                  in bind_result (get_status st' cid) (\<lambda>res. Inr (st', res)))))"

definition ack_timed_out :: "instant \<Rightarrow> node_ack \<Rightarrow> bool" where
  "ack_timed_out clock a =
     (na_status a = ''pending'' \<and> (case na_expires_at a of None \<Rightarrow> False | Some t \<Rightarrow> t \<le> clock))"

fun recompute_all :: "command_state \<Rightarrow> string list \<Rightarrow> instant \<Rightarrow> command_state" where
  "recompute_all st [] clock = st"
| "recompute_all st (cid # cids) clock = recompute_all (recompute st cid clock) cids clock"

definition expire_timeouts :: "command_state \<Rightarrow> instant \<Rightarrow> command_state \<times> string list" where
  "expire_timeouts st clock =
     (let cids = sort (remdups (map na_command_id (filter (ack_timed_out clock) (os_acks st))));
          acks = update_where (ack_timed_out clock)
            (\<lambda>a. a \<lparr> na_status := ''failed'',
                     na_detail := Some (case na_detail a of Some d \<Rightarrow> d | None \<Rightarrow> ''ack timeout''),
                     na_ack_at := Some clock \<rparr>) (os_acks st)
      in (recompute_all (st \<lparr> os_acks := acks \<rparr>) cids clock, cids))"

section \<open>The status is the roll-up of the acknowledgements\<close>

definition commands_ok :: "command_state \<Rightarrow> bool" where
  "commands_ok st =
     (distinct (map oc_id (os_commands st))
      \<and> (\<forall>a \<in> set (os_acks st). na_command_id a \<in> set (map oc_id (os_commands st))
            \<and> na_status a \<in> {''pending'', ''acked'', ''failed''} \<and> na_expires_at a \<noteq> None)
      \<and> (\<forall>c \<in> set (os_commands st). oc_status c = rollup (ack_statuses (os_acks st) (oc_id c))
            \<and> (oc_status c \<in> set terminal_statuses \<longrightarrow> oc_completed_at c \<noteq> None)))"

lemma rollup_pending: "ss \<noteq> [] \<Longrightarrow> list_all (\<lambda>s. s = ''pending'') ss \<Longrightarrow> rollup ss = ''pending''"
  by (cases ss) (auto simp: rollup_def list_all_iff list_ex_iff)

lemma rollup_Nil [simp]: "rollup [] = ''completed''"
  by (simp add: rollup_def)

lemma rollup_completed_iff: "rollup ss = ''completed'' \<longleftrightarrow> list_all (\<lambda>s. s = ''acked'') ss"
  by (auto simp: rollup_def)

lemma rollup_terminal:
  "rollup ss \<in> set terminal_statuses \<Longrightarrow> ''pending'' \<notin> set ss"
  by (auto simp: rollup_def terminal_statuses_def list_all_iff list_ex_iff split: if_splits)

lemma rollup_no_pending: "''pending'' \<notin> set ss \<Longrightarrow> rollup ss \<in> set terminal_statuses"
  by (auto simp: rollup_def terminal_statuses_def list_ex_iff)

lemma two_values_mixed:
  assumes S: "S \<subseteq> {p, a, f}" and ne: "a \<noteq> f"
  shows "(\<not> (\<forall>s \<in> S. s = a) \<and> \<not> (\<forall>s \<in> S. s = f) \<and> p \<notin> S) = (a \<in> S \<and> f \<in> S \<and> p \<notin> S)"
proof -
  have "s = a \<or> s = f" if "s \<in> S" "p \<notin> S" for s using that S by auto
  then show ?thesis using ne by (metis (full_types))
qed

lemma rollup_partial:
  "set ss \<subseteq> {''pending'', ''acked'', ''failed''} \<Longrightarrow>
   rollup ss = ''partial'' \<longleftrightarrow> ''acked'' \<in> set ss \<and> ''failed'' \<in> set ss \<and> ''pending'' \<notin> set ss"
proof -
  assume sub: "set ss \<subseteq> {''pending'', ''acked'', ''failed''}"
  have "rollup ss = ''partial'' \<longleftrightarrow>
      \<not> list_all (\<lambda>s. s = ''acked'') ss \<and> \<not> list_all (\<lambda>s. s = ''failed'') ss \<and> ''pending'' \<notin> set ss"
    by (cases "ss = []") (simp_all add: rollup_def list_ex_iff)
  also have "\<dots> \<longleftrightarrow> ''acked'' \<in> set ss \<and> ''failed'' \<in> set ss \<and> ''pending'' \<notin> set ss"
    unfolding list_all_iff by (rule two_values_mixed[OF sub]) simp
  finally show ?thesis .
qed

lemma insert_acks_append:
  "insert_acks acks cid ns e = Inr acks' \<Longrightarrow>
   acks' = acks @ map (\<lambda>n. \<lparr> na_command_id = cid, na_node_id = n, na_status = ''pending'', na_detail = None,
                             na_ack_at = None, na_expires_at = Some e \<rparr>) ns"
  by (induction acks cid ns e rule: insert_acks.induct) (auto split: if_splits)

lemma recompute_acks [simp]: "os_acks (recompute st cid clock) = os_acks st"
  by (simp add: recompute_def Let_def)

lemma recompute_all_acks [simp]: "os_acks (recompute_all st cids clock) = os_acks st"
  by (induction cids arbitrary: st) simp_all

lemma recompute_ids [simp]: "map oc_id (os_commands (recompute st cid clock)) = map oc_id (os_commands st)"
  by (simp add: recompute_def Let_def map_update_where_frame)

lemma recompute_all_ids [simp]: "map oc_id (os_commands (recompute_all st cids clock)) = map oc_id (os_commands st)"
  by (induction cids arbitrary: st) simp_all

text \<open>What holds of each command row, as a predicate of the acknowledgement rows.\<close>

definition row_ok :: "node_ack list \<Rightarrow> op_command \<Rightarrow> bool" where
  "row_ok acks c = (oc_status c = rollup (ack_statuses acks (oc_id c))
     \<and> (oc_status c \<in> set terminal_statuses \<longrightarrow> oc_completed_at c \<noteq> None))"

lemma recompute_row_ok:
  assumes "c \<in> set (os_commands (recompute st cid clock))"
  shows "oc_id c = cid \<and> row_ok (os_acks st) c \<or> oc_id c \<noteq> cid \<and> c \<in> set (os_commands st)"
  using assms by (auto simp: recompute_def Let_def set_update_where row_ok_def)

lemma recompute_all_row_ok:
  assumes "\<forall>c \<in> set (os_commands st). oc_id c \<notin> set cids \<longrightarrow> row_ok (os_acks st) c"
  shows "\<forall>c \<in> set (os_commands (recompute_all st cids clock)). row_ok (os_acks st) c"
  using assms
proof (induction cids arbitrary: st)
  case (Cons cid cids)
  have "\<forall>c \<in> set (os_commands (recompute st cid clock)). oc_id c \<notin> set cids \<longrightarrow> row_ok (os_acks st) c"
    using recompute_row_ok[of _ st cid clock] Cons.prems by fastforce
  then show ?case using Cons.IH[of "recompute st cid clock"] by simp
qed simp

lemma ack_statuses_other:
  "(\<And>a. a \<in> set acks \<Longrightarrow> p a \<Longrightarrow> na_command_id a \<noteq> cid \<and> na_command_id (f a) \<noteq> cid) \<Longrightarrow>
   ack_statuses (update_where p f acks) cid = ack_statuses acks cid"
  by (induction acks) (auto simp: ack_statuses_def)

lemma commands_ok_alt:
  "commands_ok st \<longleftrightarrow> distinct (map oc_id (os_commands st))
    \<and> (\<forall>a \<in> set (os_acks st). na_command_id a \<in> set (map oc_id (os_commands st))
         \<and> na_status a \<in> {''pending'', ''acked'', ''failed''} \<and> na_expires_at a \<noteq> None)
    \<and> (\<forall>c \<in> set (os_commands st). row_ok (os_acks st) c)"
  by (simp add: commands_ok_def row_ok_def)

lemma update_acks_ok:
  assumes ok: "commands_ok st"
    and f: "\<And>a. p a \<Longrightarrow> na_command_id (f a) = na_command_id a \<and> na_status (f a) \<in> {''acked'', ''failed''}
      \<and> na_expires_at (f a) = na_expires_at a"
    and cids: "\<And>a. a \<in> set (os_acks st) \<Longrightarrow> p a \<Longrightarrow> na_command_id a \<in> set cids"
  shows "commands_ok (recompute_all (st \<lparr> os_acks := update_where p f (os_acks st) \<rparr>) cids clock)"
proof -
  let ?st = "st \<lparr> os_acks := update_where p f (os_acks st) \<rparr>"
  have "\<forall>c \<in> set (os_commands ?st). oc_id c \<notin> set cids \<longrightarrow> row_ok (os_acks ?st) c"
  proof (intro ballI impI)
    fix c assume c: "c \<in> set (os_commands ?st)" "oc_id c \<notin> set cids"
    have "ack_statuses (os_acks ?st) (oc_id c) = ack_statuses (os_acks st) (oc_id c)"
      using c(2) cids f by (simp add: ack_statuses_other) (metis ack_statuses_other)
    with ok c show "row_ok (os_acks ?st) c" by (simp add: commands_ok_alt row_ok_def)
  qed
  then have "\<forall>c \<in> set (os_commands (recompute_all ?st cids clock)). row_ok (os_acks ?st) c"
    by (rule recompute_all_row_ok)
  moreover have "\<forall>a \<in> set (os_acks ?st). na_command_id a \<in> set (map oc_id (os_commands st))
      \<and> na_status a \<in> {''pending'', ''acked'', ''failed''} \<and> na_expires_at a \<noteq> None"
    using ok f by (fastforce simp: commands_ok_def set_update_where)
  ultimately show ?thesis using ok
    unfolding commands_ok_alt recompute_all_ids recompute_all_acks by simp
qed

lemma record_ack_ok:
  assumes "commands_ok st" "record_ack st cid node status detail clock = Inr (st', res)"
  shows "commands_ok st'"
proof -
  let ?p = "\<lambda>a. na_command_id a = cid \<and> na_node_id a = node"
  let ?f = "\<lambda>a. a \<lparr> na_status := status, na_detail := detail, na_ack_at := Some clock \<rparr>"
  have "st' = recompute_all (st \<lparr> os_acks := update_where ?p ?f (os_acks st) \<rparr>) [cid] clock"
    "status \<in> {''acked'', ''failed''}"
    using assms(2) by (auto simp: record_ack_def Let_def bind_result_Inr_iff split: if_splits)
  then show ?thesis using update_acks_ok[OF assms(1), of ?p ?f "[cid]" clock] by simp
qed

lemma expire_timeouts_ok:
  assumes "commands_ok st"
  shows "commands_ok (fst (expire_timeouts st clock))"
  unfolding expire_timeouts_def Let_def fst_conv
  by (rule update_acks_ok[OF assms]) (auto simp: ack_timed_out_def)

lemma issue_commandE:
  assumes "issue_command st rq uuid clock = Inr (st', res)"
  obtains "st' = st"
  | "uuid \<notin> set (map oc_id (os_commands st))" "os_commands st' = os_commands st @ [new_command rq uuid clock]"
    "os_acks st' = os_acks st @ map (\<lambda>n. \<lparr> na_command_id = uuid, na_node_id = n, na_status = ''pending'',
        na_detail = None, na_ack_at = None,
        na_expires_at = Some (clock + ir_ack_timeout_seconds rq * 1000000) \<rparr>) (ir_target_nodes rq)"
proof (cases "List.find (\<lambda>c. oc_idempotency_key c = ir_idempotency_key rq) (os_commands st)")
  case None
  with assms obtain cs acks where
      cs: "insert_command (os_commands st) (new_command rq uuid clock) = Inr cs" "os_commands st' = cs" and
      acks: "insert_acks (os_acks st) uuid (ir_target_nodes rq) (clock + ir_ack_timeout_seconds rq * 1000000) = Inr acks"
      "os_acks st' = acks"
    by (auto simp: issue_command_def bind_result_Inr_iff)
  have id: "oc_id (new_command rq uuid clock) = uuid" by (simp add: new_command_def)
  have "uuid \<notin> set (map oc_id (os_commands st))" "cs = os_commands st @ [new_command rq uuid clock]"
    using cs(1) unfolding insert_command_def id by (simp_all split: if_splits)
  then show thesis using cs(2) acks(2) insert_acks_append[OF acks(1)] by (intro that(2)) simp_all
next
  case (Some c)
  with assms have "st' = st" by (simp add: issue_command_def)
  then show thesis by (rule that(1))
qed

lemma issue_command_ok:
  assumes ok: "commands_ok st" and step: "issue_command st rq uuid clock = Inr (st', res)"
  shows "commands_ok st'"
  using step
proof (cases rule: issue_commandE)
  case 2
  let ?new = "map (\<lambda>n. \<lparr> na_command_id = uuid, na_node_id = n, na_status = ''pending'', na_detail = None,
        na_ack_at = None, na_expires_at = Some (clock + ir_ack_timeout_seconds rq * 1000000) \<rparr>) (ir_target_nodes rq)"
  have other: "ack_statuses (os_acks st @ ?new) (oc_id c) = ack_statuses (os_acks st) (oc_id c)"
    if "c \<in> set (os_commands st)" for c
    using that 2(1) by (auto simp: ack_statuses_def filter_empty_conv)
  have "filter (\<lambda>a. na_command_id a = uuid) (os_acks st) = []"
    using ok 2(1) by (auto simp: commands_ok_def filter_empty_conv)
  then have "ack_statuses (os_acks st @ ?new) uuid = map (\<lambda>_. ''pending'') (ir_target_nodes rq)"
    by (simp add: ack_statuses_def filter_map comp_def)
  then have "row_ok (os_acks st @ ?new) (new_command rq uuid clock)"
    using rollup_pending[of "map (\<lambda>_. ''pending'') (ir_target_nodes rq)"]
    by (auto simp: row_ok_def new_command_def rollup_completed_iff list_all_iff terminal_statuses_def)
  then show ?thesis
    using ok other 2 unfolding commands_ok_alt by (auto simp: row_ok_def new_command_def)
qed (use ok in simp)

inductive command_step :: "command_state \<Rightarrow> command_state \<Rightarrow> bool" where
  issue: "issue_command st rq uuid clock = Inr (st', res) \<Longrightarrow> command_step st st'"
| ack: "record_ack st cid node status detail clock = Inr (st', res) \<Longrightarrow> command_step st st'"
| expire: "command_step st (fst (expire_timeouts st clock))"

definition empty_commands :: command_state where
  "empty_commands = \<lparr> os_commands = [], os_acks = [], os_modes = [], os_revisions = empty_revisions \<rparr>"

interpretation command_store: invariant_store empty_commands command_step commands_ok
proof
  show "commands_ok empty_commands" by (simp add: commands_ok_def empty_commands_def)
next
  fix st st' assume "commands_ok st" "command_step st st'"
  then show "commands_ok st'"
    by (auto elim!: command_step.cases intro: issue_command_ok record_ack_ok expire_timeouts_ok)
qed


text \<open>
  No command waits for ever: expiring timeouts at a time when every acknowledgement window has
  passed leaves every command of a reachable state with a terminal status.
\<close>

theorem timeouts_settle_commands:
  assumes "command_step\<^sup>*\<^sup>* empty_commands st"
    and late: "\<forall>a \<in> set (os_acks st). \<forall>t. na_expires_at a = Some t \<longrightarrow> t \<le> clock"
  shows "\<forall>c \<in> set (os_commands (fst (expire_timeouts st clock))). oc_status c \<in> set terminal_statuses"
proof
  fix c assume c: "c \<in> set (os_commands (fst (expire_timeouts st clock)))"
  have ok: "commands_ok st" using command_store.reachable_inv[OF assms(1)] .
  have "\<forall>a \<in> set (os_acks (fst (expire_timeouts st clock))). na_status a \<noteq> ''pending''"
  proof
    fix a assume "a \<in> set (os_acks (fst (expire_timeouts st clock)))"
    then consider "na_status a = ''failed''" | "a \<in> set (os_acks st)" "\<not> ack_timed_out clock a"
      by (auto simp: expire_timeouts_def Let_def set_update_where)
    then show "na_status a \<noteq> ''pending''"
    proof cases
      case 2
      then obtain t where "na_expires_at a = Some t" "t \<le> clock" using ok late by (auto simp: commands_ok_def)
      with 2 show ?thesis by (simp add: ack_timed_out_def)
    qed simp
  qed
  then have "''pending'' \<notin> set (ack_statuses (os_acks (fst (expire_timeouts st clock))) (oc_id c))"
    by (auto simp: ack_statuses_def)
  then show "oc_status c \<in> set terminal_statuses"
    using c expire_timeouts_ok[OF ok, of clock] rollup_no_pending by (auto simp: commands_ok_def)
qed

definition halt_example :: issue_request where
  "halt_example =
     \<lparr> ir_command_type = ''HALT'', ir_requested_by = ''op'', ir_reason = ''drill'', ir_idempotency_key = ''k1'',
       ir_target_nodes = [''n1'', ''n2''], ir_scope = \<lparr> cs_account_id = Some ''acc'', cs_instruments = [''BTCUSDT''] \<rparr>,
       ir_ack_timeout_seconds = 30, ir_invalidate_accounts = [] \<rparr>"

definition halt_example_state :: command_state where
  "halt_example_state =
     \<lparr> os_commands = [new_command halt_example ''c1'' 0],
       os_acks = map (\<lambda>n. \<lparr> na_command_id = ''c1'', na_node_id = n, na_status = ''pending'', na_detail = None,
                             na_ack_at = None, na_expires_at = Some 30000000 \<rparr>) [''n1'', ''n2''],
       os_modes = [((''acc'', ''BTCUSDT''), \<lparr> rm_mode = Some ''HALTED'', rm_version = 1 \<rparr>)],
       os_revisions = empty_revisions \<rparr>"

lemma halt_example_issued:
  "issue_command empty_commands halt_example ''c1'' 0 = Inr (halt_example_state, (''c1'', ''pending'', False))"
  by (simp add: issue_command_def halt_example_def empty_commands_def insert_command_def new_command_def
      command_types_def mode_for_type_def set_mode_def valid_modes_def halt_example_state_def)

lemma halt_example_reachable: "command_step\<^sup>*\<^sup>* empty_commands halt_example_state"
  using command_step.issue[OF halt_example_issued] by simp


theorem timeouts_settle_commands_witness:
  "list_all (\<lambda>c. oc_status c \<in> set terminal_statuses) (os_commands (fst (expire_timeouts halt_example_state 30000000)))"
  using timeouts_settle_commands[OF halt_example_reachable, of 30000000]
  by (simp add: halt_example_state_def list_all_iff)

section \<open>The kill switch\<close>

lemma set_modes_mode:
  "set_modes modes a is m = Inr modes' \<Longrightarrow> m \<noteq> [] \<Longrightarrow>
   get_mode modes' a' i = (if a' = a \<and> i \<in> set is then m else get_mode modes a' i)"
proof (induction modes a "is" m rule: set_modes.induct)
  case (2 modes a j js m)
  then show ?case
    by (auto simp: bind_result_Inr_iff set_mode_def get_mode_def AList.update_conv split: if_splits option.splits)
qed simp

text \<open>
  The mode changes with the command, not with its acknowledgement: a HALT, REDUCE or RESUME that is
  issued for an account sets the mode of exactly the instruments in its scope, in the same transaction
  that records the command, and leaves every other mode alone; a retry under the same idempotency key
  changes nothing.
\<close>

theorem issue_sets_mode:
  assumes issue: "issue_command st rq uuid clock = Inr (st', (cid, status, False))"
    and scope: "mode_for_type (ir_command_type rq) = Some m" "cs_account_id (ir_scope rq) = Some a" "a \<noteq> []"
  shows "get_mode (os_modes st') a' i =
      (if a' = a \<and> i \<in> set (cs_instruments (ir_scope rq)) then m else get_mode (os_modes st) a' i)
    \<and> issue_command st' rq uuid' clock' = Inr (st', (cid, status, True))"
proof -
  have new: "List.find (\<lambda>c. oc_idempotency_key c = ir_idempotency_key rq) (os_commands st) = None"
    using issue by (auto simp: issue_command_def split: option.splits)
  then obtain cs where s: "set_modes (os_modes st) a (cs_instruments (ir_scope rq)) m = Inr (os_modes st')"
    and cs: "insert_command (os_commands st) (new_command rq uuid clock) = Inr cs" "os_commands st' = cs"
      "cid = uuid" "status = oc_status (new_command rq uuid clock)"
    using issue scope by (auto simp: issue_command_def bind_result_Inr_iff)
  have "m \<noteq> []" using scope(1) by (auto simp: mode_for_type_def split: if_splits)
  from set_modes_mode[OF s this]
  have "get_mode (os_modes st') a' i =
      (if a' = a \<and> i \<in> set (cs_instruments (ir_scope rq)) then m else get_mode (os_modes st) a' i)" .
  moreover have "os_commands st' = os_commands st @ [new_command rq uuid clock]"
    using cs by (auto simp: insert_command_def split: if_splits)
  then have "issue_command st' rq uuid' clock' = Inr (st', (cid, status, True))"
    using new cs by (simp add: issue_command_def find_append) (simp add: new_command_def)
  ultimately show ?thesis by simp
qed

theorem issue_sets_mode_witness:
  "get_mode (os_modes halt_example_state) ''acc'' ''BTCUSDT'' = ''HALTED''"
  using issue_sets_mode[OF halt_example_issued, of "''HALTED''" "''acc''" "''acc''" "''BTCUSDT''"]
  by (simp add: halt_example_def mode_for_type_def)

end
