(* ===== verification/Command_Runs.thy ===== *)
theory Command_Runs
  imports State_Descriptor "HOL-Library.AList"
begin

text \<open>
  \<open>services/control-plane/order_management/commands.py\<close>: the durable run of a command on a node,
  with the frozen lifecycle accepted, running, verifying, terminal. The JSON payload is an
  association list of rendered values; the trace id that observability derives from the identifiers
  by hashing is the parameter \<open>trace\<close>.
\<close>

type_synonym payload = "(string \<times> string) list"

record command_run =
  cu_id :: string
  cu_command_id :: "string option"
  cu_node_id :: node_id
  cu_command_type :: string
  cu_request_id :: string
  cu_idempotency_key :: string
  cu_status :: string
  cu_payload :: payload
  cu_started_at :: instant
  cu_completed_at :: "instant option"
  cu_created_at :: instant

definition run_terminal :: "string \<Rightarrow> bool" where
  "run_terminal s = (s \<in> {''completed'', ''partial'', ''failed'', ''timed_out''})"

definition require_text :: "string option \<Rightarrow> string result" where
  "require_text v =
     (let t = strip (case v of None \<Rightarrow> [] | Some s \<Rightarrow> s) in if t = [] then Inl ValueError else Inr t)"

definition setdefault :: "payload \<Rightarrow> string \<Rightarrow> string \<Rightarrow> payload" where
  "setdefault p k v = (case map_of p k of Some _ \<Rightarrow> p | None \<Rightarrow> p @ [(k, v)])"

definition inject_trace :: "(payload \<Rightarrow> string \<Rightarrow> string) \<Rightarrow> payload \<Rightarrow> string \<Rightarrow> payload" where
  "inject_trace trace p rid = setdefault (setdefault p ''request_id'' rid) ''trace_id'' (trace p rid)"

definition request_command_run ::
    "(payload \<Rightarrow> string \<Rightarrow> string) \<Rightarrow> command_run list \<Rightarrow> string option \<Rightarrow> string option \<Rightarrow> string option \<Rightarrow> payload \<Rightarrow>
     string option \<Rightarrow> string option \<Rightarrow> string \<Rightarrow> instant \<Rightarrow> (command_run list \<times> command_run \<times> bool) result" where
  "request_command_run trace tbl node ty request_id payload command_id idempotency_key uuid clock =
     bind_result (require_text node) (\<lambda>_.
     bind_result (require_text ty) (\<lambda>_.
     bind_result (require_text request_id) (\<lambda>rid.
       let idem = (case or_else (\<lambda>s. s = []) idempotency_key (Some rid) of Some k \<Rightarrow> k | None \<Rightarrow> rid) in
       case List.find (\<lambda>r. cu_node_id r = the node \<and> cu_idempotency_key r = idem) tbl of
         Some r \<Rightarrow> Inr (tbl, r, True)
       | None \<Rightarrow>
           (let row = \<lparr> cu_id = uuid, cu_command_id = command_id, cu_node_id = the node,
                  cu_command_type = the ty, cu_request_id = rid, cu_idempotency_key = idem,
                  cu_status = ''accepted'', cu_payload = inject_trace trace payload rid,
                  cu_started_at = clock, cu_completed_at = None, cu_created_at = clock \<rparr>
            in if uuid \<in> set (map cu_id tbl) then Inl IntegrityError else Inr (tbl @ [row], row, False)))))"

text \<open>\<open>ORDER BY created_at DESC LIMIT 1\<close>: the latest run of a request.\<close>

fun latest_run :: "command_run option \<Rightarrow> command_run list \<Rightarrow> command_run option" where
  "latest_run best [] = best"
| "latest_run None (r # rs) = latest_run (Some r) rs"
| "latest_run (Some b) (r # rs) = latest_run (Some (if cu_created_at b < cu_created_at r then r else b)) rs"

definition get_command_run :: "command_run list \<Rightarrow> string \<Rightarrow> command_run result" where
  "get_command_run tbl rid =
     (case latest_run None (filter (\<lambda>r. cu_request_id r = rid) tbl) of
        None \<Rightarrow> Inl CommandRunError
      | Some r \<Rightarrow> Inr r)"

definition run_update :: "(payload \<Rightarrow> string \<Rightarrow> string) \<Rightarrow> command_run \<Rightarrow> string \<Rightarrow> string option \<Rightarrow> string option \<Rightarrow>
    instant \<Rightarrow> command_run \<Rightarrow> command_run" where
  "run_update trace row status res err clock r =
     (let p1 = inject_trace trace (cu_payload row) (cu_request_id row);
          p2 = (case res of None \<Rightarrow> p1 | Some v \<Rightarrow> AList.update ''result'' v p1);
          p3 = (case err of None \<Rightarrow> p2 | Some v \<Rightarrow> AList.update ''error'' v p2)
      in r \<lparr> cu_status := status, cu_payload := AList.update ''last_status'' status p3,
             cu_completed_at := (if run_terminal status
                                 then Some (case cu_completed_at r of Some t \<Rightarrow> t | None \<Rightarrow> clock)
                                 else cu_completed_at r) \<rparr>)"

definition transition ::
    "(payload \<Rightarrow> string \<Rightarrow> string) \<Rightarrow> command_run list \<Rightarrow> string option \<Rightarrow> string \<Rightarrow> string option \<Rightarrow> string option \<Rightarrow> instant \<Rightarrow>
     (command_run list \<times> command_run) result" where
  "transition trace tbl request_id status res err clock =
     bind_result (require_text request_id) (\<lambda>rid.
     bind_result (get_command_run tbl rid) (\<lambda>row.
       if cu_status row = status \<or> run_terminal (cu_status row) then Inr (tbl, row)
       else if \<not> legal_transition command_domain (cu_status row) status then Inl CommandRunTransitionError
       else Inr (update_where (\<lambda>r. cu_id r = cu_id row) (run_update trace row status res err clock) tbl,
                 run_update trace row status res err clock row)))"

definition mark_running ::
    "(payload \<Rightarrow> string \<Rightarrow> string) \<Rightarrow> command_run list \<Rightarrow> string option \<Rightarrow> string option \<Rightarrow> instant \<Rightarrow>
     (command_run list \<times> command_run) result" where
  "mark_running trace tbl rid res clock = transition trace tbl rid ''running'' res None clock"

definition mark_verifying ::
    "(payload \<Rightarrow> string \<Rightarrow> string) \<Rightarrow> command_run list \<Rightarrow> string option \<Rightarrow> string option \<Rightarrow> instant \<Rightarrow>
     (command_run list \<times> command_run) result" where
  "mark_verifying trace tbl rid res clock = transition trace tbl rid ''verifying'' res None clock"

definition mark_terminal ::
    "(payload \<Rightarrow> string \<Rightarrow> string) \<Rightarrow> command_run list \<Rightarrow> string option \<Rightarrow> string \<Rightarrow> string option \<Rightarrow> string option \<Rightarrow> instant \<Rightarrow>
     (command_run list \<times> command_run) result" where
  "mark_terminal trace tbl rid status res err clock =
     (if \<not> run_terminal status then Inl ValueError
      else transition trace tbl rid status res err clock)"

section \<open>The lifecycle\<close>

inductive run_step :: "command_run list \<Rightarrow> command_run list \<Rightarrow> bool" where
  request: "request_command_run trace tbl node ty rid p cid idem uuid clock = Inr (tbl', r, replay) \<Longrightarrow> run_step tbl tbl'"
| running: "mark_running trace tbl rid res clock = Inr (tbl', r) \<Longrightarrow> run_step tbl tbl'"
| verifying: "mark_verifying trace tbl rid res clock = Inr (tbl', r) \<Longrightarrow> run_step tbl tbl'"
| terminal: "mark_terminal trace tbl rid status res err clock = Inr (tbl', r) \<Longrightarrow> run_step tbl tbl'"

text \<open>The states a run can be in, and which a run that is in a state has been through.\<close>

definition run_state :: "string \<Rightarrow> bool" where
  "run_state s = (s \<in> {''accepted'', ''running'', ''verifying'', ''completed'', ''partial'', ''failed'', ''timed_out''})"

definition runs_ok :: "command_run list \<Rightarrow> bool" where
  "runs_ok tbl =
     (distinct (map cu_id tbl)
      \<and> (\<forall>r \<in> set tbl. run_state (cu_status r)
           \<and> (run_terminal (cu_status r) \<longleftrightarrow> cu_completed_at r \<noteq> None)))"

lemma command_edges:
  "legal_transition command_domain s t \<longleftrightarrow>
     s = t \<or> (s, t) \<in> {(''requested'', ''accepted''), (''accepted'', ''running''), (''running'', ''verifying''),
       (''verifying'', ''completed''), (''verifying'', ''partial''), (''running'', ''partial''),
       (''running'', ''failed''), (''running'', ''timed_out''), (''verifying'', ''timed_out'')}"
  by (auto simp: legal_transition_def command_domain_def state_is_terminal_def)

lemma transitionE:
  assumes "transition trace tbl rid status res err clock = Inr (tbl', r)"
  obtains "tbl' = tbl"
  | row where "row \<in> set tbl" "\<not> run_terminal (cu_status row)" "cu_status row \<noteq> status"
    "legal_transition command_domain (cu_status row) status"
    "tbl' = update_where (\<lambda>r. cu_id r = cu_id row) (run_update trace row status res err clock) tbl"
proof -
  have latest: "latest_run b rs = Some r \<Longrightarrow> b = Some r \<or> r \<in> set rs" for b rs r
    by (induction b rs rule: latest_run.induct) (auto split: if_splits)
  show thesis
    using assms that
    by (auto simp: transition_def bind_result_Inr_iff get_command_run_def split: if_splits option.splits
        dest!: latest)
qed

lemma run_update_simps [simp]:
  "cu_id (run_update trace row status res err clock r) = cu_id r"
  "cu_status (run_update trace row status res err clock r) = status"
  "cu_completed_at (run_update trace row status res err clock r) =
     (if run_terminal status then Some (case cu_completed_at r of Some t \<Rightarrow> t | None \<Rightarrow> clock) else cu_completed_at r)"
  by (simp_all add: run_update_def Let_def)

text \<open>How a row of the table after a step relates to the table before.\<close>

definition run_successor :: "command_run list \<Rightarrow> command_run \<Rightarrow> bool" where
  "run_successor tbl r' =
     ((cu_id r' \<notin> set (map cu_id tbl) \<and> cu_status r' = ''accepted'' \<and> cu_completed_at r' = None)
      \<or> r' \<in> set tbl
      \<or> (\<exists>r \<in> set tbl. cu_id r' = cu_id r \<and> \<not> run_terminal (cu_status r) \<and> cu_status r \<noteq> cu_status r'
            \<and> legal_transition command_domain (cu_status r) (cu_status r')
            \<and> (cu_completed_at r = None \<longrightarrow> (cu_completed_at r' \<noteq> None \<longleftrightarrow> run_terminal (cu_status r')))))"

lemma transition_successor:
  assumes "transition trace tbl rid status res err clock = Inr (tbl', r)" "distinct (map cu_id tbl)" "r' \<in> set tbl'"
  shows "run_successor tbl r'"
  using assms(1)
proof (cases rule: transitionE)
  case 1
  with assms(3) show ?thesis by (simp add: run_successor_def)
next
  case (2 row)
  from assms(3) 2(5) consider "r' \<in> set tbl"
    | r where "r \<in> set tbl" "cu_id r = cu_id row" "r' = run_update trace row status res err clock r"
    by (auto simp: set_update_where)
  then show ?thesis
  proof cases
    case (2 r)
    have "r = row" using 2 \<open>row \<in> set tbl\<close> assms(2) by (auto simp: distinct_map inj_on_def)
    with 2 \<open>\<not> run_terminal (cu_status row)\<close> \<open>cu_status row \<noteq> status\<close>
      \<open>legal_transition command_domain (cu_status row) status\<close> \<open>row \<in> set tbl\<close>
    show ?thesis by (auto simp: run_successor_def)
  qed (simp add: run_successor_def)
qed

lemma transition_ids:
  assumes "transition trace tbl rid status res err clock = Inr (tbl', r)"
  shows "map cu_id tbl' = map cu_id tbl"
  using assms by (cases rule: transitionE) (auto simp: map_update_where_frame)

lemma request_successor:
  assumes "request_command_run trace tbl node ty rid p cid idem uuid clock = Inr (tbl', r, replay)"
  shows "distinct (map cu_id tbl) \<Longrightarrow> distinct (map cu_id tbl')" "r' \<in> set tbl' \<Longrightarrow> run_successor tbl r'"
  using assms
  by (auto simp: request_command_run_def bind_result_Inr_iff Let_def run_successor_def split: option.splits if_splits)

lemma run_step_successor:
  assumes "run_step tbl tbl'" "distinct (map cu_id tbl)"
  shows "distinct (map cu_id tbl') \<and> (\<forall>r' \<in> set tbl'. run_successor tbl r')"
  using assms(1)
proof (cases rule: run_step.cases)
  case (request trace node ty rid p cid idem uuid clock r replay)
  with request_successor[OF request] assms(2) show ?thesis by blast
next
  case (running trace rid res clock r)
  then show ?thesis
    using transition_successor transition_ids assms(2) unfolding mark_running_def by metis
next
  case (verifying trace rid res clock r)
  then show ?thesis
    using transition_successor transition_ids assms(2) unfolding mark_verifying_def by metis
next
  case (terminal trace rid status res err clock r)
  then have "transition trace tbl rid status res err clock = Inr (tbl', r)"
    by (simp add: mark_terminal_def split: if_splits)
  then show ?thesis using transition_successor transition_ids assms(2) by metis
qed

lemma run_successorE:
  assumes "run_successor tbl r'"
  obtains (added) "cu_id r' \<notin> set (map cu_id tbl)" "cu_status r' = ''accepted''" "cu_completed_at r' = None"
  | (same) "r' \<in> set tbl"
  | (moved) r where "r \<in> set tbl" "cu_id r' = cu_id r" "\<not> run_terminal (cu_status r)" "cu_status r \<noteq> cu_status r'"
      "legal_transition command_domain (cu_status r) (cu_status r')"
      "cu_completed_at r = None \<longrightarrow> (cu_completed_at r' \<noteq> None \<longleftrightarrow> run_terminal (cu_status r'))"
  using assms unfolding run_successor_def
  apply (elim disjE bexE conjE)
  subgoal by (rule that(1))
  subgoal by (rule that(2))
  subgoal by (rule that(3))
  done

lemma successor_ok:
  assumes "runs_ok tbl" "run_successor tbl r'"
  shows "run_state (cu_status r')"
    and "run_terminal (cu_status r') \<longleftrightarrow> cu_completed_at r' \<noteq> None"
proof -
  from assms(2) have "run_state (cu_status r')
      \<and> (run_terminal (cu_status r') \<longleftrightarrow> cu_completed_at r' \<noteq> None)"
  proof (cases rule: run_successorE)
    case added
    then show ?thesis by (simp add: run_terminal_def run_state_def)
  next
    case same
    with assms(1) show ?thesis by (simp add: runs_ok_def)
  next
    case (moved r)
    then have "cu_completed_at r = None" using assms(1) by (auto simp: runs_ok_def)
    moreover have "run_state (cu_status r')"
      using moved(4,5) unfolding command_edges by (elim disjE insertE) (simp_all add: run_state_def)
    ultimately show ?thesis using moved(6) by simp
  qed
  then show "run_state (cu_status r')"
    and "run_terminal (cu_status r') \<longleftrightarrow> cu_completed_at r' \<noteq> None" by simp_all
qed

interpretation run_store: invariant_store "[]" run_step runs_ok
proof
  show "runs_ok []" by (simp add: runs_ok_def)
next
  fix tbl tbl' assume ok: "runs_ok tbl" and step: "run_step tbl tbl'"
  have "distinct (map cu_id tbl)" using ok by (simp add: runs_ok_def)
  then have "distinct (map cu_id tbl')" "\<forall>r' \<in> set tbl'. run_successor tbl r'"
    using run_step_successor[OF step] by simp_all
  with successor_ok[OF ok] show "runs_ok tbl'" by (simp add: runs_ok_def)
qed

text \<open>
  Command runs follow the frozen lifecycle: in every reachable table, each operation only appends
  runs in accepted or moves a run along one edge of the descriptor; a terminal run never changes again,
  and a run becomes completed only from verifying, so a command is never reported complete without
  the verification step.
\<close>

theorem command_run_lifecycle:
  assumes reach: "run_step\<^sup>*\<^sup>* [] tbl" and step: "run_step tbl tbl'" and r': "r' \<in> set tbl'" "r' \<notin> set tbl"
  shows "(cu_id r' \<notin> set (map cu_id tbl) \<and> cu_status r' = ''accepted'')
    \<or> (\<exists>r \<in> set tbl. cu_id r = cu_id r' \<and> \<not> run_terminal (cu_status r)
         \<and> legal_transition command_domain (cu_status r) (cu_status r')
         \<and> (cu_status r' = ''completed'' \<longrightarrow> cu_status r = ''verifying''))"
proof -
  have ok: "runs_ok tbl" using run_store.reachable_inv[OF reach] .
  then have "run_successor tbl r'" using run_step_successor[OF step] r'(1) by (simp add: runs_ok_def)
  then show ?thesis
  proof (cases rule: run_successorE)
    case (moved r)
    have "cu_status r = ''verifying''" if "cu_status r' = ''completed''"
      using moved(4,5) that unfolding command_edges by (elim disjE insertE) simp_all
    with moved show ?thesis by (intro disjI2 bexI[of _ r]) simp_all
  qed (use r'(2) in simp_all)
qed

definition run_example :: "string \<Rightarrow> command_run" where
  "run_example status =
     \<lparr> cu_id = ''u1'', cu_command_id = None, cu_node_id = ''n1'', cu_command_type = ''CANCEL_ALL'',
       cu_request_id = ''r1'', cu_idempotency_key = ''r1'', cu_status = status,
       cu_payload = [(''request_id'', ''r1''), (''trace_id'', ''t'')], cu_started_at = 0, cu_completed_at = None,
       cu_created_at = 0 \<rparr>"

lemma run_example_step: "run_step [] [run_example ''accepted'']"
proof -
  have "require_text (Some ''n1'') = Inr ''n1''" "require_text (Some ''CANCEL_ALL'') = Inr ''CANCEL_ALL''"
    "require_text (Some ''r1'') = Inr ''r1''" by code_simp+
  then have "request_command_run (\<lambda>_ _. ''t'') [] (Some ''n1'') (Some ''CANCEL_ALL'') (Some ''r1'') [] None None ''u1'' 0 =
      Inr ([run_example ''accepted''], run_example ''accepted'', False)"
    by (simp add: request_command_run_def run_example_def inject_trace_def setdefault_def Let_def)
  then show ?thesis by (rule run_step.request)
qed

theorem command_run_lifecycle_witness: "cu_status (run_example ''accepted'') = ''accepted''"
  using command_run_lifecycle[OF rtranclp.rtrancl_refl run_example_step, of "run_example ''accepted''"] by simp

end
