(* ===== verification/Json.thy ===== *)
theory Json
  imports Rounding Py_Text "HOL-Library.AList"
begin

text \<open>
  The JSON values of event and order payloads, as the services read them. A string that spells a
  decimal number is \<open>JDec\<close> with its value, any other string \<open>JStr\<close>, so that
  \<open>Decimal(str(v))\<close> is a case distinction and \<open>str(Decimal)\<close> its inverse. An object is an
  association list with the keys in order; updating a key keeps its place, as in a dict.
\<close>

datatype json =
    JNull
  | JBool bool
  | JNum rat
  | JDec rat
  | JStr string
  | JList "json list"
  | JObj "(string \<times> json) list"

type_synonym dict = "(string \<times> json) list"

definition jget :: "dict \<Rightarrow> string \<Rightarrow> json" where
  "jget d k = (case map_of d k of Some v \<Rightarrow> v | None \<Rightarrow> JNull)"

text \<open>\<open>d.get(k, dflt)\<close>: an explicit null is not the default.\<close>

definition jget_or :: "dict \<Rightarrow> string \<Rightarrow> json \<Rightarrow> json" where
  "jget_or d k dflt = (case map_of d k of Some v \<Rightarrow> v | None \<Rightarrow> dflt)"

definition has_key :: "dict \<Rightarrow> string \<Rightarrow> bool" where
  "has_key d k = (map_of d k \<noteq> None)"

text \<open>Python's truth value.\<close>

fun truthy :: "json \<Rightarrow> bool" where
  "truthy JNull = False"
| "truthy (JBool b) = b"
| "truthy (JNum x) = (x \<noteq> 0)"
| "truthy (JDec x) = True"
| "truthy (JStr s) = (s \<noteq> [])"
| "truthy (JList xs) = (xs \<noteq> [])"
| "truthy (JObj d) = (d \<noteq> [])"

definition jor :: "json \<Rightarrow> json \<Rightarrow> json" where
  "jor a b = (if truthy a then a else b)"

text \<open>\<open>decimal_or_none\<close>: a number, a numeric string, or nothing.\<close>

fun decimal_or_none :: "json \<Rightarrow> rat option" where
  "decimal_or_none (JNum x) = Some x"
| "decimal_or_none (JDec x) = Some x"
| "decimal_or_none _ = None"

text \<open>
  \<open>str\<close> of a field. A number is written in its shortest decimal form: identifiers made of digits
  read back as they were written, and the spelling of a fraction (trailing zeros) is not kept.
\<close>

fun show_nat :: "nat \<Rightarrow> string" where
  "show_nat n = (if n < 10 then [char_of (48 + n)] else show_nat (n div 10) @ [char_of (48 + n mod 10)])"

declare show_nat.simps [simp del]

definition show_dec :: "rat \<Rightarrow> string" where
  "show_dec x =
     (let n = (case List.find (\<lambda>n. x * 10 ^ n = of_int \<lfloor>x * 10 ^ n\<rfloor>) [0..<64] of Some n \<Rightarrow> n | None \<Rightarrow> 64);
          k = nat \<lfloor>\<bar>x\<bar> * 10 ^ n\<rfloor>;
          frac = show_nat (k mod 10 ^ n)
      in (if x < 0 then ''-'' else []) @ show_nat (k div 10 ^ n) @
         (if n = 0 then [] else CHR ''.'' # replicate (n - length frac) CHR ''0'' @ frac))"

fun json_str :: "json \<Rightarrow> string" where
  "json_str (JStr s) = s"
| "json_str (JBool True) = ''True''"
| "json_str (JBool False) = ''False''"
| "json_str JNull = ''None''"
| "json_str (JNum x) = show_dec x"
| "json_str (JDec x) = show_dec x"
| "json_str _ = []"

text \<open>\<open>str(a or b or dflt)\<close>.\<close>

definition str_or :: "json list \<Rightarrow> string \<Rightarrow> string" where
  "str_or vs dflt = (case List.find truthy vs of Some v \<Rightarrow> json_str v | None \<Rightarrow> dflt)"

definition dict_update :: "dict \<Rightarrow> dict \<Rightarrow> dict" where
  "dict_update d e = foldl (\<lambda>acc (k, v). AList.update k v acc) d e"

definition dict_set :: "dict \<Rightarrow> string \<Rightarrow> json \<Rightarrow> dict" where
  "dict_set d k v = AList.update k v d"

text \<open>
  A message put together by an f-string, as its parts: literal text, a number printed in it, and an
  instant or a duration printed in it.
\<close>

datatype part = PText string | PDec rat | PInstant instant | PDuration duration

type_synonym msg = "part list"

lemma jget_or_dict_set [simp]: "jget_or (dict_set d k v) k' x = (if k' = k then v else jget_or d k' x)"
  by (simp add: jget_or_def dict_set_def AList.update_conv)

lemma has_key_dict_set [simp]: "has_key (dict_set d k v) k' \<longleftrightarrow> k' = k \<or> has_key d k'"
  by (simp add: has_key_def dict_set_def AList.update_conv)

lemma jget_dict_set [simp]: "jget (dict_set d k v) k' = (if k' = k then v else jget d k')"
  by (simp add: jget_def dict_set_def AList.update_conv)

lemma dict_set_has [simp]: "k' \<in> fst ` set (dict_set d k v) \<longleftrightarrow> k' = k \<or> k' \<in> fst ` set d"
  unfolding dict_set_def using AList.dom_update[of k v d] by (auto simp: dom_map_of_conv_image_fst)

end
