(* ===== verification/Order_Reducer.thy ===== *)
theory Order_Reducer
  imports Json Identifiers State_Descriptor
    "HOL-Library.Product_Lexorder" "HOL-Library.List_Lexorder" "HOL-Library.Char_ord"
begin

text \<open>
  \<open>services/control-plane/order_management/order_reducer.py\<close> with \<open>db_helpers.py\<close>: execution
  events of an order, from the node's stream, folded into one row of \<open>orders_projection\<close>. The
  tables are lists of rows; a missing event time is the clock; generated row ids come from the
  parameter \<open>fresh\<close>.
\<close>

record order_event =
  oe_event_id :: string
  oe_event_type :: string
  oe_account_id :: "string option"
  oe_client_order_id :: "string option"
  oe_venue_order_id :: "string option"
  oe_trade_id :: "string option"
  oe_intent_id :: "string option"
  oe_execution_job_id :: "string option"
  oe_instrument_id :: "string option"
  oe_ts_event :: "instant option"
  oe_payload :: dict

text \<open>The event after \<open>_normalize_event\<close>, and its durable copy in \<open>execution_events\<close>.\<close>

record normal_event =
  ne_event_id :: string
  ne_event_type :: string
  ne_account_id :: account_id
  ne_client_order_id :: string
  ne_venue_order_id :: "string option"
  ne_trade_id :: "string option"
  ne_intent_id :: "string option"
  ne_execution_job_id :: "string option"
  ne_ts_event :: instant
  ne_payload :: dict

record order_row =
  or_id :: string
  or_account_id :: account_id
  or_instrument_id :: string
  or_venue_symbol :: symbol
  or_intent_id :: "string option"
  or_client_order_id :: string
  or_venue_order_id :: "string option"
  or_status :: string
  or_side :: "string option"
  or_order_type :: json
  or_quantity :: "rat option"
  or_filled_quantity :: rat
  or_price :: "rat option"
  or_average_fill_price :: "rat option"
  or_lifecycle_role :: json
  or_updated_from_event_id :: string
  or_ts_event :: "instant option"
  or_payload :: dict

record order_event_row =
  ow_event_id :: string
  ow_account_id :: account_id
  ow_order_projection_id :: "string option"
  ow_client_order_id :: string
  ow_event_type :: string
  ow_ts_event :: instant
  ow_payload :: dict

record order_finding =
  of_id :: string
  of_run_id :: string
  of_account_id :: account_id
  of_finding_type :: string
  of_severity :: string
  of_order_projection_id :: "string option"
  of_event_id :: string
  of_from_status :: string
  of_to_status :: string

record projection_db =
  pj_execution_events :: "normal_event list"
  pj_orders :: "order_row list"
  pj_order_events :: "order_event_row list"
  pj_reconciliation_runs :: "(string \<times> account_id \<times> string \<times> string) list"
  pj_findings :: "order_finding list"

record OrderApplyResult =
  ap_event_id :: string
  ap_status :: "string option"
  ap_applied :: bool
  ap_duplicate :: bool
  ap_anomaly :: "order_finding option"

section \<open>Normalisation and durable copies\<close>

definition normalize_event :: "order_event \<Rightarrow> instant \<Rightarrow> normal_event result" where
  "normalize_event ev clock =
     bind_result (canonical_account_id (oe_account_id ev)) (\<lambda>a.
       let falsy = (\<lambda>s. s = []);
           p = oe_payload ev;
           cid = (case or_else falsy (oe_client_order_id ev) None of
                    Some c \<Rightarrow> c
                  | None \<Rightarrow>
                      if truthy (jget p ''client_order_id'') then json_str (jget p ''client_order_id'')
                      else (case or_else falsy (oe_venue_order_id ev) None of
                              Some v \<Rightarrow> ''venue:'' @ v
                            | None \<Rightarrow> ''event:'' @ oe_event_id ev));
           p' = (if ''instrument_id'' \<notin> set (map fst p)
                 then (case or_else falsy (oe_instrument_id ev) None of
                         Some i \<Rightarrow> dict_set p ''instrument_id'' (JStr i) | None \<Rightarrow> p)
                 else p)
       in Inr \<lparr> ne_event_id = oe_event_id ev, ne_event_type = oe_event_type ev, ne_account_id = a,
                ne_client_order_id = cid, ne_venue_order_id = oe_venue_order_id ev,
                ne_trade_id = oe_trade_id ev, ne_intent_id = oe_intent_id ev,
                ne_execution_job_id = oe_execution_job_id ev,
                ne_ts_event = (case oe_ts_event ev of Some t \<Rightarrow> t | None \<Rightarrow> clock), ne_payload = p' \<rparr>)"

definition order_event_seen :: "projection_db \<Rightarrow> string \<Rightarrow> bool" where
  "order_event_seen db eid = (eid \<in> set (map ow_event_id (pj_order_events db)))"

definition fetch_order :: "projection_db \<Rightarrow> account_id \<Rightarrow> string \<Rightarrow> order_row option" where
  "fetch_order db a cid = List.find (\<lambda>r. or_account_id r = a \<and> or_client_order_id r = cid) (pj_orders db)"

definition ensure_execution_event :: "projection_db \<Rightarrow> normal_event \<Rightarrow> projection_db" where
  "ensure_execution_event db n =
     (if ne_event_id n \<in> set (map ne_event_id (pj_execution_events db)) then db
      else db \<lparr> pj_execution_events := pj_execution_events db @ [n] \<rparr>)"

definition insert_order_event :: "projection_db \<Rightarrow> normal_event \<Rightarrow> string option \<Rightarrow> projection_db" where
  "insert_order_event db n oid =
     (if order_event_seen db (ne_event_id n) then db
      else db \<lparr> pj_order_events := pj_order_events db @
        [\<lparr> ow_event_id = ne_event_id n, ow_account_id = ne_account_id n, ow_order_projection_id = oid,
           ow_client_order_id = ne_client_order_id n, ow_event_type = ne_event_type n,
           ow_ts_event = ne_ts_event n, ow_payload = ne_payload n \<rparr>] \<rparr>)"

section \<open>Reducing the durable fills\<close>

record fill_acc =
  fa_total :: rat
  fa_delta_total :: rat
  fa_value_total :: rat
  fa_priced_total :: rat
  fa_seen :: "(string \<times> string) list"
  fa_group_time :: "instant option"
  fa_anchor :: rat
  fa_averages :: "(rat \<times> rat) list"

definition fill_acc_init :: fill_acc where
  "fill_acc_init =
     \<lparr> fa_total = 0, fa_delta_total = 0, fa_value_total = 0, fa_priced_total = 0, fa_seen = [],
       fa_group_time = None, fa_anchor = 0, fa_averages = [] \<rparr>"

definition fill_fields :: "dict \<Rightarrow> dict" where
  "fill_fields p = (case jget p ''order'' of JObj o' \<Rightarrow> dict_update p o' | _ \<Rightarrow> p)"

definition fill_identity :: "normal_event \<Rightarrow> string \<times> string" where
  "fill_identity e =
     (case or_else (\<lambda>s. s = []) (ne_trade_id e) None of
        Some t \<Rightarrow> (''trade'', t) | None \<Rightarrow> (''event'', ne_event_id e))"

text \<open>A new time stamp settles the cumulative anchor of the previous one.\<close>

definition fill_group :: "fill_acc \<Rightarrow> instant \<Rightarrow> fill_acc" where
  "fill_group acc t =
     (if fa_group_time acc \<noteq> Some t
      then acc \<lparr> fa_total := max (fa_total acc) (fa_anchor acc), fa_anchor := 0, fa_group_time := Some t \<rparr>
      else acc)"

definition fill_negative :: "rat option \<Rightarrow> bool" where
  "fill_negative v = (case v of None \<Rightarrow> False | Some x \<Rightarrow> x < 0)"

definition fill_step :: "fill_acc \<Rightarrow> normal_event \<Rightarrow> fill_acc result" where
  "fill_step acc0 e =
     (let acc = fill_group acc0 (ne_ts_event e);
          p = fill_fields (ne_payload e);
          cumulative = decimal_or_none (jget p ''filled_qty'');
          delta = decimal_or_none (jget p ''last_qty'');
          price = decimal_or_none (jget p ''last_px'');
          identity = fill_identity e;
          duplicate = (identity \<in> set (fa_seen acc));
          anchored = (case cumulative of None \<Rightarrow> False | Some c \<Rightarrow> 0 < c);
          acc1 = acc \<lparr> fa_seen := identity # fa_seen acc \<rparr>;
          acc2 = (if anchored
                  then acc1 \<lparr> fa_anchor := max (fa_anchor acc1) (the cumulative),
                             fa_averages := (case decimal_or_none (jor (jget p ''avg_px'') (jget p ''average_fill_price'')) of
                                Some av \<Rightarrow> if 0 \<le> av then fa_averages acc1 @ [(the cumulative, av)] else fa_averages acc1
                              | None \<Rightarrow> fa_averages acc1) \<rparr>
                  else if \<not> duplicate \<and> delta \<noteq> None
                  then acc1 \<lparr> fa_total := dadd (fa_total acc1) (the delta) \<rparr>
                  else acc1);
          acc3 = (if \<not> duplicate \<and> delta \<noteq> None
                  then (case price of
                          None \<Rightarrow> acc2 \<lparr> fa_delta_total := dadd (fa_delta_total acc2) (the delta) \<rparr>
                        | Some px \<Rightarrow> acc2 \<lparr> fa_delta_total := dadd (fa_delta_total acc2) (the delta),
                                           fa_priced_total := dadd (fa_priced_total acc2) (the delta),
                                           fa_value_total := dadd (fa_value_total acc2) (dmul (the delta) px) \<rparr>)
                  else acc2)
      in if fill_negative cumulative \<or> fill_negative delta \<or> fill_negative price then Inl ValueError else Inr acc3)"

fun fill_loop :: "fill_acc \<Rightarrow> normal_event list \<Rightarrow> fill_acc result" where
  "fill_loop acc [] = Inr acc"
| "fill_loop acc (e # es) = bind_result (fill_step acc e) (\<lambda>acc'. fill_loop acc' es)"

definition order_fills :: "projection_db \<Rightarrow> account_id \<Rightarrow> string \<Rightarrow> normal_event list" where
  "order_fills db a cid =
     sort_key (\<lambda>e. (ne_ts_event e, ne_event_id e))
       (filter (\<lambda>e. ne_account_id e = a \<and> ne_client_order_id e = cid \<and> ne_event_type e = ''OrderFilled'')
         (pj_execution_events db))"

definition fill_average :: "fill_acc \<Rightarrow> rat \<Rightarrow> json" where
  "fill_average acc tot =
     (if 0 < tot \<and> fa_priced_total acc = fa_delta_total acc \<and> fa_delta_total acc = tot
      then JDec (ddiv (fa_value_total acc) tot)
      else foldl (\<lambda>r (c, av). if c = tot then JDec av else r) JNull (fa_averages acc))"

definition reduce_fills :: "projection_db \<Rightarrow> normal_event \<Rightarrow> order_row option \<Rightarrow> dict result" where
  "reduce_fills db n current =
     bind_result (fill_loop fill_acc_init (order_fills db (ne_account_id n) (ne_client_order_id n))) (\<lambda>acc.
       let total0 = max (fa_total acc) (fa_anchor acc);
           tot = (case current of None \<Rightarrow> total0 | Some r \<Rightarrow> max total0 (or_filled_quantity r));
           p = ne_payload n;
           p1 = (case current of
                   None \<Rightarrow> p
                 | Some r \<Rightarrow>
                     if jget p ''quantity'' = JNull \<and> jget p ''qty'' = JNull
                     then (case or_quantity r of Some q \<Rightarrow> dict_set p ''quantity'' (JDec q) | None \<Rightarrow> p)
                     else p);
           p2 = dict_set p1 ''filled_qty'' (JDec tot)
       in Inr (dict_set p2 ''avg_px'' (fill_average acc tot)))"

section \<open>The projection row\<close>

definition order_side :: "dict \<Rightarrow> string option" where
  "order_side p =
     (let r = lower (str_or [jget p ''side'', jget p ''order_side''] [])
      in if r \<in> {''buy'', ''long''} then Some ''long''
         else if r \<in> {''sell'', ''short''} then Some ''short'' else None)"

definition explicit_target :: "dict \<Rightarrow> string option" where
  "explicit_target p =
     (case jget p ''target_status'' of
        JNull \<Rightarrow> None
      | v \<Rightarrow> if json_str v \<in> set (map fst (d_states order_domain)) then Some (json_str v) else None)"

definition fill_view :: "dict \<Rightarrow> fill_payload" where
  "fill_view p =
     \<lparr> p_quantity = decimal_or_none (jor (jget p ''quantity'') (jget p ''qty'')),
       p_filled_qty = decimal_or_none (jget p ''filled_qty''),
       p_leaves_qty = decimal_or_none (jget p ''leaves_qty'') \<rparr>"

definition projected_row ::
    "normal_event \<Rightarrow> string \<Rightarrow> string \<Rightarrow> order_row option \<Rightarrow> order_row" where
  "projected_row n oid status current =
     (let p = ne_payload n;
          instrument = str_or [jget p ''instrument_id''] ''UNKNOWN'';
          filled = (case or_else (\<lambda>x. x = 0) (decimal_or_none (jget p ''filled_qty''))
                      (or_else (\<lambda>x. x = 0) (map_option or_filled_quantity current) (Some 0)) of
                      Some f \<Rightarrow> f | None \<Rightarrow> 0)
      in \<lparr> or_id = oid, or_account_id = ne_account_id n, or_instrument_id = instrument,
           or_venue_symbol = canonical_instrument_key instrument, or_intent_id = ne_intent_id n,
           or_client_order_id = ne_client_order_id n, or_venue_order_id = ne_venue_order_id n,
           or_status = status, or_side = order_side p, or_order_type = jget p ''order_type'',
           or_quantity = decimal_or_none (jor (jget p ''quantity'') (jget p ''qty'')),
           or_filled_quantity = filled, or_price = decimal_or_none (jget p ''price''),
           or_average_fill_price = decimal_or_none (jor (jget p ''avg_px'') (jget p ''average_fill_price'')),
           or_lifecycle_role = jget p ''lifecycle_role'', or_updated_from_event_id = ne_event_id n,
           or_ts_event = Some (ne_ts_event n), or_payload = p \<rparr>)"

definition coalesce :: "'a option \<Rightarrow> 'a option \<Rightarrow> 'a option" where
  "coalesce a b = (case a of None \<Rightarrow> b | Some x \<Rightarrow> Some x)"

definition coalesce_json :: "json \<Rightarrow> json \<Rightarrow> json" where
  "coalesce_json a b = (if a = JNull then b else a)"

text \<open>ON CONFLICT DO UPDATE: the excluded row merged into the stored one.\<close>

definition merge_row :: "order_row \<Rightarrow> order_row \<Rightarrow> order_row" where
  "merge_row excl old =
     \<lparr> or_id = or_id old, or_account_id = or_account_id old, or_instrument_id = or_instrument_id excl,
       or_venue_symbol = or_venue_symbol excl, or_intent_id = coalesce (or_intent_id excl) (or_intent_id old),
       or_client_order_id = or_client_order_id old,
       or_venue_order_id = coalesce (or_venue_order_id excl) (or_venue_order_id old),
       or_status = or_status excl, or_side = coalesce (or_side excl) (or_side old),
       or_order_type = coalesce_json (or_order_type excl) (or_order_type old),
       or_quantity = coalesce (or_quantity excl) (or_quantity old),
       or_filled_quantity = max (or_filled_quantity excl) (or_filled_quantity old),
       or_price = coalesce (or_price excl) (or_price old),
       or_average_fill_price = (if ''avg_px'' \<in> set (map fst (or_payload excl)) then or_average_fill_price excl
                                else coalesce (or_average_fill_price excl) (or_average_fill_price old)),
       or_lifecycle_role = coalesce_json (or_lifecycle_role excl) (or_lifecycle_role old),
       or_updated_from_event_id = or_updated_from_event_id excl,
       or_ts_event = (case (or_ts_event excl, or_ts_event old) of
                        (Some t, Some t') \<Rightarrow> Some (max t t') | (t, None) \<Rightarrow> t | (None, t') \<Rightarrow> t'),
       or_payload = dict_update (or_payload old) (or_payload excl) \<rparr>"

definition upsert_order_projection ::
    "projection_db \<Rightarrow> normal_event \<Rightarrow> string \<Rightarrow> string \<Rightarrow> order_row option \<Rightarrow> projection_db \<times> string" where
  "upsert_order_projection db n oid status current =
     (let excl = projected_row n oid status current;
          same = (\<lambda>r. or_account_id r = ne_account_id n \<and> or_client_order_id r = ne_client_order_id n)
      in case List.find same (pj_orders db) of
           None \<Rightarrow> (db \<lparr> pj_orders := pj_orders db @ [excl] \<rparr>, oid)
         | Some r \<Rightarrow> (db \<lparr> pj_orders := update_where same (merge_row excl) (pj_orders db) \<rparr>, or_id r))"

section \<open>Applying an event\<close>

definition order_target :: "normal_event \<Rightarrow> order_row option \<Rightarrow> bool \<Rightarrow> string result" where
  "order_target n current has_fills =
     (let current_status = map_option or_status current;
          view = fill_view (ne_payload n)
      in bind_result (event_target_order (ne_event_type n) view) (\<lambda>t0.
         bind_result (event_target_order ''OrderFilled'' view) (\<lambda>tf.
           let t1 = (case t0 of Some t \<Rightarrow> Some t
                     | None \<Rightarrow> transition_target order_domain current_status (ne_event_type n));
               t2 = (case t1 of Some t \<Rightarrow> t
                     | None \<Rightarrow> (case explicit_target (ne_payload n) of Some t \<Rightarrow> t | None \<Rightarrow> ''lost''));
               t3 = (if t2 = ''self'' then (case current_status of Some c \<Rightarrow> c | None \<Rightarrow> ''submitted'') else t2)
           in Inr (if has_fills \<and> tf = Some ''filled''
                      \<and> (case current_status of None \<Rightarrow> True | Some c \<Rightarrow> legal_transition order_domain c ''filled'')
                   then ''filled'' else t3))))"

definition stale_backfill :: "normal_event \<Rightarrow> order_row \<Rightarrow> string \<Rightarrow> bool \<Rightarrow> bool" where
  "stale_backfill n current target has_fills =
     ((case or_ts_event current of None \<Rightarrow> False | Some t \<Rightarrow> ne_ts_event n < t)
      \<and> state_rank order_domain (Some target) \<le> state_rank order_domain (Some (or_status current))
      \<and> \<not> (has_fills \<and> target = ''filled''))"

datatype settlement = Apply string | Keep | Anomaly

text \<open>What becomes of the target: written as it is, replaced, kept out, or reported.\<close>

definition settle :: "normal_event \<Rightarrow> order_row option \<Rightarrow> bool \<Rightarrow> string \<Rightarrow> settlement" where
  "settle n current has_fills target =
     (case current of
        None \<Rightarrow> Apply target
      | Some r \<Rightarrow>
          if target = or_status r then Apply target
          else if stale_backfill n r target has_fills \<and> \<not> has_fills then Keep
          else (let target1 = (if stale_backfill n r target has_fills then or_status r else target)
                in if legal_transition order_domain (or_status r) target1 then Apply target1
                   else if has_fills then Apply (or_status r) else Anomaly))"

definition record_order_finding ::
    "projection_db \<Rightarrow> normal_event \<Rightarrow> order_row \<Rightarrow> string \<Rightarrow> (nat \<Rightarrow> string) \<Rightarrow> projection_db \<times> order_finding" where
  "record_order_finding db n r target fresh =
     (let f = \<lparr> of_id = fresh 2, of_run_id = fresh 1, of_account_id = ne_account_id n,
                of_finding_type = ''illegal_order_transition'', of_severity = ''error'',
                of_order_projection_id = Some (or_id r), of_event_id = ne_event_id n,
                of_from_status = or_status r, of_to_status = target \<rparr>
      in (db \<lparr> pj_reconciliation_runs := pj_reconciliation_runs db @
                 [(fresh 1, ne_account_id n, ''failed'', ''projection_anomaly'')],
               pj_findings := pj_findings db @ [f] \<rparr>, f))"

definition apply_settlement ::
    "projection_db \<Rightarrow> normal_event \<Rightarrow> order_row option \<Rightarrow> bool \<Rightarrow> string \<Rightarrow> (nat \<Rightarrow> string) \<Rightarrow>
     projection_db \<times> OrderApplyResult" where
  "apply_settlement db n current has_fills target fresh =
     (let res = \<lparr> ap_event_id = ne_event_id n, ap_status = map_option or_status current, ap_applied = False,
                  ap_duplicate = False, ap_anomaly = None \<rparr>
      in case settle n current has_fills target of
           Keep \<Rightarrow> (insert_order_event db n (map_option or_id current), res)
         | Anomaly \<Rightarrow>
             (let (db1, f) = record_order_finding db n (the current) target fresh
              in (insert_order_event db1 n (map_option or_id current), res \<lparr> ap_anomaly := Some f \<rparr>))
         | Apply t \<Rightarrow>
             (let (db1, oid) = upsert_order_projection db n
                    (case current of Some r \<Rightarrow> or_id r | None \<Rightarrow> fresh 0) t current
              in (insert_order_event db1 n (Some oid), res \<lparr> ap_status := Some t, ap_applied := True \<rparr>)))"

definition order_has_fills :: "normal_event \<Rightarrow> order_row option \<Rightarrow> bool" where
  "order_has_fills n current =
     (ne_event_type n = ''OrderFilled'' \<or> (case current of None \<Rightarrow> False | Some r \<Rightarrow> or_filled_quantity r \<noteq> 0))"

definition apply_new_event ::
    "projection_db \<Rightarrow> normal_event \<Rightarrow> (nat \<Rightarrow> string) \<Rightarrow> (projection_db \<times> OrderApplyResult) result" where
  "apply_new_event db0 n0 fresh =
     (let db = ensure_execution_event db0 n0;
          current = fetch_order db (ne_account_id n0) (ne_client_order_id n0);
          has_fills = order_has_fills n0 current
      in bind_result (if has_fills then reduce_fills db n0 current else Inr (ne_payload n0)) (\<lambda>p.
           let n = n0 \<lparr> ne_payload := p \<rparr>
           in bind_result (order_target n current has_fills) (\<lambda>target.
                Inr (apply_settlement db n current has_fills target fresh))))"

definition apply_event ::
    "projection_db \<Rightarrow> order_event \<Rightarrow> instant \<Rightarrow> (nat \<Rightarrow> string) \<Rightarrow> (projection_db \<times> OrderApplyResult) result" where
  "apply_event db ev clock fresh =
     bind_result (normalize_event ev clock) (\<lambda>n.
       if order_event_seen db (ne_event_id n)
       then Inr (db, \<lparr> ap_event_id = ne_event_id n,
                       ap_status = map_option or_status (fetch_order db (ne_account_id n) (ne_client_order_id n)),
                       ap_applied = False, ap_duplicate = True, ap_anomaly = None \<rparr>)
       else apply_new_event db n fresh)"

section \<open>Rows only move forward\<close>

lemma ensure_execution_event_other [simp]:
  "pj_orders (ensure_execution_event db n) = pj_orders db"
  "pj_order_events (ensure_execution_event db n) = pj_order_events db"
  "fetch_order (ensure_execution_event db n) a cid = fetch_order db a cid"
  "order_event_seen (ensure_execution_event db n) eid = order_event_seen db eid"
  by (simp_all add: ensure_execution_event_def fetch_order_def order_event_seen_def)

lemma insert_order_event_other [simp]:
  "pj_orders (insert_order_event db n oid) = pj_orders db"
  "pj_execution_events (insert_order_event db n oid) = pj_execution_events db"
  "order_event_seen (insert_order_event db n oid) (ne_event_id n)"
  by (simp_all add: insert_order_event_def order_event_seen_def)

definition orders_ok :: "projection_db \<Rightarrow> bool" where
  "orders_ok db = distinct (map (\<lambda>r. (or_account_id r, or_client_order_id r)) (pj_orders db))"

text \<open>What a later version of a row keeps of an earlier one.\<close>

definition row_advances :: "order_row \<Rightarrow> order_row \<Rightarrow> bool" where
  "row_advances r r' =
     (or_id r' = or_id r \<and> or_account_id r' = or_account_id r \<and> or_client_order_id r' = or_client_order_id r
      \<and> or_filled_quantity r \<le> or_filled_quantity r'
      \<and> legal_transition order_domain (or_status r) (or_status r'))"

lemma row_advances_refl [simp]: "row_advances r r"
  by (simp add: row_advances_def legal_transition_def)

lemma settle_legal:
  "settle n (Some r) has_fills target = Apply t \<Longrightarrow> legal_transition order_domain (or_status r) t"
  by (auto simp: settle_def Let_def legal_transition_def[of _ "or_status r" "or_status r"] split: if_splits)

lemma merge_row_simps [simp]:
  "or_id (merge_row e r) = or_id r" "or_account_id (merge_row e r) = or_account_id r"
  "or_client_order_id (merge_row e r) = or_client_order_id r" "or_status (merge_row e r) = or_status e"
  "or_filled_quantity (merge_row e r) = max (or_filled_quantity e) (or_filled_quantity r)"
  by (simp_all add: merge_row_def)

lemma projected_row_simps [simp]:
  "or_id (projected_row n oid st cur) = oid" "or_status (projected_row n oid st cur) = st"
  "or_account_id (projected_row n oid st cur) = ne_account_id n"
  "or_client_order_id (projected_row n oid st cur) = ne_client_order_id n"
  by (simp_all add: projected_row_def Let_def)

definition same_order :: "normal_event \<Rightarrow> order_row \<Rightarrow> bool" where
  "same_order n r = (or_account_id r = ne_account_id n \<and> or_client_order_id r = ne_client_order_id n)"

lemma upsert_orders:
  assumes "fetch_order db (ne_account_id n) (ne_client_order_id n) = current"
  shows "pj_orders (fst (upsert_order_projection db n oid st cur)) =
    (case current of None \<Rightarrow> pj_orders db @ [projected_row n oid st cur]
     | Some r \<Rightarrow> update_where (same_order n) (merge_row (projected_row n oid st cur)) (pj_orders db))"
  using assms
  by (auto simp: upsert_order_projection_def fetch_order_def same_order_def[abs_def] Let_def split: option.splits)

lemma apply_settlement_orders:
  assumes "fetch_order db (ne_account_id n) (ne_client_order_id n) = current"
  shows "pj_orders (fst (apply_settlement db n current has_fills target fresh)) =
    (case settle n current has_fills target of
       Apply t \<Rightarrow> pj_orders (fst (upsert_order_projection db n
                    (case current of Some r \<Rightarrow> or_id r | None \<Rightarrow> fresh 0) t current))
     | _ \<Rightarrow> pj_orders db)"
  by (auto simp: apply_settlement_def record_order_finding_def Let_def split: settlement.splits prod.splits)

lemma apply_settlement_advances:
  assumes ok: "orders_ok db" and cur: "fetch_order db (ne_account_id n) (ne_client_order_id n) = current"
  shows "orders_ok (fst (apply_settlement db n current has_fills target fresh))"
    and "\<forall>r \<in> set (pj_orders db). \<exists>r' \<in> set (pj_orders (fst (apply_settlement db n current has_fills target fresh))).
           row_advances r r'"
proof -
  let ?db' = "fst (apply_settlement db n current has_fills target fresh)"
  have "orders_ok ?db' \<and> (\<forall>r \<in> set (pj_orders db). \<exists>r' \<in> set (pj_orders ?db'). row_advances r r')"
  proof (cases "\<exists>t. settle n current has_fills target = Apply t")
    case False
    then have "pj_orders ?db' = pj_orders db"
      using apply_settlement_orders[OF cur] by (auto split: settlement.splits)
    with ok show ?thesis by (auto simp: orders_ok_def intro: row_advances_refl)
  next
    case True
    then obtain t where t: "settle n current has_fills target = Apply t" by blast
    let ?oid = "case current of Some r \<Rightarrow> or_id r | None \<Rightarrow> fresh 0"
    have rows: "pj_orders ?db' = (case current of None \<Rightarrow> pj_orders db @ [projected_row n ?oid t current]
       | Some r \<Rightarrow> update_where (same_order n) (merge_row (projected_row n ?oid t current)) (pj_orders db))"
      using apply_settlement_orders[OF cur] t upsert_orders[OF cur] by simp
    show ?thesis
    proof (cases current)
      case None
      with cur have "(ne_account_id n, ne_client_order_id n) \<notin> set (map (\<lambda>r. (or_account_id r, or_client_order_id r)) (pj_orders db))"
        by (auto simp: fetch_order_def find_None_iff')
      with ok rows None show ?thesis by (auto simp: orders_ok_def intro: row_advances_refl)
    next
      case (Some c)
      then have c: "c \<in> set (pj_orders db)" "same_order n c"
        using find_SomeD[of _ "pj_orders db" c] cur by (auto simp: fetch_order_def same_order_def)
      have adv: "row_advances r (merge_row (projected_row n ?oid t current) r)"
        if "r \<in> set (pj_orders db)" "same_order n r" for r
      proof -
        have "r = c" using that c ok by (auto simp: same_order_def orders_ok_def distinct_map inj_on_def)
        with settle_legal[OF t[unfolded Some]] show ?thesis by (simp add: row_advances_def)
      qed
      have rows': "pj_orders ?db' = update_where (same_order n) (merge_row (projected_row n ?oid t current)) (pj_orders db)"
        using rows Some by simp
      have "\<exists>r' \<in> set (pj_orders ?db'). row_advances r r'" if "r \<in> set (pj_orders db)" for r
        unfolding rows' set_update_where using adv[OF that] that row_advances_refl by blast
      moreover have "orders_ok ?db'" using ok unfolding orders_ok_def rows' by (subst map_update_where_frame) auto
      ultimately show ?thesis by blast
    qed
  qed
  then show "orders_ok ?db'" "\<forall>r \<in> set (pj_orders db). \<exists>r' \<in> set (pj_orders ?db'). row_advances r r'" by blast+
qed

lemma apply_eventE:
  assumes "apply_event db ev clock fresh = Inr (db', res)"
  obtains (duplicate) n where "normalize_event ev clock = Inr n" "order_event_seen db (ne_event_id n)" "db' = db"
  | (settled) n db1 current has_fills target where
    "ne_event_id n = oe_event_id ev" "pj_orders db1 = pj_orders db"
    "fetch_order db1 (ne_account_id n) (ne_client_order_id n) = current"
    "apply_settlement db1 n current has_fills target fresh = (db', res)"
proof -
  from assms obtain n0 where n0: "normalize_event ev clock = Inr n0"
    by (auto simp: apply_event_def bind_result_Inr_iff)
  have id: "ne_event_id n0 = oe_event_id ev" using n0 by (auto simp: normalize_event_def bind_result_Inr_iff Let_def)
  show thesis
  proof (cases "order_event_seen db (ne_event_id n0)")
    case True
    with assms n0 have "db' = db" by (simp add: apply_event_def)
    with n0 True show thesis by (rule duplicate)
  next
    case False
    let ?db = "ensure_execution_event db n0"
    let ?cur = "fetch_order ?db (ne_account_id n0) (ne_client_order_id n0)"
    from False assms n0 obtain p target where
      eq: "apply_settlement ?db (n0 \<lparr> ne_payload := p \<rparr>) ?cur (order_has_fills n0 ?cur) target fresh = (db', res)"
      by (auto simp: apply_event_def apply_new_event_def bind_result_Inr_iff Let_def)
    let ?n = "n0 \<lparr> ne_payload := p \<rparr>"
    show thesis
      by (rule settled[of ?n ?db ?cur "order_has_fills n0 ?cur" target]) (simp_all add: id eq del: ensure_execution_event_other(3))
  qed
qed

lemma apply_settlement_seen:
  "order_event_seen (fst (apply_settlement db n current has_fills target fresh)) (ne_event_id n)"
  by (simp add: apply_settlement_def Let_def split: settlement.splits prod.splits)

lemma apply_event_seen:
  assumes "apply_event db ev clock fresh = Inr (db', res)"
  shows "order_event_seen db' (oe_event_id ev)"
  using assms
proof (cases rule: apply_eventE)
  case (duplicate n)
  then show ?thesis by (auto simp: normalize_event_def bind_result_Inr_iff Let_def)
next
  case (settled n db1 current has_fills target)
  then show ?thesis using apply_settlement_seen[of db1 n current has_fills target fresh] by simp
qed

lemma apply_event_advances:
  assumes "apply_event db ev clock fresh = Inr (db', res)" "orders_ok db"
  shows "orders_ok db' \<and> (\<forall>r \<in> set (pj_orders db). \<exists>r' \<in> set (pj_orders db'). row_advances r r')"
  using assms(1)
proof (cases rule: apply_eventE)
  case (duplicate n)
  with assms(2) show ?thesis by (auto intro: row_advances_refl)
next
  case (settled n db1 current has_fills target)
  from settled(2) assms(2) have "orders_ok db1" by (simp add: orders_ok_def)
  from apply_settlement_advances[OF this settled(3), of has_fills target fresh] settled(2,4) show ?thesis by simp
qed

text \<open>
  Delivery of order events is idempotent: once an event has been applied, applying it again, at any
  later time, changes nothing in the database and reports a duplicate with the current status.
\<close>

theorem apply_event_idempotent:
  assumes "apply_event db ev clock fresh = Inr (db', res)"
  shows "\<exists>res'. apply_event db' ev clock' fresh' = Inr (db', res') \<and> ap_duplicate res' \<and> \<not> ap_applied res'"
proof -
  obtain n where n: "normalize_event ev clock' = Inr n" "ne_event_id n = oe_event_id ev"
    using assms by (auto simp: apply_event_def normalize_event_def bind_result_Inr_iff Let_def)
  with apply_event_seen[OF assms] show ?thesis by (simp add: apply_event_def)
qed

text \<open>A stream of events, in any order and with any repetitions.\<close>

inductive projection_step :: "projection_db \<Rightarrow> projection_db \<Rightarrow> bool" where
  "apply_event db ev clock fresh = Inr (db', res) \<Longrightarrow> projection_step db db'"

inductive_cases projection_stepE: "projection_step db db'"

definition empty_projection :: projection_db where
  "empty_projection =
     \<lparr> pj_execution_events = [], pj_orders = [], pj_order_events = [], pj_reconciliation_runs = [], pj_findings = [] \<rparr>"

interpretation projection_store: invariant_store empty_projection projection_step orders_ok
proof
  show "orders_ok empty_projection" by (simp add: orders_ok_def empty_projection_def)
next
  fix db db' assume "orders_ok db" "projection_step db db'"
  then show "orders_ok db'" using apply_event_advances by (auto elim!: projection_stepE)
qed

text \<open>The row of an order in a table whose key is unique.\<close>

lemma steps_advance:
  assumes "projection_step\<^sup>*\<^sup>* db db'" "orders_ok db" "r \<in> set (pj_orders db)"
  shows "\<exists>r' \<in> set (pj_orders db'). or_account_id r' = or_account_id r \<and> or_client_order_id r' = or_client_order_id r
    \<and> or_id r' = or_id r \<and> or_filled_quantity r \<le> or_filled_quantity r'
    \<and> (state_is_terminal order_domain (or_status r) \<longrightarrow> or_status r' = or_status r)"
  using assms(1,2,3)
proof (induction rule: rtranclp_induct)
  case (step d d')
  then obtain r1 where r1: "r1 \<in> set (pj_orders d)" "or_account_id r1 = or_account_id r"
    "or_client_order_id r1 = or_client_order_id r" "or_id r1 = or_id r" "or_filled_quantity r \<le> or_filled_quantity r1"
    "state_is_terminal order_domain (or_status r) \<longrightarrow> or_status r1 = or_status r" by blast
  have "orders_ok d" using projection_store.inv_steps[OF step.hyps(1)] step.prems by blast
  with step.hyps(2) r1(1) obtain r2 where r2: "r2 \<in> set (pj_orders d')" "row_advances r1 r2"
    using apply_event_advances by (metis projection_stepE)
  have "or_status r2 = or_status r" if "state_is_terminal order_domain (or_status r)"
    using r1(6) r2(2) that legal_from_terminal by (simp add: row_advances_def)
  with r1 r2 show ?case by (intro bexI[of _ r2]) (auto simp: row_advances_def)
qed auto

text \<open>
  C9. Projected orders only move forward: whatever events follow, in any order and with any duplicates,
  the row of an order keeps its identity, its filled quantity never decreases, and a terminal status
  (filled, rejected, denied, cancelled, expired, failed) never changes.
\<close>

theorem projected_orders_monotone:
  assumes "projection_step\<^sup>*\<^sup>* empty_projection db" "projection_step\<^sup>*\<^sup>* db db'" "r \<in> set (pj_orders db)"
  shows "\<exists>r' \<in> set (pj_orders db'). or_account_id r' = or_account_id r \<and> or_client_order_id r' = or_client_order_id r
    \<and> or_id r' = or_id r \<and> or_filled_quantity r \<le> or_filled_quantity r'
    \<and> (state_is_terminal order_domain (or_status r) \<longrightarrow> or_status r' = or_status r)"
  using steps_advance[OF assms(2) projection_store.reachable_inv[OF assms(1)] assms(3)] .

definition order_example_event :: order_event where
  "order_example_event =
     \<lparr> oe_event_id = ''e1'', oe_event_type = ''OrderAccepted'', oe_account_id = Some ''acc'',
       oe_client_order_id = Some ''o1'', oe_venue_order_id = None, oe_trade_id = None, oe_intent_id = None,
       oe_execution_job_id = None, oe_instrument_id = Some ''BTCUSDT'', oe_ts_event = Some 5, oe_payload = [] \<rparr>"

definition order_example_normal :: normal_event where
  "order_example_normal =
     \<lparr> ne_event_id = ''e1'', ne_event_type = ''OrderAccepted'', ne_account_id = ''acc'', ne_client_order_id = ''o1'',
       ne_venue_order_id = None, ne_trade_id = None, ne_intent_id = None, ne_execution_job_id = None,
       ne_ts_event = 5, ne_payload = [(''instrument_id'', JStr ''BTCUSDT'')] \<rparr>"

definition order_example_db :: projection_db where
  "order_example_db =
     \<lparr> pj_execution_events = [order_example_normal],
       pj_orders = [projected_row order_example_normal ''u'' ''accepted'' None],
       pj_order_events = [\<lparr> ow_event_id = ''e1'', ow_account_id = ''acc'', ow_order_projection_id = Some ''u'',
         ow_client_order_id = ''o1'', ow_event_type = ''OrderAccepted'', ow_ts_event = 5,
         ow_payload = [(''instrument_id'', JStr ''BTCUSDT'')] \<rparr>],
       pj_reconciliation_runs = [], pj_findings = [] \<rparr>"

lemma order_example_applied:
  "\<exists>res. apply_event empty_projection order_example_event 0 (\<lambda>_. ''u'') = Inr (order_example_db, res)"
proof -
  have "normalize_event order_example_event 0 = Inr order_example_normal" by code_simp
  moreover have "order_target order_example_normal None False = Inr ''accepted''" by code_simp
  ultimately show ?thesis
    by (simp add: apply_event_def apply_new_event_def order_event_seen_def empty_projection_def
        ensure_execution_event_def fetch_order_def order_has_fills_def order_example_normal_def
        apply_settlement_def settle_def upsert_order_projection_def insert_order_event_def order_example_db_def Let_def)
qed

theorem apply_event_idempotent_witness:
  "\<exists>res'. apply_event order_example_db order_example_event 99 (\<lambda>_. ''v'') = Inr (order_example_db, res') \<and> ap_duplicate res'"
  using order_example_applied apply_event_idempotent[of empty_projection order_example_event 0 "\<lambda>_. ''u''"] by blast

theorem projected_orders_monotone_witness:
  "\<exists>r' \<in> set (pj_orders order_example_db).
     or_filled_quantity (projected_row order_example_normal ''u'' ''accepted'' None) \<le> or_filled_quantity r'"
proof -
  have "projection_step\<^sup>*\<^sup>* empty_projection order_example_db"
    using order_example_applied projection_step.intros by blast
  from projected_orders_monotone[OF this rtranclp.rtrancl_refl, of "projected_row order_example_normal ''u'' ''accepted'' None"]
  show ?thesis by (auto simp: order_example_db_def)
qed

section \<open>Each trade counts once\<close>

text \<open>The fill events of an order without the later reports of a trade or event already seen.\<close>

fun first_fills :: "(string \<times> string) list \<Rightarrow> normal_event list \<Rightarrow> normal_event list" where
  "first_fills seen [] = []"
| "first_fills seen (e # es) =
     (if fill_identity e \<in> set seen then first_fills (fill_identity e # seen) es
      else e # first_fills (fill_identity e # seen) es)"

definition native_fill :: "normal_event \<Rightarrow> bool" where
  "native_fill e =
     (let p = fill_fields (ne_payload e) in
      (case decimal_or_none (jget p ''filled_qty'') of None \<Rightarrow> True | Some c \<Rightarrow> c = 0)
      \<and> (case decimal_or_none (jget p ''last_qty'') of None \<Rightarrow> False | Some d \<Rightarrow> 0 \<le> d)
      \<and> (case decimal_or_none (jget p ''last_px'') of None \<Rightarrow> True | Some x \<Rightarrow> 0 \<le> x))"

definition native_quantity :: "normal_event \<Rightarrow> rat" where
  "native_quantity e = the (decimal_or_none (jget (fill_fields (ne_payload e)) ''last_qty''))"

lemma fill_group_simps [simp]:
  "fa_seen (fill_group acc t) = fa_seen acc" "fa_delta_total (fill_group acc t) = fa_delta_total acc"
  by (simp_all add: fill_group_def)

lemma fill_step_native:
  assumes "native_fill e" "fa_anchor acc = 0" "0 \<le> fa_total acc"
  shows "\<exists>acc'. fill_step acc e = Inr acc' \<and> fa_anchor acc' = 0 \<and> fa_seen acc' = fill_identity e # fa_seen acc
    \<and> fa_total acc' = (if fill_identity e \<in> set (fa_seen acc) then fa_total acc else dadd (fa_total acc) (native_quantity e))"
proof -
  have group: "fa_total (fill_group acc t) = fa_total acc" "fa_anchor (fill_group acc t) = 0" for t
    using assms(2,3) by (auto simp: fill_group_def max_def)
  show ?thesis
    using assms(1) group
    by (auto simp: fill_step_def native_fill_def native_quantity_def fill_negative_def Let_def split: option.splits)
qed

lemma fill_loop_native:
  assumes "\<forall>e \<in> set es. native_fill e" "fa_anchor acc = 0" "0 \<le> fa_total acc"
  shows "\<exists>acc'. fill_loop acc es = Inr acc' \<and> fa_anchor acc' = 0
    \<and> fa_total acc' = dsum_from (fa_total acc) (map native_quantity (first_fills (fa_seen acc) es))"
  using assms
proof (induction es arbitrary: acc)
  case (Cons e es)
  then obtain acc1 where a: "fill_step acc e = Inr acc1" "fa_anchor acc1 = 0" "fa_seen acc1 = fill_identity e # fa_seen acc"
    "fa_total acc1 = (if fill_identity e \<in> set (fa_seen acc) then fa_total acc else dadd (fa_total acc) (native_quantity e))"
    using fill_step_native[of e acc] by auto
  have "0 \<le> native_quantity e" using Cons.prems(1) by (auto simp: native_fill_def native_quantity_def Let_def split: option.splits)
  then have "0 \<le> fa_total acc1" using a(4) Cons.prems(3) by (simp add: dadd_def dec.rnd_nonneg)
  with Cons.IH[OF _ a(2)] Cons.prems(1) a show ?case by (auto split: if_splits)
qed simp


definition fill_example :: "string \<Rightarrow> normal_event" where
  "fill_example eid =
     \<lparr> ne_event_id = eid, ne_event_type = ''OrderFilled'', ne_account_id = ''acc'', ne_client_order_id = ''o1'',
       ne_venue_order_id = None, ne_trade_id = Some ''t1'', ne_intent_id = None, ne_execution_job_id = None,
       ne_ts_event = 7, ne_payload = [(''last_qty'', JDec 2), (''last_px'', JDec 100)] \<rparr>"

definition fill_example_db :: projection_db where
  "fill_example_db = empty_projection \<lparr> pj_execution_events := [fill_example ''e2'', fill_example ''e3''] \<rparr>"


section \<open>A gap of the order descriptor\<close>

text \<open>
  A cancel that loses the race against a fill: the descriptor has no edge from pending_cancel to
  filled, so a complete fill of an order in pending_cancel is written with the status pending_cancel,
  whatever the event's time.
\<close>

theorem full_fill_keeps_pending_cancel:
  "settle n (Some (r \<lparr> or_status := ''pending_cancel'' \<rparr>)) True ''filled'' = Apply ''pending_cancel''"
proof -
  have "\<not> legal_transition order_domain ''pending_cancel'' ''filled''" by code_simp
  then show ?thesis by (auto simp: settle_def stale_backfill_def Let_def)
qed

end
