(* ===== verification/Position_Projection.thy ===== *)
theory Position_Projection
  imports Json Identifiers State_Descriptor
begin

text \<open>
  The projections of positions, protective orders and accounts
  (\<open>position_reducer.py\<close>, \<open>account_reducer.py\<close> and the tables of migrations 0001 and 0005). A
  reducer folds one execution event into a row; a position that closes loses its active protective
  orders. The constraints of the tables are checked where a statement could violate them.
\<close>

section \<open>Tables\<close>

record position_projection_row =
  psn_account_id :: account_id
  psn_position_id :: string
  psn_instrument_id :: string
  psn_side :: string
  psn_quantity :: rat
  psn_avg_entry_price :: "rat option"
  psn_mark_price :: "rat option"
  psn_unrealized_pnl :: "rat option"
  psn_status :: string
  psn_updated_from_event_id :: string
  psn_ts_event :: instant
  psn_updated_at :: instant
  psn_payload :: dict

record protective_row =
  pto_id :: string
  pto_account_id :: account_id
  pto_position_key :: string
  pto_venue_symbol :: symbol
  pto_lifecycle_role :: string
  pto_client_order_id :: "string option"
  pto_venue_order_id :: json
  pto_status :: string
  pto_active :: bool
  pto_quantity :: "rat option"
  pto_price :: "rat option"
  pto_trigger_price :: "rat option"
  pto_updated_at :: instant
  pto_payload :: dict

record account_projection_row =
  acc_account_id :: account_id
  acc_currency :: json
  acc_equity :: rat
  acc_margin :: rat
  acc_available_balance :: "rat option"
  acc_last_execution_event_at :: instant
  acc_updated_from_event_id :: string
  acc_payload :: dict

record position_db =
  pdb_event_ids :: "string list"
  pdb_positions :: "position_projection_row list"
  pdb_protective :: "protective_row list"
  pdb_accounts :: "account_projection_row list"

record position_event =
  pe_event_id :: string
  pe_event_type :: string
  pe_account_id :: "string option"
  pe_instrument_id :: json
  pe_ts_event :: "instant option"
  pe_payload :: dict

record PositionApplyResult =
  par_event_id :: string
  par_position_key :: string
  par_status :: string

definition event_recorded :: "position_db \<Rightarrow> string \<Rightarrow> position_db" where
  "event_recorded db eid =
     (if eid \<in> set (pdb_event_ids db) then db else db \<lparr>pdb_event_ids := pdb_event_ids db @ [eid]\<rparr>)"

section \<open>Positions\<close>

definition key_side :: "dict \<Rightarrow> string option" where
  "key_side payload =
     (let mode = upper (str_or [jget payload ''position_mode''] []);
          raw_side = lower (str_or [jget payload ''position_side'', jget payload ''side''] [])
      in if mode = ''HEDGE'' \<and> raw_side \<in> {''long'', ''short''} then Some raw_side else None)"

definition is_external :: "dict \<Rightarrow> bool" where
  "is_external payload = (upper (str_or [jget payload ''ownership'', jget payload ''source''] []) = ''EXTERNAL'')"

definition payload_quantity :: "dict \<Rightarrow> rat option" where
  "payload_quantity payload = decimal_or_none (jor (jget payload ''quantity'') (jget payload ''qty''))"

definition event_quantity :: "dict \<Rightarrow> rat" where
  "event_quantity payload = dabs (case payload_quantity payload of Some q \<Rightarrow> q | None \<Rightarrow> 0)"

definition position_side_of :: "dict \<Rightarrow> string" where
  "position_side_of payload =
     (let raw' = lower (str_or [jget payload ''side'', jget payload ''position_side''] [])
      in if raw' \<in> {''short'', ''sell''} then ''short''
         else case payload_quantity payload of
           Some q \<Rightarrow> if q < 0 then ''short'' else ''long''
         | None \<Rightarrow> ''long'')"

record normal_position_event =
  npe_event_id :: string
  npe_event_type :: string
  npe_account_id :: account_id
  npe_position_key :: string
  npe_venue_symbol :: symbol
  npe_instrument_id :: string
  npe_ts_event :: instant
  npe_payload :: dict

definition normalize_position_event :: "position_event \<Rightarrow> instant \<Rightarrow> normal_position_event result" where
  "normalize_position_event ev clock =
     bind_result (canonical_account_id (pe_account_id ev)) (\<lambda>a.
       let payload = pe_payload ev;
           instrument_id = str_or [jget payload ''instrument_id'', pe_instrument_id ev] ''UNKNOWN'';
           venue_symbol = canonical_instrument_key instrument_id
       in bind_result (canonical_position_key (Some a) venue_symbol (key_side payload)) (\<lambda>key.
          Inr \<lparr>npe_event_id = pe_event_id ev, npe_event_type = pe_event_type ev, npe_account_id = a,
               npe_position_key = key, npe_venue_symbol = venue_symbol, npe_instrument_id = instrument_id,
               npe_ts_event = (case pe_ts_event ev of Some t \<Rightarrow> t | None \<Rightarrow> clock),
               npe_payload = dict_set payload ''instrument_id'' (JStr instrument_id)\<rparr>))"

definition is_position :: "account_id \<Rightarrow> string \<Rightarrow> position_projection_row \<Rightarrow> bool" where
  "is_position a key r = (psn_account_id r = a \<and> psn_position_id r = key)"

definition current_quantity :: "position_db \<Rightarrow> account_id \<Rightarrow> string \<Rightarrow> rat option" where
  "current_quantity db a key = map_option psn_quantity (List.find (is_position a key) (pdb_positions db))"

definition new_position_row :: "normal_position_event \<Rightarrow> string \<Rightarrow> rat \<Rightarrow> instant \<Rightarrow> position_projection_row" where
  "new_position_row n status quantity clock =
     (let p = npe_payload n
      in \<lparr>psn_account_id = npe_account_id n, psn_position_id = npe_position_key n,
          psn_instrument_id = npe_instrument_id n, psn_side = position_side_of p, psn_quantity = quantity,
          psn_avg_entry_price = decimal_or_none (jget p ''avg_entry_price''),
          psn_mark_price = decimal_or_none (jget p ''mark_price''),
          psn_unrealized_pnl = decimal_or_none (jget p ''unrealized_pnl''),
          psn_status = status, psn_updated_from_event_id = npe_event_id n, psn_ts_event = npe_ts_event n,
          psn_updated_at = clock, psn_payload = p\<rparr>)"

definition opt_coalesce :: "'a option \<Rightarrow> 'a option \<Rightarrow> 'a option" where
  "opt_coalesce a b = (case a of Some x \<Rightarrow> Some x | None \<Rightarrow> b)"

definition merge_position :: "position_projection_row \<Rightarrow> position_projection_row \<Rightarrow> position_projection_row" where
  "merge_position excl old =
     excl \<lparr>psn_avg_entry_price := opt_coalesce (psn_avg_entry_price excl) (psn_avg_entry_price old),
           psn_mark_price := opt_coalesce (psn_mark_price excl) (psn_mark_price old),
           psn_unrealized_pnl := opt_coalesce (psn_unrealized_pnl excl) (psn_unrealized_pnl old),
           psn_payload := dict_update (psn_payload old) (psn_payload excl)\<rparr>"

definition upsert_position :: "position_db \<Rightarrow> position_projection_row \<Rightarrow> position_db" where
  "upsert_position db row =
     (let same = is_position (psn_account_id row) (psn_position_id row)
      in db \<lparr>pdb_positions :=
           (if list_ex same (pdb_positions db) then update_where same (merge_position row) (pdb_positions db)
            else pdb_positions db @ [row])\<rparr>)"

definition active_for :: "account_id \<Rightarrow> string \<Rightarrow> protective_row \<Rightarrow> bool" where
  "active_for a key r = (pto_account_id r = a \<and> pto_position_key r = key \<and> pto_active r)"

definition clear_protective_orders :: "position_db \<Rightarrow> account_id \<Rightarrow> string \<Rightarrow> instant \<Rightarrow> position_db" where
  "clear_protective_orders db a key clock =
     db \<lparr>pdb_protective := update_where (active_for a key)
       (\<lambda>r. r \<lparr>pto_active := False, pto_status := ''cleared'', pto_updated_at := clock\<rparr>) (pdb_protective db)\<rparr>"

definition position_target :: "position_db \<Rightarrow> normal_position_event \<Rightarrow> string result" where
  "position_target db n =
     bind_result (event_target_position (npe_event_type n) (payload_quantity (npe_payload n))
       (current_quantity db (npe_account_id n) (npe_position_key n))) (\<lambda>t.
     Inr (if is_external (npe_payload n) then ''external''
          else case t of None \<Rightarrow> ''open'' | Some s \<Rightarrow> if s = ''self'' then ''open'' else s))"

definition apply_position_event ::
  "position_db \<Rightarrow> position_event \<Rightarrow> instant \<Rightarrow> (position_db \<times> PositionApplyResult) result" where
  "apply_position_event db ev clock =
     bind_result (normalize_position_event ev clock) (\<lambda>n.
     bind_result (position_target db n) (\<lambda>target.
       let quantity = (if target = ''closed'' then 0 else event_quantity (npe_payload n));
           db1 = upsert_position (event_recorded db (npe_event_id n)) (new_position_row n target quantity clock);
           db2 = (if target = ''closed''
                  then clear_protective_orders db1 (npe_account_id n) (npe_position_key n) clock else db1)
       in Inr (db2, \<lparr>par_event_id = npe_event_id n, par_position_key = npe_position_key n,
                     par_status = target\<rparr>)))"

section \<open>Accounts\<close>

definition first_decimal :: "dict \<Rightarrow> string list \<Rightarrow> rat option" where
  "first_decimal payload names =
     (case List.find (\<lambda>k. decimal_or_none (jget payload k) \<noteq> None) names of
        Some k \<Rightarrow> decimal_or_none (jget payload k) | None \<Rightarrow> None)"

definition account_row_of :: "position_event \<Rightarrow> account_id \<Rightarrow> instant \<Rightarrow> account_projection_row" where
  "account_row_of ev a clock =
     (let p = pe_payload ev
      in \<lparr>acc_account_id = a, acc_currency = jget_or p ''currency'' (JStr ''USDT''),
          acc_equity = (case first_decimal p [''equity'', ''balance'', ''total''] of Some x \<Rightarrow> x | None \<Rightarrow> 0),
          acc_margin = (case first_decimal p [''margin'', ''margin_balance'', ''locked''] of Some x \<Rightarrow> x | None \<Rightarrow> 0),
          acc_available_balance = first_decimal p [''free'', ''available_balance''],
          acc_last_execution_event_at = (case pe_ts_event ev of Some t \<Rightarrow> t | None \<Rightarrow> clock),
          acc_updated_from_event_id = pe_event_id ev, acc_payload = p\<rparr>)"

definition account_row_ok :: "account_projection_row \<Rightarrow> bool" where
  "account_row_ok r =
     (acc_currency r \<noteq> JNull \<and> 0 \<le> acc_equity r \<and> 0 \<le> acc_margin r
      \<and> (case acc_available_balance r of Some x \<Rightarrow> 0 \<le> x | None \<Rightarrow> True))"

definition merge_account :: "account_projection_row \<Rightarrow> account_projection_row \<Rightarrow> account_projection_row" where
  "merge_account excl old = excl \<lparr>acc_payload := dict_update (acc_payload old) (acc_payload excl)\<rparr>"

definition apply_account_event ::
  "position_db \<Rightarrow> position_event \<Rightarrow> instant \<Rightarrow> (position_db \<times> string \<times> account_id) result" where
  "apply_account_event db ev clock =
     bind_result (canonical_account_id (pe_account_id ev)) (\<lambda>a.
       let row = account_row_of ev a clock;
           db1 = event_recorded db (pe_event_id ev);
           same = (\<lambda>r. acc_account_id r = a)
       in if \<not> account_row_ok row then Inl IntegrityError
          else Inr (db1 \<lparr>pdb_accounts :=
                 (if list_ex same (pdb_accounts db1) then update_where same (merge_account row) (pdb_accounts db1)
                  else pdb_accounts db1 @ [row])\<rparr>, pe_event_id ev, a))"

record account_balance =
  ba_account_id :: account_id
  ba_currency :: json
  ba_equity :: rat
  ba_free :: "rat option"
  ba_margin :: rat
  ba_balance :: rat

definition get_account_balance :: "position_db \<Rightarrow> string option \<Rightarrow> account_balance option result" where
  "get_account_balance db account =
     bind_result (canonical_account_id account) (\<lambda>a.
       Inr (map_option (\<lambda>r.
         \<lparr>ba_account_id = acc_account_id r, ba_currency = acc_currency r, ba_equity = acc_equity r,
          ba_free = acc_available_balance r, ba_margin = acc_margin r,
          ba_balance = (case decimal_or_none (jget (acc_payload r) ''balance'') of
                          Some b \<Rightarrow> if b = 0 then acc_equity r else b | None \<Rightarrow> acc_equity r)\<rparr>)
         (List.find (\<lambda>r. acc_account_id r = a) (pdb_accounts db))))"

section \<open>Invariant\<close>

definition slot_of :: "protective_row \<Rightarrow> account_id \<times> string \<times> string" where
  "slot_of r = (pto_account_id r, pto_position_key r, pto_lifecycle_role r)"

text \<open>The index \<open>uq_protective_orders_active_role\<close>: one active order per position and role.\<close>

definition active_slots :: "protective_row list \<Rightarrow> (account_id \<times> string \<times> string) list" where
  "active_slots ps = map slot_of (filter pto_active ps)"

definition positions_ok :: "position_db \<Rightarrow> bool" where
  "positions_ok db =
     (distinct (map (\<lambda>r. (psn_account_id r, psn_position_id r)) (pdb_positions db))
      \<and> (\<forall>r \<in> set (pdb_positions db). 0 \<le> psn_quantity r)
      \<and> distinct (map pto_id (pdb_protective db))
      \<and> distinct (active_slots (pdb_protective db))
      \<and> distinct (map acc_account_id (pdb_accounts db))
      \<and> (\<forall>r \<in> set (pdb_accounts db). account_row_ok r))"

lemma event_recorded_simps [simp]:
  "pdb_positions (event_recorded db e) = pdb_positions db"
  "pdb_protective (event_recorded db e) = pdb_protective db"
  "pdb_accounts (event_recorded db e) = pdb_accounts db"
  by (simp_all add: event_recorded_def)

lemma dabs_nonneg: "0 \<le> dabs x"
  by (simp add: dabs_def dec.rnd_nonneg)

lemma merge_position_key:
  "psn_account_id (merge_position x r) = psn_account_id x" "psn_position_id (merge_position x r) = psn_position_id x"
  "psn_quantity (merge_position x r) = psn_quantity x" "psn_status (merge_position x r) = psn_status x"
  by (simp_all add: merge_position_def)

lemma upsert_position_ok:
  assumes "positions_ok db" "0 \<le> psn_quantity row"
  shows "positions_ok (upsert_position db row)"
proof -
  let ?key = "\<lambda>r. (psn_account_id r, psn_position_id r)"
  let ?same = "is_position (psn_account_id row) (psn_position_id row)"
  have keys: "map ?key (update_where ?same (merge_position row) rs) = map ?key rs" for rs
    by (rule map_update_where_frame) (simp add: merge_position_key is_position_def)
  show ?thesis
    using assms unfolding positions_ok_def upsert_position_def Let_def
    by (auto simp: keys set_update_where merge_position_key list_ex_iff is_position_def)
qed

lemma distinct_active_slots_update:
  assumes "distinct (active_slots ps)"
    "\<And>r. p r \<Longrightarrow> pto_active (f r) \<Longrightarrow> pto_active r \<and> slot_of (f r) = slot_of r"
  shows "distinct (active_slots (update_where p f ps))
    \<and> set (active_slots (update_where p f ps)) \<subseteq> set (active_slots ps)"
  using assms(1)
proof (induction ps)
  case (Cons r ps)
  then have ih: "distinct (active_slots (update_where p f ps))"
    "set (active_slots (update_where p f ps)) \<subseteq> set (active_slots ps)"
    by (auto simp: active_slots_def split: if_splits)
  have new: "slot_of r \<notin> set (active_slots ps)" if "pto_active r"
    using Cons.prems that by (simp add: active_slots_def)
  let ?r = "if p r then f r else r"
  have "pto_active ?r \<Longrightarrow> pto_active r \<and> slot_of ?r = slot_of r" using assms(2) by auto
  moreover have "active_slots (update_where p f (r # ps))
      = (if pto_active ?r then slot_of ?r # active_slots (update_where p f ps) else active_slots (update_where p f ps))"
    "active_slots (r # ps) = (if pto_active r then slot_of r # active_slots ps else active_slots ps)"
    by (simp_all add: active_slots_def)
  ultimately show ?case using ih new by auto
qed (simp add: active_slots_def)

lemma clear_protective_ok: "positions_ok db \<Longrightarrow> positions_ok (clear_protective_orders db a k t)"
  unfolding positions_ok_def clear_protective_orders_def
  by (auto simp: map_update_where_frame intro!: distinct_active_slots_update[THEN conjunct1])

lemma apply_position_event_Inr:
  assumes "apply_position_event db ev clock = Inr (db', res)"
  obtains n target db1 where "normalize_position_event ev clock = Inr n" "position_target db n = Inr target"
    "db1 = upsert_position (event_recorded db (npe_event_id n)) (new_position_row n target
        (if target = ''closed'' then 0 else event_quantity (npe_payload n)) clock)"
    "db' = (if target = ''closed'' then clear_protective_orders db1 (npe_account_id n) (npe_position_key n) clock else db1)"
    "par_status res = target" "par_position_key res = npe_position_key n"
  using assms unfolding apply_position_event_def bind_result_Inr_iff Let_def by auto

lemma apply_position_event_ok:
  assumes "positions_ok db" "apply_position_event db ev clock = Inr (db', res)"
  shows "positions_ok db'"
proof -
  from assms(2) obtain n target db1 where
    db1: "db1 = upsert_position (event_recorded db (npe_event_id n)) (new_position_row n target
        (if target = ''closed'' then 0 else event_quantity (npe_payload n)) clock)"
    and db': "db' = (if target = ''closed'' then clear_protective_orders db1 (npe_account_id n) (npe_position_key n) clock else db1)"
    by (rule apply_position_event_Inr)
  have "positions_ok (event_recorded db (npe_event_id n))" using assms(1) by (simp add: positions_ok_def)
  then have "positions_ok db1"
    unfolding db1 by (rule upsert_position_ok) (simp add: new_position_row_def Let_def event_quantity_def dabs_nonneg)
  then show ?thesis by (simp add: db' clear_protective_ok)
qed

lemma apply_account_event_ok:
  assumes "positions_ok db" "apply_account_event db ev clock = Inr (db', res)"
  shows "positions_ok db'"
proof -
  obtain a where row: "account_row_ok (account_row_of ev a clock)"
    and db': "db' = event_recorded db (pe_event_id ev) \<lparr>pdb_accounts :=
      (if list_ex (\<lambda>r. acc_account_id r = a) (pdb_accounts db)
       then update_where (\<lambda>r. acc_account_id r = a) (merge_account (account_row_of ev a clock)) (pdb_accounts db)
       else pdb_accounts db @ [account_row_of ev a clock])\<rparr>"
    using assms(2) by (auto simp: apply_account_event_def bind_result_Inr_iff Let_def split: if_splits)
  have a: "acc_account_id (account_row_of ev a clock) = a" by (simp add: account_row_of_def Let_def)
  have m: "acc_account_id (merge_account x r) = acc_account_id x" "account_row_ok (merge_account x r) = account_row_ok x" for x r
    by (simp_all add: merge_account_def account_row_ok_def)
  have "map acc_account_id (update_where (\<lambda>r. acc_account_id r = a) (merge_account (account_row_of ev a clock)) rs)
      = map acc_account_id rs" for rs
    by (rule map_update_where_frame) (simp add: m a)
  then show ?thesis
    using assms(1) row by (auto simp: db' positions_ok_def set_update_where m a list_ex_iff)
qed

section \<open>Properties\<close>

lemma find_update_where_same:
  "(\<And>r. p r \<Longrightarrow> p (f r)) \<Longrightarrow> List.find p (update_where p f rs) = map_option f (List.find p rs)"
  by (induction rs) auto

lemma upsert_position_find:
  "\<exists>r. List.find (is_position (psn_account_id row) (psn_position_id row)) (pdb_positions (upsert_position db row)) = Some r
     \<and> psn_quantity r = psn_quantity row \<and> psn_status r = psn_status row \<and> psn_ts_event r = psn_ts_event row"
proof (cases "list_ex (is_position (psn_account_id row) (psn_position_id row)) (pdb_positions db)")
  case True
  then obtain r where "List.find (is_position (psn_account_id row) (psn_position_id row)) (pdb_positions db) = Some r"
    by (metis find_None_iff' list_ex_iff not_None_eq)
  with True show ?thesis
    by (simp add: upsert_position_def find_update_where_same is_position_def merge_position_def)
next
  case False
  then have "List.find (is_position (psn_account_id row) (psn_position_id row)) (pdb_positions db) = None"
    by (simp add: find_None_iff' list_ex_iff)
  with False show ?thesis
    by (simp add: upsert_position_def find_append is_position_def)
qed

lemma upsert_position_frame:
  "filter (\<lambda>r. \<not> is_position (psn_account_id row) (psn_position_id row) r) (pdb_positions (upsert_position db row))
   = filter (\<lambda>r. \<not> is_position (psn_account_id row) (psn_position_id row) r) (pdb_positions db)"
proof -
  have "filter (\<lambda>r. \<not> is_position a k r) (update_where (is_position a k) (merge_position row) rs)
      = filter (\<lambda>r. \<not> is_position a k r) rs"
    if "a = psn_account_id row" "k = psn_position_id row" for a k rs
    using that by (induction rs) (auto simp: is_position_def merge_position_key)
  moreover have "is_position (psn_account_id row) (psn_position_id row) row" by (simp add: is_position_def)
  ultimately show ?thesis by (simp add: upsert_position_def Let_def)
qed

lemma new_position_row_simps [simp]:
  "psn_account_id (new_position_row n s q t) = npe_account_id n"
  "psn_position_id (new_position_row n s q t) = npe_position_key n"
  "psn_quantity (new_position_row n s q t) = q" "psn_status (new_position_row n s q t) = s"
  "psn_ts_event (new_position_row n s q t) = npe_ts_event n"
  by (simp_all add: new_position_row_def Let_def)

lemma clear_protective_orders_simps [simp]:
  "pdb_positions (clear_protective_orders db a k t) = pdb_positions db"
  by (simp add: clear_protective_orders_def)

lemma update_where_clears:
  "(\<And>r. p r \<Longrightarrow> \<not> p (f r)) \<Longrightarrow> \<forall>r \<in> set (update_where p f rs). \<not> p r"
  by (induction rs) auto

lemma clear_protective_none_active:
  "\<forall>r \<in> set (pdb_protective (clear_protective_orders db a k t)). \<not> active_for a k r"
  unfolding clear_protective_orders_def by (simp, rule update_where_clears) (simp add: active_for_def)

text \<open>
  Applying a position event projects exactly that event: the row of its key afterwards has the
  event's status, its quantity (zero when it closes) and its time, every other position is
  untouched, and when the position closes no protective order of it stays active. The stored time
  of an earlier event plays no part: the event delivered last decides, even when it is the older one.
\<close>

theorem position_event_projected:
  assumes "apply_position_event db ev clock = Inr (db', res)" "normalize_position_event ev clock = Inr n"
  shows "(\<exists>r. List.find (is_position (npe_account_id n) (npe_position_key n)) (pdb_positions db') = Some r
      \<and> psn_status r = par_status res \<and> psn_ts_event r = npe_ts_event n
      \<and> psn_quantity r = (if par_status res = ''closed'' then 0 else event_quantity (npe_payload n)))
    \<and> filter (\<lambda>r. \<not> is_position (npe_account_id n) (npe_position_key n) r) (pdb_positions db')
      = filter (\<lambda>r. \<not> is_position (npe_account_id n) (npe_position_key n) r) (pdb_positions db)
    \<and> (par_status res = ''closed'' \<longrightarrow>
        (\<forall>r \<in> set (pdb_protective db'). \<not> active_for (npe_account_id n) (npe_position_key n) r))"
proof -
  from assms(1) obtain n' target db1 where n': "normalize_position_event ev clock = Inr n'"
    and db1: "db1 = upsert_position (event_recorded db (npe_event_id n')) (new_position_row n' target
        (if target = ''closed'' then 0 else event_quantity (npe_payload n')) clock)"
    and db': "db' = (if target = ''closed'' then clear_protective_orders db1 (npe_account_id n') (npe_position_key n') clock else db1)"
    and t: "par_status res = target"
    by (rule apply_position_event_Inr)
  have n: "n' = n" using n' assms(2) by simp
  let ?row = "new_position_row n target (if target = ''closed'' then 0 else event_quantity (npe_payload n)) clock"
  have p: "pdb_positions db' = pdb_positions db1" by (simp add: db')
  have e: "pdb_positions (event_recorded db (npe_event_id n)) = pdb_positions db" by simp
  show ?thesis
    using upsert_position_find[of ?row "event_recorded db (npe_event_id n)"]
      upsert_position_frame[of ?row "event_recorded db (npe_event_id n)"] clear_protective_none_active
    unfolding p db1 n t by (cases "target = ''closed''") (auto simp: db' n)
qed

definition empty_position_db :: position_db where
  "empty_position_db = \<lparr>pdb_event_ids = [], pdb_positions = [], pdb_protective = [], pdb_accounts = []\<rparr>"

definition example_close_event :: position_event where
  "example_close_event = \<lparr>pe_event_id = ''e1'', pe_event_type = ''PositionClosed'', pe_account_id = Some ''acct'',
     pe_instrument_id = JStr ''BTCUSDT-PERP.BINANCE'', pe_ts_event = Some 10, pe_payload = []\<rparr>"

theorem position_event_projected_witness:
  "\<exists>db' res n r. apply_position_event empty_position_db example_close_event 20 = Inr (db', res)
     \<and> par_status res = ''closed''
     \<and> List.find (is_position (npe_account_id (n :: normal_position_event)) (npe_position_key n)) (pdb_positions db') = Some r
     \<and> psn_quantity r = 0"
proof -
  have "case apply_position_event empty_position_db example_close_event 20 of
      Inr (db', res) \<Rightarrow> par_status res = ''closed'' | Inl e \<Rightarrow> False" by code_simp
  then obtain db' res where a: "apply_position_event empty_position_db example_close_event 20 = Inr (db', res)"
    and c: "par_status res = ''closed''" by (auto split: sum.splits prod.splits)
  from a obtain n where n: "normalize_position_event example_close_event 20 = Inr n"
    by (rule apply_position_event_Inr)
  from position_event_projected[OF a n] c show ?thesis using a by auto
qed

end
