(* ===== verification/Order_Specs.thy ===== *)
theory Order_Specs
  imports Json
begin

text \<open>
  The numeric half of the intent execution planner: reading decimals from an order plan, snapping
  prices and quantities to the increments of an instrument, and turning an order plan into an order
  specification. A step either yields a value, denies the intent with a reason and a detail
  (\<open>OrderDenied\<close>), or raises.

  An increment is the decimal literal of the instrument: its coefficient and its exponent, which is
  the exponent \<open>quantize(step)\<close> rounds to; a text that is no number is \<open>None\<close>. A formatted decimal
  is represented by its value, since the code reads it back with \<open>Decimal\<close>.
\<close>

section \<open>Outcomes\<close>

datatype 'a outcome = Planned 'a | Denied string msg | Raised py_exc

fun bind_outcome :: "'a outcome \<Rightarrow> ('a \<Rightarrow> 'b outcome) \<Rightarrow> 'b outcome" where
  "bind_outcome (Planned x) f = f x"
| "bind_outcome (Denied r d) f = Denied r d"
| "bind_outcome (Raised e) f = Raised e"

lemma bind_outcome_Planned_iff:
  "bind_outcome m f = Planned y \<longleftrightarrow> (\<exists>x. m = Planned x \<and> f x = Planned y)"
  by (cases m) auto

definition spec_denied :: "string \<Rightarrow> 'a outcome" where
  "spec_denied field = Denied ''unsupported_order_spec'' [PText field]"

lemma spec_denied_not_planned [simp]: "spec_denied f \<noteq> Planned x"
  by (simp add: spec_denied_def)

definition or_raise :: "py_exc \<Rightarrow> 'a option \<Rightarrow> 'a outcome" where
  "or_raise e v = (case v of Some x \<Rightarrow> Planned x | None \<Rightarrow> Raised e)"

lemma or_raise_Planned_iff [simp]: "or_raise e v = Planned x \<longleftrightarrow> v = Some x"
  by (simp add: or_raise_def split: option.splits)

section \<open>Decimals on a grid\<close>

type_synonym increment = "(int \<times> int) option"

definition step_value :: "int \<times> int \<Rightarrow> rat" where
  "step_value l = of_int (fst l) * 10 powi (snd l)"

definition decimal_field :: "json \<Rightarrow> string \<Rightarrow> rat outcome" where
  "decimal_field raw field = (case decimal_or_none raw of Some x \<Rightarrow> Planned x | None \<Rightarrow> spec_denied field)"

definition increment_step :: "increment \<Rightarrow> string \<Rightarrow> (int \<times> int) outcome" where
  "increment_step inc field =
     (case inc of
        None \<Rightarrow> spec_denied (field @ ''.increment'')
      | Some l \<Rightarrow> if step_value l \<le> 0 then spec_denied (field @ ''.increment'') else Planned l)"

definition round_to_increment :: "rat \<Rightarrow> increment \<Rightarrow> string \<Rightarrow> rat outcome" where
  "round_to_increment x inc field =
     bind_outcome (increment_step inc field) (\<lambda>l.
     bind_outcome (or_raise InvalidOperation (quantize round_half_up 0 (ddiv x (step_value l)))) (\<lambda>k.
     or_raise InvalidOperation (quantize round_half_even (snd l) (dmul k (step_value l)))))"

definition round_down_to_increment :: "rat \<Rightarrow> increment \<Rightarrow> string \<Rightarrow> rat outcome" where
  "round_down_to_increment x inc field =
     bind_outcome (increment_step inc field) (\<lambda>l.
     bind_outcome (or_raise InvalidOperation (quantize round_down 0 (ddiv x (step_value l)))) (\<lambda>k.
     let snapped = dmul k (step_value l)
     in if snapped \<le> 0 then spec_denied field
        else or_raise InvalidOperation (quantize round_half_even (snd l) snapped)))"

definition rounded_positive :: "json \<Rightarrow> increment \<Rightarrow> string \<Rightarrow> rat outcome" where
  "rounded_positive raw' inc field =
     bind_outcome (decimal_field raw' field) (\<lambda>x.
     if x \<le> 0 then spec_denied field else round_to_increment x inc field)"

definition rounded_down_positive :: "json \<Rightarrow> increment \<Rightarrow> string \<Rightarrow> rat outcome" where
  "rounded_down_positive raw' inc field =
     bind_outcome (decimal_field raw' field) (\<lambda>x.
     if x \<le> 0 then spec_denied field else round_down_to_increment x inc field)"

section \<open>Order specifications\<close>

record InstrumentSpec =
  in_instrument_id :: string
  in_price_increment :: increment
  in_quantity_increment :: increment

record OrderSpec =
  sp_order_type :: string
  sp_quantity :: rat
  sp_price :: "rat option"
  sp_time_in_force :: string

definition supported_tif :: "string list" where
  "supported_tif = [''GTC'', ''IOC'', ''FOK'', ''GTD'']"

definition parse_side :: "json \<Rightarrow> string outcome" where
  "parse_side raw_side =
     (let side = lower (str_or [raw_side] [])
      in if side = ''buy'' then Planned ''BUY''
         else if side = ''sell'' then Planned ''SELL''
         else spec_denied (''side='' @ side))"

definition parse_tif :: "json \<Rightarrow> string \<Rightarrow> string outcome" where
  "parse_tif raw_tif dflt =
     (let tif = upper (str_or [raw_tif] dflt)
      in if tif \<notin> set supported_tif then spec_denied (''time_in_force='' @ tif) else Planned tif)"

definition order_type_of :: "dict \<Rightarrow> string" where
  "order_type_of order_plan = lower (json_str (jget_or order_plan ''type'' (JStr [])))"

definition zone_boundary_price :: "dict \<Rightarrow> InstrumentSpec \<Rightarrow> rat outcome" where
  "zone_boundary_price order_plan instrument =
     (if \<not> has_key order_plan ''price_min'' then spec_denied ''zone.price_min''
      else if \<not> has_key order_plan ''price_max'' then spec_denied ''zone.price_max''
      else bind_outcome (decimal_field (jget order_plan ''price_min'') ''zone.price_min'') (\<lambda>price_min.
           bind_outcome (decimal_field (jget order_plan ''price_max'') ''zone.price_max'') (\<lambda>price_max.
           if price_min > price_max then spec_denied ''zone.price_min_gt_price_max''
           else let side = lower (json_str (jget_or order_plan ''side'' (JStr [])));
                    boundary = (if side = ''buy'' then price_max else price_min)
                in round_to_increment boundary (in_price_increment instrument) ''price'')))"

definition build_order_spec :: "dict \<Rightarrow> InstrumentSpec \<Rightarrow> bool \<Rightarrow> OrderSpec outcome" where
  "build_order_spec order_plan instrument round_quantity_down =
     (let order_type = order_type_of order_plan;
          round_qty = (if round_quantity_down then rounded_down_positive else rounded_positive)
      in bind_outcome (round_qty (jget order_plan ''quantity'') (in_quantity_increment instrument) ''quantity'')
           (\<lambda>quantity.
         if order_type = ''market''
         then bind_outcome (parse_tif (jget order_plan ''time_in_force'') ''IOC'') (\<lambda>tif.
              Planned \<lparr>sp_order_type = ''MARKET'', sp_quantity = quantity, sp_price = None,
                       sp_time_in_force = tif\<rparr>)
         else if order_type = ''limit''
         then if \<not> has_key order_plan ''price'' then spec_denied ''limit.price''
              else bind_outcome (rounded_positive (jget order_plan ''price'') (in_price_increment instrument) ''price'')
                (\<lambda>price. bind_outcome (parse_tif (jget order_plan ''time_in_force'') ''GTC'') (\<lambda>tif.
                 Planned \<lparr>sp_order_type = ''LIMIT'', sp_quantity = quantity, sp_price = Some price,
                          sp_time_in_force = tif\<rparr>))
         else if order_type = ''zone''
         then bind_outcome (zone_boundary_price order_plan instrument) (\<lambda>price.
              bind_outcome (parse_tif (jget order_plan ''time_in_force'') ''GTC'') (\<lambda>tif.
              Planned \<lparr>sp_order_type = ''LIMIT'', sp_quantity = quantity, sp_price = Some price,
                       sp_time_in_force = tif\<rparr>))
         else spec_denied (''type='' @ order_type)))"

section \<open>Snapping is exact\<close>

text \<open>
  A whole number of steps is printed exactly or not at all: when the product has more than 28
  digits, \<open>quantize\<close> raises instead of printing a rounded value.
\<close>

lemma quantize_grid:
  "quantize round_half_even e (dec (of_int n * 10 powi e))
   = (if 10 ^ 28 \<le> \<bar>n\<bar> then None else Some (of_int n * 10 powi e))"
proof (cases "\<bar>n\<bar> \<le> 10 ^ 28")
  case True
  then have "dec (of_int n * 10 powi e) = of_int n * 10 powi e"
    by (intro dec_exact[of _ n e]) simp_all
  then show ?thesis by (simp add: quantize_def)
next
  case False
  define m where "m = \<bar>n\<bar>"
  have big: "(10 ^ 28 :: rat) \<le> \<bar>dec (of_int n * 10 powi e)\<bar> / 10 powi e"
  proof -
    have "(10 ^ 28 :: rat) * 10 powi e \<le> of_int m * 10 powi e"
      using False by (intro mult_right_mono) (simp_all add: m_def flip: of_int_abs)
    then have "dec (10 ^ 28 * 10 powi e) \<le> dec (of_int m * 10 powi e)" by (rule dec.rnd_mono)
    moreover have "dec (10 ^ 28 * 10 powi e) = 10 ^ 28 * 10 powi e"
      by (rule dec_exact[of _ "10 ^ 28"]) simp_all
    moreover have "dec (of_int m * 10 powi e) = \<bar>dec (of_int n * 10 powi e)\<bar>"
      by (simp add: m_def abs_mult flip: dec.rnd_abs)
    ultimately show ?thesis by (simp add: pos_le_divide_eq)
  qed
  have "10 ^ 28 \<le> \<bar>round_half_even (dec (of_int n * 10 powi e) / 10 powi e)\<bar>"
  proof (cases "0 \<le> dec (of_int n * 10 powi e)")
    case True
    then show ?thesis
      using big round_half_even_mono[of "10 ^ 28" "dec (of_int n * 10 powi e) / 10 powi e"]
        round_half_even_of_int[of "10 ^ 28"] by simp
  next
    case neg: False
    then have "10 ^ 28 \<le> round_half_even (- (dec (of_int n * 10 powi e) / 10 powi e))"
      using big round_half_even_mono[of "10 ^ 28" "- (dec (of_int n * 10 powi e) / 10 powi e)"]
        round_half_even_of_int[of "10 ^ 28"] by simp
    then show ?thesis by (simp add: round_half_even_minus)
  qed
  with False show ?thesis by (simp add: quantize_def)
qed

lemma quantize_steps:
  assumes "quantize round_half_even (snd l) (dmul (of_int k) (step_value l)) = Some x"
  shows "x = of_int k * step_value l"
proof -
  have "dmul (of_int k) (step_value l) = dec (of_int (k * fst l) * 10 powi (snd l))"
    by (simp add: dmul_def step_value_def mult.assoc)
  with assms have "x = of_int (k * fst l) * 10 powi (snd l)"
    by (auto simp only: quantize_grid option.inject option.distinct split: if_splits)
  then show ?thesis by (simp add: step_value_def)
qed

lemma quantize_unit: "quantize mode 0 y = Some k \<Longrightarrow> k = of_int (mode y)"
  by (simp add: quantize_def Let_def split: if_splits)

text \<open>A price or quantity on the grid of an increment.\<close>

definition on_increment :: "increment \<Rightarrow> rat \<Rightarrow> bool" where
  "on_increment inc x = (\<exists>l k. inc = Some l \<and> 0 < step_value l \<and> x = of_int k * step_value l)"

lemma increment_step_Planned: "increment_step inc f = Planned l \<longleftrightarrow> inc = Some l \<and> 0 < step_value l"
  by (auto simp: increment_step_def split: option.splits)

lemma round_to_increment_Planned:
  assumes "round_to_increment v inc f = Planned x"
  shows "\<exists>l. inc = Some l \<and> 0 < step_value l
    \<and> x = of_int (round_half_up (ddiv v (step_value l))) * step_value l"
proof -
  obtain l k where l: "inc = Some l" "0 < step_value l"
    and k: "quantize round_half_up 0 (ddiv v (step_value l)) = Some k"
    and x: "quantize round_half_even (snd l) (dmul k (step_value l)) = Some x"
    using assms
    unfolding round_to_increment_def bind_outcome_Planned_iff increment_step_Planned or_raise_Planned_iff
    by blast
  show ?thesis using l quantize_steps x unfolding quantize_unit[OF k] by blast
qed

lemma round_down_to_increment_Planned:
  assumes "round_down_to_increment v inc f = Planned x"
  shows "\<exists>l. inc = Some l \<and> 0 < step_value l \<and> 0 < x
    \<and> x = of_int (round_down (ddiv v (step_value l))) * step_value l"
proof -
  obtain l k where l: "inc = Some l" "0 < step_value l"
    and k: "quantize round_down 0 (ddiv v (step_value l)) = Some k"
    and pos: "0 < dmul k (step_value l)"
    and x: "quantize round_half_even (snd l) (dmul k (step_value l)) = Some x"
    using assms
    by (auto simp: round_down_to_increment_def bind_outcome_Planned_iff increment_step_Planned
        Let_def not_le split: if_splits)
  have k': "k = of_int (round_down (ddiv v (step_value l)))" using quantize_unit[OF k] .
  have "x = k * step_value l" using quantize_steps x unfolding k' by blast
  moreover have "0 < k * step_value l" using pos by (simp add: dmul_def dec.rnd_pos_iff)
  ultimately show ?thesis using l k' by auto
qed

lemma rounded_positive_grid:
  assumes "rounded_positive raw' inc f = Planned x"
  shows "on_increment inc x"
  using assms
  by (auto simp: rounded_positive_def bind_outcome_Planned_iff on_increment_def
      split: if_splits dest!: round_to_increment_Planned)

lemma rounded_down_positive_Planned:
  assumes "rounded_down_positive raw' inc f = Planned x"
  shows "on_increment inc x \<and> 0 < x"
  using assms
  by (auto simp: rounded_down_positive_def bind_outcome_Planned_iff on_increment_def
      split: if_splits dest!: round_down_to_increment_Planned)

lemma zone_boundary_price_grid:
  "zone_boundary_price p i = Planned x \<Longrightarrow> on_increment (in_price_increment i) x"
  by (auto simp: zone_boundary_price_def bind_outcome_Planned_iff Let_def on_increment_def
      split: if_splits dest!: round_to_increment_Planned)

lemma build_order_spec_Planned:
  assumes "build_order_spec p i True = Planned sp"
  shows "on_increment (in_quantity_increment i) (sp_quantity sp)" "0 < sp_quantity sp"
    "\<And>x. sp_price sp = Some x \<Longrightarrow> on_increment (in_price_increment i) x"
    "sp_time_in_force sp \<in> set supported_tif"
    "rounded_down_positive (jget p ''quantity'') (in_quantity_increment i) ''quantity''
       = Planned (sp_quantity sp)"
proof -
  obtain q where q: "rounded_down_positive (jget p ''quantity'') (in_quantity_increment i) ''quantity'' = Planned q"
    "sp_quantity sp = q"
    and r: "\<And>x. sp_price sp = Some x \<Longrightarrow> on_increment (in_price_increment i) x"
    "sp_time_in_force sp \<in> set supported_tif"
    using assms
    by (auto simp: build_order_spec_def Let_def bind_outcome_Planned_iff parse_tif_def
        zone_boundary_price_grid rounded_positive_grid split: if_splits)
  show "rounded_down_positive (jget p ''quantity'') (in_quantity_increment i) ''quantity''
       = Planned (sp_quantity sp)" using q by simp
  then show "on_increment (in_quantity_increment i) (sp_quantity sp)" "0 < sp_quantity sp"
    using rounded_down_positive_Planned by blast+
  show "\<And>x. sp_price sp = Some x \<Longrightarrow> on_increment (in_price_increment i) x"
    "sp_time_in_force sp \<in> set supported_tif" using r by blast+
qed

lemma round_half_up_nonneg: "0 \<le> x \<Longrightarrow> 0 \<le> round_half_up x"
  using round_half_up_mono[of 0 x] by (simp add: round_half_up_def)

lemma rounded_positive_units:
  assumes "rounded_positive raw' inc f = Planned x"
  shows "\<exists>l k. inc = Some l \<and> 0 \<le> k \<and> x = of_int k * 10 powi (snd l)"
proof -
  obtain v where v: "0 < v" "round_to_increment v inc f = Planned x"
    using assms by (auto simp: rounded_positive_def bind_outcome_Planned_iff not_le split: if_splits)
  then obtain l where l: "inc = Some l" "0 < step_value l"
    and x: "x = of_int (round_half_up (ddiv v (step_value l))) * step_value l"
    using round_to_increment_Planned by blast
  have "0 \<le> round_half_up (ddiv v (step_value l))"
    using v l by (simp add: round_half_up_nonneg ddiv_def dec.rnd_nonneg)
  moreover have "0 \<le> fst l"
    using zero_less_mult_pos2[of "of_int (fst l) :: rat" "10 powi (snd l)"] l(2)
    by (simp add: step_value_def)
  ultimately have "0 \<le> round_half_up (ddiv v (step_value l)) * fst l" by simp
  moreover have "x = of_int (round_half_up (ddiv v (step_value l)) * fst l) * 10 powi (snd l)"
    by (simp add: x step_value_def)
  ultimately show ?thesis using l(1) by blast
qed

section \<open>Sums on a grid\<close>

text \<open>
  Adding Decimals that are multiples of one unit is exact as long as the total stays below
  $10^{28}$ units, and the running total never shrinks, so a total below that bound is the true sum.
\<close>

lemma dsum_from_ge: "dec acc = acc \<Longrightarrow> \<forall>x \<in> set xs. 0 \<le> x \<Longrightarrow> acc \<le> dsum_from acc xs"
proof (induction xs arbitrary: acc)
  case (Cons x xs)
  then have "acc \<le> dadd acc x" by (simp add: dadd_def dec.stored_le_rnd)
  moreover have "dadd acc x \<le> dsum_from (dadd acc x) xs"
    using Cons by (intro Cons.IH) (simp_all add: dadd_def dec.rnd_idem)
  ultimately show ?case by simp
qed simp

lemma dsum_from_grid_exact:
  assumes "0 \<le> a" "a \<le> 10 ^ 28" "\<forall>x \<in> set xs. \<exists>k \<ge> 0. x = of_int k * 10 powi e"
    "dsum_from (of_int a * 10 powi e) xs < 10 ^ 28 * 10 powi e"
  shows "dsum_from (of_int a * 10 powi e) xs = of_int a * 10 powi e + sum_list xs"
  using assms
proof (induction xs arbitrary: a)
  case (Cons x xs)
  then obtain k where k: "0 \<le> k" "x = of_int k * 10 powi e" by auto
  have sum: "of_int a * 10 powi e + x = of_int (a + k) * 10 powi e"
    by (simp add: k(2) distrib_right)
  have nonneg: "\<forall>y \<in> set xs. 0 \<le> y" using Cons.prems(3) by auto
  have "a + k \<le> 10 ^ 28"
  proof (rule ccontr)
    assume "\<not> a + k \<le> 10 ^ 28"
    then have "(10 ^ 28 :: rat) * 10 powi e \<le> of_int (a + k) * 10 powi e"
      by (intro mult_right_mono) (simp_all add: not_le)
    then have "10 ^ 28 * 10 powi e \<le> dadd (of_int a * 10 powi e) x"
      unfolding dadd_def sum by (rule dec.stored_le_rnd) (rule dec_exact[of _ "10 ^ 28"], simp_all)
    also have "\<dots> \<le> dsum_from (of_int a * 10 powi e) (x # xs)"
      using dsum_from_ge nonneg by (simp add: dadd_def dec.rnd_idem)
    finally show False using Cons.prems(4) by simp
  qed
  moreover from this have "dadd (of_int a * 10 powi e) x = of_int (a + k) * 10 powi e"
    unfolding dadd_def sum using Cons.prems(1) k(1) by (intro dec_exact[of _ "a + k" e]) simp_all
  ultimately show ?case
    using Cons.IH[of "a + k"] Cons.prems k(1) sum by (simp add: add.assoc)
qed simp

lemma dsum_grid_exact:
  assumes "\<forall>x \<in> set xs. \<exists>k \<ge> 0. x = of_int k * 10 powi e" "dsum xs < 10 ^ 28 * 10 powi e"
  shows "dsum xs = sum_list xs"
  using dsum_from_grid_exact[of 0 xs e] assms by (simp add: dsum_def)

end
