(* ===== verification/Client_Order_Ids.thy ===== *)
theory Client_Order_Ids
  imports Json "HOL-Library.Word"
begin

text \<open>
  Client order ids: \<open>encode_client_order_id\<close> and \<open>decode_client_order_id\<close> of the intent execution
  planner, and the robot namespace of \<open>order_ownership.py\<close>, which separates the orders of the robot
  from those a user placed by hand.

  A UUID is its 128-bit integer. \<open>hex\<close> and \<open>str\<close> print it; the constructor reads text the way
  Python's \<open>uuid.UUID\<close> does, with \<open>int(text, 16)\<close> accepting surrounding blanks, a sign, a prefix
  and single underscores between digits.
\<close>

section \<open>UUIDs\<close>

type_synonym uuid = "128 word"

definition hex_digit :: "nat \<Rightarrow> char" where
  "hex_digit n = ''0123456789abcdef'' ! n"

fun hex_digits :: "nat \<Rightarrow> nat \<Rightarrow> string" where
  "hex_digits 0 n = []"
| "hex_digits (Suc k) n = hex_digits k (n div 16) @ [hex_digit (n mod 16)]"

definition uuid_hex :: "uuid \<Rightarrow> string" where
  "uuid_hex u = hex_digits 32 (unat u)"

definition uuid_str :: "uuid \<Rightarrow> string" where
  "uuid_str u =
     (let h = uuid_hex u
      in take 8 h @ ''-'' @ take 4 (drop 8 h) @ ''-'' @ take 4 (drop 12 h) @ ''-'' @
         take 4 (drop 16 h) @ ''-'' @ drop 20 h)"

definition hex_val :: "char \<Rightarrow> nat option" where
  "hex_val c =
     (let n = of_char c :: nat
      in if 48 \<le> n \<and> n \<le> 57 then Some (n - 48)
         else if 97 \<le> n \<and> n \<le> 102 then Some (n - 87)
         else if 65 \<le> n \<and> n \<le> 70 then Some (n - 55)
         else None)"

text \<open>The digits after the first, each possibly preceded by one underscore.\<close>

fun hex_tail :: "nat \<Rightarrow> string \<Rightarrow> nat option" where
  "hex_tail acc [] = Some acc"
| "hex_tail acc (c # cs) =
     (case hex_val c of
        Some v \<Rightarrow> hex_tail (16 * acc + v) cs
      | None \<Rightarrow> if c = CHR ''_'' \<and> cs \<noteq> [] \<and> hex_val (hd cs) \<noteq> None then hex_tail acc cs else None)"

definition hex_number :: "string \<Rightarrow> nat option" where
  "hex_number s = (if s = [] \<or> hex_val (hd s) = None then None else hex_tail 0 s)"

definition parse_int16 :: "string \<Rightarrow> int option" where
  "parse_int16 s =
     (let t = strip s;
          neg = (t \<noteq> [] \<and> hd t = CHR ''-'');
          u = (if t \<noteq> [] \<and> hd t \<in> {CHR ''-'', CHR ''+''} then tl t else t);
          prefixed = (startswith u ''0x'' \<or> startswith u ''0X'');
          v = (if prefixed then drop 2 u else u);
          w = (if prefixed \<and> startswith v ''_'' then tl v else v)
      in map_option (\<lambda>n. if neg then - int n else int n) (hex_number w))"

fun remove_sub :: "string \<Rightarrow> string \<Rightarrow> string" where
  "remove_sub sub [] = []"
| "remove_sub sub (c # cs) =
     (if sub \<noteq> [] \<and> startswith (c # cs) sub then remove_sub sub (drop (length sub - 1) cs)
      else c # remove_sub sub cs)"

definition strip_braces :: "string \<Rightarrow> string" where
  "strip_braces s =
     (let brace = (\<lambda>c. c = CHR ''{'' \<or> c = CHR ''}'')
      in rev (dropWhile brace (rev (dropWhile brace s))))"

definition parse_uuid :: "string \<Rightarrow> uuid result" where
  "parse_uuid s =
     (let h = filter (\<lambda>c. c \<noteq> CHR ''-'') (strip_braces (remove_sub ''uuid:'' (remove_sub ''urn:'' s)))
      in if length h \<noteq> 32 then Inl ValueError
         else case parse_int16 h of
                None \<Rightarrow> Inl ValueError
              | Some n \<Rightarrow> if 0 \<le> n \<and> n < 2 ^ 128 then Inr (of_int n) else Inl ValueError)"

section \<open>The planner's client order ids\<close>

record ClientOrderTrace =
  trace_intent_id :: uuid
  trace_sequence :: int

definition digit_char :: "nat \<Rightarrow> char" where
  "digit_char n = char_of (48 + n)"

definition encode_client_order_id :: "uuid \<Rightarrow> int \<Rightarrow> string result" where
  "encode_client_order_id intent_id seq =
     (if seq < 0 \<or> seq > 99 then Inl ValueError
      else Inr (CHR ''B'' # uuid_hex intent_id @
                [digit_char (nat seq div 10), digit_char (nat seq mod 10)]))"

definition is_ascii_digit :: "char \<Rightarrow> bool" where
  "is_ascii_digit c = (48 \<le> (of_char c :: nat) \<and> (of_char c :: nat) \<le> 57)"

text \<open>
  \<open>isdigit\<close> also accepts the three superscript digits; \<open>int\<close> then raises the same exception.
\<close>

definition decode_client_order_id :: "string \<Rightarrow> ClientOrderTrace result" where
  "decode_client_order_id cid =
     (if length cid \<noteq> 35 \<or> \<not> startswith cid ''B'' then Inl ValueError
      else let intent_hex = take 32 (drop 1 cid); sequence_raw = drop 33 cid
           in if \<not> list_all is_ascii_digit sequence_raw then Inl ValueError
              else bind_result (parse_uuid intent_hex) (\<lambda>u.
                Inr \<lparr>trace_intent_id = u,
                     trace_sequence = foldl (\<lambda>a c. 10 * a + (int (of_char c) - 48)) 0 sequence_raw\<rparr>))"

section \<open>The robot namespace\<close>

definition is_lower_hex :: "char \<Rightarrow> bool" where
  "is_lower_hex c = (is_ascii_digit c \<or> 97 \<le> (of_char c :: nat) \<and> (of_char c :: nat) \<le> 102)"

definition robot_pattern :: "string \<Rightarrow> bool" where
  "robot_pattern s =
     (length s = 35 \<and> hd s = CHR ''B'' \<and> list_all is_lower_hex (take 32 (tl s))
      \<and> list_all is_ascii_digit (drop 33 s))"

definition is_robot_client_order_id :: "string \<Rightarrow> bool" where
  "is_robot_client_order_id value' = robot_pattern (strip value')"

fun first_text :: "json list \<Rightarrow> string" where
  "first_text [] = []"
| "first_text (v # vs) =
     (if v = JNull then first_text vs
      else let t = strip (json_str v) in if t \<noteq> [] then t else first_text vs)"

definition client_order_id_from_row :: "dict \<Rightarrow> string" where
  "client_order_id_from_row row =
     first_text (map (jget row) [''client_order_id'', ''clientOrderId'', ''client_algo_id'', ''clientAlgoId''])"

definition row_is_robot_order :: "dict \<Rightarrow> bool" where
  "row_is_robot_order row = is_robot_client_order_id (client_order_id_from_row row)"

definition row_has_robot_owner :: "dict \<Rightarrow> bool" where
  "row_has_robot_owner row =
     (row_is_robot_order row
      \<or> (case jget row ''tags'' of
            JList tags \<Rightarrow> list_ex (\<lambda>tag. startswith (json_str tag) ''intent_id='') tags
          | _ \<Rightarrow> False)
      \<or> list_ex (\<lambda>k. is_robot_client_order_id (str_or [jget row k] []))
           [''owner_client_order_id'', ''entry_client_order_id'', ''source_client_order_id''])"

section \<open>Digits\<close>

lemma hex_digit_val:
  assumes "n < 16"
  shows "hex_val (hex_digit n) = Some n" "is_lower_hex (hex_digit n)"
proof -
  have "list_all (\<lambda>n. hex_val (hex_digit n) = Some n \<and> is_lower_hex (hex_digit n)) [0..<16]"
    by code_simp
  with assms show "hex_val (hex_digit n) = Some n" "is_lower_hex (hex_digit n)"
    by (auto simp: list_all_iff)
qed

lemma is_lower_hex_digit:
  assumes "is_lower_hex c"
  obtains n where "n < 16" "c = hex_digit n" "hex_val c = Some n"
proof -
  define m :: nat where "m = of_char c"
  have c: "c = char_of m" by (simp add: m_def)
  have "list_all (\<lambda>m. hex_digit (if m \<le> 57 then m - 48 else m - 87) = char_of m)
          ([48..<58] @ [97..<103] :: nat list)"
    by code_simp
  moreover have "m \<in> set ([48..<58] @ [97..<103])"
    unfolding set_append set_upt using assms by (auto simp: is_lower_hex_def is_ascii_digit_def m_def)
  ultimately have "hex_digit (if m \<le> 57 then m - 48 else m - 87) = c"
    unfolding list_all_iff c by blast
  moreover have "(if m \<le> 57 then m - 48 else m - 87) < 16"
    using assms by (auto simp: is_lower_hex_def is_ascii_digit_def m_def)
  ultimately show ?thesis using that hex_digit_val(1) by metis
qed

lemma length_hex_digits [simp]: "length (hex_digits k n) = k"
  by (induction k n rule: hex_digits.induct) auto

lemma hex_digits_lower: "list_all is_lower_hex (hex_digits k n)"
  by (induction k n rule: hex_digits.induct) (simp_all add: hex_digit_val)

lemma hex_tail_lower:
  "list_all is_lower_hex s \<Longrightarrow> hex_tail acc s = Some (foldl (\<lambda>a c. 16 * a + the (hex_val c)) acc s)"
proof (induction s arbitrary: acc)
  case (Cons c s)
  then have "is_lower_hex c" by simp
  then obtain n where "hex_val c = Some n" by (rule is_lower_hex_digit)
  with Cons show ?case by simp
qed simp

lemma foldl_hex_digits: "n < 16 ^ k \<Longrightarrow> foldl (\<lambda>a c. 16 * a + the (hex_val c)) 0 (hex_digits k n) = n"
  by (induction k n rule: hex_digits.induct)
     (simp_all add: hex_digit_val less_mult_imp_div_less mult.commute)

lemma hex_digits_foldl:
  assumes "list_all is_lower_hex s"
  shows "foldl (\<lambda>a c. 16 * a + the (hex_val c)) 0 s < 16 ^ length s
    \<and> hex_digits (length s) (foldl (\<lambda>a c. 16 * a + the (hex_val c)) 0 s) = s"
  using assms
proof (induction s rule: rev_induct)
  case (snoc c s)
  then obtain n where n: "n < 16" "c = hex_digit n" "hex_val c = Some n"
    using is_lower_hex_digit[of c] by auto
  with snoc show ?case by simp
qed simp

lemma is_lower_hex_plain:
  assumes "is_lower_hex c"
  shows "\<not> is_space c" "c \<noteq> CHR ''-''" "c \<noteq> CHR ''+''" "c \<noteq> CHR ''{''" "c \<noteq> CHR ''}''"
    "c \<noteq> CHR ''u''" "c \<noteq> CHR ''x''" "c \<noteq> CHR ''X''"
  using assms by (auto simp: is_lower_hex_def is_ascii_digit_def is_space_def Let_def)

lemma startswith_iff: "startswith s p \<longleftrightarrow> take (length p) s = p"
  by (induction s p rule: startswith.induct) auto

lemma remove_sub_absent: "CHR ''u'' \<notin> set s \<Longrightarrow> remove_sub (CHR ''u'' # p) s = s"
  by (induction s) auto

lemma parse_int16_lower:
  assumes "list_all is_lower_hex s" "length s = 32"
  shows "parse_int16 s = Some (int (foldl (\<lambda>a c. 16 * a + the (hex_val c)) 0 s))"
proof -
  obtain c d t where s: "s = c # d # t" using assms(2) by (cases s; cases "tl s") auto
  then have plain: "is_lower_hex c" "is_lower_hex d" "is_lower_hex (last s)"
    using assms by (auto simp: list_all_iff)
  have "strip s = s"
    using plain is_lower_hex_plain(1) by (intro strip_id) (simp add: s)
  moreover have "\<not> startswith s ''0x'' \<and> \<not> startswith s ''0X''"
    using is_lower_hex_plain[OF plain(2)] by (simp add: s)
  moreover have "hex_val c \<noteq> None" using plain(1) is_lower_hex_digit by (metis option.distinct(1))
  moreover have "s \<noteq> []" "hd s = c" by (simp_all add: s)
  ultimately show ?thesis
    using is_lower_hex_plain[OF plain(1)] hex_tail_lower[OF assms(1), of 0]
    by (simp add: parse_int16_def hex_number_def)
qed

lemma parse_uuid_lower:
  assumes "list_all is_lower_hex s" "length s = 32"
  shows "parse_uuid s = Inr (of_nat (foldl (\<lambda>a c. 16 * a + the (hex_val c)) 0 s))"
proof -
  let ?n = "foldl (\<lambda>a c. 16 * a + the (hex_val c)) 0 s"
  have low: "is_lower_hex c" if "c \<in> set s" for c
    using that assms(1) by (simp add: list_all_iff)
  have nu: "CHR ''u'' \<notin> set s"
    using low is_lower_hex_plain(6) by metis
  have nb: "c \<noteq> CHR ''{'' \<and> c \<noteq> CHR ''}''" "c \<noteq> CHR ''-''" if "c \<in> set s" for c
    using is_lower_hex_plain[OF low[OF that]] by simp_all
  have dw: "dropWhile (\<lambda>c. c = CHR ''{'' \<or> c = CHR ''}'') t = t" if "set t \<subseteq> set s" for t
    using that nb(1)[of "hd t"] by (cases t) simp_all
  have "strip_braces s = s" by (simp add: strip_braces_def Let_def dw)
  moreover have "?n < 16 ^ 32" using hex_digits_foldl[OF assms(1)] assms(2) by metis
  then have "int ?n < 2 ^ 128" by simp
  moreover have "filter (\<lambda>c. c \<noteq> CHR ''-'') s = s" using nb(2) by (simp add: filter_id_conv)
  ultimately show ?thesis
    by (simp add: parse_uuid_def Let_def remove_sub_absent[OF nu] assms parse_int16_lower)
qed

section \<open>Encoding and decoding\<close>

lemma digit_char_digit: "n < 10 \<Longrightarrow> is_ascii_digit (digit_char n) \<and> of_char (digit_char n) = 48 + n"
  by (simp add: is_ascii_digit_def digit_char_def)

lemma length_2_list: "length xs = 2 \<Longrightarrow> \<exists>x y. xs = [x, y]"
  by (auto simp: length_Suc_conv numeral_2_eq_2)

lemma length_uuid_hex [simp]: "length (uuid_hex u) = 32"
  by (simp add: uuid_hex_def)

lemma parse_uuid_hex: "parse_uuid (uuid_hex u) = Inr u"
proof -
  have "unat u < 16 ^ 32" using unsigned_less[of u, where ?'a = nat] by simp
  then show ?thesis
    using parse_uuid_lower[of "uuid_hex u"]
    by (simp add: uuid_hex_def hex_digits_lower foldl_hex_digits)
qed

lemma decode_encode:
  assumes "encode_client_order_id u seq = Inr cid"
  shows "decode_client_order_id cid = Inr \<lparr>trace_intent_id = u, trace_sequence = seq\<rparr>"
    and "robot_pattern cid" and "strip cid = cid"
proof -
  have r: "0 \<le> seq" "seq \<le> 99" and cid: "cid = CHR ''B'' # uuid_hex u @
      [digit_char (nat seq div 10), digit_char (nat seq mod 10)]"
    using assms by (auto simp: encode_client_order_id_def split: if_splits)
  define a b where "a = nat seq div 10" and "b = nat seq mod 10"
  have "nat seq \<le> 99" using r by simp
  then have ab: "a < 10" "b < 10" "nat seq = 10 * a + b" by (simp_all add: a_def b_def)
  then have seq: "seq = 10 * int a + int b" using r by linarith
  have cid': "cid = CHR ''B'' # uuid_hex u @ [digit_char a, digit_char b]"
    by (simp add: cid a_def b_def)
  note d = digit_char_digit[OF ab(1)] digit_char_digit[OF ab(2)]
  show "decode_client_order_id cid = Inr \<lparr>trace_intent_id = u, trace_sequence = seq\<rparr>"
    using d by (simp add: decode_client_order_id_def cid' parse_uuid_hex seq)
  show "robot_pattern cid"
    using d by (simp add: robot_pattern_def cid' uuid_hex_def hex_digits_lower)
  have "\<not> is_space (digit_char b)"
    using d(2) is_lower_hex_plain(1)[of "digit_char b"] by (simp add: is_lower_hex_def)
  then show "strip cid = cid"
    by (intro strip_id) (simp add: cid' is_space_def)
qed

lemma robot_pattern_encoded:
  assumes "robot_pattern s"
  shows "\<exists>u seq. encode_client_order_id u seq = Inr s"
proof -
  define h where "h = take 32 (tl s)"
  obtain x y where xy: "drop 33 s = [x, y]" "is_ascii_digit x" "is_ascii_digit y"
  proof -
    have "length (drop 33 s) = 2" using assms by (simp add: robot_pattern_def)
    then obtain x y where "drop 33 s = [x, y]" using length_2_list by blast
    with assms show ?thesis by (auto simp: robot_pattern_def intro: that)
  qed
  have s: "s = CHR ''B'' # h @ [x, y]"
  proof -
    have "s \<noteq> []" "hd s = CHR ''B''" using assms by (auto simp: robot_pattern_def)
    moreover have "drop 32 (tl s) = [x, y]" using xy(1) by (simp add: drop_Suc flip: drop_Suc)
    ultimately show ?thesis unfolding h_def by (metis append_take_drop_id list.collapse)
  qed
  have h: "list_all is_lower_hex h" "length h = 32"
    using assms by (auto simp: robot_pattern_def h_def)
  define n where "n = foldl (\<lambda>a c. 16 * a + the (hex_val c)) 0 h"
  have n: "n < 16 ^ 32" "hex_digits 32 n = h"
    using hex_digits_foldl[OF h(1)] h(2) by (auto simp: n_def)
  then have "unat (of_nat n :: uuid) = n" by (simp add: unat_of_nat)
  then have hex: "uuid_hex (of_nat n) = h" using n by (simp add: uuid_hex_def)
  define a b :: nat where "a = of_char x - 48" and "b = of_char y - 48"
  have ab: "a \<le> 9" "b \<le> 9" "digit_char a = x" "digit_char b = y"
    using xy(2,3) by (auto simp: is_ascii_digit_def a_def b_def digit_char_def)
  define m where "m = 10 * a + b"
  have "m \<le> 99" "m div 10 = a" "m mod 10 = b" using ab(1,2) by (simp_all add: m_def)
  then have "encode_client_order_id (of_nat n) (int m) = Inr s"
    using ab by (simp add: encode_client_order_id_def hex s)
  then show ?thesis by blast
qed

section \<open>Properties\<close>

text \<open>
  C21. A client order id built from an intent and a sequence number within range is 35 characters
  long, below the exchange's limit of 36, and decodes to exactly that intent and that sequence
  number: the owner of an order can be recovered from the id alone.
\<close>

theorem client_order_id_roundtrip:
  assumes "0 \<le> seq" "seq \<le> 99"
  shows "\<exists>cid. encode_client_order_id u seq = Inr cid \<and> length cid = 35
    \<and> decode_client_order_id cid = Inr \<lparr>trace_intent_id = u, trace_sequence = seq\<rparr>"
proof -
  obtain cid where cid: "encode_client_order_id u seq = Inr cid"
    using assms by (simp add: encode_client_order_id_def)
  then have "length cid = 35" using decode_encode(2)[OF cid] by (simp add: robot_pattern_def)
  with cid decode_encode(1)[OF cid] show ?thesis by blast
qed

theorem client_order_id_roundtrip_witness:
  "\<exists>cid. encode_client_order_id 255 7 = Inr cid \<and> length cid = 35
    \<and> decode_client_order_id cid = Inr \<lparr>trace_intent_id = 255, trace_sequence = 7\<rparr>"
  by (rule client_order_id_roundtrip) simp_all

text \<open>
  The robot namespace is exactly the range of the encoder: an id is taken for one of the robot's
  own orders if and only if, blanks around it aside, the planner can have built it from some intent
  and some sequence number. No id that a user or another program chose in another format is ever
  treated as robot-owned.
\<close>

theorem robot_namespace_is_encoder_range:
  "is_robot_client_order_id cid \<longleftrightarrow> (\<exists>u seq. encode_client_order_id u seq = Inr (strip cid))"
  unfolding is_robot_client_order_id_def
  using robot_pattern_encoded[of "strip cid"] decode_encode(2)[of _ _ "strip cid"] by blast

end
