(* ===== verification/Execution_Ledger.thy ===== *)
theory Execution_Ledger
  imports Client_Order_Ids
begin

text \<open>
  The reconciled execution state of \<open>account_execution_ledger.py\<close>: venue evidence and the local
  cache, added up per book, and the assessment of a book the planner acts on. A book is an
  instrument and a side. The venue snapshot is the JSON payload of the exchange mirror; instants
  carry their time zone, so the subtraction in the freshness test never fails.
\<close>

section \<open>State\<close>

datatype PositionState = KNOWN_FLAT | KNOWN_OPEN | UNKNOWN_POSITION | CONFLICTED

record BookKey =
  book_account_id :: account_id
  book_instrument_id :: string
  book_position_side :: string

record PositionAssessment =
  as_state :: PositionState
  as_quantity :: rat
  as_venue_fresh :: bool
  as_detail :: msg

type_synonym book_id = "symbol \<times> string"
type_synonym quantities = "(book_id \<times> rat) list"

record ReconciledExecutionState =
  rs_account_id :: account_id
  rs_venue_fresh :: bool
  rs_venue_detail :: msg
  rs_venue_quantities :: quantities
  rs_cache_quantities :: quantities
  rs_bot_order_ids :: "(book_id \<times> string list) list"

section \<open>Reading rows\<close>

definition drift_tolerance :: rat where
  "drift_tolerance = 1 / 100"

definition venue_symbol_for_instrument :: "json \<Rightarrow> symbol" where
  "venue_symbol_for_instrument instrument_id =
     (let text = upper (strip (str_or [instrument_id] []))
      in if text = [] then [] else before_char CHR ''.'' (before_char CHR ''-'' text))"

definition position_sides :: "(string \<times> string) list" where
  "position_sides = [(''LONG'', ''LONG''), (''SHORT'', ''SHORT''), (''BUY'', ''LONG''), (''SELL'', ''SHORT'')]"

definition normalize_position_side :: "json \<Rightarrow> string" where
  "normalize_position_side v =
     (case map_of position_sides (upper (strip (str_or [v] []))) of Some s \<Rightarrow> s | None \<Rightarrow> [])"

definition to_decimal :: "json \<Rightarrow> rat option" where
  "to_decimal v = (if v = JNull \<or> v = JStr [] then None else decimal_or_none v)"

definition first_not_none :: "json \<Rightarrow> json \<Rightarrow> json" where
  "first_not_none a b = (if a \<noteq> JNull then a else b)"

fun json_list :: "json \<Rightarrow> json list" where
  "json_list (JList xs) = xs"
| "json_list _ = []"

text \<open>\<open>quantities.get(key, Decimal(0))\<close> and the accumulation into the dict.\<close>

definition quantity_of :: "quantities \<Rightarrow> book_id \<Rightarrow> rat" where
  "quantity_of m k = (case map_of m k of Some q \<Rightarrow> q | None \<Rightarrow> 0)"

definition add_quantity :: "quantities \<Rightarrow> book_id \<times> rat \<Rightarrow> quantities" where
  "add_quantity m e = AList.update (fst e) (dadd (quantity_of m (fst e)) (snd e)) m"

definition sum_quantities :: "(book_id \<times> rat) list \<Rightarrow> quantities" where
  "sum_quantities es = filter (\<lambda>e. snd e \<noteq> 0) (foldl add_quantity [] es)"

fun venue_position_entry :: "json \<Rightarrow> (book_id \<times> rat) option" where
  "venue_position_entry (JObj row) =
     (let symbol = upper (strip (str_or [jget row ''symbol''] []))
      in if symbol = [] then None
         else case to_decimal (first_not_none (jget row ''position_amt'') (jget row ''positionAmt'')) of
                None \<Rightarrow> None
              | Some q \<Rightarrow>
                  if q = 0 then None
                  else let side = normalize_position_side
                             (first_not_none (jget row ''position_side'') (jget row ''positionSide''));
                           side' = (if side \<noteq> [] then side else if q > 0 then ''LONG'' else ''SHORT'')
                       in Some ((symbol, side'), dabs q))"
| "venue_position_entry _ = None"

definition venue_position_quantities :: "dict \<Rightarrow> quantities" where
  "venue_position_quantities snapshot =
     sum_quantities (List.map_filter venue_position_entry (json_list (jget snapshot ''positions'')))"

definition cache_position_entry :: "dict \<Rightarrow> (book_id \<times> rat) option" where
  "cache_position_entry position =
     (let symbol = venue_symbol_for_instrument (jget position ''instrument_id'')
      in if symbol = [] then None
         else let side = normalize_position_side (jget position ''side'')
              in if side = [] then None
                 else case to_decimal (jget position ''quantity'') of
                        None \<Rightarrow> None
                      | Some q \<Rightarrow> if q = 0 then None else Some ((symbol, side), dabs q))"

definition cache_position_quantities :: "dict list \<Rightarrow> quantities" where
  "cache_position_quantities positions = sum_quantities (List.map_filter cache_position_entry positions)"

text \<open>The books an open order of the robot acts on: both sides in one-way mode.\<close>

fun venue_order_entries :: "json \<Rightarrow> (book_id \<times> string) list" where
  "venue_order_entries (JObj row) =
     (let cid = strip (str_or [jget row ''client_order_id'', jget row ''clientOrderId'', jget row ''clientAlgoId''] []);
          symbol = upper (strip (str_or [jget row ''symbol''] []));
          side = normalize_position_side
            (first_not_none (jget row ''position_side'') (jget row ''positionSide''));
          sides = (if side \<noteq> [] then [side] else [''LONG'', ''SHORT''])
      in if \<not> is_robot_client_order_id cid then []
         else if symbol = [] then []
         else map (\<lambda>s. ((symbol, s), cid)) sides)"
| "venue_order_entries _ = []"

definition ids_of :: "(book_id \<times> string list) list \<Rightarrow> book_id \<Rightarrow> string list" where
  "ids_of m k = (case map_of m k of Some ids \<Rightarrow> ids | None \<Rightarrow> [])"

definition add_order_id :: "(book_id \<times> string list) list \<Rightarrow> book_id \<times> string \<Rightarrow> (book_id \<times> string list) list" where
  "add_order_id m e =
     (let bucket = ids_of m (fst e)
      in AList.update (fst e) (if snd e \<in> set bucket then bucket else bucket @ [snd e]) m)"

definition venue_bot_order_ids :: "dict \<Rightarrow> (book_id \<times> string list) list" where
  "venue_bot_order_ids snapshot =
     foldl add_order_id []
       (concat (map venue_order_entries
          (json_list (jget snapshot ''open_orders'') @ json_list (jget snapshot ''algo_orders''))))"

section \<open>Building the state\<close>

definition venue_freshness :: "json \<Rightarrow> instant option \<Rightarrow> instant \<Rightarrow> duration \<Rightarrow> bool \<times> msg" where
  "venue_freshness snapshot fetched_at now window =
     (case snapshot of
        JObj d \<Rightarrow>
          (case fetched_at of
             None \<Rightarrow> (False, [PText ''venue snapshot has no fetch timestamp''])
           | Some t \<Rightarrow>
               let age = now - t
               in if age > window
                  then (False, [PText ''venue snapshot stale: age='', PDuration age,
                                PText '' exceeds freshness window '', PDuration window])
                  else (True, [PText ''venue snapshot fresh'']))
      | _ \<Rightarrow> (False, [PText ''venue snapshot unavailable'']))"

definition build :: "account_id \<Rightarrow> json \<Rightarrow> instant option \<Rightarrow> dict list \<Rightarrow> instant \<Rightarrow> duration
    \<Rightarrow> ReconciledExecutionState" where
  "build account_id snapshot fetched_at cache_positions now window =
     (let fd = venue_freshness snapshot fetched_at now window
      in \<lparr>rs_account_id = account_id, rs_venue_fresh = fst fd, rs_venue_detail = snd fd,
          rs_venue_quantities = (case snapshot of JObj d \<Rightarrow> venue_position_quantities d | _ \<Rightarrow> []),
          rs_cache_quantities = cache_position_quantities cache_positions,
          rs_bot_order_ids = (case snapshot of JObj d \<Rightarrow> venue_bot_order_ids d | _ \<Rightarrow> [])\<rparr>)"

section \<open>Assessing a book\<close>

definition book_lookup_key :: "BookKey \<Rightarrow> book_id" where
  "book_lookup_key b =
     (venue_symbol_for_instrument (JStr (book_instrument_id b)),
      normalize_position_side (JStr (book_position_side b)))"

definition drift_exceeds_tolerance :: "rat \<Rightarrow> rat \<Rightarrow> bool" where
  "drift_exceeds_tolerance venue_quantity cache_quantity =
     (let ref = dabs venue_quantity
      in if ref = 0 then cache_quantity \<noteq> 0
         else ddiv (dabs (dsub (dabs venue_quantity) (dabs cache_quantity))) ref > drift_tolerance)"

definition on_book :: "BookKey \<Rightarrow> msg" where
  "on_book b = [PText '' '', PText (book_position_side b), PText '' on '', PText (book_instrument_id b)]"

definition assess :: "ReconciledExecutionState \<Rightarrow> BookKey \<Rightarrow> PositionAssessment" where
  "assess st b =
     (let key = book_lookup_key b;
          cache_quantity = quantity_of (rs_cache_quantities st) key
      in if \<not> rs_venue_fresh st
         then \<lparr>as_state = UNKNOWN_POSITION, as_quantity = 0, as_venue_fresh = False,
               as_detail = rs_venue_detail st\<rparr>
         else let venue_quantity = quantity_of (rs_venue_quantities st) key
              in if venue_quantity \<noteq> 0
                 then \<lparr>as_state = KNOWN_OPEN, as_quantity = venue_quantity, as_venue_fresh = True,
                       as_detail = [PText ''venue reports '', PDec venue_quantity] @ on_book b @
                         (if cache_quantity \<noteq> 0 \<and> drift_exceeds_tolerance venue_quantity cache_quantity
                          then [PText ''; cache drift: cache='', PDec cache_quantity,
                                PText '' venue='', PDec venue_quantity, PText '' (>1%)'']
                          else if cache_quantity = 0
                          then [PText ''; cache has no position (venue is authoritative)'']
                          else [])\<rparr>
                 else if cache_quantity \<noteq> 0
                 then \<lparr>as_state = CONFLICTED, as_quantity = 0, as_venue_fresh = True,
                       as_detail = [PText ''venue reports flat but cache holds '', PDec cache_quantity]
                         @ on_book b @ [PText '' (phantom position suspected)'']\<rparr>
                 else \<lparr>as_state = KNOWN_FLAT, as_quantity = 0, as_venue_fresh = True,
                       as_detail = PText ''venue and cache agree flat for'' # on_book b\<rparr>)"

definition bot_open_order_client_ids :: "ReconciledExecutionState \<Rightarrow> BookKey \<Rightarrow> string list" where
  "bot_open_order_client_ids st b = ids_of (rs_bot_order_ids st) (book_lookup_key b)"

section \<open>Accumulated quantities\<close>

lemma quantity_of_add: "quantity_of (add_quantity m e) k
    = (if k = fst e then dadd (quantity_of m k) (snd e) else quantity_of m k)"
  by (simp add: quantity_of_def add_quantity_def AList.update_conv)

lemma quantity_of_foldl:
  "quantity_of (foldl add_quantity m es) k
   = dsum_from (quantity_of m k) (map snd (filter (\<lambda>e. fst e = k) es))"
  by (induction es arbitrary: m) (auto simp: quantity_of_add)

lemma distinct_add_quantity: "distinct (map fst m) \<Longrightarrow> distinct (map fst (add_quantity m e))"
  by (simp add: add_quantity_def AList.distinct_update)

lemma distinct_foldl_add: "distinct (map fst m) \<Longrightarrow> distinct (map fst (foldl add_quantity m es))"
  by (induction es arbitrary: m) (simp_all add: distinct_add_quantity)

lemma quantity_of_filter:
  "distinct (map fst m) \<Longrightarrow> quantity_of (filter (\<lambda>e. snd e \<noteq> 0) m) k = quantity_of m k"
proof (induction m)
  case (Cons e m)
  have "map_of (filter (\<lambda>e. snd e \<noteq> 0) m) (fst e) = None"
    using Cons.prems by (force simp: map_of_eq_None_iff)
  with Cons show ?case by (cases e) (auto simp: quantity_of_def)
qed (simp add: quantity_of_def)

lemma quantity_of_sum:
  "quantity_of (sum_quantities es) k = dsum (map snd (filter (\<lambda>e. fst e = k) es))"
proof -
  have "quantity_of [] k = 0" by (simp add: quantity_of_def)
  then show ?thesis
    by (simp add: sum_quantities_def quantity_of_filter distinct_foldl_add quantity_of_foldl dsum_def)
qed

lemma dsum_from_pos:
  "0 \<le> acc \<Longrightarrow> \<forall>x \<in> set xs. 0 < x \<Longrightarrow> xs \<noteq> [] \<or> 0 < acc \<Longrightarrow> 0 < dsum_from acc xs"
proof (induction xs arbitrary: acc)
  case (Cons x xs)
  then have "0 < dadd acc x" by (simp add: dadd_def dec.rnd_pos_iff add_nonneg_pos)
  with Cons show ?case by simp
qed simp

lemma dsum_pos_iff:
  assumes "\<forall>x \<in> set xs. 0 < x"
  shows "0 < dsum xs \<longleftrightarrow> xs \<noteq> []" "dsum xs = 0 \<longleftrightarrow> xs = []"
proof -
  show "0 < dsum xs \<longleftrightarrow> xs \<noteq> []" using dsum_from_pos[of 0 xs] assms by (auto simp: dsum_def)
  then show "dsum xs = 0 \<longleftrightarrow> xs = []" by (cases xs) (auto simp: dsum_def)
qed

lemma dabs_pos: "x \<noteq> 0 \<Longrightarrow> 0 < dabs x"
  by (simp add: dabs_def dec.rnd_pos_iff)

lemma venue_position_entry_pos: "venue_position_entry r = Some e \<Longrightarrow> 0 < snd e"
  by (cases r) (auto simp: Let_def dabs_pos split: if_splits option.splits)

lemma cache_position_entry_pos: "cache_position_entry r = Some e \<Longrightarrow> 0 < snd e"
  by (auto simp: cache_position_entry_def Let_def dabs_pos split: if_splits option.splits)

lemma set_map_filter: "set (List.map_filter f xs) = {y. \<exists>x \<in> set xs. f x = Some y}"
  by (force simp: List.map_filter_def)

section \<open>Properties\<close>

text \<open>The evidence of a book: the amounts of the rows that name it.\<close>

definition venue_evidence :: "json \<Rightarrow> book_id \<Rightarrow> rat list" where
  "venue_evidence snapshot k =
     (case snapshot of
        JObj d \<Rightarrow> map snd (filter (\<lambda>e. fst e = k)
          (List.map_filter venue_position_entry (json_list (jget d ''positions''))))
      | _ \<Rightarrow> [])"

definition cache_evidence :: "dict list \<Rightarrow> book_id \<Rightarrow> rat list" where
  "cache_evidence positions k =
     map snd (filter (\<lambda>e. fst e = k) (List.map_filter cache_position_entry positions))"

lemma venue_quantity_evidence:
  "quantity_of (rs_venue_quantities (build a s f c now w)) k = dsum (venue_evidence s k)"
  by (simp add: build_def Let_def venue_evidence_def venue_position_quantities_def quantity_of_sum
      split: json.split) (simp add: quantity_of_def dsum_def)

lemma cache_quantity_evidence:
  "quantity_of (rs_cache_quantities (build a s f c now w)) k = dsum (cache_evidence c k)"
  by (simp add: build_def Let_def cache_evidence_def cache_position_quantities_def quantity_of_sum)

lemma venue_evidence_pos: "\<forall>x \<in> set (venue_evidence s k). 0 < x"
  using venue_position_entry_pos
  by (force simp: venue_evidence_def set_map_filter split: json.split)

lemma cache_evidence_pos: "\<forall>x \<in> set (cache_evidence c k). 0 < x"
  using cache_position_entry_pos by (force simp: cache_evidence_def set_map_filter)

lemmas evidence_facts = venue_quantity_evidence cache_quantity_evidence
  dsum_pos_iff[OF venue_evidence_pos] dsum_pos_iff[OF cache_evidence_pos]

text \<open>
  C22. The assessment of a book is the adjudication of the evidence. Without a fresh venue
  snapshot the book is unknown. With one, it is open exactly when some venue row holds a non-zero
  amount of it, and then with the positive sum of those amounts; it is conflicted when only the
  cache holds it, and flat when nobody does. In every other case the quantity is zero.
\<close>

theorem assessment_adjudicates_evidence:
  "as_state (assess (build a snapshot fetched cache now w) b) =
     (if \<not> fst (venue_freshness snapshot fetched now w) then UNKNOWN_POSITION
      else if venue_evidence snapshot (book_lookup_key b) \<noteq> [] then KNOWN_OPEN
      else if cache_evidence cache (book_lookup_key b) \<noteq> [] then CONFLICTED else KNOWN_FLAT)
   \<and> as_quantity (assess (build a snapshot fetched cache now w) b) =
     (if as_state (assess (build a snapshot fetched cache now w) b) = KNOWN_OPEN
      then dsum (venue_evidence snapshot (book_lookup_key b)) else 0)
   \<and> (0 < as_quantity (assess (build a snapshot fetched cache now w) b)
      \<longleftrightarrow> as_state (assess (build a snapshot fetched cache now w) b) = KNOWN_OPEN)"
proof -
  have f: "rs_venue_fresh (build a snapshot fetched cache now w)
      = fst (venue_freshness snapshot fetched now w)"
    by (simp add: build_def Let_def)
  show ?thesis by (simp add: assess_def Let_def f evidence_facts)
qed

section \<open>The robot's open orders\<close>

lemma ids_of_add: "ids_of (add_order_id m e) k
    = (if k = fst e \<and> snd e \<notin> set (ids_of m k) then ids_of m k @ [snd e] else ids_of m k)"
  by (simp add: ids_of_def add_order_id_def Let_def AList.update_conv)

lemma ids_of_foldl:
  "set (ids_of (foldl add_order_id m es) k) = set (ids_of m k) \<union> {cid. (k, cid) \<in> set es}"
  by (induction es arbitrary: m) (auto simp: ids_of_add)

lemma distinct_ids_of_foldl:
  "distinct (ids_of m k) \<Longrightarrow> distinct (ids_of (foldl add_order_id m es) k)"
proof (induction es arbitrary: m)
  case (Cons e es)
  then have "distinct (ids_of (add_order_id m e) k)" by (auto simp: ids_of_add)
  then show ?case using Cons.IH by simp
qed simp

text \<open>When an order row belongs to a book of the robot.\<close>

definition robot_order_row :: "dict \<Rightarrow> book_id \<Rightarrow> string \<Rightarrow> bool" where
  "robot_order_row row k cid =
     (is_robot_client_order_id cid \<and> fst k \<noteq> []
      \<and> cid = strip (str_or [jget row ''client_order_id'', jget row ''clientOrderId'', jget row ''clientAlgoId''] [])
      \<and> fst k = upper (strip (str_or [jget row ''symbol''] []))
      \<and> (let s = normalize_position_side (first_not_none (jget row ''position_side'') (jget row ''positionSide''))
          in if s \<noteq> [] then snd k = s else snd k \<in> {''LONG'', ''SHORT''}))"

lemma venue_order_entries_iff:
  "(k, cid) \<in> set (venue_order_entries r) \<longleftrightarrow> (\<exists>row. r = JObj row \<and> robot_order_row row k cid)"
  by (cases r; cases k) (auto simp: Let_def robot_order_row_def)

text \<open>
  The open orders reported for a book are exactly the robot's: an id is listed once and only if
  an open or algo order row of the snapshot carries it, names the book's symbol and its side (or no
  side, in one-way mode), and the id is of the robot's namespace. An order a user placed by hand is
  never among them.
\<close>

theorem bot_open_orders_exact:
  "distinct (bot_open_order_client_ids (build a (JObj d) fetched cache now w) b)
   \<and> set (bot_open_order_client_ids (build a (JObj d) fetched cache now w) b) =
     {cid. \<exists>row. JObj row \<in> set (json_list (jget d ''open_orders'') @ json_list (jget d ''algo_orders''))
        \<and> robot_order_row row (book_lookup_key b) cid}"
proof -
  have e: "ids_of [] k = []" for k by (simp add: ids_of_def)
  show ?thesis
    by (auto simp: bot_open_order_client_ids_def build_def Let_def venue_bot_order_ids_def ids_of_foldl e
        venue_order_entries_iff intro!: distinct_ids_of_foldl)
qed

end
