(* ===== verification/Planner.thy ===== *)
theory Planner
  imports Order_Specs Execution_Ledger
begin

text \<open>
  The intent execution planner (\<open>intent_execution_planner.py\<close>): the function that turns an approved
  intent and what the node knows of positions and open orders into the orders it submits, or denies
  the intent. Payloads are JSON objects; an attribute the intent lacks is an absent key. Instants
  carry their time zone.
\<close>

section \<open>Actions and modes\<close>

definition cancel_order_aliases :: "string list" where
  "cancel_order_aliases = [''cancel'', ''cancel_order'']"

definition entry_actions :: "string list" where
  "entry_actions = [''open_position'', ''add_position'']"

definition exit_actions :: "string list" where
  "exit_actions = [''partial_close'', ''close_position'']"

definition position_required_actions :: "string list" where
  "position_required_actions =
     [''partial_close'', ''close_position'', ''move_stop_loss'', ''move_stop_to_entry'',
      ''replace_take_profits'']"

definition management_actions :: "string list" where
  "management_actions = exit_actions @ position_required_actions @ [''cancel'']"

definition action_permission_matrix :: "(string \<times> string list) list" where
  "action_permission_matrix =
     [(''ACTIVE'', entry_actions @ management_actions),
      (''REDUCING'', management_actions),
      (''HALTED'', management_actions)]"

definition planner_action_allowed :: "string \<Rightarrow> string \<Rightarrow> bool" where
  "planner_action_allowed action mode =
     (case map_of action_permission_matrix (upper mode) of
        Some allowed \<Rightarrow> action \<in> set allowed | None \<Rightarrow> False)"

section \<open>Data\<close>

record PositionSnapshot =
  ps_instrument_id :: string
  ps_side :: string
  ps_quantity :: json
  ps_position_id :: "string option"
  ps_entry_price :: json

record OrderSnapshot =
  os_client_order_id :: string
  os_instrument_id :: string
  os_order_type :: string
  os_side :: string
  os_quantity :: json
  os_price :: json
  os_trigger_price :: json
  os_tags :: "string list"

record PlannerContext =
  cx_account_id :: account_id
  cx_trading_state :: string
  cx_now :: instant
  cx_instrument :: "InstrumentSpec option"
  cx_position :: "PositionSnapshot option"
  cx_positions :: "PositionSnapshot list"
  cx_existing_orders :: "OrderSnapshot list"
  cx_existing_intent_ids :: "string list"
  cx_effective_settings :: dict
  cx_reconciled_state :: "ReconciledExecutionState option"
  cx_simulation :: bool

record OrderPlan =
  op_intent_id :: uuid
  op_client_order_id :: string
  op_tags :: "string list"
  op_instrument_id :: string
  op_side :: string
  op_order_type :: string
  op_quantity :: rat
  op_price :: "rat option"
  op_time_in_force :: string
  op_reduce_only :: bool
  op_trigger_price :: "rat option"
  op_post_only :: bool
  op_max_slippage_bps :: "rat option"
  op_guard_price :: "rat option"
  op_approved_max_notional :: "rat option"

record ManagementPlan =
  mp_intent_id :: uuid
  mp_action :: string
  mp_instrument_id :: string
  mp_target_position_id :: "string option"
  mp_target_position_side :: "string option"
  mp_cancel_order_ids :: "string list"
  mp_orders :: "OrderPlan list"
  mp_cancel_after_submit :: bool
  mp_authorization :: "(string \<times> string) list"
  mp_disable_take_profits :: bool

datatype plan = Entry OrderPlan | Management ManagementPlan

record Intent =
  it_action :: string
  it_intent_id :: uuid
  it_decision_id :: string
  it_risk_decision_id :: string
  it_idempotency_key :: string
  it_account_id :: account_id
  it_instrument_id :: string
  it_valid_until :: instant
  it_order_plan :: dict
  it_execution :: "dict option"
  it_sizing :: "dict option"
  it_risk_budget :: "dict option"
  it_target_position_id :: "string option"

section \<open>Reading fields\<close>

definition opt_get :: "dict option \<Rightarrow> string \<Rightarrow> json" where
  "opt_get obj name = (case obj of None \<Rightarrow> JNull | Some d \<Rightarrow> jget d name)"

fun json_field :: "json \<Rightarrow> string \<Rightarrow> json" where
  "json_field (JObj d) name = jget d name"
| "json_field _ name = JNull"

fun first_present :: "json list \<Rightarrow> json" where
  "first_present [] = JNull"
| "first_present (v # vs) = (if v \<noteq> JNull then v else first_present vs)"

definition dict_pop :: "dict \<Rightarrow> string \<Rightarrow> dict" where
  "dict_pop d k = filter (\<lambda>e. fst e \<noteq> k) d"

definition set_present :: "dict \<Rightarrow> string \<Rightarrow> json \<Rightarrow> dict" where
  "set_present d k v = (if v \<noteq> JNull then dict_set d k v else d)"

text \<open>\<open>Decimal(str(v))\<close>, which raises on text that is no number.\<close>

definition decimal_of :: "json \<Rightarrow> rat outcome" where
  "decimal_of v = or_raise InvalidOperation (decimal_or_none v)"

definition optional_decimal_string :: "json \<Rightarrow> rat option" where
  "optional_decimal_string v = map_option dec (decimal_or_none v)"

definition guard_price :: "dict \<Rightarrow> InstrumentSpec \<Rightarrow> rat option outcome" where
  "guard_price order_plan instrument =
     (let raw' = first_present (map (jget order_plan)
            [''guard_price'', ''reference_price'', ''entry_price'', ''entry'', ''price''])
      in if raw' = JNull then Planned None
         else case rounded_positive raw' (in_price_increment instrument) ''guard_price'' of
                Planned x \<Rightarrow> Planned (Some x)
              | Denied r d \<Rightarrow> Planned None
              | Raised e \<Rightarrow> Raised e)"

section \<open>Authorization and tags\<close>

definition auth_denied :: "string \<Rightarrow> 'a outcome" where
  "auth_denied d = Denied ''authorization_source_required'' [PText d]"

definition supplied_text :: "dict \<Rightarrow> string \<Rightarrow> string" where
  "supplied_text d k = strip (str_or [jget d k] [])"

definition authorization_source :: "Intent \<Rightarrow> (string \<times> string) list outcome" where
  "authorization_source it =
     (let supplied = (case jget (it_order_plan it) ''authorization'' of JObj d \<Rightarrow> d | _ \<Rightarrow> []);
          intent_id = uuid_str (it_intent_id it);
          supplied_parent = supplied_text supplied ''parent_intent_id'';
          parent_intent_id = (case parse_uuid supplied_parent of Inr u \<Rightarrow> supplied_parent | Inl e \<Rightarrow> intent_id);
          authorized_by_type = supplied_text supplied ''authorized_by_type'';
          authorized_by_id = supplied_text supplied ''authorized_by_id'';
          source_message_id = supplied_text supplied ''source_message_id'';
          channel_id = jget supplied ''channel_id''
      in if authorized_by_type \<notin> {''user'', ''channel''}
         then auth_denied ''authorized_by_type must be user or channel''
         else if authorized_by_id = [] then auth_denied ''authorized_by_id''
         else if source_message_id = [] then auth_denied ''source_message_id''
         else Planned ([(''authorized_by_type'', authorized_by_type),
                        (''authorized_by_id'', authorized_by_id),
                        (''source_message_id'', source_message_id),
                        (''parent_intent_id'', parent_intent_id),
                        (''current_intent_id'', intent_id),
                        (''decision_id'', it_decision_id it),
                        (''risk_decision_id'', it_risk_decision_id it),
                        (''idempotency_key'', it_idempotency_key it)]
                       @ (if truthy channel_id then [(''channel_id'', json_str channel_id)] else [])))"

definition auth_get :: "(string \<times> string) list \<Rightarrow> string \<Rightarrow> string" where
  "auth_get a k = (case map_of a k of Some v \<Rightarrow> v | None \<Rightarrow> [])"

definition tag :: "string \<Rightarrow> string \<Rightarrow> string" where
  "tag k v = k @ ''='' @ v"

definition opt_tag :: "string \<Rightarrow> string option \<Rightarrow> string list" where
  "opt_tag k v = (case v of None \<Rightarrow> [] | Some x \<Rightarrow> [tag k x])"

definition intent_tags :: "Intent \<Rightarrow> string \<Rightarrow> string option \<Rightarrow> string option \<Rightarrow> string list" where
  "intent_tags it action lifecycle_role position_id =
     (let tags = [tag ''intent_id'' (uuid_str (it_intent_id it)),
                  tag ''decision_id'' (it_decision_id it),
                  tag ''risk_decision_id'' (it_risk_decision_id it),
                  tag ''idempotency_key'' (it_idempotency_key it),
                  tag ''action'' action,
                  tag ''account_id'' (it_account_id it)]
      in case authorization_source it of
           Planned a \<Rightarrow>
             tags @ map (\<lambda>k. tag k (auth_get a k)) [''parent_intent_id'', ''authorized_by_type'', ''authorized_by_id'']
             @ (if auth_get a ''source_message_id'' \<noteq> [] then [tag ''source_message_id'' (auth_get a ''source_message_id'')] else [])
             @ (if auth_get a ''channel_id'' \<noteq> [] then [tag ''channel_id'' (auth_get a ''channel_id'')] else [])
             @ opt_tag ''lifecycle_role'' lifecycle_role @ opt_tag ''position_id'' position_id
         | _ \<Rightarrow> tags)"

definition tag_values :: "string list \<Rightarrow> string \<Rightarrow> string list" where
  "tag_values tags key =
     filter (\<lambda>v. v \<noteq> [])
       (map (\<lambda>t. strip (after_char CHR ''='' t)) (filter (\<lambda>t. startswith t (key @ ''='')) tags))"

definition encode_or_raise :: "uuid \<Rightarrow> int \<Rightarrow> string outcome" where
  "encode_or_raise u n = (case encode_client_order_id u n of Inl e \<Rightarrow> Raised e | Inr s \<Rightarrow> Planned s)"

section \<open>Positions\<close>

definition context_positions :: "PlannerContext \<Rightarrow> PositionSnapshot list" where
  "context_positions cx =
     (if cx_positions cx \<noteq> [] then cx_positions cx
      else case cx_position cx of Some p \<Rightarrow> [p] | None \<Rightarrow> [])"

definition planner_exit_side :: "PositionSnapshot \<Rightarrow> string" where
  "planner_exit_side p = (if upper (ps_side p) = ''LONG'' then ''SELL'' else ''BUY'')"

text \<open>The positions of an instrument with a quantity other than zero; reading a quantity may raise.\<close>

fun open_positions :: "string \<Rightarrow> PositionSnapshot list \<Rightarrow> PositionSnapshot list outcome" where
  "open_positions instrument_id [] = Planned []"
| "open_positions instrument_id (p # ps) =
     (if ps_instrument_id p \<noteq> instrument_id then open_positions instrument_id ps
      else bind_outcome (decimal_of (ps_quantity p)) (\<lambda>q.
           bind_outcome (open_positions instrument_id ps) (\<lambda>rest.
           Planned (if q \<noteq> 0 then p # rest else rest))))"

definition reconciled_assessment :: "PlannerContext \<Rightarrow> string \<Rightarrow> string \<Rightarrow> PositionAssessment option" where
  "reconciled_assessment cx instrument_id position_side =
     map_option (\<lambda>st. assess st \<lparr>book_account_id = cx_account_id cx, book_instrument_id = instrument_id,
        book_position_side = position_side\<rparr>) (cx_reconciled_state cx)"

definition target_position_id_side :: "string option \<Rightarrow> string" where
  "target_position_id_side target =
     (let text = upper (strip (case target of None \<Rightarrow> [] | Some t \<Rightarrow> t))
      in if endswith text ''-LONG'' then ''LONG''
         else if endswith text ''-SHORT'' then ''SHORT'' else [])"

definition target_text :: "string option \<Rightarrow> string" where
  "target_text target = (case target of None \<Rightarrow> ''None'' | Some t \<Rightarrow> t)"

definition reconciled_target_position ::
  "PlannerContext \<Rightarrow> string \<Rightarrow> string \<Rightarrow> string option \<Rightarrow> PositionSnapshot outcome option" where
  "reconciled_target_position cx instrument_id requested_side target =
     (if cx_reconciled_state cx = None then None
      else let id_side = target_position_id_side target;
               text = strip (case target of None \<Rightarrow> [] | Some t \<Rightarrow> t);
               prefix = strip (take (length text - (length id_side + 1)) text);
               book_side = (if requested_side \<noteq> [] then requested_side else id_side);
               sides = (if book_side \<noteq> [] then [book_side] else [''LONG'', ''SHORT'']);
               assessed = map (\<lambda>side. (side, the (reconciled_assessment cx instrument_id side))) sides;
               open_books = filter (\<lambda>e. as_state (snd e) = KNOWN_OPEN) assessed
           in Some (
             if id_side \<noteq> [] \<and> prefix \<noteq> [] \<and> upper prefix \<noteq> upper (strip instrument_id)
             then Denied ''position_required'' [PText (target_text target)]
             else if requested_side \<noteq> [] \<and> id_side \<noteq> [] \<and> requested_side \<noteq> id_side
             then Denied ''position_side_mismatch''
                    [PText ''requested='', PText requested_side, PText '',target_position_id='',
                     PText (target_text target)]
             else case List.find (\<lambda>e. as_state (snd e) = UNKNOWN_POSITION) assessed of
               Some e \<Rightarrow> Denied ''position_state_unknown'' (as_detail (snd e))
             | None \<Rightarrow>
                (case List.find (\<lambda>e. as_state (snd e) = CONFLICTED) assessed of
                   Some e \<Rightarrow> Denied ''position_state_conflicted'' (as_detail (snd e))
                 | None \<Rightarrow>
                    (case open_books of
                       [] \<Rightarrow> Denied ''position_required''
                               (if target \<noteq> None \<and> target \<noteq> Some [] then [PText (target_text target)]
                                else if book_side \<noteq> [] then [PText instrument_id, PText '':'', PText book_side]
                                else [PText instrument_id])
                     | [e] \<Rightarrow> Planned \<lparr>ps_instrument_id = instrument_id, ps_side = fst e,
                                ps_quantity = JDec (as_quantity (snd e)),
                                ps_position_id = Some (instrument_id @ ''-'' @ fst e),
                                ps_entry_price = JNull\<rparr>
                     | _ \<Rightarrow> Denied ''position_not_unique'' [PText instrument_id]))))"

definition or_fallback :: "'a outcome option \<Rightarrow> 'a outcome \<Rightarrow> 'a outcome" where
  "or_fallback fb r = (case fb of Some x \<Rightarrow> x | None \<Rightarrow> r)"

definition select_target_position :: "Intent \<Rightarrow> PlannerContext \<Rightarrow> string \<Rightarrow> PositionSnapshot outcome" where
  "select_target_position it cx instrument_id =
     (let requested_side = upper (strip (str_or [jget (it_order_plan it) ''position_side''] []));
          target = it_target_position_id it;
          fallback = reconciled_target_position cx instrument_id requested_side target
      in if requested_side \<noteq> [] \<and> requested_side \<notin> {''LONG'', ''SHORT''}
         then spec_denied ''position_side''
         else bind_outcome (open_positions instrument_id (context_positions cx)) (\<lambda>positions.
           if target \<noteq> None \<and> target \<noteq> Some []
           then (case filter (\<lambda>p. ps_position_id p = target) positions of
                   [] \<Rightarrow> or_fallback fallback (Denied ''position_required'' [PText (target_text target)])
                 | [selected] \<Rightarrow>
                     if requested_side \<noteq> [] \<and> upper (ps_side selected) \<noteq> requested_side
                     then or_fallback fallback
                            (Denied ''position_side_mismatch''
                               [PText ''requested='', PText requested_side, PText '',actual='',
                                PText (upper (ps_side selected))])
                     else Planned selected
                 | _ \<Rightarrow> Denied ''position_not_unique'' [PText (target_text target)])
           else if requested_side = []
           then (case positions of
                   [] \<Rightarrow> or_fallback fallback (Denied ''position_required'' [PText instrument_id])
                 | [p] \<Rightarrow> Planned p
                 | _ \<Rightarrow> Denied ''position_not_unique'' [PText instrument_id])
           else (case filter (\<lambda>p. upper (ps_side p) = requested_side) positions of
                   [] \<Rightarrow> or_fallback fallback
                          (Denied ''position_required'' [PText instrument_id, PText '':'', PText requested_side])
                 | [p] \<Rightarrow> Planned p
                 | _ \<Rightarrow> Denied ''position_not_unique'' [PText instrument_id, PText '':'', PText requested_side])))"

section \<open>Exits, stops and take profits\<close>

definition resolve_exit_quantity :: "dict \<Rightarrow> PositionSnapshot \<Rightarrow> bool \<Rightarrow> rat option outcome" where
  "resolve_exit_quantity order_plan position required =
     (let raw_quantity = jget order_plan ''quantity''; raw_fraction = jget order_plan ''fraction''
      in if raw_quantity \<noteq> JNull \<and> raw_fraction \<noteq> JNull then spec_denied ''quantity_and_fraction''
         else if raw_fraction \<noteq> JNull
         then bind_outcome (decimal_field raw_fraction ''fraction'') (\<lambda>fraction.
              if fraction \<le> 0 \<or> fraction > 1 then spec_denied ''fraction''
              else bind_outcome (decimal_of (ps_quantity position)) (\<lambda>q. Planned (Some (dmul q fraction))))
         else if raw_quantity \<noteq> JNull
         then bind_outcome (decimal_field raw_quantity ''quantity'') (\<lambda>quantity.
              if quantity \<le> 0 then spec_denied ''quantity'' else Planned (Some quantity))
         else if required then spec_denied ''quantity_or_fraction_required''
         else Planned None)"

definition deny_if_quantity_exceeds_position :: "rat \<Rightarrow> json \<Rightarrow> unit outcome" where
  "deny_if_quantity_exceeds_position quantity position_quantity =
     bind_outcome (decimal_of position_quantity) (\<lambda>q.
     if quantity > q then Denied ''quantity_exceeds_position'' [PDec quantity, PText ''>'', PDec q]
     else Planned ())"

definition opt_json :: "rat option \<Rightarrow> json" where
  "opt_json v = (case v of Some x \<Rightarrow> JDec x | None \<Rightarrow> JNull)"

text \<open>The fields the lifecycle orders share: they are reduce-only and carry no entry guards.\<close>

definition lifecycle_order :: "Intent \<Rightarrow> string \<Rightarrow> string list \<Rightarrow> string \<Rightarrow> string \<Rightarrow> rat \<Rightarrow> rat option
    \<Rightarrow> string \<Rightarrow> rat option \<Rightarrow> OrderPlan" where
  "lifecycle_order it cid tags side order_type quantity price tif trigger =
     \<lparr>op_intent_id = it_intent_id it, op_client_order_id = cid, op_tags = tags,
      op_instrument_id = it_instrument_id it, op_side = side, op_order_type = order_type,
      op_quantity = quantity, op_price = price, op_time_in_force = tif, op_reduce_only = True,
      op_trigger_price = trigger, op_post_only = False, op_max_slippage_bps = None,
      op_guard_price = None, op_approved_max_notional = None\<rparr>"

definition build_exit_order ::
  "Intent \<Rightarrow> string \<Rightarrow> dict \<Rightarrow> InstrumentSpec \<Rightarrow> PositionSnapshot \<Rightarrow> string \<Rightarrow> OrderPlan outcome" where
  "build_exit_order it action order_plan instrument position side =
     (let normalized = dict_set order_plan ''side'' (JStr (lower side))
      in bind_outcome
           (if jget normalized ''quantity'' = JNull
            then bind_outcome (resolve_exit_quantity normalized position True) (\<lambda>sized.
                 Planned (dict_pop (dict_set normalized ''quantity'' (opt_json sized)) ''fraction''))
            else Planned normalized) (\<lambda>plan.
         bind_outcome (build_order_spec plan instrument True) (\<lambda>spec.
         bind_outcome (deny_if_quantity_exceeds_position (sp_quantity spec) (ps_quantity position)) (\<lambda>_.
         bind_outcome (encode_or_raise (it_intent_id it) 1) (\<lambda>cid.
         Planned (lifecycle_order it cid (intent_tags it action (Some ''exit'') (ps_position_id position))
           side (sp_order_type spec) (sp_quantity spec) (sp_price spec) (sp_time_in_force spec) None))))))"

definition build_stop_order ::
  "Intent \<Rightarrow> string \<Rightarrow> dict \<Rightarrow> InstrumentSpec \<Rightarrow> PositionSnapshot \<Rightarrow> string \<Rightarrow> OrderPlan outcome" where
  "build_stop_order it action order_plan instrument position side =
     (let order_type = lower (json_str (jget_or order_plan ''type'' (JStr ''stop_market'')))
      in if order_type \<notin> {''stop_market'', ''stop_limit''} then spec_denied (''type='' @ order_type)
         else
           bind_outcome (rounded_positive (jget_or order_plan ''stop_price'' (jget order_plan ''trigger_price''))
             (in_price_increment instrument) ''stop_price'') (\<lambda>trigger_price.
           bind_outcome
             (if order_type = ''stop_limit''
              then bind_outcome (rounded_positive (jget_or order_plan ''limit_price'' (jget order_plan ''price''))
                     (in_price_increment instrument) ''limit_price'') (\<lambda>x. Planned (Some x))
              else Planned None) (\<lambda>price.
           bind_outcome (rounded_positive (ps_quantity position) (in_quantity_increment instrument) ''quantity'')
             (\<lambda>quantity.
           bind_outcome (parse_tif (jget order_plan ''time_in_force'') ''GTC'') (\<lambda>tif.
           bind_outcome (encode_or_raise (it_intent_id it) 1) (\<lambda>cid.
           Planned (lifecycle_order it cid
             (intent_tags it action (Some ''stop_loss'') (ps_position_id position)) side
             (if order_type = ''stop_limit'' then ''STOP_LIMIT'' else ''STOP_MARKET'')
             quantity price tif (Some trigger_price))))))))"

definition tp_field :: "nat \<Rightarrow> string \<Rightarrow> string" where
  "tp_field i suffix = ''take_profits['' @ show_nat i @ '']'' @ suffix"

definition build_take_profit_order ::
  "Intent \<Rightarrow> dict \<Rightarrow> InstrumentSpec \<Rightarrow> PositionSnapshot \<Rightarrow> string \<Rightarrow> nat \<Rightarrow> json \<Rightarrow> OrderPlan outcome" where
  "build_take_profit_order it order_plan instrument position side i raw_target =
     (case raw_target of
        JObj target \<Rightarrow>
          bind_outcome (rounded_positive (jget target ''quantity'') (in_quantity_increment instrument)
            (tp_field i ''.quantity'')) (\<lambda>quantity.
          bind_outcome (rounded_positive (jget_or target ''trigger_price'' (jget target ''price''))
            (in_price_increment instrument) (tp_field i ''.price'')) (\<lambda>trigger_price.
          bind_outcome (parse_tif (jget_or target ''time_in_force'' (jget order_plan ''time_in_force'')) ''GTC'')
            (\<lambda>tif.
          bind_outcome (encode_or_raise (it_intent_id it) (int (Suc i))) (\<lambda>cid.
          Planned (lifecycle_order it cid
            (intent_tags it ''replace_take_profits'' (Some ''take_profit'') (ps_position_id position)
               @ [tag ''take_profit_index'' (show_nat (Suc i))])
            side ''MARKET_IF_TOUCHED'' quantity None tif (Some trigger_price))))))
      | _ \<Rightarrow> spec_denied (tp_field i []))"

fun take_profit_loop ::
  "(nat \<Rightarrow> json \<Rightarrow> OrderPlan outcome) \<Rightarrow> nat \<Rightarrow> rat \<Rightarrow> OrderPlan list \<Rightarrow> json list
    \<Rightarrow> (rat \<times> OrderPlan list) outcome" where
  "take_profit_loop mk i tot orders [] = Planned (tot, orders)"
| "take_profit_loop mk i tot orders (t # ts) =
     bind_outcome (mk i t) (\<lambda>order.
     take_profit_loop mk (Suc i) (dadd tot (op_quantity order)) (orders @ [order]) ts)"

definition build_take_profit_orders ::
  "Intent \<Rightarrow> dict \<Rightarrow> InstrumentSpec \<Rightarrow> PositionSnapshot \<Rightarrow> string \<Rightarrow> OrderPlan list outcome" where
  "build_take_profit_orders it order_plan instrument position side =
     (case jget_or order_plan ''take_profits'' (jget order_plan ''targets'') of
        JList raw_targets \<Rightarrow>
          if raw_targets = []
          then (if jget order_plan ''disable_take_profits'' \<noteq> JBool True
                then spec_denied ''disable_take_profits=true required for empty take_profits''
                else Planned [])
          else bind_outcome (take_profit_loop (build_take_profit_order it order_plan instrument position side)
                 0 0 [] raw_targets) (\<lambda>(tot, orders).
               bind_outcome (decimal_of (ps_quantity position)) (\<lambda>position_quantity.
               if tot > position_quantity
               then Denied ''quantity_exceeds_position'' [PDec tot, PText ''>'', PDec position_quantity]
               else Planned orders))
      | _ \<Rightarrow> spec_denied ''take_profits'')"

definition matching_lifecycle_order_ids ::
  "OrderSnapshot list \<Rightarrow> string option \<Rightarrow> string option \<Rightarrow> string \<Rightarrow> string list" where
  "matching_lifecycle_order_ids orders role position_id instrument_id =
     (case role of
        None \<Rightarrow> []
      | Some r \<Rightarrow>
          map os_client_order_id
            (filter (\<lambda>order. os_instrument_id order = instrument_id
               \<and> tag ''lifecycle_role'' r \<in> set (os_tags order)
               \<and> (case position_id of None \<Rightarrow> True | Some p \<Rightarrow> tag ''position_id'' p \<in> set (os_tags order)))
             orders))"

text \<open>The orders of a management intent, the role of the orders it replaces, and its two flags.\<close>

definition management_orders :: "Intent \<Rightarrow> string \<Rightarrow> InstrumentSpec \<Rightarrow> PositionSnapshot
    \<Rightarrow> (OrderPlan list \<times> string option \<times> bool \<times> bool) outcome" where
  "management_orders it action instrument position =
     (let order_plan = it_order_plan it; side = planner_exit_side position
      in if action = ''partial_close'' then
           bind_outcome (resolve_exit_quantity order_plan position True) (\<lambda>sized.
           bind_outcome (build_exit_order it action
             (dict_set (dict_pop order_plan ''fraction'') ''quantity'' (opt_json sized)) instrument position side)
             (\<lambda>order. Planned ([order], None, False, False)))
         else if action = ''close_position'' then
           bind_outcome (resolve_exit_quantity order_plan position False) (\<lambda>sized.
           bind_outcome (decimal_of (ps_quantity position)) (\<lambda>full.
           if (case sized of Some s \<Rightarrow> s < full | None \<Rightarrow> False)
           then Denied ''ambiguous_partial_on_close'' [PDec (the sized), PText ''<'', PDec full]
           else if (case sized of Some s \<Rightarrow> s > full | None \<Rightarrow> False)
           then Denied ''quantity_exceeds_position'' [PDec (the sized), PText ''>'', PDec full]
           else bind_outcome (build_exit_order it action
             (dict_set (dict_pop order_plan ''fraction'') ''quantity'' (ps_quantity position)) instrument position side)
             (\<lambda>order. Planned ([order], None, False, False))))
         else if action = ''move_stop_loss'' then
           bind_outcome (build_stop_order it action order_plan instrument position side)
             (\<lambda>order. Planned ([order], Some ''stop_loss'', True, False))
         else if action = ''move_stop_to_entry'' then
           (let entry_price = jor (ps_entry_price position) (jget order_plan ''entry_price'')
            in if entry_price = JNull
               then Denied ''position_entry_price_required''
                 [PText (case ps_position_id position of Some p \<Rightarrow> if p \<noteq> [] then p else it_instrument_id it
                         | None \<Rightarrow> it_instrument_id it)]
               else bind_outcome (build_stop_order it action (dict_set order_plan ''stop_price'' entry_price)
                      instrument position side)
                      (\<lambda>order. Planned ([order], Some ''stop_loss'', True, False)))
         else if action = ''replace_take_profits'' then
           bind_outcome (build_take_profit_orders it order_plan instrument position side) (\<lambda>orders.
           Planned (orders, Some ''take_profit'', False, jget order_plan ''disable_take_profits'' = JBool True))
         else Denied ''unsupported_action'' [PText action])"

definition plan_management_intent :: "Intent \<Rightarrow> string \<Rightarrow> PlannerContext \<Rightarrow> InstrumentSpec \<Rightarrow> ManagementPlan outcome" where
  "plan_management_intent it action cx instrument =
     bind_outcome (select_target_position it cx (it_instrument_id it)) (\<lambda>position.
     bind_outcome (authorization_source it) (\<lambda>auth.
     bind_outcome (management_orders it action instrument position) (\<lambda>(orders, role, after, disable).
     Planned \<lparr>mp_intent_id = it_intent_id it, mp_action = action, mp_instrument_id = it_instrument_id it,
       mp_target_position_id = ps_position_id position, mp_target_position_side = Some (ps_side position),
       mp_cancel_order_ids = matching_lifecycle_order_ids (cx_existing_orders cx) role
         (ps_position_id position) (it_instrument_id it),
       mp_orders = orders, mp_cancel_after_submit = after, mp_authorization = auth,
       mp_disable_take_profits = disable\<rparr>)))"

section \<open>Cancelling\<close>

definition validate_cancel_order_ownership :: "OrderSnapshot \<Rightarrow> PlannerContext \<Rightarrow> unit outcome" where
  "validate_cancel_order_ownership order cx =
     (let target = os_client_order_id order;
          unverified = Denied ''order_ownership_unverified'' [PText target]
      in case decode_client_order_id target of
           Inl e \<Rightarrow> unverified
         | Inr trace \<Rightarrow>
             if os_tags order = [] then Planned ()
             else let account_ids = set (tag_values (os_tags order) ''account_id'');
                      intent_ids = set (tag_values (os_tags order) ''intent_id'')
                  in if account_ids \<noteq> {} \<and> account_ids \<noteq> {cx_account_id cx} then unverified
                     else if intent_ids \<noteq> {} \<and> intent_ids \<noteq> {uuid_str (trace_intent_id trace)} then unverified
                     else Planned ())"

definition plan_cancel_order_intent :: "Intent \<Rightarrow> PlannerContext \<Rightarrow> ManagementPlan outcome" where
  "plan_cancel_order_intent it cx =
     (let instrument_id = it_instrument_id it;
          target = strip (str_or [jget (it_order_plan it) ''cancel_client_order_id''] [])
      in if target = [] then spec_denied ''cancel_client_order_id''
         else case filter (\<lambda>o'. os_instrument_id o' = instrument_id \<and> os_client_order_id o' = target)
                     (cx_existing_orders cx) of
           [] \<Rightarrow> Denied ''order_not_found'' [PText target]
         | [order] \<Rightarrow>
             bind_outcome (validate_cancel_order_ownership order cx) (\<lambda>_.
             bind_outcome (authorization_source it) (\<lambda>auth.
             Planned \<lparr>mp_intent_id = it_intent_id it, mp_action = ''cancel'', mp_instrument_id = instrument_id,
               mp_target_position_id = None, mp_target_position_side = None,
               mp_cancel_order_ids = [target], mp_orders = [], mp_cancel_after_submit = False,
               mp_authorization = auth, mp_disable_take_profits = False\<rparr>))
         | _ \<Rightarrow> Denied ''order_not_unique'' [PText target])"

section \<open>Entries\<close>

definition entry_order_plan :: "Intent \<Rightarrow> PlannerContext \<Rightarrow> dict outcome" where
  "entry_order_plan it cx =
     (let order_plan = it_order_plan it; execution = it_execution it; sizing = it_sizing it;
          settings = cx_effective_settings cx
      in if execution = None \<and> sizing = None then Planned order_plan
         else if opt_get execution ''reduce_only'' = JBool True then spec_denied ''entry.reduce_only''
         else
           let order_type = first_present [opt_get execution ''order_type'', jget order_plan ''type'', jget settings ''order_type''];
               p1 = (if order_type \<noteq> JNull then dict_set order_plan ''type'' (JStr (json_str order_type)) else order_plan);
               quantity = first_present [opt_get sizing ''quantity'', jget p1 ''quantity'']
           in if quantity = JNull \<and> opt_get sizing ''fraction'' \<noteq> JNull then spec_denied ''sizing.fraction''
              else
                let p2 = set_present p1 ''quantity'' quantity;
                    p3 = set_present p2 ''time_in_force'' (first_present
                      [opt_get execution ''time_in_force'', jget p2 ''time_in_force'', jget settings ''time_in_force'',
                       jget settings (order_type_of p2 @ ''_time_in_force'')]);
                    post_only = first_present [opt_get execution ''post_only'', jget p3 ''post_only'', jget settings ''post_only''];
                    p4 = (if post_only \<noteq> JNull then dict_set p3 ''post_only'' (JBool (truthy post_only)) else p3);
                    p5 = set_present p4 ''max_slippage_bps'' (first_present
                      [opt_get execution ''max_slippage_bps'', jget p4 ''max_slippage_bps'', jget settings ''max_slippage_bps'']);
                    p6 = (if order_type_of p5 = ''limit''
                          then set_present p5 ''price'' (first_present [opt_get execution ''limit_price'', jget p5 ''price''])
                          else p5);
                    zone = opt_get execution ''zone'';
                    p7 = (if order_type_of p5 = ''zone''
                          then set_present
                                 (set_present p6 ''price_min'' (first_present [json_field zone ''low'', jget p6 ''price_min'']))
                                 ''price_max'' (first_present [json_field zone ''high'', jget p6 ''price_max''])
                          else p6)
                in Planned p7)"

definition live_quantity :: "PositionSnapshot \<Rightarrow> bool" where
  "live_quantity p = (case decimal_or_none (ps_quantity p) of Some q \<Rightarrow> q \<noteq> 0 | None \<Rightarrow> False)"

definition same_side_cache_position :: "PlannerContext \<Rightarrow> string \<Rightarrow> PositionSnapshot option" where
  "same_side_cache_position cx expected_side =
     List.find (\<lambda>p. live_quantity p \<and> upper (ps_side p) = expected_side) (context_positions cx)"

definition opposite_side_cache_position :: "PlannerContext \<Rightarrow> string \<Rightarrow> PositionSnapshot option" where
  "opposite_side_cache_position cx expected_side =
     List.find (\<lambda>p. live_quantity p \<and> upper (ps_side p) \<noteq> expected_side) (context_positions cx)"

definition risk_increase_state_denial :: "PlannerContext \<Rightarrow> PositionAssessment option \<Rightarrow> unit outcome" where
  "risk_increase_state_denial cx assessment =
     (case assessment of
        None \<Rightarrow> if cx_simulation cx then Planned ()
                else Denied ''position_state_unknown'' [PText ''reconciled_state_missing'']
      | Some a \<Rightarrow>
          (case as_state a of
             UNKNOWN_POSITION \<Rightarrow> Denied ''position_state_unknown'' (as_detail a)
           | CONFLICTED \<Rightarrow> Denied ''position_state_conflicted'' (as_detail a)
           | _ \<Rightarrow> Planned ()))"

definition validate_position :: "string \<Rightarrow> string \<Rightarrow> PlannerContext \<Rightarrow> string \<Rightarrow> unit outcome" where
  "validate_position action side cx instrument_id =
     (let expected_side = (if side = ''BUY'' then ''LONG'' else ''SHORT'');
          cache_position = same_side_cache_position cx expected_side;
          assessment = reconciled_assessment cx instrument_id expected_side
      in if action = ''open_position'' then
           bind_outcome (risk_increase_state_denial cx assessment) (\<lambda>_.
           if cache_position \<noteq> None then Denied ''position_exists'' [PText instrument_id]
           else case assessment of
             Some a \<Rightarrow> if as_state a = KNOWN_OPEN then Denied ''position_exists'' (as_detail a) else Planned ()
           | None \<Rightarrow> Planned ())
         else if action = ''add_position'' then
           bind_outcome (risk_increase_state_denial cx assessment) (\<lambda>_.
           let from_cache =
             (if cache_position \<noteq> None then Planned ()
              else case opposite_side_cache_position cx expected_side of
                Some p \<Rightarrow> Denied ''position_side_mismatch'' [PText (upper (ps_side p))]
              | None \<Rightarrow> Denied ''position_required'' [PText instrument_id])
           in case assessment of
                Some a \<Rightarrow>
                  if as_state a = KNOWN_FLAT then Denied ''position_required'' [PText instrument_id]
                  else if as_state a = KNOWN_OPEN then Planned () else from_cache
              | None \<Rightarrow> from_cache)
         else if cache_position = None then Denied ''position_required'' [PText instrument_id]
         else Planned ())"

definition planner_approved_max_notional :: "Intent \<Rightarrow> rat outcome" where
  "planner_approved_max_notional it =
     (let invalid = Denied ''approved_max_notional_invalid'' [PText ''risk_budget.max_notional'']
      in case decimal_or_none (opt_get (it_risk_budget it) ''max_notional'') of
           None \<Rightarrow> invalid
         | Some m \<Rightarrow> if m \<le> 0 then invalid else Planned m)"

definition deny_if_order_exceeds_approved_notional :: "rat \<Rightarrow> rat \<Rightarrow> rat \<Rightarrow> unit outcome" where
  "deny_if_order_exceeds_approved_notional quantity price approved =
     (let actual = dmul quantity price
      in if actual > approved
         then Denied ''approved_max_notional_exceeded''
                [PText ''actual='', PDec actual, PText '':approved='', PDec approved]
         else Planned ())"

definition plan_entry_intent :: "Intent \<Rightarrow> string \<Rightarrow> PlannerContext \<Rightarrow> InstrumentSpec \<Rightarrow> OrderPlan outcome" where
  "plan_entry_intent it action cx instrument =
     bind_outcome (entry_order_plan it cx) (\<lambda>plan.
     bind_outcome (parse_side (jget plan ''side'')) (\<lambda>side.
     bind_outcome (validate_position action side cx (it_instrument_id it)) (\<lambda>_.
     bind_outcome (build_order_spec plan instrument True) (\<lambda>spec.
     bind_outcome (planner_approved_max_notional it) (\<lambda>approved.
     bind_outcome (case sp_price spec of
                     Some price \<Rightarrow> deny_if_order_exceeds_approved_notional (sp_quantity spec) price approved
                   | None \<Rightarrow> Planned ()) (\<lambda>_.
     bind_outcome (encode_or_raise (it_intent_id it) 1) (\<lambda>cid.
     bind_outcome (guard_price plan instrument) (\<lambda>guard.
     Planned \<lparr>op_intent_id = it_intent_id it, op_client_order_id = cid,
       op_tags = intent_tags it action None None, op_instrument_id = it_instrument_id it,
       op_side = side, op_order_type = sp_order_type spec, op_quantity = sp_quantity spec,
       op_price = sp_price spec, op_time_in_force = sp_time_in_force spec, op_reduce_only = False,
       op_trigger_price = None, op_post_only = truthy (jget plan ''post_only''),
       op_max_slippage_bps = optional_decimal_string (jget plan ''max_slippage_bps''),
       op_guard_price = guard, op_approved_max_notional = Some approved\<rparr>))))))))"

section \<open>Planning\<close>

definition plan_intent_execution :: "Intent \<Rightarrow> PlannerContext \<Rightarrow> plan outcome" where
  "plan_intent_execution it cx =
     (let action = (if it_action it \<in> set cancel_order_aliases then ''cancel'' else it_action it);
          trading_state = upper (cx_trading_state cx)
      in if action \<notin> set entry_actions \<and> action \<notin> set management_actions
         then Denied ''unsupported_action'' [PText action]
         else bind_outcome (authorization_source it) (\<lambda>_.
           if \<not> planner_action_allowed action trading_state
           then Denied ''trading_not_active'' [PText trading_state]
           else if uuid_str (it_intent_id it) \<in> set (cx_existing_intent_ids cx)
           then Denied ''duplicate_intent'' [PText (uuid_str (it_intent_id it))]
           else if it_account_id it \<noteq> cx_account_id cx
           then Denied ''wrong_account'' [PText (it_account_id it)]
           else case cx_instrument cx of
             None \<Rightarrow> Denied ''instrument_not_found'' [PText (it_instrument_id it)]
           | Some instrument \<Rightarrow>
               if in_instrument_id instrument \<noteq> it_instrument_id it
               then Denied ''instrument_not_found'' [PText (it_instrument_id it)]
               else if it_valid_until it \<le> cx_now cx
               then Denied ''expired'' [PInstant (it_valid_until it)]
               else if action = ''cancel''
               then bind_outcome (plan_cancel_order_intent it cx) (\<lambda>p. Planned (Management p))
               else if action \<in> set management_actions
               then bind_outcome (plan_management_intent it action cx instrument) (\<lambda>p. Planned (Management p))
               else bind_outcome (plan_entry_intent it action cx instrument) (\<lambda>p. Planned (Entry p))))"

section \<open>What a plan implies\<close>

lemma planner_action_allowed_iff:
  "planner_action_allowed a m \<longleftrightarrow>
     (upper m = ''ACTIVE'' \<and> a \<in> set entry_actions)
     \<or> (upper m \<in> {''ACTIVE'', ''REDUCING'', ''HALTED''} \<and> a \<in> set management_actions)"
  by (simp add: planner_action_allowed_def action_permission_matrix_def)

lemma entry_not_management: "a \<in> set entry_actions \<Longrightarrow> a \<notin> set management_actions"
  by (auto simp: entry_actions_def management_actions_def exit_actions_def position_required_actions_def)

definition normal_action :: "Intent \<Rightarrow> string" where
  "normal_action it = (if it_action it \<in> set cancel_order_aliases then ''cancel'' else it_action it)"

text \<open>The checks every planned intent has passed.\<close>

definition admitted :: "Intent \<Rightarrow> PlannerContext \<Rightarrow> InstrumentSpec \<Rightarrow> bool" where
  "admitted it cx i =
     ((\<exists>auth. authorization_source it = Planned auth)
      \<and> planner_action_allowed (normal_action it) (upper (cx_trading_state cx))
      \<and> uuid_str (it_intent_id it) \<notin> set (cx_existing_intent_ids cx)
      \<and> it_account_id it = cx_account_id cx
      \<and> cx_instrument cx = Some i \<and> in_instrument_id i = it_instrument_id it
      \<and> cx_now cx < it_valid_until it)"

lemma plan_intent_execution_Planned:
  assumes "plan_intent_execution it cx = Planned p"
  shows "\<exists>i. admitted it cx i \<and>
    (if normal_action it = ''cancel''
     then \<exists>m. p = Management m \<and> plan_cancel_order_intent it cx = Planned m
     else if normal_action it \<in> set management_actions
     then \<exists>m. p = Management m \<and> plan_management_intent it (normal_action it) cx i = Planned m
     else normal_action it \<in> set entry_actions
       \<and> (\<exists>e. p = Entry e \<and> plan_entry_intent it (normal_action it) cx i = Planned e))"
  using assms unfolding plan_intent_execution_def normal_action_def[symmetric] Let_def admitted_def
  by (auto simp: bind_outcome_Planned_iff split: if_splits option.splits)

lemma plan_of_admitted:
  assumes "admitted it cx i"
  shows "plan_intent_execution it cx =
    (if normal_action it = ''cancel''
     then bind_outcome (plan_cancel_order_intent it cx) (\<lambda>p. Planned (Management p))
     else if normal_action it \<in> set management_actions
     then bind_outcome (plan_management_intent it (normal_action it) cx i) (\<lambda>p. Planned (Management p))
     else bind_outcome (plan_entry_intent it (normal_action it) cx i) (\<lambda>p. Planned (Entry p)))"
proof -
  define a where "a = normal_action it"
  have known: "(a \<notin> set entry_actions \<and> a \<notin> set management_actions) = False"
    using assms unfolding a_def admitted_def planner_action_allowed_iff by blast
  obtain auth where ok: "authorization_source it = Planned auth"
    "planner_action_allowed a (upper (cx_trading_state cx)) = True"
    "(uuid_str (it_intent_id it) \<in> set (cx_existing_intent_ids cx)) = False"
    "(it_account_id it \<noteq> cx_account_id cx) = False" "cx_instrument cx = Some i"
    "(in_instrument_id i \<noteq> it_instrument_id it) = False" "(it_valid_until it \<le> cx_now cx) = False"
    using assms unfolding admitted_def a_def[symmetric] by (auto simp: not_le)
  show ?thesis
    unfolding plan_intent_execution_def normal_action_def[symmetric] a_def[symmetric] Let_def
    by (simp only: known ok if_False bind_outcome.simps not_True_eq_False option.case)
qed

lemma encode_or_raise_Planned:
  "encode_or_raise u n = Planned cid
   \<Longrightarrow> decode_client_order_id cid = Inr \<lparr>trace_intent_id = u, trace_sequence = n\<rparr> \<and> is_robot_client_order_id cid"
  using decode_encode[of u n cid]
  by (simp add: encode_or_raise_def is_robot_client_order_id_def split: sum.splits)

lemma deny_notional_Planned:
  "deny_if_order_exceeds_approved_notional q p a = Planned u \<longleftrightarrow> dmul q p \<le> a"
  by (simp add: deny_if_order_exceeds_approved_notional_def Let_def not_less)

lemma approved_Planned:
  "planner_approved_max_notional it = Planned m
   \<Longrightarrow> 0 < m \<and> decimal_or_none (opt_get (it_risk_budget it) ''max_notional'') = Some m"
  by (auto simp: planner_approved_max_notional_def Let_def split: option.splits if_splits)

lemma validate_position_state:
  assumes "validate_position a side cx i = Planned u" "a \<in> set entry_actions"
  shows "case reconciled_assessment cx i (if side = ''BUY'' then ''LONG'' else ''SHORT'') of
           None \<Rightarrow> cx_simulation cx
         | Some s \<Rightarrow> as_state s = (if a = ''open_position'' then KNOWN_FLAT else KNOWN_OPEN)"
  using assms
  by (auto simp: validate_position_def Let_def bind_outcome_Planned_iff entry_actions_def
      risk_increase_state_denial_def split: option.splits if_splits PositionState.splits)

lemma plan_entry_intent_Planned:
  assumes "plan_entry_intent it a cx i = Planned p"
  obtains side m where "validate_position a side cx (it_instrument_id it) = Planned ()"
    "planner_approved_max_notional it = Planned m" "op_side p = side"
    "on_increment (in_quantity_increment i) (op_quantity p)" "0 < op_quantity p"
    "\<forall>x. op_price p = Some x \<longrightarrow> on_increment (in_price_increment i) x \<and> dmul (op_quantity p) x \<le> m"
    "op_approved_max_notional p = Some m" "\<not> op_reduce_only p"
    "encode_or_raise (it_intent_id it) 1 = Planned (op_client_order_id p)"
proof -
  from assms obtain plan side u spec m v cid guard where
    c: "parse_side (jget plan ''side'') = Planned side" "validate_position a side cx (it_instrument_id it) = Planned u"
    "build_order_spec plan i True = Planned spec" "planner_approved_max_notional it = Planned m"
    "(case sp_price spec of Some price \<Rightarrow> deny_if_order_exceeds_approved_notional (sp_quantity spec) price m
      | None \<Rightarrow> Planned ()) = Planned v"
    "encode_or_raise (it_intent_id it) 1 = Planned cid"
    "p = \<lparr>op_intent_id = it_intent_id it, op_client_order_id = cid,
       op_tags = intent_tags it a None None, op_instrument_id = it_instrument_id it,
       op_side = side, op_order_type = sp_order_type spec, op_quantity = sp_quantity spec,
       op_price = sp_price spec, op_time_in_force = sp_time_in_force spec, op_reduce_only = False,
       op_trigger_price = None, op_post_only = truthy (jget plan ''post_only''),
       op_max_slippage_bps = optional_decimal_string (jget plan ''max_slippage_bps''),
       op_guard_price = guard, op_approved_max_notional = Some m\<rparr>"
    unfolding plan_entry_intent_def bind_outcome_Planned_iff by blast
  note sp = build_order_spec_Planned[OF c(3)]
  show ?thesis
    using c(2,4,5,6) sp
    by (intro that[of side m]) (auto simp: c(7) deny_notional_Planned)
qed

section \<open>Properties of entries\<close>

text \<open>
  C3. An entry order is planned only for an admitted intent in mode ACTIVE: the intent is
  authorized, new, for this account and instrument, and not expired. Its quantity is positive and on the
  instrument's grid; a priced order is on the price grid and its notional, as the code multiplies
  it, is within the approved maximum, so that its exact notional exceeds the approval by less than
  one part in \<open>10^27\<close>. The book of the entry is known from fresh venue evidence, flat for an opening and
  open for an addition, unless the context is a simulation without venue evidence; and the client
  order id names the intent.
\<close>

theorem entry_plan_is_safe:
  assumes "plan_intent_execution it cx = Planned (Entry p)"
  shows "\<exists>i m. admitted it cx i \<and> upper (cx_trading_state cx) = ''ACTIVE''
    \<and> normal_action it \<in> set entry_actions
    \<and> 0 < op_quantity p \<and> on_increment (in_quantity_increment i) (op_quantity p)
    \<and> 0 < m \<and> decimal_or_none (opt_get (it_risk_budget it) ''max_notional'') = Some m
    \<and> (\<forall>x. op_price p = Some x \<longrightarrow> on_increment (in_price_increment i) x
        \<and> dmul (op_quantity p) x \<le> m \<and> (0 \<le> x \<longrightarrow> (1 - dec_eps) * (op_quantity p * x) \<le> m))
    \<and> (case reconciled_assessment cx (it_instrument_id it) (if op_side p = ''BUY'' then ''LONG'' else ''SHORT'') of
         None \<Rightarrow> cx_simulation cx
       | Some s \<Rightarrow> as_state s = (if normal_action it = ''open_position'' then KNOWN_FLAT else KNOWN_OPEN))
    \<and> decode_client_order_id (op_client_order_id p)
        = Inr \<lparr>trace_intent_id = it_intent_id it, trace_sequence = 1\<rparr>"
proof -
  obtain i where i: "admitted it cx i" and act: "normal_action it \<in> set entry_actions"
    and e: "plan_entry_intent it (normal_action it) cx i = Planned p"
    using plan_intent_execution_Planned[OF assms] by (auto split: if_splits)
  from e obtain side m where c: "validate_position (normal_action it) side cx (it_instrument_id it) = Planned ()"
    "planner_approved_max_notional it = Planned m" "op_side p = side"
    "on_increment (in_quantity_increment i) (op_quantity p)" "0 < op_quantity p"
    "\<forall>x. op_price p = Some x \<longrightarrow> on_increment (in_price_increment i) x \<and> dmul (op_quantity p) x \<le> m"
    "op_approved_max_notional p = Some m" "\<not> op_reduce_only p"
    "encode_or_raise (it_intent_id it) 1 = Planned (op_client_order_id p)"
    by (rule plan_entry_intent_Planned)
  have active: "upper (cx_trading_state cx) = ''ACTIVE''"
    using i entry_not_management[OF act] by (auto simp: admitted_def planner_action_allowed_iff)
  have exact: "(1 - dec_eps) * (op_quantity p * x) \<le> m" if "op_price p = Some x" "0 \<le> x" for x
    using c(6)[rule_format, OF that(1)] dec.rnd_lower[of "op_quantity p * x"] c(5) that(2) by (simp add: dmul_def)
  show ?thesis
    using i active act c(4,5,6) exact approved_Planned[OF c(2)] validate_position_state[OF c(1) act]
      encode_or_raise_Planned[OF c(9)] unfolding c(3)
    by (intro exI[of _ i] exI[of _ m]) simp
qed

text \<open>An intent to buy three contracts at 100 with an approved notional of 1000, and a flat book.\<close>

definition example_authorization :: dict where
  "example_authorization =
     [(''authorized_by_type'', JStr ''user''), (''authorized_by_id'', JStr ''op''),
      (''source_message_id'', JStr ''m1'')]"

definition example_order_plan :: dict where
  "example_order_plan =
     [(''authorization'', JObj example_authorization), (''type'', JStr ''limit''), (''side'', JStr ''buy''),
      (''quantity'', JDec 3), (''price'', JDec 100)]"

definition example_intent :: "string \<Rightarrow> dict \<Rightarrow> Intent" where
  "example_intent action order_plan =
     \<lparr>it_action = action, it_intent_id = 7, it_decision_id = ''d'', it_risk_decision_id = ''r'',
      it_idempotency_key = ''k'', it_account_id = ''acct'', it_instrument_id = ''BTCUSDT-PERP.BINANCE'',
      it_valid_until = 10, it_order_plan = order_plan, it_execution = None, it_sizing = None,
      it_risk_budget = Some [(''max_notional'', JDec 1000)], it_target_position_id = None\<rparr>"

definition example_instrument :: InstrumentSpec where
  "example_instrument = \<lparr>in_instrument_id = ''BTCUSDT-PERP.BINANCE'', in_price_increment = Some (1, 0),
     in_quantity_increment = Some (1, 0)\<rparr>"

definition example_context :: "string \<Rightarrow> PositionSnapshot list \<Rightarrow> OrderSnapshot list \<Rightarrow> PlannerContext" where
  "example_context mode positions orders =
     \<lparr>cx_account_id = ''acct'', cx_trading_state = mode, cx_now = 5,
      cx_instrument = Some example_instrument, cx_position = None, cx_positions = positions,
      cx_existing_orders = orders, cx_existing_intent_ids = [], cx_effective_settings = [],
      cx_reconciled_state = Some \<lparr>rs_account_id = ''acct'', rs_venue_fresh = True,
        rs_venue_detail = [], rs_venue_quantities = [], rs_cache_quantities = [], rs_bot_order_ids = []\<rparr>,
      cx_simulation = False\<rparr>"

lemma example_authorized:
  "jget p ''authorization'' = JObj example_authorization \<Longrightarrow> \<exists>auth. authorization_source (example_intent a p) = Planned auth"
proof -
  assume p: "jget p ''authorization'' = JObj example_authorization"
  have s: "supplied_text example_authorization ''authorized_by_type'' = ''user''"
    "supplied_text example_authorization ''authorized_by_id'' = ''op''"
    "supplied_text example_authorization ''source_message_id'' = ''m1''"
    by code_simp+
  show ?thesis by (simp add: authorization_source_def Let_def example_intent_def p s)
qed

lemma example_admitted:
  assumes "planner_action_allowed a (upper mode)" "a \<noteq> ''cancel_order''"
    "jget p ''authorization'' = JObj example_authorization"
  shows "normal_action (example_intent a p) = a"
    "admitted (example_intent a p) (example_context mode ps os) example_instrument"
proof -
  show n: "normal_action (example_intent a p) = a"
    using assms(2) by (simp add: normal_action_def cancel_order_aliases_def example_intent_def)
  show "admitted (example_intent a p) (example_context mode ps os) example_instrument"
    using example_authorized[OF assms(3), of a] assms(1) unfolding admitted_def n
    by (simp add: example_context_def example_intent_def example_instrument_def)
qed

lemma unit_step: "step_value (1, 0) = 1"
  by (simp add: step_value_def)

lemma unit_rounding:
  assumes "(numeral n :: int) < 10 ^ 28"
  shows "rounded_positive (JDec (numeral n)) (Some (1, 0)) f = Planned (numeral n)"
    "rounded_down_positive (JDec (numeral n)) (Some (1, 0)) f = Planned (numeral n)"
proof -
  have d: "dec (numeral n) = numeral n" using assms by (intro dec_numeral) simp
  have u: "round_half_up (numeral n) = numeral n" "round_down (numeral n) = numeral n"
    "round_half_even (numeral n) = numeral n"
    using round_half_even_of_int[of "numeral n"]
    by (simp_all add: round_half_up_def round_down_def floor_eq_iff)
  note defs = decimal_field_def increment_step_def unit_step quantize_def ddiv_def dmul_def d u Let_def
  show "rounded_positive (JDec (numeral n)) (Some (1, 0)) f = Planned (numeral n)"
    using assms by (simp add: rounded_positive_def round_to_increment_def defs or_raise_def)
  show "rounded_down_positive (JDec (numeral n)) (Some (1, 0)) f = Planned (numeral n)"
    using assms by (simp add: rounded_down_positive_def round_down_to_increment_def defs or_raise_def)
qed

lemma example_keys:
  "jget example_order_plan ''authorization'' = JObj example_authorization"
  "jget example_order_plan ''side'' = JStr ''buy''"
  "jget example_order_plan ''quantity'' = JDec 3"
  "jget example_order_plan ''price'' = JDec 100"
  "has_key example_order_plan ''price''"
  "jget example_order_plan ''time_in_force'' = JNull"
  "order_type_of example_order_plan = ''limit''"
  "guard_price example_order_plan example_instrument = Planned (Some 100)"
proof -
  show "order_type_of example_order_plan = ''limit''"
    by (simp add: order_type_of_def jget_or_def example_order_plan_def) code_simp
qed (simp_all add: example_order_plan_def jget_def has_key_def guard_price_def example_instrument_def
      unit_rounding)

lemma example_entry_plan:
  "\<exists>p. plan_intent_execution (example_intent ''open_position'' example_order_plan)
     (example_context ''active'' [] []) = Planned (Entry p)"
proof -
  have t: "parse_tif JNull ''GTC'' = Planned ''GTC''" "parse_side (JStr ''buy'') = Planned ''BUY''"
    "upper (upper ''active'') = ''ACTIVE''" by code_simp+
  have spec: "build_order_spec example_order_plan example_instrument True
      = Planned \<lparr>sp_order_type = ''LIMIT'', sp_quantity = 3, sp_price = Some 100, sp_time_in_force = ''GTC''\<rparr>"
    by (simp add: build_order_spec_def example_keys example_instrument_def unit_rounding t)
  have v: "validate_position ''open_position'' ''BUY'' (example_context ''active'' [] []) i = Planned ()" for i
    by (simp add: validate_position_def Let_def example_context_def same_side_cache_position_def
        context_positions_def reconciled_assessment_def assess_def quantity_of_def risk_increase_state_denial_def)
  obtain cid where cid: "encode_or_raise 7 1 = Planned cid"
    by (simp add: encode_or_raise_def encode_client_order_id_def)
  have m: "planner_approved_max_notional (example_intent ''open_position'' example_order_plan) = Planned 1000"
    by (simp add: planner_approved_max_notional_def opt_get_def jget_def example_intent_def)
  have "\<exists>p. plan_entry_intent (example_intent ''open_position'' example_order_plan) ''open_position''
      (example_context ''active'' [] []) example_instrument = Planned p"
    using spec v cid m
    by (simp add: plan_entry_intent_def entry_order_plan_def example_intent_def example_keys t
        deny_if_order_exceeds_approved_notional_def dmul_def)
  moreover have "planner_action_allowed ''open_position'' (upper ''active'')"
    by code_simp
  ultimately show ?thesis
    using example_admitted(1)[of "''open_position''" "''active''" example_order_plan]
      example_admitted(2)[of "''open_position''" "''active''" example_order_plan "[]" "[]"] example_keys(1)
    by (auto simp: plan_of_admitted management_actions_def exit_actions_def position_required_actions_def)
qed

theorem entry_plan_is_safe_witness:
  "\<exists>i p. plan_intent_execution (example_intent ''open_position'' example_order_plan)
       (example_context ''active'' [] []) = Planned (Entry p)
     \<and> admitted (example_intent ''open_position'' example_order_plan) (example_context ''active'' [] []) i
     \<and> 0 < op_quantity p"
proof -
  obtain p where p: "plan_intent_execution (example_intent ''open_position'' example_order_plan)
     (example_context ''active'' [] []) = Planned (Entry p)"
    using example_entry_plan by blast
  from entry_plan_is_safe[OF p] obtain i where
    "admitted (example_intent ''open_position'' example_order_plan) (example_context ''active'' [] []) i"
    "0 < op_quantity p"
    by (elim exE conjE)
  with p show ?thesis by (intro exI conjI)
qed

section \<open>Properties of management intents\<close>

text \<open>An order that can only shrink the position it is for, with an id that names the intent.\<close>

definition reduces :: "Intent \<Rightarrow> PositionSnapshot \<Rightarrow> OrderPlan \<Rightarrow> bool" where
  "reduces it position order =
     (op_reduce_only order \<and> op_side order = planner_exit_side position
      \<and> op_instrument_id order = it_instrument_id it
      \<and> (\<exists>n. decode_client_order_id (op_client_order_id order)
            = Inr \<lparr>trace_intent_id = it_intent_id it, trace_sequence = n\<rparr>))"

lemma lifecycle_order_simps [simp]:
  "op_reduce_only (lifecycle_order it cid tags side ot q p tif tr)"
  "op_side (lifecycle_order it cid tags side ot q p tif tr) = side"
  "op_quantity (lifecycle_order it cid tags side ot q p tif tr) = q"
  "op_client_order_id (lifecycle_order it cid tags side ot q p tif tr) = cid"
  "op_instrument_id (lifecycle_order it cid tags side ot q p tif tr) = it_instrument_id it"
  "op_trigger_price (lifecycle_order it cid tags side ot q p tif tr) = tr"
  by (simp_all add: lifecycle_order_def)

lemma reduces_lifecycle:
  "encode_or_raise (it_intent_id it) n = Planned cid
   \<Longrightarrow> reduces it position (lifecycle_order it cid tags (planner_exit_side position) ot q p tif tr)"
  using encode_or_raise_Planned by (auto simp: reduces_def)

lemma build_exit_order_Planned:
  assumes "build_exit_order it a p i position (planner_exit_side position) = Planned order"
  shows "reduces it position order \<and> 0 < op_quantity order \<and> on_increment (in_quantity_increment i) (op_quantity order)
    \<and> (\<exists>q. decimal_or_none (ps_quantity position) = Some q \<and> op_quantity order \<le> q)"
proof -
  from assms obtain plan spec u cid where c: "build_order_spec plan i True = Planned spec"
    "deny_if_quantity_exceeds_position (sp_quantity spec) (ps_quantity position) = Planned u"
    "encode_or_raise (it_intent_id it) 1 = Planned cid"
    "order = lifecycle_order it cid (intent_tags it a (Some ''exit'') (ps_position_id position))
       (planner_exit_side position) (sp_order_type spec) (sp_quantity spec) (sp_price spec) (sp_time_in_force spec) None"
    unfolding build_exit_order_def Let_def bind_outcome_Planned_iff by blast
  then show ?thesis
    using build_order_spec_Planned(1,2)[OF c(1)] reduces_lifecycle[OF c(3)]
    by (auto simp: deny_if_quantity_exceeds_position_def decimal_of_def bind_outcome_Planned_iff
        split: if_splits)
qed

lemma build_stop_order_Planned:
  assumes "build_stop_order it a p i position (planner_exit_side position) = Planned order"
  shows "reduces it position order \<and> (\<exists>t. op_trigger_price order = Some t)"
  using assms unfolding build_stop_order_def Let_def
  by (auto simp: bind_outcome_Planned_iff reduces_lifecycle split: if_splits)

lemma take_profit_loop_Planned:
  assumes "take_profit_loop mk i tot acc ts = Planned (tot', orders)"
  shows "\<exists>new. orders = acc @ new \<and> list_all2 (\<lambda>t o'. \<exists>j. mk j t = Planned o') ts new
    \<and> tot' = dsum_from tot (map op_quantity new)"
  using assms
proof (induction ts arbitrary: i tot acc)
  case (Cons t ts)
  then obtain order where o: "mk i t = Planned order"
    "take_profit_loop mk (Suc i) (dadd tot (op_quantity order)) (acc @ [order]) ts = Planned (tot', orders)"
    by (auto simp: bind_outcome_Planned_iff)
  from Cons.IH[OF o(2)] obtain new where "orders = (acc @ [order]) @ new"
    "list_all2 (\<lambda>t o'. \<exists>j. mk j t = Planned o') ts new"
    "tot' = dsum_from (dadd tot (op_quantity order)) (map op_quantity new)" by blast
  with o(1) show ?case by (intro exI[of _ "order # new"]) auto
qed simp

lemma build_take_profit_order_Planned:
  assumes "build_take_profit_order it p i position (planner_exit_side position) j t = Planned order"
  shows "reduces it position order
    \<and> (\<exists>l k. in_quantity_increment i = Some l \<and> 0 \<le> k \<and> op_quantity order = of_int k * 10 powi (snd l))"
  using assms rounded_positive_units unfolding build_take_profit_order_def
  by (fastforce simp: bind_outcome_Planned_iff reduces_lifecycle split: json.splits)

lemma build_take_profit_orders_Planned:
  assumes "build_take_profit_orders it p i position (planner_exit_side position) = Planned orders"
  shows "(\<forall>order \<in> set orders. reduces it position order
      \<and> (\<exists>l k. in_quantity_increment i = Some l \<and> 0 \<le> k \<and> op_quantity order = of_int k * 10 powi (snd l)))
    \<and> (orders = [] \<or> (\<exists>q. decimal_or_none (ps_quantity position) = Some q
        \<and> dsum (map op_quantity orders) \<le> q))"
proof (cases "orders = []")
  case False
  obtain targets tot where l: "take_profit_loop
      (build_take_profit_order it p i position (planner_exit_side position)) 0 0 [] targets = Planned (tot, orders)"
    and q: "\<exists>q. decimal_or_none (ps_quantity position) = Some q \<and> tot \<le> q"
    using assms False unfolding build_take_profit_orders_def
    by (auto simp: bind_outcome_Planned_iff decimal_of_def not_less split: json.splits if_splits)
  from take_profit_loop_Planned[OF l] have
    a: "list_all2 (\<lambda>t o'. \<exists>j. build_take_profit_order it p i position (planner_exit_side position) j t = Planned o')
        targets orders" and t: "tot = dsum (map op_quantity orders)"
    by (simp_all add: dsum_def)
  have "\<exists>j t. build_take_profit_order it p i position (planner_exit_side position) j t = Planned order"
    if "order \<in> set orders" for order
  proof -
    from that obtain n where n: "n < length orders" "orders ! n = order" by (auto simp: in_set_conv_nth)
    with a obtain j where
      "build_take_profit_order it p i position (planner_exit_side position) j (targets ! n) = Planned (orders ! n)"
      using list_all2_nthD2 by blast
    with n(2) show ?thesis by blast
  qed
  then show ?thesis using q build_take_profit_order_Planned unfolding t by blast
qed simp

lemma management_orders_Planned:
  assumes "management_orders it a i position = Planned (orders, role, after, disable)"
  shows "(\<forall>order \<in> set orders. reduces it position order)
    \<and> (a \<in> set exit_actions \<longrightarrow> (\<exists>order q. orders = [order] \<and> decimal_or_none (ps_quantity position) = Some q
         \<and> 0 < op_quantity order \<and> op_quantity order \<le> q))
    \<and> (a = ''replace_take_profits'' \<longrightarrow>
         build_take_profit_orders it (it_order_plan it) i position (planner_exit_side position) = Planned orders)"
  using assms unfolding management_orders_def Let_def exit_actions_def
  by (auto simp: bind_outcome_Planned_iff split: if_splits
      dest!: build_exit_order_Planned build_stop_order_Planned build_take_profit_orders_Planned)

lemma plan_management_Planned:
  assumes "plan_management_intent it a cx i = Planned m"
  obtains position role after disable where
    "select_target_position it cx (it_instrument_id it) = Planned position"
    "management_orders it a i position = Planned (mp_orders m, role, after, disable)"
    "mp_action m = a" "mp_target_position_side m = Some (ps_side position)"
    "mp_cancel_order_ids m = matching_lifecycle_order_ids (cx_existing_orders cx) role (ps_position_id position)
       (it_instrument_id it)"
  using assms that unfolding plan_management_intent_def bind_outcome_Planned_iff by fastforce

lemma plan_Management_cases:
  assumes "plan_intent_execution it cx = Planned (Management m)"
  obtains (cancel) i where "admitted it cx i" "normal_action it = ''cancel''"
      "plan_cancel_order_intent it cx = Planned m"
    | (manage) i where "admitted it cx i" "normal_action it \<noteq> ''cancel''"
      "plan_management_intent it (normal_action it) cx i = Planned m"
  using plan_intent_execution_Planned[OF assms] by (auto split: if_splits)

lemma plan_cancel_Planned:
  assumes "plan_cancel_order_intent it cx = Planned m"
  obtains order where "order \<in> set (cx_existing_orders cx)" "os_instrument_id order = it_instrument_id it"
    "mp_cancel_order_ids m = [os_client_order_id order]" "mp_orders m = []" "mp_action m = ''cancel''"
    "validate_cancel_order_ownership order cx = Planned ()"
proof -
  define target where "target = strip (str_or [jget (it_order_plan it) ''cancel_client_order_id''] [])"
  let ?match = "\<lambda>o'. os_instrument_id o' = it_instrument_id it \<and> os_client_order_id o' = target"
  obtain order where f: "filter ?match (cx_existing_orders cx) = [order]"
    and v: "validate_cancel_order_ownership order cx = Planned ()"
    and m: "mp_cancel_order_ids m = [target]" "mp_orders m = []" "mp_action m = ''cancel''"
    using assms unfolding plan_cancel_order_intent_def Let_def target_def[symmetric]
    by (auto simp: bind_outcome_Planned_iff split: if_splits list.splits)
  have "order \<in> set (filter ?match (cx_existing_orders cx))" by (simp add: f)
  then show ?thesis using m v by (intro that) simp_all
qed

text \<open>
  C4. A management plan only ever reduces risk. Every order in it is reduce-only, on the
  instrument of the intent, on the side that closes the target position, and carries an id that
  names the intent; an exit consists of one order with a positive quantity of at most the quantity of the
  position; a cancellation submits nothing at all. This holds in every mode, HALTED included.
\<close>

theorem management_plan_only_reduces:
  assumes "plan_intent_execution it cx = Planned (Management m)"
  shows "(mp_action m = ''cancel'' \<and> mp_orders m = [])
    \<or> (\<exists>position. select_target_position it cx (it_instrument_id it) = Planned position
         \<and> list_all (reduces it position) (mp_orders m)
         \<and> (if mp_action m \<in> set exit_actions
            then \<exists>order q. mp_orders m = [order] \<and> decimal_or_none (ps_quantity position) = Some q
               \<and> 0 < op_quantity order \<and> op_quantity order \<le> q
            else True))"
  using assms
proof (cases rule: plan_Management_cases)
  case (cancel i)
  then show ?thesis by (blast elim: plan_cancel_Planned)
next
  case (manage i)
  from manage(3) obtain position role after disable where p:
    "select_target_position it cx (it_instrument_id it) = Planned position"
    "management_orders it (normal_action it) i position = Planned (mp_orders m, role, after, disable)"
    "mp_action m = normal_action it"
    by (rule plan_management_Planned)
  from management_orders_Planned[OF p(2)] p(1,3) show ?thesis by (auto simp: list_all_iff)
qed

text \<open>A long position of five contracts, and the plans that close it and replace its take profits.\<close>

definition example_position :: PositionSnapshot where
  "example_position = \<lparr>ps_instrument_id = ''BTCUSDT-PERP.BINANCE'', ps_side = ''LONG'', ps_quantity = JDec 5,
     ps_position_id = Some ''p1'', ps_entry_price = JDec 100\<rparr>"

definition example_close_plan :: dict where
  "example_close_plan = [(''authorization'', JObj example_authorization), (''type'', JStr ''market'')]"

definition example_take_profit_plan :: dict where
  "example_take_profit_plan =
     [(''authorization'', JObj example_authorization),
      (''take_profits'', JList [JObj [(''quantity'', JDec 2), (''price'', JDec 110)],
                               JObj [(''quantity'', JDec 3), (''price'', JDec 120)]])]"

lemma example_select:
  "jget p ''position_side'' = JNull \<Longrightarrow>
   select_target_position (example_intent a p) (example_context mode [example_position] os) ''BTCUSDT-PERP.BINANCE''
     = Planned example_position"
proof -
  assume p: "jget p ''position_side'' = JNull"
  have s: "str_or [JNull] [] = []" "upper (strip []) = []" by code_simp+
  show ?thesis
    by (simp add: select_target_position_def Let_def example_intent_def p s context_positions_def
        example_context_def example_position_def decimal_of_def or_raise_def)
qed

lemma example_encode: "\<exists>cid. encode_or_raise 7 (int n) = Planned cid" if "n \<le> 99"
  using that by (simp add: encode_or_raise_def encode_client_order_id_def)

lemma example_tif: "parse_tif JNull ''GTC'' = Planned ''GTC''" "parse_tif JNull ''IOC'' = Planned ''IOC''"
  by code_simp+

lemma example_fields:
  "ps_quantity example_position = JDec 5" "in_quantity_increment example_instrument = Some (1, 0)"
  "in_price_increment example_instrument = Some (1, 0)" "it_order_plan (example_intent a p) = p"
  "it_intent_id (example_intent a p) = 7" "it_instrument_id (example_intent a p) = ''BTCUSDT-PERP.BINANCE''"
  by (simp_all add: example_position_def example_instrument_def example_intent_def)

lemma example_market_spec:
  assumes "order_type_of p = ''market''" "jget p ''quantity'' = JDec 5" "jget p ''time_in_force'' = JNull"
  shows "build_order_spec p example_instrument True = Planned \<lparr>sp_order_type = ''MARKET'', sp_quantity = 5,
    sp_price = None, sp_time_in_force = ''IOC''\<rparr>"
  using assms by (simp add: build_order_spec_def example_fields unit_rounding example_tif)

lemma example_close_order:
  "\<exists>order. management_orders (example_intent ''close_position'' example_close_plan) ''close_position''
     example_instrument example_position = Planned ([order], None, False, False)"
proof -
  let ?plan = "dict_set (dict_set (dict_pop example_close_plan ''fraction'') ''quantity'' (JDec 5)) ''side''
     (JStr (lower (planner_exit_side example_position)))"
  have j: "jget example_close_plan ''quantity'' = JNull" "jget example_close_plan ''fraction'' = JNull"
    "jget (dict_pop example_close_plan ''fraction'') ''time_in_force'' = JNull"
    by (simp_all add: example_close_plan_def jget_def dict_pop_def)
  have "order_type_of ?plan = order_type_of example_close_plan"
    by (simp add: order_type_of_def jget_or_def example_close_plan_def dict_pop_def dict_set_def)
  also have "\<dots> = ''market''"
    by (simp add: order_type_of_def jget_or_def example_close_plan_def) code_simp
  finally have spec: "build_order_spec ?plan example_instrument True = Planned \<lparr>sp_order_type = ''MARKET'',
      sp_quantity = 5, sp_price = None, sp_time_in_force = ''IOC''\<rparr>"
    using j(3) by (intro example_market_spec) simp_all
  obtain cid where "encode_or_raise 7 1 = Planned cid" using example_encode[of 1] by auto
  with spec show ?thesis
    by (simp add: management_orders_def resolve_exit_quantity_def j build_exit_order_def Let_def
        deny_if_quantity_exceeds_position_def decimal_of_def or_raise_def example_fields)
qed

lemma example_modes:
  "planner_action_allowed ''close_position'' (upper ''halted'')"
  "planner_action_allowed ''replace_take_profits'' (upper ''halted'')"
  by code_simp+

lemma example_management:
  assumes "planner_action_allowed a (upper mode)" "a \<in> {''close_position'', ''replace_take_profits''}"
    "jget p ''authorization'' = JObj example_authorization" "jget p ''position_side'' = JNull"
    "management_orders (example_intent a p) a example_instrument example_position
       = Planned (orders, role, after, disable)"
  shows "\<exists>m. plan_intent_execution (example_intent a p) (example_context mode [example_position] os)
      = Planned (Management m) \<and> mp_orders m = orders \<and> mp_action m = a"
proof -
  let ?it = "example_intent a p"
  let ?cx = "example_context mode [example_position] os"
  have "a \<noteq> ''cancel_order''" using assms(2) by auto
  note adm = example_admitted[OF assms(1) this assms(3)]
  obtain auth where "authorization_source ?it = Planned auth" using example_authorized assms(3) by blast
  moreover have "select_target_position ?it ?cx (it_instrument_id ?it) = Planned example_position"
    using example_select[OF assms(4)] by (simp add: example_fields)
  ultimately obtain m where "plan_management_intent ?it a ?cx example_instrument = Planned m"
    "mp_orders m = orders" "mp_action m = a"
    using assms(5) by (simp add: plan_management_intent_def)
  moreover have "a \<noteq> ''cancel''" "a \<in> set management_actions"
    using assms(2) by (auto simp: management_actions_def exit_actions_def position_required_actions_def)
  ultimately show ?thesis unfolding plan_of_admitted[OF adm(2)] adm(1) by simp
qed

theorem management_plan_only_reduces_witness:
  "\<exists>m order. plan_intent_execution (example_intent ''close_position'' example_close_plan)
       (example_context ''halted'' [example_position] []) = Planned (Management m)
     \<and> mp_orders m = [order] \<and> op_reduce_only order \<and> op_quantity order \<le> 5"
proof -
  let ?it = "example_intent ''close_position'' example_close_plan"
  have keys: "jget example_close_plan ''authorization'' = JObj example_authorization"
    "jget example_close_plan ''position_side'' = JNull" by (simp_all add: example_close_plan_def jget_def)
  obtain order where "management_orders ?it ''close_position'' example_instrument example_position
      = Planned ([order], None, False, False)" using example_close_order by blast
  from example_management[OF _ _ keys this, of "''halted''" "[]"] obtain m where
    m: "plan_intent_execution ?it (example_context ''halted'' [example_position] []) = Planned (Management m)"
    "mp_orders m = [order]" "mp_action m = ''close_position''"
    by (auto simp: example_modes)
  from management_plan_only_reduces[OF m(1)] have "reduces ?it example_position order \<and> op_quantity order \<le> 5"
    using m(2,3) example_select[OF keys(2)] by (simp add: exit_actions_def example_fields)
  then show ?thesis using m by (auto simp: reduces_def)
qed

text \<open>
  The take profits of a plan never add up to more than the position: whenever the position's
  quantity has at most 28 digits on the instrument's grid, the exact sum of the planned quantities is
  at most the quantity of the target position, for any number of targets.
\<close>

theorem take_profits_within_position:
  assumes "plan_intent_execution it cx = Planned (Management m)" "mp_action m = ''replace_take_profits''"
    "mp_orders m \<noteq> []" "cx_instrument cx = Some i" "in_quantity_increment i = Some (c, e)"
    "select_target_position it cx (it_instrument_id it) = Planned position"
    "decimal_or_none (ps_quantity position) = Some q" "q < 10 ^ 28 * 10 powi e"
  shows "sum_list (map op_quantity (mp_orders m)) \<le> q"
  using assms(1)
proof (cases rule: plan_Management_cases)
  case (cancel i')
  then show ?thesis using assms(3) by (blast elim: plan_cancel_Planned)
next
  case (manage i')
  have i': "i' = i" using manage(1) assms(4) by (simp add: admitted_def)
  from manage(3) obtain position' role after disable where p:
    "select_target_position it cx (it_instrument_id it) = Planned position'"
    "management_orders it (normal_action it) i' position' = Planned (mp_orders m, role, after, disable)"
    "mp_action m = normal_action it"
    by (rule plan_management_Planned)
  then have "build_take_profit_orders it (it_order_plan it) i position (planner_exit_side position) = Planned (mp_orders m)"
    using management_orders_Planned[OF p(2)] assms(2,6) i' by simp
  note t = build_take_profit_orders_Planned[OF this]
  have le: "dsum (map op_quantity (mp_orders m)) \<le> q" using t assms(3,7) by auto
  moreover have "dsum (map op_quantity (mp_orders m)) = sum_list (map op_quantity (mp_orders m))"
    using t le assms(5,8) by (intro dsum_grid_exact[where e = e]) auto
  ultimately show ?thesis by simp
qed

lemma example_take_profit_orders:
  "\<exists>o1 o2. management_orders (example_intent ''replace_take_profits'' example_take_profit_plan)
      ''replace_take_profits'' example_instrument example_position
    = Planned ([o1, o2], Some ''take_profit'', False, False)"
proof -
  have j: "jget_or example_take_profit_plan ''take_profits'' x
      = JList [JObj [(''quantity'', JDec 2), (''price'', JDec 110)], JObj [(''quantity'', JDec 3), (''price'', JDec 120)]]"
    "jget example_take_profit_plan ''time_in_force'' = JNull"
    "jget example_take_profit_plan ''disable_take_profits'' = JNull" for x
    by (simp_all add: example_take_profit_plan_def jget_def jget_or_def)
  have t: "jget [(''quantity'', q), (''price'', r)] ''quantity'' = q"
    "jget [(''quantity'', q), (''price'', r)] ''price'' = r"
    "jget_or [(''quantity'', q), (''price'', r)] ''trigger_price'' x = x"
    "jget_or [(''quantity'', q), (''price'', r)] ''time_in_force'' x = x" for q r x
    by (simp_all add: jget_def jget_or_def)
  obtain c1 c2 where "encode_or_raise 7 1 = Planned c1" "encode_or_raise 7 2 = Planned c2"
    using example_encode[of 1] example_encode[of 2] by auto
  then show ?thesis
    by (simp add: management_orders_def build_take_profit_orders_def j t build_take_profit_order_def
        example_fields unit_rounding example_tif decimal_of_def or_raise_def dadd_def)
qed

theorem take_profits_within_position_witness:
  "\<exists>m. plan_intent_execution (example_intent ''replace_take_profits'' example_take_profit_plan)
       (example_context ''halted'' [example_position] []) = Planned (Management m)
     \<and> sum_list (map op_quantity (mp_orders m)) \<le> 5"
proof -
  let ?it = "example_intent ''replace_take_profits'' example_take_profit_plan"
  have keys: "jget example_take_profit_plan ''authorization'' = JObj example_authorization"
    "jget example_take_profit_plan ''position_side'' = JNull"
    by (simp_all add: example_take_profit_plan_def jget_def)
  obtain o1 o2 where "management_orders ?it ''replace_take_profits'' example_instrument example_position
      = Planned ([o1, o2], Some ''take_profit'', False, False)" using example_take_profit_orders by blast
  from example_management[OF _ _ keys this, of "''halted''" "[]"] obtain m where
    m: "plan_intent_execution ?it (example_context ''halted'' [example_position] []) = Planned (Management m)"
    "mp_orders m = [o1, o2]" "mp_action m = ''replace_take_profits''"
    by (auto simp: example_modes)
  have "sum_list (map op_quantity (mp_orders m)) \<le> 5"
    using m(2,3) example_select[OF keys(2)]
    by (intro take_profits_within_position[OF m(1), where i = example_instrument and c = 1 and e = 0
          and position = example_position])
       (simp_all add: example_fields example_context_def)
  with m(1) show ?thesis by blast
qed

section \<open>Cancelled orders\<close>

definition owned_by_account :: "OrderSnapshot \<Rightarrow> PlannerContext \<Rightarrow> bool" where
  "owned_by_account order cx =
     (\<exists>trace. decode_client_order_id (os_client_order_id order) = Inr trace
        \<and> set (tag_values (os_tags order) ''account_id'') \<subseteq> {cx_account_id cx}
        \<and> set (tag_values (os_tags order) ''intent_id'') \<subseteq> {uuid_str (trace_intent_id trace)})"

lemma validate_cancel_ownership_Planned:
  "validate_cancel_order_ownership order cx = Planned () \<Longrightarrow> owned_by_account order cx"
  by (auto simp: validate_cancel_order_ownership_def owned_by_account_def Let_def tag_values_def
      split: sum.splits if_splits)

lemma matching_lifecycle_order_ids_sub:
  assumes "cid \<in> set (matching_lifecycle_order_ids orders role pid i)"
  shows "\<exists>order r. order \<in> set orders \<and> os_client_order_id order = cid \<and> os_instrument_id order = i
    \<and> role = Some r \<and> tag ''lifecycle_role'' r \<in> set (os_tags order)
    \<and> (case pid of None \<Rightarrow> True | Some p \<Rightarrow> tag ''position_id'' p \<in> set (os_tags order))"
  using assms by (auto simp: matching_lifecycle_order_ids_def split: option.splits)


definition example_cid :: string where
  "example_cid = ''B0000000000000000000000000000000701''"

definition example_order :: "string \<Rightarrow> OrderSnapshot" where
  "example_order cid = \<lparr>os_client_order_id = cid, os_instrument_id = ''BTCUSDT-PERP.BINANCE'',
     os_order_type = ''LIMIT'', os_side = ''BUY'', os_quantity = JDec 1, os_price = JDec 100,
     os_trigger_price = JNull, os_tags = []\<rparr>"

definition example_cancel_plan :: "string \<Rightarrow> dict" where
  "example_cancel_plan cid =
     [(''authorization'', JObj example_authorization), (''cancel_client_order_id'', JStr cid)]"

lemma example_cancel:
  assumes "strip cid = cid" "cid \<noteq> []" "decode_client_order_id cid = Inr trace"
  shows "\<exists>m. plan_intent_execution (example_intent ''cancel'' (example_cancel_plan cid))
       (example_context ''halted'' [] [example_order cid]) = Planned (Management m)
     \<and> mp_cancel_order_ids m = [cid]"
proof -
  let ?it = "example_intent ''cancel'' (example_cancel_plan cid)"
  have keys: "jget (example_cancel_plan cid) ''authorization'' = JObj example_authorization"
    "jget (example_cancel_plan cid) ''cancel_client_order_id'' = JStr cid"
    by (simp_all add: example_cancel_plan_def jget_def)
  have allowed: "planner_action_allowed ''cancel'' (upper ''halted'')" by code_simp
  have "''cancel'' \<noteq> ''cancel_order''" by simp
  note adm = example_admitted[OF allowed this keys(1)]
  obtain auth where "authorization_source ?it = Planned auth" using example_authorized keys(1) by blast
  then show ?thesis
    unfolding plan_of_admitted[OF adm(2)] adm(1) using assms
    by (simp add: plan_cancel_order_intent_def keys(2) example_fields str_or_def example_context_def
        example_order_def validate_cancel_order_ownership_def Let_def)
qed


section \<open>Findings\<close>

text \<open>
  The ownership check of a cancel intent is weaker than the robot namespace: it accepts any id
  \<open>decode_client_order_id\<close> can read, and that function reads 32 upper-case hexadecimal digits, which
  \<open>is_robot_client_order_id\<close> rejects. The planner cancels such an untagged order, although the order
  is outside the namespace that marks the robot's own orders.
\<close>

theorem cancel_accepts_id_outside_namespace:
  "\<exists>cid m. \<not> is_robot_client_order_id cid
     \<and> plan_intent_execution (example_intent ''cancel'' (example_cancel_plan cid))
          (example_context ''halted'' [] [example_order cid]) = Planned (Management m)
     \<and> mp_cancel_order_ids m = [cid]"
proof -
  let ?cid = "''BABCDEF0123456789ABCDEF012345678901''"
  have d: "\<exists>trace. decode_client_order_id ?cid = Inr trace"
  proof -
    have l: "length ?cid = 35" "startswith ?cid ''B''" "list_all is_ascii_digit (drop 33 ?cid)"
      "take 32 (drop 1 ?cid) = ''ABCDEF0123456789ABCDEF0123456789''"
      by code_simp+
    have h: "filter (\<lambda>c. c \<noteq> CHR ''-'') (strip_braces (remove_sub ''uuid:'' (remove_sub ''urn:'' ''ABCDEF0123456789ABCDEF0123456789'')))
      = ''ABCDEF0123456789ABCDEF0123456789''" by code_simp
    have "strip ''ABCDEF0123456789ABCDEF0123456789'' = ''ABCDEF0123456789ABCDEF0123456789''" by code_simp
    then have "case parse_int16 ''ABCDEF0123456789ABCDEF0123456789'' of Some n \<Rightarrow> 0 \<le> n \<and> n < 2 ^ 128 | None \<Rightarrow> False"
      by (simp add: parse_int16_def hex_number_def hex_val_def Let_def)
    then have "\<exists>u. parse_uuid ''ABCDEF0123456789ABCDEF0123456789'' = Inr u"
      unfolding parse_uuid_def h Let_def by (auto split: option.splits)
    with l show ?thesis unfolding decode_client_order_id_def Let_def by auto
  qed
  have "strip ?cid = ?cid" "\<not> is_robot_client_order_id ?cid" by code_simp+
  with d example_cancel[of ?cid] show ?thesis by blast
qed

text \<open>
  A take profit can be planned with quantity zero: \<open>_rounded_positive\<close> checks that the value is
  positive before it rounds to the nearest step, so a quantity below half a step becomes zero and is
  returned as if it were positive.
\<close>

theorem rounded_positive_can_be_zero:
  "rounded_positive (JDec (2 / 5)) (Some (1, 0)) field = Planned 0"
proof -
  have d: "dec (2 / 5) = 2 / 5" using dec_cents[of 4 1] by simp
  have u: "round_half_up (2 / 5) = 0" by (simp add: round_half_up_def floor_eq_iff)
  have e: "round_half_even 0 = 0" using round_half_even_of_int[of 0] by simp
  show ?thesis
    by (simp add: d u e rounded_positive_def decimal_field_def round_to_increment_def increment_step_def
        unit_step quantize_def ddiv_def dmul_def or_raise_def)
qed

end
