(* ===== verification/Protection_Orders.thy ===== *)
theory Protection_Orders
  imports Planner
begin

text \<open>
  The orders that protect a position once it is open, as the node builds them: the stop
  (\<open>protection.py\<close>), the take-profit ladder and the recomputation of protective quantities
  (\<open>take_profit.py\<close>), and the trailing stop (\<open>trailing_stop.py\<close>). Denials are \<open>TakeProfitDenied\<close>
  values; everything else that goes wrong raises.
\<close>

section \<open>Data\<close>

record PositionProtectionSnapshot =
  pp_position_key :: string
  pp_side :: string
  pp_quantity :: rat
  pp_entry_price :: "rat option"

record StopProtectionSpec =
  st_stop_type :: string
  st_trigger_price :: "rat option"
  st_distance_pct :: "rat option"
  st_limit_price :: "rat option"
  st_trigger_basis :: string

record TakeProfitTarget =
  tp_price :: "rat option"
  tp_r_multiple :: "rat option"
  tp_fraction :: "rat option"
  tp_quantity :: "rat option"
  tp_time_in_force :: string

record RecomputedProtectionQuantities =
  rq_stop_quantity :: rat
  rq_take_profit_quantities :: "rat list"

record TrailingStopOrderPlan =
  ts_intent_id :: uuid
  ts_client_order_id :: string
  ts_tags :: "string list"
  ts_instrument_id :: string
  ts_side :: string
  ts_order_type :: string
  ts_quantity :: rat
  ts_reduce_only :: bool
  ts_native :: bool
  ts_callback_rate :: rat
  ts_activation_price :: "rat option"

section \<open>Rounding and sides\<close>

definition is_long :: "string \<Rightarrow> bool" where
  "is_long side = (lower side \<in> {''long'', ''buy''})"

definition protection_exit_side :: "string \<Rightarrow> string" where
  "protection_exit_side side = (if is_long side then ''SELL'' else ''BUY'')"

definition protection_round :: "rat \<Rightarrow> increment \<Rightarrow> rat outcome" where
  "protection_round amount inc =
     (case inc of
        None \<Rightarrow> Raised ValueError
      | Some l \<Rightarrow>
          if amount \<le> 0 \<or> step_value l \<le> 0 then Raised ValueError
          else bind_outcome (or_raise InvalidOperation (quantize round_half_up 0 (ddiv amount (step_value l)))) (\<lambda>k.
               or_raise InvalidOperation (quantize round_half_even (snd l) (dmul k (step_value l)))))"

definition uuid_or_raise :: "string \<Rightarrow> uuid outcome" where
  "uuid_or_raise s = (case parse_uuid s of Inl e \<Rightarrow> Raised e | Inr u \<Rightarrow> Planned u)"

definition protection_order :: "uuid \<Rightarrow> string \<Rightarrow> string list \<Rightarrow> string \<Rightarrow> string \<Rightarrow> string \<Rightarrow> rat \<Rightarrow> rat option
    \<Rightarrow> string \<Rightarrow> rat option \<Rightarrow> OrderPlan" where
  "protection_order u cid tags instrument_id side order_type quantity price tif trigger =
     \<lparr>op_intent_id = u, op_client_order_id = cid, op_tags = tags, op_instrument_id = instrument_id,
      op_side = side, op_order_type = order_type, op_quantity = quantity, op_price = price,
      op_time_in_force = tif, op_reduce_only = True, op_trigger_price = trigger, op_post_only = False,
      op_max_slippage_bps = None, op_guard_price = None, op_approved_max_notional = None\<rparr>"

section \<open>The stop\<close>

definition trigger_price :: "PositionProtectionSnapshot \<Rightarrow> StopProtectionSpec \<Rightarrow> rat outcome" where
  "trigger_price position stop =
     (case st_trigger_price stop of
        Some p \<Rightarrow> Planned p
      | None \<Rightarrow>
          (case (st_distance_pct stop, pp_entry_price position) of
             (Some pct, Some entry) \<Rightarrow>
               let distance = ddiv pct 100
               in Planned (if is_long (pp_side position) then dmul entry (dsub 1 distance)
                           else dmul entry (dadd 1 distance))
           | _ \<Rightarrow> Raised ValueError))"

definition build_stop_order_plan :: "string \<Rightarrow> account_id \<Rightarrow> string \<Rightarrow> PositionProtectionSnapshot
    \<Rightarrow> StopProtectionSpec \<Rightarrow> InstrumentSpec \<Rightarrow> int \<Rightarrow> OrderPlan outcome" where
  "build_stop_order_plan intent_id account_id instrument_id position stop instrument seq =
     (let stop_type = lower (st_stop_type stop)
      in if stop_type \<notin> {''stop_market'', ''stop_limit''} then Raised ValueError
         else
           bind_outcome (trigger_price position stop) (\<lambda>trigger.
           bind_outcome
             (if stop_type = ''stop_limit''
              then (case st_limit_price stop of
                      None \<Rightarrow> Raised ValueError
                    | Some p \<Rightarrow> bind_outcome (protection_round p (in_price_increment instrument))
                                 (\<lambda>x. Planned (Some x)))
              else Planned None) (\<lambda>limit_price.
           bind_outcome (uuid_or_raise intent_id) (\<lambda>u.
           bind_outcome (encode_or_raise u seq) (\<lambda>cid.
           bind_outcome (protection_round (dabs (pp_quantity position)) (in_quantity_increment instrument)) (\<lambda>quantity.
           bind_outcome (protection_round trigger (in_price_increment instrument)) (\<lambda>trigger'.
           Planned (protection_order u cid
             [tag ''intent_id'' (uuid_str u), ''action=install_protection'', tag ''account_id'' account_id,
              ''lifecycle_role=stop_loss'', tag ''position_id'' (pp_position_key position),
              tag ''trigger_basis'' (st_trigger_basis stop)]
             instrument_id (protection_exit_side (pp_side position))
             (if stop_type = ''stop_limit'' then ''STOP_LIMIT'' else ''STOP_MARKET'')
             quantity limit_price ''GTC'' (Some trigger')))))))))"

section \<open>The take-profit ladder\<close>

definition target_quantity :: "rat \<Rightarrow> TakeProfitTarget \<Rightarrow> increment \<Rightarrow> rat outcome" where
  "target_quantity position_quantity target inc =
     (if (tp_fraction target = None) = (tp_quantity target = None) then spec_denied ''fraction_xor_quantity''
      else let raw' = (case tp_fraction target of
                         Some f \<Rightarrow> dmul position_quantity f | None \<Rightarrow> the (tp_quantity target))
           in if raw' \<le> 0 then spec_denied ''quantity'' else protection_round raw' inc)"

definition target_price :: "PositionProtectionSnapshot \<Rightarrow> rat \<Rightarrow> TakeProfitTarget \<Rightarrow> rat outcome" where
  "target_price position initial_stop_price target =
     (if (tp_price target = None) = (tp_r_multiple target = None) then spec_denied ''price_xor_r_multiple''
      else case tp_price target of
        Some p \<Rightarrow> Planned p
      | None \<Rightarrow>
          (case pp_entry_price position of
             None \<Rightarrow> spec_denied ''entry_price_required''
           | Some entry \<Rightarrow>
               let risk = dabs (dsub entry initial_stop_price); multiple = the (tp_r_multiple target)
               in Planned (if is_long (pp_side position) then dadd entry (dmul risk multiple)
                           else dsub entry (dmul risk multiple))))"

definition ladder_order :: "uuid \<Rightarrow> account_id \<Rightarrow> string \<Rightarrow> PositionProtectionSnapshot \<Rightarrow> rat
    \<Rightarrow> InstrumentSpec \<Rightarrow> nat \<Rightarrow> TakeProfitTarget \<Rightarrow> OrderPlan outcome" where
  "ladder_order u account_id instrument_id position initial_stop_price instrument i target =
     bind_outcome (target_quantity (pp_quantity position) target (in_quantity_increment instrument)) (\<lambda>quantity.
     bind_outcome (target_price position initial_stop_price target) (\<lambda>trigger.
     bind_outcome (protection_round trigger (in_price_increment instrument)) (\<lambda>price.
     bind_outcome (encode_or_raise u (int (Suc i))) (\<lambda>cid.
     Planned (protection_order u cid
       [tag ''intent_id'' (uuid_str u), ''action=install_take_profit'', tag ''account_id'' account_id,
        ''lifecycle_role=take_profit'', tag ''position_id'' (pp_position_key position),
        tag ''take_profit_index'' (show_nat (Suc i))]
       instrument_id (protection_exit_side (pp_side position)) ''LIMIT_IF_TOUCHED'' quantity (Some price)
       (tp_time_in_force target) (Some price))))))"

fun ladder_loop ::
  "(nat \<Rightarrow> TakeProfitTarget \<Rightarrow> OrderPlan outcome) \<Rightarrow> nat \<Rightarrow> rat \<Rightarrow> OrderPlan list \<Rightarrow> TakeProfitTarget list
    \<Rightarrow> (rat \<times> OrderPlan list) outcome" where
  "ladder_loop mk i tot plans [] = Planned (tot, plans)"
| "ladder_loop mk i tot plans (t # ts) =
     bind_outcome (mk i t) (\<lambda>plan.
     ladder_loop mk (Suc i) (dadd tot (op_quantity plan)) (plans @ [plan]) ts)"

definition build_take_profit_ladder :: "string \<Rightarrow> account_id \<Rightarrow> string \<Rightarrow> PositionProtectionSnapshot
    \<Rightarrow> rat \<Rightarrow> TakeProfitTarget list \<Rightarrow> InstrumentSpec \<Rightarrow> OrderPlan list outcome" where
  "build_take_profit_ladder intent_id account_id instrument_id position initial_stop_price targets instrument =
     (if targets = [] then Denied ''take_profit_required'' [PText ''targets'']
      else bind_outcome (uuid_or_raise intent_id) (\<lambda>u.
           bind_outcome (ladder_loop (ladder_order u account_id instrument_id position initial_stop_price instrument)
             0 0 [] targets) (\<lambda>(tot, plans).
           if tot > pp_quantity position
           then Denied ''quantity_exceeds_position'' [PDec tot, PText ''>'', PDec (pp_quantity position)]
           else Planned plans)))"

section \<open>Recomputing protective quantities\<close>

fun allocate :: "rat \<Rightarrow> rat \<Rightarrow> rat list \<Rightarrow> rat list" where
  "allocate remaining allocated [] = []"
| "allocate remaining allocated (q # qs) =
     (let available = max 0 (dsub remaining allocated); capped = min q available
      in capped # allocate remaining (dadd allocated capped) qs)"

definition recompute_remaining_quantities :: "rat \<Rightarrow> rat \<Rightarrow> rat list \<Rightarrow> RecomputedProtectionQuantities" where
  "recompute_remaining_quantities position_quantity stop_quantity take_profit_quantities =
     (let remaining = max 0 position_quantity
      in \<lparr>rq_stop_quantity = min stop_quantity remaining,
          rq_take_profit_quantities = allocate remaining 0 take_profit_quantities\<rparr>)"

section \<open>The trailing stop\<close>

definition build_trailing_stop_order :: "string \<Rightarrow> account_id \<Rightarrow> string \<Rightarrow> PositionProtectionSnapshot
    \<Rightarrow> rat \<Rightarrow> rat option \<Rightarrow> bool \<Rightarrow> TrailingStopOrderPlan outcome" where
  "build_trailing_stop_order intent_id account_id instrument_id position callback_rate activation_price native =
     bind_outcome (uuid_or_raise intent_id) (\<lambda>u.
     bind_outcome (encode_or_raise u 1) (\<lambda>cid.
     Planned \<lparr>ts_intent_id = u, ts_client_order_id = cid,
       ts_tags = [tag ''intent_id'' (uuid_str u), ''action=install_trailing_stop'', tag ''account_id'' account_id,
         ''lifecycle_role=stop_loss'', tag ''position_id'' (pp_position_key position), ''trailing=true''],
       ts_instrument_id = instrument_id, ts_side = protection_exit_side (pp_side position),
       ts_order_type = (if native then ''TRAILING_STOP_MARKET'' else ''STOP_MARKET''),
       ts_quantity = dabs (pp_quantity position), ts_reduce_only = True, ts_native = native,
       ts_callback_rate = callback_rate, ts_activation_price = activation_price\<rparr>))"

section \<open>Ladders\<close>

lemma protection_round_is_planner_round:
  "protection_round x inc = Planned y \<longleftrightarrow> 0 < x \<and> round_to_increment x inc f = Planned y"
  by (auto simp: protection_round_def round_to_increment_def increment_step_def not_le spec_denied_def
      split: option.splits if_splits)

lemma protection_round_units:
  assumes "protection_round x inc = Planned y"
  shows "\<exists>l k. inc = Some l \<and> 0 \<le> k \<and> y = of_int k * 10 powi (snd l)"
  using assms rounded_positive_units[of "JDec x" inc "[]" y]
  unfolding protection_round_is_planner_round[of x inc y "[]"]
  by (simp add: rounded_positive_def decimal_field_def)

lemma ladder_order_Planned:
  assumes "ladder_order u a ii position s i j t = Planned order"
  shows "op_reduce_only order \<and> op_side order = protection_exit_side (pp_side position)
    \<and> (\<exists>l k. in_quantity_increment i = Some l \<and> 0 \<le> k \<and> op_quantity order = of_int k * 10 powi (snd l))"
  using assms protection_round_units
  by (fastforce simp: ladder_order_def bind_outcome_Planned_iff protection_order_def target_quantity_def Let_def
      split: if_splits)

lemma ladder_loop_Planned:
  assumes "ladder_loop mk i tot acc ts = Planned (tot', plans)"
  shows "\<exists>new. plans = acc @ new \<and> length new = length ts \<and> (\<forall>p \<in> set new. \<exists>j t. mk j t = Planned p)
    \<and> tot' = dsum_from tot (map op_quantity new)"
  using assms
proof (induction ts arbitrary: i tot acc)
  case (Cons t ts)
  then obtain p where p: "mk i t = Planned p"
    "ladder_loop mk (Suc i) (dadd tot (op_quantity p)) (acc @ [p]) ts = Planned (tot', plans)"
    by (auto simp: bind_outcome_Planned_iff)
  from Cons.IH[OF p(2)] obtain new where "plans = (acc @ [p]) @ new" "length new = length ts"
    "\<forall>p \<in> set new. \<exists>j t. mk j t = Planned p"
    "tot' = dsum_from (dadd tot (op_quantity p)) (map op_quantity new)" by blast
  with p(1) show ?case by (intro exI[of _ "p # new"]) auto
qed simp

text \<open>
  A take-profit ladder never sells more than it protects: it has one order per target, all
  reduce-only on the closing side, and their quantities add up, exactly, to at most the quantity of
  the position, whenever that quantity has at most 28 digits on the instrument's grid.
\<close>

theorem ladder_within_position:
  assumes "build_take_profit_ladder intent a ii position s targets i = Planned plans"
    "in_quantity_increment i = Some (c, e)" "pp_quantity position < 10 ^ 28 * 10 powi e"
  shows "length plans = length targets
    \<and> list_all (\<lambda>p. op_reduce_only p \<and> op_side p = protection_exit_side (pp_side position)) plans
    \<and> sum_list (map op_quantity plans) \<le> pp_quantity position"
proof -
  obtain u tot where l: "ladder_loop (ladder_order u a ii position s i) 0 0 [] targets = Planned (tot, plans)"
    and le: "tot \<le> pp_quantity position"
    using assms(1)
    by (auto simp: build_take_profit_ladder_def bind_outcome_Planned_iff not_less split: if_splits)
  from ladder_loop_Planned[OF l] have n: "length plans = length targets"
    and m: "\<forall>p \<in> set plans. \<exists>j t. ladder_order u a ii position s i j t = Planned p"
    and tot: "tot = dsum (map op_quantity plans)" by (auto simp: dsum_def)
  have o: "op_reduce_only p \<and> op_side p = protection_exit_side (pp_side position)
      \<and> (\<exists>k. 0 \<le> k \<and> op_quantity p = of_int k * 10 powi e)" if "p \<in> set plans" for p
    using m that ladder_order_Planned assms(2) by fastforce
  have "dsum (map op_quantity plans) = sum_list (map op_quantity plans)"
    using o le assms(3) by (intro dsum_grid_exact[where e = e]) (auto simp: tot)
  with n o le show ?thesis by (auto simp: tot list_all_iff)
qed

definition example_ladder :: "OrderPlan list outcome" where
  "example_ladder = build_take_profit_ladder (uuid_str 7) ''acct'' ''BTCUSDT-PERP.BINANCE''
     \<lparr>pp_position_key = ''p1'', pp_side = ''long'', pp_quantity = 5, pp_entry_price = Some 100\<rparr> 90
     [\<lparr>tp_price = Some 110, tp_r_multiple = None, tp_fraction = None, tp_quantity = Some 2, tp_time_in_force = ''GTC''\<rparr>,
      \<lparr>tp_price = None, tp_r_multiple = Some 3, tp_fraction = None, tp_quantity = Some 3, tp_time_in_force = ''GTC''\<rparr>]
     example_instrument"

lemma uuid_str_7: "uuid_or_raise (uuid_str 7) = Planned 7"
proof -
  have h: "filter (\<lambda>c. c \<noteq> CHR ''-'') (strip_braces (remove_sub ''uuid:'' (remove_sub ''urn:'' (uuid_str 7)))) = uuid_hex 7"
    by code_simp
  have "parse_uuid (uuid_hex 7) = Inr 7" by (rule parse_uuid_hex)
  moreover have "filter (\<lambda>c. c \<noteq> CHR ''-'') (strip_braces (remove_sub ''uuid:'' (remove_sub ''urn:'' (uuid_hex 7)))) = uuid_hex 7"
    by code_simp
  ultimately show ?thesis by (simp add: uuid_or_raise_def parse_uuid_def h)
qed

lemma protection_round_unit:
  "(numeral n :: int) < 10 ^ 28 \<Longrightarrow> protection_round (numeral n) (Some (1, 0)) = Planned (numeral n)"
  using unit_rounding(1)[of n "[]"]
  unfolding protection_round_is_planner_round[where f = "[]"]
  by (simp add: rounded_positive_def decimal_field_def)

theorem ladder_within_position_witness:
  "\<exists>plans. example_ladder = Planned plans \<and> length plans = 2 \<and> sum_list (map op_quantity plans) \<le> 5"
proof -
  have l: "is_long ''long''" by code_simp
  have d: "dabs (dsub 100 90) = 10" by (simp add: dabs_def dsub_def)
  obtain c1 c2 where "encode_or_raise 7 1 = Planned c1" "encode_or_raise 7 2 = Planned c2"
    using example_encode[of 1] example_encode[of 2] by auto
  then obtain plans where p: "example_ladder = Planned plans"
    by (simp add: example_ladder_def build_take_profit_ladder_def uuid_str_7 ladder_order_def
        target_quantity_def target_price_def protection_round_unit example_fields protection_order_def dadd_def
        l d dmul_def)
  from ladder_within_position[OF p[unfolded example_ladder_def], of 1 0]
  have "length plans = 2 \<and> sum_list (map op_quantity plans) \<le> 5" by (simp add: example_fields)
  with p show ?thesis by blast
qed

section \<open>Recomputed quantities\<close>

lemma min_scale: "0 < (c :: rat) \<Longrightarrow> min (a * c) (b * c) = min a b * c"
  by (simp add: min_mult_distrib_right)

lemma allocate_units:
  assumes "0 \<le> a" "a \<le> p" "p \<le> 10 ^ 28" "\<forall>k \<in> set ks. 0 \<le> k"
  shows "\<exists>cs. allocate (of_int p * 10 powi e) (of_int a * 10 powi e) (map (\<lambda>k. of_int k * 10 powi e) ks)
      = map (\<lambda>c. of_int c * 10 powi e) cs \<and> list_all2 (\<lambda>c k. 0 \<le> c \<and> c \<le> k) cs ks
      \<and> sum_list cs = min (p - a) (sum_list ks)"
  using assms
proof (induction ks arbitrary: a)
  case (Cons k ks)
  define c where "c = min k (p - a)"
  have pos: "(0 :: rat) < 10 powi e" by simp
  have avail: "max 0 (dsub (of_int p * 10 powi e) (of_int a * 10 powi e)) = of_int (p - a) * 10 powi e"
  proof -
    have "of_int p * 10 powi e - of_int a * 10 powi e = (of_int (p - a) * 10 powi e :: rat)"
      by (simp add: left_diff_distrib)
    then have "dsub (of_int p * 10 powi e) (of_int a * 10 powi e) = of_int (p - a) * 10 powi e"
      unfolding dsub_def using Cons.prems by (simp only:) (rule dec_exact[of _ "p - a" e], simp_all)
    then show ?thesis using Cons.prems by simp
  qed
  have capped: "min (of_int k * 10 powi e) (of_int (p - a) * 10 powi e) = (of_int c * 10 powi e :: rat)"
    by (simp add: c_def min_scale of_int_min)
  have c: "0 \<le> c" "c \<le> k" "a + c \<le> p" using Cons.prems by (auto simp: c_def)
  have "of_int a * 10 powi e + of_int c * 10 powi e = (of_int (a + c) * 10 powi e :: rat)"
    by (simp add: distrib_right)
  then have add: "dadd (of_int a * 10 powi e) (of_int c * 10 powi e) = of_int (a + c) * 10 powi e"
    unfolding dadd_def using Cons.prems c by (simp only:) (rule dec_exact[of _ "a + c" e], simp_all)
  obtain cs where cs: "allocate (of_int p * 10 powi e) (of_int (a + c) * 10 powi e) (map (\<lambda>k. of_int k * 10 powi e) ks)
      = map (\<lambda>c. of_int c * 10 powi e) cs" "list_all2 (\<lambda>c k. 0 \<le> c \<and> c \<le> k) cs ks"
    "sum_list cs = min (p - (a + c)) (sum_list ks)"
    using Cons.IH[of "a + c"] Cons.prems c by auto
  have "0 \<le> sum_list ks" using Cons.prems(4) by (intro sum_list_nonneg) auto
  then have "c + sum_list cs = min (p - a) (k + sum_list ks)" using cs(3) by (auto simp: c_def)
  then show ?case
    using cs c by (intro exI[of _ "c # cs"]) (simp add: Let_def avail capped add del: of_int_diff of_int_add)
qed simp

text \<open>
  After a fill the protective quantities fit what is left. For a position and quantities on
  one grid, the stop is cut to the position, no take profit grows or turns negative, and the take
  profits together cover exactly the smaller of the position and what they covered before: nothing
  is oversold and no protection is given up needlessly.
\<close>

theorem recomputed_quantities_fit:
  assumes "0 \<le> p" "p \<le> 10 ^ 28" "\<forall>k \<in> set ks. 0 \<le> k"
  shows "let r = recompute_remaining_quantities (of_int p * 10 powi e) stop (map (\<lambda>k. of_int k * 10 powi e) ks)
    in rq_stop_quantity r = min stop (of_int p * 10 powi e)
      \<and> list_all2 (\<lambda>q k. 0 \<le> q \<and> q \<le> of_int k * 10 powi e) (rq_take_profit_quantities r) ks
      \<and> sum_list (rq_take_profit_quantities r) = min (of_int p * 10 powi e) (of_int (sum_list ks) * 10 powi e)"
proof -
  have pos: "(0 :: rat) < 10 powi e" by simp
  obtain cs where cs: "allocate (of_int p * 10 powi e) 0 (map (\<lambda>k. of_int k * 10 powi e) ks)
      = map (\<lambda>c. of_int c * 10 powi e) cs" "list_all2 (\<lambda>c k. 0 \<le> c \<and> c \<le> k) cs ks"
    "sum_list cs = min p (sum_list ks)"
    using allocate_units[of 0 p ks e] assms by auto
  have "sum_list (map (\<lambda>c. of_int c * 10 powi e) cs) = (of_int (sum_list cs) * 10 powi e :: rat)"
    by (induction cs) (simp_all add: distrib_right)
  also have "\<dots> = min (of_int p * 10 powi e) (of_int (sum_list ks) * 10 powi e)"
    using pos by (simp add: cs(3) of_int_min min_scale)
  finally have s: "sum_list (map (\<lambda>c. of_int c * 10 powi e) cs)
      = (min (of_int p * 10 powi e) (of_int (sum_list ks) * 10 powi e) :: rat)" .
  have "list_all2 (\<lambda>q k. (0 :: rat) \<le> q \<and> q \<le> of_int k * 10 powi e) (map (\<lambda>c. of_int c * 10 powi e) cs) ks"
    using cs(2) by (auto simp: list_all2_conv_all_nth)
  then show ?thesis
    using assms(1) cs(1) s by (simp add: recompute_remaining_quantities_def)
qed

theorem recomputed_quantities_fit_witness:
  "rq_stop_quantity (recompute_remaining_quantities (of_int 5 * 10 powi 0) 9 (map (\<lambda>k. of_int k * 10 powi 0) [3, 4])) = 5
   \<and> sum_list (rq_take_profit_quantities
        (recompute_remaining_quantities (of_int 5 * 10 powi 0) 9 (map (\<lambda>k. of_int k * 10 powi 0) [3, 4]))) = 5"
  using recomputed_quantities_fit[of 5 "[3, 4]" 0 9] by (simp add: Let_def)

end
