(* ===== verification/Position_Exits.thy ===== *)
theory Position_Exits
  imports Position_Projection Protection_Orders Operator_Commands
    "HOL-Library.Product_Lexorder" "HOL-Library.List_Lexorder" "HOL-Library.Char_ord"
begin

text \<open>
  The control plane's management of an open position: closing it in part or in full
  (\<open>exits.py\<close>), moving its stop to breakeven (\<open>breakeven.py\<close>), trailing the stop
  (\<open>trailing_stop.py\<close>) and installing the stop after an entry fill (\<open>protection_manager.py\<close>).

  The exchange is a protocol the code is given, so it is a parameter: a state and the three calls
  on it. Calls of the other protocols (moving a stop, alerts) are collected in the result. A
  statement that violates a constraint of the tables rolls the transaction back.
\<close>

section \<open>Closing\<close>

record 'x exit_exchange =
  ex_actual :: "'x \<Rightarrow> account_id \<Rightarrow> string \<Rightarrow> rat"
  ex_submit :: "'x \<Rightarrow> account_id \<Rightarrow> string \<Rightarrow> rat \<Rightarrow> 'x"
  ex_cancel :: "'x \<Rightarrow> string \<Rightarrow> 'x"

record CloseResult =
  cl_status :: string
  cl_position_key :: string
  cl_submitted_quantity :: rat
  cl_reason :: "string option"

definition close_result :: "string \<Rightarrow> string \<Rightarrow> rat \<Rightarrow> string option \<Rightarrow> CloseResult" where
  "close_result status key quantity reason =
     \<lparr>cl_status = status, cl_position_key = key, cl_submitted_quantity = quantity, cl_reason = reason\<rparr>"

definition close_quantity :: "rat \<Rightarrow> rat option \<Rightarrow> rat option \<Rightarrow> rat option" where
  "close_quantity actual fraction quantity =
     (if (fraction = None) = (quantity = None) then None
      else case fraction of Some f \<Rightarrow> Some (dmul actual f) | None \<Rightarrow> quantity)"

definition constraints_ok :: "position_db \<Rightarrow> bool" where
  "constraints_ok db =
     (list_all (\<lambda>r. 0 \<le> psn_quantity r) (pdb_positions db)
      \<and> list_all (\<lambda>r. (case pto_quantity r of Some q \<Rightarrow> 0 \<le> q | None \<Rightarrow> True)
           \<and> (case pto_price r of Some p \<Rightarrow> 0 < p | None \<Rightarrow> True)
           \<and> (case pto_trigger_price r of Some p \<Rightarrow> 0 < p | None \<Rightarrow> True)) (pdb_protective db))"

definition checked :: "position_db \<Rightarrow> position_db result" where
  "checked db = (if constraints_ok db then Inr db else Inl IntegrityError)"

definition update_position_quantity :: "position_db \<Rightarrow> account_id \<Rightarrow> string \<Rightarrow> rat \<Rightarrow> instant \<Rightarrow> position_db" where
  "update_position_quantity db a key quantity clock =
     db \<lparr>pdb_positions := update_where (is_position a key)
       (\<lambda>r. r \<lparr>psn_quantity := quantity, psn_status := (if quantity = 0 then ''closed'' else ''reducing''),
               psn_updated_at := clock\<rparr>) (pdb_positions db)\<rparr>"

definition active_role :: "account_id \<Rightarrow> string \<Rightarrow> string \<Rightarrow> protective_row \<Rightarrow> bool" where
  "active_role a key role r = (active_for a key r \<and> pto_lifecycle_role r = role)"

text \<open>\<open>LEAST\<close> ignores a missing quantity.\<close>

definition shrink_stops :: "position_db \<Rightarrow> account_id \<Rightarrow> string \<Rightarrow> rat \<Rightarrow> instant \<Rightarrow> position_db" where
  "shrink_stops db a key remaining clock =
     db \<lparr>pdb_protective := update_where (active_role a key ''stop_loss'')
       (\<lambda>r. r \<lparr>pto_quantity := Some (case pto_quantity r of Some q \<Rightarrow> min q remaining | None \<Rightarrow> remaining),
               pto_updated_at := clock\<rparr>) (pdb_protective db)\<rparr>"

definition client_id_rank :: "protective_row \<Rightarrow> bool \<times> string" where
  "client_id_rank r = (case pto_client_order_id r of Some c \<Rightarrow> (False, c) | None \<Rightarrow> (True, []))"

fun allocate_rows :: "rat \<Rightarrow> rat \<Rightarrow> protective_row list \<Rightarrow> (string \<times> rat) list result" where
  "allocate_rows remaining allocated [] = Inr []"
| "allocate_rows remaining allocated (r # rs) =
     (case pto_quantity r of
        None \<Rightarrow> Inl InvalidOperation
      | Some q \<Rightarrow>
          let available = max 0 (dsub remaining allocated); adjusted = min q available
          in bind_result (allocate_rows remaining (dadd allocated adjusted) rs) (\<lambda>rest.
             Inr ((pto_id r, adjusted) # rest)))"

definition set_protective_quantity :: "instant \<Rightarrow> position_db \<Rightarrow> string \<times> rat \<Rightarrow> position_db" where
  "set_protective_quantity clock db e =
     db \<lparr>pdb_protective := update_where (\<lambda>r. pto_id r = fst e)
       (\<lambda>r. r \<lparr>pto_quantity := Some (snd e), pto_active := (snd e > 0), pto_updated_at := clock\<rparr>)
       (pdb_protective db)\<rparr>"

definition recompute_active_protection_quantities ::
  "position_db \<Rightarrow> account_id \<Rightarrow> string \<Rightarrow> rat \<Rightarrow> instant \<Rightarrow> position_db result" where
  "recompute_active_protection_quantities db a key remaining clock =
     (let db1 = shrink_stops db a key remaining clock;
          rows = sort_key (\<lambda>r. (pto_updated_at r, client_id_rank r))
            (filter (active_role a key ''take_profit'') (pdb_protective db1))
      in bind_result (allocate_rows remaining 0 rows) (\<lambda>es.
         Inr (foldl (set_protective_quantity clock) db1 es)))"

definition partial_close :: "'x exit_exchange \<Rightarrow> 'x \<Rightarrow> position_db \<Rightarrow> account_id \<Rightarrow> string
    \<Rightarrow> rat option \<Rightarrow> rat option \<Rightarrow> instant \<Rightarrow> 'x \<times> (position_db \<times> CloseResult) result" where
  "partial_close ex x db a key fraction quantity clock =
     (let actual = ex_actual ex x a key
      in case close_quantity actual fraction quantity of
           None \<Rightarrow> (x, Inr (db, close_result ''denied'' key 0 (Some ''quantity_required'')))
         | Some q \<Rightarrow>
             if q \<le> 0 then (x, Inr (db, close_result ''denied'' key 0 (Some ''quantity_must_be_positive'')))
             else if q > actual
             then (x, Inr (db, close_result ''denied'' key 0 (Some ''quantity_exceeds_actual_position'')))
             else let x' = ex_submit ex x a key q; remaining = ex_actual ex x' a key
                  in (x', bind_result (recompute_active_protection_quantities
                             (update_position_quantity db a key remaining clock) a key remaining clock) (\<lambda>db'.
                           bind_result (checked db') (\<lambda>db''.
                           Inr (db'', close_result ''submitted'' key q None)))))"

definition protective_roles :: "string list" where
  "protective_roles = [''stop_loss'', ''take_profit'']"

definition closes_with :: "account_id \<Rightarrow> string \<Rightarrow> protective_row \<Rightarrow> bool" where
  "closes_with a key r = (active_for a key r \<and> pto_lifecycle_role r \<in> set protective_roles)"

definition active_protection_client_order_ids :: "position_db \<Rightarrow> account_id \<Rightarrow> string \<Rightarrow> string list" where
  "active_protection_client_order_ids db a key =
     filter (\<lambda>c. c \<noteq> []) (List.map_filter pto_client_order_id
       (sort_key (\<lambda>r. (pto_lifecycle_role r, client_id_rank r)) (filter (closes_with a key) (pdb_protective db))))"

definition clear_active_protection :: "position_db \<Rightarrow> account_id \<Rightarrow> string \<Rightarrow> instant \<Rightarrow> position_db" where
  "clear_active_protection db a key clock =
     db \<lparr>pdb_protective := update_where (closes_with a key)
       (\<lambda>r. r \<lparr>pto_active := False, pto_status := ''cancelled'', pto_updated_at := clock\<rparr>) (pdb_protective db)\<rparr>"

definition close_position :: "'x exit_exchange \<Rightarrow> 'x \<Rightarrow> position_db \<Rightarrow> account_id \<Rightarrow> string
    \<Rightarrow> ('x \<Rightarrow> bool) \<Rightarrow> instant \<Rightarrow> 'x \<times> (position_db \<times> CloseResult) result" where
  "close_position ex x db a key reconcile clock =
     (let actual = ex_actual ex x a key;
          x1 = (if actual > 0 then ex_submit ex x a key actual else x)
      in if ex_actual ex x1 a key \<noteq> 0
         then (x1, Inr (db, close_result ''verifying'' key actual (Some ''position_not_flat'')))
         else let x2 = foldl (ex_cancel ex) x1 (active_protection_client_order_ids db a key)
              in (x2, bind_result (checked (clear_active_protection (update_position_quantity db a key 0 clock) a key clock)) (\<lambda>db'.
                       Inr (db', if \<not> reconcile x2
                                 then close_result ''verifying'' key actual (Some ''final_reconciliation_failed'')
                                 else close_result ''completed'' key actual None))))"

section \<open>Breakeven\<close>

record BreakevenConfig =
  be_trigger_r :: rat
  be_offset_bps :: rat
  be_fee_buffer_bps :: rat

record BreakevenResult =
  br_action :: string
  br_reason :: string
  br_trigger_price :: "rat option"

definition breakeven_result :: "string \<Rightarrow> string \<Rightarrow> rat option \<Rightarrow> BreakevenResult" where
  "breakeven_result action reason price = \<lparr>br_action = action, br_reason = reason, br_trigger_price = price\<rparr>"

definition triggered :: "string \<Rightarrow> rat \<Rightarrow> rat \<Rightarrow> rat \<Rightarrow> rat \<Rightarrow> bool" where
  "triggered side entry risk market trigger_r =
     (if lower side = ''long'' then market \<ge> dadd entry (dmul risk trigger_r)
      else market \<le> dsub entry (dmul risk trigger_r))"

definition breakeven_price :: "string \<Rightarrow> rat \<Rightarrow> BreakevenConfig \<Rightarrow> rat result" where
  "breakeven_price side entry cfg =
     (let bps = ddiv (dadd (be_offset_bps cfg) (be_fee_buffer_bps cfg)) 10000;
          raw' = dmul entry (if lower side = ''long'' then dadd 1 bps else dsub 1 bps)
      in case quantize round_half_up (-2) raw' of Some x \<Rightarrow> Inr x | None \<Rightarrow> Inl InvalidOperation)"

definition load_breakeven_position :: "position_db \<Rightarrow> account_id \<Rightarrow> string \<Rightarrow> (string \<times> rat) option" where
  "load_breakeven_position db a key =
     (case List.find (is_position a key) (pdb_positions db) of
        Some r \<Rightarrow> map_option (\<lambda>p. (psn_side r, p)) (psn_avg_entry_price r) | None \<Rightarrow> None)"

definition load_active_stop :: "position_db \<Rightarrow> account_id \<Rightarrow> string \<Rightarrow> (protective_row \<times> rat) option" where
  "load_active_stop db a key =
     (case List.find (active_role a key ''stop_loss'') (pdb_protective db) of
        Some r \<Rightarrow> map_option (\<lambda>p. (r, p)) (pto_trigger_price r) | None \<Rightarrow> None)"

definition move_stop_row :: "position_db \<Rightarrow> string \<Rightarrow> rat \<Rightarrow> dict \<Rightarrow> instant \<Rightarrow> position_db" where
  "move_stop_row db rid target extra clock =
     db \<lparr>pdb_protective := update_where (\<lambda>r. pto_id r = rid)
       (\<lambda>r. r \<lparr>pto_trigger_price := Some target, pto_payload := dict_update (pto_payload r) extra,
               pto_updated_at := clock\<rparr>) (pdb_protective db)\<rparr>"

text \<open>The result carries the stop moves handed to the submitter; a time in a payload is its instant.\<close>

definition breakeven_evaluate_and_apply :: "position_db \<Rightarrow> account_id \<Rightarrow> string \<Rightarrow> rat \<Rightarrow> bool
    \<Rightarrow> BreakevenConfig \<Rightarrow> instant \<Rightarrow> (position_db \<times> BreakevenResult \<times> (string option \<times> rat) list) result" where
  "breakeven_evaluate_and_apply db a key market_price price_stale cfg now =
     (if price_stale then Inr (db, breakeven_result ''blocked'' ''market_data_stale'' None, [])
      else case (load_breakeven_position db a key, load_active_stop db a key) of
        (Some (side, entry), Some (stop, current_stop)) \<Rightarrow>
          if jget (pto_payload stop) ''breakeven_applied'' = JBool True
          then Inr (db, breakeven_result ''already_applied'' ''breakeven_already_applied'' (Some current_stop), [])
          else let risk = dabs (dsub entry current_stop)
               in if risk \<le> 0 then Inr (db, breakeven_result ''blocked'' ''invalid_initial_risk'' None, [])
                  else if \<not> triggered side entry risk market_price (be_trigger_r cfg)
                  then Inr (db, breakeven_result ''wait'' ''trigger_not_reached'' None, [])
                  else bind_result (breakeven_price side entry cfg) (\<lambda>target.
                       bind_result (checked (move_stop_row db (pto_id stop) target
                           [(''breakeven_applied'', JBool True), (''breakeven_applied_at'', JNum (of_int now))] now))
                         (\<lambda>db'. Inr (db', breakeven_result ''applied'' ''breakeven_applied'' (Some target),
                                     [(pto_client_order_id stop, target)])))
      | _ \<Rightarrow> Inr (db, breakeven_result ''blocked'' ''position_or_stop_missing'' None, []))"

section \<open>Trailing\<close>

record AppTrailingConfig =
  tc_callback_rate :: rat
  tc_min_step :: rat
  tc_update_interval_seconds :: int

record AppTrailingState =
  tr_side :: string
  tr_high_watermark :: "rat option"
  tr_low_watermark :: "rat option"
  tr_stop_price :: rat
  tr_last_updated_at :: "instant option"

record TrailingDecision =
  td_action :: string
  td_reason :: string
  td_stop_price :: rat
  td_high_watermark :: "rat option"
  td_low_watermark :: "rat option"

definition trailing_decision :: "string \<Rightarrow> string \<Rightarrow> rat \<Rightarrow> rat option \<Rightarrow> rat option \<Rightarrow> TrailingDecision" where
  "trailing_decision action reason stop high low =
     \<lparr>td_action = action, td_reason = reason, td_stop_price = stop, td_high_watermark = high, td_low_watermark = low\<rparr>"

definition rate_limited :: "instant option \<Rightarrow> instant \<Rightarrow> int \<Rightarrow> bool" where
  "rate_limited updated_at now seconds =
     (case updated_at of None \<Rightarrow> False | Some t \<Rightarrow> total_seconds (now - t) < of_int seconds)"

definition or_num :: "rat option \<Rightarrow> rat \<Rightarrow> rat" where
  "or_num v dflt = (case v of Some x \<Rightarrow> if x = 0 then dflt else x | None \<Rightarrow> dflt)"

definition trailing_evaluate :: "AppTrailingConfig \<Rightarrow> AppTrailingState \<Rightarrow> rat \<Rightarrow> bool \<Rightarrow> bool \<Rightarrow> instant
    \<Rightarrow> TrailingDecision result" where
  "trailing_evaluate cfg st current price_stale data_connected now =
     (if price_stale \<or> \<not> data_connected
      then Inr (trailing_decision ''blocked'' ''market_data_unavailable'' (tr_stop_price st)
             (tr_high_watermark st) (tr_low_watermark st))
      else if is_long (tr_side st)
      then let high = max (or_num (tr_high_watermark st) current) current
           in case quantize round_half_up (-2) (dmul high (dsub 1 (tc_callback_rate cfg))) of
                None \<Rightarrow> Inl InvalidOperation
              | Some desired \<Rightarrow> Inr (
                  if desired \<le> tr_stop_price st
                  then trailing_decision ''hold'' ''never_loosen'' (tr_stop_price st) (Some high) (tr_low_watermark st)
                  else if dsub desired (tr_stop_price st) < tc_min_step cfg
                  then trailing_decision ''hold'' ''min_step_not_reached'' (tr_stop_price st) (Some high) (tr_low_watermark st)
                  else if rate_limited (tr_last_updated_at st) now (tc_update_interval_seconds cfg)
                  then trailing_decision ''wait'' ''rate_limited'' (tr_stop_price st) (Some high) (tr_low_watermark st)
                  else trailing_decision ''update'' ''trail_advanced'' desired (Some high) (tr_low_watermark st))
      else let low = min (or_num (tr_low_watermark st) current) current
           in case quantize round_half_up (-2) (dmul low (dadd 1 (tc_callback_rate cfg))) of
                None \<Rightarrow> Inl InvalidOperation
              | Some desired \<Rightarrow> Inr (
                  if desired \<ge> tr_stop_price st
                  then trailing_decision ''hold'' ''never_loosen'' (tr_stop_price st) (tr_high_watermark st) (Some low)
                  else if dsub (tr_stop_price st) desired < tc_min_step cfg
                  then trailing_decision ''hold'' ''min_step_not_reached'' (tr_stop_price st) (tr_high_watermark st) (Some low)
                  else if rate_limited (tr_last_updated_at st) now (tc_update_interval_seconds cfg)
                  then trailing_decision ''wait'' ''rate_limited'' (tr_stop_price st) (tr_high_watermark st) (Some low)
                  else trailing_decision ''update'' ''trail_advanced'' desired (tr_high_watermark st) (Some low)))"

section \<open>Installing the stop\<close>

record finding_row =
  fi_account_id :: account_id
  fi_finding_type :: string
  fi_severity :: string
  fi_position_key :: "string option"
  fi_payload :: dict
  fi_run_reason :: string

record protection_state =
  prs_db :: position_db
  prs_modes :: risk_modes
  prs_findings :: "finding_row list"
  prs_alerts :: "dict list"

record ProtectionInstallRequest =
  pir_account_id :: account_id
  pir_position_key :: string
  pir_intent_id :: string
  pir_stop :: StopProtectionSpec
  pir_instrument :: InstrumentSpec
  pir_entry_filled_at :: instant
  pir_now :: instant
  pir_threshold_seconds :: int

record ProtectionInstallResult =
  pis_status :: string
  pis_position_key :: string
  pis_client_order_id :: "string option"
  pis_risk_mode :: "string option"
  pis_reason :: "string option"

definition install_fail :: "string \<Rightarrow> protection_state \<Rightarrow> ProtectionInstallRequest \<Rightarrow> string \<Rightarrow> string option
    \<Rightarrow> (protection_state \<times> ProtectionInstallResult) result" where
  "install_fail failure_mode st rq reason err =
     (let position = List.find (is_position (pir_account_id rq) (pir_position_key rq)) (pdb_positions (prs_db st));
          instrument_id = canonical_instrument_key
            (case position of
               Some r \<Rightarrow> if psn_instrument_id r \<noteq> [] then psn_instrument_id r else in_instrument_id (pir_instrument rq)
             | None \<Rightarrow> in_instrument_id (pir_instrument rq));
          payload = [(''type'', JStr reason), (''position_key'', JStr (pir_position_key rq)),
                     (''intent_id'', JStr (pir_intent_id rq))]
                    @ (case err of Some e \<Rightarrow> [(''error'', JStr e)] | None \<Rightarrow> [])
      in bind_result (set_mode (prs_modes st) (pir_account_id rq) instrument_id failure_mode) (\<lambda>modes.
         Inr (st \<lparr>prs_modes := modes,
                  prs_findings := prs_findings st @
                    [\<lparr>fi_account_id = pir_account_id rq, fi_finding_type = reason, fi_severity = ''critical'',
                      fi_position_key = Some (pir_position_key rq), fi_payload = payload,
                      fi_run_reason = ''protection_manager''\<rparr>],
                  prs_alerts := prs_alerts st @ [payload]\<rparr>,
              \<lparr>pis_status = ''failed'', pis_position_key = pir_position_key rq, pis_client_order_id = None,
               pis_risk_mode = Some failure_mode, pis_reason = Some reason\<rparr>)))"

definition replace_stop :: "position_db \<Rightarrow> protective_row \<Rightarrow> instant \<Rightarrow> position_db" where
  "replace_stop db row clock =
     db \<lparr>pdb_protective := update_where (active_role (pto_account_id row) (pto_position_key row) ''stop_loss'')
         (\<lambda>r. r \<lparr>pto_active := False, pto_status := ''replaced'', pto_updated_at := clock\<rparr>) (pdb_protective db)
       @ [row]\<rparr>"

definition stop_row :: "ProtectionInstallRequest \<Rightarrow> position_projection_row \<Rightarrow> OrderPlan \<Rightarrow> dict \<Rightarrow> string \<Rightarrow> protective_row" where
  "stop_row rq position plan submitted uuid =
     \<lparr>pto_id = uuid, pto_account_id = pir_account_id rq, pto_position_key = pir_position_key rq,
      pto_venue_symbol = canonical_instrument_key (psn_instrument_id position), pto_lifecycle_role = ''stop_loss'',
      pto_client_order_id = Some (str_or [jget submitted ''client_order_id''] (op_client_order_id plan)),
      pto_venue_order_id = jget submitted ''venue_order_id'',
      pto_status = json_str (jget_or submitted ''status'' (JStr ''submitted'')), pto_active = True,
      pto_quantity = Some (op_quantity plan), pto_price = op_price plan, pto_trigger_price = op_trigger_price plan,
      pto_updated_at = pir_now rq,
      pto_payload = [(''intent_id'', JStr (pir_intent_id rq)), (''source'', JStr ''protection_manager'')]\<rparr>"

definition position_stop_plan :: "ProtectionInstallRequest \<Rightarrow> position_projection_row \<Rightarrow> OrderPlan outcome" where
  "position_stop_plan rq position =
     build_stop_order_plan (pir_intent_id rq) (pir_account_id rq) (psn_instrument_id position)
       \<lparr>pp_position_key = pir_position_key rq, pp_side = psn_side position,
        pp_quantity = psn_quantity position, pp_entry_price = psn_avg_entry_price position\<rparr>
       (pir_stop rq) (pir_instrument rq) 1"

text \<open>
  The submitter is a parameter: it answers with a payload or raises, and then \<open>repr\<close> of what it
  raised is the text of the failure. The row's id is generated.
\<close>

definition install_after_entry_fill :: "string \<Rightarrow> (OrderPlan \<Rightarrow> string + dict) \<Rightarrow> string \<Rightarrow> protection_state
    \<Rightarrow> ProtectionInstallRequest \<Rightarrow> (protection_state \<times> ProtectionInstallResult) result" where
  "install_after_entry_fill failure_mode submit_stop uuid st rq =
     (if total_seconds (pir_now rq - pir_entry_filled_at rq) > of_int (pir_threshold_seconds rq)
      then install_fail failure_mode st rq ''protection_install_timeout'' None
      else case List.find (is_position (pir_account_id rq) (pir_position_key rq)) (pdb_positions (prs_db st)) of
        None \<Rightarrow> install_fail failure_mode st rq ''position_missing'' None
      | Some position \<Rightarrow>
          if psn_quantity position \<le> 0 then install_fail failure_mode st rq ''position_flat'' None
          else case position_stop_plan rq position of
            Raised e \<Rightarrow> Inl e
          | Denied reason d \<Rightarrow> Inl ValueError
          | Planned plan \<Rightarrow>
              (case submit_stop plan of
                 Inl err \<Rightarrow> install_fail failure_mode st rq ''protection_install_failed'' (Some err)
               | Inr submitted \<Rightarrow>
                   let row = stop_row rq position plan submitted uuid
                   in bind_result (checked (replace_stop (prs_db st) row (pir_now rq))) (\<lambda>db.
                      if uuid \<in> set (map pto_id (pdb_protective (prs_db st)))
                         \<or> jget_or submitted ''status'' (JStr ''submitted'') = JNull then Inl IntegrityError
                      else Inr (st \<lparr>prs_db := db\<rparr>,
                        \<lparr>pis_status = ''submitted'', pis_position_key = pir_position_key rq,
                         pis_client_order_id = pto_client_order_id row, pis_risk_mode = None, pis_reason = None\<rparr>))))"

section \<open>Properties of closing\<close>

text \<open>The reducer of the exits and the node's recomputation allocate alike.\<close>

lemma allocate_rows_allocate:
  "allocate_rows remaining allocated rows = Inr es \<Longrightarrow>
   map snd es = allocate remaining allocated (map (\<lambda>r. the (pto_quantity r)) rows)
   \<and> map fst es = map pto_id rows \<and> list_all (\<lambda>r. pto_quantity r \<noteq> None) rows"
proof (induction rows arbitrary: allocated es)
  case (Cons r rows)
  then obtain q rest where q: "pto_quantity r = Some q"
    and rest: "allocate_rows remaining (dadd allocated (min q (max 0 (dsub remaining allocated)))) rows = Inr rest"
    and es: "es = (pto_id r, min q (max 0 (dsub remaining allocated))) # rest"
    by (auto simp: Let_def bind_result_Inr_iff split: option.splits)
  from Cons.IH[OF rest] q es show ?case by (simp add: Let_def)
qed simp

lemma close_position_completed:
  assumes "close_position ex x db a key reconcile clock = (x', Inr (db', res))" "cl_status res = ''completed''"
  shows "db' = clear_active_protection (update_position_quantity db a key 0 clock) a key clock" "reconcile x'"
    "\<exists>x1. x' = foldl (ex_cancel ex) x1 (active_protection_client_order_ids db a key) \<and> ex_actual ex x1 a key = 0"
    "cl_submitted_quantity res = ex_actual ex x a key"
  using assms
  by (auto simp: close_position_def Let_def close_result_def bind_result_Inr_iff checked_def split: if_splits)

lemma cleared_positions:
  "pdb_positions (clear_active_protection db a key t) = pdb_positions db"
  "pdb_protective (update_position_quantity db a key q t) = pdb_protective db"
  by (simp_all add: clear_active_protection_def update_position_quantity_def)

text \<open>
  C15. A close is reported as completed only when it is: the exchange reported the position flat
  after the reduce-only order, every protective order that was active with an id was cancelled there, the
  reconciliation succeeded, the position's row is closed with quantity zero and none of its stops
  and take profits is active any more. The order submitted was for the quantity the exchange reported.
\<close>

theorem completed_close_is_flat:
  assumes "close_position ex x db a key reconcile clock = (x', Inr (db', res))" "cl_status res = ''completed''"
  shows "(\<exists>x1. ex_actual ex x1 a key = 0
        \<and> x' = foldl (ex_cancel ex) x1 (active_protection_client_order_ids db a key))
    \<and> reconcile x' \<and> cl_submitted_quantity res = ex_actual ex x a key
    \<and> (\<forall>r \<in> set (pdb_positions db'). \<not> is_position a key r \<or> psn_quantity r = 0 \<and> psn_status r = ''closed'')
    \<and> (\<forall>r \<in> set (pdb_protective db'). \<not> closes_with a key r)"
proof -
  note c = close_position_completed[OF assms]
  have p: "\<not> is_position a key r \<or> psn_quantity r = 0 \<and> psn_status r = ''closed''"
    if "r \<in> set (update_where (is_position a key) (\<lambda>r. r \<lparr>psn_quantity := 0, psn_status := ''closed'', psn_updated_at := clock\<rparr>) rs)" for r rs
    using that by (induction rs) auto
  have "\<forall>r \<in> set (pdb_positions db'). \<not> is_position a key r \<or> psn_quantity r = 0 \<and> psn_status r = ''closed''"
    using p unfolding c(1) cleared_positions by (simp add: update_position_quantity_def)
  moreover have "\<forall>r \<in> set (pdb_protective db'). \<not> closes_with a key r"
    unfolding c(1) clear_active_protection_def
    by (simp, rule update_where_clears) (simp add: closes_with_def active_for_def)
  ultimately show ?thesis using c(2,3,4) by blast
qed

text \<open>
  The trailing stop never loosens: whatever the price, a decision keeps the stop of a long
  position where it is or raises it, and that of a short position where it is or lowers it; an
  update moves it strictly and by at least the configured step, as the code subtracts; and the watermark
  only moves in the direction of the position.
\<close>

theorem trailing_never_loosens:
  assumes "trailing_evaluate cfg st current stale online now = Inr d"
  shows "if is_long (tr_side st)
    then tr_stop_price st \<le> td_stop_price d
      \<and> (td_action d = ''update'' \<longrightarrow> tr_stop_price st < td_stop_price d
           \<and> tc_min_step cfg \<le> dsub (td_stop_price d) (tr_stop_price st))
      \<and> (\<forall>h. tr_high_watermark st = Some h \<and> h \<noteq> 0 \<longrightarrow> (\<exists>h'. td_high_watermark d = Some h' \<and> h \<le> h'))
    else td_stop_price d \<le> tr_stop_price st
      \<and> (td_action d = ''update'' \<longrightarrow> td_stop_price d < tr_stop_price st
           \<and> tc_min_step cfg \<le> dsub (tr_stop_price st) (td_stop_price d))
      \<and> (\<forall>l. tr_low_watermark st = Some l \<and> l \<noteq> 0 \<longrightarrow> (\<exists>l'. td_low_watermark d = Some l' \<and> l' \<le> l))"
  using assms
  by (auto simp: trailing_evaluate_def trailing_decision_def Let_def or_num_def not_le not_less
      split: if_splits option.splits)

section \<open>Properties of the stop\<close>

lemma set_mode_get_mode:
  "set_mode modes a i m = Inr modes' \<Longrightarrow> get_mode modes' a i = m"
  by (auto simp: set_mode_def get_mode_def AList.update_conv valid_modes_def split: if_splits option.splits)

lemma install_fail_Inr:
  assumes "install_fail fm st rq reason err = Inr (st', res)"
  shows "pis_status res = ''failed'' \<and> (\<exists>i. get_mode (prs_modes st') (pir_account_id rq) i = fm)
    \<and> prs_db st' = prs_db st
    \<and> (\<exists>f. prs_findings st' = prs_findings st @ [f] \<and> fi_severity f = ''critical''
         \<and> fi_position_key f = Some (pir_position_key rq) \<and> fi_finding_type f = reason)
    \<and> length (prs_alerts st') = Suc (length (prs_alerts st))"
  using assms set_mode_get_mode unfolding install_fail_def Let_def bind_result_Inr_iff by fastforce

lemma replace_stop_one_active:
  assumes "positions_ok db" "pto_active row" "pto_lifecycle_role row = ''stop_loss''"
    "pto_id row \<notin> set (map pto_id (pdb_protective db))"
  shows "positions_ok (replace_stop db row t)"
    "filter (active_role (pto_account_id row) (pto_position_key row) ''stop_loss'') (pdb_protective (replace_stop db row t)) = [row]"
proof -
  let ?p = "active_role (pto_account_id row) (pto_position_key row) ''stop_loss''"
  let ?f = "\<lambda>r :: protective_row. r \<lparr>pto_active := False, pto_status := ''replaced'', pto_updated_at := t\<rparr>"
  let ?ps = "update_where ?p ?f (pdb_protective db)"
  have none: "\<forall>r \<in> set ?ps. \<not> ?p r"
    by (rule update_where_clears) (simp add: active_role_def active_for_def)
  have row: "?p row" using assms by (simp add: active_role_def active_for_def)
  then show "filter ?p (pdb_protective (replace_stop db row t)) = [row]"
    using none by (simp add: replace_stop_def)
  have "slot_of row \<notin> set (active_slots ?ps)"
    using none assms(3) by (auto simp: active_slots_def slot_of_def active_role_def active_for_def)
  moreover have "distinct (active_slots ?ps)"
    using assms(1) unfolding positions_ok_def by (auto intro!: distinct_active_slots_update[THEN conjunct1])
  moreover have "active_slots (?ps @ [row]) = active_slots ?ps @ [slot_of row]"
    using assms(2) by (simp add: active_slots_def)
  ultimately have "distinct (active_slots (?ps @ [row]))" by simp
  moreover have "map pto_id ?ps = map pto_id (pdb_protective db)" by (simp add: map_update_where_frame)
  then have "distinct (map pto_id (?ps @ [row]))"
    using assms(1,4) unfolding positions_ok_def map_append by simp
  ultimately show "positions_ok (replace_stop db row t)"
    using assms(1) unfolding positions_ok_def replace_stop_def by simp
qed

lemma install_cases:
  assumes "install_after_entry_fill fm submit uuid st rq = Inr (st', res)"
  obtains reason err where "install_fail fm st rq reason err = Inr (st', res)"
  | position plan row where
    "position_stop_plan rq position = Planned plan" "position \<in> set (pdb_positions (prs_db st))"
    "0 < psn_quantity position" "st' = st \<lparr>prs_db := replace_stop (prs_db st) row (pir_now rq)\<rparr>"
    "pis_status res = ''submitted''"
    "pto_active row" "pto_lifecycle_role row = ''stop_loss''" "pto_account_id row = pir_account_id rq"
    "pto_position_key row = pir_position_key rq" "pto_quantity row = Some (op_quantity plan)"
    "pto_trigger_price row = op_trigger_price plan" "pto_id row \<notin> set (map pto_id (pdb_protective (prs_db st)))"
proof (cases "\<exists>reason err. install_fail fm st rq reason err = Inr (st', res)")
  case True
  then show ?thesis using that(1) by blast
next
  case False
  then obtain position plan submitted db where
    plan: "position_stop_plan rq position = Planned plan"
    and pos: "List.find (is_position (pir_account_id rq) (pir_position_key rq)) (pdb_positions (prs_db st)) = Some position"
      "0 < psn_quantity position"
    and db: "checked (replace_stop (prs_db st) (stop_row rq position plan submitted uuid) (pir_now rq)) = Inr db"
    and st': "st' = st \<lparr>prs_db := db\<rparr>" and res: "pis_status res = ''submitted''"
    and fresh: "uuid \<notin> set (map pto_id (pdb_protective (prs_db st)))"
    using assms unfolding install_after_entry_fill_def Let_def
    by (auto simp: bind_result_Inr_iff not_le split: if_splits option.splits outcome.splits sum.splits)
  have "st' = st \<lparr>prs_db := replace_stop (prs_db st) (stop_row rq position plan submitted uuid) (pir_now rq)\<rparr>"
    using db st' by (simp add: checked_def split: if_splits)
  then show ?thesis
    using plan pos(2) res fresh find_SomeD[OF pos(1)]
    by (intro that(2)[of position plan "stop_row rq position plan submitted uuid"]) (simp_all add: stop_row_def)
qed


section \<open>The tables under every operation\<close>

lemma checked_Inr: "checked db = Inr db' \<longleftrightarrow> db' = db \<and> constraints_ok db"
  by (auto simp: checked_def)

text \<open>An update that keeps keys and ids and activates nothing keeps the invariant.\<close>

definition tame :: "position_db \<Rightarrow> position_db \<Rightarrow> bool" where
  "tame db db' =
     (map (\<lambda>r. (psn_account_id r, psn_position_id r)) (pdb_positions db')
        = map (\<lambda>r. (psn_account_id r, psn_position_id r)) (pdb_positions db)
      \<and> map pto_id (pdb_protective db') = map pto_id (pdb_protective db)
      \<and> pdb_accounts db' = pdb_accounts db
      \<and> (distinct (active_slots (pdb_protective db)) \<longrightarrow> distinct (active_slots (pdb_protective db'))))"

lemma tame_refl [simp]: "tame db db"
  by (simp add: tame_def)

lemma tame_trans: "tame db db1 \<Longrightarrow> tame db1 db2 \<Longrightarrow> tame db db2"
  by (simp add: tame_def)

lemma tame_ok: "positions_ok db \<Longrightarrow> tame db db' \<Longrightarrow> constraints_ok db' \<Longrightarrow> positions_ok db'"
  by (simp add: tame_def positions_ok_def constraints_ok_def list_all_iff)

lemma tame_protective:
  assumes "\<And>r. p r \<Longrightarrow> pto_id (f r) = pto_id r" "\<And>r. r \<in> set (pdb_protective db) \<Longrightarrow> p r \<Longrightarrow> pto_active (f r) \<Longrightarrow> pto_active r \<and> slot_of (f r) = slot_of r"
  shows "tame db (db \<lparr>pdb_protective := update_where p f (pdb_protective db)\<rparr>)"
proof -
  define q where "q r = (p r \<and> r \<in> set (pdb_protective db))" for r
  have same: "update_where p f (pdb_protective db) = update_where q f (pdb_protective db)"
    unfolding update_where_def by (rule map_cong) (auto simp: q_def)
  have "map pto_id (update_where q f (pdb_protective db)) = map pto_id (pdb_protective db)"
    by (rule map_update_where_frame) (simp add: q_def assms(1))
  moreover have "distinct (active_slots (update_where q f (pdb_protective db)))" if "distinct (active_slots (pdb_protective db))"
    using that assms(2) by (intro distinct_active_slots_update[THEN conjunct1]) (auto simp: q_def)
  ultimately show ?thesis by (simp add: tame_def same)
qed

lemma tame_update_position_quantity: "tame db (update_position_quantity db a k q t)"
proof -
  have "map (\<lambda>r. (psn_account_id r, psn_position_id r)) (update_where (is_position a k)
      (\<lambda>r. r \<lparr>psn_quantity := q, psn_status := s, psn_updated_at := t\<rparr>) rs)
      = map (\<lambda>r. (psn_account_id r, psn_position_id r)) rs" for rs s
    by (rule map_update_where_frame) simp
  then show ?thesis by (simp add: tame_def update_position_quantity_def)
qed

lemma tame_simple:
  "tame db (shrink_stops db a k m t)" "tame db (clear_active_protection db a k t)"
  "tame db (move_stop_row db rid target extra t)"
  unfolding shrink_stops_def clear_active_protection_def move_stop_row_def
  by (rule tame_protective; simp add: slot_of_def active_role_def active_for_def)+

lemma tame_set_quantities:
  assumes "distinct (map fst es)" "\<forall>e \<in> set es. \<forall>r \<in> set (pdb_protective db). pto_id r = fst e \<longrightarrow> pto_active r"
  shows "tame db (foldl (set_protective_quantity t) db es)"
  using assms
proof (induction es arbitrary: db)
  case (Cons e es)
  let ?db = "set_protective_quantity t db e"
  have "tame db ?db"
    unfolding set_protective_quantity_def using Cons.prems(2)
    by (intro tame_protective) (auto simp: slot_of_def)
  moreover have "tame ?db (foldl (set_protective_quantity t) ?db es)"
  proof (rule Cons.IH, goal_cases)
    case 1
    show ?case using Cons.prems(1) by simp
  next
    case 2
    show ?case
    proof (intro ballI impI)
      fix e' r assume e': "e' \<in> set es" and r: "r \<in> set (pdb_protective ?db)" "pto_id r = fst e'"
      have ne: "fst e' \<noteq> fst e" using Cons.prems(1) imageI[OF e', of fst] by (metis distinct.simps(2) list.map(2) list.set_map)
      have "r \<in> set (pdb_protective db)"
        using r ne by (auto simp: set_protective_quantity_def set_update_where)
      then show "pto_active r" using Cons.prems(2) e' r(2) by simp
    qed
  qed
  ultimately show ?case unfolding foldl_Cons by (rule tame_trans)
qed simp

lemma distinct_ids_active:
  assumes "distinct (map pto_id ps)" "r \<in> set ps" "r' \<in> set ps" "pto_id r = pto_id r'"
  shows "r = r'"
  using assms by (metis distinct_map inj_onD)

lemma tame_recompute:
  assumes "recompute_active_protection_quantities db a k m t = Inr db'" "distinct (map pto_id (pdb_protective db))"
  shows "tame db db'"
proof -
  define db1 where "db1 = shrink_stops db a k m t"
  define rows where "rows = sort_key (\<lambda>r. (pto_updated_at r, client_id_rank r))
      (filter (active_role a k ''take_profit'') (pdb_protective db1))"
  obtain es where es: "allocate_rows m 0 rows = Inr es" and db': "db' = foldl (set_protective_quantity t) db1 es"
    using assms(1) unfolding recompute_active_protection_quantities_def Let_def db1_def[symmetric] rows_def[symmetric]
    by (auto simp: bind_result_Inr_iff)
  have t1: "tame db db1" unfolding db1_def by (rule tame_simple)
  then have d: "distinct (map pto_id (pdb_protective db1))" using assms(2) by (simp add: tame_def)
  have ids: "map fst es = map pto_id rows" using allocate_rows_allocate[OF es] by simp
  have "distinct (map pto_id (filter (active_role a k ''take_profit'') (pdb_protective db1)))"
    using d by (rule distinct_map_filter)
  then have "distinct (map pto_id rows)"
    unfolding rows_def distinct_map by (simp add: distinct_sort)
  moreover have "pto_active r" if "e \<in> set es" "r \<in> set (pdb_protective db1)" "pto_id r = fst e" for e r
  proof -
    have "fst e \<in> set (map pto_id rows)" using that(1) unfolding ids[symmetric] by simp
    then obtain r' where r': "r' \<in> set (pdb_protective db1)" "active_role a k ''take_profit'' r'" "pto_id r' = fst e"
      by (auto simp: rows_def)
    then have "r = r'" using distinct_ids_active[OF d that(2)] that(3) by simp
    with r' show ?thesis by (simp add: active_role_def active_for_def)
  qed
  ultimately have "tame db1 db'" unfolding db' by (intro tame_set_quantities) (auto simp: ids)
  with t1 show ?thesis by (rule tame_trans)
qed

inductive position_step :: "'x exit_exchange \<Rightarrow> position_db \<Rightarrow> position_db \<Rightarrow> bool" for ex where
  position: "apply_position_event db ev clock = Inr (db', res) \<Longrightarrow> position_step ex db db'"
| account: "apply_account_event db ev clock = Inr (db', ids) \<Longrightarrow> position_step ex db db'"
| part_closed: "partial_close ex x db a k fraction quantity clock = (x', Inr (db', res)) \<Longrightarrow> position_step ex db db'"
| all_closed: "close_position ex x db a k reconcile clock = (x', Inr (db', res)) \<Longrightarrow> position_step ex db db'"
| breakeven: "breakeven_evaluate_and_apply db a k price stale cfg now = Inr (db', moved) \<Longrightarrow> position_step ex db db'"
| install: "install_after_entry_fill mode submit uuid st rq = Inr (st', installed) \<Longrightarrow> prs_db st = db \<Longrightarrow> prs_db st' = db'
    \<Longrightarrow> position_step ex db db'"

lemma partial_close_ok:
  assumes "positions_ok db" "partial_close ex x db a k fraction quantity clock = (x', Inr (db', res))"
  shows "positions_ok db'"
proof (cases "db' = db")
  case False
  then obtain m where "recompute_active_protection_quantities (update_position_quantity db a k m clock) a k m clock = Inr db'"
    and c: "constraints_ok db'"
    using assms(2) unfolding partial_close_def Let_def
    by (auto simp: bind_result_Inr_iff checked_Inr split: if_splits option.splits)
  moreover have "distinct (map pto_id (pdb_protective (update_position_quantity db a k m clock)))"
    using assms(1) by (simp add: update_position_quantity_def positions_ok_def)
  ultimately have "tame db db'"
    using tame_trans[OF tame_update_position_quantity] tame_recompute by blast
  with c show ?thesis using tame_ok assms(1) by blast
qed (simp add: assms(1))

lemma close_position_ok:
  assumes "positions_ok db" "close_position ex x db a k reconcile clock = (x', Inr (db', res))"
  shows "positions_ok db'"
proof (cases "db' = db")
  case False
  then have "db' = clear_active_protection (update_position_quantity db a k 0 clock) a k clock" "constraints_ok db'"
    using assms(2) unfolding close_position_def Let_def
    by (auto simp: bind_result_Inr_iff checked_Inr split: if_splits)
  then show ?thesis
    using tame_ok[OF assms(1)] tame_trans[OF tame_update_position_quantity tame_simple(2)] by blast
qed (simp add: assms(1))

lemma breakeven_ok:
  assumes "positions_ok db" "breakeven_evaluate_and_apply db a k price stale cfg now = Inr (db', res)"
  shows "positions_ok db'"
proof (cases "db' = db")
  case False
  then obtain rid target extra where "db' = move_stop_row db rid target extra now" "constraints_ok db'"
    using assms(2) unfolding breakeven_evaluate_and_apply_def Let_def
    by (auto simp: bind_result_Inr_iff checked_Inr split: if_splits option.splits)
  then show ?thesis using tame_ok[OF assms(1)] tame_simple(3) by blast
qed (simp add: assms(1))

lemma install_ok:
  assumes "positions_ok (prs_db st)" "install_after_entry_fill fm submit uuid st rq = Inr (st', res)"
  shows "positions_ok (prs_db st')"
proof (cases rule: install_cases[OF assms(2)])
  case (1 reason err)
  then have "prs_db st' = prs_db st" using install_fail_Inr by blast
  with assms(1) show ?thesis by simp
next
  case (2 position plan row)
  show ?thesis using replace_stop_one_active[OF assms(1) 2(6,7,12)] 2(4) by simp
qed

interpretation position_store: invariant_store empty_position_db "position_step ex" positions_ok
  for ex :: "'x exit_exchange"
proof
  show "positions_ok empty_position_db" by (simp add: positions_ok_def empty_position_db_def active_slots_def)
next
  fix db db' assume ok: "positions_ok db" and "position_step ex db db'"
  from this(2) show "positions_ok db'"
    by cases (use ok in \<open>auto intro: apply_position_event_ok apply_account_event_ok partial_close_ok
      close_position_ok breakeven_ok install_ok\<close>)
qed

lemma is_position_eta: "is_position a k = (\<lambda>r. psn_account_id r = a \<and> psn_position_id r = k)"
  by (auto simp: is_position_def)

lemma length_filter_key:
  assumes "distinct (map f xs)"
  shows "length (filter (\<lambda>x. f x = v) xs) \<le> 1"
  using assms by (induction xs) (auto simp: filter_empty_conv, metis image_eqI)

lemma one_active_per_slot:
  assumes "distinct (active_slots ps)"
  shows "length (filter (active_role a k role) ps) \<le> 1"
proof -
  have "filter (active_role a k role) ps = filter (\<lambda>r. slot_of r = (a, k, role)) (filter pto_active ps)"
    unfolding filter_filter by (rule filter_cong) (auto simp: active_role_def active_for_def slot_of_def)
  then show ?thesis
    using length_filter_key assms unfolding active_slots_def by metis
qed

text \<open>
  The tables stay consistent under every interleaving of position events, account events, partial and
  full closes, breakeven moves and stop installations, against any exchange: a position has one row and a
  quantity that is not negative, at most one active stop and one active take profit, and an
  account has one row of balances that are not negative.
\<close>

theorem position_tables_consistent:
  assumes "(position_step ex)\<^sup>*\<^sup>* empty_position_db db"
  shows "length (filter (is_position a k) (pdb_positions db)) \<le> 1
    \<and> (\<forall>r \<in> set (pdb_positions db). 0 \<le> psn_quantity r)
    \<and> length (filter (active_role a k role) (pdb_protective db)) \<le> 1
    \<and> length (filter (\<lambda>r. acc_account_id r = a) (pdb_accounts db)) \<le> 1
    \<and> (\<forall>r \<in> set (pdb_accounts db). account_row_ok r)"
proof -
  have ok: "positions_ok db" using position_store.reachable_inv[OF assms] .
  then have "length (filter (is_position a k) (pdb_positions db)) \<le> 1"
    "length (filter (\<lambda>r. acc_account_id r = a) (pdb_accounts db)) \<le> 1"
    using length_filter_key[of "\<lambda>r. (psn_account_id r, psn_position_id r)" "pdb_positions db" "(a, k)"]
      length_filter_key[of acc_account_id "pdb_accounts db" a]
    by (auto simp: positions_ok_def is_position_eta)
  then show ?thesis using ok one_active_per_slot by (auto simp: positions_ok_def)
qed

section \<open>Examples and findings\<close>

definition example_position_row :: position_projection_row where
  "example_position_row = \<lparr>psn_account_id = ''acct'', psn_position_id = ''p1'', psn_instrument_id = ''BTCUSDT-PERP.BINANCE'',
     psn_side = ''long'', psn_quantity = 5, psn_avg_entry_price = Some 100, psn_mark_price = None,
     psn_unrealized_pnl = None, psn_status = ''open'', psn_updated_from_event_id = ''e0'', psn_ts_event = 0,
     psn_updated_at = 0, psn_payload = []\<rparr>"

definition example_stop_row :: "rat \<Rightarrow> protective_row" where
  "example_stop_row trigger = \<lparr>pto_id = ''s1'', pto_account_id = ''acct'', pto_position_key = ''p1'',
     pto_venue_symbol = ''BTCUSDT'', pto_lifecycle_role = ''stop_loss'', pto_client_order_id = Some ''c1'',
     pto_venue_order_id = JNull, pto_status = ''submitted'', pto_active = True, pto_quantity = Some 5,
     pto_price = None, pto_trigger_price = Some trigger, pto_updated_at = 0, pto_payload = []\<rparr>"

definition example_db :: "protective_row list \<Rightarrow> position_db" where
  "example_db stops = \<lparr>pdb_event_ids = [], pdb_positions = [example_position_row], pdb_protective = stops,
     pdb_accounts = []\<rparr>"

definition example_exchange :: "rat exit_exchange" where
  "example_exchange = \<lparr>ex_actual = (\<lambda>x a k. x), ex_submit = (\<lambda>x a k q. x - q), ex_cancel = (\<lambda>x c. x)\<rparr>"

theorem position_tables_consistent_witness:
  "\<exists>db. (position_step example_exchange)\<^sup>*\<^sup>* empty_position_db db \<and> pdb_positions db \<noteq> []
     \<and> length (filter (is_position ''acct'' ''acct:BTCUSDT'') (pdb_positions db)) \<le> 1"
proof -
  have "case apply_position_event empty_position_db example_close_event 20 of
      Inr (db, res) \<Rightarrow> pdb_positions db \<noteq> [] | Inl e \<Rightarrow> False" by code_simp
  then obtain db res where a: "apply_position_event empty_position_db example_close_event 20 = Inr (db, res)"
    and ne: "pdb_positions db \<noteq> []" by (auto split: sum.splits prod.splits)
  then have r: "(position_step example_exchange)\<^sup>*\<^sup>* empty_position_db db"
    by (blast intro: position_step.position)
  with ne position_tables_consistent[OF r] show ?thesis by blast
qed

theorem completed_close_is_flat_witness:
  "\<exists>x' db' res. close_position example_exchange 5 (example_db [example_stop_row 90]) ''acct'' ''p1'' (\<lambda>x. True) 1
       = (x', Inr (db', res)) \<and> cl_status res = ''completed''
     \<and> list_all (\<lambda>r. \<not> closes_with ''acct'' ''p1'' r) (pdb_protective db')"
proof -
  obtain x' db' res where
    c: "close_position example_exchange 5 (example_db [example_stop_row 90]) ''acct'' ''p1'' (\<lambda>x. True) 1 = (x', Inr (db', res))"
    "cl_status res = ''completed''"
    by (simp add: close_position_def example_exchange_def example_db_def checked_def constraints_ok_def
        clear_active_protection_def update_position_quantity_def example_position_row_def example_stop_row_def
        close_result_def is_position_def closes_with_def active_for_def protective_roles_def)
  from completed_close_is_flat[OF c] c show ?thesis by (auto simp: list_all_iff)
qed

definition example_trailing :: AppTrailingState where
  "example_trailing = \<lparr>tr_side = ''long'', tr_high_watermark = None, tr_low_watermark = None,
     tr_stop_price = 90, tr_last_updated_at = None\<rparr>"

lemma quantize_cents_numeral:
  "quantize round_half_up (-2) (numeral n) = (if (10 :: int) ^ 28 \<le> numeral n * 100 then None else Some (numeral n))"
proof -
  have "numeral n / 10 powi (-2) = (of_int (numeral n * 100) :: rat)" by (simp add: power_int_minus)
  moreover have "round_half_up (of_int k) = k" if "0 \<le> k" for k
    using that by (simp add: round_half_up_def floor_eq_iff)
  ultimately have "round_half_up (numeral n / 10 powi (-2)) = numeral n * 100"
    by (metis mult_nonneg_nonneg zero_le_numeral)
  then show ?thesis by (simp add: quantize_def power_int_minus)
qed

theorem trailing_never_loosens_witness:
  "\<exists>d. trailing_evaluate \<lparr>tc_callback_rate = 0, tc_min_step = 1, tc_update_interval_seconds = 10\<rparr>
       example_trailing 120 False True 5 = Inr d \<and> 90 \<le> td_stop_price d"
proof -
  have l: "is_long ''long''" by code_simp
  obtain d where d: "trailing_evaluate \<lparr>tc_callback_rate = 0, tc_min_step = 1, tc_update_interval_seconds = 10\<rparr>
       example_trailing 120 False True 5 = Inr d"
    by (simp add: trailing_evaluate_def example_trailing_def l or_num_def dsub_def dmul_def
        quantize_cents_numeral rate_limited_def)
  from trailing_never_loosens[OF d] have "90 \<le> td_stop_price d" by (simp add: example_trailing_def l)
  with d show ?thesis by blast
qed

definition example_request :: "rat option \<Rightarrow> ProtectionInstallRequest" where
  "example_request trigger = \<lparr>pir_account_id = ''acct'', pir_position_key = ''p1'', pir_intent_id = uuid_str 7,
     pir_stop = \<lparr>st_stop_type = ''stop_market'', st_trigger_price = trigger, st_distance_pct = None,
       st_limit_price = None, st_trigger_basis = ''mark''\<rparr>,
     pir_instrument = example_instrument, pir_entry_filled_at = 0, pir_now = 0, pir_threshold_seconds = 60\<rparr>"

definition example_protection :: protection_state where
  "example_protection = \<lparr>prs_db = example_db [example_stop_row 80], prs_modes = [], prs_findings = [], prs_alerts = []\<rparr>"

lemma replace_stop_constraints:
  assumes "constraints_ok db" "pto_quantity row = Some q" "0 \<le> q" "pto_price row = None"
    "pto_trigger_price row = Some p" "0 < p"
  shows "constraints_ok (replace_stop db row t)"
proof -
  have "list_all ok (update_where pr f rs)" if "list_all ok rs" "\<And>r. ok r \<Longrightarrow> ok (f r)" for ok pr rs
    and f :: "protective_row \<Rightarrow> protective_row"
    using that by (induction rs) auto
  then show ?thesis using assms by (simp add: constraints_ok_def replace_stop_def)
qed

lemma example_constraints: "constraints_ok (prs_db example_protection)"
  by (simp add: constraints_ok_def example_protection_def example_db_def example_position_row_def example_stop_row_def)

lemma example_in_time: "\<not> total_seconds (pir_now (example_request t) - pir_entry_filled_at (example_request t))
    > of_int (pir_threshold_seconds (example_request t))"
  by (simp add: example_request_def total_seconds_def)

lemma example_find: "List.find (is_position (pir_account_id (example_request t)) (pir_position_key (example_request t)))
    (pdb_positions (prs_db example_protection)) = Some example_position_row"
  by (simp add: example_request_def example_protection_def example_db_def example_position_row_def is_position_def)

lemma example_qty: "\<not> psn_quantity example_position_row \<le> 0"
  by (simp add: example_position_row_def)

lemma example_stop_market: "lower ''stop_market'' = ''stop_market''"
  by code_simp


text \<open>
  A stop that cannot be built escapes the failure handling: for an open position and a stop
  specification without a trigger price and without a distance, installing raises \<open>ValueError\<close>. The risk mode is
  not lowered, no finding is recorded and no alert is raised, although the position is unprotected.
\<close>

theorem unbuildable_stop_escapes:
  "install_after_entry_fill fm submit uuid example_protection (example_request None) = Inl ValueError"
proof -
  have "position_stop_plan (example_request None) example_position_row = Raised ValueError"
    by (simp add: position_stop_plan_def build_stop_order_plan_def example_request_def example_stop_market trigger_price_def)
  then show ?thesis
    unfolding install_after_entry_fill_def
    by (simp only: example_in_time example_find example_qty if_False option.case outcome.case)
qed

lemma dec_neg: "dec (- x) = - dec x"
  by (simp add: dec_def)

text \<open>
  Breakeven can loosen a stop. For a long position entered at 100 whose stop has already been raised to 110,
  a price of 120 triggers the breakeven move with trigger multiple 1, and the stop is moved down to 100: the target is
  never compared with the current stop.
\<close>

theorem breakeven_can_loosen_stop:
  "\<exists>db'. breakeven_evaluate_and_apply (example_db [example_stop_row 110]) ''acct'' ''p1'' 120 False
       \<lparr>be_trigger_r = 1, be_offset_bps = 0, be_fee_buffer_bps = 0\<rparr> 1
     = Inr (db', breakeven_result ''applied'' ''breakeven_applied'' (Some 100), [(Some ''c1'', 100)])
     \<and> map pto_trigger_price (pdb_protective db') = [Some 100]"
proof -
  have l: "lower ''long'' = ''long''" by code_simp
  have risk: "dabs (dsub 100 110) = 10" using dec_neg[of 10] by (simp add: dabs_def dsub_def)
  have pos: "load_breakeven_position (example_db [example_stop_row 110]) ''acct'' ''p1'' = Some (''long'', 100)"
    by (simp add: load_breakeven_position_def example_db_def example_position_row_def is_position_def)
  have stop: "load_active_stop (example_db [example_stop_row 110]) ''acct'' ''p1'' = Some (example_stop_row 110, 110)"
    by (simp add: load_active_stop_def example_db_def example_stop_row_def active_role_def active_for_def)
  have price: "breakeven_price ''long'' 100 \<lparr>be_trigger_r = 1, be_offset_bps = 0, be_fee_buffer_bps = 0\<rparr> = Inr 100"
    by (simp add: breakeven_price_def l dadd_def ddiv_def dmul_def quantize_cents_numeral)
  have trig: "triggered ''long'' 100 10 120 1" by (simp add: triggered_def l dadd_def dmul_def)
  have row: "jget (pto_payload (example_stop_row 110)) ''breakeven_applied'' = JNull"
    "pto_id (example_stop_row 110) = ''s1''" "pto_client_order_id (example_stop_row 110) = Some ''c1''"
    by (simp_all add: example_stop_row_def jget_def)
  have moved: "constraints_ok (move_stop_row (example_db [example_stop_row 110]) ''s1'' 100 extra 1)"
    "map pto_trigger_price (pdb_protective (move_stop_row (example_db [example_stop_row 110]) ''s1'' 100 extra 1)) = [Some 100]"
    for extra
    by (simp_all add: constraints_ok_def move_stop_row_def example_db_def example_stop_row_def example_position_row_def)
  show ?thesis
    by (simp add: breakeven_evaluate_and_apply_def pos stop risk price trig checked_def row moved)
qed

end
