(* ===== verification/Idempotency.thy ===== *)
theory Idempotency
  imports Client_Order_Ids
begin

text \<open>
  Deterministic keys and identifiers: \<open>execution_domain/idempotency.py\<close>, the trace context of
  \<open>observability/_shared.py\<close> and the transactional outbox (\<open>outbox.py\<close>).

  SHA-256 is the parameter \<open>sha\<close>, from a text to the 256-bit digest; its hexadecimal form and the
  UUID of its first 32 digits are computed from the digest.
\<close>

section \<open>Digests and keys\<close>

type_synonym hash = "string \<Rightarrow> 256 word"

definition hexdigest :: "256 word \<Rightarrow> string" where
  "hexdigest w = hex_digits 64 (unat w)"

definition digest_uuid :: "hash \<Rightarrow> string \<Rightarrow> string" where
  "digest_uuid sha s = uuid_str (ucast (drop_bit 128 (sha s)))"

fun material :: "string option list \<Rightarrow> string" where
  "material [] = []"
| "material [p] = (case p of None \<Rightarrow> [] | Some s \<Rightarrow> s)"
| "material (p # q # ps) = (case p of None \<Rightarrow> [] | Some s \<Rightarrow> s) @ ''|'' @ material (q # ps)"

definition sha256_hex :: "hash \<Rightarrow> string option list \<Rightarrow> string" where
  "sha256_hex sha parts = hexdigest (sha (material parts))"

definition intent_idempotency_key :: "hash \<Rightarrow> string \<Rightarrow> string \<Rightarrow> string option \<Rightarrow> string option \<Rightarrow> string" where
  "intent_idempotency_key sha decision_id action instrument account =
     sha256_hex sha [Some decision_id, Some action, Some (case instrument of Some s \<Rightarrow> s | None \<Rightarrow> []),
       Some (case account of Some s \<Rightarrow> s | None \<Rightarrow> [])]"

definition execution_job_key :: "hash \<Rightarrow> string \<Rightarrow> string \<Rightarrow> string option \<Rightarrow> string option \<Rightarrow> string" where
  "execution_job_key sha intent_id action instrument account =
     sha256_hex sha [Some ''execution_job'', Some intent_id, Some action,
       Some (case instrument of Some s \<Rightarrow> s | None \<Rightarrow> []), Some (case account of Some s \<Rightarrow> s | None \<Rightarrow> [])]"

definition request_id_of :: "string \<Rightarrow> string result" where
  "request_id_of s = (let t = strip s in if t = [] then Inl ValueError else Inr t)"

definition request_id_for_material :: "hash \<Rightarrow> string option list \<Rightarrow> string result" where
  "request_id_for_material sha parts = request_id_of (''req_'' @ take 32 (sha256_hex sha parts))"

section \<open>Trace context\<close>

definition clean_optional :: "string option \<Rightarrow> string option" where
  "clean_optional v =
     (case v of None \<Rightarrow> None | Some s \<Rightarrow> let t = strip s in if t = [] then None else Some t)"

definition uuidish :: "hash \<Rightarrow> string \<Rightarrow> string" where
  "uuidish sha s = (case parse_uuid s of Inr u \<Rightarrow> uuid_str u | Inl e \<Rightarrow> digest_uuid sha s)"

fun first_material :: "(string \<times> string option) list \<Rightarrow> string" where
  "first_material [] = []"
| "first_material ((name, v) # rest) =
     (case clean_optional v of Some t \<Rightarrow> name @ ''='' @ t | None \<Rightarrow> first_material rest)"

text \<open>Without any identifier the trace id is random, the parameter \<open>fresh\<close>.\<close>

definition derive_trace_id :: "hash \<Rightarrow> string \<Rightarrow> string option \<Rightarrow> (string \<times> string option) list \<Rightarrow> string" where
  "derive_trace_id sha fresh trace_id named =
     (case clean_optional trace_id of
        Some t \<Rightarrow> uuidish sha t
      | None \<Rightarrow> let m = first_material named in if m = [] then fresh else digest_uuid sha m)"

definition opt_str :: "json \<Rightarrow> string option" where
  "opt_str v = (if v = JNull then None else Some (json_str v))"

definition arg_or :: "string option \<Rightarrow> json \<Rightarrow> string option" where
  "arg_or arg v = (case arg of Some s \<Rightarrow> if s \<noteq> [] then Some s else opt_str v | None \<Rightarrow> opt_str v)"

definition json_setdefault :: "dict \<Rightarrow> string \<Rightarrow> json \<Rightarrow> dict" where
  "json_setdefault d k v = (if has_key d k then d else dict_set d k v)"

record trace_args =
  ta_trace_id :: "string option"
  ta_request_id :: "string option"
  ta_idempotency_key :: "string option"
  ta_intent_id :: "string option"
  ta_execution_job_id :: "string option"
  ta_order_id :: "string option"
  ta_command_id :: "string option"

definition no_trace_args :: trace_args where
  "no_trace_args = \<lparr>ta_trace_id = None, ta_request_id = None, ta_idempotency_key = None, ta_intent_id = None,
     ta_execution_job_id = None, ta_order_id = None, ta_command_id = None\<rparr>"

definition inject_trace_context :: "hash \<Rightarrow> string \<Rightarrow> dict \<Rightarrow> trace_args \<Rightarrow> dict" where
  "inject_trace_context sha fresh payload a =
     (let request_value = (case clean_optional (ta_request_id a) of
            Some r \<Rightarrow> Some r | None \<Rightarrow> clean_optional (opt_str (jget payload ''request_id'')));
          trace = derive_trace_id sha fresh (arg_or (ta_trace_id a) (jget payload ''trace_id''))
            [(''request_id'', request_value),
             (''idempotency_key'', arg_or (ta_idempotency_key a) (jget payload ''idempotency_key'')),
             (''intent_id'', arg_or (ta_intent_id a) (jget payload ''intent_id'')),
             (''execution_job_id'', arg_or (ta_execution_job_id a) (jget payload ''execution_job_id'')),
             (''order_id'', arg_or (ta_order_id a) (jor (jget payload ''order_id'') (jget payload ''client_order_id''))),
             (''command_id'', arg_or (ta_command_id a) (jget payload ''command_id''))];
          p1 = (case request_value of Some r \<Rightarrow> json_setdefault payload ''request_id'' (JStr r) | None \<Rightarrow> payload)
      in json_setdefault p1 ''trace_id'' (JStr trace))"

section \<open>Outbox\<close>

record outbox_event =
  ob_id :: string
  ob_status :: string
  ob_aggregate_type :: string
  ob_aggregate_id :: string
  ob_event_type :: string
  ob_payload :: dict
  ob_trace_id :: json
  ob_error :: json
  ob_created_at :: instant

definition deterministic_outbox_event_id :: "hash \<Rightarrow> string \<Rightarrow> string \<Rightarrow> string \<Rightarrow> string \<Rightarrow> string" where
  "deterministic_outbox_event_id sha ty aid ev key = digest_uuid sha (material [Some ty, Some aid, Some ev, Some key])"

definition outbox_event_type_ok :: "string \<Rightarrow> bool" where
  "outbox_event_type_ok ev = (ev = ''settings.changed'' \<or> startswith ev ''command.'' \<or> startswith ev ''order.'')"

definition outbox_payload :: "hash \<Rightarrow> string \<Rightarrow> string \<Rightarrow> string \<Rightarrow> string \<Rightarrow> dict \<Rightarrow> string option \<Rightarrow> dict result" where
  "outbox_payload sha fresh ty aid key payload request_id =
     (let p1 = inject_trace_context sha fresh payload
          (no_trace_args \<lparr>ta_request_id := request_id, ta_idempotency_key := Some key,
             ta_execution_job_id := (if ty = ''execution_job'' then Some aid else None),
             ta_command_id := (if ty = ''command'' then Some aid else None),
             ta_order_id := (if ty = ''order'' then Some aid else None)\<rparr>)
      in case request_id of
           None \<Rightarrow> Inr p1
         | Some r \<Rightarrow> bind_result (request_id_of r) (\<lambda>v. Inr (json_setdefault p1 ''request_id'' (JStr v))))"

definition enqueue_order_management_event :: "hash \<Rightarrow> string \<Rightarrow> outbox_event list \<Rightarrow> string \<Rightarrow> string \<Rightarrow> string \<Rightarrow> string
    \<Rightarrow> dict \<Rightarrow> string option \<Rightarrow> instant \<Rightarrow> (outbox_event list \<times> string) result" where
  "enqueue_order_management_event sha fresh box ty aid ev key payload request_id clock =
     (if \<not> outbox_event_type_ok ev then Inl ValueError
      else
        bind_result (outbox_payload sha fresh ty aid key payload request_id) (\<lambda>p.
          let eid = deterministic_outbox_event_id sha ty aid ev key
          in Inr (if list_ex (\<lambda>e. ob_id e = eid) box then box
                  else box @ [\<lparr>ob_id = eid, ob_status = ''pending'', ob_aggregate_type = ty, ob_aggregate_id = aid,
                               ob_event_type = ev, ob_payload = p, ob_trace_id = jget p ''trace_id'', ob_error = JNull,
                               ob_created_at = clock\<rparr>],
                  eid)))"

definition terminal_command_events :: "string list" where
  "terminal_command_events = [''command.completed'', ''command.partial'', ''command.failed'', ''command.timed_out'']"

text \<open>The newest terminal event of a request; of two created at once the one with the larger id.\<close>

definition later_event :: "outbox_event \<Rightarrow> outbox_event \<Rightarrow> outbox_event" where
  "later_event a b =
     (if ob_created_at a < ob_created_at b
         \<or> ob_created_at a = ob_created_at b \<and> lexordp (\<lambda>c d. (of_char c :: nat) < of_char d) (ob_id a) (ob_id b)
      then b else a)"

definition fetch_command_result_by_request_id :: "outbox_event list \<Rightarrow> string \<Rightarrow> outbox_event option result" where
  "fetch_command_result_by_request_id box request_id =
     bind_result (request_id_of request_id) (\<lambda>rid.
     Inr (case filter (\<lambda>e. jget (ob_payload e) ''request_id'' \<noteq> JNull \<and> json_str (jget (ob_payload e) ''request_id'') = rid
                         \<and> ob_event_type e \<in> set terminal_command_events) box of
            [] \<Rightarrow> None | e # es \<Rightarrow> Some (foldl later_event e es)))"

section \<open>Properties\<close>

lemma has_key_json_setdefault [simp]: "has_key (json_setdefault d k v) k' \<longleftrightarrow> k' = k \<or> has_key d k'"
  by (auto simp: json_setdefault_def)

lemma jget_json_setdefault_other: "k' \<noteq> k \<Longrightarrow> jget (json_setdefault d k v) k' = jget d k'"
  by (simp add: json_setdefault_def)

lemma enqueue_Inr:
  assumes "enqueue_order_management_event sha fresh box ty aid ev key payload rid clock = Inr (box', i)"
  shows "outbox_event_type_ok ev \<and> i = deterministic_outbox_event_id sha ty aid ev key
    \<and> (\<exists>p. outbox_payload sha fresh ty aid key payload rid = Inr p)
    \<and> (if list_ex (\<lambda>e. ob_id e = i) box then box' = box else \<exists>e. box' = box @ [e] \<and> ob_id e = i \<and> ob_event_type e = ev)"
  using assms unfolding enqueue_order_management_event_def Let_def
  by (auto simp: bind_result_Inr_iff split: if_splits)

lemma enqueue_unique:
  assumes "distinct (map ob_id box)" "enqueue_order_management_event sha fresh box ty aid ev key payload rid clock = Inr (box', i)"
  shows "distinct (map ob_id box') \<and> i \<in> set (map ob_id box')"
proof (cases "list_ex (\<lambda>e. ob_id e = i) box")
  case True
  with enqueue_Inr[OF assms(2)] have "box' = box" by presburger
  with True assms(1) show ?thesis by (auto simp: list_ex_iff)
next
  case False
  then have "i \<notin> set (map ob_id box)" by (auto simp: list_ex_iff)
  with False enqueue_Inr[OF assms(2)] assms(1) show ?thesis by auto
qed

lemma outbox_payload_Inr: "(\<exists>p. outbox_payload sha fresh ty aid key payload rid = Inr p)
    \<longleftrightarrow> (\<forall>r. rid = Some r \<longrightarrow> strip r \<noteq> [])"
  by (cases rid) (auto simp: outbox_payload_def request_id_of_def Let_def)

text \<open>The same event enqueued again adds no row and returns the same id.\<close>

lemma enqueue_idempotent:
  assumes "enqueue_order_management_event sha fresh box ty aid ev key payload rid clock = Inr (box', i)"
  shows "enqueue_order_management_event sha fresh' box' ty aid ev key payload' rid clock' = Inr (box', i)"
proof -
  note e = enqueue_Inr[OF assms]
  obtain p where p: "outbox_payload sha fresh' ty aid key payload' rid = Inr p"
    using e unfolding outbox_payload_Inr by (metis outbox_payload_Inr)
  have "list_ex (\<lambda>x. ob_id x = i) box'" using e by (auto split: if_splits)
  then show ?thesis using e p by (simp add: enqueue_order_management_event_def Let_def)
qed

end
