(* ===== verification/Execution_Policies.thy ===== *)
theory Execution_Policies
  imports Order_Specs Identifiers "HOL-Library.Product_Lexorder"
begin

text \<open>
  The policies that decide what happens to an order that did not simply fill: the price guard before
  submission (\<open>price_guard.py\<close>), the classification of execution errors (\<open>errors.py\<close>), retries
  (\<open>retry_policy.py\<close>), recovery of a job after a restart (\<open>recovery.py\<close>), unfilled orders
  (\<open>unfilled_manager.py\<close>), partial fills (\<open>partial_fill.py\<close>), drift (\<open>drift_policy.py\<close>) and the
  links between the orders they create.
\<close>

section \<open>Price guard\<close>

record price_feed_row =
  pf_account_id :: account_id
  pf_venue_symbol :: symbol
  pf_source :: string
  pf_mark_price :: "rat option"
  pf_last_price :: "rat option"
  pf_last_event_at :: "instant option"
  pf_stale :: bool
  pf_updated_at :: instant

text \<open>The checks \<open>ck_price_feed_status_mark_price\<close> and \<open>ck_price_feed_status_last_price\<close>.\<close>

definition price_feed_ok :: "price_feed_row list \<Rightarrow> bool" where
  "price_feed_ok rows =
     list_all (\<lambda>r. (case pf_mark_price r of Some p \<Rightarrow> 0 < p | None \<Rightarrow> True)
       \<and> (case pf_last_price r of Some p \<Rightarrow> 0 < p | None \<Rightarrow> True)) rows"

record PriceReference =
  pr_mark_price :: "rat option"
  pr_last_price :: "rat option"
  pr_last_event_at :: "instant option"
  pr_stale :: bool

record PriceGuardDecision =
  pg_allowed :: bool
  pg_reason :: string
  pg_reference_price :: "rat option"
  pg_intended_price :: "rat option"
  pg_deviation_bps :: "rat option"

definition load_reference :: "price_feed_row list \<Rightarrow> string option \<Rightarrow> string \<Rightarrow> PriceReference option result" where
  "load_reference rows account venue =
     bind_result (canonical_account_id account) (\<lambda>a.
       let key = canonical_instrument_key venue;
           hits = sort_key (\<lambda>r. (pf_source r \<noteq> ''combined'', - pf_updated_at r))
             (filter (\<lambda>r. pf_account_id r = a \<and> pf_venue_symbol r = key) rows)
       in Inr (case hits of
            [] \<Rightarrow> None
          | r # _ \<Rightarrow> Some \<lparr>pr_mark_price = pf_mark_price r, pr_last_price = pf_last_price r,
                           pr_last_event_at = pf_last_event_at r, pr_stale = pf_stale r\<rparr>))"

definition select_reference :: "PriceReference \<Rightarrow> rat option" where
  "select_reference ref =
     (case pr_mark_price ref of
        Some p \<Rightarrow> if p \<noteq> 0 then Some p else pr_last_price ref
      | None \<Rightarrow> pr_last_price ref)"

definition guard_denied :: "string \<Rightarrow> rat option \<Rightarrow> PriceGuardDecision" where
  "guard_denied reason ref =
     \<lparr>pg_allowed = False, pg_reason = reason, pg_reference_price = ref, pg_intended_price = None,
      pg_deviation_bps = None\<rparr>"

text \<open>Dividing by a reference price of zero raises, whatever the numerator.\<close>

definition deviation_bps :: "rat \<Rightarrow> rat \<Rightarrow> rat result" where
  "deviation_bps intended reference =
     (if reference = 0 then Inl ZeroDivision
      else case quantize round_half_even 0 (dmul (ddiv (dabs (dsub intended reference)) reference) 10000) of
        Some d \<Rightarrow> Inr d | None \<Rightarrow> Inl InvalidOperation)"

definition guard_against :: "PriceReference \<Rightarrow> int \<Rightarrow> rat option \<Rightarrow> rat option \<Rightarrow> instant \<Rightarrow> PriceGuardDecision result" where
  "guard_against ref stale_after_seconds intended_price max_slippage_bps now =
     (case pr_last_event_at ref of
        None \<Rightarrow> Inr (guard_denied ''price_reference_stale'' None)
      | Some t \<Rightarrow>
          if pr_stale ref then Inr (guard_denied ''price_reference_stale'' None)
          else if total_seconds (now - t) > of_int stale_after_seconds
          then Inr (guard_denied ''price_reference_stale'' None)
          else (case select_reference ref of
            None \<Rightarrow> Inr (guard_denied ''price_reference_missing'' None)
          | Some price \<Rightarrow>
              (case max_slippage_bps of
                 None \<Rightarrow> Inr \<lparr>pg_allowed = True, pg_reason = ''price_guard_passed'',
                   pg_reference_price = Some price, pg_intended_price = None, pg_deviation_bps = None\<rparr>
               | Some slippage \<Rightarrow>
                   (case intended_price of
                      None \<Rightarrow> Inr (guard_denied ''intended_price_required'' (Some price))
                    | Some intended \<Rightarrow>
                        bind_result (deviation_bps intended price) (\<lambda>deviation.
                        Inr \<lparr>pg_allowed = (deviation \<le> slippage),
                             pg_reason = (if deviation > slippage then ''price_deviation_exceeded'' else ''price_guard_passed''),
                             pg_reference_price = Some price, pg_intended_price = Some intended,
                             pg_deviation_bps = Some deviation\<rparr>)))))"

definition price_guard_check :: "price_feed_row list \<Rightarrow> int \<Rightarrow> string option \<Rightarrow> string \<Rightarrow> rat option
    \<Rightarrow> rat option \<Rightarrow> instant \<Rightarrow> PriceGuardDecision result" where
  "price_guard_check rows stale_after_seconds account venue intended_price max_slippage_bps now =
     bind_result (load_reference rows account venue) (\<lambda>found.
       case found of
         None \<Rightarrow> Inr (guard_denied ''price_reference_missing'' None)
       | Some ref \<Rightarrow> guard_against ref stale_after_seconds intended_price max_slippage_bps now)"

section \<open>Execution errors and retries\<close>

datatype ErrorCategory = RETRYABLE | PERMANENT | UNKNOWN

record ClassifiedExecutionError =
  ce_category :: ErrorCategory
  ce_reason :: string
  ce_raw :: string
  ce_stage :: "string option"

definition permanent_markers :: "string list" where
  "permanent_markers = [''invalid quantity'', ''invalid price'', ''precision'', ''min_notional'',
     ''insufficient margin'', ''insufficient balance'', ''post only would take'', ''rejected'', ''denied'',
     ''filter failure'']"

definition retryable_markers :: "string list" where
  "retryable_markers = [''rate limit'', ''too many requests'', ''503'', ''502'', ''504'',
     ''temporarily unavailable'', ''exchange unavailable'', ''service unavailable'', ''throttled'']"

definition unknown_markers :: "string list" where
  "unknown_markers = [''timeout'', ''connection lost'', ''network'', ''unknown'', ''socket closed'',
     ''submit_uncertain'']"

definition error_text :: "string option \<Rightarrow> string \<Rightarrow> string" where
  "error_text stage raw' = lower ((case stage of Some s \<Rightarrow> s | None \<Rightarrow> []) @ '' '' @ raw')"

definition marked :: "string list \<Rightarrow> string \<Rightarrow> bool" where
  "marked markers text = list_ex (\<lambda>m. contains_sub m text) markers"

text \<open>The error is given by its text, \<open>repr\<close> of an exception and \<open>str\<close> of anything else.\<close>

definition classify_execution_error :: "string \<Rightarrow> string option \<Rightarrow> ClassifiedExecutionError" where
  "classify_execution_error raw' stage =
     (let text = error_text stage raw';
          mk = (\<lambda>c r. \<lparr>ce_category = c, ce_reason = r, ce_raw = raw', ce_stage = stage\<rparr>)
      in if marked unknown_markers text then mk UNKNOWN ''network_uncertain''
         else if marked permanent_markers text then mk PERMANENT ''permanent_rejection''
         else if marked retryable_markers text then mk RETRYABLE ''transient_failure''
         else case stage of
           Some s \<Rightarrow> if s \<noteq> [] \<and> startswith (rev s) (rev ''_uncertain'') then mk UNKNOWN ''network_uncertain''
                     else mk UNKNOWN ''unclassified_execution_error''
         | None \<Rightarrow> mk UNKNOWN ''unclassified_execution_error'')"

record RetryPolicyConfig =
  rp_max_retries :: int
  rp_base_delay_seconds :: int
  rp_max_delay_seconds :: int
  rp_jitter_fraction :: rat
  rp_random_fraction :: rat

record RetryDecision =
  rd_action :: string
  rd_reason :: string
  rd_delay_seconds :: "int option"
  rd_next_attempt_at :: "instant option"
  rd_category :: ErrorCategory

record retry_metrics =
  rm_retryable :: nat
  rm_permanent :: nat
  rm_unknown :: nat
  rm_exhausted :: nat

text \<open>\<open>Decimal("2") ** n\<close> is exact up to \<open>n = 93\<close>; the random fraction is the one drawn for the call.\<close>

definition backoff :: "RetryPolicyConfig \<Rightarrow> int \<Rightarrow> rat" where
  "backoff cfg attempt =
     (let base = dmul (of_int (rp_base_delay_seconds cfg)) (dec (2 ^ nat (max (attempt - 1) 0)));
          jitter = dmul (dmul base (rp_jitter_fraction cfg)) (rp_random_fraction cfg)
      in min (dadd base jitter) (of_int (rp_max_delay_seconds cfg)))"

definition delay_seconds :: "RetryPolicyConfig \<Rightarrow> int \<Rightarrow> int" where
  "delay_seconds cfg attempt = round_down (backoff cfg attempt)"

definition retry_decide :: "RetryPolicyConfig \<Rightarrow> retry_metrics \<Rightarrow> ClassifiedExecutionError \<Rightarrow> int \<Rightarrow> instant
    \<Rightarrow> retry_metrics \<times> RetryDecision" where
  "retry_decide cfg m err attempt now =
     (let mk = (\<lambda>action reason. \<lparr>rd_action = action, rd_reason = reason, rd_delay_seconds = None,
            rd_next_attempt_at = None, rd_category = ce_category err\<rparr>)
      in case ce_category err of
           UNKNOWN \<Rightarrow> (m \<lparr>rm_unknown := Suc (rm_unknown m)\<rparr>, mk ''reconcile'' (ce_reason err))
         | PERMANENT \<Rightarrow> (m \<lparr>rm_permanent := Suc (rm_permanent m)\<rparr>, mk ''terminal'' (ce_reason err))
         | RETRYABLE \<Rightarrow>
             (let m' = m \<lparr>rm_retryable := Suc (rm_retryable m)\<rparr>
              in if attempt \<ge> rp_max_retries cfg
                 then (m' \<lparr>rm_exhausted := Suc (rm_exhausted m')\<rparr>, mk ''terminal'' ''max_retries_exhausted'')
                 else let delay = delay_seconds cfg attempt
                      in (m', \<lparr>rd_action = ''retry'', rd_reason = ce_reason err, rd_delay_seconds = Some delay,
                               rd_next_attempt_at = Some (now + delay * 1000000), rd_category = ce_category err\<rparr>)))"

section \<open>Recovery\<close>

definition active_order_statuses :: "string set" where
  "active_order_statuses = {''accepted'', ''working'', ''partially_filled'', ''submitted''}"

record RecoveryJob =
  rj_execution_job_id :: string
  rj_status :: string
  rj_client_order_id :: "string option"
  rj_payload :: dict

record RecoveryDecision =
  re_action :: string
  re_reason :: string
  re_next_status :: "string option"

definition recovery_decision :: "string \<Rightarrow> string \<Rightarrow> string \<Rightarrow> RecoveryDecision" where
  "recovery_decision action reason status = \<lparr>re_action = action, re_reason = reason, re_next_status = Some status\<rparr>"

definition job_order_live :: "RecoveryJob \<Rightarrow> dict \<Rightarrow> bool" where
  "job_order_live job order =
     (rj_client_order_id job = Some (json_str (jget order ''client_order_id''))
      \<and> json_str (jget order ''status'') \<in> active_order_statuses)"

definition submit_state :: "dict \<Rightarrow> string result" where
  "submit_state payload =
     (case jget payload ''submit'' of
        JObj d \<Rightarrow> Inr (json_str (jget d ''state''))
      | v \<Rightarrow> if truthy v then Inl AttributeError else Inr (json_str JNull))"

definition decide_recovery_action :: "RecoveryJob \<Rightarrow> dict list \<Rightarrow> bool option \<Rightarrow> RecoveryDecision result" where
  "decide_recovery_action job local_orders reconciliation_clean =
     (if filter (job_order_live job) local_orders \<noteq> []
      then Inr (recovery_decision ''do_not_resubmit'' ''accepted_order_exists'' ''executing'')
      else case reconciliation_clean of
        None \<Rightarrow> Inr (recovery_decision ''reconcile_first'' ''unknown_submit_state'' ''needs_review'')
      | Some False \<Rightarrow> Inr (recovery_decision ''needs_review'' ''reconciliation_failed'' ''needs_review'')
      | Some True \<Rightarrow>
          bind_result (submit_state (rj_payload job)) (\<lambda>s.
          Inr (if s = ''unknown''
               then recovery_decision ''needs_review'' ''network_uncertain_after_clean_reconcile'' ''needs_review''
               else recovery_decision ''resume'' ''safe_to_resume'' ''pending'')))"

section \<open>Unfilled orders\<close>

definition terminal_order_statuses :: "string set" where
  "terminal_order_statuses = {''filled'', ''rejected'', ''denied'', ''cancelled'', ''expired'', ''failed'', ''lost''}"

record UnfilledSettings =
  us_unfilled_timeout_seconds :: int
  us_reprice_interval_seconds :: int
  us_max_reprices :: int

record UnfilledOrder =
  uo_order_projection_id :: string
  uo_client_order_id :: string
  uo_status :: string
  uo_submitted_at :: instant
  uo_cancel_requested_at :: "instant option"
  uo_reprice_count :: int

record UnfilledDecision =
  ud_action :: string
  ud_reason :: string
  ud_next_status :: "string option"
  ud_reprice_count :: "int option"

definition unfilled_decision :: "string \<Rightarrow> string \<Rightarrow> string option \<Rightarrow> int option \<Rightarrow> UnfilledDecision" where
  "unfilled_decision action reason status n =
     \<lparr>ud_action = action, ud_reason = reason, ud_next_status = status, ud_reprice_count = n\<rparr>"

definition decide_unfilled_action :: "UnfilledOrder \<Rightarrow> UnfilledSettings \<Rightarrow> instant \<Rightarrow> UnfilledDecision" where
  "decide_unfilled_action order settings now =
     (let timed_out = (total_seconds (now - uo_submitted_at order) \<ge> of_int (us_unfilled_timeout_seconds settings));
          status = uo_status order
      in if status = ''pending_cancel''
         then unfilled_decision ''wait_for_cancel_terminal'' ''cancel_not_terminal'' None None
         else if \<not> timed_out \<and> status \<notin> terminal_order_statuses
         then unfilled_decision ''wait'' ''timeout_not_reached'' None None
         else if status \<notin> terminal_order_statuses
         then unfilled_decision ''request_cancel'' ''unfilled_timeout'' (Some ''pending_cancel'') None
         else if status \<in> {''filled'', ''rejected'', ''denied'', ''failed'', ''lost''}
         then unfilled_decision ''terminal'' (''order_'' @ status) (Some status) None
         else if uo_reprice_count order \<ge> us_max_reprices settings
         then unfilled_decision ''terminal'' ''max_reprices_exceeded'' (Some ''expired'') None
         else unfilled_decision ''reprice'' ''cancel_terminal_confirmed'' None (Some (uo_reprice_count order + 1)))"

definition build_reprice_link_payload :: "string \<Rightarrow> string \<Rightarrow> int \<Rightarrow> dict" where
  "build_reprice_link_payload parent child n =
     [(''parent_client_order_id'', JStr parent), (''child_client_order_id'', JStr child),
      (''reprice_count'', JNum (of_int n))]"

section \<open>Partial fills\<close>

definition partial_fill_policies :: "string set" where
  "partial_fill_policies = {''keep_remainder'', ''cancel_remainder'', ''convert_remainder_to_market'', ''abort_and_reduce_filled''}"

record PartialFillRequest =
  fr_policy :: string
  fr_original_quantity :: rat
  fr_filled_quantity :: rat
  fr_quantity_increment :: "int \<times> int"
  fr_minimum_fill_ratio :: rat
  fr_market_conversion_max_slippage_bps :: "rat option"

record PartialFillDecision =
  fd_action :: string
  fd_reason :: string
  fd_remainder_quantity :: rat
  fd_reduce_quantity :: rat
  fd_market_conversion_max_slippage_bps :: "rat option"

definition fill_floor :: "rat \<Rightarrow> int \<times> int \<Rightarrow> rat result" where
  "fill_floor x l =
     (if x \<le> 0 then Inr 0
      else if step_value l \<le> 0 then Inr x
      else case quantize round_half_even (snd l) (dmul (of_int \<lfloor>ddiv x (step_value l)\<rfloor>) (step_value l)) of
        Some y \<Rightarrow> Inr y | None \<Rightarrow> Inl InvalidOperation)"

definition fill_decision :: "string \<Rightarrow> string \<Rightarrow> rat \<Rightarrow> rat \<Rightarrow> rat option \<Rightarrow> PartialFillDecision" where
  "fill_decision action reason remainder reduce slippage =
     \<lparr>fd_action = action, fd_reason = reason, fd_remainder_quantity = remainder,
      fd_reduce_quantity = reduce, fd_market_conversion_max_slippage_bps = slippage\<rparr>"

definition handle_partial_fill :: "PartialFillRequest \<Rightarrow> PartialFillDecision result" where
  "handle_partial_fill rq =
     (if fr_policy rq \<notin> partial_fill_policies
      then Inr (fill_decision ''needs_review'' ''unknown_partial_fill_policy'' 0 0 None)
      else
        bind_result (fill_floor (dsub (fr_original_quantity rq) (fr_filled_quantity rq)) (fr_quantity_increment rq)) (\<lambda>remainder.
        bind_result (fill_floor (fr_filled_quantity rq) (fr_quantity_increment rq)) (\<lambda>filled.
        Inr (if fr_original_quantity rq \<le> 0
             then fill_decision ''needs_review'' ''invalid_original_quantity'' 0 0 None
             else if ddiv (fr_filled_quantity rq) (fr_original_quantity rq) < fr_minimum_fill_ratio rq
             then fill_decision ''needs_review'' ''minimum_fill_ratio_not_met'' remainder 0 None
             else if fr_policy rq = ''keep_remainder''
             then fill_decision ''keep_remainder'' ''policy_keep'' remainder 0 None
             else if fr_policy rq = ''cancel_remainder''
             then fill_decision ''cancel_remainder'' ''policy_cancel'' remainder 0 None
             else if fr_policy rq = ''convert_remainder_to_market''
             then (case fr_market_conversion_max_slippage_bps rq of
                     None \<Rightarrow> fill_decision ''needs_review'' ''market_conversion_slippage_required'' remainder 0 None
                   | Some b \<Rightarrow> fill_decision ''convert_remainder_to_market'' ''policy_market_conversion'' remainder 0 (Some b))
             else fill_decision ''abort_and_reduce_filled'' ''policy_abort_reduce_filled'' remainder filled None))))"

section \<open>Drift\<close>

record DriftDecision =
  dd_action :: string
  dd_next_state :: string
  dd_mode :: string
  dd_reason :: string
  dd_payload :: dict

record DriftPolicyEngine =
  dp_policy :: string
  dp_safe_adopt_lifecycle_roles :: "string list"

definition make_drift_engine :: "string \<Rightarrow> string list \<Rightarrow> DriftPolicyEngine result" where
  "make_drift_engine policy roles =
     (if policy \<notin> {''adopt'', ''cancel'', ''review'', ''halt''} then Inl ValueError
      else Inr \<lparr>dp_policy = policy, dp_safe_adopt_lifecycle_roles = roles\<rparr>)"

definition drift_decision :: "string \<Rightarrow> string \<Rightarrow> string \<Rightarrow> string \<Rightarrow> dict \<Rightarrow> DriftDecision" where
  "drift_decision action state mode reason d =
     \<lparr>dd_action = action, dd_next_state = state, dd_mode = mode, dd_reason = reason, dd_payload = d\<rparr>"

definition needs_review :: "dict \<Rightarrow> string \<Rightarrow> DriftDecision" where
  "needs_review d reason = drift_decision ''review'' ''needs_review'' ''HALTED'' reason d"

definition order_identity_resolvable :: "dict \<Rightarrow> bool" where
  "order_identity_resolvable d =
     (truthy (jget d ''venue_symbol'') \<and> (truthy (jget d ''client_order_id'') \<or> truthy (jget d ''venue_order_id'')))"

definition position_identity_resolvable :: "dict \<Rightarrow> bool" where
  "position_identity_resolvable d = (truthy (jget d ''position_key'') \<or> truthy (jget d ''venue_symbol''))"

definition drift_by_policy :: "DriftPolicyEngine \<Rightarrow> dict \<Rightarrow> string \<Rightarrow> string \<Rightarrow> DriftDecision" where
  "drift_by_policy eng d role cancel_state =
     (if dp_policy eng = ''adopt''
      then if role \<in> set (dp_safe_adopt_lifecycle_roles eng)
           then drift_decision ''adopt'' ''adopted'' ''ACTIVE'' ''safe_whitelist'' d
           else needs_review d ''adopt_not_whitelisted''
      else if dp_policy eng = ''cancel'' then drift_decision ''cancel'' cancel_state ''REDUCING'' ''policy_cancel'' d
      else if dp_policy eng = ''halt'' then drift_decision ''halt'' ''HALTED'' ''HALTED'' ''policy_halt'' d
      else needs_review d ''policy_review'')"

definition handle_orphan_order :: "DriftPolicyEngine \<Rightarrow> dict \<Rightarrow> DriftDecision" where
  "handle_orphan_order eng order =
     (if \<not> order_identity_resolvable order then needs_review order ''unresolvable_order_identity''
      else drift_by_policy eng order (str_or [jget order ''lifecycle_role''] []) ''cancel_requested'')"

definition handle_external_position :: "DriftPolicyEngine \<Rightarrow> dict \<Rightarrow> DriftDecision" where
  "handle_external_position eng position =
     (if \<not> position_identity_resolvable position then needs_review position ''unresolvable_position_identity''
      else drift_by_policy eng position (str_or [jget position ''lifecycle_role''] ''external_position'') ''close_requested'')"

section \<open>Order links\<close>

record order_link =
  ol_order_link_id :: string
  ol_account_id :: account_id
  ol_parent :: string
  ol_child :: string
  ol_link_type :: string
  ol_lifecycle_role :: string
  ol_position_key :: "string option"
  ol_payload :: dict

definition same_link :: "order_link \<Rightarrow> order_link \<Rightarrow> bool" where
  "same_link x r = (ol_parent r = ol_parent x \<and> ol_child r = ol_child x \<and> ol_link_type r = ol_link_type x)"

text \<open>
  The upsert of a link: both ends must be projected orders, a fresh id must be unused, and a second
  link of the same pair and type only merges its payload into the first, whose id is returned.
\<close>

definition upsert_link :: "string list \<Rightarrow> order_link list \<Rightarrow> order_link \<Rightarrow> (order_link list \<times> string) result" where
  "upsert_link order_ids links x =
     (case List.find (same_link x) links of
        Some r \<Rightarrow> Inr (update_where (same_link x) (\<lambda>r. r \<lparr>ol_payload := dict_update (ol_payload r) (ol_payload x)\<rparr>) links,
                       ol_order_link_id r)
      | None \<Rightarrow>
          if ol_parent x \<in> set order_ids \<and> ol_child x \<in> set order_ids
             \<and> ol_order_link_id x \<notin> set (map ol_order_link_id links)
          then Inr (links @ [x], ol_order_link_id x) else Inl IntegrityError)"

definition record_reprice_link :: "string list \<Rightarrow> order_link list \<Rightarrow> string \<Rightarrow> account_id \<Rightarrow> string \<Rightarrow> string
    \<Rightarrow> string \<Rightarrow> string option \<Rightarrow> dict \<Rightarrow> (order_link list \<times> string) result" where
  "record_reprice_link order_ids links link_id a parent child role key payload =
     upsert_link order_ids links \<lparr>ol_order_link_id = link_id, ol_account_id = a, ol_parent = parent, ol_child = child,
       ol_link_type = ''reprice'', ol_lifecycle_role = role, ol_position_key = key, ol_payload = payload\<rparr>"

fun take_profit_links :: "string list \<Rightarrow> account_id \<Rightarrow> string \<Rightarrow> string \<Rightarrow> order_link list \<Rightarrow> (string \<times> string \<times> dict) list
    \<Rightarrow> (order_link list \<times> string list) result" where
  "take_profit_links order_ids a key parent links [] = Inr (links, [])"
| "take_profit_links order_ids a key parent links ((link_id, child, level) # rest) =
     bind_result (upsert_link order_ids links
       \<lparr>ol_order_link_id = link_id, ol_account_id = a, ol_parent = parent, ol_child = child,
        ol_link_type = ''protection'', ol_lifecycle_role = ''take_profit'', ol_position_key = Some key,
        ol_payload = dict_set level ''level_index'' (jget level ''index'')\<rparr>) (\<lambda>(links', i).
     bind_result (take_profit_links order_ids a key parent links' rest) (\<lambda>(links'', is). Inr (links'', i # is)))"

definition record_take_profit_links :: "string list \<Rightarrow> order_link list \<Rightarrow> (nat \<Rightarrow> string) \<Rightarrow> account_id \<Rightarrow> string \<Rightarrow> string
    \<Rightarrow> string list \<Rightarrow> dict list \<Rightarrow> (order_link list \<times> string list) result" where
  "record_take_profit_links order_ids links fresh a key parent children levels =
     (if length children \<noteq> length levels then Inl ValueError
      else take_profit_links order_ids a key parent links (zip (map fresh [0..<length children]) (zip children levels)))"

section \<open>Properties of the price guard\<close>

lemma load_reference_Some:
  assumes "load_reference rows account venue = Inr (Some ref)"
  shows "\<exists>r \<in> set rows. ref = \<lparr>pr_mark_price = pf_mark_price r, pr_last_price = pf_last_price r,
      pr_last_event_at = pf_last_event_at r, pr_stale = pf_stale r\<rparr>
      \<and> pf_venue_symbol r = canonical_instrument_key venue \<and> canonical_account_id account = Inr (pf_account_id r)"
proof -
  obtain a r rest where a: "canonical_account_id account = Inr a"
    and hits: "sort_key (\<lambda>r. (pf_source r \<noteq> ''combined'', - pf_updated_at r))
      (filter (\<lambda>r. pf_account_id r = a \<and> pf_venue_symbol r = canonical_instrument_key venue) rows) = r # rest"
    and ref: "ref = \<lparr>pr_mark_price = pf_mark_price r, pr_last_price = pf_last_price r,
      pr_last_event_at = pf_last_event_at r, pr_stale = pf_stale r\<rparr>"
  proof -
    obtain a where a: "canonical_account_id account = Inr a"
      using assms by (auto simp: load_reference_def bind_result_Inr_iff)
    define hits where "hits = sort_key (\<lambda>r. (pf_source r \<noteq> ''combined'', - pf_updated_at r))
      (filter (\<lambda>r. pf_account_id r = a \<and> pf_venue_symbol r = canonical_instrument_key venue) rows)"
    have "(case hits of [] \<Rightarrow> None | r # _ \<Rightarrow> Some \<lparr>pr_mark_price = pf_mark_price r, pr_last_price = pf_last_price r,
        pr_last_event_at = pf_last_event_at r, pr_stale = pf_stale r\<rparr>) = Some ref"
      using assms unfolding load_reference_def a bind_result_simps Let_def hits_def[symmetric] sum.inject .
    then show thesis using that[OF a] unfolding hits_def[symmetric] by (cases hits) simp_all
  qed
  from hits have "r \<in> set (filter (\<lambda>r. pf_account_id r = a \<and> pf_venue_symbol r = canonical_instrument_key venue) rows)"
    using arg_cong[OF hits, of set] unfolding set_sort by simp
  with a ref show ?thesis by auto
qed

lemma deviation_bps_bound:
  assumes "deviation_bps p r = Inr d" "0 < r"
  shows "(1 - dec_eps) ^ 3 * (10000 * \<bar>p - r\<bar>) \<le> (d + 1 / 2) * r"
proof -
  define x where "x = dmul (ddiv (dabs (dsub p r)) r) 10000"
  have q: "quantize round_half_even 0 x = Some d"
    using assms by (simp add: deviation_bps_def x_def split: if_splits option.splits)
  then have "d = of_int (round_half_even x)" by (simp add: quantize_def Let_def split: if_splits)
  then have d: "x \<le> d + 1 / 2" using round_half_even_near[of x] by linarith
  have e: "0 \<le> 1 - dec_eps" by (simp add: dec_eps_def)
  have "dabs (dsub p r) = dec \<bar>p - r\<bar>" by (simp add: dabs_def dsub_def dec.rnd_abs[symmetric] dec.rnd_idem)
  then have 1: "(1 - dec_eps) * \<bar>p - r\<bar> \<le> dabs (dsub p r)" and 0: "0 \<le> dabs (dsub p r)"
    using dec.rnd_lower[of "\<bar>p - r\<bar>"] dec.rnd_nonneg[of "\<bar>p - r\<bar>"] by simp_all
  have 2: "(1 - dec_eps) * (dabs (dsub p r) / r) \<le> ddiv (dabs (dsub p r)) r" "0 \<le> ddiv (dabs (dsub p r)) r"
    unfolding ddiv_def by (rule dec.rnd_lower dec.rnd_nonneg, use 0 assms(2) in simp)+
  have 3: "(1 - dec_eps) * (ddiv (dabs (dsub p r)) r * 10000) \<le> x"
    unfolding x_def dmul_def using 2(2) by (intro dec.rnd_lower) simp
  have "(1 - dec_eps) ^ 3 * \<bar>p - r\<bar> = (1 - dec_eps) * ((1 - dec_eps) * ((1 - dec_eps) * \<bar>p - r\<bar>))"
    by (simp add: power3_eq_cube)
  also have "\<dots> \<le> (1 - dec_eps) * ((1 - dec_eps) * dabs (dsub p r))"
    using 1 e by (intro mult_left_mono) auto
  also have "\<dots> = (1 - dec_eps) * ((1 - dec_eps) * (dabs (dsub p r) / r)) * r" using assms(2) by simp
  also have "\<dots> \<le> (1 - dec_eps) * ddiv (dabs (dsub p r)) r * r"
    using 2(1) e assms(2) by (intro mult_right_mono mult_left_mono) auto
  finally have "(1 - dec_eps) ^ 3 * \<bar>p - r\<bar> * 10000 \<le> (1 - dec_eps) * (ddiv (dabs (dsub p r)) r * 10000) * r"
    by simp
  also have "\<dots> \<le> (d + 1 / 2) * r" using 3 d assms(2) by (intro mult_right_mono) auto
  finally show ?thesis by (simp add: algebra_simps)
qed

lemma guard_against_allowed:
  assumes "guard_against ref stale_after intended slippage now = Inr d" "pg_allowed d"
  shows "\<not> pr_stale ref \<and> (\<exists>t. pr_last_event_at ref = Some t \<and> total_seconds (now - t) \<le> of_int stale_after)
    \<and> (\<exists>price. select_reference ref = Some price \<and> pg_reference_price d = Some price
        \<and> (\<forall>s. slippage = Some s \<longrightarrow> (\<exists>p e. intended = Some p \<and> deviation_bps p price = Inr e \<and> e \<le> s)))"
  using assms unfolding guard_against_def
  by (auto simp: bind_result_Inr_iff guard_denied_def not_less split: option.splits if_splits)

text \<open>
  The price guard fails closed and bounds the deviation: it lets an order through only against a
  price row of that account and symbol that is not marked stale and whose last event is at most
  \<open>stale_after_seconds\<close> old, and when a slippage limit is set the intended price is known and lies within that
  many basis points of the positive reference price, up to half a basis point of rounding and the
  rounding of Decimal.
\<close>

theorem price_guard_bounds_deviation:
  assumes "price_guard_check rows stale_after account venue intended slippage now = Inr d" "pg_allowed d"
    "price_feed_ok rows"
  shows "\<exists>row t price. row \<in> set rows \<and> canonical_account_id account = Inr (pf_account_id row)
    \<and> pf_venue_symbol row = canonical_instrument_key venue \<and> \<not> pf_stale row
    \<and> pf_last_event_at row = Some t \<and> total_seconds (now - t) \<le> of_int stale_after
    \<and> pg_reference_price d = Some price \<and> 0 < price
    \<and> (\<forall>s. slippage = Some s \<longrightarrow> (\<exists>p. intended = Some p
          \<and> (1 - dec_eps) ^ 3 * (10000 * \<bar>p - price\<bar>) \<le> (s + 1 / 2) * price))"
proof -
  obtain ref t price where ref: "load_reference rows account venue = Inr (Some ref)"
    and fresh: "\<not> pr_stale ref" "pr_last_event_at ref = Some t" "total_seconds (now - t) \<le> of_int stale_after"
    and price: "select_reference ref = Some price" "pg_reference_price d = Some price"
    and s: "\<forall>s. slippage = Some s \<longrightarrow> (\<exists>p e. intended = Some p \<and> deviation_bps p price = Inr e \<and> e \<le> s)"
  proof -
    obtain ref where ref: "load_reference rows account venue = Inr (Some ref)"
      "guard_against ref stale_after intended slippage now = Inr d"
      using assms(1,2) by (auto simp: price_guard_check_def bind_result_Inr_iff guard_denied_def split: option.splits)
    from guard_against_allowed[OF ref(2) assms(2)] that[OF ref(1)] show thesis by blast
  qed
  from load_reference_Some[OF ref] obtain r where r: "r \<in> set rows" "canonical_account_id account = Inr (pf_account_id r)"
    "pf_venue_symbol r = canonical_instrument_key venue"
    and rr: "ref = \<lparr>pr_mark_price = pf_mark_price r, pr_last_price = pf_last_price r,
      pr_last_event_at = pf_last_event_at r, pr_stale = pf_stale r\<rparr>" by blast
  have pos: "0 < price"
    using assms(3) r(1) price(1) unfolding price_feed_ok_def select_reference_def rr list_all_iff
    by (force split: option.splits if_splits)
  have "\<forall>s. slippage = Some s \<longrightarrow> (\<exists>p. intended = Some p \<and> (1 - dec_eps) ^ 3 * (10000 * \<bar>p - price\<bar>) \<le> (s + 1 / 2) * price)"
  proof (intro allI impI)
    fix s assume "slippage = Some s"
    with \<open>\<forall>s. slippage = Some s \<longrightarrow> _\<close> obtain p e where p: "intended = Some p" "deviation_bps p price = Inr e" "e \<le> s" by blast
    from deviation_bps_bound[OF p(2) pos]
    have "(1 - dec_eps) ^ 3 * (10000 * \<bar>p - price\<bar>) \<le> (e + 1 / 2) * price" .
    also have "\<dots> \<le> (s + 1 / 2) * price" using p(3) pos by (intro mult_right_mono) auto
    finally show "\<exists>p. intended = Some p \<and> (1 - dec_eps) ^ 3 * (10000 * \<bar>p - price\<bar>) \<le> (s + 1 / 2) * price"
      using p(1) by blast
  qed
  with r fresh rr price(2) pos show ?thesis by (intro exI[of _ r] exI[of _ t] exI[of _ price]) simp
qed

definition example_feed :: "price_feed_row list" where
  "example_feed = [\<lparr>pf_account_id = ''acct'', pf_venue_symbol = ''BTCUSDT'', pf_source = ''combined'',
     pf_mark_price = Some 100, pf_last_price = None, pf_last_event_at = Some 0, pf_stale = False, pf_updated_at = 0\<rparr>]"

theorem price_guard_bounds_deviation_witness:
  "\<exists>d. price_guard_check example_feed 30 (Some ''acct'') ''BTCUSDT'' (Some 101) (Some 100) 0 = Inr d \<and> pg_allowed d
     \<and> (\<exists>price. pg_reference_price d = Some price \<and> (1 - dec_eps) ^ 3 * (10000 * \<bar>101 - price\<bar>) \<le> (100 + 1 / 2) * price)"
proof -
  have "case price_guard_check example_feed 30 (Some ''acct'') ''BTCUSDT'' (Some 101) (Some 100) 0 of
      Inr d \<Rightarrow> pg_allowed d | Inl e \<Rightarrow> False" by code_simp
  then obtain d where d: "price_guard_check example_feed 30 (Some ''acct'') ''BTCUSDT'' (Some 101) (Some 100) 0 = Inr d"
    "pg_allowed d" by (auto split: sum.splits)
  have "price_feed_ok example_feed" by (simp add: price_feed_ok_def example_feed_def)
  from price_guard_bounds_deviation[OF d this] d show ?thesis by auto
qed

section \<open>Properties of the other policies\<close>

definition retry_config_ok :: "RetryPolicyConfig \<Rightarrow> bool" where
  "retry_config_ok cfg \<longleftrightarrow> 0 \<le> rp_base_delay_seconds cfg \<and> 0 \<le> rp_max_delay_seconds cfg
     \<and> 0 \<le> rp_jitter_fraction cfg \<and> 0 \<le> rp_random_fraction cfg"

lemma dmul_nonneg: "0 \<le> a \<Longrightarrow> 0 \<le> b \<Longrightarrow> 0 \<le> dmul a b"
  unfolding dmul_def by (simp add: dec.rnd_nonneg)

lemma dadd_nonneg: "0 \<le> a \<Longrightarrow> 0 \<le> b \<Longrightarrow> 0 \<le> dadd a b"
  unfolding dadd_def by (simp add: dec.rnd_nonneg)

lemma dmul_mono: "0 \<le> c \<Longrightarrow> a \<le> b \<Longrightarrow> dmul a c \<le> dmul b c" "0 \<le> c \<Longrightarrow> a \<le> b \<Longrightarrow> dmul c a \<le> dmul c b"
  unfolding dmul_def by (simp_all add: dec.rnd_mono mult_right_mono mult_left_mono)

lemma dadd_mono: "a \<le> b \<Longrightarrow> c \<le> d \<Longrightarrow> dadd a c \<le> dadd b d"
  unfolding dadd_def by (simp add: dec.rnd_mono add_mono)

lemma backoff_nonneg: "retry_config_ok cfg \<Longrightarrow> 0 \<le> backoff cfg n"
  unfolding backoff_def Let_def retry_config_ok_def
  by (intro min.boundedI dadd_nonneg dmul_nonneg) (simp_all add: dec.rnd_nonneg)

lemma backoff_mono:
  assumes "retry_config_ok cfg" "n \<le> n'"
  shows "backoff cfg n \<le> backoff cfg n'"
proof -
  have "(2 :: rat) ^ nat (max (n - 1) 0) \<le> 2 ^ nat (max (n' - 1) 0)"
    using assms(2) by (intro power_increasing) auto
  then show ?thesis
    using assms(1) unfolding backoff_def Let_def retry_config_ok_def
    by (intro min.mono dadd_mono dmul_mono dec.rnd_mono) simp_all
qed

lemma delay_seconds_bounds:
  assumes "retry_config_ok cfg"
  shows "0 \<le> delay_seconds cfg n" "delay_seconds cfg n \<le> rp_max_delay_seconds cfg"
    "n' \<le> n \<Longrightarrow> delay_seconds cfg n' \<le> delay_seconds cfg n"
proof -
  note m = backoff_nonneg[OF assms]
  show "0 \<le> delay_seconds cfg n" unfolding delay_seconds_def using m by (rule round_down_nonneg)
  have "backoff cfg n \<le> of_int (rp_max_delay_seconds cfg)" by (simp add: backoff_def Let_def)
  then have "of_int (round_down (backoff cfg n)) \<le> (of_int (rp_max_delay_seconds cfg) :: rat)"
    using round_down_le[OF m[of n]] by linarith
  then show "delay_seconds cfg n \<le> rp_max_delay_seconds cfg" unfolding delay_seconds_def by (simp only: of_int_le_iff)
  show "delay_seconds cfg n' \<le> delay_seconds cfg n" if "n' \<le> n"
    using backoff_mono[OF assms that] m unfolding delay_seconds_def round_down_def by (simp add: floor_mono)
qed

text \<open>
  Only a failure that is known not to have reached the exchange's books is retried: the text of the error carries
  a transient marker, no marker of an unknown outcome and none of a permanent rejection, and fewer
  than \<open>max_retries\<close> attempts were made. The delay is between zero and \<open>max_delay_seconds\<close> and never shorter than
  that of an earlier attempt with the same jitter; the next attempt is due after that delay.
\<close>

theorem retry_only_transient:
  assumes "retry_decide cfg m (classify_execution_error raw' stage) attempt now = (m', d)" "rd_action d = ''retry''"
    "retry_config_ok cfg"
  shows "marked retryable_markers (error_text stage raw') \<and> \<not> marked unknown_markers (error_text stage raw')
    \<and> \<not> marked permanent_markers (error_text stage raw') \<and> attempt < rp_max_retries cfg
    \<and> (\<exists>delay. rd_delay_seconds d = Some delay \<and> 0 \<le> delay \<and> delay \<le> rp_max_delay_seconds cfg
        \<and> rd_next_attempt_at d = Some (now + delay * 1000000)
        \<and> (\<forall>earlier. earlier \<le> attempt \<longrightarrow> delay_seconds cfg earlier \<le> delay))"
proof -
  have c: "ce_category (classify_execution_error raw' stage) = RETRYABLE" and a: "attempt < rp_max_retries cfg"
    and d: "rd_delay_seconds d = Some (delay_seconds cfg attempt)"
      "rd_next_attempt_at d = Some (now + delay_seconds cfg attempt * 1000000)"
    using assms(1,2) by (auto simp: retry_decide_def Let_def split: ErrorCategory.splits if_splits)
  from c have "marked retryable_markers (error_text stage raw')" "\<not> marked unknown_markers (error_text stage raw')"
    "\<not> marked permanent_markers (error_text stage raw')"
    by (auto simp: classify_execution_error_def Let_def split: if_splits option.splits)
  then show ?thesis using a d delay_seconds_bounds[OF assms(3)] by blast
qed

theorem retry_only_transient_witness:
  "\<exists>m' d. retry_decide \<lparr>rp_max_retries = 3, rp_base_delay_seconds = 1, rp_max_delay_seconds = 60, rp_jitter_fraction = 1 / 10,
       rp_random_fraction = 0\<rparr> \<lparr>rm_retryable = 0, rm_permanent = 0, rm_unknown = 0, rm_exhausted = 0\<rparr>
       (classify_execution_error ''HTTP 503'' None) 2 0 = (m', d)
     \<and> rd_action d = ''retry'' \<and> (\<exists>delay. rd_delay_seconds d = Some delay \<and> delay \<le> 60)"
proof -
  let ?cfg = "\<lparr>rp_max_retries = 3, rp_base_delay_seconds = 1, rp_max_delay_seconds = 60, rp_jitter_fraction = 1 / 10, rp_random_fraction = 0\<rparr>"
  let ?m = "\<lparr>rm_retryable = 0, rm_permanent = 0, rm_unknown = 0, rm_exhausted = 0\<rparr>"
  have "rd_action (snd (retry_decide ?cfg ?m (classify_execution_error ''HTTP 503'' None) 2 0)) = ''retry''" by code_simp
  then obtain m' d where d: "retry_decide ?cfg ?m (classify_execution_error ''HTTP 503'' None) 2 0 = (m', d)" "rd_action d = ''retry''"
    by (metis prod.collapse)
  from retry_only_transient[OF d] d show ?thesis by (auto simp: retry_config_ok_def)
qed

text \<open>
  C20. Repricing ends: an order is repriced only after its predecessor was confirmed cancelled or expired, and
  the successor carries a count that is one higher and at most \<open>max_reprices\<close>, so no chain of repriced orders is infinite.
\<close>

theorem repricing_terminates:
  "wf {(child :: UnfilledOrder, parent :: UnfilledOrder). \<exists>now. ud_action (decide_unfilled_action parent settings now) = ''reprice''
     \<and> ud_reprice_count (decide_unfilled_action parent settings now) = Some (uo_reprice_count child)}"
proof (rule wf_subset)
  show "wf (measure (\<lambda>o' :: UnfilledOrder. nat (us_max_reprices settings - uo_reprice_count o')))" by simp
next
  have "uo_reprice_count p < us_max_reprices settings \<and> uo_reprice_count c = uo_reprice_count p + 1"
    if "ud_action (decide_unfilled_action p settings now) = ''reprice''"
      "ud_reprice_count (decide_unfilled_action p settings now) = Some (uo_reprice_count c)"
    for p c :: UnfilledOrder and now
    using that by (auto simp: decide_unfilled_action_def Let_def unfilled_decision_def split: if_splits)
  then show "{(child :: UnfilledOrder, parent :: UnfilledOrder). \<exists>now. ud_action (decide_unfilled_action parent settings now) = ''reprice''
     \<and> ud_reprice_count (decide_unfilled_action parent settings now) = Some (uo_reprice_count child)}
    \<subseteq> measure (\<lambda>o' :: UnfilledOrder. nat (us_max_reprices settings - uo_reprice_count o'))"
    by fastforce
qed

lemma fill_floor_grid:
  assumes "0 < c" "0 \<le> n" "n * c < 10 ^ 28"
  shows "fill_floor (of_int n * step_value (c, e)) (c, e) = Inr (of_int n * step_value (c, e))"
proof -
  let ?s = "step_value (c, e)"
  have s: "0 < ?s" using assms(1) by (simp add: step_value_def)
  have "n * 1 \<le> n * c" using assms(1,2) by (intro mult_left_mono) auto
  then have d: "ddiv (of_int n * ?s) ?s = of_int n"
    using assms s dec_of_int[of n] by (simp add: ddiv_def)
  have x: "of_int n * ?s = of_int (n * c) * 10 powi e" by (simp add: step_value_def)
  have m: "dmul (of_int n) ?s = of_int n * ?s"
    unfolding dmul_def using assms by (intro dec_exact[OF x]) simp
  have "quantize round_half_even e (of_int (n * c) * 10 powi e) = Some (of_int (n * c) * 10 powi e)"
    using assms unfolding quantize_def Let_def by (simp del: of_int_mult)
  then have q: "quantize round_half_even e (of_int n * ?s) = Some (of_int n * ?s)" unfolding x .
  show ?thesis
  proof (cases "n = 0")
    case False
    then have "\<not> of_int n * ?s \<le> 0" using s assms(2) by (simp add: mult_le_0_iff)
    with s show ?thesis unfolding fill_floor_def d floor_of_int m by (simp add: q)
  qed (simp add: fill_floor_def)
qed

text \<open>
  The quantities of a partial fill are exact: for an order and a fill on the instrument's grid, every decision that
  acts on the remainder names the order less the fill, exactly, and aborting reduces by exactly what was
  filled; a market conversion carries the slippage limit of the request and is refused without one.
\<close>

theorem partial_fill_exact:
  assumes "handle_partial_fill rq = Inr d" "fr_quantity_increment rq = (c, e)" "0 < c"
    "fr_original_quantity rq = of_int m * step_value (c, e)" "fr_filled_quantity rq = of_int k * step_value (c, e)"
    "0 \<le> k" "k \<le> m" "m * c < 10 ^ 28"
  shows "(fd_action d \<in> {''keep_remainder'', ''cancel_remainder'', ''convert_remainder_to_market'', ''abort_and_reduce_filled''}
        \<and> fd_action d = fr_policy rq \<and> fd_remainder_quantity d = fr_original_quantity rq - fr_filled_quantity rq
        \<and> fd_reduce_quantity d = (if fr_policy rq = ''abort_and_reduce_filled'' then fr_filled_quantity rq else 0)
        \<and> (fd_action d = ''convert_remainder_to_market'' \<longrightarrow>
             fd_market_conversion_max_slippage_bps d = fr_market_conversion_max_slippage_bps rq
             \<and> fr_market_conversion_max_slippage_bps rq \<noteq> None))
    \<or> fd_action d = ''needs_review'' \<and> fd_reduce_quantity d = 0"
proof -
  let ?s = "step_value (c, e)"
  have kc: "(m - k) * c \<le> m * c" "k * c \<le> m * c" "0 \<le> (m - k) * c"
    using assms(3,6,7) by (auto intro!: mult_right_mono)
  have x: "of_int m * ?s - of_int k * ?s = of_int ((m - k) * c) * 10 powi e"
    by (simp add: step_value_def algebra_simps)
  have "dsub (fr_original_quantity rq) (fr_filled_quantity rq) = of_int m * ?s - of_int k * ?s"
    unfolding dsub_def assms(4,5) using kc assms(8) by (intro dec_exact[OF x]) simp
  also have "\<dots> = of_int (m - k) * ?s" by (simp add: algebra_simps)
  finally have d: "dsub (fr_original_quantity rq) (fr_filled_quantity rq) = of_int (m - k) * ?s" .
  have f: "fill_floor (of_int (m - k) * ?s) (c, e) = Inr (of_int (m - k) * ?s)"
    "fill_floor (of_int k * ?s) (c, e) = Inr (of_int k * ?s)"
    by (rule fill_floor_grid; use kc assms(3,6-8) in linarith)+
  have "of_int (m - k) * ?s = fr_original_quantity rq - fr_filled_quantity rq"
    unfolding assms(4,5) by (simp add: algebra_simps)
  then show ?thesis
    using assms(1) unfolding handle_partial_fill_def assms(2) d f assms(5)[symmetric] f(2)[folded assms(5)] bind_result_simps
    by (auto simp: fill_decision_def partial_fill_policies_def split: if_splits option.splits)
qed

theorem partial_fill_exact_witness:
  "\<exists>d. handle_partial_fill \<lparr>fr_policy = ''abort_and_reduce_filled'', fr_original_quantity = 5, fr_filled_quantity = 2,
        fr_quantity_increment = (1, 0), fr_minimum_fill_ratio = 0, fr_market_conversion_max_slippage_bps = None\<rparr> = Inr d
     \<and> fd_action d = ''abort_and_reduce_filled'' \<and> fd_reduce_quantity d = 2"
proof -
  let ?rq = "\<lparr>fr_policy = ''abort_and_reduce_filled'', fr_original_quantity = 5, fr_filled_quantity = 2,
        fr_quantity_increment = (1, 0), fr_minimum_fill_ratio = 0, fr_market_conversion_max_slippage_bps = None\<rparr>"
  have "case handle_partial_fill ?rq of Inr d \<Rightarrow> fd_action d = ''abort_and_reduce_filled'' | Inl e \<Rightarrow> False" by code_simp
  then obtain d where d: "handle_partial_fill ?rq = Inr d" "fd_action d = ''abort_and_reduce_filled''" by (auto split: sum.splits)
  from partial_fill_exact[OF d(1), of 1 0 5 2] d show ?thesis by (simp add: step_value_def)
qed

text \<open>
  A job is resumed after a restart only when nothing speaks against it: no local order with its client order id is
  live, the reconciliation ran and was clean, and the outcome of its last submission is not unknown.
\<close>

theorem resume_only_when_safe:
  assumes "decide_recovery_action job orders clean = Inr d" "re_action d = ''resume''"
  shows "clean = Some True \<and> submit_state (rj_payload job) \<noteq> Inr ''unknown''
    \<and> list_all (\<lambda>r. rj_client_order_id job = Some (json_str (jget r ''client_order_id''))
        \<longrightarrow> json_str (jget r ''status'') \<notin> active_order_statuses) orders"
  using assms
  by (auto simp: decide_recovery_action_def recovery_decision_def bind_result_Inr_iff job_order_live_def
      filter_empty_conv list_all_iff split: if_splits option.splits bool.splits)

theorem resume_only_when_safe_witness:
  "\<exists>d. decide_recovery_action \<lparr>rj_execution_job_id = ''j1'', rj_status = ''executing'', rj_client_order_id = Some ''c1'',
        rj_payload = []\<rparr> [[(''client_order_id'', JStr ''c1''), (''status'', JStr ''rejected'')]] (Some True) = Inr d
     \<and> re_action d = ''resume''
     \<and> submit_state [] \<noteq> Inr ''unknown''"
proof -
  let ?job = "\<lparr>rj_execution_job_id = ''j1'', rj_status = ''executing'', rj_client_order_id = Some ''c1'', rj_payload = []\<rparr>"
  let ?orders = "[[(''client_order_id'', JStr ''c1''), (''status'', JStr ''rejected'')]]"
  have "case decide_recovery_action ?job ?orders (Some True) of Inr d \<Rightarrow> re_action d = ''resume'' | Inl e \<Rightarrow> False" by code_simp
  then obtain d where d: "decide_recovery_action ?job ?orders (Some True) = Inr d" "re_action d = ''resume''" by (auto split: sum.splits)
  from resume_only_when_safe[OF d] d show ?thesis by simp
qed

lemma adopt_only_whitelisted:
  assumes "dd_mode (handle_orphan_order eng order) = ''ACTIVE''"
  shows "dp_policy eng = ''adopt'' \<and> order_identity_resolvable order
    \<and> str_or [jget order ''lifecycle_role''] [] \<in> set (dp_safe_adopt_lifecycle_roles eng)"
  using assms by (auto simp: handle_orphan_order_def drift_by_policy_def needs_review_def drift_decision_def split: if_splits)

text \<open>Recording a link twice keeps one row and its id.\<close>

lemma upsert_link_idempotent:
  assumes "upsert_link ids links x = Inr (links', i)"
  shows "\<exists>links''. upsert_link ids links' x = Inr (links'', i) \<and> length links'' = length links'"
proof (cases "List.find (same_link x) links")
  case None
  then have "links' = links @ [x]" "i = ol_order_link_id x" using assms by (auto simp: upsert_link_def split: if_splits)
  with None show ?thesis by (simp add: upsert_link_def find_append same_link_def)
next
  case (Some r)
  have "List.find (same_link x) (update_where (same_link x) f ls) = map_option f (List.find (same_link x) ls)"
    if "\<And>r. same_link x (f r) = same_link x r" for f ls
    using that by (induction ls) auto
  with Some assms show ?thesis by (auto simp: upsert_link_def same_link_def)
qed

end
