(* ===== verification/Execution_Jobs.thy ===== *)
theory Execution_Jobs
  imports Idempotency Reservations Execution_Policies
begin

text \<open>
  Execution jobs (\<open>execution_jobs.py\<close>), the status of the intents behind them
  (\<open>intent_status.py\<close>) and the denial the price guard records (\<open>price_guard.py\<close>): an approved
  intent becomes a job with a held risk reservation and an outbox event; workers claim jobs,
  reschedule them or end them; execution events write the status back.

  Times inside a payload are their instants. A worker's transaction holds the row lock, so claims
  interleave as whole steps.
\<close>

section \<open>Tables\<close>

record intent_row =
  ti_intent_id :: string
  ti_account_id :: account_id
  ti_instrument_id :: string
  ti_action :: string
  ti_status :: string
  ti_order_plan :: dict
  ti_risk_budget :: dict
  ti_valid_until :: instant
  ti_idempotency_key :: string
  ti_approved_at :: "instant option"

record execution_job =
  ej_id :: string
  ej_intent_id :: "string option"
  ej_account_id :: account_id
  ej_instrument_id :: string
  ej_venue_symbol :: string
  ej_action :: string
  ej_status :: string
  ej_request_id :: "string option"
  ej_idempotency_key :: string
  ej_payload :: dict
  ej_created_at :: instant
  ej_updated_at :: instant
  ej_started_at :: "instant option"
  ej_completed_at :: "instant option"

record ExecutionJobRequest =
  er_execution_job_id :: string
  er_intent_id :: string
  er_account_id :: account_id
  er_instrument_id :: string
  er_venue_symbol :: string
  er_action :: string
  er_status :: string
  er_request_id :: string
  er_idempotency_key :: string
  er_payload :: dict

record job_db =
  jd_intents :: "intent_row list"
  jd_jobs :: "execution_job list"
  jd_reservations :: "reservation list"
  jd_outbox :: "outbox_event list"
  jd_audit :: "dict list"

definition pending_statuses :: "string list" where
  "pending_statuses = [''pending'', ''retry_scheduled'']"

definition terminal_job_statuses :: "string list" where
  "terminal_job_statuses = [''completed'', ''denied'', ''rejected'', ''failed'', ''cancelled'', ''expired'']"

section \<open>Building a job\<close>

definition deterministic_execution_job_id :: "hash \<Rightarrow> string \<Rightarrow> string" where
  "deterministic_execution_job_id sha key = digest_uuid sha key"

definition job_decimal :: "json \<Rightarrow> rat" where
  "job_decimal v = (case decimal_or_none v of Some x \<Rightarrow> x | None \<Rightarrow> 0)"

definition fmt_decimal :: "rat \<Rightarrow> json" where
  "fmt_decimal x = JDec (if x = 0 then 0 else dec x)"

definition reservation_payload :: "dict \<Rightarrow> dict \<Rightarrow> dict" where
  "reservation_payload risk_budget order_plan =
     (let max_notional = job_decimal (jor (jget risk_budget ''notional'')
            (jor (jget risk_budget ''max_notional'') (jor (jget order_plan ''notional'') (JDec 0))));
          risk_amount = job_decimal (jor (jget risk_budget ''risk_amount'') (jor (jget risk_budget ''max_risk'')
            (JDec (dmul max_notional (job_decimal (jor (jget risk_budget ''risk_fraction'') (JDec 0)))))));
          leverage = job_decimal (jor (jget risk_budget ''max_leverage'') (JDec 0));
          margin = (if leverage \<le> 0 then 0 else ddiv max_notional leverage)
      in [(''notional'', fmt_decimal max_notional), (''risk_amount'', fmt_decimal risk_amount),
          (''margin_amount'', fmt_decimal margin), (''expires_at'', JNull)])"

definition job_intent_payload :: "intent_row \<Rightarrow> dict" where
  "job_intent_payload i =
     [(''intent_id'', JStr (ti_intent_id i)), (''account_id'', JStr (ti_account_id i)),
      (''instrument_id'', JStr (ti_instrument_id i)), (''action'', JStr (ti_action i)),
      (''idempotency_key'', JStr (ti_idempotency_key i)), (''valid_until'', JNum (of_int (ti_valid_until i))),
      (''order_plan'', JObj (ti_order_plan i)), (''risk_budget'', JObj (ti_risk_budget i))]"

definition build_execution_job_request :: "hash \<Rightarrow> string \<Rightarrow> intent_row \<Rightarrow> instant \<Rightarrow> string option
    \<Rightarrow> ExecutionJobRequest result" where
  "build_execution_job_request sha fresh i now request_id =
     (let key = execution_job_key sha (ti_intent_id i) (ti_action i) (Some (ti_instrument_id i)) (Some (ti_account_id i))
      in bind_result
           (case request_id of
              Some r \<Rightarrow> if r \<noteq> [] then Inr r
                        else request_id_for_material sha [Some ''execution_job'', Some (ti_intent_id i), Some key]
            | None \<Rightarrow> request_id_for_material sha [Some ''execution_job'', Some (ti_intent_id i), Some key]) (\<lambda>rid.
         let args = no_trace_args \<lparr>ta_request_id := Some rid, ta_idempotency_key := Some key,
               ta_intent_id := Some (ti_intent_id i)\<rparr>;
             p1 = inject_trace_context sha fresh
               [(''schema_version'', JStr ''1.0''), (''created_by'', JStr ''order_management.execution_jobs''),
                (''created_at'', JNum (of_int now)), (''attempts'', JNum 0), (''intent'', JObj (job_intent_payload i)),
                (''reservation'', JObj (reservation_payload (ti_risk_budget i) (ti_order_plan i)))] args;
             p2 = dict_set p1 ''intent'' (JObj (inject_trace_context sha fresh (job_intent_payload i)
               (args \<lparr>ta_trace_id := opt_str (jget p1 ''trace_id'')\<rparr>)))
         in Inr \<lparr>er_execution_job_id = deterministic_execution_job_id sha key, er_intent_id = ti_intent_id i,
               er_account_id = ti_account_id i, er_instrument_id = ti_instrument_id i,
               er_venue_symbol = ti_instrument_id i, er_action = ti_action i, er_status = ''pending'',
               er_request_id = rid, er_idempotency_key = key, er_payload = p2\<rparr>))"

section \<open>Creating a job\<close>

definition same_job :: "ExecutionJobRequest \<Rightarrow> execution_job \<Rightarrow> bool" where
  "same_job rq j = (ej_account_id j = er_account_id rq \<and> ej_idempotency_key j = er_idempotency_key rq)"

definition insert_execution_job :: "execution_job list \<Rightarrow> ExecutionJobRequest \<Rightarrow> instant \<Rightarrow> execution_job list result" where
  "insert_execution_job jobs rq clock =
     (if list_ex (same_job rq) jobs
      then Inr (update_where (same_job rq) (\<lambda>j. j \<lparr>
             ej_request_id := (case ej_request_id j of Some r \<Rightarrow> Some r | None \<Rightarrow> Some (er_request_id rq)),
             ej_payload := dict_update (ej_payload j) (er_payload rq), ej_updated_at := clock\<rparr>) jobs)
      else if er_execution_job_id rq \<in> set (map ej_id jobs) then Inl IntegrityError
      else Inr (jobs @ [\<lparr>ej_id = er_execution_job_id rq, ej_intent_id = Some (er_intent_id rq),
             ej_account_id = er_account_id rq, ej_instrument_id = er_instrument_id rq,
             ej_venue_symbol = er_venue_symbol rq, ej_action = er_action rq, ej_status = er_status rq,
             ej_request_id = Some (er_request_id rq), ej_idempotency_key = er_idempotency_key rq,
             ej_payload = er_payload rq, ej_created_at = clock, ej_updated_at = clock, ej_started_at = None,
             ej_completed_at = None\<rparr>]))"

definition risk_key :: "hash \<Rightarrow> ExecutionJobRequest \<Rightarrow> string" where
  "risk_key sha rq = hexdigest (sha (er_idempotency_key rq @ ''|risk''))"

definition job_reservation :: "hash \<Rightarrow> ExecutionJobRequest \<Rightarrow> string \<Rightarrow> instant \<Rightarrow> reservation" where
  "job_reservation sha rq uuid clock =
     (let res = (case jget (er_payload rq) ''reservation'' of JObj d \<Rightarrow> d | _ \<Rightarrow> [])
      in \<lparr>rv_id = uuid, rv_account_id = er_account_id rq, rv_position_key = None,
          rv_venue_symbol = er_venue_symbol rq, rv_idempotency_key = risk_key sha rq, rv_status = ''held'',
          rv_notional = job_decimal (jget_or res ''notional'' (JDec 0)),
          rv_risk_amount = job_decimal (jget_or res ''risk_amount'' (JDec 0)),
          rv_margin_amount = job_decimal (jget_or res ''margin_amount'' (JDec 0)),
          rv_expires_at = None, rv_released_at = None,
          rv_payload = [(''intent_id'', er_intent_id rq), (''execution_job_id'', er_execution_job_id rq)],
          rv_created_at = clock, rv_updated_at = clock\<rparr>)"

definition same_reservation :: "hash \<Rightarrow> ExecutionJobRequest \<Rightarrow> reservation \<Rightarrow> bool" where
  "same_reservation sha rq r = (rv_account_id r = er_account_id rq \<and> rv_idempotency_key r = risk_key sha rq)"

definition ensure_risk_reservation :: "hash \<Rightarrow> reservation list \<Rightarrow> ExecutionJobRequest \<Rightarrow> string \<Rightarrow> instant
    \<Rightarrow> reservation list result" where
  "ensure_risk_reservation sha tbl rq uuid clock =
     (let new = job_reservation sha rq uuid clock
      in if list_ex (same_reservation sha rq) tbl
         then Inr (update_where (same_reservation sha rq) (\<lambda>r. r \<lparr>
                rv_payload := foldl (\<lambda>p (k, v). AList.update k v p) (rv_payload r) (rv_payload new),
                rv_updated_at := clock\<rparr>) tbl)
         else insert_reservation new tbl)"

definition create_execution_job_for_approved_intent :: "hash \<Rightarrow> string \<Rightarrow> job_db \<Rightarrow> string \<Rightarrow> instant \<Rightarrow> string option
    \<Rightarrow> bool \<Rightarrow> string \<Rightarrow> instant \<Rightarrow> (job_db \<times> ExecutionJobRequest) result" where
  "create_execution_job_for_approved_intent sha fresh db intent_id now request_id reserve uuid clock =
     (case List.find (\<lambda>i. ti_intent_id i = intent_id) (jd_intents db) of
        None \<Rightarrow> Inl ValueError
      | Some i \<Rightarrow>
          if ti_status i \<noteq> ''approved'' then Inl ValueError
          else
            bind_result (build_execution_job_request sha fresh i now request_id) (\<lambda>rq.
            bind_result (insert_execution_job (jd_jobs db) rq clock) (\<lambda>jobs.
            bind_result (if reserve then ensure_risk_reservation sha (jd_reservations db) rq uuid clock
                         else Inr (jd_reservations db)) (\<lambda>tbl.
            bind_result (enqueue_order_management_event sha fresh (jd_outbox db) ''execution_job''
                (er_execution_job_id rq) ''order.execution_job.created'' (er_idempotency_key rq)
                [(''execution_job_id'', JStr (er_execution_job_id rq)), (''intent_id'', JStr (er_intent_id rq)),
                 (''account_id'', JStr (er_account_id rq)), (''venue_symbol'', JStr (er_venue_symbol rq))]
                (Some (er_request_id rq)) clock) (\<lambda>(box, _).
            Inr (db \<lparr>jd_jobs := jobs, jd_reservations := tbl, jd_outbox := box\<rparr>, rq))))))"

section \<open>Claiming\<close>

definition retry_due :: "dict \<Rightarrow> instant \<Rightarrow> bool" where
  "retry_due payload now =
     (case jget payload ''retry'' of
        JObj d \<Rightarrow> (case jget d ''next_attempt_at'' of JNum t \<Rightarrow> t \<le> of_int now | _ \<Rightarrow> True)
      | _ \<Rightarrow> True)"

definition claimable :: "instant \<Rightarrow> execution_job \<Rightarrow> bool" where
  "claimable now j =
     (ej_status j \<in> set pending_statuses
      \<and> (ej_status j \<noteq> ''retry_scheduled'' \<or> retry_due (ej_payload j) now))"

definition job_attempts :: "dict \<Rightarrow> int result" where
  "job_attempts payload =
     (let v = jget payload ''attempts''
      in if \<not> truthy v then Inr 0
         else case v of
           JNum x \<Rightarrow> Inr (round_down x)
         | JDec x \<Rightarrow> if x = of_int \<lfloor>x\<rfloor> then Inr \<lfloor>x\<rfloor> else Inl ValueError
         | JBool b \<Rightarrow> Inr 1
         | JStr s \<Rightarrow> Inl ValueError
         | _ \<Rightarrow> Inl TypeError)"

definition claim_update :: "string \<Rightarrow> instant \<Rightarrow> instant \<Rightarrow> int \<Rightarrow> execution_job \<Rightarrow> execution_job" where
  "claim_update worker now clock attempts j =
     j \<lparr>ej_status := ''claimed'',
        ej_started_at := (case ej_started_at j of Some t \<Rightarrow> Some t | None \<Rightarrow> Some now),
        ej_updated_at := clock,
        ej_payload := dict_set (dict_set (dict_set (ej_payload j) ''claimed_by'' (JStr worker))
          ''claimed_at'' (JNum (of_int now))) ''attempts'' (JNum (of_int attempts))\<rparr>"

definition claim_next_execution_job :: "job_db \<Rightarrow> string \<Rightarrow> instant \<Rightarrow> instant \<Rightarrow> (job_db \<times> execution_job option) result" where
  "claim_next_execution_job db worker now clock =
     (case sort_key (\<lambda>j. (ej_created_at j, ej_id j)) (filter (claimable now) (jd_jobs db)) of
        [] \<Rightarrow> Inr (db, None)
      | j # _ \<Rightarrow>
          bind_result (job_attempts (ej_payload j)) (\<lambda>attempts.
          Inr (db \<lparr>jd_jobs := update_where (\<lambda>r. ej_id r = ej_id j) (claim_update worker now clock attempts) (jd_jobs db)\<rparr>,
               Some (claim_update worker now clock attempts j))))"

section \<open>Retrying and ending\<close>

record RetryPayloadResult =
  rt_status :: string
  rt_payload :: dict

definition retry_payload :: "dict \<Rightarrow> string \<Rightarrow> int \<Rightarrow> int \<Rightarrow> instant \<Rightarrow> RetryPayloadResult result" where
  "retry_payload payload reason delay max_attempts now =
     bind_result (job_attempts payload) (\<lambda>n.
       let attempts = n + 1; p = dict_set payload ''attempts'' (JNum (of_int attempts))
       in Inr (if attempts > max_attempts
               then \<lparr>rt_status = ''failed'', rt_payload = dict_set p ''terminal''
                      (JObj [(''reason'', JStr ''max_attempts_exceeded''), (''last_error'', JStr reason),
                             (''at'', JNum (of_int now))])\<rparr>
               else \<lparr>rt_status = ''retry_scheduled'', rt_payload = dict_set p ''retry''
                      (JObj [(''reason'', JStr reason),
                             (''next_attempt_at'', JNum (of_int (now + delay * 1000000)))])\<rparr>))"

definition update_job :: "job_db \<Rightarrow> string \<Rightarrow> (execution_job \<Rightarrow> execution_job) \<Rightarrow> job_db" where
  "update_job db jid f = db \<lparr>jd_jobs := update_where (\<lambda>j. ej_id j = jid) f (jd_jobs db)\<rparr>"

definition schedule_job_retry :: "job_db \<Rightarrow> string \<Rightarrow> string \<Rightarrow> int \<Rightarrow> int \<Rightarrow> instant \<Rightarrow> instant
    \<Rightarrow> (job_db \<times> RetryPayloadResult) result" where
  "schedule_job_retry db jid reason delay max_attempts now clock =
     (case List.find (\<lambda>j. ej_id j = jid) (jd_jobs db) of
        None \<Rightarrow> Inl ValueError
      | Some j \<Rightarrow>
          bind_result (retry_payload (ej_payload j) reason delay max_attempts now) (\<lambda>r.
          Inr (update_job db jid (\<lambda>j. j \<lparr>ej_status := rt_status r, ej_payload := rt_payload r,
                 ej_completed_at := (if rt_status r \<in> set terminal_job_statuses then Some now else ej_completed_at j),
                 ej_updated_at := clock\<rparr>), r)))"

definition mark_job_terminal :: "job_db \<Rightarrow> string \<Rightarrow> string \<Rightarrow> string \<Rightarrow> dict \<Rightarrow> instant \<Rightarrow> instant \<Rightarrow> job_db result" where
  "mark_job_terminal db jid status reason detail now clock =
     (if status \<notin> set terminal_job_statuses then Inl ValueError
      else case List.find (\<lambda>j. ej_id j = jid) (jd_jobs db) of
        None \<Rightarrow> Inl ValueError
      | Some _ \<Rightarrow>
          Inr (update_job db jid (\<lambda>j. j \<lparr>ej_status := status,
            ej_payload := dict_set (ej_payload j) ''terminal'' (JObj (dict_update
              [(''status'', JStr status), (''reason'', JStr reason), (''at'', JNum (of_int now))] detail)),
            ej_completed_at := Some now, ej_updated_at := clock\<rparr>)))"

definition json_opt_dec :: "rat option \<Rightarrow> json" where
  "json_opt_dec v = (case v of Some x \<Rightarrow> JDec x | None \<Rightarrow> JNull)"

definition record_price_guard_rejection :: "job_db \<Rightarrow> string \<Rightarrow> string option \<Rightarrow> PriceGuardDecision \<Rightarrow> instant \<Rightarrow> job_db" where
  "record_price_guard_rejection db jid intent_id d clock =
     update_job db jid (\<lambda>j. j \<lparr>ej_status := ''denied'', ej_completed_at := Some clock,
       ej_payload := dict_set (ej_payload j) ''price_guard_rejection'' (JObj
         [(''intent_id'', case intent_id of Some i \<Rightarrow> JStr i | None \<Rightarrow> JNull), (''reason'', JStr (pg_reason d)),
          (''reference_price'', json_opt_dec (pg_reference_price d)),
          (''intended_price'', json_opt_dec (pg_intended_price d)),
          (''deviation_bps'', json_opt_dec (pg_deviation_bps d))]),
       ej_updated_at := clock\<rparr>)"

section \<open>Intent status\<close>

record IntentStatusUpdate =
  iu_intent_status :: string
  iu_job_status :: string
  iu_reason :: string

definition intent_update :: "string \<Rightarrow> string \<Rightarrow> string \<Rightarrow> IntentStatusUpdate" where
  "intent_update s j r = \<lparr>iu_intent_status = s, iu_job_status = j, iu_reason = r\<rparr>"

definition classify_intent_outcome :: "string \<Rightarrow> dict \<Rightarrow> IntentStatusUpdate" where
  "classify_intent_outcome event_type payload =
     (let reason = str_or [jget payload ''reason'', jget payload ''error''] [];
          or' = (\<lambda>d. if reason = [] then d else reason)
      in if event_type \<in> {''OrderDenied'', ''IntentDenied''} then intent_update ''denied'' ''denied'' (or' ''denied'')
         else if event_type \<in> {''OrderRejected'', ''IntentRejected''}
         then intent_update ''rejected'' ''rejected'' (or' ''rejected'')
         else if event_type \<in> {''OrderSubmitFailed'', ''ExecutionFailed''}
         then intent_update ''failed'' ''failed'' (or' ''failed'')
         else if event_type \<in> {''OrderFilled'', ''IntentCompleted''}
         then intent_update ''completed'' ''completed'' ''filled''
         else if event_type = ''NodeAcceptedIntent'' then intent_update ''node_accepted'' ''claimed'' ''node_accepted''
         else if event_type \<in> {''OrderWorking'', ''OrderAccepted''}
         then intent_update ''executing'' ''executing'' ''executing''
         else intent_update ''needs_review'' ''needs_review'' (or' ''unmapped_event''))"

text \<open>The labels of the type \<open>trade_intent_status\<close>, which no migration extends.\<close>

definition trade_intent_statuses :: "string list" where
  "trade_intent_statuses = [''draft'', ''approved'', ''rejected'', ''cancelled'', ''expired'']"

definition db_intent_status :: "string list \<Rightarrow> string \<Rightarrow> string option" where
  "db_intent_status values' desired =
     (if desired \<in> set values' then Some desired
      else let fallback = (if desired \<in> {''denied'', ''failed''} then Some ''rejected''
             else if desired \<in> {''needs_review'', ''node_accepted'', ''executing''} then Some ''approved''
             else if desired = ''completed'' then None else Some desired)
           in case fallback of None \<Rightarrow> None | Some s \<Rightarrow> if s \<in> set values' then Some s else None)"

definition build_timeline_item :: "string \<Rightarrow> string option \<Rightarrow> IntentStatusUpdate \<Rightarrow> json \<Rightarrow> string \<Rightarrow> instant \<Rightarrow> dict \<Rightarrow> dict" where
  "build_timeline_item intent_id jid u event_id event_type observed_at payload =
     [(''intent_id'', JStr intent_id), (''execution_job_id'', case jid of Some j \<Rightarrow> JStr j | None \<Rightarrow> JNull),
      (''intent_status'', JStr (iu_intent_status u)), (''job_status'', JStr (iu_job_status u)),
      (''reason'', JStr (iu_reason u)), (''event_id'', event_id), (''event_type'', JStr event_type),
      (''observed_at'', JNum (of_int observed_at)), (''payload'', JObj payload)]"

text \<open>The check \<open>ck_trade_intents_approved_chain\<close>: an approved intent has its time of approval.\<close>

definition set_intent_status :: "intent_row list \<Rightarrow> string \<Rightarrow> string \<Rightarrow> intent_row list result" where
  "set_intent_status intents intent_id status =
     (if status = ''approved'' \<and> list_ex (\<lambda>i. ti_intent_id i = intent_id \<and> ti_approved_at i = None) intents
      then Inl IntegrityError
      else Inr (update_where (\<lambda>i. ti_intent_id i = intent_id) (\<lambda>i. i \<lparr>ti_status := status\<rparr>) intents))"

definition persist_intent_status :: "job_db \<Rightarrow> string \<Rightarrow> string option \<Rightarrow> string \<Rightarrow> json \<Rightarrow> dict \<Rightarrow> instant \<Rightarrow> instant
    \<Rightarrow> (job_db \<times> dict) result" where
  "persist_intent_status db intent_id jid event_type event_id payload observed_at clock =
     (let u = classify_intent_outcome event_type payload;
          item = build_timeline_item intent_id jid u event_id event_type observed_at payload
      in bind_result (case db_intent_status trade_intent_statuses (iu_intent_status u) of
             None \<Rightarrow> Inr (jd_intents db) | Some s \<Rightarrow> set_intent_status (jd_intents db) intent_id s) (\<lambda>intents.
         let db1 = db \<lparr>jd_intents := intents\<rparr>;
             db2 = (case jid of None \<Rightarrow> db1
               | Some j \<Rightarrow> update_job db1 j (\<lambda>r. r \<lparr>ej_status := iu_job_status u,
                   ej_completed_at := (if iu_job_status u \<in> set terminal_job_statuses
                     then (case ej_completed_at r of Some t \<Rightarrow> Some t | None \<Rightarrow> Some observed_at)
                     else ej_completed_at r),
                   ej_payload := dict_set (ej_payload r) ''intent_timeline_last'' (JObj item), ej_updated_at := clock\<rparr>))
         in Inr (db2 \<lparr>jd_audit := jd_audit db2 @ [item]\<rparr>, item)))"

section \<open>The tables under every operation\<close>

definition job_key :: "execution_job \<Rightarrow> string \<times> account_id \<times> string" where
  "job_key j = (ej_id j, ej_account_id j, ej_idempotency_key j)"

definition job_closed_ok :: "execution_job \<Rightarrow> bool" where
  "job_closed_ok j = (ej_status j \<in> set terminal_job_statuses \<longrightarrow> ej_completed_at j \<noteq> None)"

definition jobs_ok :: "job_db \<Rightarrow> bool" where
  "jobs_ok db =
     (distinct (map ej_id (jd_jobs db))
      \<and> distinct (map (\<lambda>j. (ej_account_id j, ej_idempotency_key j)) (jd_jobs db))
      \<and> (\<forall>j \<in> set (jd_jobs db). job_closed_ok j)
      \<and> reservations_ok (jd_reservations db)
      \<and> distinct (map ob_id (jd_outbox db))
      \<and> (\<forall>i \<in> set (jd_intents db). ti_status i = ''approved'' \<longrightarrow> ti_approved_at i \<noteq> None))"

lemma map_via_job_key:
  assumes "map job_key js = map job_key js'"
  shows "map ej_id js = map ej_id js'"
    "map (\<lambda>j. (ej_account_id j, ej_idempotency_key j)) js = map (\<lambda>j. (ej_account_id j, ej_idempotency_key j)) js'"
proof -
  have "map (fst \<circ> job_key) js = map (fst \<circ> job_key) js'" "map (snd \<circ> job_key) js = map (snd \<circ> job_key) js'"
    using assms by (metis map_map)+
  then show "map ej_id js = map ej_id js'"
    "map (\<lambda>j. (ej_account_id j, ej_idempotency_key j)) js = map (\<lambda>j. (ej_account_id j, ej_idempotency_key j)) js'"
    by (simp_all add: job_key_def o_def)
qed

text \<open>An update of rows that keeps their keys and closes a row with its time keeps the tables.\<close>

lemma jobs_ok_update:
  assumes "jobs_ok db" "\<And>j. p j \<Longrightarrow> job_key (f j) = job_key j" "\<And>j. p j \<Longrightarrow> job_closed_ok j \<Longrightarrow> job_closed_ok (f j)"
  shows "jobs_ok (db \<lparr>jd_jobs := update_where p f (jd_jobs db)\<rparr>)"
proof -
  have "map job_key (update_where p f (jd_jobs db)) = map job_key (jd_jobs db)"
    by (rule map_update_where_frame) (rule assms(2))
  note k = map_via_job_key[OF this]
  have "\<forall>j \<in> set (update_where p f (jd_jobs db)). job_closed_ok j"
    using assms(1,3) by (auto simp: jobs_ok_def set_update_where)
  then show ?thesis using assms(1) by (simp add: jobs_ok_def k)
qed

lemma update_job_ok:
  assumes "jobs_ok db" "\<And>j. job_key (f j) = job_key j" "\<And>j. job_closed_ok j \<Longrightarrow> job_closed_ok (f j)"
  shows "jobs_ok (update_job db jid f)"
  unfolding update_job_def using assms by (intro jobs_ok_update) auto

lemma insert_execution_job_ok:
  assumes "jobs_ok db" "insert_execution_job (jd_jobs db) rq clock = Inr jobs" "er_status rq = ''pending''"
  shows "jobs_ok (db \<lparr>jd_jobs := jobs\<rparr>)"
proof (cases "list_ex (same_job rq) (jd_jobs db)")
  case True
  then show ?thesis
    using assms(1,2) by (auto simp: insert_execution_job_def job_key_def job_closed_ok_def intro!: jobs_ok_update)
next
  case False
  then have "(er_account_id rq, er_idempotency_key rq)
      \<notin> set (map (\<lambda>j. (ej_account_id j, ej_idempotency_key j)) (jd_jobs db))"
    by (auto simp: list_ex_iff same_job_def)
  with False show ?thesis
    using assms by (auto simp: insert_execution_job_def jobs_ok_def job_closed_ok_def terminal_job_statuses_def
        split: if_splits)
qed

lemma insert_reservation_ok: "reservations_ok tbl \<Longrightarrow> insert_reservation r tbl = Inr tbl' \<Longrightarrow> reservations_ok tbl'"
  by (auto simp: insert_reservation_def reservations_ok_def not_less split: if_splits)

lemma ensure_risk_reservation_ok:
  assumes "reservations_ok tbl" "ensure_risk_reservation sha tbl rq uuid clock = Inr tbl'"
  shows "reservations_ok tbl'"
  using assms insert_reservation_ok
  by (auto simp: ensure_risk_reservation_def Let_def intro!: reservations_ok_update split: if_splits)

lemma build_request_fields:
  assumes "build_execution_job_request sha fresh i now rid = Inr rq"
  shows "er_status rq = ''pending''" "er_account_id rq = ti_account_id i" "er_intent_id rq = ti_intent_id i"
    "er_idempotency_key rq = execution_job_key sha (ti_intent_id i) (ti_action i) (Some (ti_instrument_id i)) (Some (ti_account_id i))"
    "er_execution_job_id rq = deterministic_execution_job_id sha (er_idempotency_key rq)"
  using assms by (auto simp: build_execution_job_request_def Let_def bind_result_Inr_iff)

lemma create_Inr:
  assumes "create_execution_job_for_approved_intent sha fresh db iid now rid reserve uuid clock = Inr (db', rq)"
  obtains i jobs tbl box e where "List.find (\<lambda>i. ti_intent_id i = iid) (jd_intents db) = Some i" "ti_status i = ''approved''"
    "build_execution_job_request sha fresh i now rid = Inr rq" "insert_execution_job (jd_jobs db) rq clock = Inr jobs"
    "(if reserve then ensure_risk_reservation sha (jd_reservations db) rq uuid clock else Inr (jd_reservations db)) = Inr tbl"
    "enqueue_order_management_event sha fresh (jd_outbox db) ''execution_job''
                (er_execution_job_id rq) ''order.execution_job.created'' (er_idempotency_key rq)
                [(''execution_job_id'', JStr (er_execution_job_id rq)), (''intent_id'', JStr (er_intent_id rq)),
                 (''account_id'', JStr (er_account_id rq)), (''venue_symbol'', JStr (er_venue_symbol rq))]
                (Some (er_request_id rq)) clock = Inr (box, e)"
    "db' = db \<lparr>jd_jobs := jobs, jd_reservations := tbl, jd_outbox := box\<rparr>"
proof -
  obtain i where i: "List.find (\<lambda>i. ti_intent_id i = iid) (jd_intents db) = Some i" "ti_status i = ''approved''"
    using assms by (auto simp: create_execution_job_for_approved_intent_def split: option.splits if_splits)
  show thesis
    using assms i that[OF i] unfolding create_execution_job_for_approved_intent_def
    by (fastforce simp: bind_result_Inr_iff)
qed

lemma create_ok:
  assumes "jobs_ok db" "create_execution_job_for_approved_intent sha fresh db iid now rid reserve uuid clock = Inr (db', rq)"
  shows "jobs_ok db'"
proof -
  from assms(2) show ?thesis
  proof (rule create_Inr)
    fix i jobs tbl box e
    assume b: "build_execution_job_request sha fresh i now rid = Inr rq"
      and j: "insert_execution_job (jd_jobs db) rq clock = Inr jobs"
      and r: "(if reserve then ensure_risk_reservation sha (jd_reservations db) rq uuid clock else Inr (jd_reservations db)) = Inr tbl"
      and o: "enqueue_order_management_event sha fresh (jd_outbox db) ''execution_job''
                (er_execution_job_id rq) ''order.execution_job.created'' (er_idempotency_key rq)
                [(''execution_job_id'', JStr (er_execution_job_id rq)), (''intent_id'', JStr (er_intent_id rq)),
                 (''account_id'', JStr (er_account_id rq)), (''venue_symbol'', JStr (er_venue_symbol rq))]
                (Some (er_request_id rq)) clock = Inr (box, e)"
      and db': "db' = db \<lparr>jd_jobs := jobs, jd_reservations := tbl, jd_outbox := box\<rparr>"
    have "jobs_ok (db \<lparr>jd_jobs := jobs\<rparr>)" using insert_execution_job_ok[OF assms(1) j build_request_fields(1)[OF b]] .
    moreover have "reservations_ok tbl"
      using r assms(1) ensure_risk_reservation_ok by (auto simp: jobs_ok_def split: if_splits)
    moreover have "distinct (map ob_id box)" using enqueue_unique[OF _ o] assms(1) by (simp add: jobs_ok_def)
    ultimately show ?thesis by (simp add: db' jobs_ok_def)
  qed
qed

lemma claim_ok:
  assumes "jobs_ok db" "claim_next_execution_job db w now clock = Inr (db', r)"
  shows "jobs_ok db'"
proof (cases "db' = db")
  case False
  then obtain p n where "db' = db \<lparr>jd_jobs := update_where p (claim_update w now clock n) (jd_jobs db)\<rparr>"
    using assms(2) by (auto simp: claim_next_execution_job_def bind_result_Inr_iff split: list.splits)
  with assms(1) show ?thesis
    by (auto simp: claim_update_def job_key_def job_closed_ok_def terminal_job_statuses_def intro!: jobs_ok_update)
qed (simp add: assms(1))

lemma schedule_job_retry_ok:
  assumes "jobs_ok db" "schedule_job_retry db jid reason d m now clock = Inr (db', r)"
  shows "jobs_ok db'"
  using assms
  by (auto simp: schedule_job_retry_def bind_result_Inr_iff job_key_def job_closed_ok_def split: option.splits
      intro!: update_job_ok)

lemma mark_job_terminal_ok:
  assumes "jobs_ok db" "mark_job_terminal db jid status reason detail now clock = Inr db'"
  shows "jobs_ok db'"
  using assms
  by (auto simp: mark_job_terminal_def job_key_def job_closed_ok_def split: option.splits if_splits intro!: update_job_ok)

lemma price_rejection_ok: "jobs_ok db \<Longrightarrow> jobs_ok (record_price_guard_rejection db jid iid d clock)"
  unfolding record_price_guard_rejection_def by (rule update_job_ok) (simp_all add: job_key_def job_closed_ok_def)

lemma persist_intent_status_ok:
  assumes "jobs_ok db" "persist_intent_status db iid jid ev eid payload t clock = Inr (db', item)"
  shows "jobs_ok db'"
proof -
  let ?u = "classify_intent_outcome ev payload"
  obtain intents where i: "(case db_intent_status trade_intent_statuses (iu_intent_status ?u) of
             None \<Rightarrow> Inr (jd_intents db) | Some s \<Rightarrow> set_intent_status (jd_intents db) iid s) = Inr intents"
    using assms(2) by (auto simp: persist_intent_status_def Let_def bind_result_Inr_iff)
  have "\<forall>i \<in> set intents. ti_status i = ''approved'' \<longrightarrow> ti_approved_at i \<noteq> None"
    using i assms(1) by (auto simp: set_intent_status_def jobs_ok_def set_update_where list_ex_iff
        split: option.splits if_splits)
  then have "jobs_ok (db \<lparr>jd_intents := intents\<rparr>)" using assms(1) by (simp add: jobs_ok_def)
  then have "jobs_ok (update_job (db \<lparr>jd_intents := intents\<rparr>) j (\<lambda>r. r \<lparr>ej_status := iu_job_status ?u,
      ej_completed_at := (if iu_job_status ?u \<in> set terminal_job_statuses
        then (case ej_completed_at r of Some t \<Rightarrow> Some t | None \<Rightarrow> Some t) else ej_completed_at r),
      ej_payload := dict_set (ej_payload r) ''intent_timeline_last'' x, ej_updated_at := clock\<rparr>))" for j x
    by (rule update_job_ok) (auto simp: job_key_def job_closed_ok_def split: option.splits)
  moreover have "jobs_ok (x \<lparr>jd_audit := a\<rparr>) = jobs_ok x" for x a by (simp add: jobs_ok_def)
  ultimately show ?thesis
    using assms(2) i \<open>jobs_ok (db \<lparr>jd_intents := intents\<rparr>)\<close>
    by (cases jid) (auto simp: persist_intent_status_def Let_def)
qed

text \<open>Intents are written by the decision gateway, under the check on approved ones.\<close>

inductive job_step :: "job_db \<Rightarrow> job_db \<Rightarrow> bool" where
  arrived: "ti_status i \<noteq> ''approved'' \<or> ti_approved_at i \<noteq> None \<Longrightarrow> job_step db (db \<lparr>jd_intents := jd_intents db @ [i]\<rparr>)"
| created: "create_execution_job_for_approved_intent sha fresh db iid now rid reserve uuid clock = Inr (db', rq) \<Longrightarrow> job_step db db'"
| claimed: "claim_next_execution_job db w now clock = Inr (db', j) \<Longrightarrow> job_step db db'"
| retried: "schedule_job_retry db jid reason d m now clock = Inr (db', r) \<Longrightarrow> job_step db db'"
| ended: "mark_job_terminal db jid status reason detail now clock = Inr db' \<Longrightarrow> job_step db db'"
| price_denied: "job_step db (record_price_guard_rejection db jid iid' dec' clock)"
| observed: "persist_intent_status db iid jid' ev eid payload t clock = Inr (db', item) \<Longrightarrow> job_step db db'"

lemma arrived_ok:
  "jobs_ok db \<Longrightarrow> ti_status i \<noteq> ''approved'' \<or> ti_approved_at i \<noteq> None \<Longrightarrow> jobs_ok (db \<lparr>jd_intents := jd_intents db @ [i]\<rparr>)"
  by (auto simp: jobs_ok_def)

definition empty_jobs :: job_db where
  "empty_jobs = \<lparr>jd_intents = [], jd_jobs = [], jd_reservations = [], jd_outbox = [], jd_audit = []\<rparr>"

lemma job_step_ok: "jobs_ok db \<Longrightarrow> job_step db db' \<Longrightarrow> jobs_ok db'"
  by (erule job_step.cases)
     (auto intro: arrived_ok create_ok claim_ok schedule_job_retry_ok mark_job_terminal_ok price_rejection_ok
       persist_intent_status_ok)

interpretation job_store: invariant_store empty_jobs job_step jobs_ok
proof
  show "jobs_ok empty_jobs" by (simp add: jobs_ok_def empty_jobs_def reservations_ok_def)
qed (rule job_step_ok)

section \<open>Properties\<close>

lemma job_of_key_unique:
  assumes "jobs_ok db"
  shows "length (filter (\<lambda>j. ej_account_id j = a \<and> ej_idempotency_key j = k) (jd_jobs db)) \<le> 1"
proof -
  have "length (filter (\<lambda>x. f x = v) xs) \<le> 1" if "distinct (map f xs)" for f :: "execution_job \<Rightarrow> account_id \<times> string" and v xs
    using that by (induction xs) (auto simp: filter_empty_conv, metis image_eqI)
  from this[of "\<lambda>j. (ej_account_id j, ej_idempotency_key j)" "jd_jobs db" "(a, k)"] assms
  show ?thesis by (simp add: jobs_ok_def)
qed

text \<open>
  Whatever the interleaving of job creation, claims, retries, terminal marks, price-guard denials and intent
  events, an account has at most one job per idempotency key, every job in a terminal status carries its time of
  completion, the reservations keep the constraints of their table and no outbox event is
  written twice.
\<close>

theorem job_tables_consistent:
  assumes "job_step\<^sup>*\<^sup>* empty_jobs db"
  shows "length (filter (\<lambda>j. ej_account_id j = a \<and> ej_idempotency_key j = k) (jd_jobs db)) \<le> 1
    \<and> list_all (\<lambda>j. ej_status j \<notin> set terminal_job_statuses \<or> ej_completed_at j \<noteq> None) (jd_jobs db)
    \<and> reservations_ok (jd_reservations db) \<and> distinct (map ob_id (jd_outbox db))"
  using job_store.reachable_inv[OF assms] job_of_key_unique[of db a k]
  by (auto simp: jobs_ok_def job_closed_ok_def list_all_iff)

lemma hd_sort_key_least:
  assumes "sort_key f xs = x # rest" "y \<in> set xs"
  shows "f x \<le> f y"
proof -
  have "sorted (map f (x # rest))" using sorted_sort_key[of f xs] unfolding assms(1) .
  moreover have "y \<in> set (x # rest)" using assms(2) set_sort[of f xs] unfolding assms(1) by simp
  ultimately show ?thesis by auto
qed


lemma insert_execution_job_again:
  assumes "insert_execution_job jobs rq clock = Inr jobs'" "same_job rq' = same_job rq"
  shows "list_ex (same_job rq) jobs'" "\<exists>jobs''. insert_execution_job jobs' rq' clock' = Inr jobs'' \<and> map ej_id jobs'' = map ej_id jobs'"
proof -
  show ex: "list_ex (same_job rq) jobs'"
    using assms(1) list_ex_update_where_same[of "same_job rq"]
    by (auto simp: insert_execution_job_def same_job_def split: if_splits)
  have "map ej_id (update_where p (\<lambda>j. j \<lparr>ej_request_id := f j, ej_payload := g j, ej_updated_at := clock'\<rparr>) js) = map ej_id js"
    for p f g js
    by (rule map_update_where_frame) simp
  then show "\<exists>jobs''. insert_execution_job jobs' rq' clock' = Inr jobs'' \<and> map ej_id jobs'' = map ej_id jobs'"
    using ex unfolding insert_execution_job_def assms(2) by auto
qed

lemma same_reservation_new: "same_reservation sha rq (job_reservation sha rq uuid clock)"
  by (simp add: same_reservation_def job_reservation_def Let_def)

lemma ensure_risk_reservation_again:
  assumes "ensure_risk_reservation sha tbl rq uuid clock = Inr tbl'" "same_reservation sha rq' = same_reservation sha rq"
  shows "list_ex (same_reservation sha rq) tbl'"
    "\<exists>tbl''. ensure_risk_reservation sha tbl' rq' uuid' clock' = Inr tbl'' \<and> map rv_id tbl'' = map rv_id tbl'"
proof -
  show ex: "list_ex (same_reservation sha rq) tbl'"
    using assms(1) list_ex_update_where_same[of "same_reservation sha rq"] same_reservation_new
    by (auto simp: ensure_risk_reservation_def Let_def insert_reservation_def same_reservation_def split: if_splits)
  have "map rv_id (update_where p (\<lambda>r. r \<lparr>rv_payload := f r, rv_updated_at := clock'\<rparr>) rs) = map rv_id rs" for p f rs
    by (rule map_update_where_frame) simp
  then show "\<exists>tbl''. ensure_risk_reservation sha tbl' rq' uuid' clock' = Inr tbl'' \<and> map rv_id tbl'' = map rv_id tbl'"
    using ex unfolding ensure_risk_reservation_def Let_def assms(2) by auto
qed

text \<open>The time of the call and the random trace id decide only the payload of a request.\<close>

lemma build_request_stable:
  assumes "build_execution_job_request sha fresh i now rid = Inr rq"
  obtains rq' where "build_execution_job_request sha fresh' i now' rid = Inr rq'"
    "er_request_id rq' = er_request_id rq" "er_idempotency_key rq' = er_idempotency_key rq"
    "er_execution_job_id rq' = er_execution_job_id rq" "er_account_id rq' = er_account_id rq"
  using assms by (fastforce simp: build_execution_job_request_def Let_def bind_result_Inr_iff)

text \<open>
  Creating the job of an approved intent is idempotent: repeating the call, at any later time, succeeds, returns the same
  job id and idempotency key, and adds neither a job, nor a reservation, nor an outbox event; after the first call the
  job and its reservation exist.
\<close>

theorem job_created_once:
  assumes "create_execution_job_for_approved_intent sha fresh db iid now rid True uuid clock = Inr (db', rq)"
  shows "\<exists>db'' rq'. create_execution_job_for_approved_intent sha fresh' db' iid now' rid True uuid' clock' = Inr (db'', rq')
    \<and> er_execution_job_id rq' = er_execution_job_id rq \<and> er_idempotency_key rq' = er_idempotency_key rq
    \<and> map ej_id (jd_jobs db'') = map ej_id (jd_jobs db')
    \<and> map rv_id (jd_reservations db'') = map rv_id (jd_reservations db') \<and> jd_outbox db'' = jd_outbox db'
    \<and> list_ex (same_job rq) (jd_jobs db') \<and> list_ex (same_reservation sha rq) (jd_reservations db')"
  using assms
proof (rule create_Inr)
  fix i jobs tbl box e
  assume i: "List.find (\<lambda>i. ti_intent_id i = iid) (jd_intents db) = Some i" "ti_status i = ''approved''"
    and b: "build_execution_job_request sha fresh i now rid = Inr rq"
    and j: "insert_execution_job (jd_jobs db) rq clock = Inr jobs"
    and r: "(if True then ensure_risk_reservation sha (jd_reservations db) rq uuid clock else Inr (jd_reservations db)) = Inr tbl"
    and o: "enqueue_order_management_event sha fresh (jd_outbox db) ''execution_job''
                (er_execution_job_id rq) ''order.execution_job.created'' (er_idempotency_key rq)
                [(''execution_job_id'', JStr (er_execution_job_id rq)), (''intent_id'', JStr (er_intent_id rq)),
                 (''account_id'', JStr (er_account_id rq)), (''venue_symbol'', JStr (er_venue_symbol rq))]
                (Some (er_request_id rq)) clock = Inr (box, e)"
    and d: "db' = db \<lparr>jd_jobs := jobs, jd_reservations := tbl, jd_outbox := box\<rparr>"
  from b obtain rq' where b': "build_execution_job_request sha fresh' i now' rid = Inr rq'"
    and st: "er_request_id rq' = er_request_id rq" "er_idempotency_key rq' = er_idempotency_key rq"
      "er_execution_job_id rq' = er_execution_job_id rq" "er_account_id rq' = er_account_id rq"
    by (rule build_request_stable)
  have sj: "same_job rq' = same_job rq" and rk: "same_reservation sha rq' = same_reservation sha rq"
    by (auto simp: same_job_def same_reservation_def risk_key_def st)
  note r = r[unfolded if_True]
  obtain jobs' tbl' where "insert_execution_job jobs rq' clock' = Inr jobs'" "map ej_id jobs' = map ej_id jobs"
    "ensure_risk_reservation sha tbl rq' uuid' clock' = Inr tbl'" "map rv_id tbl' = map rv_id tbl"
    using insert_execution_job_again(2)[OF j sj] ensure_risk_reservation_again(2)[OF r rk] by blast
  then show ?thesis
    using i b' enqueue_idempotent[OF o] insert_execution_job_again(1)[OF j sj] ensure_risk_reservation_again(1)[OF r rk]
    by (simp add: d st create_execution_job_for_approved_intent_def)
qed

section \<open>Examples and findings\<close>

definition example_intent :: "string \<Rightarrow> intent_row" where
  "example_intent status = \<lparr>ti_intent_id = ''i1'', ti_account_id = ''acct'', ti_instrument_id = ''BTCUSDT'',
     ti_action = ''open_position'', ti_status = status, ti_order_plan = [],
     ti_risk_budget = [(''risk_amount'', JDec 1000000)], ti_valid_until = 100, ti_idempotency_key = ''k'',
     ti_approved_at = Some 0\<rparr>"

definition example_jobs :: "string \<Rightarrow> job_db" where
  "example_jobs status = empty_jobs \<lparr>jd_intents := [example_intent status]\<rparr>"

lemma jget_inject_trace:
  assumes "k \<noteq> ''request_id''" "k \<noteq> ''trace_id''"
  shows "jget (inject_trace_context sha fresh p a) k = jget p k"
  using assms by (simp add: inject_trace_context_def Let_def jget_json_setdefault_other split: option.splits)

lemma build_request_reservation:
  assumes "build_execution_job_request sha fresh i now rid = Inr rq"
  shows "jget (er_payload rq) ''reservation'' = JObj (reservation_payload (ti_risk_budget i) (ti_order_plan i))"
proof -
  have "jget [(''schema_version'', a), (''created_by'', b), (''created_at'', c), (''attempts'', d), (''intent'', e), (''reservation'', v)]
      ''reservation'' = v" for a b c d e v by (simp add: jget_def)
  then show ?thesis
    using assms by (auto simp: build_execution_job_request_def Let_def bind_result_Inr_iff jget_inject_trace)
qed

lemma example_created:
  obtains db' rq where "create_execution_job_for_approved_intent sha ''t'' (example_jobs ''approved'') ''i1'' 0 (Some ''r1'') True ''u1'' 0
      = Inr (db', rq)" "jd_jobs db' \<noteq> []" "active_risk_amount ''acct'' 0 (jd_reservations db') = 1000000"
proof -
  let ?i = "example_intent ''approved''"
  obtain rq where b: "build_execution_job_request sha ''t'' ?i 0 (Some ''r1'') = Inr rq" and rid: "er_request_id rq = ''r1''"
    by (auto simp: build_execution_job_request_def Let_def)
  note f = build_request_fields[OF b]
  let ?r = "job_reservation sha rq ''u1'' 0"
  have "reservation_payload (ti_risk_budget ?i) (ti_order_plan ?i) = [(''notional'', JDec 0), (''risk_amount'', JDec 1000000),
      (''margin_amount'', JDec 0), (''expires_at'', JNull)]"
    by (simp add: example_intent_def reservation_payload_def Let_def jget_def jor_def job_decimal_def fmt_decimal_def)
  then have r: "rv_notional ?r = 0" "rv_risk_amount ?r = 1000000" "rv_margin_amount ?r = 0" "rv_account_id ?r = ''acct''"
    "rv_status ?r = ''held''" "rv_expires_at ?r = None"
    unfolding job_reservation_def Let_def build_request_reservation[OF b]
    by (simp_all add: jget_or_def job_decimal_def f example_intent_def)
  obtain j where j: "insert_execution_job [] rq 0 = Inr [j]" by (auto simp: insert_execution_job_def)
  have e: "ensure_risk_reservation sha [] rq ''u1'' 0 = Inr [?r]"
    by (simp add: ensure_risk_reservation_def Let_def insert_reservation_def r)
  have ok: "outbox_event_type_ok ''order.execution_job.created''" by code_simp
  have "strip ''r1'' \<noteq> []" by code_simp
  then have p: "\<exists>p. outbox_payload sha ''t'' ty aid key payload (Some ''r1'') = Inr p" for ty aid key payload
    unfolding outbox_payload_Inr by simp
  have "\<exists>box x. enqueue_order_management_event sha ''t'' [] ty aid ''order.execution_job.created'' key payload (Some ''r1'') 0
      = Inr (box, x)" for ty aid key payload
    using p[of ty aid key payload] ok by (auto simp: enqueue_order_management_event_def Let_def)
  then obtain box x where "enqueue_order_management_event sha ''t'' [] ''execution_job''
                (er_execution_job_id rq) ''order.execution_job.created'' (er_idempotency_key rq)
                [(''execution_job_id'', JStr (er_execution_job_id rq)), (''intent_id'', JStr (er_intent_id rq)),
                 (''account_id'', JStr (er_account_id rq)), (''venue_symbol'', JStr (er_venue_symbol rq))]
                (Some ''r1'') 0 = Inr (box, x)" by blast
  then have "create_execution_job_for_approved_intent sha ''t'' (example_jobs ''approved'') ''i1'' 0 (Some ''r1'') True ''u1'' 0
      = Inr (example_jobs ''approved'' \<lparr>jd_jobs := [j], jd_reservations := [?r], jd_outbox := box\<rparr>, rq)"
    using b j e rid
    by (simp add: create_execution_job_for_approved_intent_def example_jobs_def empty_jobs_def example_intent_def)
  then show thesis
    using that r by (simp add: active_risk_amount_def dsum_def dadd_def)
qed

lemma example_arrived: "job_step empty_jobs (example_jobs ''approved'')"
  using job_step.arrived[of "example_intent ''approved''" empty_jobs]
  by (simp add: example_jobs_def empty_jobs_def example_intent_def)

theorem job_tables_consistent_witness:
  "\<exists>db. job_step\<^sup>*\<^sup>* empty_jobs db \<and> jd_jobs db \<noteq> [] \<and> distinct (map ob_id (jd_outbox db))"
proof -
  obtain db rq where c: "create_execution_job_for_approved_intent (\<lambda>s. 0) ''t'' (example_jobs ''approved'') ''i1'' 0 (Some ''r1'') True
      ''u1'' 0 = Inr (db, rq)" and ne: "jd_jobs db \<noteq> []" by (rule example_created)
  then have r: "job_step\<^sup>*\<^sup>* empty_jobs db" using example_arrived job_step.created[OF c] by auto
  with ne job_tables_consistent[OF r] show ?thesis by blast
qed

theorem job_created_once_witness:
  "\<exists>db' rq db'' rq'. create_execution_job_for_approved_intent (\<lambda>s. 0) ''t'' (example_jobs ''approved'') ''i1'' 0 (Some ''r1'') True ''u1'' 0
       = Inr (db', rq)
     \<and> create_execution_job_for_approved_intent (\<lambda>s. 0) ''t2'' db' ''i1'' 9 (Some ''r1'') True ''u2'' 9 = Inr (db'', rq')
     \<and> er_execution_job_id rq' = er_execution_job_id rq \<and> jd_outbox db'' = jd_outbox db'"
proof -
  obtain db' rq where c: "create_execution_job_for_approved_intent (\<lambda>s. 0) ''t'' (example_jobs ''approved'') ''i1'' 0 (Some ''r1'') True
      ''u1'' 0 = Inr (db', rq)" by (rule example_created)
  from job_created_once[OF c, of "''t2''" 9 "''u2''" 9] c show ?thesis by blast
qed

definition example_waiting :: "string \<Rightarrow> instant \<Rightarrow> execution_job" where
  "example_waiting jid t = \<lparr>ej_id = jid, ej_intent_id = None, ej_account_id = ''acct'', ej_instrument_id = ''BTCUSDT'',
     ej_venue_symbol = ''BTCUSDT'', ej_action = ''open_position'', ej_status = ''pending'', ej_request_id = None,
     ej_idempotency_key = jid, ej_payload = [], ej_created_at = t, ej_updated_at = t, ej_started_at = None,
     ej_completed_at = None\<rparr>"



text \<open>
  A late event revives an intent: whatever the stored status of an intent that was once approved (rejected, cancelled,
  expired), an execution event without a mapping, such as \<open>OrderCancelled\<close>, writes it back as approved, because the type
  of the column has no label \<open>needs_review\<close> and the update does not look at the stored status.
\<close>

theorem late_event_revives_intent:
  "\<exists>db' item. persist_intent_status (example_jobs status) ''i1'' None ''OrderCancelled'' JNull [] 0 0 = Inr (db', item)
     \<and> jd_intents db' = [example_intent ''approved'']"
proof -
  have "classify_intent_outcome ''OrderCancelled'' [] = intent_update ''needs_review'' ''needs_review'' ''unmapped_event''"
    by (simp add: classify_intent_outcome_def Let_def str_or_def jget_def)
  moreover have "db_intent_status trade_intent_statuses ''needs_review'' = Some ''approved''" by code_simp
  ultimately show ?thesis
    by (simp add: persist_intent_status_def Let_def intent_update_def set_intent_status_def example_jobs_def empty_jobs_def
        example_intent_def)
qed

end
