(* ===== verification/Ownership_Ledger.thy ===== *)
theory Ownership_Ledger
  imports Client_Order_Ids "HOL-Library.Product_Lexorder" "HOL-Library.List_Lexorder" "HOL-Library.Char_ord"
begin

text \<open>
  The robot's own position (\<open>execution_domain/ownership_ledger.py\<close>): per symbol, the latest
  rebaseline marker plus the signed fills of robot orders strictly after it, so that a combined
  exchange position never decides what belongs to the robot. And the two-leg entry batch
  (\<open>execution_domain/entry_batch.py\<close>), which keeps fill evidence per order.

  The table of execution events is a list of rows; the join with the projected orders, unique per
  account and client order id, is a lookup.
\<close>

section \<open>Events\<close>

record execution_event =
  ee_event_id :: string
  ee_account_id :: account_id
  ee_client_order_id :: string
  ee_event_type :: string
  ee_ts_event :: instant
  ee_created_at :: instant
  ee_payload :: json

record projected_instrument =
  po_account_id :: account_id
  po_client_order_id :: string
  po_instrument_id :: json

record ledger_tables =
  lt_events :: "execution_event list"
  lt_orders :: "projected_instrument list"

record OwnershipBaseline =
  bl_account_id :: account_id
  bl_symbol :: symbol
  bl_quantity :: rat
  bl_event_id :: string
  bl_ts_event :: instant
  bl_created_at :: instant
  bl_reason :: string
  bl_adjudicated_by :: string
  bl_request_id :: string
  bl_exchange_quantity :: "rat option"
  bl_manual_quantity :: "rat option"
  bl_payload :: dict

record OwnershipBalance =
  bal_account_id :: account_id
  bal_symbol :: symbol
  bal_baseline_quantity :: rat
  bal_post_baseline_fill_quantity :: rat
  bal_quantity :: rat
  bal_fill_event_count :: nat
  bal_baseline :: "OwnershipBaseline option"

type_synonym cutoff_key = "instant \<times> instant \<times> string"

definition cutoff :: "OwnershipBaseline \<Rightarrow> cutoff_key" where
  "cutoff b = (bl_ts_event b, bl_created_at b, bl_event_id b)"

definition event_cutoff :: "execution_event \<Rightarrow> cutoff_key" where
  "event_cutoff e = (ee_ts_event e, ee_created_at e, ee_event_id e)"

definition canonical_symbol :: "json \<Rightarrow> symbol" where
  "canonical_symbol v = before_char CHR ''.'' (before_char CHR ''-'' (upper (strip (str_or [v] []))))"

section \<open>Fills\<close>

definition order_side_of :: "json \<Rightarrow> string option result" where
  "order_side_of v =
     (case v of
        JList _ \<Rightarrow> Inl TypeError
      | JObj _ \<Rightarrow> Inl TypeError
      | JBool True \<Rightarrow> Inr (Some ''buy'')
      | _ \<Rightarrow> Inr (let s = json_str v
                  in if s \<in> {''1'', ''BUY'', ''LONG'', ''buy'', ''long''} then Some ''buy''
                     else if s \<in> {''2'', ''SELL'', ''SHORT'', ''sell'', ''short''} then Some ''sell'' else None))"

definition first_present_field :: "dict \<Rightarrow> string list \<Rightarrow> json" where
  "first_present_field d names =
     (case List.find (\<lambda>k. jget d k \<noteq> JNull) names of Some k \<Rightarrow> jget d k | None \<Rightarrow> JNull)"

definition robot_fill_event_types :: "string list" where
  "robot_fill_event_types = [''OrderFilled'', ''OrderPartiallyFilled'']"

definition signed_fill_quantity :: "dict \<Rightarrow> string \<Rightarrow> rat result" where
  "signed_fill_quantity payload event_type =
     (if event_type \<notin> set robot_fill_event_types then Inr 0
      else case decimal_or_none (first_present_field payload [''last_qty'', ''last_fill_qty'', ''filled_qty'', ''quantity'']) of
        None \<Rightarrow> Inl OwnershipLedgerError
      | Some quantity \<Rightarrow>
          if quantity \<le> 0 then Inl OwnershipLedgerError
          else
            let side_value = first_present_field payload [''side'', ''order_side'']
            in bind_result (order_side_of side_value) (\<lambda>s1.
               bind_result (case s1 of Some s \<Rightarrow> Inr (Some s)
                            | None \<Rightarrow> order_side_of (JStr (strip (str_or [side_value] [])))) (\<lambda>side.
               case side of
                 Some s \<Rightarrow> Inr (if s = ''buy'' then quantity else - quantity)
               | None \<Rightarrow> Inl OwnershipLedgerError)))"

definition fill_symbol :: "dict \<Rightarrow> json \<Rightarrow> symbol" where
  "fill_symbol payload projection_instrument =
     (case List.find (\<lambda>k. canonical_symbol (jget payload k) \<noteq> []) [''instrument_id'', ''symbol'', ''instrument''] of
        Some k \<Rightarrow> canonical_symbol (jget payload k)
      | None \<Rightarrow> canonical_symbol projection_instrument)"

section \<open>Baselines\<close>

definition payload_decimal :: "dict \<Rightarrow> string \<Rightarrow> bool \<Rightarrow> rat option result" where
  "payload_decimal d k required =
     (if jget d k = JNull \<and> \<not> required then Inr None
      else case decimal_or_none (jget d k) of Some x \<Rightarrow> Inr (Some x) | None \<Rightarrow> Inl OwnershipLedgerError)"

definition stripped_field :: "dict \<Rightarrow> string \<Rightarrow> string" where
  "stripped_field d k = strip (str_or [jget d k] [])"

definition rebaseline_schema :: string where
  "rebaseline_schema = ''ownership-rebaseline/v1''"

definition parse_baseline :: "account_id \<Rightarrow> string \<Rightarrow> instant \<Rightarrow> instant \<Rightarrow> json \<Rightarrow> OwnershipBaseline result" where
  "parse_baseline account_id event_id ts_event created_at raw' =
     (case raw' of
        JObj d \<Rightarrow>
          if jget d ''ownership_schema_version'' \<noteq> JStr rebaseline_schema then Inl OwnershipLedgerError
          else
            let sym' = canonical_symbol (jor (jget d ''symbol'') (jget d ''instrument_id''));
                reason = stripped_field d ''reason''; by' = stripped_field d ''adjudicated_by'';
                rid = stripped_field d ''request_id''
            in if sym' = [] \<or> reason = [] \<or> by' = [] \<or> rid = [] then Inl OwnershipLedgerError
               else
                 bind_result (payload_decimal d ''baseline_quantity'' True) (\<lambda>q.
                 bind_result (payload_decimal d ''exchange_quantity_at_baseline'' False) (\<lambda>x.
                 bind_result (payload_decimal d ''manual_quantity_at_baseline'' False) (\<lambda>m.
                 if x \<noteq> None \<and> m \<noteq> None \<and> dadd (the q) (the m) \<noteq> the x then Inl OwnershipLedgerError
                 else Inr \<lparr>bl_account_id = account_id, bl_symbol = sym', bl_quantity = the q, bl_event_id = event_id,
                        bl_ts_event = ts_event, bl_created_at = created_at, bl_reason = reason,
                        bl_adjudicated_by = by', bl_request_id = rid, bl_exchange_quantity = x,
                        bl_manual_quantity = m, bl_payload = d\<rparr>)))
      | _ \<Rightarrow> Inl OwnershipLedgerError)"

fun collect_baselines :: "account_id \<Rightarrow> (symbol \<times> OwnershipBaseline) list \<Rightarrow> execution_event list
    \<Rightarrow> (symbol \<times> OwnershipBaseline) list result" where
  "collect_baselines a acc [] = Inr acc"
| "collect_baselines a acc (e # es) =
     bind_result (parse_baseline a (ee_event_id e) (ee_ts_event e) (ee_created_at e) (ee_payload e)) (\<lambda>b.
     collect_baselines a (if bl_symbol b \<in> fst ` set acc then acc else acc @ [(bl_symbol b, b)]) es)"

definition load_latest_ownership_baselines :: "execution_event list \<Rightarrow> account_id \<Rightarrow> (symbol \<times> OwnershipBaseline) list result" where
  "load_latest_ownership_baselines events a =
     collect_baselines a [] (rev (sort_key event_cutoff
       (filter (\<lambda>e. ee_account_id e = a \<and> ee_event_type e = ''OwnershipRebaseline'') events)))"

definition build_rebaseline_payload :: "string \<Rightarrow> rat \<Rightarrow> string \<Rightarrow> string \<Rightarrow> string \<Rightarrow> rat \<Rightarrow> rat \<Rightarrow> rat \<Rightarrow> rat \<Rightarrow> dict result" where
  "build_rebaseline_payload sym' baseline reason by' rid exchange manual previous raw_fill =
     (let target = canonical_symbol (JStr sym')
      in if target = [] \<or> strip reason = [] \<or> strip by' = [] \<or> strip rid = [] then Inl OwnershipLedgerError
         else if dadd baseline manual \<noteq> exchange then Inl OwnershipLedgerError
         else Inr [(''ownership_schema_version'', JStr rebaseline_schema), (''symbol'', JStr target),
                   (''instrument_id'', JStr (target @ ''-PERP.BINANCE'')), (''baseline_quantity'', JDec baseline),
                   (''exchange_quantity_at_baseline'', JDec exchange), (''manual_quantity_at_baseline'', JDec manual),
                   (''previous_robot_owned_quantity'', JDec previous), (''raw_robot_fill_quantity'', JDec raw_fill),
                   (''reason'', JStr (strip reason)), (''adjudicated_by'', JStr (strip by')),
                   (''request_id'', JStr (strip rid)),
                   (''cutoff_semantics'', JStr ''fills strictly after marker (ts_event,created_at,event_id)'')])"

section \<open>Balances\<close>

definition fill_events :: "execution_event list \<Rightarrow> account_id \<Rightarrow> execution_event list" where
  "fill_events events a =
     sort_key event_cutoff (filter (\<lambda>e. ee_account_id e = a \<and> robot_pattern (ee_client_order_id e)
       \<and> ee_event_type e \<in> set robot_fill_event_types) events)"

definition instrument_of :: "projected_instrument list \<Rightarrow> execution_event \<Rightarrow> json" where
  "instrument_of orders e =
     (case List.find (\<lambda>r. po_account_id r = ee_account_id e \<and> po_client_order_id r = ee_client_order_id e) orders of
        Some r \<Rightarrow> po_instrument_id r | None \<Rightarrow> JNull)"

definition add_fill :: "symbol \<Rightarrow> rat \<Rightarrow> (symbol \<times> rat \<times> nat) list \<Rightarrow> (symbol \<times> rat \<times> nat) list" where
  "add_fill s q acc =
     (let (tot, n) = (case map_of acc s of Some x \<Rightarrow> x | None \<Rightarrow> (0, 0))
      in AList.update s (dadd tot q, Suc n) acc)"

fun collect_fills :: "projected_instrument list \<Rightarrow> (symbol \<times> OwnershipBaseline) list \<Rightarrow> (symbol \<times> rat \<times> nat) list
    \<Rightarrow> execution_event list \<Rightarrow> (symbol \<times> rat \<times> nat) list result" where
  "collect_fills orders baselines acc [] = Inr acc"
| "collect_fills orders baselines acc (e # es) =
     (if \<not> is_robot_client_order_id (ee_client_order_id e) then collect_fills orders baselines acc es
      else case ee_payload e of
        JObj d \<Rightarrow>
          (let s = fill_symbol d (instrument_of orders e)
           in if s = [] then collect_fills orders baselines acc es
              else if (case map_of baselines s of Some b \<Rightarrow> event_cutoff e \<le> cutoff b | None \<Rightarrow> False)
              then collect_fills orders baselines acc es
              else bind_result (signed_fill_quantity d (ee_event_type e)) (\<lambda>q.
                   collect_fills orders baselines (add_fill s q acc) es))
      | _ \<Rightarrow> Inl OwnershipLedgerError)"

definition balance_of :: "account_id \<Rightarrow> (symbol \<times> OwnershipBaseline) list \<Rightarrow> (symbol \<times> rat \<times> nat) list \<Rightarrow> symbol \<Rightarrow> OwnershipBalance" where
  "balance_of a baselines fills s =
     (let b = map_of baselines s; bq = (case b of Some x \<Rightarrow> bl_quantity x | None \<Rightarrow> 0);
          (fq, n) = (case map_of fills s of Some x \<Rightarrow> x | None \<Rightarrow> (0, 0))
      in \<lparr>bal_account_id = a, bal_symbol = s, bal_baseline_quantity = bq, bal_post_baseline_fill_quantity = fq,
          bal_quantity = dadd bq fq, bal_fill_event_count = n, bal_baseline = b\<rparr>)"

definition load_robot_owned_balances :: "ledger_tables \<Rightarrow> account_id \<Rightarrow> bool \<Rightarrow> OwnershipBalance list result" where
  "load_robot_owned_balances db a apply_rebaseline =
     bind_result (if apply_rebaseline then load_latest_ownership_baselines (lt_events db) a else Inr []) (\<lambda>baselines.
     bind_result (collect_fills (lt_orders db) baselines [] (fill_events (lt_events db) a)) (\<lambda>fills.
     Inr (map (balance_of a baselines fills) (sort (remdups (map fst baselines @ map fst fills))))))"

definition load_robot_owned_balance :: "ledger_tables \<Rightarrow> account_id \<Rightarrow> string \<Rightarrow> bool \<Rightarrow> OwnershipBalance result" where
  "load_robot_owned_balance db a sym' apply_rebaseline =
     (let target = canonical_symbol (JStr sym')
      in if target = [] then Inl OwnershipLedgerError
         else bind_result (load_robot_owned_balances db a apply_rebaseline) (\<lambda>bs.
              Inr (case List.find (\<lambda>b. bal_symbol b = target) bs of
                Some b \<Rightarrow> b
              | None \<Rightarrow> \<lparr>bal_account_id = a, bal_symbol = target, bal_baseline_quantity = 0, bal_post_baseline_fill_quantity = 0,
                         bal_quantity = 0, bal_fill_event_count = 0, bal_baseline = None\<rparr>)))"

fun first_flat :: "ledger_tables \<Rightarrow> account_id \<Rightarrow> symbol list \<Rightarrow> symbol result" where
  "first_flat db a [] = Inl OwnershipLedgerError"
| "first_flat db a (s # ss) =
     bind_result (load_robot_owned_balance db a s True) (\<lambda>b. if bal_quantity b = 0 then Inr s else first_flat db a ss)"

fun normalized_candidates :: "symbol list \<Rightarrow> string list \<Rightarrow> symbol list" where
  "normalized_candidates acc [] = acc"
| "normalized_candidates acc (c # cs) =
     (let s = canonical_symbol (JStr c)
      in normalized_candidates (if s \<noteq> [] \<and> s \<notin> set acc then acc @ [s] else acc) cs)"

definition select_flat_ownership_anchor :: "ledger_tables \<Rightarrow> account_id \<Rightarrow> string list \<Rightarrow> symbol result" where
  "select_flat_ownership_anchor db a candidates =
     (let ns = normalized_candidates [] candidates in if ns = [] then Inl OwnershipLedgerError else first_flat db a ns)"

section \<open>Entry batches\<close>

definition positive :: "json \<Rightarrow> rat result" where
  "positive v = (case decimal_or_none v of Some x \<Rightarrow> if x \<le> 0 then Inl ValueError else Inr x | None \<Rightarrow> Inl ValueError)"

definition batch_reference_price :: "json \<Rightarrow> json \<Rightarrow> json \<Rightarrow> string \<Rightarrow> rat result" where
  "batch_reference_price first second stop side =
     bind_result (positive first) (\<lambda>f. bind_result (positive second) (\<lambda>s. bind_result (positive stop) (\<lambda>p.
       if side \<notin> {''long'', ''short''} then Inl ValueError
       else if side = ''long'' \<and> p \<ge> min f s then Inl ValueError
       else if side = ''short'' \<and> p \<le> max f s then Inl ValueError
       else Inr (ddiv 2 (dadd (ddiv 1 f) (ddiv 1 s))))))"

record tranche =
  tc_seq :: nat
  tc_tranche_id :: string
  tc_type :: string
  tc_quantity :: rat
  tc_sizing_price :: rat
  tc_price :: rat

definition build_tranche :: "string \<Rightarrow> rat \<Rightarrow> nat \<Rightarrow> rat \<Rightarrow> tranche result" where
  "build_tranche first_type per_leg i price =
     (case quantize round_down (-12) (ddiv per_leg price) of
        None \<Rightarrow> Inl InvalidOperation
      | Some quantity \<Rightarrow>
          if quantity \<le> 0 then Inl ValueError
          else Inr \<lparr>tc_seq = Suc i, tc_tranche_id = ''e'' @ show_nat (Suc i),
                 tc_type = (if i = 0 then first_type else ''limit''), tc_quantity = quantity,
                 tc_sizing_price = price, tc_price = flt price\<rparr>)"

record entry_batch =
  eb_tranches :: "tranche list"
  eb_estimated_stop_risk :: rat

definition build_entry_batch :: "string \<Rightarrow> json \<Rightarrow> json \<Rightarrow> json \<Rightarrow> json \<Rightarrow> entry_batch result" where
  "build_entry_batch first_type first second total_notional stop =
     (if first_type \<notin> {''market'', ''limit''} then Inl ValueError
      else bind_result (positive first) (\<lambda>f. bind_result (positive second) (\<lambda>s.
           bind_result (positive total_notional) (\<lambda>n.
             let per_leg = ddiv n 2
             in bind_result (build_tranche first_type per_leg 0 f) (\<lambda>t1.
                bind_result (build_tranche first_type per_leg 1 s) (\<lambda>t2.
                bind_result (positive stop) (\<lambda>p.
                Inr \<lparr>eb_tranches = [t1, t2],
                     eb_estimated_stop_risk = dsum (map (\<lambda>t. dmul (tc_quantity t) (dabs (dsub (tc_sizing_price t) p))) [t1, t2])\<rparr>)))))))"

record batch_row =
  br_role :: string
  br_trades :: "(string \<times> rat) list"
  br_filled :: rat

type_synonym batch_state = "(string \<times> batch_row) list"

text \<open>
  The state is a mutable dict: the row inserted for a new order stays when a later check raises. A
  missing cumulative quantity is the sentinel \<open>False\<close>.
\<close>

definition batch_total :: "batch_row \<Rightarrow> (string \<times> rat) list \<Rightarrow> rat" where
  "batch_total row trades = max (dsum (map snd trades)) (br_filled row)"

definition record_row :: "batch_row \<Rightarrow> json \<Rightarrow> json \<Rightarrow> json \<Rightarrow> batch_row \<times> unit result" where
  "record_row row last_quantity trade_id cumulative =
     (case (if truthy trade_id
            then bind_result (positive last_quantity) (\<lambda>q.
                 let tid = json_str trade_id
                 in if map_of (br_trades row) tid \<noteq> None \<and> map_of (br_trades row) tid \<noteq> Some q then Inl ValueError
                    else Inr (AList.update tid q (br_trades row)))
            else Inr (br_trades row)) of
        Inl e \<Rightarrow> (row, Inl e)
      | Inr trades \<Rightarrow>
          (let row' = row \<lparr>br_trades := trades\<rparr>; tot = batch_total row trades
           in if cumulative = JBool False then (row' \<lparr>br_filled := tot\<rparr>, Inr ())
              else case positive cumulative of
                Inl e \<Rightarrow> (row', Inl e)
              | Inr c \<Rightarrow> (row' \<lparr>br_filled := max tot c\<rparr>, Inr ())))"

definition record_fill :: "batch_state \<Rightarrow> string \<Rightarrow> string \<Rightarrow> json \<Rightarrow> json \<Rightarrow> json \<Rightarrow> batch_state \<times> unit result" where
  "record_fill st cid role last_quantity trade_id cumulative =
     (if role \<notin> {''entry'', ''exit''} then (st, Inl ValueError)
      else if \<not> truthy trade_id \<and> cumulative = JBool False then (st, Inl ValueError)
      else
        let row = (case map_of st cid of Some r \<Rightarrow> r | None \<Rightarrow> \<lparr>br_role = role, br_trades = [], br_filled = 0\<rparr>);
            st1 = (if map_of st cid = None then st @ [(cid, row)] else st)
        in if br_role row \<noteq> role then (st1, Inl ValueError)
           else case record_row row last_quantity trade_id cumulative of
             (row', r) \<Rightarrow> (AList.update cid row' st1, r))"

fun owned_sum :: "rat \<Rightarrow> batch_state \<Rightarrow> rat" where
  "owned_sum q [] = q"
| "owned_sum q ((_, row) # rest) =
     owned_sum (if br_role row = ''entry'' then dadd q (br_filled row) else dsub q (br_filled row)) rest"

definition owned_quantity :: "batch_state \<Rightarrow> rat" where
  "owned_quantity st = max (owned_sum 0 st) 0"

section \<open>The ledger as a specification\<close>

text \<open>What an event says, read on its own: its symbol, whether it lies after a baseline, and its signed quantity.\<close>

definition event_symbol :: "projected_instrument list \<Rightarrow> execution_event \<Rightarrow> symbol" where
  "event_symbol orders e = (case ee_payload e of JObj d \<Rightarrow> fill_symbol d (instrument_of orders e) | _ \<Rightarrow> [])"

definition event_delta :: "execution_event \<Rightarrow> rat" where
  "event_delta e = (case ee_payload e of
     JObj d \<Rightarrow> (case signed_fill_quantity d (ee_event_type e) of Inr q \<Rightarrow> q | Inl _ \<Rightarrow> 0) | _ \<Rightarrow> 0)"

definition counts_for :: "projected_instrument list \<Rightarrow> OwnershipBaseline option \<Rightarrow> symbol \<Rightarrow> execution_event \<Rightarrow> bool" where
  "counts_for orders b s e =
     (is_robot_client_order_id (ee_client_order_id e) \<and> event_symbol orders e = s
      \<and> (case b of Some x \<Rightarrow> cutoff x < event_cutoff e | None \<Rightarrow> True))"

lemma map_of_add_fill:
  "map_of (add_fill s q acc) t =
     (if t = s then Some (case map_of acc s of Some (tot, n) \<Rightarrow> (dadd tot q, Suc n) | None \<Rightarrow> (dadd 0 q, 1)) else map_of acc t)"
  by (auto simp: add_fill_def update_conv' Let_def split: option.splits prod.splits)

lemma collect_fills_spec:
  assumes "collect_fills orders baselines acc es = Inr fills" "s \<noteq> []"
  shows "map_of fills s =
     (let rel = filter (counts_for orders (map_of baselines s) s) es
      in if rel = [] then map_of acc s
         else case map_of acc s of
           Some (tot, n) \<Rightarrow> Some (dsum_from tot (map event_delta rel), n + length rel)
         | None \<Rightarrow> Some (dsum_from 0 (map event_delta rel), length rel))"
  using assms(1)
proof (induction es arbitrary: acc)
  case (Cons e es)
  show ?case
  proof (cases "is_robot_client_order_id (ee_client_order_id e) \<and> event_symbol orders e \<noteq> []
      \<and> \<not> (case map_of baselines (event_symbol orders e) of Some b \<Rightarrow> event_cutoff e \<le> cutoff b | None \<Rightarrow> False)")
    case False
    then have skip: "collect_fills orders baselines acc es = Inr fills"
      using Cons.prems by (auto simp: event_symbol_def Let_def split: if_splits json.splits)
    have "\<not> counts_for orders (map_of baselines s) s e"
      using False assms(2) by (auto simp: counts_for_def split: option.splits)
    with Cons.IH[OF skip] show ?thesis by simp
  next
    case True
    then obtain d q where d: "ee_payload e = JObj d" and q: "signed_fill_quantity d (ee_event_type e) = Inr q"
      and rest: "collect_fills orders baselines (add_fill (event_symbol orders e) q acc) es = Inr fills"
      using Cons.prems by (auto simp: event_symbol_def Let_def bind_result_Inr_iff split: if_splits json.splits)
    have delta: "event_delta e = q" by (simp add: event_delta_def d q)
    have "counts_for orders (map_of baselines s) s e \<longleftrightarrow> event_symbol orders e = s"
      using True by (auto simp: counts_for_def not_le split: option.splits)
    then show ?thesis
      using Cons.IH[OF rest]
      by (auto simp: map_of_add_fill delta Let_def split: option.splits)
  qed
qed (simp add: Let_def)

lemma collect_baselines_spec:
  assumes "collect_baselines a acc es = Inr bl"
  shows "map_of bl s = (case map_of acc s of Some b \<Rightarrow> Some b
     | None \<Rightarrow> List.find (\<lambda>b. bl_symbol b = s)
         (map (\<lambda>e. projr (parse_baseline a (ee_event_id e) (ee_ts_event e) (ee_created_at e) (ee_payload e))) es))"
  using assms
proof (induction es arbitrary: acc)
  case (Cons e es)
  then obtain b where b: "parse_baseline a (ee_event_id e) (ee_ts_event e) (ee_created_at e) (ee_payload e) = Inr b"
    and rest: "collect_baselines a (if bl_symbol b \<in> fst ` set acc then acc else acc @ [(bl_symbol b, b)]) es = Inr bl"
    by (auto simp: bind_result_Inr_iff)
  have "map_of acc (bl_symbol b) = None \<longleftrightarrow> bl_symbol b \<notin> fst ` set acc" by (rule map_of_eq_None_iff)
  with Cons.IH[OF rest] b show ?case by (auto simp: map_add_def split: option.splits if_splits)
qed (simp split: option.splits)

definition marker :: "account_id \<Rightarrow> execution_event \<Rightarrow> OwnershipBaseline" where
  "marker a e = projr (parse_baseline a (ee_event_id e) (ee_ts_event e) (ee_created_at e) (ee_payload e))"

definition is_marker :: "account_id \<Rightarrow> execution_event \<Rightarrow> bool" where
  "is_marker a e = (ee_account_id e = a \<and> ee_event_type e = ''OwnershipRebaseline'')"

lemma parse_baseline_cutoff:
  "parse_baseline a i t c p = Inr b \<Longrightarrow> cutoff b = (t, c, i)"
  by (auto simp: parse_baseline_def cutoff_def Let_def bind_result_Inr_iff split: json.splits if_splits)

lemma collect_baselines_parsed:
  "collect_baselines a acc es = Inr bl \<Longrightarrow> e \<in> set es \<Longrightarrow> cutoff (marker a e) = event_cutoff e"
proof (induction es arbitrary: acc)
  case (Cons x es)
  then show ?case
    by (auto simp: bind_result_Inr_iff marker_def event_cutoff_def dest: parse_baseline_cutoff)
qed simp

lemma find_rev_sorted:
  assumes "List.find P (map f (rev (sort_key k xs))) = r"
  shows "(case r of None \<Rightarrow> \<forall>e \<in> set xs. \<not> P (f e)
    | Some y \<Rightarrow> \<exists>e \<in> set xs. y = f e \<and> P y \<and> (\<forall>e' \<in> set xs. P (f e') \<longrightarrow> k e' \<le> k e))"
proof (cases r)
  case None
  then show ?thesis using assms by (auto simp: find_None_iff')
next
  case (Some y)
  then obtain e where e: "List.find (\<lambda>e. P (f e)) (rev (sort_key k xs)) = Some e" and y: "y = f e"
    using assms by (auto simp: find_map')
  from find_split[OF e] obtain ys zs where split: "rev (sort_key k xs) = ys @ e # zs" "P (f e)" "\<forall>x \<in> set ys. \<not> P (f x)"
    by blast
  have "sort_key k xs = rev zs @ e # rev ys" using arg_cong[OF split(1), of rev] by simp
  then have "sorted (map k (rev zs @ e # rev ys))" by (metis sorted_sort_key)
  then have le: "\<forall>x \<in> set zs. k x \<le> k e" by (auto simp: sorted_append)
  have mem: "set xs = set ys \<union> {e} \<union> set zs" using arg_cong[OF split(1), of set] by simp
  show ?thesis using Some y split le mem by auto
qed

lemma latest_baseline:
  assumes "load_latest_ownership_baselines events a = Inr bl"
  shows "case map_of bl s of
      None \<Rightarrow> \<forall>e \<in> set events. is_marker a e \<longrightarrow> bl_symbol (marker a e) \<noteq> s
    | Some b \<Rightarrow> \<exists>e \<in> set events. is_marker a e \<and> b = marker a e \<and> bl_symbol b = s \<and> cutoff b = event_cutoff e
        \<and> (\<forall>e' \<in> set events. is_marker a e' \<longrightarrow> bl_symbol (marker a e') = s \<longrightarrow> event_cutoff e' \<le> event_cutoff e)"
proof -
  let ?ms = "filter (is_marker a) events"
  have c: "collect_baselines a [] (rev (sort_key event_cutoff ?ms)) = Inr bl"
    using assms by (simp add: load_latest_ownership_baselines_def is_marker_def[abs_def])
  have "map_of bl s = List.find (\<lambda>b. bl_symbol b = s) (map (marker a) (rev (sort_key event_cutoff ?ms)))"
    using collect_baselines_spec[OF c, of s] by (simp add: marker_def[abs_def])
  from find_rev_sorted[OF this[symmetric]] show ?thesis
    using collect_baselines_parsed[OF c] by (auto split: option.splits)
qed

lemma find_balance:
  assumes "distinct ss"
  shows "List.find (\<lambda>b. bal_symbol b = s) (map (balance_of a bl fills) ss) = (if s \<in> set ss then Some (balance_of a bl fills s) else None)"
proof -
  have "bal_symbol (balance_of a bl fills t) = t" for t by (simp add: balance_of_def Let_def split: option.splits prod.splits)
  then show ?thesis by (induction ss) auto
qed

text \<open>
  C18. The balance of a symbol is the ledger: the quantity of the latest rebaseline marker of that account and symbol, zero
  without one, plus the Decimal sum of the signed fills of robot orders for that symbol strictly after the marker, in
  the order of their times; nothing else enters it, and the reported count is the number of those fills.
\<close>

theorem owned_balance_is_ledger:
  assumes "load_robot_owned_balance db a name True = Inr b"
  shows "\<exists>base. bal_baseline b = base
    \<and> (case base of
         None \<Rightarrow> \<forall>e \<in> set (lt_events db). is_marker a e \<longrightarrow> bl_symbol (marker a e) \<noteq> canonical_symbol (JStr name)
       | Some x \<Rightarrow> \<exists>e \<in> set (lt_events db). is_marker a e \<and> x = marker a e \<and> bl_symbol x = canonical_symbol (JStr name)
           \<and> cutoff x = event_cutoff e
           \<and> (\<forall>e' \<in> set (lt_events db). is_marker a e' \<longrightarrow> bl_symbol (marker a e') = canonical_symbol (JStr name)
                \<longrightarrow> event_cutoff e' \<le> event_cutoff e))
    \<and> (let fills = filter (counts_for (lt_orders db) base (canonical_symbol (JStr name))) (fill_events (lt_events db) a)
       in bal_quantity b = dadd (case base of Some x \<Rightarrow> bl_quantity x | None \<Rightarrow> 0) (dsum (map event_delta fills))
          \<and> bal_fill_event_count b = length fills)"
proof -
  let ?s = "canonical_symbol (JStr name)"
  obtain bl fills where s: "?s \<noteq> []" and bl: "load_latest_ownership_baselines (lt_events db) a = Inr bl"
    and fills: "collect_fills (lt_orders db) bl [] (fill_events (lt_events db) a) = Inr fills"
    and b: "b = (case List.find (\<lambda>b. bal_symbol b = ?s)
        (map (balance_of a bl fills) (sort (remdups (map fst bl @ map fst fills)))) of Some b \<Rightarrow> b
      | None \<Rightarrow> \<lparr>bal_account_id = a, bal_symbol = ?s, bal_baseline_quantity = 0, bal_post_baseline_fill_quantity = 0,
          bal_quantity = 0, bal_fill_event_count = 0, bal_baseline = None\<rparr>)"
    using assms by (auto simp: load_robot_owned_balance_def load_robot_owned_balances_def Let_def bind_result_Inr_iff
        split: if_splits)
  have "b = balance_of a bl fills ?s"
    unfolding b
    by (subst find_balance) (auto simp: balance_of_def dadd_def dest!: map_of_eq_None_iff[THEN iffD2] split: option.splits)
  moreover note latest_baseline[OF bl, of ?s] collect_fills_spec[OF fills s]
  ultimately show ?thesis
    by (intro exI[of _ "map_of bl ?s"]) (auto simp: balance_of_def Let_def dsum_def split: option.splits if_splits)
qed

section \<open>Rebaselining round trip\<close>

lemma strip_nonempty: "c \<in> set s \<Longrightarrow> \<not> is_space c \<Longrightarrow> strip s \<noteq> []"
  by (auto simp: strip_def lstrip_def) (metis in_set_conv_decomp set_dropWhileD dropWhile_append3 dropWhile_eq_Nil_conv set_rev)

lemma canonical_symbol_again:
  assumes "canonical_symbol (JStr s) \<noteq> []"
  shows "canonical_symbol (JStr (canonical_symbol (JStr s))) \<noteq> []"
proof -
  have c: "canonical_symbol (JStr r) = takeWhile (\<lambda>x. x \<noteq> CHR ''.'') (takeWhile (\<lambda>x. x \<noteq> CHR ''-'') (upper (strip r)))" for r
    by (simp add: canonical_symbol_def before_char_def str_or_def)
  define t where "t = canonical_symbol (JStr s)"
  obtain x xs where u: "upper (strip s) = x # xs" and x: "x \<noteq> CHR ''-''" "x \<noteq> CHR ''.''"
    using assms unfolding c by (cases "upper (strip s)") (auto split: if_splits)
  have t: "t = x # takeWhile (\<lambda>x. x \<noteq> CHR ''.'') (takeWhile (\<lambda>x. x \<noteq> CHR ''-'') xs)" by (simp add: t_def c u x)
  have "strip s \<noteq> []" using u by (auto simp: upper_def)
  moreover have "x = upper_char (hd (strip s))" using u by (cases "strip s") (auto simp: upper_def)
  ultimately have sp: "\<not> is_space x" and up: "upper_char x = x" using strip_ends(1) by auto
  obtain ys where "strip t = x # ys"
  proof -
    have "lstrip t = t" using t sp by (simp add: lstrip_Cons)
    moreover have "strip t \<noteq> []" using t sp strip_nonempty[of x t] by simp
    moreover obtain q where "lstrip t = strip t @ q" using strip_prefix_lstrip by blast
    ultimately show thesis using that t by (cases "strip t") auto
  qed
  then have "upper (strip t) = x # upper ys" by (simp add: upper_def up)
  then show ?thesis unfolding t_def[symmetric] c[of t] using x by simp
qed

text \<open>
  A rebaseline payload reads back as what was written: whenever \<open>build_rebaseline_payload\<close> accepts its arguments,
  \<open>_parse_baseline\<close> accepts the payload and returns the same quantities and the stripped reason, adjudicator and
  request id.
\<close>

theorem rebaseline_roundtrip:
  assumes "build_rebaseline_payload name q reason by' rid x m prev raw' = Inr d"
  shows "\<exists>b. parse_baseline a i t c (JObj d) = Inr b \<and> bl_quantity b = q \<and> bl_exchange_quantity b = Some x
    \<and> bl_manual_quantity b = Some m \<and> bl_reason b = strip reason \<and> bl_adjudicated_by b = strip by'
    \<and> bl_request_id b = strip rid \<and> bl_symbol b = canonical_symbol (JStr (canonical_symbol (JStr name)))
    \<and> cutoff b = (t, c, i)"
proof -
  let ?t = "canonical_symbol (JStr name)"
  have ne: "?t \<noteq> []" "strip reason \<noteq> []" "strip by' \<noteq> []" "strip rid \<noteq> []" "dadd q m = x"
    and d: "d = [(''ownership_schema_version'', JStr rebaseline_schema), (''symbol'', JStr ?t),
        (''instrument_id'', JStr (?t @ ''-PERP.BINANCE'')), (''baseline_quantity'', JDec q),
        (''exchange_quantity_at_baseline'', JDec x), (''manual_quantity_at_baseline'', JDec m),
        (''previous_robot_owned_quantity'', JDec prev), (''raw_robot_fill_quantity'', JDec raw'),
        (''reason'', JStr (strip reason)), (''adjudicated_by'', JStr (strip by')), (''request_id'', JStr (strip rid)),
        (''cutoff_semantics'', JStr ''fills strictly after marker (ts_event,created_at,event_id)'')]"
    using assms by (auto simp: build_rebaseline_payload_def Let_def split: if_splits)
  have g: "jget d ''ownership_schema_version'' = JStr rebaseline_schema" "jget d ''symbol'' = JStr ?t"
    "jget d ''baseline_quantity'' = JDec q" "jget d ''exchange_quantity_at_baseline'' = JDec x"
    "jget d ''manual_quantity_at_baseline'' = JDec m" "jget d ''reason'' = JStr (strip reason)"
    "jget d ''adjudicated_by'' = JStr (strip by')" "jget d ''request_id'' = JStr (strip rid)"
    unfolding d by (simp_all add: jget_def)
  have f: "stripped_field d ''reason'' = strip reason" "stripped_field d ''adjudicated_by'' = strip by'"
    "stripped_field d ''request_id'' = strip rid"
    using ne by (simp_all add: stripped_field_def g str_or_def)
  show ?thesis
    unfolding parse_baseline_def json.case Let_def f g
    using ne canonical_symbol_again[OF ne(1)] by (simp add: payload_decimal_def g jor_def cutoff_def)
qed

section \<open>Entry batches\<close>

lemma build_tranche_bound:
  assumes "build_tranche ty per_leg i price = Inr t" "0 < price" "0 \<le> per_leg"
  shows "0 < tc_quantity t" "tc_sizing_price t = price" "tc_quantity t * price \<le> (1 + dec_eps) * per_leg"
proof -
  obtain q where q: "quantize round_down (-12) (ddiv per_leg price) = Some q" "0 < q" "t = \<lparr>tc_seq = Suc i,
      tc_tranche_id = ''e'' @ show_nat (Suc i), tc_type = (if i = 0 then ty else ''limit''), tc_quantity = q,
      tc_sizing_price = price, tc_price = flt price\<rparr>"
    using assms(1) by (auto simp: build_tranche_def not_le split: option.splits if_splits)
  have n: "0 \<le> ddiv per_leg price" unfolding ddiv_def using assms(2,3) by (simp add: dec.rnd_nonneg)
  have "q = of_int (round_down (ddiv per_leg price / 10 powi (-12))) * 10 powi (-12)"
    using q(1) by (auto simp: quantize_def Let_def split: if_splits)
  also have "\<dots> \<le> ddiv per_leg price / 10 powi (-12) * 10 powi (-12)"
    using n by (intro mult_right_mono round_down_le) simp_all
  finally have "q \<le> ddiv per_leg price" by (simp add: power_int_minus)
  also have "\<dots> \<le> (1 + dec_eps) * (per_leg / price)"
    unfolding ddiv_def using assms(2,3) by (intro dec.rnd_upper) simp
  finally have "q * price \<le> (1 + dec_eps) * (per_leg / price) * price" using assms(2) by (intro mult_right_mono) simp_all
  then show "tc_quantity t * price \<le> (1 + dec_eps) * per_leg" using q(3) assms(2) by simp
  show "0 < tc_quantity t" "tc_sizing_price t = price" using q by simp_all
qed

text \<open>
  A two-leg entry batch stays within its total: both legs have a positive quantity, each is worth at most half of the total
  notional at its sizing price and both together at most the total, up to the rounding of two Decimal divisions; the
  second leg is a limit order.
\<close>

theorem entry_batch_within_notional:
  assumes "build_entry_batch ty f s (JDec n) p = Inr eb"
  shows "\<exists>t1 t2. eb_tranches eb = [t1, t2] \<and> 0 < tc_quantity t1 \<and> 0 < tc_quantity t2 \<and> tc_type t1 = ty \<and> tc_type t2 = ''limit''
    \<and> tc_quantity t1 * tc_sizing_price t1 \<le> (1 + dec_eps)\<^sup>2 * (n / 2)
    \<and> tc_quantity t1 * tc_sizing_price t1 + tc_quantity t2 * tc_sizing_price t2 \<le> (1 + dec_eps)\<^sup>2 * n"
proof -
  obtain x y t1 t2 where x: "0 < x" "0 < y" "0 < n"
    and t: "build_tranche ty (ddiv n 2) 0 x = Inr t1" "build_tranche ty (ddiv n 2) 1 y = Inr t2" "eb_tranches eb = [t1, t2]"
    using assms by (auto simp: build_entry_batch_def bind_result_Inr_iff Let_def positive_def not_le split: if_splits option.splits)
  have "0 \<le> ddiv n 2" "ddiv n 2 \<le> (1 + dec_eps) * (n / 2)"
    unfolding ddiv_def using x by (auto intro!: dec.rnd_nonneg dec.rnd_upper simp del: times_divide_eq_right)
  note b = build_tranche_bound[OF t(1) x(1) this(1)] build_tranche_bound[OF t(2) x(2) this(1)] this
  have "(1 + dec_eps) * ddiv n 2 \<le> (1 + dec_eps) * ((1 + dec_eps) * (n / 2))"
    using b(8) by (intro mult_left_mono) (simp_all add: dec_eps_def)
  then have "tc_quantity t1 * x \<le> (1 + dec_eps)\<^sup>2 * (n / 2)" "tc_quantity t2 * y \<le> (1 + dec_eps)\<^sup>2 * (n / 2)"
    using b(3,6) by (simp_all add: power2_eq_square mult.assoc)
  moreover have "tc_type t1 = ty" "tc_type t2 = ''limit''"
    using t(1,2) by (auto simp: build_tranche_def split: option.splits if_splits)
  ultimately show ?thesis using t(3) b by (intro exI[of _ t1] exI[of _ t2]) (auto simp: field_simps)
qed

lemma record_row_Inr:
  assumes "record_row row q tid cum = (row', Inr ())"
  shows "br_role row' = br_role row" "br_filled row \<le> br_filled row'" "record_row row' q tid cum = (row', Inr ())"
proof -
  have role: "br_role row' = br_role row"
    using assms by (auto simp: record_row_def Let_def split: sum.splits if_splits)
  have le: "br_filled row \<le> br_filled row'"
    using assms by (auto simp: record_row_def Let_def batch_total_def split: sum.splits if_splits)
  have again: "record_row row' q tid cum = (row', Inr ())"
  proof (cases "truthy tid")
    case True
    then obtain p where p: "positive q = Inr p"
      and old: "map_of (br_trades row) (json_str tid) = None \<or> map_of (br_trades row) (json_str tid) = Some p"
      using assms by (auto simp: record_row_def Let_def bind_result_def split: sum.splits if_splits)
    with True assms show ?thesis
      by (cases cum) (auto simp: record_row_def Let_def batch_total_def update_conv' split: sum.splits if_splits)
  next
    case False
    with assms show ?thesis
      by (cases cum) (auto simp: record_row_def Let_def batch_total_def split: sum.splits if_splits)
  qed
  show "br_role row' = br_role row" "br_filled row \<le> br_filled row'" "record_row row' q tid cum = (row', Inr ())"
    by (fact role, fact le, fact again)
qed

text \<open>
  Fill evidence is counted once and never shrinks: recording the same fill again leaves the batch as it is, no order's
  filled quantity decreases or changes its role, and the rows of other orders are untouched.
\<close>

theorem batch_fill_counted_once:
  assumes "record_fill st cid role q tid cum = (st', Inr ())"
  shows "record_fill st' cid role q tid cum = (st', Inr ())
    \<and> (\<forall>c. c \<noteq> cid \<longrightarrow> map_of st' c = map_of st c)
    \<and> (\<forall>r. map_of st cid = Some r \<longrightarrow>
         (\<exists>r'. map_of st' cid = Some r' \<and> br_filled r \<le> br_filled r' \<and> br_role r' = br_role r))"
proof -
  define row where "row = (case map_of st cid of Some r \<Rightarrow> r | None \<Rightarrow> \<lparr>br_role = role, br_trades = [], br_filled = 0\<rparr>)"
  obtain row' where r: "record_row row q tid cum = (row', Inr ())" "br_role row = role"
    and st': "st' = AList.update cid row' (if map_of st cid = None then st @ [(cid, row)] else st)"
    and ok: "role \<in> {''entry'', ''exit''}" "truthy tid \<or> cum \<noteq> JBool False"
    using assms unfolding record_fill_def row_def[symmetric] Let_def by (auto split: if_splits prod.splits)
  note rr = record_row_Inr[OF r(1)]
  have m: "map_of st' cid = Some row'" by (simp add: st' update_conv')
  have "record_fill st' cid role q tid cum = (AList.update cid row' st', Inr ())"
    using ok rr r(2) by (auto simp: record_fill_def m)
  moreover have "AList.update cid row' st' = st'" using m by (rule update_triv)
  moreover have "map_of st' c = map_of st c" if "c \<noteq> cid" for c
    using that by (auto simp: st' update_conv' map_add_def split: option.splits)
  ultimately show ?thesis using m rr(1,2) by (auto simp: row_def)
qed

section \<open>Examples\<close>

definition example_cid :: string where
  "example_cid = ''B0000000000000000000000000000000001''"

definition example_fill :: "string \<Rightarrow> instant \<Rightarrow> string \<Rightarrow> execution_event" where
  "example_fill eid t side = \<lparr>ee_event_id = eid, ee_account_id = ''acct'', ee_client_order_id = example_cid,
     ee_event_type = ''OrderFilled'', ee_ts_event = t, ee_created_at = t,
     ee_payload = JObj [(''instrument_id'', JStr ''BTCUSDT-PERP.BINANCE''), (''last_qty'', JDec 3), (''side'', JStr side)]\<rparr>"

definition example_ledger :: ledger_tables where
  "example_ledger = \<lparr>lt_events = [example_fill ''e2'' 20 ''SELL'', example_fill ''e1'' 10 ''BUY''], lt_orders = []\<rparr>"

theorem owned_balance_is_ledger_witness:
  "\<exists>b base. load_robot_owned_balance example_ledger ''acct'' ''BTCUSDT'' True = Inr b \<and> bal_fill_event_count b = 2
     \<and> bal_quantity b = dadd (case base of Some x \<Rightarrow> bl_quantity x | None \<Rightarrow> 0) (dsum (map event_delta
         (filter (counts_for [] base (canonical_symbol (JStr ''BTCUSDT''))) (fill_events (lt_events example_ledger) ''acct''))))"
proof -
  have "case load_robot_owned_balance example_ledger ''acct'' ''BTCUSDT'' True of
      Inr b \<Rightarrow> bal_fill_event_count b = 2 | Inl e \<Rightarrow> False" by code_simp
  then obtain b where b: "load_robot_owned_balance example_ledger ''acct'' ''BTCUSDT'' True = Inr b" "bal_fill_event_count b = 2"
    by (auto split: sum.splits)
  from owned_balance_is_ledger[OF b(1)] b show ?thesis by (auto simp: Let_def example_ledger_def)
qed

theorem rebaseline_roundtrip_witness:
  "\<exists>d b. build_rebaseline_payload ''btcusdt'' 3 ''drift'' ''ops'' ''r1'' 5 2 0 0 = Inr d
     \<and> parse_baseline ''acct'' ''e1'' 0 0 (JObj d) = Inr b \<and> bl_quantity b = 3"
proof -
  have "case build_rebaseline_payload ''btcusdt'' 3 ''drift'' ''ops'' ''r1'' 5 2 0 0 of Inr d \<Rightarrow> True | Inl e \<Rightarrow> False" by code_simp
  then obtain d where d: "build_rebaseline_payload ''btcusdt'' 3 ''drift'' ''ops'' ''r1'' 5 2 0 0 = Inr d" by (auto split: sum.splits)
  from rebaseline_roundtrip[OF d, of "''acct''" "''e1''" 0 0] d show ?thesis by blast
qed

theorem entry_batch_within_notional_witness:
  "\<exists>eb t1 t2. build_entry_batch ''market'' (JDec 100) (JDec 50) (JDec 200) (JDec 40) = Inr eb \<and> eb_tranches eb = [t1, t2]
     \<and> tc_quantity t1 * tc_sizing_price t1 + tc_quantity t2 * tc_sizing_price t2 \<le> (1 + dec_eps)\<^sup>2 * 200"
proof -
  obtain eb where eb: "build_entry_batch ''market'' (JDec 100) (JDec 50) (JDec 200) (JDec 40) = Inr eb"
    by (simp add: build_entry_batch_def positive_def build_tranche_def ddiv_def quantize_def round_down_def power_int_minus Let_def)
  from entry_batch_within_notional[OF eb] eb show ?thesis by blast
qed

theorem batch_fill_counted_once_witness:
  "\<exists>st'. record_fill [] ''c1'' ''entry'' (JDec 2) (JStr ''t1'') (JBool False) = (st', Inr ())
     \<and> record_fill st' ''c1'' ''entry'' (JDec 2) (JStr ''t1'') (JBool False) = (st', Inr ())"
proof -
  have "snd (record_fill [] ''c1'' ''entry'' (JDec 2) (JStr ''t1'') (JBool False)) = Inr ()" by code_simp
  then obtain st' where r: "record_fill [] ''c1'' ''entry'' (JDec 2) (JStr ''t1'') (JBool False) = (st', Inr ())"
    by (metis prod.collapse)
  from batch_fill_counted_once[OF r] r show ?thesis by blast
qed

end
