(* ===== verification/Reconciliation.thy ===== *)
theory Reconciliation
  imports Position_Exits Ownership_Ledger Order_Reducer
begin

text \<open>
  Comparison of the projections with the venue (\<open>reconciliation.py\<close>), the watchdog that looks for
  positions without protection (\<open>protection_watchdog.py\<close>) and the recovery that repairs their stops
  (\<open>protection_recovery.py\<close>).

  A venue snapshot is the JSON object the caller passes. The repairer is a protocol: a parameter with a state,
  which answers with a payload or raises, and then \<open>repr\<close> of what it raised is the text. Generated ids
  are arguments. A run that fails in the middle is rolled back, so the operation is an exception or a
  new state; the recovery commits position by position, so it returns the state also when it raises.
\<close>

section \<open>Runs and findings\<close>

record reconciliation_run =
  rr_id :: string
  rr_account_id :: account_id
  rr_status :: string
  rr_reason :: string
  rr_started_at :: instant
  rr_completed_at :: "instant option"
  rr_payload :: dict

record recon_finding =
  rf_run_id :: string
  rf_account_id :: account_id
  rf_finding_type :: string
  rf_severity :: string
  rf_position_key :: "string option"
  rf_order_projection_id :: "string option"
  rf_payload :: dict

record recon_db =
  rd_orders :: "order_row list"
  rd_tables :: position_db
  rd_runs :: "reconciliation_run list"
  rd_findings :: "recon_finding list"

record ReconciliationResult =
  rs_reconciliation_run_id :: string
  rs_status :: string
  rs_active_allowed :: bool
  rs_findings :: "recon_finding list"

definition create_reconciliation_run ::
  "recon_db \<Rightarrow> string \<Rightarrow> account_id \<Rightarrow> string \<Rightarrow> string \<Rightarrow> dict \<Rightarrow> bool \<Rightarrow> instant \<Rightarrow> recon_db result" where
  "create_reconciliation_run db run_id a status reason payload completed clock =
     (if run_id \<in> set (map rr_id (rd_runs db)) then Inl IntegrityError
      else Inr (db \<lparr>rd_runs := rd_runs db @
        [\<lparr>rr_id = run_id, rr_account_id = a, rr_status = status, rr_reason = reason, rr_started_at = clock,
          rr_completed_at = (if completed then Some clock else None), rr_payload = payload\<rparr>]\<rparr>))"

definition update_reconciliation_run :: "recon_db \<Rightarrow> string \<Rightarrow> string \<Rightarrow> dict \<Rightarrow> instant \<Rightarrow> recon_db" where
  "update_reconciliation_run db run_id status payload clock =
     db \<lparr>rd_runs := update_where (\<lambda>r. rr_id r = run_id)
       (\<lambda>r. r \<lparr>rr_status := status, rr_completed_at := Some clock, rr_payload := dict_update (rr_payload r) payload\<rparr>)
       (rd_runs db)\<rparr>"

definition run_finding :: "string \<Rightarrow> account_id \<Rightarrow> string \<Rightarrow> string option \<Rightarrow> string option \<Rightarrow> dict \<Rightarrow> recon_finding" where
  "run_finding run_id a finding_type position_key order_projection_id payload =
     \<lparr>rf_run_id = run_id, rf_account_id = a, rf_finding_type = finding_type, rf_severity = ''error'',
      rf_position_key = position_key, rf_order_projection_id = order_projection_id, rf_payload = payload\<rparr>"

section \<open>The comparison\<close>

text \<open>A dict comprehension: a repeated key keeps its first place and takes its last value.\<close>

definition dict_of :: "('k \<times> 'v) list \<Rightarrow> ('k \<times> 'v) list" where
  "dict_of ps = foldl (\<lambda>d (k, v). AList.update k v d) [] ps"

text \<open>Iterating a field and calling \<open>.get\<close> on every element of it.\<close>

fun dict_rows :: "json list \<Rightarrow> dict list result" where
  "dict_rows [] = Inr []"
| "dict_rows (JObj d # vs) = bind_result (dict_rows vs) (\<lambda>ds. Inr (d # ds))"
| "dict_rows (_ # vs) = Inl AttributeError"

definition snapshot_rows :: "dict \<Rightarrow> string \<Rightarrow> dict list result" where
  "snapshot_rows snap name =
     (case jget_or snap name (JList []) of
        JList vs \<Rightarrow> dict_rows vs
      | JObj d \<Rightarrow> if d = [] then Inr [] else Inl AttributeError
      | JStr s \<Rightarrow> if s = [] then Inr [] else Inl AttributeError
      | JDec x \<Rightarrow> Inl AttributeError
      | _ \<Rightarrow> Inl TypeError)"

definition venue_orders :: "dict list \<Rightarrow> (string \<times> string) list" where
  "venue_orders rows =
     dict_of (map (\<lambda>r. (json_str (jget r ''client_order_id''), json_str (jget r ''status'')))
       (filter (\<lambda>r. truthy (jget r ''client_order_id'')) rows))"

definition order_finding_of :: "account_id \<Rightarrow> string \<Rightarrow> (string \<times> string) list \<Rightarrow> order_row \<Rightarrow> recon_finding option" where
  "order_finding_of a run_id venue r =
     (case map_of venue (or_client_order_id r) of
        None \<Rightarrow> None
      | Some vs \<Rightarrow>
          if vs = or_status r then None
          else Some (run_finding run_id a ''order_drift'' None (Some (or_id r))
                 [(''client_order_id'', JStr (or_client_order_id r)), (''local_status'', JStr (or_status r)),
                  (''venue_status'', JStr vs)]))"

definition order_findings :: "recon_db \<Rightarrow> account_id \<Rightarrow> dict \<Rightarrow> string \<Rightarrow> recon_finding list result" where
  "order_findings db a snap run_id =
     bind_result (snapshot_rows snap ''orders'') (\<lambda>rows.
     Inr (List.map_filter (order_finding_of a run_id (venue_orders rows))
            (filter (\<lambda>r. or_account_id r = a) (rd_orders db))))"

definition venue_positions :: "dict list \<Rightarrow> (string \<times> dict) list" where
  "venue_positions rows =
     dict_of (map (\<lambda>r. (json_str (jget r ''position_key''), r)) (filter (\<lambda>r. truthy (jget r ''position_key'')) rows))"

definition local_positions :: "recon_db \<Rightarrow> account_id \<Rightarrow> (string \<times> rat \<times> string) list" where
  "local_positions db a =
     dict_of (map (\<lambda>r. (psn_position_id r, psn_quantity r, psn_status r))
       (filter (\<lambda>r. psn_account_id r = a) (pdb_positions (rd_tables db))))"

definition row_quantity :: "dict \<Rightarrow> string \<Rightarrow> rat" where
  "row_quantity d k = (case decimal_or_none (jget d k) of Some q \<Rightarrow> q | None \<Rightarrow> 0)"

definition position_drift :: "account_id \<Rightarrow> string \<Rightarrow> string \<Rightarrow> rat \<Rightarrow> rat \<Rightarrow> string \<Rightarrow> string \<Rightarrow> dict \<Rightarrow> recon_finding" where
  "position_drift a run_id key lq vq ls vs extra =
     run_finding run_id a ''position_drift'' (Some key) None
       ([(''local_quantity'', JDec lq), (''venue_quantity'', JDec vq), (''local_status'', JStr ls), (''venue_status'', JStr vs)]
        @ extra)"

definition missing_side :: "string \<Rightarrow> dict" where
  "missing_side side = [(''drift_kind'', JStr (side @ ''_missing'')), (''missing_side'', JStr side)]"

definition local_finding :: "account_id \<Rightarrow> string \<Rightarrow> (string \<times> dict) list \<Rightarrow> string \<times> rat \<times> string \<Rightarrow> recon_finding option" where
  "local_finding a run_id venue p =
     (case p of (key, lq, ls) \<Rightarrow>
        case map_of venue key of
          None \<Rightarrow> if lq = 0 then None
                  else Some (position_drift a run_id key lq 0 ls ''missing'' (missing_side ''venue''))
        | Some v \<Rightarrow>
            let vq = row_quantity v ''quantity''; vs = json_str (jget v ''status'')
            in if vq \<noteq> lq \<or> vs \<noteq> ls then Some (position_drift a run_id key lq vq ls vs []) else None)"

definition venue_finding :: "account_id \<Rightarrow> string \<Rightarrow> (string \<times> rat \<times> string) list \<Rightarrow> string \<times> dict \<Rightarrow> recon_finding option" where
  "venue_finding a run_id locals p =
     (case p of (key, v) \<Rightarrow>
        if key \<in> fst ` set locals \<or> row_quantity v ''quantity'' = 0 then None
        else Some (position_drift a run_id key 0 (row_quantity v ''quantity'') ''missing'' (json_str (jget v ''status''))
               (missing_side ''local'')))"

definition position_findings :: "recon_db \<Rightarrow> account_id \<Rightarrow> dict \<Rightarrow> string \<Rightarrow> recon_finding list result" where
  "position_findings db a snap run_id =
     bind_result (snapshot_rows snap ''positions'') (\<lambda>rows.
       let venue = venue_positions rows; locals = local_positions db a
       in Inr (List.map_filter (local_finding a run_id venue) locals
               @ List.map_filter (venue_finding a run_id locals) venue))"

definition account_drift :: "account_id \<Rightarrow> string \<Rightarrow> account_projection_row \<Rightarrow> dict \<Rightarrow> recon_finding" where
  "account_drift a run_id r v =
     run_finding run_id a ''account_drift'' None None
       [(''local_equity'', JDec (acc_equity r)), (''venue_equity'', JDec (row_quantity v ''equity'')),
        (''local_free'', case acc_available_balance r of Some x \<Rightarrow> JDec x | None \<Rightarrow> JStr ''None''),
        (''venue_free'', JDec (row_quantity v ''free'')),
        (''local_margin'', JDec (acc_margin r)), (''venue_margin'', JDec (row_quantity v ''margin''))]"

definition account_agrees :: "account_projection_row \<Rightarrow> dict \<Rightarrow> bool" where
  "account_agrees r v =
     (acc_equity r = row_quantity v ''equity'' \<and> acc_available_balance r = Some (row_quantity v ''free'')
      \<and> acc_margin r = row_quantity v ''margin'')"

definition account_findings :: "recon_db \<Rightarrow> account_id \<Rightarrow> dict \<Rightarrow> string \<Rightarrow> recon_finding list result" where
  "account_findings db a snap run_id =
     (let account = jget snap ''account''
      in if \<not> truthy account then Inr []
         else case List.find (\<lambda>r. acc_account_id r = a) (pdb_accounts (rd_tables db)) of
           None \<Rightarrow> Inr [run_finding run_id a ''account_missing'' None None [(''venue_account'', account)]]
         | Some r \<Rightarrow>
             (case account of
                JObj v \<Rightarrow> Inr (if account_agrees r v then [] else [account_drift a run_id r v])
              | _ \<Rightarrow> Inl AttributeError))"

definition collect_findings :: "recon_db \<Rightarrow> account_id \<Rightarrow> dict \<Rightarrow> string \<Rightarrow> recon_finding list result" where
  "collect_findings db a snap run_id =
     bind_result (order_findings db a snap run_id) (\<lambda>os.
     bind_result (position_findings db a snap run_id) (\<lambda>ps.
     bind_result (account_findings db a snap run_id) (\<lambda>as. Inr (os @ ps @ as))))"

definition run_reconciliation ::
  "recon_db \<Rightarrow> account_id \<Rightarrow> dict \<Rightarrow> string \<Rightarrow> string \<Rightarrow> instant \<Rightarrow> (recon_db \<times> ReconciliationResult) result" where
  "run_reconciliation db a snap reason run_id clock =
     bind_result (create_reconciliation_run db run_id a ''running'' reason [(''venue_snapshot'', JObj snap)] False clock) (\<lambda>db1.
     bind_result (collect_findings db1 a snap run_id) (\<lambda>fs.
       let status = (if fs = [] then ''passed'' else ''failed'');
           db2 = update_reconciliation_run (db1 \<lparr>rd_findings := rd_findings db1 @ fs\<rparr>) run_id status
                   [(''finding_count'', JNum (of_nat (length fs)))] clock
       in Inr (db2, \<lparr>rs_reconciliation_run_id = run_id, rs_status = status,
                     rs_active_allowed = (reason \<noteq> ''startup'' \<or> fs = []), rs_findings = fs\<rparr>)))"

definition run_startup :: "recon_db \<Rightarrow> account_id \<Rightarrow> dict \<Rightarrow> string \<Rightarrow> instant \<Rightarrow> (recon_db \<times> ReconciliationResult) result" where
  "run_startup db a snap run_id clock = run_reconciliation db a snap ''startup'' run_id clock"

definition run_periodic :: "recon_db \<Rightarrow> account_id \<Rightarrow> dict \<Rightarrow> string \<Rightarrow> instant \<Rightarrow> (recon_db \<times> ReconciliationResult) result" where
  "run_periodic db a snap run_id clock = run_reconciliation db a snap ''periodic'' run_id clock"

section \<open>The watchdog\<close>

record watched_position =
  wp_position_key :: string
  wp_venue_symbol :: symbol
  wp_quantity :: rat

record watchdog_result =
  wr_missing_count :: nat
  wr_findings :: "finding_row list"

definition venue_role :: "dict \<Rightarrow> string" where
  "venue_role order = str_or [jget order ''lifecycle_role'', jget order ''role''] []"

definition working_status :: "string list \<Rightarrow> dict \<Rightarrow> bool" where
  "working_status statuses order = (lower (str_or [jget order ''status''] ''working'') \<in> set statuses)"

definition venue_keys :: "dict list \<Rightarrow> (string \<times> string) set" where
  "venue_keys orders =
     set (map (\<lambda>r. (json_str (jget r ''position_key''), venue_role r))
       (filter (working_status [''working'', ''accepted'', ''open'']) orders))"

definition open_row :: "account_id \<Rightarrow> position_projection_row \<Rightarrow> bool" where
  "open_row a r = (psn_account_id r = a \<and> psn_status r \<in> {''open'', ''reducing'', ''external''} \<and> psn_quantity r > 0)"

fun projection_keys :: "((symbol \<times> string) \<times> string) list \<Rightarrow> position_projection_row list \<Rightarrow> ((symbol \<times> string) \<times> string) list" where
  "projection_keys acc [] = acc"
| "projection_keys acc (r # rs) =
     (let key = (canonical_symbol (JStr (psn_instrument_id r)), lower (strip (psn_side r)))
      in projection_keys (if key \<in> fst ` set acc then acc else acc @ [(key, psn_position_id r)]) rs)"

definition watched_position_of :: "account_id \<Rightarrow> ((symbol \<times> string) \<times> string) list \<Rightarrow> OwnershipBalance \<Rightarrow> watched_position" where
  "watched_position_of a keys b =
     (let side = (if bal_quantity b < 0 then ''short'' else ''long'');
          key = (case map_of keys (bal_symbol b, side) of Some k \<Rightarrow> k | None \<Rightarrow> [])
      in \<lparr>wp_position_key = (if key = [] then a @ '':'' @ bal_symbol b @ '':'' @ side else key),
          wp_venue_symbol = bal_symbol b, wp_quantity = dabs (bal_quantity b)\<rparr>)"

definition watched_positions :: "ledger_tables \<Rightarrow> position_db \<Rightarrow> account_id \<Rightarrow> watched_position list result" where
  "watched_positions lt db a =
     bind_result (load_robot_owned_balances lt a True) (\<lambda>bs.
       let rows = sort_key (\<lambda>r. (- psn_updated_at r, psn_position_id r)) (filter (open_row a) (pdb_positions db))
       in Inr (map (watched_position_of a (projection_keys [] rows)) (filter (\<lambda>b. bal_quantity b \<noteq> 0) bs)))"

definition expected_protection :: "position_db \<Rightarrow> account_id \<Rightarrow> string \<Rightarrow> string list" where
  "expected_protection db a key = map pto_lifecycle_role (filter (active_for a key) (pdb_protective db))"

definition missing_roles :: "string list \<Rightarrow> (string \<times> string) set \<Rightarrow> string \<Rightarrow> string list" where
  "missing_roles expected keys key =
     (if expected = [] then [''stop_loss''] else filter (\<lambda>role. (key, role) \<notin> keys) expected)"

definition watchdog_finding :: "account_id \<Rightarrow> watched_position \<Rightarrow> string \<Rightarrow> finding_row" where
  "watchdog_finding a p role =
     \<lparr>fi_account_id = a, fi_finding_type = ''missing_protection'', fi_severity = ''error'',
      fi_position_key = Some (wp_position_key p),
      fi_payload = [(''position_key'', JStr (wp_position_key p)), (''venue_symbol'', JStr (wp_venue_symbol p)),
                    (''lifecycle_role'', JStr role), (''quantity'', JDec (wp_quantity p))],
      fi_run_reason = ''protection_watchdog''\<rparr>"

definition position_missing :: "position_db \<Rightarrow> account_id \<Rightarrow> (string \<times> string) set \<Rightarrow> watched_position \<Rightarrow> finding_row list" where
  "position_missing db a keys p =
     map (watchdog_finding a p) (missing_roles (expected_protection db a (wp_position_key p)) keys (wp_position_key p))"

text \<open>The findings are recorded and, with the policy, handed to the dispatcher one by one.\<close>

definition watchdog_check :: "ledger_tables \<Rightarrow> protection_state \<Rightarrow> account_id \<Rightarrow> dict list \<Rightarrow> string
    \<Rightarrow> (protection_state \<times> watchdog_result \<times> (string \<times> finding_row) list) result" where
  "watchdog_check lt st a venue_working_orders policy =
     bind_result (watched_positions lt (prs_db st) a) (\<lambda>ps.
       let fs = concat (map (position_missing (prs_db st) a (venue_keys venue_working_orders)) ps)
       in Inr (st \<lparr>prs_findings := prs_findings st @ fs\<rparr>, \<lparr>wr_missing_count = length fs, wr_findings = fs\<rparr>,
               map (Pair policy) fs))"

section \<open>Recovery\<close>

record open_position =
  opn_position_key :: string
  opn_instrument_id :: string
  opn_venue_symbol :: symbol
  opn_quantity :: rat

record ProtectionRecoveryResult =
  prr_status :: string
  prr_repaired_count :: nat
  prr_unrepaired_count :: nat

definition recovery_positions :: "position_db \<Rightarrow> account_id \<Rightarrow> open_position list" where
  "recovery_positions db a =
     map (\<lambda>r. \<lparr>opn_position_key = psn_position_id r, opn_instrument_id = psn_instrument_id r,
               opn_venue_symbol = canonical_instrument_key (psn_instrument_id r), opn_quantity = psn_quantity r\<rparr>)
       (sort_key psn_position_id (filter (open_row a) (pdb_positions db)))"

definition has_active_stop :: "position_db \<Rightarrow> account_id \<Rightarrow> string \<Rightarrow> bool" where
  "has_active_stop db a key = list_ex (active_role a key ''stop_loss'') (pdb_protective db)"

definition text_or_none :: "json \<Rightarrow> string option" where
  "text_or_none v = (if v = JNull then None else Some (json_str v))"

definition repaired_stop :: "account_id \<Rightarrow> open_position \<Rightarrow> dict \<Rightarrow> string \<Rightarrow> instant \<Rightarrow> protective_row" where
  "repaired_stop a p repair uuid clock =
     \<lparr>pto_id = uuid, pto_account_id = a, pto_position_key = opn_position_key p, pto_venue_symbol = opn_venue_symbol p,
      pto_lifecycle_role = ''stop_loss'', pto_client_order_id = text_or_none (jget repair ''client_order_id''),
      pto_venue_order_id = jget repair ''venue_order_id'',
      pto_status = json_str (jget_or repair ''status'' (JStr ''working'')), pto_active = True,
      pto_quantity = Some (opn_quantity p), pto_price = None, pto_trigger_price = None, pto_updated_at = clock,
      pto_payload = [(''source'', JStr ''protection_recovery'')]\<rparr>"

definition record_repaired_stop :: "position_db \<Rightarrow> account_id \<Rightarrow> open_position \<Rightarrow> dict \<Rightarrow> string \<Rightarrow> instant \<Rightarrow> position_db result" where
  "record_repaired_stop db a p repair uuid clock =
     (if jget_or repair ''status'' (JStr ''working'') = JNull then Inl IntegrityError
      else if has_active_stop db a (opn_position_key p) then Inr db
      else if uuid \<in> set (map pto_id (pdb_protective db)) then Inl IntegrityError
      else checked (db \<lparr>pdb_protective := pdb_protective db @ [repaired_stop a p repair uuid clock]\<rparr>))"

definition mark_unsafe :: "string \<Rightarrow> protection_state \<Rightarrow> account_id \<Rightarrow> string \<Rightarrow> string \<Rightarrow> string \<Rightarrow> dict \<Rightarrow> protection_state result" where
  "mark_unsafe failure_mode st a instrument_id key finding_type payload =
     bind_result (set_mode (prs_modes st) a (canonical_instrument_key instrument_id) failure_mode) (\<lambda>modes.
     Inr (st \<lparr>prs_modes := modes, prs_findings := prs_findings st @
       [\<lparr>fi_account_id = a, fi_finding_type = finding_type, fi_severity = ''critical'', fi_position_key = Some key,
         fi_payload = payload, fi_run_reason = ''protection_recovery''\<rparr>]\<rparr>))"

definition protective_group :: "dict \<Rightarrow> (string \<times> string) option" where
  "protective_group order =
     (if working_status [''working'', ''accepted'', ''open'', ''submitted''] order
         \<and> venue_role order \<in> {''stop_loss'', ''take_profit''}
      then Some (json_str (jget order ''position_key''), venue_role order) else None)"

definition group_add :: "((string \<times> string) \<times> dict list) list \<Rightarrow> dict \<Rightarrow> ((string \<times> string) \<times> dict list) list" where
  "group_add grouped order =
     (case protective_group order of
        None \<Rightarrow> grouped
      | Some key \<Rightarrow> AList.update key ((case map_of grouped key of Some os \<Rightarrow> os | None \<Rightarrow> []) @ [order]) grouped)"

definition grouped_orders :: "dict list \<Rightarrow> ((string \<times> string) \<times> dict list) list" where
  "grouped_orders orders = foldl group_add [] orders"

fun mark_duplicates :: "string \<Rightarrow> account_id \<Rightarrow> (string \<times> open_position) list \<Rightarrow> nat \<Rightarrow> protection_state
    \<Rightarrow> ((string \<times> string) \<times> dict list) list \<Rightarrow> protection_state \<times> nat result" where
  "mark_duplicates fm a positions n st [] = (st, Inr n)"
| "mark_duplicates fm a positions n st (((key, role), orders) # gs) =
     (if length orders \<le> 1 then mark_duplicates fm a positions n st gs
      else
        let instrument_id = (case map_of positions key of
              Some p \<Rightarrow> opn_instrument_id p
            | None \<Rightarrow> str_or [jget (hd orders) ''instrument_id''] ''UNKNOWN'')
        in case mark_unsafe fm st a instrument_id key ''duplicate_protection''
                  [(''lifecycle_role'', JStr role), (''orders'', JList (map JObj orders))] of
             Inl e \<Rightarrow> (st, Inl e)
           | Inr st' \<Rightarrow> mark_duplicates fm a positions (Suc n) st' gs)"

definition handle_duplicate_venue_protection :: "string \<Rightarrow> protection_state \<Rightarrow> account_id \<Rightarrow> dict list
    \<Rightarrow> protection_state \<times> nat result" where
  "handle_duplicate_venue_protection fm st a venue_working_orders =
     mark_duplicates fm a (dict_of (map (\<lambda>p. (opn_position_key p, p)) (recovery_positions (prs_db st) a))) 0 st
       (grouped_orders venue_working_orders)"

definition repair_payload :: "account_id \<Rightarrow> open_position \<Rightarrow> dict" where
  "repair_payload a p =
     [(''account_id'', JStr a), (''position_key'', JStr (opn_position_key p)), (''instrument_id'', JStr (opn_instrument_id p)),
      (''venue_symbol'', JStr (opn_venue_symbol p)), (''quantity'', JDec (opn_quantity p))]"

text \<open>The repairer is \<open>repair\<close> on its state; \<open>ids\<close> are the generated row ids.\<close>

fun repair_loop :: "('x \<Rightarrow> dict \<Rightarrow> 'x \<times> (string + dict)) \<Rightarrow> string \<Rightarrow> account_id \<Rightarrow> (nat \<Rightarrow> string) \<Rightarrow> instant
    \<Rightarrow> nat \<times> nat \<Rightarrow> 'x \<times> protection_state \<Rightarrow> open_position list \<Rightarrow> ('x \<times> protection_state) \<times> (nat \<times> nat) result" where
  "repair_loop repair fm a ids clock counts s [] = (s, Inr counts)"
| "repair_loop repair fm a ids clock (repaired, unrepaired) (x, st) (p # ps) =
     (if has_active_stop (prs_db st) a (opn_position_key p)
      then repair_loop repair fm a ids clock (repaired, unrepaired) (x, st) ps
      else case repair x (repair_payload a p) of
        (x', Inl err) \<Rightarrow>
          (case mark_unsafe fm st a (opn_instrument_id p) (opn_position_key p) ''protection_repair_failed''
                  (repair_payload a p @ [(''error'', JStr err)]) of
             Inl e \<Rightarrow> ((x', st), Inl e)
           | Inr st' \<Rightarrow> repair_loop repair fm a ids clock (repaired, Suc unrepaired) (x', st') ps)
      | (x', Inr answer) \<Rightarrow>
          (case record_repaired_stop (prs_db st) a p answer (ids repaired) clock of
             Inl e \<Rightarrow> ((x', st), Inl e)
           | Inr db \<Rightarrow> repair_loop repair fm a ids clock (Suc repaired, unrepaired) (x', st \<lparr>prs_db := db\<rparr>) ps))"

definition recover :: "('x \<Rightarrow> dict \<Rightarrow> 'x \<times> (string + dict)) \<Rightarrow> string \<Rightarrow> (nat \<Rightarrow> string) \<Rightarrow> instant \<Rightarrow> 'x \<Rightarrow> protection_state
    \<Rightarrow> account_id \<Rightarrow> dict list \<Rightarrow> ('x \<times> protection_state) \<times> ProtectionRecoveryResult result" where
  "recover repair fm ids clock x st a venue_working_orders =
     (case handle_duplicate_venue_protection fm st a venue_working_orders of
        (st1, Inl e) \<Rightarrow> ((x, st1), Inl e)
      | (st1, Inr n) \<Rightarrow>
          if n \<noteq> 0 then ((x, st1), Inr \<lparr>prr_status = ''unsafe'', prr_repaired_count = 0, prr_unrepaired_count = n\<rparr>)
          else case repair_loop repair fm a ids clock (0, 0) (x, st1) (recovery_positions (prs_db st1) a) of
            (s, Inl e) \<Rightarrow> (s, Inl e)
          | (s, Inr (repaired, unrepaired)) \<Rightarrow>
              (s, Inr \<lparr>prr_status = (if unrepaired \<noteq> 0 then ''unsafe'' else ''recovered''),
                       prr_repaired_count = repaired, prr_unrepaired_count = unrepaired\<rparr>))"

section \<open>What the comparison decides\<close>

lemma map_of_dict_of: "map_of (dict_of ps) = map_of (rev ps)"
proof -
  have "map_of (foldl (\<lambda>d (k, v). AList.update k v d) d ps) = map_of (rev ps @ d)" for d :: "('a \<times> 'b) list"
  proof (induction ps arbitrary: d)
    case (Cons p ps)
    obtain k v where p: "p = (k, v)" by (cases p)
    show ?case by (simp add: p Cons.IH update_conv')
  qed simp
  then show ?thesis by (simp add: dict_of_def)
qed

lemma dict_of_entries:
  "distinct (map fst (dict_of ps))" "(k, v) \<in> set (dict_of ps) \<longleftrightarrow> map_of (dict_of ps) k = Some v"
proof -
  have "distinct (map fst (foldl (\<lambda>d (k, v). AList.update k v d) d ps))" if "distinct (map fst d)" for d :: "('a \<times> 'b) list"
    using that by (induction ps arbitrary: d) (auto simp: distinct_update)
  then show d: "distinct (map fst (dict_of ps))" by (simp add: dict_of_def)
  show "(k, v) \<in> set (dict_of ps) \<longleftrightarrow> map_of (dict_of ps) k = Some v" using d by (simp add: map_of_eq_Some_iff)
qed

lemma map_of_map_find: "map_of (map (\<lambda>r. (f r, g r)) rs) k = map_option g (List.find (\<lambda>r. f r = k) rs)"
  by (induction rs) auto

lemma find_filter: "List.find p (filter q rs) = List.find (\<lambda>r. q r \<and> p r) rs"
  by (induction rs) auto

text \<open>The specification reads the last entry of a key in the snapshot, and the row of a key in the table.\<close>

definition venue_status :: "dict list \<Rightarrow> string \<Rightarrow> string option" where
  "venue_status rows cid =
     map_option (\<lambda>r. json_str (jget r ''status''))
       (List.find (\<lambda>r. truthy (jget r ''client_order_id'') \<and> json_str (jget r ''client_order_id'') = cid) (rev rows))"

definition venue_book :: "dict list \<Rightarrow> string \<Rightarrow> (rat \<times> string) option" where
  "venue_book rows key =
     map_option (\<lambda>r. (row_quantity r ''quantity'', json_str (jget r ''status'')))
       (List.find (\<lambda>r. truthy (jget r ''position_key'') \<and> json_str (jget r ''position_key'') = key) (rev rows))"

definition local_book :: "position_db \<Rightarrow> account_id \<Rightarrow> string \<Rightarrow> (rat \<times> string) option" where
  "local_book db a key =
     map_option (\<lambda>r. (psn_quantity r, psn_status r)) (List.find (is_position a key) (rev (pdb_positions db)))"

fun books_agree :: "(rat \<times> string) option \<Rightarrow> (rat \<times> string) option \<Rightarrow> bool" where
  "books_agree (Some x) (Some y) = (x = y)"
| "books_agree (Some x) None = (fst x = 0)"
| "books_agree None (Some y) = (fst y = 0)"
| "books_agree None None = True"

lemma map_of_venue_orders: "map_of (venue_orders rows) k = venue_status rows k"
  by (simp add: venue_orders_def map_of_dict_of rev_map map_of_map_find rev_filter find_filter venue_status_def)

lemma map_of_venue_positions:
  "map_option (\<lambda>r. (row_quantity r ''quantity'', json_str (jget r ''status''))) (map_of (venue_positions rows) k) = venue_book rows k"
  by (simp add: venue_positions_def map_of_dict_of rev_map map_of_map_find rev_filter find_filter venue_book_def option.map_comp comp_def)

lemma map_of_local_positions: "map_of (local_positions db a) k = local_book (rd_tables db) a k"
  by (simp add: local_positions_def map_of_dict_of rev_map map_of_map_find rev_filter find_filter local_book_def is_position_eta)

lemma map_filter_Nil_iff: "List.map_filter f xs = [] \<longleftrightarrow> (\<forall>x \<in> set xs. f x = None)"
  by (induction xs) (auto simp: List.map_filter_simps split: option.splits)

lemma order_findings_Nil:
  assumes "order_findings db a snap rid = Inr fs" "snapshot_rows snap ''orders'' = Inr os"
  shows "fs = [] \<longleftrightarrow> (\<forall>r \<in> set (rd_orders db). or_account_id r = a \<longrightarrow> venue_status os (or_client_order_id r) \<in> {None, Some (or_status r)})"
proof -
  have "order_finding_of a rid (venue_orders os) r = None \<longleftrightarrow> venue_status os (or_client_order_id r) \<in> {None, Some (or_status r)}" for r
    by (cases "venue_status os (or_client_order_id r)") (auto simp: order_finding_of_def map_of_venue_orders)
  moreover have "fs = List.map_filter (order_finding_of a rid (venue_orders os)) (filter (\<lambda>r. or_account_id r = a) (rd_orders db))"
    using assms by (simp add: order_findings_def)
  ultimately show ?thesis by (simp add: map_filter_Nil_iff Ball_def) blast
qed

lemma local_finding_None:
  "local_finding a rid venue (k, q, s) = None
   \<longleftrightarrow> books_agree (Some (q, s)) (map_option (\<lambda>r. (row_quantity r ''quantity'', json_str (jget r ''status''))) (map_of venue k))"
  by (auto simp: local_finding_def Let_def split: option.splits)

lemma venue_finding_None:
  "venue_finding a rid locals (k, v) = None \<longleftrightarrow> map_of locals k \<noteq> None \<or> row_quantity v ''quantity'' = 0"
  by (auto simp: venue_finding_def map_of_eq_None_iff)

lemma position_findings_Nil:
  assumes "position_findings db a snap rid = Inr fs" "snapshot_rows snap ''positions'' = Inr ps"
  shows "fs = [] \<longleftrightarrow> (\<forall>key. books_agree (local_book (rd_tables db) a key) (venue_book ps key))"
proof -
  let ?L = "local_positions db a" and ?V = "venue_positions ps"
  have L: "(k, x) \<in> set ?L \<longleftrightarrow> local_book (rd_tables db) a k = Some x" for k x
    unfolding local_positions_def dict_of_entries(2) by (simp add: map_of_local_positions[unfolded local_positions_def])
  have V: "(k, v) \<in> set ?V \<longleftrightarrow> map_of ?V k = Some v" for k v
    unfolding venue_positions_def by (rule dict_of_entries(2))
  have "fs = [] \<longleftrightarrow> (\<forall>x \<in> set ?L. local_finding a rid ?V x = None) \<and> (\<forall>y \<in> set ?V. venue_finding a rid ?L y = None)"
    using assms by (auto simp: position_findings_def Let_def map_filter_Nil_iff)
  also have "\<dots> \<longleftrightarrow> (\<forall>k q s. local_book (rd_tables db) a k = Some (q, s) \<longrightarrow> books_agree (Some (q, s)) (venue_book ps k))
      \<and> (\<forall>k v. map_of ?V k = Some v \<longrightarrow> local_book (rd_tables db) a k \<noteq> None \<or> row_quantity v ''quantity'' = 0)"
    by (simp add: Ball_def split_paired_All L V local_finding_None venue_finding_None map_of_venue_positions
        map_of_local_positions del: not_None_eq)
  also have "\<dots> \<longleftrightarrow> (\<forall>k. books_agree (local_book (rd_tables db) a k) (venue_book ps k))" (is "?A \<longleftrightarrow> ?B")
  proof
    assume a: ?A
    show ?B
    proof
      fix k show "books_agree (local_book (rd_tables db) a k) (venue_book ps k)"
        using a[THEN conjunct1, rule_format, of k] a[THEN conjunct2, rule_format, of k] map_of_venue_positions[of ps k, symmetric]
        by (cases "local_book (rd_tables db) a k"; cases "map_of ?V k") auto
    qed
  next
    assume b: ?B
    have "row_quantity v ''quantity'' = 0" if "map_of ?V k = Some v" "local_book (rd_tables db) a k = None" for k v
      using b[rule_format, of k] that map_of_venue_positions[of ps k, symmetric] by simp
    with b show ?A by (metis not_None_eq)
  qed
  finally show ?thesis .
qed

lemma account_findings_Nil:
  assumes "account_findings db a snap rid = Inr fs"
  shows "fs = [] \<longleftrightarrow> (truthy (jget snap ''account'') \<longrightarrow>
    (\<exists>r v. List.find (\<lambda>r. acc_account_id r = a) (pdb_accounts (rd_tables db)) = Some r
       \<and> jget snap ''account'' = JObj v \<and> account_agrees r v))"
  using assms by (auto simp: account_findings_def Let_def split: if_splits option.splits json.splits)


section \<open>Recovery\<close>

lemma mark_unsafe_Inr:
  assumes "mark_unsafe fm st a i key ft payload = Inr st'"
  shows "prs_db st' = prs_db st \<and> get_mode (prs_modes st') a (canonical_instrument_key i) = fm
    \<and> (\<forall>b j. get_mode (prs_modes st) b j = fm \<longrightarrow> get_mode (prs_modes st') b j = fm)
    \<and> (\<exists>f. prs_findings st' = prs_findings st @ [f] \<and> fi_severity f = ''critical'' \<and> fi_account_id f = a \<and> fi_position_key f = Some key)"
proof -
  obtain modes where m: "set_mode (prs_modes st) a (canonical_instrument_key i) fm = Inr modes"
    and st': "prs_db st' = prs_db st" "prs_modes st' = modes"
      "\<exists>f. prs_findings st' = prs_findings st @ [f] \<and> fi_severity f = ''critical'' \<and> fi_account_id f = a \<and> fi_position_key f = Some key"
    using assms by (auto simp: mark_unsafe_def bind_result_Inr_iff)
  have "get_mode modes b j = fm" if "get_mode (prs_modes st) b j = fm" for b j
  proof (cases "(b, j) = (a, canonical_instrument_key i)")
    case True
    then show ?thesis using set_mode_get_mode[OF m] by simp
  next
    case False
    then have "map_of modes (b, j) = map_of (prs_modes st) (b, j)"
      using m by (auto simp: set_mode_def AList.update_conv split: if_splits)
    then show ?thesis using that by (simp add: get_mode_def)
  qed
  then show ?thesis using set_mode_get_mode[OF m] st' by simp
qed

lemma record_repaired_stop_Inr:
  assumes "record_repaired_stop db a p repair uuid clock = Inr db'"
  shows "has_active_stop db' a (opn_position_key p) \<and> pdb_positions db' = pdb_positions db
    \<and> (\<forall>b k. has_active_stop db b k \<longrightarrow> has_active_stop db' b k) \<and> (positions_ok db \<longrightarrow> positions_ok db')"
proof (cases "has_active_stop db a (opn_position_key p)")
  case True
  then show ?thesis using assms by (auto simp: record_repaired_stop_def split: if_splits)
next
  case False
  let ?row = "repaired_stop a p repair uuid clock"
  have db': "db' = db \<lparr>pdb_protective := pdb_protective db @ [?row]\<rparr>" and fresh: "uuid \<notin> set (map pto_id (pdb_protective db))"
    using assms False by (auto simp: record_repaired_stop_def checked_Inr split: if_splits)
  have row: "slot_of ?row = (a, opn_position_key p, ''stop_loss'')" "pto_active ?row" "pto_id ?row = uuid"
    by (simp_all add: slot_of_def repaired_stop_def)
  have "slot_of ?row \<notin> set (active_slots (pdb_protective db))"
    unfolding row(1) using False by (auto simp: active_slots_def slot_of_def has_active_stop_def list_ex_iff active_role_def active_for_def)
  moreover have "active_slots (pdb_protective db @ [?row]) = active_slots (pdb_protective db) @ [slot_of ?row]"
    using row(2) by (simp add: active_slots_def)
  ultimately have "positions_ok db'" if "positions_ok db"
    using that fresh unfolding db' positions_ok_def by (simp add: row(3))
  moreover have "has_active_stop db' a (opn_position_key p)"
    by (simp add: db' has_active_stop_def active_role_def active_for_def repaired_stop_def)
  ultimately show ?thesis by (simp add: db' has_active_stop_def)
qed

text \<open>What a pass over the positions leaves behind for one of them.\<close>

definition flagged :: "string \<Rightarrow> account_id \<Rightarrow> protection_state \<Rightarrow> finding_row list \<Rightarrow> open_position \<Rightarrow> bool" where
  "flagged fm a st fs p =
     (get_mode (prs_modes st) a (canonical_instrument_key (opn_instrument_id p)) = fm
      \<and> (\<exists>f \<in> set fs. fi_severity f = ''critical'' \<and> fi_account_id f = a \<and> fi_position_key f = Some (opn_position_key p)))"

lemma repair_loop_outcome:
  assumes "repair_loop repair fm a ids clock (m, n) (x, st) ps = ((x', st'), Inr (m', n'))"
  shows "\<exists>fs. prs_findings st' = prs_findings st @ fs \<and> n' = n + length fs
    \<and> (\<forall>p \<in> set ps. has_active_stop (prs_db st') a (opn_position_key p) \<or> flagged fm a st' fs p)
    \<and> pdb_positions (prs_db st') = pdb_positions (prs_db st)
    \<and> (\<forall>b k. has_active_stop (prs_db st) b k \<longrightarrow> has_active_stop (prs_db st') b k)
    \<and> (\<forall>b j. get_mode (prs_modes st) b j = fm \<longrightarrow> get_mode (prs_modes st') b j = fm)
    \<and> (positions_ok (prs_db st) \<longrightarrow> positions_ok (prs_db st'))
    \<and> (fs = [] \<longrightarrow> prs_modes st' = prs_modes st)"
  using assms
proof (induction ps arbitrary: m n x st)
  case (Cons p ps)
  consider (stop) "has_active_stop (prs_db st) a (opn_position_key p)"
      "repair_loop repair fm a ids clock (m, n) (x, st) ps = ((x', st'), Inr (m', n'))"
    | (failed) x1 err st1 where
      "mark_unsafe fm st a (opn_instrument_id p) (opn_position_key p) ''protection_repair_failed'' (repair_payload a p @ [(''error'', JStr err)]) = Inr st1"
      "repair_loop repair fm a ids clock (m, Suc n) (x1, st1) ps = ((x', st'), Inr (m', n'))"
    | (repaired) x1 answer db where
      "record_repaired_stop (prs_db st) a p answer (ids m) clock = Inr db"
      "repair_loop repair fm a ids clock (Suc m, n) (x1, st \<lparr>prs_db := db\<rparr>) ps = ((x', st'), Inr (m', n'))"
    using Cons.prems by (auto split: if_splits prod.splits sum.splits)
  then show ?case
  proof cases
    case stop
    from Cons.IH[OF stop(2)] stop(1) show ?thesis by auto
  next
    case failed
    from mark_unsafe_Inr[OF failed(1)] obtain f where m: "prs_db st1 = prs_db st"
      "get_mode (prs_modes st1) a (canonical_instrument_key (opn_instrument_id p)) = fm"
      "\<forall>b j. get_mode (prs_modes st) b j = fm \<longrightarrow> get_mode (prs_modes st1) b j = fm"
      "prs_findings st1 = prs_findings st @ [f]" "fi_severity f = ''critical''" "fi_account_id f = a" "fi_position_key f = Some (opn_position_key p)"
      by blast
    from Cons.IH[OF failed(2)] obtain fs where "prs_findings st' = prs_findings st1 @ fs" "n' = Suc n + length fs"
      "\<forall>p \<in> set ps. has_active_stop (prs_db st') a (opn_position_key p) \<or> flagged fm a st' fs p"
      "pdb_positions (prs_db st') = pdb_positions (prs_db st1)"
      "\<forall>b k. has_active_stop (prs_db st1) b k \<longrightarrow> has_active_stop (prs_db st') b k"
      "\<forall>b j. get_mode (prs_modes st1) b j = fm \<longrightarrow> get_mode (prs_modes st') b j = fm"
      "positions_ok (prs_db st1) \<longrightarrow> positions_ok (prs_db st')"
      by blast
    with m show ?thesis by (intro exI[of _ "f # fs"]) (auto simp: flagged_def)
  next
    case repaired
    note r = record_repaired_stop_Inr[OF repaired(1)]
    from Cons.IH[OF repaired(2)] r show ?thesis by auto
  qed
qed simp

lemma mark_duplicates_outcome:
  assumes "mark_duplicates fm a positions n st gs = (st', Inr n')"
  shows "\<exists>fs. prs_findings st' = prs_findings st @ fs \<and> n' = n + length fs \<and> prs_db st' = prs_db st
    \<and> length fs = length (filter (\<lambda>g. 1 < length (snd g)) gs)
    \<and> (\<forall>f \<in> set fs. fi_severity f = ''critical'' \<and> (\<exists>i. get_mode (prs_modes st') a i = fm))
    \<and> (\<forall>b j. get_mode (prs_modes st) b j = fm \<longrightarrow> get_mode (prs_modes st') b j = fm)
    \<and> (fs = [] \<longrightarrow> st' = st)"
  using assms
proof (induction gs arbitrary: n st)
  case (Cons g gs)
  obtain key role orders where g: "g = ((key, role), orders)" by (metis prod.collapse)
  show ?case
  proof (cases "length orders \<le> 1")
    case True
    then show ?thesis using Cons by (simp add: g)
  next
    case False
    then obtain i pl st1 where m: "mark_unsafe fm st a i key ''duplicate_protection'' pl = Inr st1"
      and rest: "mark_duplicates fm a positions (Suc n) st1 gs = (st', Inr n')"
      using Cons.prems by (auto simp: g Let_def split: sum.splits)
    from Cons.IH[OF rest] obtain fs where fs: "prs_findings st' = prs_findings st1 @ fs" "n' = Suc n + length fs" "prs_db st' = prs_db st1"
      "length fs = length (filter (\<lambda>g. 1 < length (snd g)) gs)"
      "\<forall>f \<in> set fs. fi_severity f = ''critical'' \<and> (\<exists>i. get_mode (prs_modes st') a i = fm)"
      "\<forall>b j. get_mode (prs_modes st1) b j = fm \<longrightarrow> get_mode (prs_modes st') b j = fm" by blast
    from mark_unsafe_Inr[OF m] obtain f where f: "prs_db st1 = prs_db st" "get_mode (prs_modes st1) a (canonical_instrument_key i) = fm"
      "\<forall>b j. get_mode (prs_modes st) b j = fm \<longrightarrow> get_mode (prs_modes st1) b j = fm"
      "prs_findings st1 = prs_findings st @ [f]" "fi_severity f = ''critical''" by blast
    have "\<exists>i. get_mode (prs_modes st') a i = fm" using fs(6) f(2) by blast
    with fs f False show ?thesis by (intro exI[of _ "f # fs"]) (simp add: g)
  qed
qed simp


section \<open>The watchdog\<close>

lemma missing_roles_Nil: "missing_roles expected keys key = [] \<longleftrightarrow> expected \<noteq> [] \<and> (\<forall>role \<in> set expected. (key, role) \<in> keys)"
  by (auto simp: missing_roles_def filter_empty_conv)

text \<open>
  The watchdog stays silent exactly when every position the robot owns, by the ownership ledger, has active
  protective orders and each of them is working at the venue; otherwise it records and dispatches one finding per missing role, and
  it changes neither modes nor tables.
\<close>

theorem watchdog_silent_iff:
  assumes "watchdog_check lt st a venue policy = Inr (st', res, calls)" "watched_positions lt (prs_db st) a = Inr ps"
  shows "(wr_findings res = [] \<longleftrightarrow> (\<forall>p \<in> set ps. list_ex (active_for a (wp_position_key p)) (pdb_protective (prs_db st))
        \<and> (\<forall>r \<in> set (pdb_protective (prs_db st)). active_for a (wp_position_key p) r
              \<longrightarrow> (wp_position_key p, pto_lifecycle_role r) \<in> venue_keys venue)))
    \<and> prs_findings st' = prs_findings st @ wr_findings res \<and> map snd calls = wr_findings res
    \<and> wr_missing_count res = length (wr_findings res) \<and> prs_db st' = prs_db st \<and> prs_modes st' = prs_modes st"
proof -
  let ?fs = "concat (map (position_missing (prs_db st) a (venue_keys venue)) ps)"
  have r: "st' = st \<lparr>prs_findings := prs_findings st @ ?fs\<rparr>" "res = \<lparr>wr_missing_count = length ?fs, wr_findings = ?fs\<rparr>"
    "calls = map (Pair policy) ?fs"
    using assms by (auto simp: watchdog_check_def Let_def)
  have "position_missing (prs_db st) a (venue_keys venue) p = [] \<longleftrightarrow>
      list_ex (active_for a (wp_position_key p)) (pdb_protective (prs_db st))
      \<and> (\<forall>r \<in> set (pdb_protective (prs_db st)). active_for a (wp_position_key p) r
            \<longrightarrow> (wp_position_key p, pto_lifecycle_role r) \<in> venue_keys venue)" for p
    unfolding position_missing_def map_is_Nil_conv missing_roles_Nil expected_protection_def
    by (auto simp: filter_empty_conv list_ex_iff)
  then show ?thesis by (simp add: r comp_def)
qed

section \<open>Examples and findings\<close>

definition example_recon :: recon_db where
  "example_recon = \<lparr>rd_orders = [], rd_tables = example_db [], rd_runs = [], rd_findings = []\<rparr>"

definition example_snapshot :: dict where
  "example_snapshot = [(''positions'', JList [JObj [(''position_key'', JStr ''p1''), (''quantity'', JDec 5), (''status'', JStr ''open'')]])]"


definition unprotected :: protection_state where
  "unprotected = \<lparr>prs_db = example_db [], prs_modes = [], prs_findings = [], prs_alerts = []\<rparr>"


definition owned_ledger :: ledger_tables where
  "owned_ledger = \<lparr>lt_events = [example_fill ''e1'' 10 ''BUY''], lt_orders = []\<rparr>"

theorem watchdog_silent_iff_witness:
  "\<exists>st' res calls ps. watchdog_check owned_ledger unprotected ''acct'' [] ''alert'' = Inr (st', res, calls)
     \<and> watched_positions owned_ledger (prs_db unprotected) ''acct'' = Inr ps
     \<and> prs_findings st' = prs_findings unprotected @ wr_findings res \<and> wr_missing_count res = 1"
proof -
  have "case watchdog_check owned_ledger unprotected ''acct'' [] ''alert'' of
      Inr (st', res, calls) \<Rightarrow> wr_missing_count res = 1 | Inl e \<Rightarrow> False" by code_simp
  then obtain st' res calls where w: "watchdog_check owned_ledger unprotected ''acct'' [] ''alert'' = Inr (st', res, calls)"
    and c: "wr_missing_count res = 1" by (auto split: sum.splits prod.splits)
  then obtain ps where ps: "watched_positions owned_ledger (prs_db unprotected) ''acct'' = Inr ps"
    by (auto simp: watchdog_check_def bind_result_Inr_iff)
  from watchdog_silent_iff[OF w ps] w ps c show ?thesis by blast
qed

text \<open>
  A position without a stop escapes the watchdog as long as it has a take profit: the robot owns a long position
  whose only active protective order is a take profit that works at the venue; the watchdog reports nothing, while recovery sees
  that the stop is missing.
\<close>

theorem watchdog_misses_absent_stop:
  "let tp = (example_stop_row 120) \<lparr>pto_lifecycle_role := ''take_profit''\<rparr>;
       st = unprotected \<lparr>prs_db := example_db [tp]\<rparr>;
       venue = [[(''position_key'', JStr ''p1''), (''lifecycle_role'', JStr ''take_profit'')]]
   in (case watchdog_check owned_ledger st ''acct'' venue ''alert'' of Inr (st', res, calls) \<Rightarrow> wr_missing_count res = 0 | Inl e \<Rightarrow> False)
      \<and> (case watched_positions owned_ledger (prs_db st) ''acct'' of Inr ps \<Rightarrow> map wp_position_key ps = [''p1''] | Inl e \<Rightarrow> False)
      \<and> \<not> has_active_stop (prs_db st) ''acct'' ''p1''"
  by code_simp

end
