(* ===== verification/Zone_Ladder.thy ===== *)
theory Zone_Ladder
  imports Position_Sizing Json
begin

text \<open>
  The expansion of a zone signal into a ladder of limit orders
  (\<open>decision_gateway/zone_ladder.py\<close>): three levels between the near and the far edge of the zone,
  sized so that the loss at the stop spends the risk budget and the notional stays within its cap; levels whose
  quantity falls below the increment are dropped and their weight moves to a neighbour.

  A float that enters through \<open>Decimal(str(x))\<close> is the value its text spells. An increment is a decimal text,
  kept as coefficient and exponent because the code reads the exponent. An instant in a payload is its
  number.
\<close>

section \<open>Inputs\<close>

record decimal_text =
  dt_coefficient :: int
  dt_exponent :: int

definition text_value :: "decimal_text \<Rightarrow> rat" where
  "text_value t = of_int (dt_coefficient t) * 10 powi dt_exponent t"

record ZoneSignal =
  zs_side :: string
  zs_price_min :: rat
  zs_price_max :: rat
  zs_stop_loss :: "rat option"
  zs_take_profits :: "rat list"
  zs_valid_until :: "instant option"

record MarketContext =
  mk_p0 :: rat
  mk_now :: instant
  mk_price_increment :: decimal_text
  mk_quantity_increment :: decimal_text

record RiskContext =
  rk_risk_budget_usd :: rat
  rk_max_notional :: rat
  rk_max_leverage :: rat

record ExpandDenied =
  xd_reason :: string
  xd_detail :: string

definition expand_denied :: "string \<Rightarrow> ExpandDenied" where
  "expand_denied detail = \<lparr>xd_reason = ''needs_review'', xd_detail = detail\<rparr>"

record zone_tranche =
  zt_tranche_id :: string
  zt_seq :: nat
  zt_price :: rat
  zt_risk_weight :: rat
  zt_style :: string
  zt_limit_cap :: "rat option"

definition chase_window :: rat where "chase_window = 35 / 10000"

definition narrow_zone_threshold :: rat where "narrow_zone_threshold = 15 / 10000"

definition invalidation_buffer :: rat where "invalidation_buffer = 2 / 10"

definition max_ttl :: duration where "max_ttl = 48 * 3600 * 1000000"

definition tranche_levels :: "(string \<times> nat \<times> rat \<times> rat) list" where
  "tranche_levels = [(''t1_near'', 1, 0, 55 / 100), (''t2_mid'', 2, 50 / 100, 30 / 100), (''t3_deep'', 3, 85 / 100, 15 / 100)]"

section \<open>Prices\<close>

definition zone_round_to_increment :: "(rat \<Rightarrow> int) \<Rightarrow> rat \<Rightarrow> rat \<Rightarrow> rat" where
  "zone_round_to_increment rounding v increment = dmul (of_int (rounding (ddiv v increment))) increment"

definition zone_floor :: "rat \<Rightarrow> rat \<Rightarrow> rat" where
  "zone_floor v increment = (if v \<le> 0 then 0 else zone_round_to_increment floor v increment)"

definition rest_price :: "string \<Rightarrow> rat \<Rightarrow> rat \<Rightarrow> rat" where
  "rest_price side price increment = zone_round_to_increment (if side = ''long'' then floor else ceiling) price increment"

definition tranche_price :: "string \<Rightarrow> rat \<Rightarrow> rat \<Rightarrow> rat \<Rightarrow> rat \<Rightarrow> rat" where
  "tranche_price side near height depth increment =
     rest_price side (if side = ''long'' then dsub near (dmul depth height) else dadd near (dmul depth height)) increment"

definition limit_cap :: "string \<Rightarrow> rat \<Rightarrow> rat" where
  "limit_cap side near = (if side = ''long'' then dmul near (dadd 1 chase_window) else dmul near (dsub 1 chase_window))"

definition zone_depth :: "string \<Rightarrow> rat \<Rightarrow> rat \<Rightarrow> rat \<Rightarrow> rat" where
  "zone_depth side p0 near height = (if side = ''long'' then ddiv (dsub near p0) height else ddiv (dsub p0 near) height)"

definition zone_premium :: "string \<Rightarrow> rat \<Rightarrow> rat \<Rightarrow> rat" where
  "zone_premium side p0 near = (if side = ''long'' then ddiv (dsub p0 near) near else ddiv (dsub near p0) near)"

section \<open>Tranches\<close>

definition base_tranche :: "string \<Rightarrow> rat \<Rightarrow> rat \<Rightarrow> rat \<Rightarrow> string \<times> nat \<times> rat \<times> rat \<Rightarrow> zone_tranche" where
  "base_tranche side near height increment lv =
     (case lv of (tid, seq, depth, weight) \<Rightarrow>
        \<lparr>zt_tranche_id = tid, zt_seq = seq, zt_price = tranche_price side near height depth increment,
         zt_risk_weight = weight, zt_style = ''rest'', zt_limit_cap = None\<rparr>)"

definition single_limit_tranche :: "string \<Rightarrow> rat \<Rightarrow> rat \<Rightarrow> rat \<Rightarrow> zone_tranche" where
  "single_limit_tranche side price_min price_max increment =
     \<lparr>zt_tranche_id = ''t1_near'', zt_seq = 1, zt_price = rest_price side (ddiv (dadd price_min price_max) 2) increment,
      zt_risk_weight = 1, zt_style = ''rest'', zt_limit_cap = None\<rparr>"

definition add_weight :: "rat \<Rightarrow> zone_tranche \<Rightarrow> zone_tranche" where
  "add_weight w t = t \<lparr>zt_risk_weight := dadd (zt_risk_weight t) w\<rparr>"

definition favorable :: "string \<Rightarrow> rat \<Rightarrow> zone_tranche \<Rightarrow> bool" where
  "favorable side p0 t = (if side = ''long'' then zt_price t < p0 else zt_price t > p0)"

fun keep_favorable :: "string \<Rightarrow> rat \<Rightarrow> rat \<Rightarrow> zone_tranche list \<Rightarrow> zone_tranche list \<Rightarrow> zone_tranche list" where
  "keep_favorable side p0 carry kept [] =
     (if carry \<noteq> 0 then butlast kept @ [add_weight carry (last kept)] else kept)"
| "keep_favorable side p0 carry kept (t # ts) =
     (if favorable side p0 t then keep_favorable side p0 0 (kept @ [add_weight carry t]) ts
      else keep_favorable side p0 (dadd carry (zt_risk_weight t)) kept ts)"

definition keep_stale_favorable_tranches :: "string \<Rightarrow> rat \<Rightarrow> zone_tranche list \<Rightarrow> zone_tranche list" where
  "keep_stale_favorable_tranches side p0 ts = keep_favorable side p0 0 [hd ts] (tl ts)"

definition chase_first :: "string \<Rightarrow> rat \<Rightarrow> zone_tranche list \<Rightarrow> zone_tranche list" where
  "chase_first side near ts = (hd ts) \<lparr>zt_style := ''chase'', zt_limit_cap := Some (limit_cap side near)\<rparr> # tl ts"

definition zone_ladder_tranches :: "string \<Rightarrow> rat \<Rightarrow> rat \<Rightarrow> rat \<Rightarrow> rat \<Rightarrow> rat \<Rightarrow> zone_tranche list" where
  "zone_ladder_tranches side p0 near height depth increment =
     (let base = map (base_tranche side near height increment) tranche_levels
      in if 0 < depth \<and> depth \<le> 1 then keep_stale_favorable_tranches side p0 (chase_first side near base)
         else if zone_premium side p0 near \<le> chase_window then chase_first side near base
         else base)"

section \<open>Sizing\<close>

definition stop_distance :: "rat \<Rightarrow> zone_tranche \<Rightarrow> rat" where
  "stop_distance stop_loss t = dabs (dsub (zt_price t) stop_loss)"

definition raw_quantity :: "rat \<Rightarrow> rat \<Rightarrow> zone_tranche \<Rightarrow> rat" where
  "raw_quantity stop_loss risk_budget t = ddiv (dmul risk_budget (zt_risk_weight t)) (stop_distance stop_loss t)"

definition notional_scale :: "rat \<Rightarrow> rat \<Rightarrow> rat" where
  "notional_scale max_notional tot = (if max_notional \<le> 0 then 0 else if tot > max_notional then ddiv max_notional tot else 1)"

definition size_once :: "rat \<Rightarrow> rat \<Rightarrow> rat \<Rightarrow> rat \<Rightarrow> zone_tranche list \<Rightarrow> ExpandDenied + (zone_tranche \<times> rat) list" where
  "size_once stop_loss risk_budget max_notional increment ts =
     (if list_ex (\<lambda>t. stop_distance stop_loss t \<le> 0) ts then Inl (expand_denied ''invalid_stop_loss'')
      else let raws = map (\<lambda>t. (t, raw_quantity stop_loss risk_budget t)) ts;
               scale = notional_scale max_notional (dsum (map (\<lambda>(t, q). dmul q (zt_price t)) raws))
           in Inr (map (\<lambda>(t, q). (t, zone_floor (dmul q scale) increment)) raws))"

fun zero_index :: "(zone_tranche \<times> rat) list \<Rightarrow> nat option" where
  "zero_index [] = None"
| "zero_index ((t, q) # rest) = (if q \<le> 0 then Some 0 else map_option Suc (zero_index rest))"

definition drop_tranche :: "nat \<Rightarrow> zone_tranche list \<Rightarrow> zone_tranche list" where
  "drop_tranche i ts =
     (let working = take i ts @ drop (Suc i) ts;
          target = (if i < length working then i else length working - 1)
      in working[target := add_weight (zt_risk_weight (ts ! i)) (working ! target)])"

fun sized_loop :: "nat \<Rightarrow> rat \<Rightarrow> rat \<Rightarrow> rat \<Rightarrow> rat \<Rightarrow> zone_tranche list \<Rightarrow> ExpandDenied + (zone_tranche \<times> rat) list" where
  "sized_loop 0 stop_loss risk_budget max_notional increment working = Inl (expand_denied ''quantity_below_increment'')"
| "sized_loop (Suc n) stop_loss risk_budget max_notional increment working =
     (case size_once stop_loss risk_budget max_notional increment working of
        Inl d \<Rightarrow> Inl d
      | Inr sized \<Rightarrow>
          (case zero_index sized of
             None \<Rightarrow> Inr sized
           | Some i \<Rightarrow>
               if length working = 1 then Inl (expand_denied ''quantity_below_increment'')
               else sized_loop n stop_loss risk_budget max_notional increment (drop_tranche i working)))"

definition sized_tranches :: "rat \<Rightarrow> rat \<Rightarrow> rat \<Rightarrow> rat \<Rightarrow> zone_tranche list \<Rightarrow> ExpandDenied + (zone_tranche \<times> rat) list" where
  "sized_tranches stop_loss risk_budget max_notional increment ts =
     sized_loop (length ts + 1) stop_loss risk_budget max_notional increment ts"

section \<open>The plan\<close>

definition places :: "decimal_text \<Rightarrow> nat" where
  "places t = nat (max 0 (- dt_exponent t))"

definition quantity_string :: "rat \<Rightarrow> decimal_text \<Rightarrow> json" where
  "quantity_string v increment = JDec (of_int (round_half_even (v * 10 ^ places increment)) / 10 ^ places increment)"

definition tranche_payload :: "decimal_text \<Rightarrow> zone_tranche \<times> rat \<Rightarrow> dict" where
  "tranche_payload increment p =
     (case p of (t, q) \<Rightarrow>
        [(''tranche_id'', JStr (zt_tranche_id t)), (''seq'', JNum (of_nat (zt_seq t))), (''price'', JNum (flt (zt_price t))),
         (''quantity'', quantity_string q increment), (''risk_weight'', JNum (flt (zt_risk_weight t))), (''style'', JStr (zt_style t))]
        @ (case zt_limit_cap t of Some c \<Rightarrow> [(''limit_cap'', JNum (flt c))] | None \<Rightarrow> []))"

definition expires_at :: "instant \<Rightarrow> instant option \<Rightarrow> instant" where
  "expires_at now valid_until = min (case valid_until of Some t \<Rightarrow> t | None \<Rightarrow> now + max_ttl) (now + max_ttl)"

definition invalidation :: "ZoneSignal \<Rightarrow> MarketContext \<Rightarrow> string \<Rightarrow> rat \<Rightarrow> rat \<Rightarrow> dict" where
  "invalidation signal market side far height =
     (case zs_take_profits signal of tp # _ \<Rightarrow> [(''cancel_on_price_touch'', JNum (flt tp))] | [] \<Rightarrow> [])
     @ [(''cancel_on_close_beyond'', JNum (flt (if side = ''long'' then dsub far (dmul invalidation_buffer height)
                                              else dadd far (dmul invalidation_buffer height)))),
        (''close_bar'', JStr ''15m''),
        (''expires_at'', JNum (of_int (expires_at (mk_now market) (zs_valid_until signal))))]"

definition zone_order_plan :: "ZoneSignal \<Rightarrow> MarketContext \<Rightarrow> string \<Rightarrow> string \<Rightarrow> (zone_tranche \<times> rat) list \<Rightarrow> rat \<Rightarrow> rat \<Rightarrow> rat \<Rightarrow> dict" where
  "zone_order_plan signal market side mode tranches stop_loss far height =
     [(''plan_version'', JDec (11 / 10)), (''policy'', JStr ''zone-ladder-v1.0''), (''mode'', JStr mode),
      (''tranches'', JList (map (JObj \<circ> tranche_payload (mk_quantity_increment market)) tranches)),
      (''stop_loss'', JNum (flt stop_loss)), (''take_profits'', JList (map (JNum \<circ> flt) (zs_take_profits signal))),
      (''invalidation'', JObj (invalidation signal market side far height))]"

definition zone_edges :: "ZoneSignal \<Rightarrow> string \<Rightarrow> rat \<times> rat \<times> rat" where
  "zone_edges signal side =
     (dsub (zs_price_max signal) (zs_price_min signal),
      if side = ''long'' then zs_price_max signal else zs_price_min signal,
      if side = ''long'' then zs_price_min signal else zs_price_max signal)"

definition zone_tranches :: "ZoneSignal \<Rightarrow> MarketContext \<Rightarrow> string \<Rightarrow> string \<times> zone_tranche list" where
  "zone_tranches signal market side =
     (case zone_edges signal side of (height, near, far) \<Rightarrow>
        let inc = text_value (mk_price_increment market)
        in if ddiv height near < narrow_zone_threshold
           then (''single_limit'', [single_limit_tranche side (zs_price_min signal) (zs_price_max signal) inc])
           else (''zone_ladder'', zone_ladder_tranches side (mk_p0 market) near height
                   (zone_depth side (mk_p0 market) near height) inc))"

definition expand_zone_to_plan :: "ZoneSignal \<Rightarrow> MarketContext \<Rightarrow> RiskContext \<Rightarrow> (ExpandDenied + dict) result" where
  "expand_zone_to_plan signal market risk =
     (let side = lower (zs_side signal)
      in if side \<notin> {''long'', ''short''} then Inl ValueError
         else if zs_price_max signal \<le> zs_price_min signal then Inl ValueError
         else if text_value (mk_price_increment market) \<le> 0 \<or> text_value (mk_quantity_increment market) \<le> 0 then Inl ValueError
         else
           case zone_edges signal side of (height, near, far) \<Rightarrow>
           if zone_depth side (mk_p0 market) near height > 1 then Inr (Inl (expand_denied ''zone_penetrated''))
           else case zs_stop_loss signal of
             None \<Rightarrow> Inr (Inl (expand_denied ''missing_stop_loss''))
           | Some stop_loss \<Rightarrow>
               if near = 0 then Inl ZeroDivision
               else case zone_tranches signal market side of (mode, tranches) \<Rightarrow>
                 (case sized_tranches stop_loss (rk_risk_budget_usd risk) (rk_max_notional risk)
                         (text_value (mk_quantity_increment market)) tranches of
                    Inl d \<Rightarrow> Inr (Inl d)
                  | Inr sized \<Rightarrow> Inr (Inr (zone_order_plan signal market side mode sized stop_loss far height))))"

section \<open>Risk weights\<close>

definition hundredths :: "rat \<Rightarrow> bool" where
  "hundredths w = (\<exists>k :: int. 0 \<le> k \<and> w = of_int k / 100)"

definition weights_ok :: "zone_tranche list \<Rightarrow> bool" where
  "weights_ok ts = (list_all (\<lambda>t. hundredths (zt_risk_weight t)) ts \<and> sum_list (map zt_risk_weight ts) = 1)"

lemma hundredths_nonneg: "hundredths w \<Longrightarrow> 0 \<le> w"
  by (auto simp: hundredths_def)

lemma dadd_hundredths:
  assumes "hundredths v" "hundredths w" "v + w \<le> 1"
  shows "dadd v w = v + w" "hundredths (v + w)"
proof -
  obtain j k where jk: "v = of_int j / 100" "w = of_int k / 100" "0 \<le> j" "0 \<le> k" using assms by (auto simp: hundredths_def)
  have vw: "v + w = of_int (j + k) / 10 ^ 2" by (simp add: jk add_divide_distrib)
  have "of_int (j + k) \<le> (100 :: rat)" using assms(3) unfolding vw by simp
  then have "j + k \<le> 100" by linarith
  then have "\<bar>j + k\<bar> \<le> 10 ^ 28" using jk by simp
  then show "dadd v w = v + w" unfolding dadd_def vw by (rule dec_cents)
  show "hundredths (v + w)" unfolding hundredths_def using vw jk(3,4) by (intro exI[of _ "j + k"]) simp
qed

lemma weights_sum_nonneg: "list_all (\<lambda>t. hundredths (zt_risk_weight t)) ts \<Longrightarrow> 0 \<le> sum_list (map zt_risk_weight ts)"
  by (induction ts) (auto dest: hundredths_nonneg)

lemma add_weight_simps [simp]:
  "zt_risk_weight (add_weight w t) = dadd (zt_risk_weight t) w" "zt_price (add_weight w t) = zt_price t"
  by (simp_all add: add_weight_def)

lemma keep_favorable_weights:
  assumes "hundredths carry" "list_all (\<lambda>t. hundredths (zt_risk_weight t)) (kept @ ts)" "kept \<noteq> []"
    "carry + sum_list (map zt_risk_weight (kept @ ts)) = 1"
  shows "weights_ok (keep_favorable side p0 carry kept ts)"
  using assms
proof (induction ts arbitrary: carry kept)
  case Nil
  show ?case
  proof (cases "carry = 0")
    case True
    then show ?thesis using Nil by (simp add: weights_ok_def)
  next
    case False
    obtain ks k where kept: "kept = ks @ [k]" using Nil.prems(3) by (metis rev_exhaust)
    have "0 \<le> sum_list (map zt_risk_weight ks)" using Nil.prems(2) kept by (intro weights_sum_nonneg) simp
    then have "zt_risk_weight k + carry \<le> 1" using Nil.prems(4) kept by simp
    with dadd_hundredths[of "zt_risk_weight k" carry] Nil.prems kept False show ?thesis
      by (simp add: weights_ok_def)
  qed
next
  case (Cons t ts)
  have "0 \<le> sum_list (map zt_risk_weight kept)" "0 \<le> sum_list (map zt_risk_weight ts)"
    using Cons.prems(2) by (auto intro: weights_sum_nonneg)
  then have le: "zt_risk_weight t + carry \<le> 1" "carry + zt_risk_weight t \<le> 1" using Cons.prems(4) by simp_all
  have h: "hundredths (zt_risk_weight t)" using Cons.prems(2) by simp
  note d = dadd_hundredths[OF h Cons.prems(1) le(1)] dadd_hundredths[OF Cons.prems(1) h le(2)]
  have z: "hundredths 0" by (auto simp: hundredths_def)
  show ?case
  proof (cases "favorable side p0 t")
    case True
    have "weights_ok (keep_favorable side p0 0 (kept @ [add_weight carry t]) ts)"
      by (rule Cons.IH) (use z d Cons.prems in simp_all)
    then show ?thesis using True by simp
  next
    case False
    have "weights_ok (keep_favorable side p0 (dadd carry (zt_risk_weight t)) kept ts)"
      by (rule Cons.IH) (use d Cons.prems in simp_all)
    then show ?thesis using False by simp
  qed
qed

lemma keep_favorable_prices:
  "kept \<noteq> [] \<Longrightarrow> zt_price ` set (keep_favorable side p0 carry kept ts) \<subseteq> zt_price ` set (kept @ ts)
     \<and> length (keep_favorable side p0 carry kept ts) \<le> length kept + length ts \<and> keep_favorable side p0 carry kept ts \<noteq> []"
proof (induction ts arbitrary: carry kept)
  case Nil
  then obtain ks k where "kept = ks @ [k]" by (metis rev_exhaust)
  then show ?case by simp
next
  case (Cons t ts)
  from Cons.IH[of "kept @ [add_weight carry t]" 0] Cons.IH[of kept "dadd carry (zt_risk_weight t)"] Cons.prems
  show ?case by auto
qed

lemma base_weights: "list_all (\<lambda>t. hundredths (zt_risk_weight t)) (map (base_tranche side near height inc) tranche_levels)"
  "sum_list (map zt_risk_weight (map (base_tranche side near height inc) tranche_levels)) = 1"
proof -
  have "hundredths (55 / 100)" "hundredths (30 / 100)" "hundredths (15 / 100)"
    unfolding hundredths_def by (rule exI[of _ 55], simp) (rule exI[of _ 30], simp, rule exI[of _ 15], simp)
  then show "list_all (\<lambda>t. hundredths (zt_risk_weight t)) (map (base_tranche side near height inc) tranche_levels)"
    by (simp add: base_tranche_def tranche_levels_def)
qed (simp add: base_tranche_def tranche_levels_def)

lemma zone_tranches_cases:
  assumes "zone_tranches signal market side = (mode, ts)" "zone_edges signal side = (height, near, far)"
  shows "let inc = text_value (mk_price_increment market); base = map (base_tranche side near height inc) tranche_levels
    in ts = [single_limit_tranche side (zs_price_min signal) (zs_price_max signal) inc] \<or> ts = base \<or> ts = chase_first side near base
       \<or> ts = keep_stale_favorable_tranches side (mk_p0 market) (chase_first side near base)"
  using assms(1) by (auto simp: zone_tranches_def assms(2) Let_def zone_ladder_tranches_def split: if_splits)

lemma zone_tranches_ok:
  assumes "zone_tranches signal market side = (mode, ts)"
  shows "weights_ok ts" "ts \<noteq> []" "length ts \<le> 3"
proof -
  obtain height near far where e: "zone_edges signal side = (height, near, far)" by (metis prod_cases3)
  let ?inc = "text_value (mk_price_increment market)"
  define base where "base = chase_first side near (map (base_tranche side near height ?inc) tranche_levels)"
  have w: "weights_ok base" "list_all (\<lambda>t. hundredths (zt_risk_weight t)) base" "base \<noteq> []" "length base = 3"
    using base_weights[of side near height ?inc] by (simp_all add: base_def chase_first_def weights_ok_def tranche_levels_def)
  have kept: "weights_ok (keep_stale_favorable_tranches side p0 base)" "keep_stale_favorable_tranches side p0 base \<noteq> []"
    "length (keep_stale_favorable_tranches side p0 base) \<le> 3" for p0
  proof -
    have b: "[hd base] @ tl base = base" using w(3) by simp
    show "weights_ok (keep_stale_favorable_tranches side p0 base)"
      unfolding keep_stale_favorable_tranches_def
      by (rule keep_favorable_weights) (use w b in \<open>simp_all add: hundredths_def weights_ok_def\<close>)
    show "keep_stale_favorable_tranches side p0 base \<noteq> []" "length (keep_stale_favorable_tranches side p0 base) \<le> 3"
      unfolding keep_stale_favorable_tranches_def
      using keep_favorable_prices[of "[hd base]" side p0 0 "tl base"] w(4) by simp_all
  qed
  have one: "weights_ok [single_limit_tranche side lo hi inc]" for lo hi inc
    by (auto simp: weights_ok_def single_limit_tranche_def hundredths_def intro: exI[of _ 100])
  have plain: "weights_ok (map (base_tranche side near height ?inc) tranche_levels)" using base_weights by (simp add: weights_ok_def)
  have three: "length (map (base_tranche side near height ?inc) tranche_levels) = 3" by (simp add: tranche_levels_def)
  from zone_tranches_cases[OF assms e, unfolded Let_def base_def[symmetric]]
  show "weights_ok ts" "ts \<noteq> []" "length ts \<le> 3" using kept[of "mk_p0 market"] w one plain three by auto
qed

lemma drop_tranche_ok:
  assumes "weights_ok ts" "i < length ts" "1 < length ts"
  shows "weights_ok (drop_tranche i ts)" "length (drop_tranche i ts) = length ts - 1"
    "zt_price ` set (drop_tranche i ts) \<subseteq> zt_price ` set ts"
proof -
  define ws where "ws = take i ts @ drop (Suc i) ts"
  define j where "j = (if i < length ws then i else length ws - 1)"
  have len: "length ws = length ts - 1" "j < length ws" using assms(2,3) by (auto simp: ws_def j_def)
  have split: "ts = take i ts @ ts ! i # drop (Suc i) ts" using assms(2) by (rule id_take_nth_drop)
  have h: "list_all (\<lambda>t. hundredths (zt_risk_weight t)) ws" "hundredths (zt_risk_weight (ts ! i))"
    using assms(1,2) by (auto simp: weights_ok_def list_all_iff ws_def dest: in_set_takeD in_set_dropD)
  have sum: "zt_risk_weight (ts ! i) + sum_list (map zt_risk_weight ws) = 1"
    using assms(1) unfolding weights_ok_def by (subst (asm) (2) split) (simp add: ws_def del: append_take_drop_id)
  have hj: "hundredths (zt_risk_weight (ws ! j))" using h(1) len(2) by (simp add: list_all_length)
  have parts: "sum_list (map zt_risk_weight ws) = sum_list (map zt_risk_weight (take j ws)) + zt_risk_weight (ws ! j) + sum_list (map zt_risk_weight (drop (Suc j) ws))"
    by (subst id_take_nth_drop[OF len(2)]) simp
  have "0 \<le> sum_list (map zt_risk_weight (take j ws))" "0 \<le> sum_list (map zt_risk_weight (drop (Suc j) ws))"
    by (rule weights_sum_nonneg, use h(1) in \<open>auto simp: list_all_iff dest: in_set_takeD in_set_dropD\<close>)+
  then have "zt_risk_weight (ws ! j) + zt_risk_weight (ts ! i) \<le> 1" using sum parts by linarith
  note d = dadd_hundredths[OF hj h(2) this]
  have drop: "drop_tranche i ts = ws[j := add_weight (zt_risk_weight (ts ! i)) (ws ! j)]"
    by (simp add: drop_tranche_def Let_def ws_def j_def)
  have "list_all (\<lambda>t. hundredths (zt_risk_weight t)) (drop_tranche i ts)"
    unfolding drop list_all_iff using h(1) d by (auto simp: list_all_iff dest!: set_update_subset_insert[THEN subsetD])
  moreover have "sum_list (map zt_risk_weight (drop_tranche i ts)) = 1"
    unfolding drop upd_conv_take_nth_drop[OF len(2)] using sum parts d(1) by simp
  ultimately show "weights_ok (drop_tranche i ts)" by (simp add: weights_ok_def)
  show "length (drop_tranche i ts) = length ts - 1" by (simp add: drop len)
  have "set ws \<subseteq> set ts" by (auto simp: ws_def dest: in_set_takeD in_set_dropD)
  moreover from this have "zt_price (ws ! j) \<in> zt_price ` set ts" using nth_mem[OF len(2)] by blast
  ultimately show "zt_price ` set (drop_tranche i ts) \<subseteq> zt_price ` set ts"
    unfolding drop using len(2) by (auto dest!: set_update_subset_insert[THEN subsetD])
qed

section \<open>Sizing\<close>

lemma zero_index_None: "zero_index sized = None \<longleftrightarrow> (\<forall>p \<in> set sized. 0 < snd p)"
  by (induction sized rule: zero_index.induct) auto

lemma zero_index_less: "zero_index sized = Some i \<Longrightarrow> i < length sized"
  by (induction sized arbitrary: i rule: zero_index.induct) (auto split: if_splits)

lemma size_once_length: "size_once s b m inc ts = Inr sized \<Longrightarrow> length sized = length ts"
  by (auto simp: size_once_def Let_def split: if_splits)

lemma sized_loop_result:
  assumes "sized_loop n s b m inc ts = Inr sized" "weights_ok ts" "ts \<noteq> []"
  shows "\<exists>ws. weights_ok ws \<and> ws \<noteq> [] \<and> length ws \<le> length ts \<and> zt_price ` set ws \<subseteq> zt_price ` set ts
    \<and> size_once s b m inc ws = Inr sized \<and> (\<forall>p \<in> set sized. 0 < snd p)"
  using assms
proof (induction n arbitrary: ts)
  case (Suc n)
  then obtain sz where sz: "size_once s b m inc ts = Inr sz" by (auto split: sum.splits)
  show ?case
  proof (cases "zero_index sz")
    case None
    then have "sz = sized" using Suc.prems(1) sz by simp
    with None sz Suc.prems show ?thesis by (intro exI[of _ ts]) (simp add: zero_index_None)
  next
    case (Some i)
    then have len: "length ts \<noteq> 1" and loop: "sized_loop n s b m inc (drop_tranche i ts) = Inr sized"
      using Suc.prems(1) sz by (auto split: if_splits)
    have i: "i < length ts" "1 < length ts"
      using zero_index_less[OF Some] size_once_length[OF sz] len by auto
    note d = drop_tranche_ok[OF Suc.prems(2) i]
    from Suc.IH[OF loop d(1)] d(2,3) i(2) show ?thesis by fastforce
  qed
qed simp

text \<open>Every round but the last drops a tranche, so the number of rounds the code allows is never used up.\<close>

lemma sized_loop_enough:
  assumes "weights_ok ts" "ts \<noteq> []" "length ts \<le> n" "n \<le> m"
  shows "sized_loop m s b mx inc ts = sized_loop n s b mx inc ts"
  using assms
proof (induction n arbitrary: m ts)
  case (Suc n)
  then obtain m' where m: "m = Suc m'" "n \<le> m'" by (cases m) auto
  show ?case
  proof (cases "size_once s b mx inc ts")
    case (Inr sz)
    show ?thesis
    proof (cases "zero_index sz")
      case (Some i)
      have i: "i < length ts" using zero_index_less[OF Some] size_once_length[OF Inr] by simp
      show ?thesis
      proof (cases "length ts = 1")
        case False
        then have l: "1 < length ts" using Suc.prems(2) by (cases ts) auto
        note d = drop_tranche_ok[OF Suc.prems(1) i l]
        have "sized_loop m' s b mx inc (drop_tranche i ts) = sized_loop n s b mx inc (drop_tranche i ts)"
          by (rule Suc.IH) (use d l Suc.prems(3) m(2) in auto)
        then show ?thesis using Inr Some False m by simp
      qed (use Inr Some m in simp)
    qed (use Inr m in simp)
  qed (use m in simp)
qed simp


lemma notional_scale_bounds: "0 \<le> notional_scale m tot" "notional_scale m tot \<le> 1"
proof -
  have "ddiv m tot \<le> 1" if "0 < m" "m < tot"
    unfolding ddiv_def using that dec.rnd_mono[of "m / tot" 1] by simp
  then show "notional_scale m tot \<le> 1" by (auto simp: notional_scale_def)
  show "0 \<le> notional_scale m tot"
    by (auto simp: notional_scale_def ddiv_def intro!: dec.rnd_nonneg divide_nonneg_pos)
qed

lemma zone_floor_pos:
  assumes "0 < zone_floor v inc" "0 < inc"
  shows "0 < v" "zone_floor v inc \<le> (1 + dec_eps) ^ 2 * v" "\<exists>k. zone_floor v inc = dmul (of_int k) inc"
proof -
  show v: "0 < v" using assms by (auto simp: zone_floor_def split: if_splits)
  then show "zone_floor v inc \<le> (1 + dec_eps) ^ 2 * v"
    using floor_to_increment_le[of v inc] assms(2) by (simp add: zone_floor_def zone_round_to_increment_def floor_to_increment_def)
  show "\<exists>k. zone_floor v inc = dmul (of_int k) inc" using v by (auto simp: zone_floor_def zone_round_to_increment_def)
qed

text \<open>One tranche: what the sized quantity costs at the stop, and how far it may exceed the scaled raw quantity.\<close>

lemma sized_quantity_bounds:
  assumes q: "0 < zone_floor (dmul (raw_quantity s b t) scale) inc" "0 < inc" and scale: "0 \<le> scale" "scale \<le> 1"
    and d: "0 < stop_distance s t" and w: "0 \<le> zt_risk_weight t"
  shows "zone_floor (dmul (raw_quantity s b t) scale) inc * stop_distance s t \<le> (1 + dec_eps) ^ 4 * (b * zt_risk_weight t)"
    "zone_floor (dmul (raw_quantity s b t) scale) inc \<le> (1 + dec_eps) ^ 3 * (raw_quantity s b t * scale)"
    "0 < raw_quantity s b t"
proof -
  let ?r = "raw_quantity s b t" and ?d = "stop_distance s t" and ?w = "zt_risk_weight t" and ?e = "1 + dec_eps"
  let ?q = "zone_floor (dmul ?r scale) inc"
  have e1: "1 \<le> ?e" by (simp add: dec_eps_def)
  note f = zone_floor_pos[OF q]
  have "0 < ?r * scale" using f(1) by (simp add: dmul_def dec.rnd_pos_iff)
  then show r: "0 < ?r" using scale(1) by (simp add: zero_less_mult_iff)
  have up: "dmul ?r scale \<le> ?e * (?r * scale)" unfolding dmul_def by (rule dec.rnd_upper) (use \<open>0 < ?r * scale\<close> in simp)
  have "?q \<le> ?e ^ 2 * (?e * (?r * scale))"
    using f(2) mult_left_mono[OF up, of "?e ^ 2"] by simp
  then show "?q \<le> ?e ^ 3 * (?r * scale)" by (simp add: power3_eq_cube power2_eq_square mult.assoc)
  have rec: "dec ?r = ?r" by (simp add: raw_quantity_def ddiv_def dec.rnd_idem)
  have "dmul ?r scale \<le> dec ?r" unfolding dmul_def by (rule dec.rnd_mono) (use r scale in \<open>simp add: mult_left_le\<close>)
  then have qr: "?q \<le> ?e ^ 2 * ?r" using f(2) mult_left_mono[of "dmul ?r scale" ?r "?e ^ 2"] rec by simp
  have "0 < dmul b ?w" using r d by (simp add: raw_quantity_def ddiv_def dec.rnd_pos_iff zero_less_divide_iff)
  then have bw: "0 < b * ?w" by (simp add: dmul_def dec.rnd_pos_iff)
  have "?r \<le> ?e * (dmul b ?w / ?d)" unfolding raw_quantity_def ddiv_def
    by (rule dec.rnd_upper) (use \<open>0 < dmul b ?w\<close> d in simp)
  then have "?r * ?d \<le> ?e * dmul b ?w" using d by (simp add: field_simps)
  also have "\<dots> \<le> ?e * (?e * (b * ?w))" unfolding dmul_def
    by (intro mult_left_mono dec.rnd_upper) (use bw e1 in auto)
  finally have rd: "?r * ?d \<le> ?e ^ 2 * (b * ?w)" by (simp add: power2_eq_square mult.assoc)
  have "?q * ?d \<le> ?e ^ 2 * ?r * ?d" using qr d by (intro mult_right_mono) auto
  also have "\<dots> = ?e ^ 2 * (?r * ?d)" by simp
  also have "\<dots> \<le> ?e ^ 2 * (?e ^ 2 * (b * ?w))" by (intro mult_left_mono rd) simp
  also have "\<dots> = ?e ^ 4 * (b * ?w)" by (simp add: power2_eq_square power4_eq_xxxx mult.assoc)
  finally show "?q * ?d \<le> ?e ^ 4 * (b * ?w)" .
qed

lemma dsum_from_lower:
  assumes "0 \<le> acc" "\<forall>x \<in> set xs. 0 \<le> x"
  shows "(1 - dec_eps) ^ length xs * (acc + sum_list xs) \<le> dsum_from acc xs"
  using assms
proof (induction xs arbitrary: acc)
  case (Cons x xs)
  let ?f = "1 - dec_eps"
  have f: "0 \<le> ?f" "?f \<le> 1" by (simp_all add: dec_eps_def)
  have s: "0 \<le> sum_list xs" using Cons.prems by (simp add: sum_list_nonneg)
  have a: "?f * (acc + x) \<le> dadd acc x" unfolding dadd_def by (rule dec.rnd_lower) (use Cons.prems in simp)
  have "?f * (acc + x + sum_list xs) \<le> ?f * (acc + x) + sum_list xs"
    using mult_left_le_one_le[OF s f] by (simp add: ring_distribs)
  also have "\<dots> \<le> dadd acc x + sum_list xs" using a by simp
  finally have "?f ^ length xs * (?f * (acc + x + sum_list xs)) \<le> ?f ^ length xs * (dadd acc x + sum_list xs)"
    using f by (intro mult_left_mono) auto
  also have "\<dots> \<le> dsum_from (dadd acc x) xs"
    by (rule Cons.IH) (use Cons.prems in \<open>auto simp: dadd_def intro: dec.rnd_nonneg\<close>)
  finally show ?case by (simp add: mult.assoc mult.left_commute add.assoc)
qed simp

lemma size_once_Inr:
  assumes "size_once s b m inc ws = Inr sized" "\<forall>p \<in> set sized. 0 < snd p" "0 < inc" "weights_ok ws"
  shows "\<exists>scale. 0 \<le> scale \<and> scale \<le> 1 \<and> map fst sized = ws
    \<and> scale = notional_scale m (dsum (map (\<lambda>t. dmul (raw_quantity s b t) (zt_price t)) ws))
    \<and> sized = map (\<lambda>t. (t, zone_floor (dmul (raw_quantity s b t) scale) inc)) ws
    \<and> (\<forall>t \<in> set ws. 0 < stop_distance s t \<and> 0 \<le> zt_risk_weight t \<and> 0 < zone_floor (dmul (raw_quantity s b t) scale) inc)"
proof -
  let ?scale = "notional_scale m (dsum (map (\<lambda>t. dmul (raw_quantity s b t) (zt_price t)) ws))"
  have ok: "\<forall>t \<in> set ws. 0 < stop_distance s t"
    and sized: "sized = map (\<lambda>t. (t, zone_floor (dmul (raw_quantity s b t) ?scale) inc)) ws"
    using assms(1) by (auto simp: size_once_def Let_def comp_def case_prod_unfold list_ex_iff not_le split: if_splits)
  have "\<forall>t \<in> set ws. 0 < zone_floor (dmul (raw_quantity s b t) ?scale) inc" using assms(2) by (auto simp: sized)
  moreover have "\<forall>t \<in> set ws. 0 \<le> zt_risk_weight t" using assms(4) by (auto simp: weights_ok_def list_all_iff dest: hundredths_nonneg)
  moreover have "map fst sized = ws" by (simp add: sized comp_def)
  ultimately show ?thesis using notional_scale_bounds ok sized by (intro exI[of _ ?scale]) blast
qed

lemma sized_risk:
  assumes "size_once s b m inc ws = Inr sized" "\<forall>p \<in> set sized. 0 < snd p" "0 < inc" "weights_ok ws"
  shows "(\<Sum>(t, q) \<leftarrow> sized. q * stop_distance s t) \<le> (1 + dec_eps) ^ 4 * b"
proof -
  obtain scale where sc: "0 \<le> scale" "scale \<le> 1" "sized = map (\<lambda>t. (t, zone_floor (dmul (raw_quantity s b t) scale) inc)) ws"
    "\<forall>t \<in> set ws. 0 < stop_distance s t \<and> 0 \<le> zt_risk_weight t \<and> 0 < zone_floor (dmul (raw_quantity s b t) scale) inc"
    using size_once_Inr[OF assms] by blast
  have "(\<Sum>t \<leftarrow> ws. zone_floor (dmul (raw_quantity s b t) scale) inc * stop_distance s t)
      \<le> (\<Sum>t \<leftarrow> ws. (1 + dec_eps) ^ 4 * (b * zt_risk_weight t))"
    by (rule sum_list_mono) (use sc(1,2,4) assms(3) in \<open>auto intro!: sized_quantity_bounds(1)\<close>)
  also have "\<dots> = (1 + dec_eps) ^ 4 * b * sum_list (map zt_risk_weight ws)"
    by (simp add: sum_list_const_mult mult.assoc)
  finally show ?thesis using assms(4) by (simp add: sc(3) comp_def weights_ok_def)
qed

lemma sized_notional:
  assumes "size_once s b m inc ws = Inr sized" "\<forall>p \<in> set sized. 0 < snd p" "0 < inc" "weights_ok ws" "ws \<noteq> []"
    "\<forall>t \<in> set ws. 0 \<le> zt_price t"
  shows "(1 - dec_eps) ^ (length ws + 1) * (\<Sum>(t, q) \<leftarrow> sized. q * zt_price t) \<le> (1 + dec_eps) ^ 4 * m"
proof -
  let ?e = "1 + dec_eps" and ?f = "1 - dec_eps"
  let ?r = "raw_quantity s b" and ?raws = "map (\<lambda>t. dmul (raw_quantity s b t) (zt_price t)) ws"
  obtain scale where sc: "0 \<le> scale" "scale \<le> 1" "scale = notional_scale m (dsum ?raws)"
    "sized = map (\<lambda>t. (t, zone_floor (dmul (?r t) scale) inc)) ws"
    "\<forall>t \<in> set ws. 0 < stop_distance s t \<and> 0 \<le> zt_risk_weight t \<and> 0 < zone_floor (dmul (?r t) scale) inc"
    using size_once_Inr[OF assms(1-4)] by blast
  have f: "0 \<le> ?f" "?f \<le> 1" and e: "1 \<le> ?e" by (simp_all add: dec_eps_def)
  have rpos: "0 < ?r t" if "t \<in> set ws" for t
    using sized_quantity_bounds(3)[OF _ assms(3) sc(1,2)] sc(5) that by blast
  have nn: "0 \<le> ?r t * zt_price t" if "t \<in> set ws" for t
    using rpos[OF that] assms(6) that by (simp add: less_imp_le)
  let ?N = "\<Sum>t \<leftarrow> ws. ?r t * zt_price t"
  have N0: "0 \<le> ?N" by (intro sum_list_nonneg) (use nn in auto)
  have "(\<Sum>t \<leftarrow> ws. zone_floor (dmul (?r t) scale) inc * zt_price t) \<le> (\<Sum>t \<leftarrow> ws. ?e ^ 3 * scale * (?r t * zt_price t))"
  proof (rule sum_list_mono)
    fix t assume t: "t \<in> set ws"
    have "zone_floor (dmul (?r t) scale) inc \<le> ?e ^ 3 * (?r t * scale)"
      by (rule sized_quantity_bounds(2)) (use sc(1,2,5) t assms(3) in auto)
    from mult_right_mono[OF this, of "zt_price t"] assms(6) t
    show "zone_floor (dmul (?r t) scale) inc * zt_price t \<le> ?e ^ 3 * scale * (?r t * zt_price t)" by (simp add: ac_simps)
  qed
  also have "\<dots> = ?e ^ 3 * scale * ?N" by (simp add: sum_list_const_mult)
  finally have q: "(\<Sum>(t, q) \<leftarrow> sized. q * zt_price t) \<le> ?e ^ 3 * scale * ?N" by (simp add: sc(4) comp_def)
  have "?f * ?N \<le> sum_list ?raws"
  proof -
    have "(\<Sum>t \<leftarrow> ws. ?f * (?r t * zt_price t)) \<le> sum_list ?raws"
      by (rule sum_list_mono) (simp add: dmul_def dec.rnd_lower nn)
    then show ?thesis by (simp add: sum_list_const_mult)
  qed
  then have "?f ^ length ws * (?f * ?N) \<le> ?f ^ length ws * sum_list ?raws" using f by (intro mult_left_mono) auto
  also have "\<dots> \<le> dsum ?raws"
    unfolding dsum_def using dsum_from_lower[of 0 ?raws] nn by (simp add: dmul_def dec.rnd_nonneg)
  finally have tot: "?f ^ (length ws + 1) * ?N \<le> dsum ?raws" by (simp add: mult.assoc mult.commute mult.left_commute)
  have m0: "0 < m"
  proof (rule ccontr)
    assume "\<not> 0 < m"
    then have "scale = 0" by (simp add: sc(3) notional_scale_def)
    moreover obtain t where "t \<in> set ws" using assms(5) by (cases ws) auto
    ultimately show False using sc(5) by (auto simp: dmul_def zone_floor_def)
  qed
  have "scale * dsum ?raws \<le> ?e * m"
  proof (cases "m < dsum ?raws")
    case True
    then have "scale \<le> ?e * (m / dsum ?raws)" unfolding sc(3) notional_scale_def ddiv_def
      using m0 dec.rnd_upper[of "m / dsum ?raws"] by simp
    then show ?thesis using True m0 by (simp add: field_simps)
  next
    case False
    then have "scale * dsum ?raws \<le> m" using m0 by (simp add: sc(3) notional_scale_def)
    also have "\<dots> \<le> ?e * m" using m0 e by simp
    finally show ?thesis .
  qed
  then have s: "scale * (?f ^ (length ws + 1) * ?N) \<le> ?e * m" using mult_left_mono[OF tot sc(1)] by linarith
  have "?f ^ (length ws + 1) * (\<Sum>(t, q) \<leftarrow> sized. q * zt_price t) \<le> ?f ^ (length ws + 1) * (?e ^ 3 * scale * ?N)"
    by (intro mult_left_mono q zero_le_power f(1))
  also have "\<dots> = ?e ^ 3 * (scale * (?f ^ (length ws + 1) * ?N))" by (simp only: ac_simps)
  also have "\<dots> \<le> ?e ^ 3 * (?e * m)" by (intro mult_left_mono s zero_le_power) (use e in linarith)
  also have "\<dots> = ?e ^ 4 * m" by (simp add: power3_eq_cube power4_eq_xxxx mult.assoc)
  finally show ?thesis .
qed


section \<open>Prices and texts\<close>

lemma rest_price_nonneg:
  assumes "0 \<le> p" "0 < inc"
  shows "0 \<le> rest_price side p inc"
proof -
  have "0 \<le> dec (p / inc)" using assms by (intro dec.rnd_nonneg) simp
  moreover from this have "0 \<le> \<lceil>dec (p / inc)\<rceil>" by linarith
  ultimately show ?thesis using assms(2)
    by (simp add: rest_price_def zone_round_to_increment_def dmul_def ddiv_def dec.rnd_nonneg)
qed

lemma tranche_price_nonneg:
  assumes "0 \<le> lo" "lo \<le> hi" "0 \<le> depth" "depth \<le> 9 / 10" "0 < inc"
  shows "0 \<le> tranche_price side (if side = ''long'' then hi else lo) (dsub hi lo) depth inc"
proof -
  let ?h = "dsub hi lo"
  have h: "0 \<le> ?h" unfolding dsub_def using assms by (intro dec.rnd_nonneg) simp
  have "?h \<le> (1 + dec_eps) * hi" unfolding dsub_def
    using dec.rnd_upper[of "hi - lo"] assms mult_left_mono[of "hi - lo" hi "1 + dec_eps"] by (simp add: dec_eps_def)
  then have "depth * ?h \<le> 9 / 10 * ((1 + dec_eps) * hi)" using assms h by (intro mult_mono) auto
  moreover have "dmul depth ?h \<le> (1 + dec_eps) * (depth * ?h)" unfolding dmul_def using assms h by (intro dec.rnd_upper) simp
  ultimately have "dmul depth ?h \<le> (1 + dec_eps) * (9 / 10 * ((1 + dec_eps) * hi))"
    using mult_left_mono[of "depth * ?h" "9 / 10 * ((1 + dec_eps) * hi)" "1 + dec_eps"] by (simp add: dec_eps_def)
  also have "\<dots> = (1 + dec_eps) ^ 2 * (9 / 10) * hi" by (simp add: power2_eq_square)
  also have "\<dots> \<le> 1 * hi" using assms by (intro mult_right_mono) (simp_all add: dec_eps_def power2_eq_square)
  finally have "0 \<le> dsub hi (dmul depth ?h)" unfolding dsub_def by (intro dec.rnd_nonneg) simp
  moreover have "0 \<le> dadd lo (dmul depth ?h)" unfolding dadd_def dmul_def
    using assms h by (intro dec.rnd_nonneg add_nonneg_nonneg) (auto intro: dec.rnd_nonneg)
  ultimately show ?thesis unfolding tranche_price_def using assms(5) by (simp add: rest_price_nonneg)
qed

lemma zone_tranches_prices:
  assumes "zone_tranches signal market side = (mode, ts)" "0 \<le> zs_price_min signal" "zs_price_min signal \<le> zs_price_max signal"
    "0 < text_value (mk_price_increment market)"
  shows "\<forall>t \<in> set ts. 0 \<le> zt_price t"
proof -
  let ?inc = "text_value (mk_price_increment market)"
  let ?near = "if side = ''long'' then zs_price_max signal else zs_price_min signal"
  let ?height = "dsub (zs_price_max signal) (zs_price_min signal)"
  define base where "base = map (base_tranche side ?near ?height ?inc) tranche_levels"
  have "0 \<le> tranche_price side ?near ?height d ?inc" if "d \<in> {0, 50 / 100, 85 / 100}" for d
    by (rule tranche_price_nonneg) (use assms(2-4) that in auto)
  then have b: "\<forall>t \<in> set base. 0 \<le> zt_price t" by (auto simp: base_def base_tranche_def tranche_levels_def)
  have "base \<noteq> []" by (simp add: base_def tranche_levels_def)
  then have c: "\<forall>t \<in> set (chase_first side ?near base). 0 \<le> zt_price t" "chase_first side ?near base \<noteq> []"
    using b by (cases base; simp add: chase_first_def)+
  have k: "\<forall>t \<in> set (keep_stale_favorable_tranches side p0 (chase_first side ?near base)). 0 \<le> zt_price t" for p0
    unfolding keep_stale_favorable_tranches_def
    using keep_favorable_prices[of "[hd (chase_first side ?near base)]" side p0 0 "tl (chase_first side ?near base)"] c by fastforce
  have "0 \<le> rest_price side (ddiv (dadd (zs_price_min signal) (zs_price_max signal)) 2) ?inc"
    using assms(2-4) by (intro rest_price_nonneg) (auto simp: ddiv_def dadd_def intro!: dec.rnd_nonneg)
  then have single: "\<forall>t \<in> set [single_limit_tranche side (zs_price_min signal) (zs_price_max signal) ?inc]. 0 \<le> zt_price t"
    by (simp add: single_limit_tranche_def)
  have e: "zone_edges signal side = (?height, ?near, if side = ''long'' then zs_price_min signal else zs_price_max signal)"
    by (simp only: zone_edges_def)
  from zone_tranches_cases[OF assms(1) e, unfolded Let_def] consider "ts = [single_limit_tranche side (zs_price_min signal) (zs_price_max signal) ?inc]"
    | "ts = base" | "ts = chase_first side ?near base"
    | "ts = keep_stale_favorable_tranches side (mk_p0 market) (chase_first side ?near base)"
    unfolding base_def by blast
  then show ?thesis using b c(1) k single by cases (simp_all only:)
qed

lemma dec_multiple: "\<exists>m'. dec (of_int m * 10 powi e) = of_int m' * 10 powi e"
proof (cases "\<bar>m\<bar> \<le> 10 ^ 28")
  case True
  then have "dec (of_int m * 10 powi e) = of_int m * 10 powi e" by (rule dec_exact[OF refl])
  then show ?thesis by blast
next
  case False
  let ?x = "of_int m * 10 powi e :: rat"
  have x0: "?x \<noteq> 0" using False by auto
  have "of_int (10 ^ 28) \<le> (of_int \<bar>m\<bar> :: rat)" using False by (simp only: of_int_le_iff not_le less_imp_le)
  then have "(10 :: rat) ^ 28 * 10 powi e \<le> of_int \<bar>m\<bar> * 10 powi e"
    by (intro mult_right_mono) (simp_all only: of_int_power of_int_numeral zero_le_power_int zero_le_numeral)
  also have "\<dots> = \<bar>?x\<bar>" by (simp add: abs_mult)
  also have "\<dots> < 10 powi (expo 10 ?x + 1)" using expo_bounds(2)[of 10 ?x] x0 by simp
  finally have lt: "(10 :: rat) ^ 28 * 10 powi e < 10 powi (expo 10 ?x + 1)" .
  have eq: "(10 :: rat) ^ 28 * 10 powi e = 10 powi (int 28 + e)" by (rule pow_mult_powi) simp
  have "\<not> expo 10 ?x + 1 \<le> int 28 + e"
    using lt power_int_increasing[of "expo 10 ?x + 1" "int 28 + e" "10 :: rat"] unfolding eq by linarith
  then have "expo 10 ?x - 27 = int (nat (expo 10 ?x - 27 - e)) + e" by simp
  then obtain k where k: "expo 10 ?x - 27 = int k + e" by blast
  have "dec ?x = of_int (round_half_even (?x / 10 powi (expo 10 ?x - 27))) * 10 powi (int k + e)"
    using x0 by (simp add: dec_def sig_round_def k Let_def)
  also have "\<dots> = of_int (round_half_even (?x / 10 powi (expo 10 ?x - 27)) * 10 ^ k) * 10 powi e"
    by (simp add: power_int_add)
  finally show ?thesis by blast
qed

lemma quantity_string_exact: "quantity_string (dmul (of_int k) (text_value inc)) inc = JDec (dmul (of_int k) (text_value inc))"
proof -
  obtain m where m: "dmul (of_int k) (text_value inc) = of_int m * 10 powi dt_exponent inc"
    using dec_multiple[of "k * dt_coefficient inc" "dt_exponent inc"] by (auto simp: dmul_def text_value_def mult.assoc)
  have "\<exists>j. (of_int m * 10 powi dt_exponent inc * 10 ^ places inc :: rat) = of_int j"
  proof (cases "0 \<le> dt_exponent inc")
    case True
    then have "(10 :: rat) powi dt_exponent inc = of_int (10 ^ nat (dt_exponent inc))" by (simp add: power_int_def)
    then show ?thesis by (metis of_int_mult of_int_numeral of_int_power)
  next
    case False
    then have "(10 :: rat) powi dt_exponent inc * 10 ^ places inc = 1"
      by (simp add: places_def power_int_def field_simps)
    then show ?thesis by (intro exI[of _ m]) (simp add: mult.assoc)
  qed
  then obtain j where j: "of_int m * 10 powi dt_exponent inc * 10 ^ places inc = (of_int j :: rat)" by blast
  then have "of_int j / 10 ^ places inc = (of_int m * 10 powi dt_exponent inc :: rat)" by (simp add: field_simps)
  then show ?thesis unfolding m quantity_string_def j by simp
qed

text \<open>
  C7. A zone plan stays within its risk. A plan has between one and three tranches with positive quantities on the
  increment, each written out exactly; whatever levels were dropped, their risk weights still add up to one. The loss of the whole ladder at the stop
  is at most the risk budget and, for a zone of prices that are not negative, its notional is at most the cap; both up to the
  rounding of a few decimal operations (a relative error of about 4e-27).
\<close>

theorem zone_plan_within_risk:
  assumes "expand_zone_to_plan signal market risk = Inr (Inr plan)"
  shows "\<exists>stop sized. zs_stop_loss signal = Some stop
    \<and> jget plan ''tranches'' = JList (map (JObj \<circ> tranche_payload (mk_quantity_increment market)) sized)
    \<and> sized \<noteq> [] \<and> length sized \<le> 3
    \<and> (\<forall>(t, q) \<in> set sized. 0 < q \<and> (\<exists>k. q = dmul (of_int k) (text_value (mk_quantity_increment market)))
         \<and> quantity_string q (mk_quantity_increment market) = JDec q)
    \<and> (\<Sum>(t, q) \<leftarrow> sized. zt_risk_weight t) = 1
    \<and> (\<Sum>(t, q) \<leftarrow> sized. q * stop_distance stop t) \<le> (1 + dec_eps) ^ 4 * rk_risk_budget_usd risk
    \<and> (0 \<le> zs_price_min signal \<longrightarrow>
         (1 - dec_eps) ^ 4 * (\<Sum>(t, q) \<leftarrow> sized. q * zt_price t) \<le> (1 + dec_eps) ^ 4 * rk_max_notional risk)"
proof -
  let ?side = "lower (zs_side signal)" and ?inc = "text_value (mk_quantity_increment market)"
  let ?b = "rk_risk_budget_usd risk" and ?m = "rk_max_notional risk"
  obtain height near far where e: "zone_edges signal ?side = (height, near, far)" by (metis prod_cases3)
  obtain mode ts where ts: "zone_tranches signal market ?side = (mode, ts)" by (metis surj_pair)
  obtain stop sized where stop: "zs_stop_loss signal = Some stop" and inc: "0 < ?inc" "0 < text_value (mk_price_increment market)"
    and lohi: "zs_price_min signal \<le> zs_price_max signal"
    and loop: "sized_tranches stop ?b ?m ?inc ts = Inr sized"
    and plan: "plan = zone_order_plan signal market ?side mode sized stop far height"
    using assms unfolding expand_zone_to_plan_def Let_def e ts prod.case
    by (auto simp: not_le split: if_splits option.splits sum.splits)
  note tok = zone_tranches_ok[OF ts]
  from sized_loop_result[OF loop[unfolded sized_tranches_def] tok(1,2)] obtain ws where
    ws: "weights_ok ws" "ws \<noteq> []" "length ws \<le> length ts" "zt_price ` set ws \<subseteq> zt_price ` set ts"
      "size_once stop ?b ?m ?inc ws = Inr sized" and pos: "\<forall>p \<in> set sized. 0 < snd p" by blast
  obtain scale where sc: "map fst sized = ws" "sized = map (\<lambda>t. (t, zone_floor (dmul (raw_quantity stop ?b t) scale) ?inc)) ws"
    using size_once_Inr[OF ws(5) pos inc(1) ws(1)] by blast
  have grid: "\<exists>k. q = dmul (of_int k) ?inc" if "(t, q) \<in> set sized" for t q
    using that pos zone_floor_pos(3)[OF _ inc(1)] unfolding sc(2) by auto
  have weights: "(\<Sum>(t, q) \<leftarrow> sized. zt_risk_weight t) = 1"
    using ws(1) unfolding sc(1)[symmetric] weights_ok_def by (simp add: comp_def case_prod_unfold)
  have "(1 - dec_eps) ^ 4 * (\<Sum>(t, q) \<leftarrow> sized. q * zt_price t) \<le> (1 + dec_eps) ^ 4 * ?m" if "0 \<le> zs_price_min signal"
  proof -
    have p: "\<forall>t \<in> set ws. 0 \<le> zt_price t" using zone_tranches_prices[OF ts that lohi inc(2)] ws(4) by fastforce
    have "(1 - dec_eps) ^ 4 \<le> (1 - dec_eps) ^ (length ws + 1)"
      using ws(3) tok(3) by (intro power_decreasing) (simp_all add: dec_eps_def)
    moreover have "0 \<le> (\<Sum>(t, q) \<leftarrow> sized. q * zt_price t)"
      by (rule sum_list_nonneg) (use pos p in \<open>auto simp: sc(2) less_imp_le\<close>)
    ultimately show ?thesis using sized_notional[OF ws(5) pos inc(1) ws(1,2) p] mult_right_mono order_trans by blast
  qed
  moreover have "jget plan ''tranches'' = JList (map (JObj \<circ> tranche_payload (mk_quantity_increment market)) sized)"
    by (simp add: plan zone_order_plan_def jget_def)
  moreover have "sized \<noteq> []" "length sized \<le> 3" using sc(1) ws(2,3) tok(3) by (auto simp flip: sc(1))
  moreover have "\<forall>(t, q) \<in> set sized. 0 < q \<and> (\<exists>k. q = dmul (of_int k) ?inc) \<and> quantity_string q (mk_quantity_increment market) = JDec q"
    using pos grid quantity_string_exact by fastforce
  ultimately show ?thesis using stop weights sized_risk[OF ws(5) pos inc(1) ws(1)] by blast
qed

text \<open>The code's bound on the number of sizing rounds is never reached: more rounds give the same result.\<close>

lemma sized_tranches_enough:
  assumes "weights_ok ts" "ts \<noteq> []" "length ts \<le> n"
  shows "sized_loop n s b m inc ts = sized_tranches s b m inc ts"
  unfolding sized_tranches_def
  using sized_loop_enough[OF assms(1,2) le_refl, of n] sized_loop_enough[OF assms(1,2) le_refl, of "length ts + 1"] assms(3) by simp

lemma expires_within_ttl: "expires_at now valid_until \<le> now + max_ttl"
  by (simp add: expires_at_def)

section \<open>Example\<close>

definition example_zone :: ZoneSignal where
  "example_zone = \<lparr>zs_side = ''long'', zs_price_min = 999, zs_price_max = 1000, zs_stop_loss = Some 989,
     zs_take_profits = [1200], zs_valid_until = None\<rparr>"

definition example_market :: MarketContext where
  "example_market = \<lparr>mk_p0 = 1001, mk_now = 0, mk_price_increment = \<lparr>dt_coefficient = 1, dt_exponent = 0\<rparr>,
     mk_quantity_increment = \<lparr>dt_coefficient = 1, dt_exponent = 0\<rparr>\<rparr>"

definition example_risk :: RiskContext where
  "example_risk = \<lparr>rk_risk_budget_usd = 400, rk_max_notional = 100000, rk_max_leverage = 5\<rparr>"

lemma example_expands: "\<exists>plan. expand_zone_to_plan example_zone example_market example_risk = Inr (Inr plan)"
proof -
  have l: "lower ''long'' = ''long''" by code_simp
  have d: "dec (1 / 1000) = 1 / 1000" "dec (1999 / 2) = 1999 / 2" "dec (- 1) = - 1"
    using dec_cents[of 1 3] dec_cents[of 9995 1] dec.rnd_minus[of 1] by simp_all
  have inc: "text_value \<lparr>dt_coefficient = 1, dt_exponent = 0\<rparr> = 1" by (simp add: text_value_def)
  have t: "zone_tranches example_zone example_market ''long'' = (''single_limit'', [single_limit_tranche ''long'' 999 1000 1])"
    by (simp add: zone_tranches_def zone_edges_def example_zone_def example_market_def dsub_def ddiv_def d narrow_zone_threshold_def inc)
  have fl: "\<lfloor>1999 / 2 :: rat\<rfloor> = 999" by (simp add: floor_eq_iff)
  have p: "zt_price (single_limit_tranche ''long'' 999 1000 1) = 999" "zt_risk_weight (single_limit_tranche ''long'' 999 1000 1) = 1"
    by (simp_all add: single_limit_tranche_def rest_price_def zone_round_to_increment_def dadd_def ddiv_def dmul_def d fl)
  have "sized_tranches 989 400 100000 1 [single_limit_tranche ''long'' 999 1000 1]
      = Inr [(single_limit_tranche ''long'' 999 1000 1, 40)]"
    by (simp add: sized_tranches_def size_once_def stop_distance_def raw_quantity_def notional_scale_def p dsum_def
        zone_floor_def zone_round_to_increment_def dsub_def dabs_def dmul_def ddiv_def dadd_def numeral_eq_Suc)
  then show ?thesis
    by (simp add: expand_zone_to_plan_def example_zone_def example_market_def example_risk_def l zone_edges_def zone_depth_def
        dsub_def ddiv_def d inc Let_def t[unfolded example_zone_def example_market_def])
qed

theorem zone_plan_within_risk_witness:
  "\<exists>plan. expand_zone_to_plan example_zone example_market example_risk = Inr (Inr plan)
    \<and> (\<exists>stop sized. zs_stop_loss example_zone = Some stop \<and> sized \<noteq> [] \<and> length sized \<le> 3
         \<and> (\<Sum>(t, q) \<leftarrow> sized. q * stop_distance stop t) \<le> (1 + dec_eps) ^ 4 * 400)"
proof -
  obtain plan where p: "expand_zone_to_plan example_zone example_market example_risk = Inr (Inr plan)" using example_expands by blast
  from zone_plan_within_risk[OF p] p show ?thesis by (auto simp: example_risk_def)
qed

end
