(* ===== verification/Decision_Gateway.thy ===== *)
theory Decision_Gateway
  imports Governor Execution_Jobs Position_Projection
begin

text \<open>
  The decision gateway (\<open>decision_gateway/gateway.py\<close>): it takes the oldest Hermes decision without a risk
  decision, checks provenance, schema and age, asks the governor, holds approvals while no node is heard of or a
  reviewed release is still rolling out, and records the outcome; an approval becomes a trade intent, an outbox event and an
  execution job in the same transaction.

  The JSON schema validator is a package outside the repository: the parameter \<open>validate\<close> gives the location and message of the first
  error. Generated ids are the arguments \<open>ids\<close>, the clock is \<open>now\<close>. The columns of an intent that execution jobs do
  not read are kept in a row of their own. A raise rolls the transaction back. A numeric column read as a float is its
  decimal value.
\<close>

section \<open>Tables\<close>

record hermes_row =
  hr_decision_id :: string
  hr_raw_message_id :: string
  hr_processing_run_id :: string
  hr_context_snapshot_id :: string
  hr_schema_version :: json
  hr_message_type :: string
  hr_action :: string
  hr_ambiguous :: bool
  hr_ambiguity_reasons :: json
  hr_account_scope :: string
  hr_target_account_id :: "string option"
  hr_target_position_id :: "string option"
  hr_instrument_symbol :: "symbol option"
  hr_side :: "string option"
  hr_entry_type :: string
  hr_entry_price :: "rat option"
  hr_entry_price_min :: "rat option"
  hr_entry_price_max :: "rat option"
  hr_stop_loss :: "rat option"
  hr_take_profits :: "rat list"
  hr_leverage :: "rat option"
  hr_valid_until :: "instant option"
  hr_evidence :: json
  hr_model_provider :: string
  hr_model_version :: string
  hr_prompt_version :: string
  hr_temperature :: rat
  hr_confidence :: "rat option"
  hr_created_at :: instant

record raw_message =
  rm_id :: string
  rm_source :: string
  rm_channel_id :: string
  rm_source_message_id :: string
  rm_author_id :: "string option"

record rollout_row =
  ro_release_id :: string
  ro_phase :: string
  ro_phase_version :: int
  ro_created_at :: instant

record risk_state_row =
  rst_account_id :: account_id
  rst_instrument_id :: string
  rst_exposure_notional :: rat
  rst_open_risk_fraction :: rat
  rst_state :: dict

datatype gw_reason = GovReason gov_detail | Msg msg

record gw_check =
  gk_name :: string
  gk_passed :: bool
  gk_detail :: "gw_reason option"

record gw_outcome =
  go_status :: string
  go_account_id :: "account_id option"
  go_instrument_id :: "symbol option"
  go_risk_budget :: "risk_budget option"
  go_reason :: gw_reason
  go_checks :: "gw_check list"

record risk_decision_row =
  rdr_id :: string
  rdr_hermes_decision_id :: string
  rdr_status :: string
  rdr_account_id :: account_id
  rdr_instrument_id :: "symbol option"
  rdr_risk_budget :: "risk_budget option"
  rdr_checks :: "gw_check list"
  rdr_reason :: gw_reason

record intent_link =
  il_intent_id :: string
  il_hermes_decision_id :: string
  il_risk_decision_id :: string
  il_target_position_id :: "string option"

record gateway_db =
  gw_decisions :: "hermes_row list"
  gw_risk_decisions :: "risk_decision_row list"
  gw_links :: "intent_link list"
  gw_jobs :: job_db
  gw_raw_messages :: "raw_message list"
  gw_heartbeats :: "instant list"
  gw_rollouts :: "rollout_row list"
  gw_positions :: "position_projection_row list"
  gw_risk_state :: "risk_state_row list"

record gateway_result =
  gres_risk_decision_id :: string
  gres_status :: string
  gres_reason :: gw_reason
  gres_intent_id :: "string option"

section \<open>Reading the decision\<close>

definition jstr_opt :: "string option \<Rightarrow> json" where
  "jstr_opt v = (case v of Some s \<Rightarrow> JStr s | None \<Rightarrow> JNull)"

definition jnum_opt :: "rat option \<Rightarrow> json" where
  "jnum_opt v = (case v of Some x \<Rightarrow> JNum x | None \<Rightarrow> JNull)"

definition jtime_opt :: "instant option \<Rightarrow> json" where
  "jtime_opt v = (case v of Some t \<Rightarrow> JNum (of_int t) | None \<Rightarrow> JNull)"

definition entry_of :: "hermes_row \<Rightarrow> dict" where
  "entry_of r = [(''type'', JStr (hr_entry_type r)), (''price'', jnum_opt (hr_entry_price r)),
     (''price_min'', jnum_opt (hr_entry_price_min r)), (''price_max'', jnum_opt (hr_entry_price_max r))]"

definition row_to_decision :: "hermes_row \<Rightarrow> dict" where
  "row_to_decision r =
     [(''schema_version'', hr_schema_version r), (''decision_id'', JStr (hr_decision_id r)),
      (''raw_message_id'', JStr (hr_raw_message_id r)), (''processing_run_id'', JStr (hr_processing_run_id r)),
      (''context_snapshot_id'', JStr (hr_context_snapshot_id r)),
      (''classification'', JObj [(''message_type'', JStr (hr_message_type r)), (''action'', JStr (hr_action r)),
         (''ambiguous'', JBool (hr_ambiguous r)), (''ambiguity_reasons'', hr_ambiguity_reasons r)]),
      (''intent'', JObj [(''account_scope'', JStr (hr_account_scope r)), (''target_account_id'', jstr_opt (hr_target_account_id r)),
         (''target_position_id'', jstr_opt (hr_target_position_id r)), (''instrument_symbol'', jstr_opt (hr_instrument_symbol r)),
         (''side'', jstr_opt (hr_side r)), (''entry'', JObj (entry_of r)), (''stop_loss'', jnum_opt (hr_stop_loss r)),
         (''take_profits'', JList (map JNum (hr_take_profits r))), (''leverage'', jnum_opt (hr_leverage r)),
         (''valid_until'', jtime_opt (hr_valid_until r))]),
      (''evidence'', hr_evidence r),
      (''model'', JObj [(''provider'', JStr (hr_model_provider r)), (''model_version'', JStr (hr_model_version r)),
         (''prompt_version'', JStr (hr_prompt_version r)), (''temperature'', JNum (hr_temperature r))]),
      (''created_at'', JNum (of_int (hr_created_at r)))]
     @ (case hr_confidence r of Some c \<Rightarrow> [(''confidence'', JNum c)] | None \<Rightarrow> [])"

text \<open>What the governor reads of the decision; a decision has no sizing fields.\<close>

definition gov_decision_of :: "hermes_row \<Rightarrow> gov_decision" where
  "gov_decision_of r =
     \<lparr>gd_message_type = hr_message_type r, gd_action = hr_action r, gd_ambiguous = hr_ambiguous r,
      gd_intent = \<lparr>gi_instrument_symbol = hr_instrument_symbol r, gi_target_account_id = hr_target_account_id r,
        gi_target_position_id = hr_target_position_id r, gi_side = hr_side r, gi_price = hr_entry_price r,
        gi_price_min = hr_entry_price_min r, gi_price_max = hr_entry_price_max r, gi_stop_loss = hr_stop_loss r,
        gi_take_profits = hr_take_profits r, gi_leverage = hr_leverage r, gi_sizing_notional = None,
        gi_sizing_max_notional = None, gi_sizing_quantity = None\<rparr>\<rparr>"

definition freshness_problem :: "hermes_row \<Rightarrow> RiskPolicy \<Rightarrow> instant \<Rightarrow> msg option" where
  "freshness_problem r policy now =
     (let age = total_seconds (now - hr_created_at r)
      in if age > of_int (rp_freshness_seconds policy)
         then Some [PText ''decision_stale: age '', PDec (of_int (round_down age)), PText ''s > freshness '',
                    PDec (of_int (rp_freshness_seconds policy)), PText ''s'']
         else case hr_valid_until r of
           None \<Rightarrow> None
         | Some vu \<Rightarrow> if now > vu then Some [PText ''decision_expired: valid_until '', PInstant vu, PText '' passed''] else None)"

section \<open>Loading the context\<close>

definition load_positions :: "gateway_db \<Rightarrow> account_id \<Rightarrow> gov_position list" where
  "load_positions db a =
     map (\<lambda>p. \<lparr>gp_position_id = Some (psn_position_id p), gp_account_id = Some (psn_account_id p),
               gp_instrument_id = Some (psn_instrument_id p),
               gp_notional = Some (flt (flt (psn_quantity p) * flt (case psn_avg_entry_price p of Some x \<Rightarrow> x | None \<Rightarrow> 0)))\<rparr>)
       (filter (\<lambda>p. psn_account_id p = a \<and> psn_status p = ''open'') (gw_positions db))"

definition load_risk_state :: "gateway_db \<Rightarrow> account_id \<Rightarrow> symbol \<Rightarrow> gov_risk_state option" where
  "load_risk_state db a i =
     map_option (\<lambda>r. \<lparr>gs_mode = opt_str (jget_or (rst_state r) ''mode'' (JStr ''ACTIVE'')),
                      gs_open_risk_fraction = Some (rst_open_risk_fraction r)\<rparr>)
       (List.find (\<lambda>r. rst_account_id r = a \<and> rst_instrument_id r = i) (gw_risk_state db))"

text \<open>The age of the newest heartbeat in milliseconds, a float product; \<open>max\<close> over no row is NULL.\<close>

definition projection_is_stale :: "gateway_db \<Rightarrow> instant \<Rightarrow> int \<Rightarrow> bool" where
  "projection_is_stale db now threshold_ms =
     (case gw_heartbeats db of
        [] \<Rightarrow> True
      | t # ts \<Rightarrow> flt (total_seconds (now - foldl max t ts) * 1000) > of_int threshold_ms)"

section \<open>The rollout gate\<close>

definition live_open_actions :: "string list" where
  "live_open_actions = [''open_position'', ''add_position'']"

definition live_open_gated_accounts :: "string list" where
  "live_open_gated_accounts = [''account-a'', ''account-b'', ''account-c'', ''account-d'']"

definition rollout_phases :: "string list" where
  "rollout_phases = [''account_a_canary'', ''account_b_rollout'', ''account_c_rollout'', ''account_d_rollout'', ''fleet_complete'']"

record live_open_gate =
  lg_mode :: string
  lg_release_id :: string
  lg_rollout_phase :: string
  lg_phase_version :: int

definition current_live_open_gate :: "gateway_db \<Rightarrow> live_open_gate option result" where
  "current_live_open_gate db =
     (case rev (sort_key (\<lambda>r. (ro_created_at r, ro_release_id r)) (gw_rollouts db)) of
        [] \<Rightarrow> Inr None
      | r # _ \<Rightarrow>
          let release_id = strip (ro_release_id r); phase = strip (ro_phase r)
          in if phase = ''aborted'' then Inr None
             else if release_id = [] \<or> phase \<notin> set rollout_phases \<or> ro_phase_version r < 1 then Inl GatewayError
             else Inr (Some \<lparr>lg_mode = (if phase = ''fleet_complete'' then ''normal'' else ''canary_only''),
                            lg_release_id = release_id, lg_rollout_phase = phase, lg_phase_version = ro_phase_version r\<rparr>))"

definition live_open_gate_detail :: "live_open_gate \<Rightarrow> msg" where
  "live_open_gate_detail g =
     [PText (''release_id='' @ lg_release_id g @ '' rollout_phase='' @ lg_rollout_phase g @ '' phase_version=''),
      PDec (of_int (lg_phase_version g)), PText ('' mode='' @ lg_mode g)]"

definition with_check :: "string \<Rightarrow> bool \<Rightarrow> msg option \<Rightarrow> gw_outcome \<Rightarrow> gw_outcome" where
  "with_check n ok detail o' =
     o' \<lparr>go_checks := go_checks o' @ [\<lparr>gk_name = n, gk_passed = ok, gk_detail = map_option Msg detail\<rparr>]\<rparr>"

definition hold_outcome :: "string \<Rightarrow> gw_outcome \<Rightarrow> gw_outcome" where
  "hold_outcome reason o' = o' \<lparr>go_status := ''needs_review'', go_reason := Msg [PText reason]\<rparr>"

definition apply_live_open_rollout_gate :: "gateway_db \<Rightarrow> hermes_row \<Rightarrow> gw_outcome \<Rightarrow> (gw_outcome \<times> live_open_gate option) result" where
  "apply_live_open_rollout_gate db r o' =
     (if go_status o' \<noteq> ''approved'' \<or> hr_action r \<notin> set live_open_actions then Inr (o', None)
      else if strip (case go_account_id o' of Some a \<Rightarrow> a | None \<Rightarrow> []) \<notin> set live_open_gated_accounts then Inr (o', None)
      else bind_result (current_live_open_gate db) (\<lambda>gate.
        Inr (case gate of
          None \<Rightarrow> (with_check ''live_open_gate'' False (Some [PText ''reviewed release rollout missing''])
                   (hold_outcome ''live_open_gate_unavailable: reviewed release rollout missing'' o'), None)
        | Some g \<Rightarrow>
            if lg_mode g = ''normal'' then (with_check ''live_open_gate'' True (Some (live_open_gate_detail g)) o', Some g)
            else (with_check ''live_open_gate'' False (Some (live_open_gate_detail g))
                    (hold_outcome ''live_open_gate_canary_only: opening action held until fleet_complete; canary opens require the operator permit path'' o'),
                  Some g))))"

section \<open>Deciding\<close>

definition of_risk_decision :: "RiskDecision \<Rightarrow> gw_outcome" where
  "of_risk_decision d =
     \<lparr>go_status = gr_status d, go_account_id = gr_account_id d, go_instrument_id = gr_instrument_id d,
      go_risk_budget = gr_risk_budget d, go_reason = GovReason (gr_reason d),
      go_checks = map (\<lambda>c. \<lparr>gk_name = gc_name c, gk_passed = gc_passed c, gk_detail = map_option GovReason (gc_detail c)\<rparr>) (gr_checks d)\<rparr>"

definition stopped :: "string \<Rightarrow> hermes_row \<Rightarrow> string \<Rightarrow> msg \<Rightarrow> gw_outcome" where
  "stopped status r n reason =
     \<lparr>go_status = status, go_account_id = None, go_instrument_id = hr_instrument_symbol r, go_risk_budget = None,
      go_reason = Msg reason, go_checks = [\<lparr>gk_name = n, gk_passed = False, gk_detail = None\<rparr>]\<rparr>"

definition decision_account :: "hermes_row \<Rightarrow> RiskPolicy \<Rightarrow> account_id option" where
  "decision_account r policy = or_else (\<lambda>s. s = []) (hr_target_account_id r) (or_else (\<lambda>s. s = []) (rp_default_account_id policy) None)"

definition governor_outcome :: "gateway_db \<Rightarrow> hermes_row \<Rightarrow> RiskPolicy \<Rightarrow> RiskDecision" where
  "governor_outcome db r policy =
     (let account = decision_account r policy;
          positions = (case account of Some a \<Rightarrow> load_positions db a | None \<Rightarrow> []);
          rs = (case (account, or_else (\<lambda>s. s = []) (hr_instrument_symbol r) None) of
                  (Some a, Some i) \<Rightarrow> load_risk_state db a i | _ \<Rightarrow> None)
      in evaluate (gov_decision_of r) positions rs policy)"

definition hold_if_stale :: "gateway_db \<Rightarrow> instant \<Rightarrow> gw_outcome \<Rightarrow> gw_outcome" where
  "hold_if_stale db now o' =
     (if go_status o' = ''approved'' \<and> projection_is_stale db now 60000
      then with_check ''context_freshness'' False None
             (hold_outcome ''context_stale: approval held pending fresh projection'' o')
      else o')"

definition decide :: "(dict \<Rightarrow> (string \<times> string) option) \<Rightarrow> RiskPolicy \<Rightarrow> instant \<Rightarrow> gateway_db \<Rightarrow> hermes_row
    \<Rightarrow> (gw_outcome \<times> live_open_gate option) result" where
  "decide validate policy now db r =
     (if hr_model_provider r \<noteq> ''hermes''
      then Inr (stopped ''rejected'' r ''provenance'' [PText ''non-hermes decision provenance''], None)
      else case validate (row_to_decision r) of
        Some (location, message) \<Rightarrow>
          Inr (stopped ''rejected'' r ''schema'' [PText (''schema invalid '' @ location @ '': '' @ message)], None)
      | None \<Rightarrow>
          (case freshness_problem r policy now of
             Some stale \<Rightarrow> Inr (stopped ''needs_review'' r ''freshness'' stale, None)
           | None \<Rightarrow> apply_live_open_rollout_gate db r
                       (hold_if_stale db now (of_risk_decision (governor_outcome db r policy)))))"

section \<open>Writing the outcome\<close>

definition gateway_idempotency_key :: "hash \<Rightarrow> hermes_row \<Rightarrow> gw_outcome \<Rightarrow> string" where
  "gateway_idempotency_key sha r o' = intent_idempotency_key sha (hr_decision_id r) (hr_action r) (go_instrument_id o') (go_account_id o')"

definition raw_message_authorization :: "gateway_db \<Rightarrow> hermes_row \<Rightarrow> dict result" where
  "raw_message_authorization db r =
     (case List.find (\<lambda>m. rm_id m = hr_raw_message_id r) (gw_raw_messages db) of
        None \<Rightarrow> Inl GatewayError
      | Some m \<Rightarrow>
          let channel_id = strip (rm_channel_id m); source_message_id = strip (rm_source_message_id m);
              author_id = strip (case rm_author_id m of Some a \<Rightarrow> a | None \<Rightarrow> []);
              user_source = (lower (strip (rm_source m)) \<in> {''user'', ''operator'', ''manual''});
              by_id = (if user_source \<and> author_id \<noteq> [] then author_id else channel_id)
          in if source_message_id = [] then Inl GatewayError
             else if by_id = [] then Inl GatewayError
             else Inr ([(''authorized_by_type'', JStr (if user_source then ''user'' else ''channel'')),
                        (''authorized_by_id'', JStr by_id), (''source_message_id'', JStr source_message_id),
                        (''created_by_service'', JStr ''decision-gateway''), (''parent_intent_id'', JBool False)]
                       @ (if user_source then [] else [(''channel_id'', JStr channel_id)])))"

definition gate_payload :: "live_open_gate \<Rightarrow> dict" where
  "gate_payload g = [(''mode'', JStr (lg_mode g)), (''release_id'', JStr (lg_release_id g)),
     (''rollout_phase'', JStr (lg_rollout_phase g)), (''phase_version'', JNum (of_int (lg_phase_version g)))]"

definition budget_payload :: "risk_budget option \<Rightarrow> dict" where
  "budget_payload b =
     (case b of None \<Rightarrow> []
      | Some x \<Rightarrow> [(''risk_fraction'', JNum (rb_risk_fraction x)), (''max_notional'', JNum (rb_max_notional x)),
                   (''max_leverage'', JNum (rb_max_leverage x))])"

definition intent_order_plan :: "hermes_row \<Rightarrow> dict \<Rightarrow> live_open_gate option \<Rightarrow> dict" where
  "intent_order_plan r authorization gate =
     [(''side'', jstr_opt (hr_side r)), (''entry'', JObj (entry_of r)), (''stop_loss'', jnum_opt (hr_stop_loss r)),
      (''take_profits'', JList (map JNum (hr_take_profits r))), (''leverage'', jnum_opt (hr_leverage r)),
      (''authorization'', JObj authorization)]
     @ (case gate of Some g \<Rightarrow> [(''live_open_gate'', JObj (gate_payload g))] | None \<Rightarrow> [])"

definition approved_trade_actions :: "string list" where
  "approved_trade_actions = [''open_position'', ''add_position'', ''partial_close'', ''close_position'', ''move_stop_loss'',
     ''move_stop_to_entry'', ''replace_take_profits'']"

definition new_intent :: "string \<Rightarrow> hermes_row \<Rightarrow> gw_outcome \<Rightarrow> RiskPolicy \<Rightarrow> dict \<Rightarrow> live_open_gate option \<Rightarrow> string \<Rightarrow> instant \<Rightarrow> intent_row" where
  "new_intent iid r o' policy authorization gate key now =
     \<lparr>ti_intent_id = iid, ti_account_id = the (go_account_id o'), ti_instrument_id = the (go_instrument_id o'),
      ti_action = hr_action r, ti_status = ''approved'', ti_order_plan = intent_order_plan r authorization gate,
      ti_risk_budget = budget_payload (go_risk_budget o'),
      ti_valid_until = (case hr_valid_until r of Some t \<Rightarrow> t | None \<Rightarrow> now + rp_intent_ttl_seconds policy * 1000000),
      ti_idempotency_key = key, ti_approved_at = Some now\<rparr>"

text \<open>The not-null columns, the enum of actions and the keys of the tables refuse an insert.\<close>

definition write_trade_intent :: "hash \<Rightarrow> (nat \<Rightarrow> string) \<Rightarrow> gateway_db \<Rightarrow> hermes_row \<Rightarrow> gw_outcome \<Rightarrow> RiskPolicy
    \<Rightarrow> live_open_gate option \<Rightarrow> instant \<Rightarrow> (gateway_db \<times> string) result" where
  "write_trade_intent sha ids db r o' policy gate now =
     (let key = gateway_idempotency_key sha r o'; jobs = gw_jobs db
      in case List.find (\<lambda>i. ti_idempotency_key i = key) (jd_intents jobs) of
           Some i \<Rightarrow> Inr (db, ti_intent_id i)
         | None \<Rightarrow>
             bind_result (raw_message_authorization db r) (\<lambda>authorization.
               if go_account_id o' = None \<or> go_instrument_id o' = None \<or> hr_action r \<notin> set approved_trade_actions
                  \<or> ids 1 \<in> set (map ti_intent_id (jd_intents jobs)) \<or> ids 2 \<in> set (map ob_id (jd_outbox jobs))
               then Inl IntegrityError
               else Inr (db \<lparr>gw_links := gw_links db @
                       [\<lparr>il_intent_id = ids 1, il_hermes_decision_id = hr_decision_id r, il_risk_decision_id = ids 0,
                         il_target_position_id = hr_target_position_id r\<rparr>],
                     gw_jobs := jobs \<lparr>
                       jd_intents := jd_intents jobs @ [new_intent (ids 1) r o' policy authorization gate key now],
                       jd_outbox := jd_outbox jobs @
                         [\<lparr>ob_id = ids 2, ob_status = ''pending'', ob_aggregate_type = ''trade_intent'', ob_aggregate_id = ids 1,
                           ob_event_type = ''trade_intent.approved'',
                           ob_payload = [(''intent_id'', JStr (ids 1)), (''risk_decision_id'', JStr (ids 0)),
                                         (''authorization'', JObj authorization)],
                           ob_trace_id = JNull, ob_error = JNull, ob_created_at = now\<rparr>]\<rparr>\<rparr>, ids 1)))"

definition outcome_row :: "string \<Rightarrow> hermes_row \<Rightarrow> gw_outcome \<Rightarrow> risk_decision_row" where
  "outcome_row rid r o' =
     \<lparr>rdr_id = rid, rdr_hermes_decision_id = hr_decision_id r, rdr_status = go_status o',
      rdr_account_id = (case or_else (\<lambda>s. s = []) (go_account_id o') None of Some a \<Rightarrow> a | None \<Rightarrow> ''unassigned''),
      rdr_instrument_id = go_instrument_id o', rdr_risk_budget = go_risk_budget o', rdr_checks = go_checks o',
      rdr_reason = go_reason o'\<rparr>"

definition write_outcome :: "hash \<Rightarrow> string \<Rightarrow> (nat \<Rightarrow> string) \<Rightarrow> gateway_db \<Rightarrow> hermes_row \<Rightarrow> gw_outcome \<Rightarrow> RiskPolicy
    \<Rightarrow> live_open_gate option \<Rightarrow> instant \<Rightarrow> (gateway_db \<times> gateway_result) result" where
  "write_outcome sha fresh ids db r o' policy gate now =
     (if ids 0 \<in> set (map rdr_id (gw_risk_decisions db)) then Inl IntegrityError
      else
        let db1 = db \<lparr>gw_risk_decisions := gw_risk_decisions db @ [outcome_row (ids 0) r o']\<rparr>;
            res = \<lparr>gres_risk_decision_id = ids 0, gres_status = go_status o', gres_reason = go_reason o', gres_intent_id = None\<rparr>
        in if go_status o' \<noteq> ''approved'' then Inr (db1, res)
           else bind_result (write_trade_intent sha ids db1 r o' policy gate now) (\<lambda>(db2, iid).
                bind_result (create_execution_job_for_approved_intent sha fresh (gw_jobs db2) iid now None True (ids 3) now) (\<lambda>(jobs, rq).
                Inr (db2 \<lparr>gw_jobs := jobs\<rparr>, res \<lparr>gres_intent_id := Some iid\<rparr>))))"

definition pending_decisions :: "gateway_db \<Rightarrow> hermes_row list" where
  "pending_decisions db =
     sort_key (\<lambda>r. (hr_created_at r, hr_decision_id r))
       (filter (\<lambda>r. hr_decision_id r \<notin> set (map rdr_hermes_decision_id (gw_risk_decisions db))) (gw_decisions db))"

definition process_one_decision :: "(dict \<Rightarrow> (string \<times> string) option) \<Rightarrow> hash \<Rightarrow> string \<Rightarrow> (nat \<Rightarrow> string) \<Rightarrow> RiskPolicy
    \<Rightarrow> instant \<Rightarrow> gateway_db \<Rightarrow> (gateway_db \<times> gateway_result option) result" where
  "process_one_decision validate sha fresh ids policy now db =
     (case pending_decisions db of
        [] \<Rightarrow> Inr (db, None)
      | r # _ \<Rightarrow>
          bind_result (decide validate policy now db r) (\<lambda>(o', gate).
          bind_result (write_outcome sha fresh ids db r o' policy gate now) (\<lambda>(db', res). Inr (db', Some res))))"

section \<open>What an intent rests on\<close>

lemma hold_if_stale_approved:
  "go_status (hold_if_stale db now o') = ''approved'' \<longleftrightarrow> go_status o' = ''approved'' \<and> \<not> projection_is_stale db now 60000"
  by (auto simp: hold_if_stale_def with_check_def hold_outcome_def)

lemma hold_if_stale_account [simp]: "go_account_id (hold_if_stale db now o') = go_account_id o'"
  by (simp add: hold_if_stale_def with_check_def hold_outcome_def)

lemma current_gate_normal:
  "current_live_open_gate db = Inr (Some g) \<Longrightarrow> lg_mode g = ''normal'' \<longleftrightarrow> lg_rollout_phase g = ''fleet_complete''"
  by (auto simp: current_live_open_gate_def Let_def split: list.splits if_splits)

lemma rollout_gate_approved:
  assumes "apply_live_open_rollout_gate db r o' = Inr (o'', gate)" "go_status o'' = ''approved''"
  shows "go_status o' = ''approved'' \<and> go_account_id o'' = go_account_id o'
    \<and> (hr_action r \<in> set live_open_actions \<longrightarrow> strip (case go_account_id o' of Some a \<Rightarrow> a | None \<Rightarrow> []) \<in> set live_open_gated_accounts
        \<longrightarrow> (\<exists>g. gate = Some g \<and> current_live_open_gate db = Inr (Some g) \<and> lg_rollout_phase g = ''fleet_complete''))"
  using assms current_gate_normal
  by (auto simp: apply_live_open_rollout_gate_def with_check_def hold_outcome_def bind_result_Inr_iff
      split: if_splits option.splits)

lemma decide_approved:
  assumes "decide validate policy now db r = Inr (o', gate)" "go_status o' = ''approved''"
  shows "hr_model_provider r = ''hermes'' \<and> validate (row_to_decision r) = None \<and> freshness_problem r policy now = None
    \<and> gr_status (governor_outcome db r policy) = ''approved'' \<and> \<not> projection_is_stale db now 60000
    \<and> go_account_id o' = gr_account_id (governor_outcome db r policy)
    \<and> (hr_action r \<in> set live_open_actions \<longrightarrow> strip (case gr_account_id (governor_outcome db r policy) of Some a \<Rightarrow> a | None \<Rightarrow> []) \<in> set live_open_gated_accounts
        \<longrightarrow> (\<exists>g. current_live_open_gate db = Inr (Some g) \<and> lg_rollout_phase g = ''fleet_complete''))"
proof -
  have stop: "go_status (stopped s r n m) \<noteq> ''approved''" if "s \<in> {''rejected'', ''needs_review''}" for s n m
    using that by (auto simp: stopped_def)
  have pre: "hr_model_provider r = ''hermes''" "validate (row_to_decision r) = None" "freshness_problem r policy now = None"
    using assms stop by (auto simp: decide_def split: if_splits option.splits)
  then have "apply_live_open_rollout_gate db r (hold_if_stale db now (of_risk_decision (governor_outcome db r policy))) = Inr (o', gate)"
    using assms(1) by (simp add: decide_def)
  from rollout_gate_approved[OF this assms(2)] pre show ?thesis
    by (auto simp: hold_if_stale_approved of_risk_decision_def)
qed

lemma create_makes_job:
  assumes "create_execution_job_for_approved_intent sha fresh jobs iid now rid reserve uuid clock = Inr (jobs', rq)"
  shows "\<exists>i \<in> set (jd_intents jobs'). ti_intent_id i = iid \<and> ti_status i = ''approved''
      \<and> (\<exists>j \<in> set (jd_jobs jobs'). ej_account_id j = ti_account_id i
           \<and> ej_idempotency_key j = execution_job_key sha (ti_intent_id i) (ti_action i) (Some (ti_instrument_id i)) (Some (ti_account_id i)))"
    "jd_intents jobs' = jd_intents jobs"
  using assms
proof (atomize (full), rule create_Inr)
  fix i js tbl box e
  assume i: "List.find (\<lambda>i. ti_intent_id i = iid) (jd_intents jobs) = Some i" "ti_status i = ''approved''"
    and b: "build_execution_job_request sha fresh i now rid = Inr rq" and j: "insert_execution_job (jd_jobs jobs) rq clock = Inr js"
    and db': "jobs' = jobs \<lparr>jd_jobs := js, jd_reservations := tbl, jd_outbox := box\<rparr>"
  have "list_ex (same_job rq) js" using j by (rule insert_execution_job_again(1)) simp
  then show "(\<exists>i \<in> set (jd_intents jobs'). ti_intent_id i = iid \<and> ti_status i = ''approved''
      \<and> (\<exists>j \<in> set (jd_jobs jobs'). ej_account_id j = ti_account_id i
           \<and> ej_idempotency_key j = execution_job_key sha (ti_intent_id i) (ti_action i) (Some (ti_instrument_id i)) (Some (ti_account_id i))))
    \<and> jd_intents jobs' = jd_intents jobs"
    using find_SomeD[OF i(1)] i(2) build_request_fields(2,4)[OF b]
    by (auto simp: db' list_ex_iff same_job_def)
qed

lemma process_Inr:
  assumes "process_one_decision validate sha fresh ids policy now db = Inr (db', Some res)"
  obtains r rest o' gate where "pending_decisions db = r # rest" "decide validate policy now db r = Inr (o', gate)"
    "write_outcome sha fresh ids db r o' policy gate now = Inr (db', res)"
  using assms by (auto simp: process_one_decision_def bind_result_Inr_iff split: list.splits)

lemma write_outcome_Inr:
  assumes "write_outcome sha fresh ids db r o' policy gate now = Inr (db', res)"
  shows "ids 0 \<notin> set (map rdr_id (gw_risk_decisions db)) \<and> gres_status res = go_status o' \<and> gres_risk_decision_id res = ids 0
    \<and> gw_risk_decisions db' = gw_risk_decisions db @ [outcome_row (ids 0) r o'] \<and> gw_decisions db' = gw_decisions db
    \<and> (if go_status o' \<noteq> ''approved'' then gres_intent_id res = None \<and> gw_jobs db' = gw_jobs db \<and> gw_links db' = gw_links db
       else \<exists>db2 iid rq. write_trade_intent sha ids (db \<lparr>gw_risk_decisions := gw_risk_decisions db @ [outcome_row (ids 0) r o']\<rparr>) r o' policy gate now = Inr (db2, iid)
         \<and> create_execution_job_for_approved_intent sha fresh (gw_jobs db2) iid now None True (ids 3) now = Inr (gw_jobs db', rq)
         \<and> gw_links db' = gw_links db2 \<and> gres_intent_id res = Some iid)"
proof -
  let ?db1 = "db \<lparr>gw_risk_decisions := gw_risk_decisions db @ [outcome_row (ids 0) r o']\<rparr>"
  have frame: "gw_risk_decisions db2 = gw_risk_decisions ?db1" "gw_decisions db2 = gw_decisions ?db1"
    if "write_trade_intent sha ids ?db1 r o' policy gate now = Inr (db2, iid)" for db2 iid
    using that by (auto simp: write_trade_intent_def Let_def bind_result_Inr_iff split: option.splits if_splits)
  show ?thesis
  proof (cases "go_status o' = ''approved''")
    case False
    then show ?thesis using assms by (auto simp: write_outcome_def Let_def split: if_splits)
  next
    case True
    then obtain db2 iid jobs rq where
      w: "write_trade_intent sha ids ?db1 r o' policy gate now = Inr (db2, iid)"
      and c: "create_execution_job_for_approved_intent sha fresh (gw_jobs db2) iid now None True (ids 3) now = Inr (jobs, rq)"
      and r: "db' = db2 \<lparr>gw_jobs := jobs\<rparr>" "gres_status res = go_status o'" "gres_risk_decision_id res = ids 0" "gres_intent_id res = Some iid"
      and fresh: "ids 0 \<notin> set (map rdr_id (gw_risk_decisions db))"
      using assms by (auto simp: write_outcome_def Let_def bind_result_Inr_iff split: if_splits)
    from frame[OF w] w c r fresh True show ?thesis by auto
  qed
qed

text \<open>
  C5. Every trade intent the gateway hands out rests on its whole chain of checks: the decision is the oldest without a
  risk decision, comes from Hermes, satisfies the schema, is neither too old nor past its validity, and the governor approved it
  against the stored positions and risk state; some node was heard of within the last minute; and an opening on one of the
  gated accounts happens only under a completed rollout. The risk decision is recorded as approved, and the intent
  is in the table with an execution job under its key.
\<close>

theorem gateway_intent_justified:
  assumes "process_one_decision validate sha fresh ids policy now db = Inr (db', Some res)" "gres_intent_id res = Some iid"
  shows "\<exists>r rest. pending_decisions db = r # rest
    \<and> hr_model_provider r = ''hermes'' \<and> validate (row_to_decision r) = None
    \<and> \<not> total_seconds (now - hr_created_at r) > of_int (rp_freshness_seconds policy)
    \<and> (\<forall>vu. hr_valid_until r = Some vu \<longrightarrow> now \<le> vu)
    \<and> gr_status (governor_outcome db r policy) = ''approved''
    \<and> \<not> projection_is_stale db now 60000
    \<and> (hr_action r \<in> set live_open_actions \<longrightarrow> strip (case gr_account_id (governor_outcome db r policy) of Some a \<Rightarrow> a | None \<Rightarrow> []) \<in> set live_open_gated_accounts
        \<longrightarrow> (\<exists>g. current_live_open_gate db = Inr (Some g) \<and> lg_rollout_phase g = ''fleet_complete''))
    \<and> (\<exists>d \<in> set (gw_risk_decisions db'). rdr_id d = gres_risk_decision_id res \<and> rdr_hermes_decision_id d = hr_decision_id r
         \<and> rdr_status d = ''approved'')
    \<and> (\<exists>i \<in> set (jd_intents (gw_jobs db')). ti_intent_id i = iid \<and> ti_status i = ''approved''
         \<and> (\<exists>j \<in> set (jd_jobs (gw_jobs db')). ej_account_id j = ti_account_id i
              \<and> ej_idempotency_key j = execution_job_key sha iid (ti_action i) (Some (ti_instrument_id i)) (Some (ti_account_id i))))"
proof (rule process_Inr[OF assms(1)])
  fix r rest o' gate
  assume p: "pending_decisions db = r # rest" and d: "decide validate policy now db r = Inr (o', gate)"
    and w: "write_outcome sha fresh ids db r o' policy gate now = Inr (db', res)"
  note wo = write_outcome_Inr[OF w]
  have ok: "go_status o' = ''approved''" using wo assms(2) by (auto split: if_splits)
  obtain db2 :: gateway_db and rq where c: "create_execution_job_for_approved_intent sha fresh (gw_jobs db2) iid now None True (ids 3) now = Inr (gw_jobs db', rq)"
    using wo ok assms(2) by auto
  have "\<not> total_seconds (now - hr_created_at r) > of_int (rp_freshness_seconds policy) \<and> (\<forall>vu. hr_valid_until r = Some vu \<longrightarrow> now \<le> vu)"
    using decide_approved[OF d ok] by (auto simp: freshness_problem_def Let_def not_less split: if_splits option.splits)
  moreover have "\<exists>d \<in> set (gw_risk_decisions db'). rdr_id d = gres_risk_decision_id res \<and> rdr_hermes_decision_id d = hr_decision_id r \<and> rdr_status d = ''approved''"
    using wo ok by (auto simp: outcome_row_def)
  moreover have "\<exists>i \<in> set (jd_intents (gw_jobs db')). ti_intent_id i = iid \<and> ti_status i = ''approved''
      \<and> (\<exists>j \<in> set (jd_jobs (gw_jobs db')). ej_account_id j = ti_account_id i
           \<and> ej_idempotency_key j = execution_job_key sha iid (ti_action i) (Some (ti_instrument_id i)) (Some (ti_account_id i)))"
    using create_makes_job(1)[OF c] by blast
  ultimately show ?thesis using p decide_approved[OF d ok] by blast
qed

section \<open>Each decision once\<close>

lemma pending_after:
  assumes "gw_decisions db' = gw_decisions db" "gw_risk_decisions db' = gw_risk_decisions db @ [d]"
    "pending_decisions db = r # rest" "rdr_hermes_decision_id d = hr_decision_id r" "distinct (map hr_decision_id (gw_decisions db))"
  shows "pending_decisions db' = rest"
proof -
  have "distinct (map hr_decision_id (pending_decisions db))"
    using distinct_map_filter[OF assms(5)] by (simp add: pending_decisions_def distinct_map)
  then have "hr_decision_id r \<notin> hr_decision_id ` set rest" by (simp add: assms(3))
  moreover have "pending_decisions db' = filter (\<lambda>x. hr_decision_id x \<noteq> hr_decision_id r) (pending_decisions db)"
    unfolding pending_decisions_def assms(1,2) filter_sort
    by (rule arg_cong[of _ _ "sort_key _"]) (auto simp: filter_filter assms(4) intro!: filter_cong)
  ultimately show ?thesis unfolding assms(3) by (simp add: filter_id_conv) (metis imageI)
qed


text \<open>
  Each decision is decided exactly once, in order of age: processing takes the oldest undecided decision, records one
  risk decision for it under a new id and leaves every other decision's state alone, so the queue loses its head and nothing else.
  A decision that is not approved changes neither intents, jobs, reservations nor the outbox. When nothing is pending,
  nothing happens.
\<close>

theorem decision_decided_once:
  assumes "process_one_decision validate sha fresh ids policy now db = Inr (db', out)" "distinct (map hr_decision_id (gw_decisions db))"
  shows "case out of
      None \<Rightarrow> pending_decisions db = [] \<and> db' = db
    | Some res \<Rightarrow> pending_decisions db = hd (pending_decisions db) # pending_decisions db'
        \<and> (\<exists>d. gw_risk_decisions db' = gw_risk_decisions db @ [d] \<and> rdr_id d = gres_risk_decision_id res
             \<and> rdr_id d \<notin> set (map rdr_id (gw_risk_decisions db))
             \<and> rdr_hermes_decision_id d = hr_decision_id (hd (pending_decisions db)) \<and> rdr_status d = gres_status res)
        \<and> (gres_status res \<noteq> ''approved'' \<longrightarrow> gw_jobs db' = gw_jobs db \<and> gw_links db' = gw_links db \<and> gres_intent_id res = None)"
proof (cases out)
  case None
  then show ?thesis using assms(1) by (auto simp: process_one_decision_def bind_result_Inr_iff split: list.splits)
next
  case (Some res)
  show ?thesis
  proof (rule process_Inr[OF assms(1)[unfolded Some]])
    fix r rest o' gate
    assume p: "pending_decisions db = r # rest" and "decide validate policy now db r = Inr (o', gate)"
      and w: "write_outcome sha fresh ids db r o' policy gate now = Inr (db', res)"
    note wo = write_outcome_Inr[OF w]
    have "pending_decisions db' = rest"
      by (rule pending_after[OF _ _ p _ assms(2), where d = "outcome_row (ids 0) r o'"]) (use wo in \<open>auto simp: outcome_row_def\<close>)
    then show ?thesis using p wo Some by (auto simp: outcome_row_def)
  qed
qed

section \<open>Traceability\<close>

text \<open>
  The environment writes messages, decisions, heartbeats, positions, rollouts and risk state; the workers' operations on jobs
  add no intent.
\<close>

inductive gateway_step :: "gateway_db \<Rightarrow> gateway_db \<Rightarrow> bool" where
  processed: "process_one_decision validate sha fresh ids policy now db = Inr (db', out) \<Longrightarrow> gateway_step db db'"
| worked: "job_step (gw_jobs db) jobs \<Longrightarrow> map ti_intent_id (jd_intents jobs) = map ti_intent_id (jd_intents (gw_jobs db))
    \<Longrightarrow> map ti_idempotency_key (jd_intents jobs) = map ti_idempotency_key (jd_intents (gw_jobs db)) \<Longrightarrow> gateway_step db (db \<lparr>gw_jobs := jobs\<rparr>)"
| environment: "gw_risk_decisions db' = gw_risk_decisions db \<Longrightarrow> gw_links db' = gw_links db \<Longrightarrow> gw_jobs db' = gw_jobs db
    \<Longrightarrow> gateway_step db db'"

definition empty_gateway :: gateway_db where
  "empty_gateway = \<lparr>gw_decisions = [], gw_risk_decisions = [], gw_links = [], gw_jobs = empty_jobs, gw_raw_messages = [],
     gw_heartbeats = [], gw_rollouts = [], gw_positions = [], gw_risk_state = []\<rparr>"

definition traceable :: "gateway_db \<Rightarrow> string \<Rightarrow> bool" where
  "traceable db iid =
     (\<exists>l \<in> set (gw_links db). il_intent_id l = iid
        \<and> (\<exists>d \<in> set (gw_risk_decisions db). rdr_id d = il_risk_decision_id l
             \<and> rdr_hermes_decision_id d = il_hermes_decision_id l \<and> rdr_status d = ''approved''))"

definition gateway_ok :: "gateway_db \<Rightarrow> bool" where
  "gateway_ok db =
     (jobs_ok (gw_jobs db) \<and> distinct (map rdr_id (gw_risk_decisions db))
      \<and> distinct (map rdr_hermes_decision_id (gw_risk_decisions db))
      \<and> distinct (map ti_intent_id (jd_intents (gw_jobs db))) \<and> distinct (map ti_idempotency_key (jd_intents (gw_jobs db)))
      \<and> (\<forall>iid \<in> set (map ti_intent_id (jd_intents (gw_jobs db))). traceable db iid))"

lemma traceable_grows:
  assumes "traceable db iid" "set (gw_links db) \<subseteq> set (gw_links db')" "set (gw_risk_decisions db) \<subseteq> set (gw_risk_decisions db')"
  shows "traceable db' iid"
  using assms unfolding traceable_def by blast

lemma write_trade_intent_cases:
  assumes "write_trade_intent sha ids db r o' policy gate now = Inr (db', iid)"
  obtains "db' = db"
  | i e where "gw_links db' = gw_links db @ [\<lparr>il_intent_id = ids 1, il_hermes_decision_id = hr_decision_id r,
        il_risk_decision_id = ids 0, il_target_position_id = hr_target_position_id r\<rparr>]"
    "gw_jobs db' = (gw_jobs db) \<lparr>jd_intents := jd_intents (gw_jobs db) @ [i], jd_outbox := jd_outbox (gw_jobs db) @ [e]\<rparr>"
    "ti_intent_id i = ids 1" "ti_approved_at i = Some now" "ti_idempotency_key i = gateway_idempotency_key sha r o'"
    "ids 1 \<notin> set (map ti_intent_id (jd_intents (gw_jobs db)))" "ob_id e \<notin> set (map ob_id (jd_outbox (gw_jobs db)))"
    "ti_idempotency_key i \<notin> set (map ti_idempotency_key (jd_intents (gw_jobs db)))"
proof (cases "List.find (\<lambda>i. ti_idempotency_key i = gateway_idempotency_key sha r o') (jd_intents (gw_jobs db))")
  case (Some i)
  then show ?thesis using assms that(1) by (simp add: write_trade_intent_def Let_def)
next
  case None
  let ?key = "gateway_idempotency_key sha r o'"
  let ?e = "\<lambda>au. \<lparr>ob_id = ids 2, ob_status = ''pending'', ob_aggregate_type = ''trade_intent'', ob_aggregate_id = ids 1,
           ob_event_type = ''trade_intent.approved'', ob_payload = [(''intent_id'', JStr (ids 1)), (''risk_decision_id'', JStr (ids 0)),
             (''authorization'', JObj au)], ob_trace_id = JNull, ob_error = JNull, ob_created_at = now\<rparr>"
  obtain au where d: "db' = db \<lparr>gw_links := gw_links db @ [\<lparr>il_intent_id = ids 1, il_hermes_decision_id = hr_decision_id r,
        il_risk_decision_id = ids 0, il_target_position_id = hr_target_position_id r\<rparr>],
      gw_jobs := (gw_jobs db) \<lparr>jd_intents := jd_intents (gw_jobs db) @ [new_intent (ids 1) r o' policy au gate ?key now],
        jd_outbox := jd_outbox (gw_jobs db) @ [?e au]\<rparr>\<rparr>"
    and fresh: "ids 1 \<notin> set (map ti_intent_id (jd_intents (gw_jobs db)))" "ids 2 \<notin> set (map ob_id (jd_outbox (gw_jobs db)))"
    using assms None by (auto simp: write_trade_intent_def Let_def bind_result_Inr_iff split: if_splits)
  have key: "?key \<notin> set (map ti_idempotency_key (jd_intents (gw_jobs db)))" using None by (auto simp: find_None_iff')
  show ?thesis
    by (rule that(2)[where i = "new_intent (ids 1) r o' policy au gate ?key now" and e = "?e au"]) (use fresh key in \<open>simp_all add: d new_intent_def\<close>)
qed

lemma process_keeps_ok:
  assumes "gateway_ok db" "process_one_decision validate sha fresh ids policy now db = Inr (db', out)"
  shows "gateway_ok db'"
proof (cases out)
  case None
  then show ?thesis using assms by (auto simp: process_one_decision_def bind_result_Inr_iff split: list.splits)
next
  case (Some res)
  show ?thesis
  proof (rule process_Inr[OF assms(2)[unfolded Some]])
    fix r rest o' gate
    assume p: "pending_decisions db = r # rest" and w: "write_outcome sha fresh ids db r o' policy gate now = Inr (db', res)"
    note wo = write_outcome_Inr[OF w]
    let ?d = "outcome_row (ids 0) r o'"
    let ?db1 = "db \<lparr>gw_risk_decisions := gw_risk_decisions db @ [?d]\<rparr>"
    have "r \<in> set (pending_decisions db)" by (simp add: p)
    then have un: "hr_decision_id r \<notin> set (map rdr_hermes_decision_id (gw_risk_decisions db))" by (simp add: pending_decisions_def)
    have rd: "distinct (map rdr_id (gw_risk_decisions db'))" "distinct (map rdr_hermes_decision_id (gw_risk_decisions db'))"
      using assms(1) wo un by (auto simp: gateway_ok_def outcome_row_def)
    show ?thesis
    proof (cases "go_status o' = ''approved''")
      case False
      then have same: "gw_jobs db' = gw_jobs db" "gw_links db' = gw_links db" using wo by auto
      then have "traceable db' iid" if "traceable db iid" for iid using that wo by (auto intro: traceable_grows)
      then show ?thesis using assms(1) rd same by (simp add: gateway_ok_def)
    next
      case True
      then obtain db2 :: gateway_db and iid rq where wi: "write_trade_intent sha ids ?db1 r o' policy gate now = Inr (db2, iid)"
        and c: "create_execution_job_for_approved_intent sha fresh (gw_jobs db2) iid now None True (ids 3) now = Inr (gw_jobs db', rq)"
        and l: "gw_links db' = gw_links db2" using wo by auto
      note ji = create_makes_job(2)[OF c]
      from wi show ?thesis
      proof (rule write_trade_intent_cases)
        assume d2: "db2 = ?db1"
        then have "traceable db' iid" if "traceable db iid" for iid using that wo l by (auto intro: traceable_grows)
        moreover have "jobs_ok (gw_jobs db')" using create_ok[OF _ c] assms(1) d2 by (simp add: gateway_ok_def)
        ultimately show ?thesis using assms(1) rd ji d2 by (simp add: gateway_ok_def)
      next
        fix i e
        assume links: "gw_links db2 = gw_links ?db1 @ [\<lparr>il_intent_id = ids 1, il_hermes_decision_id = hr_decision_id r,
            il_risk_decision_id = ids 0, il_target_position_id = hr_target_position_id r\<rparr>]"
          and jobs: "gw_jobs db2 = (gw_jobs ?db1) \<lparr>jd_intents := jd_intents (gw_jobs ?db1) @ [i], jd_outbox := jd_outbox (gw_jobs ?db1) @ [e]\<rparr>"
          and i: "ti_intent_id i = ids 1" "ti_approved_at i = Some now"
            "ids 1 \<notin> set (map ti_intent_id (jd_intents (gw_jobs ?db1)))" "ob_id e \<notin> set (map ob_id (jd_outbox (gw_jobs ?db1)))"
            "ti_idempotency_key i \<notin> set (map ti_idempotency_key (jd_intents (gw_jobs ?db1)))"
        have "jobs_ok (gw_jobs db2)" using assms(1) i jobs by (auto simp: gateway_ok_def jobs_ok_def)
        then have "jobs_ok (gw_jobs db')" by (rule create_ok[OF _ c])
        moreover have "traceable db' (ids 1)"
          using wo True by (auto simp: traceable_def l links outcome_row_def)
        moreover have "traceable db' iid" if "traceable db iid" for iid using that wo by (auto simp: l links intro: traceable_grows)
        ultimately show ?thesis using assms(1) rd i by (auto simp: gateway_ok_def ji jobs)
      qed
    qed
  qed
qed

interpretation gateway_store: invariant_store empty_gateway gateway_step gateway_ok
proof
  show "gateway_ok empty_gateway"
    by (simp add: gateway_ok_def empty_gateway_def empty_jobs_def jobs_ok_def reservations_ok_def)
next
  fix db db' assume ok: "gateway_ok db" and "gateway_step db db'"
  from this(2) show "gateway_ok db'"
  proof cases
    case (processed validate sha fresh ids policy now out)
    with ok show ?thesis using process_keeps_ok by blast
  next
    case (worked jobs)
    have "jobs_ok jobs" using job_step_ok[OF _ worked(2)] ok by (simp add: gateway_ok_def)
    moreover have "traceable db' iid" if "traceable db iid" for iid using that worked(1) by (auto intro: traceable_grows)
    ultimately show ?thesis using ok unfolding gateway_ok_def worked(1) by (simp add: worked(3,4) traceable_def)
  next
    case environment
    with ok show ?thesis by (auto simp: gateway_ok_def traceable_def)
  qed
qed

text \<open>
  C6. Whatever the gateway, the workers and the environment do, every trade intent traces back to an approved risk decision of
  the Hermes decision it was made for, no decision has two risk decisions, no two intents share an id or an idempotency
  key, and the job tables keep their constraints.
\<close>

theorem intents_traceable:
  assumes "gateway_step\<^sup>*\<^sup>* empty_gateway db" "i \<in> set (jd_intents (gw_jobs db))"
  shows "(\<exists>l \<in> set (gw_links db). il_intent_id l = ti_intent_id i
      \<and> (\<exists>d \<in> set (gw_risk_decisions db). rdr_id d = il_risk_decision_id l
           \<and> rdr_hermes_decision_id d = il_hermes_decision_id l \<and> rdr_status d = ''approved''))
    \<and> distinct (map rdr_hermes_decision_id (gw_risk_decisions db))
    \<and> distinct (map ti_intent_id (jd_intents (gw_jobs db))) \<and> distinct (map ti_idempotency_key (jd_intents (gw_jobs db)))
    \<and> jobs_ok (gw_jobs db)"
  using gateway_store.reachable_inv[OF assms(1)] assms(2) by (auto simp: gateway_ok_def traceable_def)

section \<open>Example\<close>

lemma strip_Cons_nonempty: "\<not> is_space c \<Longrightarrow> strip (c # s) \<noteq> []"
  unfolding strip_def lstrip_Cons by (simp add: lstrip_def)

lemma create_on_empty:
  assumes "jd_jobs db = []" "jd_reservations db = []" "List.find (\<lambda>i. ti_intent_id i = iid) (jd_intents db) = Some i"
    "ti_status i = ''approved''"
    "\<forall>k \<in> {''notional'', ''risk_amount'', ''margin_amount''}. 0 \<le> job_decimal (jget_or (reservation_payload (ti_risk_budget i) (ti_order_plan i)) k (JDec 0))"
  obtains db' rq where "create_execution_job_for_approved_intent sha fresh db iid now None True uuid clock = Inr (db', rq)"
proof -
  have sp: "\<not> is_space CHR ''r''" by code_simp
  let ?key = "execution_job_key sha (ti_intent_id i) (ti_action i) (Some (ti_instrument_id i)) (Some (ti_account_id i))"
  obtain rid where rid: "request_id_for_material sha [Some ''execution_job'', Some (ti_intent_id i), Some ?key] = Inr rid" "strip rid \<noteq> []"
    using strip_Cons_nonempty[OF sp] by (auto simp: request_id_for_material_def request_id_of_def Let_def)
  obtain rq where b: "build_execution_job_request sha fresh i now None = Inr rq" and r: "er_request_id rq = rid"
    by (auto simp: build_execution_job_request_def Let_def rid(1))
  obtain js where j: "insert_execution_job [] rq clock = Inr js" by (simp add: insert_execution_job_def)
  have "0 \<le> rv_notional (job_reservation sha rq uuid clock)" "0 \<le> rv_risk_amount (job_reservation sha rq uuid clock)"
    "0 \<le> rv_margin_amount (job_reservation sha rq uuid clock)"
    using assms(5) by (simp_all add: job_reservation_def Let_def build_request_reservation[OF b])
  then obtain tbl where e: "ensure_risk_reservation sha [] rq uuid clock = Inr tbl"
    by (simp add: ensure_risk_reservation_def Let_def insert_reservation_def not_less[symmetric])
  have ok: "outbox_event_type_ok ''order.execution_job.created''" by code_simp
  have p: "\<exists>p. outbox_payload sha fresh ty aid key payload (Some rid) = Inr p" for ty aid key payload
    unfolding outbox_payload_Inr using rid(2) by simp
  have "\<exists>box x. enqueue_order_management_event sha fresh (jd_outbox db) ty aid ''order.execution_job.created'' key payload (Some rid) clock
      = Inr (box, x)" for ty aid key payload
    using p[of ty aid key payload] ok by (auto simp: enqueue_order_management_event_def Let_def)
  then obtain box x where "enqueue_order_management_event sha fresh (jd_outbox db) ''execution_job''
                (er_execution_job_id rq) ''order.execution_job.created'' (er_idempotency_key rq)
                [(''execution_job_id'', JStr (er_execution_job_id rq)), (''intent_id'', JStr (er_intent_id rq)),
                 (''account_id'', JStr (er_account_id rq)), (''venue_symbol'', JStr (er_venue_symbol rq))]
                (Some rid) clock = Inr (box, x)" by blast
  then have "create_execution_job_for_approved_intent sha fresh db iid now None True uuid clock
      = Inr (db \<lparr>jd_jobs := js, jd_reservations := tbl, jd_outbox := box\<rparr>, rq)"
    using b j e r assms(1-4) by (simp add: create_execution_job_for_approved_intent_def)
  then show thesis by (rule that)
qed

definition example_decision :: hermes_row where
  "example_decision = \<lparr>hr_decision_id = ''d1'', hr_raw_message_id = ''m1'', hr_processing_run_id = ''p1'', hr_context_snapshot_id = ''c1'',
     hr_schema_version = JDec 1, hr_message_type = ''new_signal'', hr_action = ''open_position'', hr_ambiguous = False,
     hr_ambiguity_reasons = JList [], hr_account_scope = ''single'', hr_target_account_id = Some ''acc'', hr_target_position_id = None,
     hr_instrument_symbol = Some ''BTCUSDT'', hr_side = Some ''long'', hr_entry_type = ''limit'', hr_entry_price = Some 100,
     hr_entry_price_min = None, hr_entry_price_max = None, hr_stop_loss = Some 90, hr_take_profits = [110], hr_leverage = Some 5,
     hr_valid_until = None, hr_evidence = JList [], hr_model_provider = ''hermes'', hr_model_version = ''v'', hr_prompt_version = ''p'',
     hr_temperature = 0, hr_confidence = None, hr_created_at = 0\<rparr>"

definition example_gateway :: gateway_db where
  "example_gateway = empty_gateway \<lparr>gw_decisions := [example_decision], gw_heartbeats := [0],
     gw_raw_messages := [\<lparr>rm_id = ''m1'', rm_source = ''telegram'', rm_channel_id = ''ch'', rm_source_message_id = ''7'', rm_author_id = None\<rparr>],
     gw_risk_state := [\<lparr>rst_account_id = ''acc'', rst_instrument_id = ''BTCUSDT'', rst_exposure_notional = 0, rst_open_risk_fraction = 0, rst_state = []\<rparr>]\<rparr>"

definition example_ids :: "nat \<Rightarrow> string" where
  "example_ids n = ''id'' @ replicate n CHR ''x''"

lemma example_context: "gw_risk_decisions example_gateway = []" "gw_decisions example_gateway = [example_decision]"
  "gw_positions example_gateway = []" "gw_jobs example_gateway = empty_jobs" "gw_heartbeats example_gateway = [0]"
  by (simp_all add: example_gateway_def empty_gateway_def)

lemma example_governor:
  "gr_status (governor_outcome example_gateway example_decision default_risk_policy) = ''approved''"
  "gr_account_id (governor_outcome example_gateway example_decision default_risk_policy) = Some ''acc''"
  "gr_instrument_id (governor_outcome example_gateway example_decision default_risk_policy) = Some ''BTCUSDT''"
  "gr_risk_budget (governor_outcome example_gateway example_decision default_risk_policy)
     = Some \<lparr>rb_risk_fraction = 15 / 1000, rb_max_notional = 50000, rb_max_leverage = 5\<rparr>"
proof -
  have acc: "decision_account example_decision default_risk_policy = Some ''acc''" by (simp add: decision_account_def example_decision_def)
  have rs: "load_risk_state example_gateway ''acc'' ''BTCUSDT'' = Some \<lparr>gs_mode = Some ''ACTIVE'', gs_open_risk_fraction = Some 0\<rparr>"
    by (simp add: load_risk_state_def example_gateway_def jget_or_def opt_str_def)
  have pos: "load_positions example_gateway ''acc'' = []" by (simp add: load_positions_def example_context)
  have ev: "governor_outcome example_gateway example_decision default_risk_policy
      = evaluate (gov_decision_of example_decision) [] (Some \<lparr>gs_mode = Some ''ACTIVE'', gs_open_risk_fraction = Some 0\<rparr>) default_risk_policy"
    by (simp add: governor_outcome_def acc pos rs) (simp add: example_decision_def rs)
  have mode: "upper ''ACTIVE'' = ''ACTIVE''" "gov_halted_action_allowed ''open_position'' ''ACTIVE''" by code_simp+
  have "flt (15 / 1000) \<le> flt (1 / 10)" by (rule flt.rnd_mono) simp
  then have frac: "flt (3 / 200) \<le> flt (1 / 10)" by simp
  note defs = evaluate_def check_instrument_def check_update_message_def check_update_target_def
        check_kill_switch_def check_geometry_def check_units_def check_exposure_caps_def gov_decision_of_def example_decision_def
        default_risk_policy_def precision_ok_def geometry_error_def effective_mode_def proposed_notional_def
        positions_notional_def falsy_num_def non_actionable_actions_def policy_opening_actions_def
        policy_update_actions_def update_message_types_def fadd_def Let_def flt.rnd_idem
  show "gr_status (governor_outcome example_gateway example_decision default_risk_policy) = ''approved''"
    "gr_account_id (governor_outcome example_gateway example_decision default_risk_policy) = Some ''acc''"
    "gr_instrument_id (governor_outcome example_gateway example_decision default_risk_policy) = Some ''BTCUSDT''"
    "gr_risk_budget (governor_outcome example_gateway example_decision default_risk_policy)
     = Some \<lparr>rb_risk_fraction = 15 / 1000, rb_max_notional = 50000, rb_max_leverage = 5\<rparr>"
    unfolding ev using frac mode by (simp_all add: defs)
qed

lemma example_processed:
  obtains db' res where "process_one_decision (\<lambda>d. None) sha ''t'' example_ids default_risk_policy 0 example_gateway = Inr (db', Some res)"
    "gres_intent_id res = Some (example_ids 1)" "pending_decisions example_gateway = [example_decision]"
proof -
  let ?o = "of_risk_decision (governor_outcome example_gateway example_decision default_risk_policy)"
  have pend: "pending_decisions example_gateway = [example_decision]" by (simp add: pending_decisions_def example_context)
  have gate: "strip ''acc'' \<notin> set live_open_gated_accounts" by code_simp
  have row: "hr_model_provider example_decision = ''hermes''" "hr_created_at example_decision = 0" "hr_valid_until example_decision = None"
    "hr_raw_message_id example_decision = ''m1''" "hr_action example_decision = ''open_position''"
    by (simp_all add: example_decision_def)
  have fresh: "freshness_problem example_decision default_risk_policy 0 = None" "\<not> projection_is_stale example_gateway 0 60000"
    by (simp_all add: freshness_problem_def row total_seconds_def default_risk_policy_def projection_is_stale_def example_context)
  have o: "go_status ?o = ''approved''" "go_account_id ?o = Some ''acc''" "go_instrument_id ?o = Some ''BTCUSDT''"
    "go_risk_budget ?o = Some \<lparr>rb_risk_fraction = 15 / 1000, rb_max_notional = 50000, rb_max_leverage = 5\<rparr>"
    by (simp_all add: of_risk_decision_def example_governor)
  have dec: "decide (\<lambda>d. None) default_risk_policy 0 example_gateway example_decision = Inr (?o, None)"
    by (simp add: decide_def row fresh hold_if_stale_def apply_live_open_rollout_gate_def o gate)
  let ?db1 = "example_gateway \<lparr>gw_risk_decisions := [outcome_row (example_ids 0) example_decision ?o]\<rparr>"
  have "\<exists>au. raw_message_authorization ?db1 example_decision = Inr au"
  proof -
    have "strip ''ch'' = ''ch''" "strip ''7'' = ''7''" "lower (strip ''telegram'') = ''telegram''" by code_simp+
    then show ?thesis by (simp add: raw_message_authorization_def example_gateway_def row Let_def)
  qed
  then obtain au where au: "raw_message_authorization ?db1 example_decision = Inr au" by blast
  let ?key = "gateway_idempotency_key sha example_decision ?o"
  let ?i = "new_intent (example_ids 1) example_decision ?o default_risk_policy au None ?key 0"
  obtain db2 where w: "write_trade_intent sha example_ids ?db1 example_decision ?o default_risk_policy None 0 = Inr (db2, example_ids 1)"
    and d2: "jd_intents (gw_jobs db2) = [?i]" "jd_jobs (gw_jobs db2) = []" "jd_reservations (gw_jobs db2) = []"
    by (simp add: write_trade_intent_def au o example_context empty_jobs_def Let_def row approved_trade_actions_def)
  have i: "ti_intent_id ?i = example_ids 1" "ti_status ?i = ''approved''"
    "ti_risk_budget ?i = [(''risk_fraction'', JNum (15 / 1000)), (''max_notional'', JNum 50000), (''max_leverage'', JNum 5)]"
    "jget (ti_order_plan ?i) ''notional'' = JNull"
    by (simp_all add: new_intent_def o budget_payload_def intent_order_plan_def jget_def)
  have find: "List.find (\<lambda>i. ti_intent_id i = example_ids 1) (jd_intents (gw_jobs db2)) = Some ?i" using i(1) by (simp add: d2)
  have amounts: "\<forall>k \<in> {''notional'', ''risk_amount'', ''margin_amount''}.
      0 \<le> job_decimal (jget_or (reservation_payload (ti_risk_budget ?i) (ti_order_plan ?i)) k (JDec 0))"
    unfolding i(3) by (simp add: reservation_payload_def jget_def jor_def job_decimal_def fmt_decimal_def dmul_def ddiv_def Let_def jget_or_def)
  obtain jobs rq where c: "create_execution_job_for_approved_intent sha ''t'' (gw_jobs db2) (example_ids 1) 0 None True (example_ids 3) 0 = Inr (jobs, rq)"
    by (rule create_on_empty[OF d2(2,3) find i(2) amounts])
  have "\<exists>db' res. process_one_decision (\<lambda>d. None) sha ''t'' example_ids default_risk_policy 0 example_gateway = Inr (db', Some res)
      \<and> gres_intent_id res = Some (example_ids 1)"
    using c by (simp add: process_one_decision_def pend dec write_outcome_def example_context o w Let_def)
  then show thesis using that pend by blast
qed


theorem gateway_intent_justified_witness:
  "\<exists>db' res iid. process_one_decision (\<lambda>d. None) (\<lambda>s. 0) ''t'' example_ids default_risk_policy 0 example_gateway = Inr (db', Some res)
     \<and> gres_intent_id res = Some iid \<and> \<not> projection_is_stale example_gateway 0 60000
     \<and> (\<exists>i \<in> set (jd_intents (gw_jobs db')). ti_intent_id i = iid \<and> ti_status i = ''approved'')"
proof -
  obtain db' res where p: "process_one_decision (\<lambda>d. None) (\<lambda>s. 0) ''t'' example_ids default_risk_policy 0 example_gateway = Inr (db', Some res)"
    "gres_intent_id res = Some (example_ids 1)" by (rule example_processed)
  from gateway_intent_justified[OF p] p show ?thesis by blast
qed

theorem decision_decided_once_witness:
  "\<exists>db' res. process_one_decision (\<lambda>d. None) (\<lambda>s. 0) ''t'' example_ids default_risk_policy 0 example_gateway = Inr (db', Some res)
     \<and> pending_decisions example_gateway \<noteq> [] \<and> pending_decisions db' = []"
proof -
  obtain db' res where p: "process_one_decision (\<lambda>d. None) (\<lambda>s. 0) ''t'' example_ids default_risk_policy 0 example_gateway = Inr (db', Some res)"
    and pend: "pending_decisions example_gateway = [example_decision]" by (rule example_processed)
  have "distinct (map hr_decision_id (gw_decisions example_gateway))" by (simp add: example_context)
  from decision_decided_once[OF p this] p pend show ?thesis by auto
qed

theorem intents_traceable_witness:
  "\<exists>db i. gateway_step\<^sup>*\<^sup>* empty_gateway db \<and> i \<in> set (jd_intents (gw_jobs db))
     \<and> (\<exists>l \<in> set (gw_links db). il_intent_id l = ti_intent_id i)"
proof -
  obtain db res where p: "process_one_decision (\<lambda>d. None) (\<lambda>s. 0) ''t'' example_ids default_risk_policy 0 example_gateway = Inr (db, Some res)"
    "gres_intent_id res = Some (example_ids 1)" by (rule example_processed)
  have "gateway_step empty_gateway example_gateway"
    by (rule gateway_step.environment) (simp_all add: example_gateway_def)
  then have r: "gateway_step\<^sup>*\<^sup>* empty_gateway db" using gateway_step.processed[OF p(1)] by auto
  obtain r o' gate where w: "write_outcome (\<lambda>s. 0) ''t'' example_ids example_gateway r o' default_risk_policy gate 0 = Inr (db, res)"
    using process_Inr[OF p(1)] by blast
  then obtain db2 :: gateway_db and rq where
    "create_execution_job_for_approved_intent (\<lambda>s. 0) ''t'' (gw_jobs db2) (example_ids 1) 0 None True (example_ids 3) 0 = Inr (gw_jobs db, rq)"
    using write_outcome_Inr[OF w] p(2) by (auto split: if_splits)
  from create_makes_job(1)[OF this] obtain i where i: "i \<in> set (jd_intents (gw_jobs db))" by blast
  from intents_traceable[OF r i] r i show ?thesis by blast
qed

end
