(* ===== verification/Outbox_Publisher.thy ===== *)
theory Outbox_Publisher
  imports Idempotency "HOL-Library.Product_Lexorder" "HOL-Library.List_Lexorder" "HOL-Library.Char_ord"
begin

text \<open>
  The publisher of the transactional outbox (\<open>outbox/publisher.py\<close>). A row is handed to the sink and then marked
  published, or failed when the sink raises; both are written with an audit event in one transaction.

  The sink is a protocol: a parameter with a state, which returns or raises, and then the text is the class and the message
  of what it raised. A raise of the publisher rolls the transaction back, but what the sink has done stays done.
\<close>

section \<open>Tables\<close>

record outbox_row = outbox_event +
  ox_attempts :: nat
  ox_next_attempt_at :: "instant option"
  ox_published_at :: "instant option"
  ox_failed_at :: "instant option"

record outbox_audit =
  oa_event_type :: string
  oa_aggregate_type :: string
  oa_aggregate_id :: string
  oa_actor :: string
  oa_trace_id :: json
  oa_raw_message_id :: "string option"
  oa_payload :: dict

record outbox_store =
  os_rows :: "outbox_row list"
  os_audit :: "outbox_audit list"

type_synonym 'x sink = "'x \<Rightarrow> outbox_row \<Rightarrow> 'x \<times> string option"

definition outbox_audit_row :: "outbox_row \<Rightarrow> string \<Rightarrow> dict \<Rightarrow> outbox_audit" where
  "outbox_audit_row e event_type payload =
     \<lparr>oa_event_type = event_type, oa_aggregate_type = ob_aggregate_type e, oa_aggregate_id = ob_aggregate_id e,
      oa_actor = ''outbox_publisher'', oa_trace_id = ob_trace_id e,
      oa_raw_message_id = (if ob_aggregate_type e = ''raw_message''
        then case parse_uuid (ob_aggregate_id e) of Inr u \<Rightarrow> Some (uuid_str u) | Inl _ \<Rightarrow> None else None),
      oa_payload = dict_update [(''outbox_event_id'', JStr (ob_id e)), (''outbox_event_type'', JStr (ob_event_type e))] payload\<rparr>"

definition pending_row :: "string \<Rightarrow> outbox_row \<Rightarrow> bool" where
  "pending_row eid r = (ob_id r = eid \<and> ob_status r = ''pending'')"

definition mark_failed :: "instant \<Rightarrow> string \<Rightarrow> outbox_row \<Rightarrow> outbox_row" where
  "mark_failed now err r = r \<lparr>ob_status := ''failed'', ox_failed_at := Some now, ox_attempts := Suc (ox_attempts r), ob_error := JStr err\<rparr>"

definition mark_published :: "instant \<Rightarrow> outbox_row \<Rightarrow> outbox_row" where
  "mark_published now r = r \<lparr>ob_status := ''published'', ox_published_at := Some now, ox_failed_at := None,
     ox_attempts := Suc (ox_attempts r), ob_error := JNull\<rparr>"

definition deliver_locked_event :: "'x sink \<Rightarrow> instant \<Rightarrow> 'x \<times> outbox_store \<Rightarrow> outbox_row \<Rightarrow> ('x \<times> outbox_store) \<times> string result" where
  "deliver_locked_event deliver now s e =
     (let (x, st) = s; (x', raised) = deliver x e;
          one = (length (filter (pending_row (ob_id e)) (os_rows st)) = 1);
          attempt = JNum (of_nat (ox_attempts e + 1))
      in if \<not> one then ((x', st), Inl OutboxStateError)
         else case raised of
           Some err \<Rightarrow>
             let error = take 2000 err
             in ((x', \<lparr>os_rows = update_where (pending_row (ob_id e)) (mark_failed now error) (os_rows st),
                      os_audit = os_audit st @ [outbox_audit_row e ''outbox.failed'' [(''error'', JStr error), (''attempt'', attempt)]]\<rparr>),
                 Inr ''failed'')
         | None \<Rightarrow>
             ((x', \<lparr>os_rows = update_where (pending_row (ob_id e)) (mark_published now) (os_rows st),
                    os_audit = os_audit st @ [outbox_audit_row e ''outbox.published'' [(''attempt'', attempt)]]\<rparr>),
              Inr ''published''))"

definition publish_event :: "'x sink \<Rightarrow> instant \<Rightarrow> 'x \<times> outbox_store \<Rightarrow> string \<Rightarrow> ('x \<times> outbox_store) \<times> string result" where
  "publish_event deliver now s eid =
     (case List.find (\<lambda>r. ob_id r = eid) (os_rows (snd s)) of
        None \<Rightarrow> (s, Inl OutboxStateError)
      | Some e \<Rightarrow>
          if ob_status e = ''published'' then (s, Inr ''already_published'')
          else if ob_status e \<noteq> ''pending'' then (s, Inl OutboxStateError)
          else deliver_locked_event deliver now s e)"

definition due :: "instant \<Rightarrow> outbox_row \<Rightarrow> bool" where
  "due now r = (ob_status r = ''pending'' \<and> (case ox_next_attempt_at r of None \<Rightarrow> True | Some t \<Rightarrow> t \<le> now))"

definition due_rows :: "instant \<Rightarrow> outbox_store \<Rightarrow> outbox_row list" where
  "due_rows now st = sort_key (\<lambda>r. (ob_created_at r, ob_id r)) (filter (due now) (os_rows st))"

definition publish_next_pending :: "'x sink \<Rightarrow> instant \<Rightarrow> 'x \<times> outbox_store \<Rightarrow> ('x \<times> outbox_store) \<times> string result" where
  "publish_next_pending deliver now s =
     (case due_rows now (snd s) of [] \<Rightarrow> (s, Inr ''empty'') | e # _ \<Rightarrow> deliver_locked_event deliver now s e)"

text \<open>The clock is read in every transaction: \<open>clocks\<close> gives the times of the polling passes.\<close>

fun publish_loop :: "'x sink \<Rightarrow> (nat \<Rightarrow> instant) \<Rightarrow> nat \<Rightarrow> nat \<Rightarrow> 'x \<times> outbox_store \<Rightarrow> ('x \<times> outbox_store) \<times> nat result" where
  "publish_loop deliver clocks 0 published s = (s, Inr published)"
| "publish_loop deliver clocks (Suc n) published s =
     (case publish_next_pending deliver (clocks n) s of
        (s', Inl e) \<Rightarrow> (s', Inl e)
      | (s', Inr result) \<Rightarrow>
          if result = ''empty'' then (s', Inr published)
          else publish_loop deliver clocks n (if result = ''published'' then Suc published else published) s')"

definition publish_pending_once :: "'x sink \<Rightarrow> (nat \<Rightarrow> instant) \<Rightarrow> int \<Rightarrow> int option \<Rightarrow> 'x \<times> outbox_store \<Rightarrow> ('x \<times> outbox_store) \<times> nat result" where
  "publish_pending_once deliver clocks configured batch_size s =
     (let limit = (case batch_size of Some b \<Rightarrow> if b = 0 then configured else b | None \<Rightarrow> configured)
      in if limit \<le> 0 then (s, Inl ValueError) else publish_loop deliver clocks (nat limit) 0 s)"

section \<open>Deliveries\<close>

definition rows_ok :: "outbox_store \<Rightarrow> bool" where
  "rows_ok st = distinct (map ob_id (os_rows st))"

lemma pending_row_simps [simp]:
  "ob_id (mark_failed now err r) = ob_id r" "ob_id (mark_published now r) = ob_id r"
  "ob_status (mark_failed now err r) = ''failed''" "ob_status (mark_published now r) = ''published''"
  by (simp_all add: mark_failed_def mark_published_def)

lemma deliver_locked_cases:
  assumes "deliver_locked_event deliver now (x, st) e = ((x', st'), out)" "e \<in> set (os_rows st)" "ob_status e = ''pending''" "rows_ok st"
  obtains f where "x' = fst (deliver x e)" "os_rows st' = update_where (pending_row (ob_id e)) f (os_rows st)"
    "\<And>r. ob_id (f r) = ob_id r" "\<And>r. ob_status (f r) = (if snd (deliver x e) = None then ''published'' else ''failed'')"
    "out = Inr (if snd (deliver x e) = None then ''published'' else ''failed'')"
    "\<exists>a. os_audit st' = os_audit st @ [a]"
proof -
  have "filter (pending_row (ob_id e)) (os_rows st) = filter (\<lambda>r. ob_id r = ob_id e) (os_rows st)"
    using assms(2-4) by (intro filter_cong) (auto simp: pending_row_def rows_ok_def distinct_map dest: inj_onD)
  moreover have "length (filter (\<lambda>r. ob_id r = ob_id e) rs) = 1" if "distinct (map ob_id rs)" "e \<in> set rs" for rs
    using that by (induction rs) (auto simp: filter_empty_conv, (metis image_eqI)+)
  ultimately have one: "length (filter (pending_row (ob_id e)) (os_rows st)) = 1" using assms(2,4) by (simp add: rows_ok_def)
  show thesis
  proof (cases "snd (deliver x e)")
    case None
    then show ?thesis using assms(1) one that[of "mark_published now"]
      by (auto simp: deliver_locked_event_def Let_def case_prod_unfold)
  next
    case (Some err)
    then show ?thesis using assms(1) one that[of "mark_failed now (take 2000 err)"]
      by (auto simp: deliver_locked_event_def Let_def case_prod_unfold)
  qed
qed

text \<open>The sink with a log of what it was handed and how it answered.\<close>

definition logged :: "'x sink \<Rightarrow> ('x \<times> (string \<times> string option) list) sink" where
  "logged deliver xl e = (let (x', raised) = deliver (fst xl) e in ((x', snd xl @ [(ob_id e, raised)]), raised))"

inductive publisher_step :: "'x sink \<Rightarrow> ('x \<times> (string \<times> string option) list) \<times> outbox_store
    \<Rightarrow> ('x \<times> (string \<times> string option) list) \<times> outbox_store \<Rightarrow> bool" for deliver where
  one: "publish_event (logged deliver) now s eid = (s', out) \<Longrightarrow> publisher_step deliver s s'"
| batch: "publish_pending_once (logged deliver) clocks configured batch_size s = (s', out') \<Longrightarrow> publisher_step deliver s s'"
| enqueued: "ob_id r \<notin> set (map ob_id (os_rows st)) \<Longrightarrow> ob_id r \<notin> set (map fst (snd xl))
    \<Longrightarrow> publisher_step deliver (xl, st) (xl, st \<lparr>os_rows := os_rows st @ [r]\<rparr>)"

definition final_status :: "string option \<Rightarrow> string" where
  "final_status raised = (if raised = None then ''published'' else ''failed'')"

definition deliveries_ok :: "('x \<times> (string \<times> string option) list) \<times> outbox_store \<Rightarrow> bool" where
  "deliveries_ok s =
     (rows_ok (snd s) \<and> distinct (map fst (snd (fst s)))
      \<and> (\<forall>(i, raised) \<in> set (snd (fst s)). \<exists>r \<in> set (os_rows (snd s)). ob_id r = i \<and> ob_status r = final_status raised))"

lemma final_status_pending [simp]: "final_status raised \<noteq> ''pending''"
  by (simp add: final_status_def)

lemma rows_unique: "rows_ok st \<Longrightarrow> r \<in> set (os_rows st) \<Longrightarrow> r' \<in> set (os_rows st) \<Longrightarrow> ob_id r = ob_id r' \<Longrightarrow> r = r'"
  by (auto simp: rows_ok_def distinct_map dest: inj_onD)

text \<open>A delivery touches the row it delivers and no other.\<close>

lemma delivery_ok:
  assumes "deliver_locked_event (logged deliver) now ((x, l), st) e = (s', out)" "e \<in> set (os_rows st)" "ob_status e = ''pending''"
    "deliveries_ok ((x, l), st)"
  shows "deliveries_ok s' \<and> out \<in> {Inr ''published'', Inr ''failed''}
    \<and> (\<forall>r \<in> set (os_rows st). ob_id r \<noteq> ob_id e \<longrightarrow> r \<in> set (os_rows (snd s')))
    \<and> (\<forall>r \<in> set (os_rows (snd s')). ob_id r \<noteq> ob_id e \<longrightarrow> r \<in> set (os_rows st))
    \<and> (\<forall>r \<in> set (os_rows (snd s')). ob_id r = ob_id e \<longrightarrow> ob_status r \<noteq> ''pending'')"
proof -
  obtain x' l' st' where s': "s' = ((x', l'), st')" by (metis prod.collapse)
  have ok: "rows_ok st" using assms(4) by (simp add: deliveries_ok_def)
  let ?raised = "snd (deliver x e)"
  from assms(1)[unfolded s'] assms(2,3) ok show ?thesis
  proof (rule deliver_locked_cases)
    fix f
    assume x: "(x', l') = fst (logged deliver (x, l) e)"
      and rows: "os_rows st' = update_where (pending_row (ob_id e)) f (os_rows st)"
      and f: "\<And>r. ob_id (f r) = ob_id r" "\<And>r. ob_status (f r) = (if snd (logged deliver (x, l) e) = None then ''published'' else ''failed'')"
      and out: "out = Inr (if snd (logged deliver (x, l) e) = None then ''published'' else ''failed'')"
    have l': "l' = l @ [(ob_id e, ?raised)]" and r: "snd (logged deliver (x, l) e) = ?raised"
      using x by (auto simp: logged_def case_prod_unfold Let_def)
    have ids: "map ob_id (os_rows st') = map ob_id (os_rows st)" unfolding rows by (rule map_update_where_frame) (rule f(1))
    have keep: "r \<in> set (os_rows st')" if "r \<in> set (os_rows st)" "ob_id r \<noteq> ob_id e" for r
      using that by (auto simp: rows set_update_where pending_row_def)
    have bwd: "r \<in> set (os_rows st)" if "r \<in> set (os_rows st')" "ob_id r \<noteq> ob_id e" for r
      using that f(1) by (auto simp: rows set_update_where pending_row_def)
    have fe: "f e \<in> set (os_rows st')" using assms(2,3) by (auto simp: rows set_update_where pending_row_def)
    have new: "ob_status r \<noteq> ''pending''" if "r \<in> set (os_rows st')" "ob_id r = ob_id e" for r
      using that f(2) by (auto simp: rows set_update_where pending_row_def split: if_splits)
    have unlogged: "i \<noteq> ob_id e" if mem: "(i, q) \<in> set l" for i q
    proof -
      obtain r' where "r' \<in> set (os_rows st)" "ob_id r' = i" "ob_status r' = final_status q" using assms(4) mem by (auto simp: deliveries_ok_def)
      then show ?thesis using rows_unique[OF ok _ assms(2)] assms(3) by (metis final_status_pending)
    qed
    have "\<exists>r \<in> set (os_rows st'). ob_id r = i \<and> ob_status r = final_status q" if "(i, q) \<in> set l'" for i q
    proof (cases "(i, q) \<in> set l")
      case True
      then obtain r' where "r' \<in> set (os_rows st)" "ob_id r' = i" "ob_status r' = final_status q" using assms(4) by (auto simp: deliveries_ok_def)
      then show ?thesis using keep unlogged[OF True] by blast
    next
      case False
      then have "i = ob_id e" "q = ?raised" using that l' by auto
      then show ?thesis using fe f r by (intro bexI[of _ "f e"]) (simp_all add: final_status_def)
    qed
    moreover have "ob_id e \<notin> fst ` set l" using unlogged by force
    then have "distinct (map fst l')" using assms(4) by (simp add: l' deliveries_ok_def)
    moreover have "rows_ok st'" using ok ids by (simp add: rows_ok_def)
    ultimately show ?thesis using keep bwd new out by (auto simp: s' deliveries_ok_def)
  qed
qed

definition settled :: "outbox_store \<Rightarrow> outbox_row set" where
  "settled st = {r \<in> set (os_rows st). ob_status r \<noteq> ''pending''}"

lemma delivery_keeps_settled:
  assumes "deliver_locked_event (logged deliver) now (xl, st) e = (s', out)" "e \<in> set (os_rows st)" "ob_status e = ''pending''"
    "deliveries_ok (xl, st)"
  shows "settled st \<subseteq> settled (snd s')"
proof
  fix r assume r: "r \<in> settled st"
  obtain x l where xl: "xl = (x, l)" by (cases xl)
  have "rows_ok st" using assms(4) by (simp add: deliveries_ok_def)
  then have "ob_id r \<noteq> ob_id e" using r rows_unique[of st r e] assms(2,3) by (auto simp: settled_def)
  then show "r \<in> settled (snd s')" using delivery_ok[OF assms(1)[unfolded xl] assms(2,3) assms(4)[unfolded xl]] r by (auto simp: settled_def)
qed

lemma due_rows_mem: "e \<in> set (due_rows now st) \<Longrightarrow> e \<in> set (os_rows st) \<and> ob_status e = ''pending''"
  by (auto simp: due_rows_def due_def)

lemma next_ok:
  assumes "publish_next_pending (logged deliver) now s = (s', out)" "deliveries_ok s"
  shows "deliveries_ok s' \<and> settled (snd s) \<subseteq> settled (snd s') \<and> (\<exists>v. out = Inr v)"
proof (cases "due_rows now (snd s)")
  case Nil
  then show ?thesis using assms by (auto simp: publish_next_pending_def)
next
  case (Cons e es)
  obtain x l st where s: "s = ((x, l), st)" by (metis prod.collapse)
  have d: "deliver_locked_event (logged deliver) now ((x, l), st) e = (s', out)" using assms(1) Cons by (simp add: publish_next_pending_def s)
  have e: "e \<in> set (os_rows st)" "ob_status e = ''pending''" using due_rows_mem[of e now st] Cons by (auto simp: s)
  show ?thesis using delivery_ok[OF d e] delivery_keeps_settled[OF d e] assms(2) by (auto simp: s)
qed

lemma loop_ok:
  "publish_loop (logged deliver) clocks n k s = (s', out) \<Longrightarrow> deliveries_ok s \<Longrightarrow>
   deliveries_ok s' \<and> settled (snd s) \<subseteq> settled (snd s') \<and> (\<exists>v. out = Inr v)"
proof (induction n arbitrary: k s)
  case (Suc n)
  obtain s1 o1 where n: "publish_next_pending (logged deliver) (clocks n) s = (s1, o1)" by (metis surj_pair)
  note ok = next_ok[OF n Suc.prems(2)]
  then obtain v where v: "o1 = Inr v" by blast
  show ?case
  proof (cases "v = ''empty''")
    case True
    then show ?thesis using Suc.prems(1) n v ok by auto
  next
    case False
    then have "publish_loop (logged deliver) clocks n (if v = ''published'' then Suc k else k) s1 = (s', out)"
      using Suc.prems(1) n v by simp
    from Suc.IH[OF this] ok show ?thesis by blast
  qed
qed auto

lemma publisher_step_ok:
  assumes "publisher_step deliver s s'" "deliveries_ok s"
  shows "deliveries_ok s' \<and> settled (snd s) \<subseteq> settled (snd s')"
  using assms
proof cases
  case (one now eid out)
  obtain x l st where s: "s = ((x, l), st)" by (metis prod.collapse)
  show ?thesis
  proof (cases "s' = s")
    case False
    then obtain e where f: "List.find (\<lambda>r. ob_id r = eid) (os_rows st) = Some e" "ob_status e = ''pending''"
      and d: "deliver_locked_event (logged deliver) now ((x, l), st) e = (s', out)"
      using one by (auto simp: publish_event_def s split: option.splits if_splits)
    have e: "e \<in> set (os_rows st)" using find_SomeD[OF f(1)] by simp
    show ?thesis using delivery_ok[OF d e f(2)] delivery_keeps_settled[OF d e f(2)] assms(2) by (auto simp: s)
  qed (use assms(2) in simp)
next
  case (batch clocks configured batch_size out)
  then consider "s' = s" | n out' where "publish_loop (logged deliver) clocks n 0 s = (s', out')"
    by (auto simp only: publish_pending_once_def Let_def prod.inject split: if_splits)
  then show ?thesis
  proof cases
    case 1
    with assms(2) show ?thesis by simp
  next
    case 2
    from loop_ok[OF 2 assms(2)] show ?thesis by blast
  qed
next
  case (enqueued r st xl)
  then show ?thesis using assms(2) by (auto simp: deliveries_ok_def rows_ok_def settled_def)
qed

definition empty_outbox :: outbox_store where
  "empty_outbox = \<lparr>os_rows = [], os_audit = []\<rparr>"

interpretation outbox_deliveries: invariant_store "((x, []), empty_outbox)" "publisher_step deliver" deliveries_ok
  for x :: 'x and deliver :: "'x sink"
proof
  show "deliveries_ok ((x, []), empty_outbox)" by (simp add: deliveries_ok_def rows_ok_def empty_outbox_def)
qed (use publisher_step_ok in blast)


lemma settled_stays:
  assumes "(publisher_step deliver)\<^sup>*\<^sup>* s s'" "deliveries_ok s"
  shows "settled (snd s) \<subseteq> settled (snd s')"
  by (rule outbox_deliveries.steps_mono[OF assms]) (use publisher_step_ok in blast)

text \<open>
  A failed delivery is final: whatever the publisher does afterwards, the row stays exactly as it is, marked failed, and its event is
  never handed to the sink again, although the publisher is documented to deliver at least once and the table has a column for the next attempt.
\<close>

theorem failed_delivery_is_final:
  assumes "(publisher_step deliver)\<^sup>*\<^sup>* ((x, []), empty_outbox) ((x1, log1), st1)" "r \<in> set (os_rows st1)" "ob_status r = ''failed''"
    "(publisher_step deliver)\<^sup>*\<^sup>* ((x1, log1), st1) ((x2, log2), st2)"
  shows "r \<in> set (os_rows st2) \<and> length (filter (\<lambda>p. fst p = ob_id r) log2) \<le> 1"
proof -
  have ok: "deliveries_ok ((x1, log1), st1)" by (rule outbox_deliveries.reachable_inv[OF assms(1)])
  have "r \<in> settled st1" using assms(2,3) by (simp add: settled_def)
  then have "r \<in> set (os_rows st2)" using settled_stays[OF assms(4) ok] by (auto simp: settled_def)
  moreover have "distinct (map fst log2)"
    using outbox_deliveries.inv_steps[OF assms(4) ok] by (simp add: deliveries_ok_def)
  moreover have "length (filter (\<lambda>p. fst p = i) ps) \<le> 1" if "distinct (map fst ps)" for i and ps :: "(string \<times> string option) list"
    using that by (induction ps) (auto simp: filter_empty_conv, metis fst_conv image_eqI)
  ultimately show ?thesis by blast
qed


section \<open>A polling pass\<close>

lemma due_rows_after:
  assumes "deliver_locked_event deliver now (x, st) e = ((x', st'), out)" "due_rows now st = e # es" "rows_ok st"
  shows "due_rows now st' = es" "rows_ok st'" "\<exists>v. out = Inr v \<and> v \<noteq> ''empty''"
proof -
  have e: "e \<in> set (os_rows st)" "ob_status e = ''pending''" using due_rows_mem[of e now st] assms(2) by auto
  from assms(1) e assms(3)
  have "due_rows now st' = es \<and> rows_ok st' \<and> (\<exists>v. out = Inr v \<and> v \<noteq> ''empty'')"
  proof (rule deliver_locked_cases)
    fix f
    assume rows: "os_rows st' = update_where (pending_row (ob_id e)) f (os_rows st)" and f: "\<And>r. ob_id (f r) = ob_id r"
      "\<And>r. ob_status (f r) = (if snd (deliver x e) = None then ''published'' else ''failed'')"
      and out: "out = Inr (if snd (deliver x e) = None then ''published'' else ''failed'')"
    have ids: "map ob_id (os_rows st') = map ob_id (os_rows st)" unfolding rows by (rule map_update_where_frame) (rule f(1))
    have "filter (due now) (os_rows st') = filter (\<lambda>r. \<not> pending_row (ob_id e) r) (filter (due now) (os_rows st))"
      unfolding rows by (rule filter_update_where_drop) (simp add: due_def f(2))
    then have "due_rows now st' = filter (\<lambda>r. \<not> pending_row (ob_id e) r) (e # es)"
      unfolding due_rows_def using assms(2)[unfolded due_rows_def] by (metis filter_sort)
    moreover have "distinct (map ob_id (due_rows now st))"
      using distinct_map_filter[of ob_id "os_rows st" "due now"] assms(3) by (simp add: due_rows_def rows_ok_def distinct_map)
    then have "\<not> pending_row (ob_id e) r" if "r \<in> set es" for r
      using that assms(2) by (auto simp: pending_row_def) (metis imageI)
    ultimately have "due_rows now st' = es" using e by (simp add: pending_row_def filter_id_conv)
    then show ?thesis using ids assms(3) out by (simp add: rows_ok_def)
  qed
  then show "due_rows now st' = es" "rows_ok st'" "\<exists>v. out = Inr v \<and> v \<noteq> ''empty''" by blast+
qed

lemma publish_loop_drains:
  assumes "rows_ok st" "length (due_rows now st) \<le> n"
  shows "\<exists>x' st' m. publish_loop deliver (\<lambda>_. now) n k (x, st) = ((x', st'), Inr m) \<and> due_rows now st' = []"
  using assms
proof (induction n arbitrary: k x st)
  case (Suc n)
  show ?case
  proof (cases "due_rows now st")
    case Nil
    then show ?thesis by (simp add: publish_next_pending_def)
  next
    case (Cons e es)
    obtain x1 st1 out where d: "deliver_locked_event deliver now (x, st) e = ((x1, st1), out)" by (metis prod.collapse)
    note a = due_rows_after[OF d Cons Suc.prems(1)]
    obtain v where v: "out = Inr v" "v \<noteq> ''empty''" using a(3) by blast
    have "publish_next_pending deliver now (x, st) = ((x1, st1), Inr v)" using d v by (simp add: publish_next_pending_def Cons)
    moreover have "length (due_rows now st1) \<le> n" using a(1) Suc.prems(2) Cons by simp
    ultimately show ?thesis using Suc.IH[OF a(2), of "if v = ''published'' then Suc k else k" x1] v by auto
  qed
qed simp


section \<open>Examples\<close>

definition example_row :: outbox_row where
  "example_row = \<lparr>ob_id = ''o1'', ob_status = ''pending'', ob_aggregate_type = ''trade_intent'', ob_aggregate_id = ''i1'',
     ob_event_type = ''trade_intent.approved'', ob_payload = [], ob_trace_id = JNull, ob_error = JNull, ob_created_at = 0,
     ox_attempts = 0, ox_next_attempt_at = None, ox_published_at = None, ox_failed_at = None\<rparr>"

definition broken_sink :: "unit sink" where
  "broken_sink x e = (x, Some ''ConnectionError: refused'')"

lemma example_failed:
  obtains st where "(publisher_step broken_sink)\<^sup>*\<^sup>* (((), []), empty_outbox) (((), [(''o1'', Some ''ConnectionError: refused'')]), st)"
    "\<exists>r \<in> set (os_rows st). ob_status r = ''failed''"
proof -
  let ?s0 = "(((), []), empty_outbox) :: (unit \<times> (string \<times> string option) list) \<times> outbox_store"
  let ?s1 = "(((), []), empty_outbox \<lparr>os_rows := [example_row]\<rparr>) :: (unit \<times> (string \<times> string option) list) \<times> outbox_store"
  have 1: "publisher_step broken_sink ?s0 ?s1"
    using publisher_step.enqueued[of example_row empty_outbox "((), [])" broken_sink] by (simp add: empty_outbox_def)
  obtain s' out where p: "publish_event (logged broken_sink) 5 ?s1 ''o1'' = (s', out)" by (metis surj_pair)
  have 2: "publisher_step broken_sink ?s1 s'" by (rule publisher_step.one[OF p])
  have "fst s' = ((), [(''o1'', Some ''ConnectionError: refused'')])" "\<exists>r \<in> set (os_rows (snd s')). ob_status r = ''failed''"
    using p by (auto simp: publish_event_def deliver_locked_event_def logged_def broken_sink_def empty_outbox_def example_row_def
        pending_row_def mark_failed_def Let_def)
  then show thesis using that[of "snd s'"] 1 2 by (metis prod.collapse converse_rtranclp_into_rtranclp rtranclp.rtrancl_refl)
qed


theorem failed_delivery_is_final_witness:
  "\<exists>r st log2. (publisher_step broken_sink)\<^sup>*\<^sup>* (((), []), empty_outbox) (((), log2), st) \<and> r \<in> set (os_rows st) \<and> ob_status r = ''failed''
     \<and> length (filter (\<lambda>p. fst p = ob_id r) log2) \<le> 1"
proof -
  obtain st r where s: "(publisher_step broken_sink)\<^sup>*\<^sup>* (((), []), empty_outbox) (((), [(''o1'', Some ''ConnectionError: refused'')]), st)"
    and r: "r \<in> set (os_rows st)" "ob_status r = ''failed''" using example_failed by blast
  from failed_delivery_is_final[OF s r rtranclp.rtrancl_refl] s r show ?thesis by blast
qed


end
