(* ===== verification/Settings_Schema.thy ===== *)
theory Settings_Schema
  imports Identifiers Json "HOL-Library.List_Lexorder" "HOL-Library.Char_ord"
begin

text \<open>
  Order-management settings: the descriptor \<open>order_management_settings.v1.json\<close> as data, its
  validation and the validation of settings (\<open>settings/schema.py\<close>), the permissions and the live
  risk check (\<open>settings/permissions.py\<close>), and the resolution of the effective value over the
  scopes (\<open>settings/resolver.py\<close>).

  The value of a setting keeps Python's distinction of bool, int, float and str; a string that
  spells a number is \<open>SDec\<close>, lists and objects are \<open>SOther\<close>. A dict is an association
  list whose keys are distinct (\<open>wf_settings\<close>); the descriptor is an object of objects by its type.
\<close>

section \<open>Values, settings and the descriptor\<close>

datatype setting =
    SNull
  | SBool bool
  | SInt int
  | SFloat rat
  | SStr string
  | SDec rat
  | SOther json

type_synonym fields = "(string \<times> setting) list"

text \<open>The value under a category name: an object, null, or something else.\<close>

datatype category = Fields fields | NoFields | NotObject

type_synonym settings = "(string \<times> category) list"

record setting_field =
  sf_type :: string
  sf_unit :: "string option"
  sf_default :: "setting option"
  sf_enum :: "string list option"
  sf_min :: "rat option"
  sf_max :: "rat option"
  sf_apply_mode :: "string option"
  sf_scope_overridable :: "bool option"
  sf_secret :: bool

record descriptor =
  de_schema_version :: string
  de_kind :: string
  de_categories :: "(string \<times> (string \<times> setting_field) list) list"

text \<open>An error of the validation: the path and the message.\<close>

type_synonym setting_error = "string \<times> msg"

definition plain_field :: "string \<Rightarrow> string \<Rightarrow> setting \<Rightarrow> string \<Rightarrow> bool \<Rightarrow> setting_field" where
  "plain_field ty unit dflt mode over = \<lparr>sf_type = ty, sf_unit = Some unit, sf_default = Some dflt, sf_enum = None,
     sf_min = None, sf_max = None, sf_apply_mode = Some mode, sf_scope_overridable = Some over, sf_secret = False\<rparr>"

definition boolean_field :: "string \<Rightarrow> setting \<Rightarrow> string \<Rightarrow> bool \<Rightarrow> setting_field" where
  "boolean_field = plain_field ''boolean''"

definition string_field :: "string \<Rightarrow> setting \<Rightarrow> string \<Rightarrow> bool \<Rightarrow> setting_field" where
  "string_field = plain_field ''string''"

definition integer_field :: "string \<Rightarrow> setting \<Rightarrow> rat \<Rightarrow> rat \<Rightarrow> string \<Rightarrow> bool \<Rightarrow> setting_field" where
  "integer_field unit dflt lo hi mode over = plain_field ''integer'' unit dflt mode over \<lparr>sf_min := Some lo, sf_max := Some hi\<rparr>"

definition number_field :: "string \<Rightarrow> setting \<Rightarrow> rat \<Rightarrow> rat \<Rightarrow> string \<Rightarrow> bool \<Rightarrow> setting_field" where
  "number_field unit dflt lo hi mode over = plain_field ''number'' unit dflt mode over \<lparr>sf_min := Some lo, sf_max := Some hi\<rparr>"

definition enum_field :: "string \<Rightarrow> setting \<Rightarrow> string list \<Rightarrow> string \<Rightarrow> bool \<Rightarrow> setting_field" where
  "enum_field unit dflt vals mode over = plain_field ''enum'' unit dflt mode over \<lparr>sf_enum := Some vals\<rparr>"

definition general_fields :: "(string \<times> setting_field) list" where
  "general_fields = [
   (''order_manager_enabled'', boolean_field ''flag'' (SBool False) ''hot_reload'' True),
   (''execution_mode'', enum_field ''mode'' (SStr ''shadow'') [''shadow'', ''testnet'', ''live''] ''restart_required'' True),
   (''risk_posture'', enum_field ''state'' (SStr ''HALTED'') [''ACTIVE'', ''REDUCING'', ''HALTED''] ''hot_reload'' True),
   (''allowed_instruments'', string_field ''csv_symbols'' (SStr []) ''restart_required'' True),
   (''default_account_id'', string_field ''account_id'' (SStr []) ''restart_required'' False),
   (''max_concurrent_execution_jobs'', integer_field ''jobs'' (SInt 1) 1 100 ''hot_reload'' True),
   (''intent_ttl_seconds'', integer_field ''seconds'' (SInt 300) 1 86400 ''hot_reload'' True),
   (''idempotency_retention_days'', integer_field ''days'' (SInt 30) 1 365 ''hot_reload'' False),
   (''default_command_timeout_seconds'', integer_field ''seconds'' (SInt 30) 1 3600 ''hot_reload'' True)]"

definition entry_fields :: "(string \<times> setting_field) list" where
  "entry_fields = [
   (''default_order_type'', enum_field ''order_type'' (SStr ''limit'') [''market'', ''limit'', ''zone''] ''hot_reload'' True),
   (''time_in_force'', enum_field ''tif'' (SStr ''GTC'') [''GTC'', ''IOC'', ''FOK'', ''GTD''] ''hot_reload'' True),
   (''post_only'', boolean_field ''flag'' (SBool False) ''hot_reload'' True),
   (''max_slippage_bps'', number_field ''bps'' (SInt 25) 0 1000 ''hot_reload'' True),
   (''limit_offset_bps'', number_field ''bps'' (SInt 5) 0 1000 ''hot_reload'' True),
   (''unfilled_timeout_seconds'', integer_field ''seconds'' (SInt 60) 1 86400 ''hot_reload'' True),
   (''reprice_interval_seconds'', integer_field ''seconds'' (SInt 10) 1 3600 ''hot_reload'' True),
   (''max_reprices'', integer_field ''count'' (SInt 3) 0 100 ''hot_reload'' True),
   (''max_submit_retries'', integer_field ''count'' (SInt 3) 0 100 ''hot_reload'' True),
   (''submit_retry_backoff_seconds'', number_field ''seconds'' (SInt 1) 0 3600 ''hot_reload'' True),
   (''partial_fill_policy'', enum_field ''policy'' (SStr ''cancel_remainder'') [''keep_remainder'', ''cancel_remainder'', ''convert_remainder_to_market'', ''abort_and_reduce_filled''] ''hot_reload'' True),
   (''minimum_fill_ratio'', number_field ''ratio'' (SFloat (19 / 20)) 0 1 ''hot_reload'' True),
   (''partial_fill_timeout_seconds'', integer_field ''seconds'' (SInt 30) 1 86400 ''hot_reload'' True),
   (''market_conversion_max_slippage_bps'', number_field ''bps'' (SInt 50) 0 2000 ''hot_reload'' True)]"

definition protection_fields :: "(string \<times> setting_field) list" where
  "protection_fields = [
   (''require_stop'', boolean_field ''flag'' (SBool True) ''hot_reload'' True),
   (''stop_order_type'', enum_field ''order_type'' (SStr ''stop_market'') [''stop_market'', ''stop_limit''] ''hot_reload'' True),
   (''stop_trigger_basis'', enum_field ''price_basis'' (SStr ''mark'') [''mark'', ''last''] ''hot_reload'' True),
   (''protection_install_timeout_seconds'', integer_field ''seconds'' (SInt 15) 1 3600 ''hot_reload'' True),
   (''take_profit_ladder'', string_field ''json'' (SStr []) ''hot_reload'' True),
   (''breakeven_enabled'', boolean_field ''flag'' (SBool False) ''hot_reload'' True),
   (''breakeven_trigger_r'', number_field ''r_multiple'' (SInt 1) 0 100 ''hot_reload'' True),
   (''breakeven_offset_bps'', number_field ''bps'' (SInt 0) (- 1000) 1000 ''hot_reload'' True),
   (''trailing_stop_enabled'', boolean_field ''flag'' (SBool False) ''hot_reload'' True),
   (''trailing_activation_r'', number_field ''r_multiple'' (SFloat (3 / 2)) 0 100 ''hot_reload'' True),
   (''trailing_callback_rate'', number_field ''percent'' (SFloat (1 / 2)) 0 100 ''hot_reload'' True),
   (''trailing_min_step_bps'', number_field ''bps'' (SInt 5) 0 10000 ''hot_reload'' True),
   (''trailing_update_rate_limit_seconds'', integer_field ''seconds'' (SInt 5) 1 3600 ''hot_reload'' True),
   (''partial_close_default_fraction'', number_field ''ratio'' (SFloat (1 / 4)) 0 1 ''hot_reload'' True),
   (''replace_protection_behavior'', enum_field ''policy'' (SStr ''cancel_replace'') [''cancel_replace'', ''amend_in_place''] ''hot_reload'' True),
   (''protection_repair_policy'', enum_field ''policy'' (SStr ''reducing'') [''halt'', ''reducing'', ''auto_repair'', ''alert_only''] ''hot_reload'' True)]"

definition money_fields :: "(string \<times> setting_field) list" where
  "money_fields = [
   (''sizing_mode'', enum_field ''mode'' (SStr ''fixed_risk'') [''fixed_risk'', ''fixed_notional'', ''equity_fraction''] ''hot_reload'' True),
   (''fixed_notional'', number_field ''quote_currency'' (SInt 0) 0 1000000000 ''hot_reload'' True),
   (''equity_fraction'', number_field ''ratio'' (SInt 0) 0 1 ''hot_reload'' True),
   (''risk_per_trade_pct'', number_field ''percent'' (SInt 0) 0 10 ''hot_reload'' True),
   (''max_notional_per_order'', number_field ''quote_currency'' (SInt 0) 0 1000000000 ''hot_reload'' True),
   (''max_leverage'', number_field ''multiple'' (SInt 1) 1 125 ''hot_reload'' True),
   (''max_open_positions'', integer_field ''count'' (SInt 0) 0 1000 ''hot_reload'' True),
   (''max_instrument_exposure'', number_field ''quote_currency'' (SInt 0) 0 1000000000 ''hot_reload'' True),
   (''max_correlated_exposure'', number_field ''quote_currency'' (SInt 0) 0 1000000000 ''hot_reload'' True),
   (''max_total_risk_pct'', number_field ''percent'' (SInt 0) 0 100 ''hot_reload'' True),
   (''minimum_free_margin_pct'', number_field ''percent'' (SInt 100) 0 100 ''hot_reload'' True),
   (''reserve_balance_pct'', number_field ''percent'' (SInt 100) 0 100 ''hot_reload'' True),
   (''daily_loss_limit_pct'', number_field ''percent'' (SInt 0) 0 100 ''hot_reload'' True),
   (''max_drawdown_pct'', number_field ''percent'' (SInt 0) 0 100 ''hot_reload'' True),
   (''loss_cooldown_minutes'', integer_field ''minutes'' (SInt 1440) 0 10080 ''hot_reload'' True),
   (''risk_reservation_ttl_seconds'', integer_field ''seconds'' (SInt 300) 1 86400 ''hot_reload'' True)]"

definition price_monitor_fields :: "(string \<times> setting_field) list" where
  "price_monitor_fields = [
   (''market_data_stale_seconds'', integer_field ''seconds'' (SInt 10) 1 3600 ''hot_reload'' True),
   (''account_data_stale_seconds'', integer_field ''seconds'' (SInt 15) 1 3600 ''hot_reload'' True),
   (''execution_event_stale_seconds'', integer_field ''seconds'' (SInt 30) 1 3600 ''hot_reload'' True),
   (''projection_lag_threshold_ms'', integer_field ''milliseconds'' (SInt 5000) 1 600000 ''hot_reload'' True),
   (''reconciliation_stale_seconds'', integer_field ''seconds'' (SInt 300) 1 86400 ''hot_reload'' True),
   (''price_deviation_bps'', number_field ''bps'' (SInt 200) 0 10000 ''hot_reload'' True),
   (''evaluation_interval_seconds'', integer_field ''seconds'' (SInt 5) 1 3600 ''hot_reload'' True),
   (''protection_watchdog_interval_seconds'', integer_field ''seconds'' (SInt 10) 1 3600 ''hot_reload'' True),
   (''disconnect_action'', enum_field ''action'' (SStr ''halt'') [''halt'', ''reducing'', ''hold''] ''hot_reload'' True)]"

definition reconciliation_fields :: "(string \<times> setting_field) list" where
  "reconciliation_fields = [
   (''startup_reconciliation_required'', boolean_field ''flag'' (SBool True) ''restart_required'' True),
   (''reconciliation_interval_seconds'', integer_field ''seconds'' (SInt 300) 1 86400 ''hot_reload'' True),
   (''orphan_order_policy'', enum_field ''policy'' (SStr ''halt'') [''halt'', ''cancel'', ''adopt'', ''ignore''] ''hot_reload'' True),
   (''external_position_policy'', enum_field ''policy'' (SStr ''halt'') [''halt'', ''reduce'', ''adopt'', ''ignore''] ''hot_reload'' True),
   (''drift_policy'', enum_field ''policy'' (SStr ''halt'') [''halt'', ''reducing'', ''auto_repair'', ''alert_only''] ''hot_reload'' True),
   (''auto_adopt_enabled'', boolean_field ''flag'' (SBool False) ''hot_reload'' True),
   (''retry_limit'', integer_field ''count'' (SInt 3) 0 100 ''hot_reload'' True),
   (''retry_backoff_seconds'', number_field ''seconds'' (SInt 1) 0 3600 ''hot_reload'' True),
   (''restart_recovery_mode'', enum_field ''mode'' (SStr ''halt_until_reconciled'') [''halt_until_reconciled'', ''resume_after_reconcile''] ''restart_required'' True)]"

definition emergency_fields :: "(string \<times> setting_field) list" where
  "emergency_fields = [
   (''cancel_batch_size'', integer_field ''orders'' (SInt 10) 1 1000 ''hot_reload'' True),
   (''close_batch_size'', integer_field ''positions'' (SInt 5) 1 1000 ''hot_reload'' True),
   (''inter_order_delay_ms'', integer_field ''milliseconds'' (SInt 250) 0 60000 ''hot_reload'' True),
   (''command_max_retries'', integer_field ''count'' (SInt 3) 0 100 ''hot_reload'' True),
   (''verify_timeout_seconds'', integer_field ''seconds'' (SInt 30) 1 86400 ''hot_reload'' True),
   (''close_all_final_state'', enum_field ''state'' (SStr ''flat'') [''flat'', ''cancelled_and_flat''] ''hot_reload'' True),
   (''allow_close_while_halted'', boolean_field ''flag'' (SBool True) ''hot_reload'' True),
   (''command_retention_days'', integer_field ''days'' (SInt 30) 1 3650 ''restart_required'' False)]"

definition notifications_fields :: "(string \<times> setting_field) list" where
  "notifications_fields = [
   (''order_accepted_enabled'', boolean_field ''flag'' (SBool True) ''hot_reload'' True),
   (''order_rejected_enabled'', boolean_field ''flag'' (SBool True) ''hot_reload'' True),
   (''order_filled_enabled'', boolean_field ''flag'' (SBool True) ''hot_reload'' True),
   (''partial_fill_enabled'', boolean_field ''flag'' (SBool True) ''hot_reload'' True),
   (''protection_missing_enabled'', boolean_field ''flag'' (SBool True) ''hot_reload'' True),
   (''stale_market_enabled'', boolean_field ''flag'' (SBool True) ''hot_reload'' True),
   (''stale_account_enabled'', boolean_field ''flag'' (SBool True) ''hot_reload'' True),
   (''reconciliation_drift_enabled'', boolean_field ''flag'' (SBool True) ''hot_reload'' True),
   (''daily_loss_enabled'', boolean_field ''flag'' (SBool True) ''hot_reload'' True),
   (''drawdown_enabled'', boolean_field ''flag'' (SBool True) ''hot_reload'' True),
   (''emergency_command_results_enabled'', boolean_field ''flag'' (SBool True) ''hot_reload'' True),
   (''notification_channels'', string_field ''csv_channels'' (SStr ''dashboard'') ''hot_reload'' True),
   (''severity_routing'', string_field ''routing_policy'' (SStr ''critical:operator,high:operator,medium:dashboard'') ''hot_reload'' True)]"

definition advanced_fields :: "(string \<times> setting_field) list" where
  "advanced_fields = [
   (''outbox_batch_size'', integer_field ''events'' (SInt 100) 1 10000 ''hot_reload'' False),
   (''spool_max_items'', integer_field ''items'' (SInt 10000) 0 1000000 ''restart_required'' False),
   (''spool_max_age_seconds'', integer_field ''seconds'' (SInt 3600) 1 2592000 ''hot_reload'' False),
   (''reducer_replay_window_hours'', integer_field ''hours'' (SInt 24) 1 8760 ''restart_required'' False),
   (''event_retention_days'', integer_field ''days'' (SInt 90) 1 3650 ''restart_required'' False),
   (''rate_limit_per_minute'', integer_field ''requests_per_minute'' (SInt 60) 1 100000 ''hot_reload'' True),
   (''diagnostics_bundle_enabled'', boolean_field ''flag'' (SBool True) ''hot_reload'' False),
   (''import_export_enabled'', boolean_field ''flag'' (SBool True) ''hot_reload'' False)]"

definition settings_descriptor :: descriptor where
  "settings_descriptor = \<lparr>de_schema_version = ''1.0'', de_kind = ''settings-descriptor'',
     de_categories = [(''general'', general_fields), (''entry'', entry_fields), (''protection'', protection_fields),
       (''money'', money_fields), (''price_monitor'', price_monitor_fields), (''reconciliation'', reconciliation_fields),
       (''emergency'', emergency_fields), (''notifications'', notifications_fields), (''advanced'', advanced_fields)]\<rparr>"

section \<open>Validation\<close>

definition expected_categories :: "string list" where
  "expected_categories = [''general'', ''entry'', ''protection'', ''money'', ''price_monitor'', ''reconciliation'',
     ''emergency'', ''notifications'', ''advanced'']"

definition allowed_types :: "string list" where
  "allowed_types = [''number'', ''integer'', ''boolean'', ''string'', ''enum'']"

definition allowed_apply_modes :: "string list" where
  "allowed_apply_modes = [''hot_reload'', ''restart_required'']"

definition setting_path :: "string \<Rightarrow> string \<Rightarrow> string" where
  "setting_path category field = category @ ''.'' @ field"

text \<open>An int or a float that is not a bool, as a number.\<close>

fun setting_number :: "setting \<Rightarrow> rat option" where
  "setting_number (SInt i) = Some (of_int i)"
| "setting_number (SFloat x) = Some x"
| "setting_number _ = None"

fun is_str :: "setting \<Rightarrow> bool" where
  "is_str (SStr _) = True"
| "is_str (SDec _) = True"
| "is_str _ = False"

text \<open>The checks of the value's type, before the bounds.\<close>

definition type_errors :: "string \<Rightarrow> setting \<Rightarrow> setting_field \<Rightarrow> setting_error list" where
  "type_errors path v f =
     (if sf_type f = ''boolean'' then (case v of SBool _ \<Rightarrow> [] | _ \<Rightarrow> [(path, [PText ''value must be boolean''])])
      else if sf_type f = ''integer'' then (case v of SInt _ \<Rightarrow> [] | _ \<Rightarrow> [(path, [PText ''value must be integer''])])
      else if sf_type f = ''number'' then (if setting_number v \<noteq> None then [] else [(path, [PText ''value must be number''])])
      else if sf_type f = ''string'' then (if is_str v then [] else [(path, [PText ''value must be string''])])
      else if sf_type f = ''enum'' then
        (let enum_values = (case sf_enum f of Some vs \<Rightarrow> vs | None \<Rightarrow> [])
         in if (case v of SStr s \<Rightarrow> s \<in> set enum_values | _ \<Rightarrow> False) then []
            else [(path, PText ''value must be one of '' # map PText enum_values)])
      else [])"

definition bound_errors :: "string \<Rightarrow> setting \<Rightarrow> setting_field \<Rightarrow> setting_error list" where
  "bound_errors path v f =
     (case setting_number v of
        None \<Rightarrow> []
      | Some x \<Rightarrow>
          (case sf_min f of Some lo \<Rightarrow> if x < lo then [(path, [PText ''value must be >= '', PDec lo])] else [] | None \<Rightarrow> [])
          @ (case sf_max f of Some hi \<Rightarrow> if x > hi then [(path, [PText ''value must be <= '', PDec hi])] else [] | None \<Rightarrow> []))"

definition validate_value :: "string \<Rightarrow> string \<Rightarrow> setting \<Rightarrow> setting_field \<Rightarrow> setting_error list" where
  "validate_value category field v f =
     (let path = setting_path category field; errors = type_errors path v f
      in if errors \<noteq> [] then errors else bound_errors path v f)"

text \<open>The fields in the order of the expected categories.\<close>

definition iter_field_descriptors :: "descriptor \<Rightarrow> (string \<times> string \<times> setting_field) list" where
  "iter_field_descriptors d =
     concat (map (\<lambda>c. map (\<lambda>(n, f). (c, n, f)) (case map_of (de_categories d) c of Some fs \<Rightarrow> fs | None \<Rightarrow> []))
       expected_categories)"

definition field_descriptor_errors :: "string \<times> string \<times> setting_field \<Rightarrow> setting_error list" where
  "field_descriptor_errors e =
     (case e of (c, n, f) \<Rightarrow>
        let path = setting_path c n
        in (if sf_type f \<notin> set allowed_types then [(path, PText ''type must be one of '' # map PText (sort allowed_types))] else [])
           @ (if sf_unit f = None then [(path, [PText ''unit required''])] else [])
           @ (case sf_default f of
                None \<Rightarrow> [(path, [PText ''default required''])]
              | Some dflt \<Rightarrow>
                  (if sf_apply_mode f \<notin> set (map Some allowed_apply_modes) then [(path, PText ''apply_mode must be one of '' # map PText (sort allowed_apply_modes))] else [])
                  @ (if sf_scope_overridable f = None then [(path, [PText ''scope_overridable must be boolean''])] else [])
                  @ (if sf_secret f then [(path, [PText ''business settings must not be secret fields''])] else [])
                  @ validate_value c n dflt f
                  @ (if sf_type f = ''enum'' then
                       (case sf_enum f of
                          None \<Rightarrow> [(path, [PText ''enum fields require a non-empty enum array''])]
                        | Some [] \<Rightarrow> [(path, [PText ''enum fields require a non-empty enum array''])]
                        | Some vs \<Rightarrow> if (case dflt of SStr s \<Rightarrow> s \<in> set vs | _ \<Rightarrow> False) then []
                                     else [(path, [PText ''enum default must be listed in enum''])])
                     else [])))"

text \<open>The errors of a descriptor; the code raises them when there are any.\<close>

definition validate_descriptor :: "descriptor \<Rightarrow> setting_error list" where
  "validate_descriptor d =
     (if de_schema_version d \<noteq> ''1.0'' then [(''$'', [PText ''schema_version must be 1.0''])] else [])
     @ (if de_kind d \<noteq> ''settings-descriptor'' then [(''$'', [PText ''kind must be settings-descriptor''])] else [])
     @ (if set (map fst (de_categories d)) \<noteq> set expected_categories
        then [(''categories'', PText ''categories must be exactly '' # map PText (sort expected_categories))] else [])
     @ concat (map field_descriptor_errors (iter_field_descriptors d))"

definition load_descriptor :: "descriptor \<Rightarrow> setting_error list + descriptor" where
  "load_descriptor d = (if validate_descriptor d = [] then Inr d else Inl (validate_descriptor d))"

definition field_descriptor :: "descriptor \<Rightarrow> string \<Rightarrow> string \<Rightarrow> setting_field result" where
  "field_descriptor d category field =
     (case map_of (de_categories d) category of
        None \<Rightarrow> Inl KeyError
      | Some fs \<Rightarrow> (case map_of fs field of None \<Rightarrow> Inl KeyError | Some f \<Rightarrow> Inr f))"

text \<open>The defaults as the map of the fields; a loaded descriptor has a default for every field.\<close>

definition default_settings :: "descriptor \<Rightarrow> string \<times> string \<Rightarrow> setting option" where
  "default_settings d =
     (\<lambda>(c, n). if c \<in> set expected_categories then
        (case field_descriptor d c n of Inr f \<Rightarrow> sf_default f | Inl _ \<Rightarrow> None) else None)"

record validation =
  vd_valid :: bool
  vd_errors :: "setting_error list"
  vd_normalized :: settings

text \<open>One field of the settings given, or of the descriptor when the settings must be complete.\<close>

definition visit_field :: "string \<Rightarrow> bool \<Rightarrow> (string \<times> setting_field) list \<Rightarrow> fields \<Rightarrow> string \<Rightarrow> setting_error list \<times> fields" where
  "visit_field category partial known raw name =
     (case map_of known name of
        None \<Rightarrow> ([(setting_path category name, [PText ''unknown settings field''])], [])
      | Some f \<Rightarrow>
          let v = (case map_of raw name of Some v \<Rightarrow> v | None \<Rightarrow> SNull)
          in if v = SNull \<and> partial then ([], [(name, SNull)])
             else let errors = validate_value category name v f
                  in (errors, if errors = [] then [(name, v)] else []))"

definition visit_category :: "descriptor \<Rightarrow> bool \<Rightarrow> settings \<Rightarrow> string \<Rightarrow> setting_error list \<times> settings" where
  "visit_category d partial s category =
     (case map_of (de_categories d) category of
        None \<Rightarrow> ([(category, [PText ''unknown settings category''])], [])
      | Some known \<Rightarrow>
          (case (case map_of s category of Some c \<Rightarrow> c | None \<Rightarrow> Fields []) of
             NoFields \<Rightarrow> if partial then ([], []) else ([(category, [PText ''category settings must be an object''])], [])
           | NotObject \<Rightarrow> ([(category, [PText ''category settings must be an object''])], [])
           | Fields raw \<Rightarrow>
               let visits = map (visit_field category partial known raw) (if partial then map fst raw else map fst known);
                   normalized = concat (map snd visits)
               in (concat (map fst visits), if normalized = [] then [] else [(category, Fields normalized)])))"

definition validate_settings :: "descriptor \<Rightarrow> bool \<Rightarrow> settings \<Rightarrow> validation" where
  "validate_settings d partial s =
     (let visits = map (visit_category d partial s) (if partial then map fst s else map fst (de_categories d));
          errors = concat (map fst visits)
      in \<lparr>vd_valid = (errors = []), vd_errors = errors, vd_normalized = concat (map snd visits)\<rparr>)"

definition validate_settings_or_raise :: "descriptor \<Rightarrow> bool \<Rightarrow> settings \<Rightarrow> setting_error list + settings" where
  "validate_settings_or_raise d partial s =
     (let r = validate_settings d partial s in if vd_valid r then Inr (vd_normalized r) else Inl (vd_errors r))"

definition flatten_settings :: "settings \<Rightarrow> fields" where
  "flatten_settings s =
     concat (map (\<lambda>(c, cat). case cat of Fields fs \<Rightarrow> map (\<lambda>(n, v). (setting_path c n, v)) fs | _ \<Rightarrow> []) s)"

text \<open>The fields that a test lets through; a category without any is left out.\<close>

definition keep_fields :: "(string \<Rightarrow> string \<Rightarrow> bool) \<Rightarrow> settings \<Rightarrow> settings" where
  "keep_fields p s =
     concat (map (\<lambda>(c, cat). case cat of
        Fields fs \<Rightarrow> (case filter (\<lambda>(n, v). p c n) fs of [] \<Rightarrow> [] | kept \<Rightarrow> [(c, Fields kept)])
      | _ \<Rightarrow> []) s)"

definition without_secret_fields :: "descriptor \<Rightarrow> settings \<Rightarrow> settings" where
  "without_secret_fields d = keep_fields (\<lambda>c n. case field_descriptor d c n of Inr f \<Rightarrow> \<not> sf_secret f | Inl _ \<Rightarrow> False)"

section \<open>Permissions\<close>

definition settings_role_permissions :: "(string \<times> string list) list" where
  "settings_role_permissions =
     [(''viewer'', [''read'', ''validate'', ''export'']),
      (''operator'', [''read'', ''validate'', ''export'', ''patch'']),
      (''risk_admin'', [''read'', ''validate'', ''export'', ''patch'', ''rollback'', ''import''])]"

definition risk_increase_fields :: "(string \<times> string) list" where
  "risk_increase_fields = map (Pair ''money'')
     [''fixed_notional'', ''equity_fraction'', ''risk_per_trade_pct'', ''max_notional_per_order'', ''max_leverage'',
      ''max_open_positions'', ''max_instrument_exposure'', ''max_correlated_exposure'', ''max_total_risk_pct'',
      ''daily_loss_limit_pct'', ''max_drawdown_pct'']"

definition risk_decrease_fields :: "(string \<times> string) list" where
  "risk_decrease_fields = map (Pair ''money'') [''minimum_free_margin_pct'', ''reserve_balance_pct'']"

definition disconnect_action_rank :: "setting option \<Rightarrow> int" where
  "disconnect_action_rank v =
     (case v of Some (SStr s) \<Rightarrow> if s = ''reducing'' then 1 else if s = ''hold'' then 2 else 0 | _ \<Rightarrow> 0)"

definition has_settings_permission :: "string \<Rightarrow> string \<Rightarrow> bool" where
  "has_settings_permission role operation =
     (case map_of settings_role_permissions role of Some ops \<Rightarrow> operation \<in> set ops | None \<Rightarrow> False)"

text \<open>
  Writing the values of a layer over a map of the known fields: a null and an unknown field are
  skipped. \<open>_with_defaults\<close> writes the value itself, \<open>_merge_layer\<close> the value with its scope.
\<close>

fun overlay_fields :: "(setting \<Rightarrow> 'a) \<Rightarrow> string \<Rightarrow> fields \<Rightarrow> (string \<times> string \<Rightarrow> 'a option) \<Rightarrow> string \<times> string \<Rightarrow> 'a option" where
  "overlay_fields w c [] m = m"
| "overlay_fields w c ((n, v) # rest) m =
     overlay_fields w c rest (if v = SNull \<or> m (c, n) = None then m else m((c, n) \<mapsto> w v))"

fun overlay :: "(setting \<Rightarrow> 'a) \<Rightarrow> settings \<Rightarrow> (string \<times> string \<Rightarrow> 'a option) \<Rightarrow> string \<times> string \<Rightarrow> 'a option" where
  "overlay w [] m = m"
| "overlay w ((c, Fields fs) # rest) m = overlay w rest (overlay_fields w c fs m)"
| "overlay w ((c, NoFields) # rest) m = overlay w rest m"
| "overlay w ((c, NotObject) # rest) m = overlay w rest m"

definition with_defaults :: "settings \<Rightarrow> string \<times> string \<Rightarrow> setting option" where
  "with_defaults s = overlay (\<lambda>v. v) s (default_settings settings_descriptor)"

text \<open>\<open>float(value)\<close>, and 0 for what cannot be read as a number.\<close>

fun setting_float :: "setting option \<Rightarrow> rat" where
  "setting_float (Some (SInt i)) = flt (of_int i)"
| "setting_float (Some (SFloat x)) = x"
| "setting_float (Some (SDec x)) = flt x"
| "setting_float (Some (SBool b)) = (if b then 1 else 0)"
| "setting_float _ = 0"

definition requires_live_risk_confirmation :: "settings \<Rightarrow> settings \<Rightarrow> bool" where
  "requires_live_risk_confirmation before_settings after_settings =
     (let before = with_defaults before_settings; after = with_defaults after_settings
      in (after (''general'', ''execution_mode'') = Some (SStr ''live'') \<or> before (''general'', ''execution_mode'') = Some (SStr ''live''))
         \<and> (list_ex (\<lambda>p. setting_float (after p) > setting_float (before p)) risk_increase_fields
            \<or> list_ex (\<lambda>p. setting_float (after p) < setting_float (before p)) risk_decrease_fields
            \<or> before (''protection'', ''require_stop'') = Some (SBool True) \<and> after (''protection'', ''require_stop'') = Some (SBool False)
            \<or> disconnect_action_rank (after (''price_monitor'', ''disconnect_action''))
                > disconnect_action_rank (before (''price_monitor'', ''disconnect_action''))))"

record settings_actor =
  sa_actor_id :: "string option"
  sa_role :: "string option"

definition text_or_blank :: "string option \<Rightarrow> string" where
  "text_or_blank x = (case x of Some s \<Rightarrow> strip s | None \<Rightarrow> [])"

definition assert_can_read_settings :: "settings_actor \<Rightarrow> string \<Rightarrow> (string \<times> string) result" where
  "assert_can_read_settings actor operation =
     (let actor_id = text_or_blank (sa_actor_id actor); role = text_or_blank (sa_role actor)
      in if actor_id = [] \<or> role = [] then Inl PermissionError
         else if \<not> has_settings_permission role operation then Inl PermissionError
         else Inr (actor_id, role))"

definition assert_can_write_settings :: "settings_actor \<Rightarrow> string \<Rightarrow> settings \<Rightarrow> settings \<Rightarrow> bool option \<Rightarrow> string option
    \<Rightarrow> (string \<times> string) result" where
  "assert_can_write_settings actor operation before_settings after_settings confirm operator_signoff =
     (let actor_id = text_or_blank (sa_actor_id actor); role = text_or_blank (sa_role actor)
      in if actor_id = [] \<or> role = [] then Inl PermissionError
         else if \<not> has_settings_permission role operation then Inl PermissionError
         else if requires_live_risk_confirmation before_settings after_settings
                 \<and> (confirm \<noteq> Some True \<or> text_or_blank operator_signoff = []) then Inl PermissionError
         else Inr (actor_id, role))"

section \<open>Resolution of the effective settings\<close>

definition canonical_scope_key :: "string \<Rightarrow> string option \<Rightarrow> string result" where
  "canonical_scope_key scope scope_key =
     (let scope_value = lower (strip scope); key = (case scope_key of Some k \<Rightarrow> k | None \<Rightarrow> [])
      in if scope_value = ''global'' then Inr ''global''
         else if scope_value = ''account'' then canonical_account_id (Some key)
         else if scope_value = ''instrument'' then Inr (canonical_instrument_key key)
         else Inl ValueError)"

definition scope_chain :: "string option \<Rightarrow> string option \<Rightarrow> (string \<times> string) list result" where
  "scope_chain account_id instrument_id =
     (let chain = [(''global'', ''global'')]
      in bind_result (case account_id of
             None \<Rightarrow> Inr chain
           | Some a \<Rightarrow> bind_result (canonical_scope_key ''account'' (Some a)) (\<lambda>k. Inr (chain @ [(''account'', k)]))) (\<lambda>chain.
         case instrument_id of
             None \<Rightarrow> Inr chain
           | Some i \<Rightarrow> bind_result (canonical_scope_key ''instrument'' (Some i)) (\<lambda>k. Inr (chain @ [(''instrument'', k)]))))"

definition target_scope :: "string option \<Rightarrow> string option \<Rightarrow> string" where
  "target_scope account_id instrument_id =
     (if instrument_id \<noteq> None then ''instrument'' else if account_id \<noteq> None then ''account'' else ''global'')"

definition merge_layer :: "string \<Rightarrow> settings \<Rightarrow> (string \<times> string \<Rightarrow> (setting \<times> string) option)
    \<Rightarrow> string \<times> string \<Rightarrow> (setting \<times> string) option" where
  "merge_layer scope s = overlay (\<lambda>v. (v, scope)) s"

record resolved_setting =
  rv_value :: setting
  rv_source_scope :: string
  rv_inherited :: bool
  rv_valid :: bool
  rv_errors :: "setting_error list"
  rv_apply_mode :: "string option"

text \<open>The layers from the least to the most specific, over the defaults of the system.\<close>

definition merged_layers :: "descriptor \<Rightarrow> (string \<times> string \<Rightarrow> settings option) \<Rightarrow> (string \<times> string) list
    \<Rightarrow> string \<times> string \<Rightarrow> (setting \<times> string) option" where
  "merged_layers d layers chain =
     foldl (\<lambda>m (scope, key). merge_layer scope (case layers (scope, key) of Some s \<Rightarrow> s | None \<Rightarrow> []) m)
       (\<lambda>p. map_option (\<lambda>v. (v, ''system_default'')) (default_settings d p)) chain"

definition resolved_field :: "descriptor \<Rightarrow> string \<Rightarrow> (string \<times> string \<Rightarrow> (setting \<times> string) option) \<Rightarrow> string
    \<Rightarrow> string \<times> setting_field \<Rightarrow> (string \<times> resolved_setting) result" where
  "resolved_field d target merged category e =
     (case e of (name, f) \<Rightarrow>
        (case merged (category, name) of
           None \<Rightarrow> Inl KeyError
         | Some (v, source_scope) \<Rightarrow>
             (let validation = validate_settings d True [(category, Fields [(name, v)])]
              in Inr (name, \<lparr>rv_value = v, rv_source_scope = source_scope, rv_inherited = (source_scope \<noteq> target),
                   rv_valid = vd_valid validation, rv_errors = vd_errors validation, rv_apply_mode = sf_apply_mode f\<rparr>))))"

text \<open>All results of a loop, or the first exception.\<close>

fun all_results :: "'a result list \<Rightarrow> 'a list result" where
  "all_results [] = Inr []"
| "all_results (r # rs) = bind_result r (\<lambda>x. bind_result (all_results rs) (\<lambda>xs. Inr (x # xs)))"

definition resolve_effective_settings :: "descriptor \<Rightarrow> (string \<times> string \<Rightarrow> settings option) \<Rightarrow> string option \<Rightarrow> string option
    \<Rightarrow> (string \<times> (string \<times> resolved_setting) list) list result" where
  "resolve_effective_settings d layers account_id instrument_id =
     bind_result (scope_chain account_id instrument_id) (\<lambda>chain.
       let merged = merged_layers d layers chain; target = target_scope account_id instrument_id
       in all_results (map (\<lambda>(c, fs). bind_result (all_results (map (resolved_field d target merged c) fs)) (\<lambda>out. Inr (c, out)))
            (de_categories d)))"

definition extract_values :: "(string \<times> (string \<times> resolved_setting) list) list \<Rightarrow> (string \<times> fields) list" where
  "extract_values resolved = map (\<lambda>(c, fs). (c, map (\<lambda>(n, r). (n, rv_value r)) fs)) resolved"

section \<open>The descriptor\<close>

lemma descriptor_loads: "load_descriptor settings_descriptor = Inr settings_descriptor"
  by code_simp

lemma descriptor_categories: "set (map fst (de_categories settings_descriptor)) = set expected_categories"
  by code_simp

lemma descriptor_defaults:
  assumes "validate_descriptor d = []" "field_descriptor d c n = Inr f"
  shows "c \<in> set expected_categories \<and> (\<exists>v. sf_default f = Some v \<and> validate_value c n v f = [])"
proof -
  obtain fs where fs: "map_of (de_categories d) c = Some fs" "map_of fs n = Some f"
    using assms(2) by (auto simp: field_descriptor_def split: option.splits)
  then have c: "c \<in> set expected_categories"
    using assms(1) by (force simp: validate_descriptor_def split: if_splits dest: map_of_SomeD)
  then have "(c, n, f) \<in> set (iter_field_descriptors d)"
    using fs map_of_SomeD[OF fs(2)] by (force simp: iter_field_descriptors_def)
  then have "field_descriptor_errors (c, n, f) = []"
    using assms(1) by (force simp: validate_descriptor_def split: if_splits)
  with c show ?thesis by (auto simp: field_descriptor_errors_def Let_def split: option.splits if_splits)
qed

section \<open>Layers over layers\<close>

text \<open>Distinct keys, as in every dict.\<close>

definition wf_settings :: "settings \<Rightarrow> bool" where
  "wf_settings s \<longleftrightarrow> distinct (map fst s) \<and> (\<forall>(c, cat) \<in> set s. case cat of Fields fs \<Rightarrow> distinct (map fst fs) | _ \<Rightarrow> True)"

definition setting_at :: "settings \<Rightarrow> string \<times> string \<Rightarrow> setting option" where
  "setting_at s p = (case map_of s (fst p) of Some (Fields fs) \<Rightarrow> map_of fs (snd p) | _ \<Rightarrow> None)"

text \<open>The value a layer gives to a field: null is no value.\<close>

definition layer_value :: "settings \<Rightarrow> string \<times> string \<Rightarrow> setting option" where
  "layer_value s p = (case setting_at s p of Some v \<Rightarrow> if v = SNull then None else Some v | None \<Rightarrow> None)"

lemma overlay_fields_other: "c' \<noteq> c \<Longrightarrow> overlay_fields w c fs m (c', n) = m (c', n)"
  by (induction fs arbitrary: m) (auto split: if_splits)

lemma overlay_fields_value:
  assumes "distinct (map fst fs)"
  shows "overlay_fields w c fs m (c, n) =
    (case m (c, n) of None \<Rightarrow> None | Some x \<Rightarrow> Some (case map_of fs n of Some v \<Rightarrow> if v = SNull then x else w v | None \<Rightarrow> x))"
  using assms
proof (induction fs arbitrary: m)
  case Nil
  then show ?case by (simp split: option.splits)
next
  case (Cons e fs)
  obtain k v where [simp]: "e = (k, v)" by (cases e)
  have "map_of fs k = None" using Cons.prems by (simp add: map_of_eq_None_iff)
  then show ?case using Cons by (auto split: option.splits)
qed

lemma overlay_value:
  assumes "wf_settings s"
  shows "overlay w s m p = (case m p of None \<Rightarrow> None | Some x \<Rightarrow> Some (case layer_value s p of Some v \<Rightarrow> w v | None \<Rightarrow> x))"
proof -
  obtain c n where pc: "p = (c, n)" by (cases p)
  show ?thesis using assms unfolding pc
  proof (induction s arbitrary: m)
    case Nil
    then show ?case by (simp add: layer_value_def setting_at_def split: option.splits)
  next
    case (Cons e s)
    obtain c' cat where e: "e = (c', cat)" by (cases e)
    have ws: "wf_settings s" and new: "map_of s c' = None"
      using Cons.prems by (auto simp: wf_settings_def e map_of_eq_None_iff)
    note IH = Cons.IH[OF ws]
    show ?case
    proof (cases "c' = c")
      case False
      then have a: "layer_value (e # s) (c, n) = layer_value s (c, n)" by (simp add: layer_value_def setting_at_def e)
      have b: "overlay w (e # s) m (c, n) = (case m (c, n) of None \<Rightarrow> None | Some x \<Rightarrow> Some (case layer_value s (c, n) of Some v \<Rightarrow> w v | None \<Rightarrow> x))"
        using False by (cases cat) (simp_all add: e IH overlay_fields_other)
      show ?thesis unfolding a b ..
    next
      case True
      with new have none: "layer_value s (c, n) = None" by (simp add: layer_value_def setting_at_def)
      show ?thesis
      proof (cases cat)
        case (Fields fs)
        with Cons.prems have "distinct (map fst fs)" by (auto simp: wf_settings_def e)
        with Fields True none show ?thesis
          by (auto simp: e IH overlay_fields_value layer_value_def setting_at_def split: option.splits)
      qed (use True new in \<open>auto simp: e IH layer_value_def setting_at_def split: option.splits\<close>)
    qed
  qed
qed

lemma with_defaults_value:
  "wf_settings s \<Longrightarrow> with_defaults s p = (case default_settings settings_descriptor p of None \<Rightarrow> None
    | Some x \<Rightarrow> Some (case layer_value s p of Some v \<Rightarrow> v | None \<Rightarrow> x))"
  by (simp add: with_defaults_def overlay_value)

text \<open>The specification: the most specific layer with a value decides, and the defaults of the system when there is none.\<close>

definition effective_setting :: "descriptor \<Rightarrow> (string \<times> string \<Rightarrow> settings option) \<Rightarrow> (string \<times> string) list \<Rightarrow> string \<times> string
    \<Rightarrow> (setting \<times> string) option" where
  "effective_setting d layers chain p =
     (case default_settings d p of
        None \<Rightarrow> None
      | Some dflt \<Rightarrow>
          (case List.find (\<lambda>k. \<exists>s v. layers k = Some s \<and> layer_value s p = Some v) (rev chain) of
             None \<Rightarrow> Some (dflt, ''system_default'')
           | Some k \<Rightarrow> map_option (\<lambda>v. (v, fst k)) (layer_value (the (layers k)) p)))"

lemma merged_layers_value:
  assumes "\<And>k s. layers k = Some s \<Longrightarrow> wf_settings s"
  shows "merged_layers d layers chain p = effective_setting d layers chain p"
proof (induction chain rule: rev_induct)
  case Nil
  then show ?case by (simp add: merged_layers_def effective_setting_def split: option.splits)
next
  case (snoc k chain)
  obtain scope key where k: "k = (scope, key)" by (cases k)
  let ?s = "case layers k of Some s \<Rightarrow> s | None \<Rightarrow> []"
  have wf: "wf_settings ?s" using assms[of k] by (cases "layers k") (auto simp: wf_settings_def)
  have "merged_layers d layers (chain @ [k]) p = overlay (\<lambda>v. (v, scope)) ?s (merged_layers d layers chain) p"
    by (simp add: merged_layers_def merge_layer_def k)
  also have "\<dots> = (case effective_setting d layers chain p of None \<Rightarrow> None
      | Some x \<Rightarrow> Some (case layer_value ?s p of Some v \<Rightarrow> (v, scope) | None \<Rightarrow> x))"
    by (simp add: overlay_value[OF wf] snoc.IH)
  also have "\<dots> = effective_setting d layers (chain @ [k]) p"
  proof (cases "layer_value ?s p")
    case None
    then have "\<not> (\<exists>s v. layers k = Some s \<and> layer_value s p = Some v)" by auto
    then show ?thesis using None by (simp add: effective_setting_def split: option.splits)
  next
    case (Some v)
    then have s: "layers k = Some ?s" by (auto simp: layer_value_def setting_at_def split: option.splits)
    have ex: "\<exists>s v. layers k = Some s \<and> layer_value s p = Some v" using s Some by blast
    have found: "List.find (\<lambda>k. \<exists>s v. layers k = Some s \<and> layer_value s p = Some v) (rev (chain @ [k])) = Some k"
      using ex by (simp only: rev_append rev.simps append.simps List.find.simps if_True)
    have "effective_setting d layers chain p \<noteq> None" if "default_settings d p \<noteq> None"
      using that unfolding effective_setting_def
      by (auto split: option.splits dest!: find_SomeD)
    then show ?thesis
      using found s Some by (auto simp: effective_setting_def k split: option.splits)
  qed
  finally show ?case .
qed

lemma map_of_map_pairs: "map_of (map (\<lambda>e. (fst e, h e)) xs) k = map_option (\<lambda>v. h (k, v)) (map_of xs k)"
  by (induction xs) auto

lemma all_results_Inr: "(\<forall>x \<in> set xs. f x = Inr (g x)) \<Longrightarrow> all_results (map f xs) = Inr (map g xs)"
  by (induction xs) auto

definition resolution_of :: "descriptor \<Rightarrow> string \<Rightarrow> string \<Rightarrow> string \<times> setting_field \<Rightarrow> setting \<times> string \<Rightarrow> resolved_setting" where
  "resolution_of d target category e vs =
     \<lparr>rv_value = fst vs, rv_source_scope = snd vs, rv_inherited = (snd vs \<noteq> target),
      rv_valid = vd_valid (validate_settings d True [(category, Fields [(fst e, fst vs)])]),
      rv_errors = vd_errors (validate_settings d True [(category, Fields [(fst e, fst vs)])]), rv_apply_mode = sf_apply_mode (snd e)\<rparr>"

lemma resolved_field_Inr:
  "merged (category, fst e) = Some vs \<Longrightarrow> resolved_field d target merged category e = Inr (fst e, resolution_of d target category e vs)"
  by (cases e; cases vs) (simp add: resolved_field_def resolution_of_def Let_def)

lemma effective_setting_defined:
  assumes "default_settings d p \<noteq> None"
  shows "effective_setting d layers chain p \<noteq> None"
  using assms unfolding effective_setting_def by (auto split: option.splits dest!: find_SomeD)

definition all_fields_defined :: "descriptor \<Rightarrow> bool" where
  "all_fields_defined d = list_all (\<lambda>(c, fs). list_all (\<lambda>(n, f). default_settings d (c, n) \<noteq> None) fs) (de_categories d)"

lemma descriptor_fields_defined: "all_fields_defined settings_descriptor"
  by code_simp

lemma resolve_total:
  assumes "scope_chain account_id instrument_id = Inr chain" "\<And>k s. layers k = Some s \<Longrightarrow> wf_settings s" "all_fields_defined d"
  shows "resolve_effective_settings d layers account_id instrument_id =
    Inr (map (\<lambda>(c, fs). (c, map (\<lambda>e. (fst e, resolution_of d (target_scope account_id instrument_id) c e
      (the (effective_setting d layers chain (c, fst e))))) fs)) (de_categories d))"
proof -
  have merged: "merged_layers d layers chain = effective_setting d layers chain"
    by (rule ext) (rule merged_layers_value[OF assms(2)])
  let ?out = "\<lambda>c e. (fst e, resolution_of d (target_scope account_id instrument_id) c e (the (effective_setting d layers chain (c, fst e))))"
  have one: "resolved_field d (target_scope account_id instrument_id) (effective_setting d layers chain) c e = Inr (?out c e)"
    if "(c, fs) \<in> set (de_categories d)" "e \<in> set fs" for c fs e
  proof -
    have "default_settings d (c, fst e) \<noteq> None"
      using assms(3) that by (cases e) (auto simp: all_fields_defined_def list_all_iff)
    then have "effective_setting d layers chain (c, fst e) = Some (the (effective_setting d layers chain (c, fst e)))"
      using effective_setting_defined by (metis option.collapse)
    then show ?thesis by (rule resolved_field_Inr)
  qed
  have "all_results (map (\<lambda>(c, fs). bind_result (all_results (map (resolved_field d (target_scope account_id instrument_id) (effective_setting d layers chain) c) fs))
      (\<lambda>out. Inr (c, out))) (de_categories d)) = Inr (map (\<lambda>(c, fs). (c, map (?out c) fs)) (de_categories d))"
  proof (rule all_results_Inr, rule ballI)
    fix e assume e: "e \<in> set (de_categories d)"
    obtain c fs where c: "e = (c, fs)" by (cases e)
    have "all_results (map (resolved_field d (target_scope account_id instrument_id) (effective_setting d layers chain) c) fs) = Inr (map (?out c) fs)"
      by (rule all_results_Inr) (use one e c in blast)
    then show "(\<lambda>(c, fs). bind_result (all_results (map (resolved_field d (target_scope account_id instrument_id) (effective_setting d layers chain) c) fs))
      (\<lambda>out. Inr (c, out))) e = Inr ((\<lambda>(c, fs). (c, map (?out c) fs)) e)" by (simp add: c)
  qed
  then show ?thesis using assms(1) by (simp add: resolve_effective_settings_def merged Let_def)
qed


definition example_layers :: "string \<times> string \<Rightarrow> settings option" where
  "example_layers = (\<lambda>_. None)
     ((''global'', ''global'') \<mapsto> [(''money'', Fields [(''max_leverage'', SInt 2)]), (''general'', Fields [(''execution_mode'', SStr ''live'')])],
      (''account'', ''account-a'') \<mapsto> [(''money'', Fields [(''max_leverage'', SInt 5)])])"

lemma example_layers_wf: "\<forall>k s. example_layers k = Some s \<longrightarrow> wf_settings s"
  by (auto simp: example_layers_def wf_settings_def split: if_splits)

lemma example_chain: "scope_chain (Some ''account-a'') None = Inr [(''global'', ''global''), (''account'', ''account-a'')]"
  by code_simp

end
