(* ===== verification/Access_Control.thy ===== *)
theory Access_Control
  imports Client_Order_Ids
begin

text \<open>
  Who may do what in the control plane: roles and operations (\<open>security/permissions.py\<close>), the
  principal derived from the presented credential (\<open>security/principal.py\<close>,
  \<open>security/session_auth.py\<close>), the guard of dangerous operations (\<open>security/dangerous_ops.py\<close>)
  and the redacted audit record (\<open>security/audit.py\<close>).

  The environment is a function from variable names to values. HMAC-SHA256 (\<open>mac\<close>, from the secret
  and the text to the 32 bytes) and the JSON parser (\<open>loads\<close>, None when it raises; an object keeps
  its pairs as they are written) are parameters; base64url decoding is computed. A byte is a
  character. The environment's mappings and the clock are arguments.
\<close>

datatype access_error = AuthRequired | PermissionDenied | TokenCatalogError | SessionTokenError
  | DangerousOperationInvalid | UnknownOperation | MissingSecrets

section \<open>Roles and operations\<close>

datatype role = Viewer | Reviewer | Risk_Admin | System_Observer | Nautilus_Node

datatype operation = Dashboard_Read | Reports_Read | Risk_Read | Signal_Read | Audit_Read | Review_Decision_Write
  | Kill_Switch | Close_All | Pair_Lock_Write | Risk_Override_Write | Live_Gate_Approval
  | Execution_Event_Write | Node_Heartbeat_Write | Execution_Ack_Write

definition roles :: "(string \<times> role) list" where
  "roles = [(''viewer'', Viewer), (''reviewer'', Reviewer), (''risk_admin'', Risk_Admin), (''system_observer'', System_Observer),
     (''nautilus_node'', Nautilus_Node)]"

definition operations :: "(string \<times> operation) list" where
  "operations = [(''dashboard_read'', Dashboard_Read), (''reports_read'', Reports_Read), (''risk_read'', Risk_Read),
     (''signal_read'', Signal_Read), (''audit_read'', Audit_Read), (''review_decision_write'', Review_Decision_Write),
     (''kill_switch'', Kill_Switch), (''close_all'', Close_All), (''pair_lock_write'', Pair_Lock_Write),
     (''risk_override_write'', Risk_Override_Write), (''live_gate_approval'', Live_Gate_Approval),
     (''execution_event_write'', Execution_Event_Write), (''node_heartbeat_write'', Node_Heartbeat_Write),
     (''execution_ack_write'', Execution_Ack_Write)]"

definition node_operations :: "operation list" where
  "node_operations = [Execution_Event_Write, Node_Heartbeat_Write, Execution_Ack_Write]"

fun role_permissions :: "role \<Rightarrow> operation list" where
  "role_permissions Viewer = [Dashboard_Read, Reports_Read, Risk_Read, Signal_Read]"
| "role_permissions Reviewer = [Dashboard_Read, Reports_Read, Risk_Read, Signal_Read, Review_Decision_Write]"
| "role_permissions Risk_Admin = filter (\<lambda>x. x \<notin> set node_operations) (map snd operations)"
| "role_permissions System_Observer = [Dashboard_Read, Reports_Read, Risk_Read, Signal_Read, Audit_Read]"
| "role_permissions Nautilus_Node = node_operations"

definition has_permission :: "string \<Rightarrow> string \<Rightarrow> bool" where
  "has_permission r x =
     (case (map_of roles r, map_of operations x) of (Some r', Some x') \<Rightarrow> x' \<in> set (role_permissions r') | _ \<Rightarrow> False)"

fun json_text :: "json \<Rightarrow> string option" where
  "json_text (JStr s) = Some s"
| "json_text (JDec x) = Some (show_dec x)"
| "json_text _ = None"

text \<open>The actor is a mapping, or nothing.\<close>

definition require_user :: "dict option \<Rightarrow> access_error + string \<times> string" where
  "require_user actor =
     (case actor of
        None \<Rightarrow> Inl AuthRequired
      | Some [] \<Rightarrow> Inl AuthRequired
      | Some a \<Rightarrow>
          (case (json_text (jget a ''actor_id''), json_text (jget a ''role'')) of
             (Some actor_id, Some r) \<Rightarrow>
               if strip actor_id = [] \<or> strip r = [] then Inl AuthRequired
               else if map_of roles r = None then Inl PermissionDenied
               else Inr (actor_id, r)
           | _ \<Rightarrow> Inl AuthRequired))"

definition require_actor_permission :: "dict option \<Rightarrow> string \<Rightarrow> access_error + string \<times> string" where
  "require_actor_permission actor x =
     bind_result (require_user actor) (\<lambda>user. if has_permission (snd user) x then Inr user else Inl PermissionDenied)"

definition require_permission :: "string \<Rightarrow> dict option \<Rightarrow> access_error + string \<times> string" where
  "require_permission x actor = (if map_of operations x = None then Inl UnknownOperation else require_actor_permission actor x)"

definition first_actor_arg :: "json list \<Rightarrow> dict option" where
  "first_actor_arg args =
     (case List.find (\<lambda>a. case a of JObj d \<Rightarrow> has_key d ''actor_id'' \<and> has_key d ''role'' | _ \<Rightarrow> False) args of
        Some (JObj d) \<Rightarrow> Some d | _ \<Rightarrow> None)"

text \<open>A decorated function: the actor is the keyword argument, or the first positional argument that looks like one.\<close>

definition decorate :: "string \<Rightarrow> (json list \<Rightarrow> dict option \<Rightarrow> 'a) \<Rightarrow> json list \<Rightarrow> dict option \<Rightarrow> access_error + 'a" where
  "decorate x f args kw_actor =
     (let actor = (case kw_actor of Some a \<Rightarrow> Some a | None \<Rightarrow> first_actor_arg args)
      in bind_result (require_actor_permission actor x) (\<lambda>_. Inr (f args kw_actor)))"

type_synonym env = "string \<Rightarrow> string option"

definition env_text :: "env \<Rightarrow> string \<Rightarrow> string" where
  "env_text env name = (case env name of Some v \<Rightarrow> strip v | None \<Rightarrow> [])"

definition token_env_vars :: "string list" where
  "token_env_vars = [''RISK_ADMIN_TOKEN'', ''VIEWER_TOKEN'', ''REVIEWER_TOKEN'', ''SYSTEM_OBSERVER_TOKEN'', ''NAUTILUS_NODE_TOKEN'']"

definition required_secret_env_vars :: "string list" where
  "required_secret_env_vars = ''CONTROL_PLANE_AUTH_SECRET'' # token_env_vars"

definition validate_required_secrets :: "env \<Rightarrow> access_error + unit" where
  "validate_required_secrets env =
     (if list_ex (\<lambda>n. env_text env n = []) required_secret_env_vars then Inl MissingSecrets
      else if \<not> distinct (map (env_text env) token_env_vars) then Inl MissingSecrets
      else Inr ())"

section \<open>Sessions\<close>

datatype parsed = PNone | PBool bool | PInt int | PFloat rat | PStr string | PArr "parsed list" | PMap "(string \<times> parsed) list"

definition session_roles :: "string list" where
  "session_roles = [''risk_admin'', ''viewer'', ''reviewer'', ''system_observer'']"

definition b64_value :: "char \<Rightarrow> nat option" where
  "b64_value c =
     (let n = of_char c :: nat
      in if 65 \<le> n \<and> n \<le> 90 then Some (n - 65)
         else if 97 \<le> n \<and> n \<le> 122 then Some (n - 71)
         else if 48 \<le> n \<and> n \<le> 57 then Some (n + 4)
         else if c = CHR ''-'' then Some 62
         else if c = CHR ''_'' then Some 63
         else None)"

text \<open>Four digits make three bytes; two or three at the end make one or two, one digit alone is an error.\<close>

fun b64_bytes :: "nat list \<Rightarrow> string option" where
  "b64_bytes [] = Some []"
| "b64_bytes [a] = None"
| "b64_bytes [a, b] = Some [char_of (4 * a + b div 16)]"
| "b64_bytes [a, b, c] = Some [char_of (4 * a + b div 16), char_of (16 * (b mod 16) + c div 4)]"
| "b64_bytes (a # b # c # d # rest) =
     map_option (\<lambda>r. char_of (4 * a + b div 16) # char_of (16 * (b mod 16) + c div 4) # char_of (64 * (c mod 4) + d) # r)
       (b64_bytes rest)"

definition session_decode :: "string \<Rightarrow> access_error + string" where
  "session_decode segment =
     (if segment = [] \<or> list_ex (\<lambda>c. b64_value c = None) segment then Inl SessionTokenError
      else (case b64_bytes (map (\<lambda>c. the (b64_value c)) segment) of None \<Rightarrow> Inl SessionTokenError | Some bs \<Rightarrow> Inr bs))"

text \<open>The hook that builds the objects refuses a repeated key at any depth.\<close>

fun no_repeated_keys :: "parsed \<Rightarrow> bool" where
  "no_repeated_keys (PMap ps) = (distinct (map fst ps) \<and> list_all (\<lambda>p. no_repeated_keys (snd p)) ps)"
| "no_repeated_keys (PArr xs) = list_all no_repeated_keys xs"
| "no_repeated_keys _ = True"

definition session_object :: "(string \<Rightarrow> parsed option) \<Rightarrow> string \<Rightarrow> access_error + parsed" where
  "session_object loads text =
     (case loads text of None \<Rightarrow> Inl SessionTokenError
      | Some v \<Rightarrow> if no_repeated_keys v then Inr v else Inl SessionTokenError)"

definition session_segments :: "string \<Rightarrow> string \<times> string \<times> string" where
  "session_segments token =
     (let rest = after_char (CHR ''.'') token
      in (before_char (CHR ''.'') token, before_char (CHR ''.'') rest, after_char (CHR ''.'') rest))"

definition control_free :: "string \<Rightarrow> bool" where
  "control_free s = list_all (\<lambda>c. \<not> (of_char c < (32::nat) \<or> of_char c = (127::nat))) s"

text \<open>The checks of the claims: times are whole seconds.\<close>

definition session_identity :: "(string \<times> parsed) list \<Rightarrow> int \<Rightarrow> access_error + string \<times> string" where
  "session_identity claims now =
     (case (map_of claims ''iat'', map_of claims ''exp'') of
        (Some (PInt issued_at), Some (PInt expires_at)) \<Rightarrow>
          if issued_at < 0 \<or> issued_at > now \<or> expires_at \<le> now \<or> expires_at \<le> issued_at then Inl SessionTokenError
          else (case (map_of claims ''sub'', map_of claims ''role'') of
                  (Some (PStr subject), Some (PStr r)) \<Rightarrow>
                    if strip subject = [] \<or> length subject > 256 \<or> \<not> control_free subject \<or> r \<notin> set session_roles
                    then Inl SessionTokenError else Inr (subject, r)
                | _ \<Rightarrow> Inl SessionTokenError)
      | _ \<Rightarrow> Inl SessionTokenError)"

definition session_header_ok :: "parsed \<Rightarrow> bool" where
  "session_header_ok h =
     (case h of PMap ps \<Rightarrow> length ps = 2 \<and> map_of ps ''alg'' = Some (PStr ''HS256'') \<and> map_of ps ''typ'' = Some (PStr ''JWT'') | _ \<Rightarrow> False)"

definition verify_session_token :: "(string \<Rightarrow> parsed option) \<Rightarrow> (string \<Rightarrow> string \<Rightarrow> string) \<Rightarrow> string \<Rightarrow> string option \<Rightarrow> int
    \<Rightarrow> access_error + string \<times> string" where
  "verify_session_token loads mac token secret now =
     (case secret of
        None \<Rightarrow> Inl SessionTokenError
      | Some key \<Rightarrow>
          if strip key = [] then Inl SessionTokenError
          else if length token > 8192 \<or> count_list token (CHR ''.'') \<noteq> 2 then Inl SessionTokenError
          else (case session_segments token of (header_segment, claims_segment, signature_segment) \<Rightarrow>
            bind_result (session_decode signature_segment) (\<lambda>signature.
            let signing_input = header_segment @ ''.'' @ claims_segment
            in if length signature \<noteq> 32 \<or> signature \<noteq> mac key signing_input then Inl SessionTokenError
               else
                 bind_result (bind_result (session_decode header_segment) (session_object loads)) (\<lambda>header.
                 bind_result (bind_result (session_decode claims_segment) (session_object loads)) (\<lambda>claims.
                 if \<not> session_header_ok header then Inl SessionTokenError
                 else (case claims of PMap ps \<Rightarrow> session_identity ps now | _ \<Rightarrow> Inl SessionTokenError))))))"

section \<open>Principals\<close>

datatype principal_kind = Operator | Signal | Reader

record Principal =
  pr_kind :: principal_kind
  pr_actor_id :: string
  pr_role :: string
  pr_scope :: string
  pr_account_id :: "string option"
  pr_session_subject :: "string option"

definition signal_token_env :: "(string \<times> string) list" where
  "signal_token_env = [(''SIGNAL_TOKEN_ACCOUNT_A'', ''account-a''), (''SIGNAL_TOKEN_ACCOUNT_B'', ''account-b''),
     (''SIGNAL_TOKEN_ACCOUNT_C'', ''account-c''), (''SIGNAL_TOKEN_ACCOUNT_D'', ''account-d'')]"

definition reader_role_by_env :: "(string \<times> string) list" where
  "reader_role_by_env = [(''RISK_ADMIN_TOKEN'', ''risk_admin''), (''VIEWER_TOKEN'', ''viewer''), (''REVIEWER_TOKEN'', ''reviewer''),
     (''SYSTEM_OBSERVER_TOKEN'', ''system_observer'')]"

text \<open>The dict from the configured token values to what they stand for; a later entry replaces an earlier one.\<close>

definition token_map :: "env \<Rightarrow> (string \<times> string) list \<Rightarrow> string \<Rightarrow> string option" where
  "token_map env names = map_of (rev (filter (\<lambda>(v, _). v \<noteq> []) (map (\<lambda>(n, x). (env_text env n, x)) names)))"

definition signal_account_tokens :: "env \<Rightarrow> string \<Rightarrow> string option" where
  "signal_account_tokens env = token_map env signal_token_env"

definition reader_token_map :: "env \<Rightarrow> string \<Rightarrow> string option" where
  "reader_token_map env = token_map env reader_role_by_env"

definition no_tokens :: "env \<Rightarrow> (string \<times> string) list \<Rightarrow> bool" where
  "no_tokens env names = list_all (\<lambda>(n, _). env_text env n = []) names"

fun parsed_text :: "parsed \<Rightarrow> string" where
  "parsed_text (PStr s) = strip s"
| "parsed_text (PInt i) = (if i = 0 then [] else show_dec (of_int i))"
| "parsed_text (PFloat x) = (if x = 0 then [] else show_dec x)"
| "parsed_text (PBool b) = (if b then ''True'' else [])"
| "parsed_text _ = []"

text \<open>The tokens of the node catalog: a JSON object of objects. A repeated key keeps its last value.\<close>

definition node_token :: "parsed \<Rightarrow> access_error + string" where
  "node_token binding =
     (case binding of PMap ps \<Rightarrow> Inr (case map_of (rev ps) ''token'' of Some v \<Rightarrow> parsed_text v | None \<Rightarrow> []) | _ \<Rightarrow> Inl TokenCatalogError)"

fun node_tokens :: "parsed list \<Rightarrow> access_error + string list" where
  "node_tokens [] = Inr []"
| "node_tokens (b # bs) = bind_result (node_token b) (\<lambda>v. bind_result (node_tokens bs) (\<lambda>vs. Inr (if v = [] then vs else v # vs)))"

definition configured_token_values :: "(string \<Rightarrow> parsed option) \<Rightarrow> env \<Rightarrow> access_error + string list" where
  "configured_token_values loads env =
     (let values = filter (\<lambda>v. v \<noteq> []) (map (env_text env) (token_env_vars @ map fst signal_token_env));
          node_auth = env_text env ''NAUTILUS_NODE_AUTH_JSON''
      in if node_auth = [] then Inr values
         else (case loads node_auth of
                 Some (PMap ps) \<Rightarrow>
                   bind_result (node_tokens (map snd (foldl (\<lambda>acc (k, v). AList.update k v acc) [] ps))) (\<lambda>vs. Inr (values @ vs))
               | _ \<Rightarrow> Inl TokenCatalogError))"

definition assert_token_catalog_unique :: "(string \<Rightarrow> parsed option) \<Rightarrow> env \<Rightarrow> access_error + unit" where
  "assert_token_catalog_unique loads env =
     bind_result (configured_token_values loads env) (\<lambda>vs. if distinct vs then Inr () else Inl TokenCatalogError)"

definition principal_for_reader_role :: "string \<Rightarrow> Principal" where
  "principal_for_reader_role r =
     \<lparr>pr_kind = (if r = ''risk_admin'' then Operator else Reader), pr_actor_id = r, pr_role = r, pr_scope = ''global'',
      pr_account_id = None, pr_session_subject = None\<rparr>"

definition signal_principal :: "string \<Rightarrow> Principal" where
  "signal_principal account_id =
     \<lparr>pr_kind = Signal, pr_actor_id = ''signal:'' @ account_id, pr_role = ''signal_agent'', pr_scope = ''account'',
      pr_account_id = Some account_id, pr_session_subject = None\<rparr>"

definition session_principal :: "string \<times> string \<Rightarrow> Principal" where
  "session_principal session =
     \<lparr>pr_kind = (if snd session = ''risk_admin'' then Operator else Reader), pr_actor_id = ''user:'' @ fst session, pr_role = snd session,
      pr_scope = ''global'', pr_account_id = None, pr_session_subject = Some (fst session)\<rparr>"

definition presented_token :: "string option \<Rightarrow> access_error + string" where
  "presented_token authorization =
     (case authorization of
        Some a \<Rightarrow> if startswith a ''Bearer '' \<and> strip (drop 7 a) \<noteq> [] then Inr (strip (drop 7 a)) else Inl AuthRequired
      | None \<Rightarrow> Inl AuthRequired)"

text \<open>The reader tokens are those of the environment; the body of the request is ignored.\<close>

definition resolve_principal :: "(string \<Rightarrow> parsed option) \<Rightarrow> (string \<Rightarrow> string \<Rightarrow> string) \<Rightarrow> env \<Rightarrow> int \<Rightarrow> string option
    \<Rightarrow> access_error + Principal" where
  "resolve_principal loads mac env now authorization =
     bind_result (assert_token_catalog_unique loads env) (\<lambda>_.
     bind_result (presented_token authorization) (\<lambda>presented.
       (case reader_token_map env presented of
          Some r \<Rightarrow> Inr (principal_for_reader_role r)
        | None \<Rightarrow>
            (case signal_account_tokens env presented of
               Some account_id \<Rightarrow> Inr (signal_principal account_id)
             | None \<Rightarrow>
                 if count_list presented (CHR ''.'') = 2 then
                   (case verify_session_token loads mac presented (env ''AUTH_SECRET_KEY'') now of
                      Inl _ \<Rightarrow> Inl AuthRequired
                    | Inr session \<Rightarrow> Inr (session_principal session))
                 else if no_tokens env reader_role_by_env \<and> no_tokens env signal_token_env then Inl TokenCatalogError
                 else Inl PermissionDenied))))"

definition can_read_trace :: "Principal \<Rightarrow> bool" where
  "can_read_trace p = (pr_kind p \<noteq> Signal \<and> pr_role p \<in> set session_roles)"

definition can_write_operator_orders :: "Principal \<Rightarrow> bool" where
  "can_write_operator_orders p = (pr_kind p = Operator \<and> pr_role p = ''risk_admin'' \<and> pr_scope p = ''global'')"

definition assert_account_authorized :: "Principal \<Rightarrow> string \<Rightarrow> access_error + unit" where
  "assert_account_authorized p account_id =
     (let target = strip account_id
      in if target = [] \<or> target = ''unassigned'' then Inl PermissionDenied
         else if pr_kind p = Signal then (if pr_account_id p \<noteq> Some target then Inl PermissionDenied else Inr ())
         else if pr_kind p = Operator \<and> pr_scope p = ''global'' then Inr ()
         else Inl PermissionDenied)"

section \<open>Redaction\<close>

definition secret_key_words :: "string list" where
  "secret_key_words = [''authorization'', ''cookie'', ''password'', ''passwd'', ''secret'', ''token'', ''jwt'', ''apikey'', ''api_key'',
     ''api-key'', ''exchangekey'', ''exchange_key'', ''exchange-key'']"

definition secret_value_words :: "string list" where
  "secret_value_words = [''password'', ''passwd'', ''secret'', ''token'', ''jwt'', ''api_key'', ''api-key'', ''apikey'', ''exchange_key'',
     ''exchange-key'', ''exchangekey'']"

definition secret_key :: "string \<Rightarrow> bool" where
  "secret_key k = list_ex (\<lambda>w. contains_sub w (lower k)) secret_key_words"

text \<open>A secret word at the start of the text, an equals sign or a colon, and a value up to a comma or a blank.\<close>

definition match_secret :: "string \<Rightarrow> (string \<times> string) option" where
  "match_secret s =
     (case List.find (\<lambda>w. startswith (lower s) w) secret_value_words of
        None \<Rightarrow> None
      | Some w \<Rightarrow>
          (case dropWhile is_space (drop (length w) s) of
             [] \<Rightarrow> None
           | c # r \<Rightarrow>
               if c \<noteq> CHR '':'' \<and> c \<noteq> CHR ''='' then None
               else (let v = dropWhile is_space r; rest = dropWhile (\<lambda>x. x \<noteq> CHR '','' \<and> \<not> is_space x) v
                     in if rest = v then None else Some (take (length w) s, rest))))"

lemma match_secret_shorter: "match_secret s = Some (w, rest) \<Longrightarrow> length rest < length s"
proof -
  have d: "length (dropWhile p xs) \<le> length xs" for p and xs :: string by (rule length_dropWhile_le)
  assume "match_secret s = Some (w, rest)"
  then obtain k c r where r: "dropWhile is_space (drop k s) = c # r"
    and rest: "rest = dropWhile (\<lambda>x. x \<noteq> CHR '','' \<and> \<not> is_space x) (dropWhile is_space r)"
    by (auto simp: match_secret_def Let_def split: option.splits list.splits if_splits)
  have "Suc (length r) \<le> length s" using d[of is_space "drop k s"] unfolding r by simp
  moreover have "length rest \<le> length r" unfolding rest using d order_trans by blast
  ultimately show ?thesis by simp
qed

function redact_text :: "string \<Rightarrow> string" where
  "redact_text [] = []"
| "redact_text (c # s) =
     (case match_secret (c # s) of
        Some (w, rest) \<Rightarrow> w @ ''=[REDACTED]'' @ redact_text rest
      | None \<Rightarrow> c # redact_text s)"
  by pat_completeness auto

termination
  by (relation "measure length") (auto dest: match_secret_shorter)

text \<open>A string that spells a number holds no secret word.\<close>

fun redact_payload :: "json \<Rightarrow> json" where
  "redact_payload (JObj d) = JObj (map (\<lambda>e. (fst e, if secret_key (fst e) then JStr ''[REDACTED]'' else redact_payload (snd e))) d)"
| "redact_payload (JList xs) = JList (map redact_payload xs)"
| "redact_payload (JStr s) = JStr (redact_text s)"
| "redact_payload v = v"

definition redact_dict :: "dict \<Rightarrow> dict" where
  "redact_dict d = (case redact_payload (JObj d) of JObj d' \<Rightarrow> d' | _ \<Rightarrow> [])"

section \<open>Dangerous operations\<close>

record audit_event =
  ae_event_type :: string
  ae_aggregate_type :: string
  ae_aggregate_id :: string
  ae_actor :: string
  ae_trace_id :: "string option"
  ae_payload :: dict

record DangerousOperationRequest =
  dr_request_id :: string
  dr_reason :: string
  dr_confirm :: bool
  dr_payload :: dict

record DangerousOperationDecision =
  dd_allowed :: bool
  dd_operation :: string
  dd_request_id :: string
  dd_actor_id :: string
  dd_actor_role :: string

text \<open>A request given as a mapping: the fields as text, and the confirmation as a truth value.\<close>

definition coerce_request :: "dict \<Rightarrow> DangerousOperationRequest" where
  "coerce_request d =
     \<lparr>dr_request_id = json_str (jget_or d ''request_id'' (JStr [])), dr_reason = json_str (jget_or d ''reason'' (JStr [])),
      dr_confirm = truthy (jget_or d ''confirm'' (JBool False)),
      dr_payload = (case jget_or d ''payload'' (JObj []) of JObj p \<Rightarrow> p | _ \<Rightarrow> [])\<rparr>"

definition validate_request :: "DangerousOperationRequest \<Rightarrow> access_error + unit" where
  "validate_request r =
     (if strip (dr_request_id r) = [] then Inl DangerousOperationInvalid
      else if strip (dr_reason r) = [] then Inl DangerousOperationInvalid
      else if \<not> dr_confirm r then Inl DangerousOperationInvalid
      else Inr ())"

definition dangerous_operation_payload :: "DangerousOperationRequest \<Rightarrow> string \<times> string \<Rightarrow> string \<Rightarrow> instant \<Rightarrow> dict" where
  "dangerous_operation_payload r user x clock =
     redact_dict
       [(''request_id'', JStr (dr_request_id r)), (''reason'', JStr (dr_reason r)),
        (''actor'', JObj [(''actor_id'', JStr (fst user)), (''role'', JStr (snd user))]), (''operation'', JStr x),
        (''timestamp'', JNum (of_int clock)), (''dangerous_operation'', JBool True), (''payload'', JObj (dr_payload r))]"

definition trace_uuid :: "string \<Rightarrow> string option" where
  "trace_uuid v = (case parse_uuid v of Inr u \<Rightarrow> Some (uuid_str u) | Inl _ \<Rightarrow> None)"

text \<open>\<open>record_audit_event\<close> and the writer: the payload is redacted once more on its way into the table.\<close>

definition record_audit_event :: "audit_event list \<Rightarrow> string \<Rightarrow> string \<Rightarrow> string \<Rightarrow> string \<Rightarrow> dict \<Rightarrow> string \<Rightarrow> audit_event list" where
  "record_audit_event table event_type aggregate_type aggregate_id actor payload trace =
     table @ [\<lparr>ae_event_type = event_type, ae_aggregate_type = aggregate_type, ae_aggregate_id = aggregate_id, ae_actor = actor,
       ae_trace_id = trace_uuid trace, ae_payload = redact_dict payload\<rparr>]"

text \<open>The audit goes to the sink when there is one, else to the table of the connection; without both it is refused.\<close>

record audit_writers =
  aw_sink :: "audit_event list option"
  aw_table :: "audit_event list option"

definition write_audit :: "audit_writers \<Rightarrow> string \<Rightarrow> string \<Rightarrow> string \<Rightarrow> dict \<Rightarrow> access_error + audit_writers" where
  "write_audit w x aggregate_id actor_id payload =
     (case aw_sink w of
        Some events \<Rightarrow>
          Inr (w \<lparr>aw_sink := Some (events @ [\<lparr>ae_event_type = x, ae_aggregate_type = ''dangerous_operation'',
            ae_aggregate_id = aggregate_id, ae_actor = actor_id, ae_trace_id = None, ae_payload = payload\<rparr>])\<rparr>)
      | None \<Rightarrow>
          (case aw_table w of
             None \<Rightarrow> Inl DangerousOperationInvalid
           | Some table \<Rightarrow>
               Inr (w \<lparr>aw_table := Some (record_audit_event table x ''dangerous_operation'' aggregate_id actor_id payload
                 (json_str (jget payload ''request_id'')))\<rparr>)))"

definition require_dangerous_operation :: "dict option \<Rightarrow> string \<Rightarrow> DangerousOperationRequest + dict \<Rightarrow> audit_writers \<Rightarrow> string
    \<Rightarrow> instant \<Rightarrow> access_error + audit_writers \<times> DangerousOperationDecision" where
  "require_dangerous_operation actor x request w aggregate_id clock =
     bind_result (require_permission x actor) (\<lambda>user.
     let r = (case request of Inl r \<Rightarrow> r | Inr d \<Rightarrow> coerce_request d)
     in bind_result (validate_request r) (\<lambda>_.
        let payload = dangerous_operation_payload r user x clock
        in bind_result (write_audit w x (if aggregate_id = [] then x else aggregate_id) (fst user) payload) (\<lambda>w'.
           Inr (w', \<lparr>dd_allowed = True, dd_operation = x, dd_request_id = dr_request_id r, dd_actor_id = fst user,
             dd_actor_role = snd user\<rparr>))))"

section \<open>Authority needs a credential\<close>

lemma token_map_Some:
  assumes "token_map env names v = Some x"
  shows "\<exists>n. (n, x) \<in> set names \<and> env_text env n = v \<and> v \<noteq> []"
  using assms by (auto simp: token_map_def dest!: map_of_SomeD)

text \<open>A session of an operator: three segments, the signature is the MAC of the first two, and the claims name a risk
  administrator at a time the session covers.\<close>

definition operator_session :: "(string \<Rightarrow> parsed option) \<Rightarrow> (string \<Rightarrow> string \<Rightarrow> string) \<Rightarrow> env \<Rightarrow> int \<Rightarrow> string \<Rightarrow> bool" where
  "operator_session loads mac env now token \<longleftrightarrow>
     (\<exists>h c g key text ps issued_at expires_at. session_segments token = (h, c, g) \<and> env ''AUTH_SECRET_KEY'' = Some key \<and> strip key \<noteq> []
        \<and> session_decode g = Inr (mac key (h @ ''.'' @ c)) \<and> session_decode c = Inr text \<and> loads text = Some (PMap ps)
        \<and> map_of ps ''role'' = Some (PStr ''risk_admin'') \<and> map_of ps ''iat'' = Some (PInt issued_at)
        \<and> map_of ps ''exp'' = Some (PInt expires_at) \<and> issued_at \<le> now \<and> now < expires_at)"

lemma session_identity_Inr:
  assumes "session_identity ps now = Inr (subject, r)"
  shows "\<exists>issued_at expires_at. map_of ps ''iat'' = Some (PInt issued_at) \<and> map_of ps ''exp'' = Some (PInt expires_at)
    \<and> 0 \<le> issued_at \<and> issued_at \<le> now \<and> now < expires_at \<and> map_of ps ''role'' = Some (PStr r) \<and> map_of ps ''sub'' = Some (PStr subject)
    \<and> r \<in> set session_roles"
  using assms by (auto simp: session_identity_def split: option.splits parsed.splits if_splits)

lemma verify_session_token_Inr:
  assumes "verify_session_token loads mac token secret now = Inr (subject, r)"
  shows "\<exists>h c g key text ps. session_segments token = (h, c, g) \<and> secret = Some key \<and> strip key \<noteq> []
    \<and> session_decode g = Inr (mac key (h @ ''.'' @ c)) \<and> session_decode c = Inr text \<and> loads text = Some (PMap ps)
    \<and> session_identity ps now = Inr (subject, r)"
  using assms
  by (auto simp: verify_session_token_def session_object_def Let_def bind_result_Inr_iff
      split: option.splits if_splits prod.splits parsed.splits)

text \<open>
  C32. Authority over an account needs a credential: a principal that is authorized for an account, whatever the
  request's body says, presented the operator's token, or a session whose signature is the MAC of its header and claims
  and whose claims name a risk administrator and a time that covers now, or the signal token of exactly that
  account. The unassigned account is never authorized, and a signal token never allows operator orders or reading traces.
\<close>

theorem account_authority_needs_credential:
  assumes "resolve_principal loads mac env now authorization = Inr p" "assert_account_authorized p account_id = Inr ()"
  shows "strip account_id \<noteq> [] \<and> strip account_id \<noteq> ''unassigned''
    \<and> (\<exists>token. presented_token authorization = Inr token \<and> token \<noteq> []
        \<and> (env_text env ''RISK_ADMIN_TOKEN'' = token \<or> operator_session loads mac env now token
           \<or> (\<exists>n. (n, strip account_id) \<in> set signal_token_env \<and> env_text env n = token
                \<and> \<not> can_write_operator_orders p \<and> \<not> can_read_trace p)))"
proof -
  obtain token where t: "presented_token authorization = Inr token"
    using assms(1) by (auto simp: resolve_principal_def bind_result_Inr_iff)
  then have ne: "token \<noteq> []" by (auto simp: presented_token_def split: option.splits if_splits)
  have target: "strip account_id \<noteq> [] \<and> strip account_id \<noteq> ''unassigned''"
    using assms(2) by (auto simp: assert_account_authorized_def Let_def split: if_splits)
  consider r where "reader_token_map env token = Some r" "p = principal_for_reader_role r"
    | a where "signal_account_tokens env token = Some a" "p = signal_principal a"
    | u r where "verify_session_token loads mac token (env ''AUTH_SECRET_KEY'') now = Inr (u, r)" "p = session_principal (u, r)"
    using assms(1) t by (auto simp: resolve_principal_def bind_result_Inr_iff split: option.splits if_splits sum.splits)
  then have "env_text env ''RISK_ADMIN_TOKEN'' = token \<or> operator_session loads mac env now token
      \<or> (\<exists>n. (n, strip account_id) \<in> set signal_token_env \<and> env_text env n = token \<and> \<not> can_write_operator_orders p \<and> \<not> can_read_trace p)"
  proof cases
    case 1
    then have "r = ''risk_admin''"
      using assms(2) by (auto simp: assert_account_authorized_def principal_for_reader_role_def Let_def split: if_splits)
    with token_map_Some[of env reader_role_by_env token r] 1(1) show ?thesis
      by (auto simp: reader_token_map_def reader_role_by_env_def)
  next
    case 2
    then have "a = strip account_id"
      using assms(2) by (auto simp: assert_account_authorized_def signal_principal_def Let_def split: if_splits)
    moreover have "\<not> can_write_operator_orders p \<and> \<not> can_read_trace p"
      by (simp add: 2 can_write_operator_orders_def can_read_trace_def signal_principal_def)
    ultimately show ?thesis
      using token_map_Some[of env signal_token_env token a] 2(1) by (auto simp: signal_account_tokens_def)
  next
    case 3
    then have r: "r = ''risk_admin''"
      using assms(2) by (auto simp: assert_account_authorized_def session_principal_def Let_def split: if_splits)
    from verify_session_token_Inr[OF 3(1)] obtain h c g key tx ps where
      v: "session_segments token = (h, c, g)" "env ''AUTH_SECRET_KEY'' = Some key" "strip key \<noteq> []"
        "session_decode g = Inr (mac key (h @ ''.'' @ c))" "session_decode c = Inr tx" "loads tx = Some (PMap ps)"
        "session_identity ps now = Inr (u, r)" by blast
    with session_identity_Inr[OF v(7)] r show ?thesis unfolding operator_session_def by blast
  qed
  with t ne target show ?thesis by blast
qed

theorem account_authority_needs_credential_witness:
  "\<exists>token. presented_token (Some ''Bearer sig-b'') = Inr token
    \<and> (\<exists>n. (n, ''account-b'') \<in> set signal_token_env \<and> (([''SIGNAL_TOKEN_ACCOUNT_B'' \<mapsto> ''sig-b''] :: env) n) = Some token)"
proof -
  let ?env = "[''SIGNAL_TOKEN_ACCOUNT_B'' \<mapsto> ''sig-b''] :: env"
  have p: "resolve_principal (\<lambda>_. None) (\<lambda>_ _. []) ?env 0 (Some ''Bearer sig-b'') = Inr (signal_principal ''account-b'')"
    by code_simp
  have a: "assert_account_authorized (signal_principal ''account-b'') ''account-b'' = Inr ()"
    by code_simp
  have s: "strip ''account-b'' = ''account-b''" "presented_token (Some ''Bearer sig-b'') = Inr ''sig-b''" by code_simp+
  have no: "\<not> operator_session (\<lambda>_. None) (\<lambda>_ _. []) ?env 0 ''sig-b''" by (simp add: operator_session_def)
  have no2: "env_text ?env ''RISK_ADMIN_TOKEN'' = []" by (simp add: env_text_def)
  have e: "env_text ?env n = ''sig-b'' \<Longrightarrow> ?env n = Some ''sig-b''" for n by (auto simp: env_text_def split: if_splits option.splits)
  show ?thesis using account_authority_needs_credential[OF p a] no e unfolding s no2 by (auto simp: signal_token_env_def)
qed

section \<open>Dangerous operations are audited\<close>

text \<open>At every depth, the value under a secret key is the placeholder.\<close>

fun secrets_hidden :: "json \<Rightarrow> bool" where
  "secrets_hidden (JObj d) = list_all (\<lambda>e. if secret_key (fst e) then snd e = JStr ''[REDACTED]'' else secrets_hidden (snd e)) d"
| "secrets_hidden (JList xs) = list_all secrets_hidden xs"
| "secrets_hidden _ = True"

lemma redact_hides: "secrets_hidden (redact_payload v)"
  by (induction v rule: redact_payload.induct) (auto simp: list_all_iff)

lemma redact_dict_hides: "secrets_hidden (JObj (redact_dict d))"
  using redact_hides[of "JObj d"] by (simp add: redact_dict_def)

lemma require_permission_Inr:
  assumes "require_permission x actor = Inr user"
  shows "\<exists>a. actor = Some a \<and> json_text (jget a ''actor_id'') = Some (fst user) \<and> json_text (jget a ''role'') = Some (snd user)
    \<and> strip (fst user) \<noteq> [] \<and> has_permission (snd user) x"
  using assms
  by (auto simp: require_permission_def require_actor_permission_def require_user_def bind_result_Inr_iff
      split: if_splits option.splits list.splits)



text \<open>
  A mapping confirms with any true value: the text "false" is a confirmation.
\<close>

lemma text_confirms: "dr_confirm (coerce_request [(''confirm'', JStr ''false'')])"
  by (simp add: coerce_request_def jget_or_def)

end
