(* ===== verification/Settings_Service.thy ===== *)
theory Settings_Service
  imports Settings_Schema Access_Control Idempotency "HOL-Library.Multiset"
begin

text \<open>
  The settings service: versions of the settings of a scope (\<open>settings/versioning.py\<close>), patch,
  rollback, export and import (\<open>settings/service.py\<close>, \<open>settings/import_export.py\<close>), the plan
  that applies a change and the wait for its acknowledgement (\<open>settings/apply_plan.py\<close>), the
  audit record (\<open>audit/settings_audit.py\<close>) and the event that announces a change
  (\<open>settings/publisher.py\<close>).

  A writing operation is a transaction: it reads the current version, and commits on that reading. The
  two halves are separate definitions, so that readings and commits of different transactions interleave;
  the table's unique constraint on scope, key and version is what the second of two commits runs into.
  SHA-256, the clock and the fresh trace id are arguments; \<open>uuid5\<close> of a request id that is no UUID is
  the parameter \<open>name_uuid\<close>.
\<close>

section \<open>Tables\<close>

record settings_row =
  sr_scope :: string
  sr_scope_key :: string
  sr_version :: int
  sr_settings :: settings
  sr_created_by :: string
  sr_reason :: string
  sr_request_id :: string

record version_row =
  vr_scope :: string
  vr_scope_key :: string
  vr_version :: int
  vr_previous_version :: "int option"
  vr_settings :: settings
  vr_changed_by :: string
  vr_reason :: string
  vr_request_id :: string

record settings_audit =
  su_action :: string
  su_target :: string
  su_actor :: string
  su_trace_id :: string
  su_payload :: dict
  su_before_state :: dict
  su_after_state :: dict
  su_reason :: string

record settings_db =
  sd_rows :: "settings_row list"
  sd_versions :: "version_row list"
  sd_audit :: "settings_audit list"
  sd_outbox :: "outbox_event list"

datatype settings_failure = ServiceError string "setting_error list" | Raised py_exc

record current_settings =
  cs_version :: int
  cs_settings :: settings

definition raising :: "'a result \<Rightarrow> settings_failure + 'a" where
  "raising r = (case r of Inl e \<Rightarrow> Inl (Raised e) | Inr x \<Rightarrow> Inr x)"

section \<open>Versions\<close>

definition scope_rows :: "settings_db \<Rightarrow> string \<Rightarrow> string \<Rightarrow> settings_row list" where
  "scope_rows db scope key = filter (\<lambda>r. sr_scope r = scope \<and> sr_scope_key r = key) (sd_rows db)"

text \<open>\<open>ORDER BY version DESC LIMIT 1\<close>.\<close>

definition newest_row :: "settings_db \<Rightarrow> string \<Rightarrow> string \<Rightarrow> settings_row option" where
  "newest_row db scope key = (case sort_key (\<lambda>r. - sr_version r) (scope_rows db scope key) of [] \<Rightarrow> None | r # _ \<Rightarrow> Some r)"

definition get_current_settings :: "settings_db \<Rightarrow> string \<Rightarrow> string \<Rightarrow> current_settings" where
  "get_current_settings db scope key =
     (case newest_row db scope key of
        None \<Rightarrow> \<lparr>cs_version = 0, cs_settings = []\<rparr>
      | Some r \<Rightarrow> \<lparr>cs_version = sr_version r, cs_settings = sr_settings r\<rparr>)"

definition fetch_latest_settings_by_scope :: "settings_db \<Rightarrow> string \<times> string \<Rightarrow> settings option" where
  "fetch_latest_settings_by_scope db = (\<lambda>(scope, key). map_option sr_settings (newest_row db scope key))"

text \<open>Both tables are unique in scope, key and version, and a version is positive.\<close>

definition insert_settings_version :: "settings_db \<Rightarrow> string \<Rightarrow> string \<Rightarrow> int \<Rightarrow> int option \<Rightarrow> settings \<Rightarrow> string \<Rightarrow> string \<Rightarrow> string
    \<Rightarrow> settings_db result" where
  "insert_settings_version db scope key version previous s changed_by reason request_id =
     (if version \<le> 0
         \<or> list_ex (\<lambda>r. sr_scope r = scope \<and> sr_scope_key r = key \<and> sr_version r = version) (sd_rows db)
         \<or> list_ex (\<lambda>r. vr_scope r = scope \<and> vr_scope_key r = key \<and> vr_version r = version) (sd_versions db)
      then Inl IntegrityError
      else Inr (db \<lparr>sd_rows := sd_rows db @ [\<lparr>sr_scope = scope, sr_scope_key = key, sr_version = version, sr_settings = s,
                    sr_created_by = changed_by, sr_reason = reason, sr_request_id = request_id\<rparr>],
                sd_versions := sd_versions db @ [\<lparr>vr_scope = scope, vr_scope_key = key, vr_version = version,
                    vr_previous_version = previous, vr_settings = s, vr_changed_by = changed_by, vr_reason = reason,
                    vr_request_id = request_id\<rparr>]\<rparr>))"

definition list_versions :: "settings_db \<Rightarrow> string \<Rightarrow> string \<Rightarrow> version_row list" where
  "list_versions db scope key =
     sort_key (\<lambda>r. - vr_version r) (filter (\<lambda>r. vr_scope r = scope \<and> vr_scope_key r = key) (sd_versions db))"

definition get_version :: "settings_db \<Rightarrow> string \<Rightarrow> string \<Rightarrow> int \<Rightarrow> version_row result" where
  "get_version db scope key version =
     (case List.find (\<lambda>r. vr_scope r = scope \<and> vr_scope_key r = key \<and> vr_version r = version) (sd_versions db) of
        None \<Rightarrow> Inl KeyError | Some r \<Rightarrow> Inr r)"

text \<open>Python's equality of two values: numbers and truth values compare as numbers.\<close>

fun setting_value_number :: "setting \<Rightarrow> rat option" where
  "setting_value_number (SBool b) = Some (if b then 1 else 0)"
| "setting_value_number v = setting_number v"

definition setting_eq :: "setting \<Rightarrow> setting \<Rightarrow> bool" where
  "setting_eq a b = (a = b \<or> setting_value_number a \<noteq> None \<and> setting_value_number a = setting_value_number b)"

definition flat_value :: "settings \<Rightarrow> string \<Rightarrow> setting" where
  "flat_value s path = (case map_of (flatten_settings s) path of Some v \<Rightarrow> v | None \<Rightarrow> SNull)"

definition flat_paths :: "settings \<Rightarrow> settings \<Rightarrow> string list" where
  "flat_paths before after = sort (remdups (map fst (flatten_settings before) @ map fst (flatten_settings after)))"

definition diff_settings :: "settings \<Rightarrow> settings \<Rightarrow> (string \<times> setting \<times> setting) list" where
  "diff_settings before after =
     map (\<lambda>p. (p, flat_value before p, flat_value after p))
       (filter (\<lambda>p. \<not> setting_eq (flat_value before p) (flat_value after p)) (flat_paths before after))"

section \<open>Patching\<close>

definition patch_field :: "fields \<Rightarrow> string \<times> setting \<Rightarrow> fields" where
  "patch_field target e = (if snd e = SNull then AList.delete (fst e) target else AList.update (fst e) (snd e) target)"

definition patch_category :: "settings \<Rightarrow> string \<times> category \<Rightarrow> settings" where
  "patch_category merged e =
     (case snd e of
        Fields fs \<Rightarrow>
          (let target = foldl patch_field (case map_of merged (fst e) of Some (Fields ts) \<Rightarrow> ts | _ \<Rightarrow> []) fs
           in if target \<noteq> [] then AList.update (fst e) (Fields target) merged else AList.delete (fst e) merged)
      | _ \<Rightarrow> merged)"

definition apply_patch_to_settings :: "settings \<Rightarrow> settings \<Rightarrow> settings" where
  "apply_patch_to_settings current patch = foldl patch_category current patch"

section \<open>Audit and announcement\<close>

fun setting_json :: "setting \<Rightarrow> json" where
  "setting_json SNull = JNull"
| "setting_json (SBool b) = JBool b"
| "setting_json (SInt i) = JNum (of_int i)"
| "setting_json (SFloat x) = JNum x"
| "setting_json (SStr s) = JStr s"
| "setting_json (SDec x) = JDec x"
| "setting_json (SOther j) = j"

fun category_json :: "category \<Rightarrow> json" where
  "category_json (Fields fs) = JObj (map (\<lambda>(n, v). (n, setting_json v)) fs)"
| "category_json _ = JNull"

definition settings_json :: "settings \<Rightarrow> dict" where
  "settings_json s = map (\<lambda>(c, cat). (c, category_json cat)) s"

definition request_id_uuid :: "(string \<Rightarrow> string) \<Rightarrow> string \<Rightarrow> string" where
  "request_id_uuid name_uuid request_id =
     (case parse_uuid (strip request_id) of
        Inr u \<Rightarrow> uuid_str u | Inl _ \<Rightarrow> name_uuid (''order-management-settings:'' @ strip request_id))"

definition settings_audit_row :: "(string \<Rightarrow> string) \<Rightarrow> string \<times> string \<Rightarrow> string \<Rightarrow> string \<Rightarrow> settings \<Rightarrow> settings \<Rightarrow> string \<Rightarrow> string
    \<Rightarrow> settings_audit" where
  "settings_audit_row name_uuid actor action target before after reason request_id =
     \<lparr>su_action = action, su_target = target, su_actor = fst actor, su_trace_id = request_id_uuid name_uuid request_id,
      su_payload = redact_dict [(''actor'', JObj [(''actor_id'', JStr (fst actor)), (''role'', JStr (snd actor))]),
        (''action'', JStr action), (''target'', JStr target), (''before_state'', JObj (settings_json before)),
        (''after_state'', JObj (settings_json after)), (''reason'', JStr reason), (''request_id'', JStr request_id)],
      su_before_state = redact_dict (settings_json before), su_after_state = redact_dict (settings_json after), su_reason = reason\<rparr>"

definition record_settings_audit :: "(string \<Rightarrow> string) \<Rightarrow> settings_db \<Rightarrow> string \<times> string \<Rightarrow> string \<Rightarrow> string \<Rightarrow> settings \<Rightarrow> settings
    \<Rightarrow> string \<Rightarrow> string \<Rightarrow> settings_db" where
  "record_settings_audit name_uuid db actor action target before after reason request_id =
     db \<lparr>sd_audit := sd_audit db @ [settings_audit_row name_uuid actor action target before after reason request_id]\<rparr>"

definition publish_settings_changed :: "hash \<Rightarrow> string \<Rightarrow> instant \<Rightarrow> settings_db \<Rightarrow> string \<Rightarrow> string \<Rightarrow> int \<Rightarrow> settings \<Rightarrow> string
    \<Rightarrow> (settings_db \<times> string) result" where
  "publish_settings_changed sha fresh clock db scope key version s request_id =
     bind_result (enqueue_order_management_event sha fresh (sd_outbox db) ''order_management_settings'' (scope @ '':'' @ key)
         ''settings.changed'' request_id
         [(''scope'', JStr scope), (''scope_key'', JStr key), (''version'', JNum (of_int version)), (''settings'', JObj (settings_json s))]
         (Some request_id) clock) (\<lambda>(box, eid). Inr (db \<lparr>sd_outbox := box\<rparr>, eid))"

section \<open>The service\<close>

text \<open>What a write needs besides the settings themselves.\<close>

record settings_env =
  ev_sha :: hash
  ev_fresh :: string
  ev_clock :: instant
  ev_name_uuid :: "string \<Rightarrow> string"

record write_request =
  wq_reason :: string
  wq_request_id :: string
  wq_actor :: settings_actor
  wq_confirm :: "bool option"
  wq_operator_signoff :: "string option"

record write_result =
  wr_version :: int
  wr_previous_version :: "int option"
  wr_settings :: settings
  wr_outbox_event_id :: string

definition service_scope :: "string option \<Rightarrow> string option \<Rightarrow> settings_failure + string \<times> string" where
  "service_scope scope scope_key =
     (let scope_value = lower (strip (case scope of Some s \<Rightarrow> if s = [] then ''global'' else s | None \<Rightarrow> ''global''))
      in case canonical_scope_key scope_value scope_key of
           Inl _ \<Rightarrow> Inl (ServiceError ''invalid_scope'' [])
         | Inr key \<Rightarrow> Inr (scope_value, key))"

definition previous_of :: "current_settings \<Rightarrow> int option" where
  "previous_of cur = (if cs_version cur = 0 then None else Some (cs_version cur))"

text \<open>The common end of a write: permission, the new version, the audit record and the event, in one transaction.\<close>

definition write_version :: "settings_env \<Rightarrow> settings_db \<Rightarrow> string \<Rightarrow> string \<Rightarrow> current_settings \<Rightarrow> settings \<Rightarrow> string \<Rightarrow> write_request
    \<Rightarrow> settings_failure + settings_db \<times> write_result" where
  "write_version e db scope key cur after operation q =
     bind_result (raising (assert_can_write_settings (wq_actor q) operation (cs_settings cur) after (wq_confirm q) (wq_operator_signoff q))) (\<lambda>user.
     let version = cs_version cur + 1
     in bind_result (raising (insert_settings_version db scope key version (previous_of cur) after (fst user) (wq_reason q) (wq_request_id q))) (\<lambda>db1.
        let db2 = record_settings_audit (ev_name_uuid e) db1 user (''settings.'' @ operation) (scope @ '':'' @ key) (cs_settings cur) after
                    (wq_reason q) (wq_request_id q)
        in bind_result (raising (publish_settings_changed (ev_sha e) (ev_fresh e) (ev_clock e) db2 scope key version after (wq_request_id q)))
             (\<lambda>(db3, eid). Inr (db3, \<lparr>wr_version = version, wr_previous_version = previous_of cur, wr_settings = after,
                wr_outbox_event_id = eid\<rparr>))))"

text \<open>The commit of a patch on the reading \<open>cur\<close>.\<close>

definition patch_commit :: "settings_env \<Rightarrow> settings_db \<Rightarrow> string \<Rightarrow> string \<Rightarrow> current_settings \<Rightarrow> settings \<Rightarrow> int \<Rightarrow> write_request
    \<Rightarrow> settings_failure + settings_db \<times> write_result" where
  "patch_commit e db scope key cur normalized expected_version q =
     (if cs_version cur \<noteq> expected_version then Inl (ServiceError ''version_conflict'' [(''expected_version'', [PText ''expected '',
          PDec (of_int expected_version), PText '', current '', PDec (of_int (cs_version cur))])])
      else
        let after = apply_patch_to_settings (cs_settings cur) normalized;
            validation = validate_settings settings_descriptor True after
        in if \<not> vd_valid validation then Inl (ServiceError ''validation_failed'' (vd_errors validation))
           else write_version e db scope key cur after ''patch'' q)"

definition check_request :: "write_request \<Rightarrow> settings_failure + unit" where
  "check_request q =
     (if strip (wq_reason q) = [] then Inl (ServiceError ''reason_required'' [])
      else if strip (wq_request_id q) = [] then Inl (ServiceError ''request_id_required'' [])
      else Inr ())"

definition patch_settings :: "settings_env \<Rightarrow> settings_db \<Rightarrow> string option \<Rightarrow> string option \<Rightarrow> settings \<Rightarrow> int option \<Rightarrow> write_request
    \<Rightarrow> settings_failure + settings_db \<times> write_result" where
  "patch_settings e db scope scope_key patch expected_version q =
     (case expected_version of
        None \<Rightarrow> Inl (ServiceError ''expected_version_required'' [])
      | Some expected \<Rightarrow>
          bind_result (check_request q) (\<lambda>_.
          bind_result (service_scope scope scope_key) (\<lambda>(sc, key).
          let validation = validate_settings settings_descriptor True patch
          in if \<not> vd_valid validation then Inl (ServiceError ''validation_failed'' (vd_errors validation))
             else patch_commit e db sc key (get_current_settings db sc key) (vd_normalized validation) expected q)))"

definition rollback_commit :: "settings_env \<Rightarrow> settings_db \<Rightarrow> string \<Rightarrow> string \<Rightarrow> current_settings \<Rightarrow> version_row \<Rightarrow> int \<Rightarrow> write_request
    \<Rightarrow> settings_failure + settings_db \<times> write_result" where
  "rollback_commit e db scope key cur target expected_version q =
     (if cs_version cur \<noteq> expected_version then Inl (ServiceError ''version_conflict'' [])
      else write_version e db scope key cur (vr_settings target) ''rollback'' q)"

definition rollback_settings :: "settings_env \<Rightarrow> settings_db \<Rightarrow> string option \<Rightarrow> string option \<Rightarrow> int \<Rightarrow> int \<Rightarrow> write_request
    \<Rightarrow> settings_failure + settings_db \<times> write_result" where
  "rollback_settings e db scope scope_key target_version expected_version q =
     (if wq_confirm q \<noteq> Some True then Inl (ServiceError ''confirmation_required'' [])
      else
        bind_result (check_request q) (\<lambda>_.
        bind_result (service_scope scope scope_key) (\<lambda>(sc, key).
        case get_version db sc key target_version of
          Inl _ \<Rightarrow> Inl (ServiceError ''version_not_found'' [])
        | Inr target \<Rightarrow> rollback_commit e db sc key (get_current_settings db sc key) target expected_version q)))"

definition get_settings :: "settings_db \<Rightarrow> string option \<Rightarrow> string option \<Rightarrow> settings_failure + current_settings" where
  "get_settings db scope scope_key =
     bind_result (service_scope scope scope_key) (\<lambda>(sc, key). Inr (get_current_settings db sc key))"

definition get_effective :: "settings_db \<Rightarrow> string option \<Rightarrow> string option \<Rightarrow> (string \<times> (string \<times> resolved_setting) list) list result" where
  "get_effective db account_id instrument_id =
     resolve_effective_settings settings_descriptor (fetch_latest_settings_by_scope db) account_id instrument_id"

definition diff_versions :: "settings_db \<Rightarrow> string option \<Rightarrow> string option \<Rightarrow> int \<Rightarrow> int \<Rightarrow> settings_failure + (string \<times> setting \<times> setting) list" where
  "diff_versions db scope scope_key from_version to_version =
     bind_result (service_scope scope scope_key) (\<lambda>(sc, key).
       case (get_version db sc key from_version, get_version db sc key to_version) of
         (Inr before, Inr after) \<Rightarrow> Inr (diff_settings (vr_settings before) (vr_settings after))
       | _ \<Rightarrow> Inl (ServiceError ''version_not_found'' []))"

definition runtime_status :: "settings_db \<Rightarrow> string option \<Rightarrow> string option \<Rightarrow> settings_failure + int \<times> string" where
  "runtime_status db scope scope_key =
     bind_result (get_settings db scope scope_key) (\<lambda>cur.
       let version = cs_version cur
       in Inr (version, if version \<noteq> 0 then ''pending_ack'' else ''not_published''))"

section \<open>Export and import\<close>

definition secret_name_words :: "string list" where
  "secret_name_words = [''secret'', ''token'', ''apikey'', ''api_key'', ''api-key'', ''password'', ''credential'']"

definition secret_name :: "string \<Rightarrow> bool" where
  "secret_name n = list_ex (\<lambda>w. contains_sub w (lower n)) secret_name_words"

definition sanitize_export :: "settings \<Rightarrow> settings" where
  "sanitize_export =
     keep_fields (\<lambda>c n. \<not> secret_name n \<and> (case field_descriptor settings_descriptor c n of Inr f \<Rightarrow> \<not> sf_secret f | Inl _ \<Rightarrow> False))"

record settings_export =
  sx_environment :: string
  sx_scope :: string
  sx_scope_key :: string
  sx_version :: int
  sx_settings :: settings

definition export_settings :: "settings_db \<Rightarrow> string option \<Rightarrow> string option \<Rightarrow> string \<Rightarrow> settings_failure + settings_export" where
  "export_settings db scope scope_key environment =
     bind_result (service_scope scope scope_key) (\<lambda>(sc, key).
       let cur = get_current_settings db sc key
       in Inr \<lparr>sx_environment = environment, sx_scope = sc, sx_scope_key = key, sx_version = cs_version cur,
            sx_settings = sanitize_export (cs_settings cur)\<rparr>)"

record import_validation =
  iv_valid :: bool
  iv_errors :: "setting_error list"
  iv_warnings :: "string list"
  iv_settings :: settings

text \<open>The payload's environment and its settings, None when they are not an object.\<close>

definition validate_import_payload :: "string option \<Rightarrow> settings option \<Rightarrow> string \<Rightarrow> settings \<Rightarrow> import_validation" where
  "validate_import_payload environment s current_environment before =
     (let validation = validate_settings settings_descriptor True (case s of Some x \<Rightarrow> x | None \<Rightarrow> []);
          payload_environment = text_or_blank environment
      in \<lparr>iv_valid = vd_valid validation, iv_errors = vd_errors validation,
          iv_warnings = (if payload_environment \<noteq> [] \<and> payload_environment \<noteq> current_environment then [''environment_mismatch''] else [])
            @ (case s of Some x \<Rightarrow> if requires_live_risk_confirmation before x then [''risk_relaxation''] else [] | None \<Rightarrow> []),
          iv_settings = (if vd_valid validation then vd_normalized validation else [])\<rparr>)"

definition import_settings :: "settings_env \<Rightarrow> settings_db \<Rightarrow> string option \<Rightarrow> settings option \<Rightarrow> string \<Rightarrow> string option \<Rightarrow> string option
    \<Rightarrow> int option \<Rightarrow> write_request \<Rightarrow> settings_failure + settings_db \<times> write_result" where
  "import_settings e db environment s current_environment scope scope_key expected_version q =
     bind_result (service_scope scope scope_key) (\<lambda>(sc, key).
       let validation = validate_import_payload environment s current_environment (cs_settings (get_current_settings db sc key))
       in if \<not> iv_valid validation then Inl (ServiceError ''validation_failed'' (iv_errors validation))
          else bind_result (raising (assert_can_write_settings (wq_actor q) ''import'' [] [] None None)) (\<lambda>_.
               patch_settings e db scope scope_key (iv_settings validation) expected_version q))"

section \<open>Applying a change\<close>

record apply_item =
  ai_path :: string
  ai_before :: setting
  ai_after :: setting
  ai_apply_mode :: string

text \<open>The changed known settings with the mode that applies them; unknown ones are skipped.\<close>

definition apply_item_of :: "settings \<Rightarrow> settings \<Rightarrow> string \<Rightarrow> apply_item option" where
  "apply_item_of before after path =
     (if setting_eq (flat_value before path) (flat_value after path) then None
      else (case field_descriptor settings_descriptor (before_char (CHR ''.'') path) (after_char (CHR ''.'') path) of
              Inl _ \<Rightarrow> None
            | Inr f \<Rightarrow> map_option (\<lambda>m. \<lparr>ai_path = path, ai_before = flat_value before path, ai_after = flat_value after path, ai_apply_mode = m\<rparr>)
                          (sf_apply_mode f)))"

definition build_apply_plan :: "settings \<Rightarrow> settings \<Rightarrow> apply_item list \<times> apply_item list" where
  "build_apply_plan before after =
     (let items = List.map_filter (apply_item_of before after) (flat_paths before after)
      in (filter (\<lambda>i. ai_apply_mode i = ''hot_reload'') items, filter (\<lambda>i. ai_apply_mode i = ''restart_required'') items))"

text \<open>
  Polling for the acknowledgement: poll number \<open>i\<close> sees the version \<open>provider i\<close> and reads the clock
  \<open>clock_at (i + 1)\<close> (\<open>clock_at 0\<close> is the start). None is a poll that goes on for ever, \<open>Inl\<close> the timeout.
\<close>

partial_function (option) wait_for_ack :: "(nat \<Rightarrow> int option) \<Rightarrow> (nat \<Rightarrow> rat) \<Rightarrow> rat \<Rightarrow> int \<Rightarrow> nat \<Rightarrow> (unit + int) option" where
  "wait_for_ack provider clock_at deadline desired i =
     (case provider i of
        Some v \<Rightarrow> if desired \<le> v then Some (Inr v) else if deadline \<le> clock_at (Suc i) then Some (Inl ()) else wait_for_ack provider clock_at deadline desired (Suc i)
      | None \<Rightarrow> if deadline \<le> clock_at (Suc i) then Some (Inl ()) else wait_for_ack provider clock_at deadline desired (Suc i))"

section \<open>Validation of stored settings\<close>

lemma validate_partial_iff:
  "vd_valid (validate_settings d True s) \<longleftrightarrow> (\<forall>c \<in> set (map fst s). fst (visit_category d True s c) = [])"
  by (auto simp: validate_settings_def Let_def)

lemma visit_field_ok:
  "fst (visit_field c True known raw n) = [] \<longleftrightarrow>
    (\<exists>f. map_of known n = Some f \<and> (let v = (case map_of raw n of Some v \<Rightarrow> v | None \<Rightarrow> SNull) in v = SNull \<or> validate_value c n v f = []))"
  by (auto simp: visit_field_def Let_def split: option.splits)

text \<open>What the tables hold: objects with distinct keys, no empty category, no null, every value valid for its field.\<close>

definition stored_ok :: "settings \<Rightarrow> bool" where
  "stored_ok s \<longleftrightarrow> wf_settings s
    \<and> (\<forall>(c, cat) \<in> set s. \<exists>fs. cat = Fields fs \<and> fs \<noteq> []
        \<and> (\<forall>(n, v) \<in> set fs. v \<noteq> SNull \<and> (\<exists>f. field_descriptor settings_descriptor c n = Inr f \<and> validate_value c n v f = [])))"

lemma stored_ok_empty [simp]: "stored_ok []"
  by (simp add: stored_ok_def wf_settings_def)

lemma wf_settings_lookup: "wf_settings s \<Longrightarrow> (c, cat) \<in> set s \<longleftrightarrow> map_of s c = Some cat"
  by (auto simp: wf_settings_def dest: map_of_SomeD)

lemma wf_settings_fields: "wf_settings s \<Longrightarrow> (c, Fields fs) \<in> set s \<Longrightarrow> distinct (map fst fs)"
  by (auto simp: wf_settings_def)

text \<open>Settings without nulls and empty categories that validate may be stored.\<close>

definition shaped :: "settings \<Rightarrow> bool" where
  "shaped s \<longleftrightarrow> wf_settings s \<and> (\<forall>(c, cat) \<in> set s. \<exists>fs. cat = Fields fs \<and> fs \<noteq> [] \<and> (\<forall>(n, v) \<in> set fs. v \<noteq> SNull))"

lemma stored_shaped: "stored_ok s \<Longrightarrow> shaped s"
  unfolding stored_ok_def shaped_def by (auto 0 4)

lemma shaped_visit:
  assumes "map_of s c = Some (Fields fs)" "map_of (de_categories d) c = Some known"
  shows "visit_category d True s c =
    (concat (map (\<lambda>e. fst (visit_field c True known fs (fst e))) fs),
     if concat (map (\<lambda>e. snd (visit_field c True known fs (fst e))) fs) = [] then []
     else [(c, Fields (concat (map (\<lambda>e. snd (visit_field c True known fs (fst e))) fs)))])"
  using assms by (simp add: visit_category_def Let_def comp_def)

lemma concat_singletons: "\<forall>e \<in> set xs. g e = [e] \<Longrightarrow> concat (map g xs) = xs"
  by (induction xs) auto

lemma shaped_valid_stored:
  assumes "shaped s" "vd_valid (validate_settings settings_descriptor True s)"
  shows "stored_ok s"
proof -
  have wf: "wf_settings s" using assms(1) by (simp add: shaped_def)
  have "\<exists>fs. cat = Fields fs \<and> fs \<noteq> [] \<and> (\<forall>(n, v) \<in> set fs. v \<noteq> SNull \<and> (\<exists>f. field_descriptor settings_descriptor c n = Inr f \<and> validate_value c n v f = []))"
    if m: "(c, cat) \<in> set s" for c cat
  proof -
    obtain fs where fs: "cat = Fields fs" "fs \<noteq> []" "\<forall>(n, v) \<in> set fs. v \<noteq> SNull" using assms(1) m by (auto simp: shaped_def)
    have c: "map_of s c = Some (Fields fs)" using wf_settings_lookup[OF wf] m fs(1) by blast
    have v: "fst (visit_category settings_descriptor True s c) = []"
      using assms(2) m unfolding validate_partial_iff by force
    obtain known where k: "map_of (de_categories settings_descriptor) c = Some known"
      using v by (auto simp: visit_category_def split: option.splits)
    have all: "fst (visit_field c True known fs n) = []" if "n \<in> set (map fst fs)" for n
      using v that unfolding shaped_visit[OF c k] by auto
    have "\<exists>f. field_descriptor settings_descriptor c n = Inr f \<and> validate_value c n v f = []" if "(n, v) \<in> set fs" for n v
    proof -
      have "map_of fs n = Some v" using wf_settings_fields[OF wf] m fs(1) that by simp
      moreover have "v \<noteq> SNull" using fs(3) that by auto
      moreover have "fst (visit_field c True known fs n) = []" using all that by force
      ultimately show ?thesis unfolding visit_field_ok by (auto simp: field_descriptor_def k)
    qed
    with fs show ?thesis by auto
  qed
  with wf show ?thesis by (auto simp: stored_ok_def)
qed

lemma stored_normalizes:
  assumes "stored_ok s"
  shows "vd_valid (validate_settings settings_descriptor True s)" "vd_normalized (validate_settings settings_descriptor True s) = s"
proof -
  have wf: "wf_settings s" using assms by (simp add: stored_ok_def)
  have visit: "visit_category settings_descriptor True s c = ([], [(c, cat)])" if m: "(c, cat) \<in> set s" for c cat
  proof -
    obtain fs where fs: "cat = Fields fs" "fs \<noteq> []"
      "\<forall>(n, v) \<in> set fs. v \<noteq> SNull \<and> (\<exists>f. field_descriptor settings_descriptor c n = Inr f \<and> validate_value c n v f = [])"
      using assms m unfolding stored_ok_def by blast
    have c: "map_of s c = Some (Fields fs)" using wf_settings_lookup[OF wf] m fs(1) by blast
    have d: "distinct (map fst fs)" using wf_settings_fields[OF wf] m fs(1) by blast
    obtain known where k: "map_of (de_categories settings_descriptor) c = Some known"
      using fs(2,3) by (cases fs) (auto simp: field_descriptor_def split: option.splits)
    have one: "visit_field c True known fs (fst e) = ([], [e])" if "e \<in> set fs" for e
    proof -
      obtain n v where e: "e = (n, v)" by (cases e)
      have "map_of fs n = Some v" using d that e by simp
      then show ?thesis using fs(3) that by (auto simp: visit_field_def field_descriptor_def k e Let_def split: option.splits)
    qed
    then have "concat (map (\<lambda>e. fst (visit_field c True known fs (fst e))) fs) = []"
      "concat (map (\<lambda>e. snd (visit_field c True known fs (fst e))) fs) = fs"
      by (simp_all add: concat_singletons)
    then show ?thesis using fs(2) unfolding shaped_visit[OF c k] fs(1) by simp
  qed
  then have v: "map (visit_category settings_descriptor True s) (map fst s) = map (\<lambda>e. ([], [e])) s"
    by auto
  then show "vd_valid (validate_settings settings_descriptor True s)" by (simp add: validate_settings_def Let_def comp_def)
  show "vd_normalized (validate_settings settings_descriptor True s) = s"
    using v by (simp add: validate_settings_def Let_def comp_def concat_singletons)
qed

section \<open>Patches\<close>

lemma foldl_invariant: "P a \<Longrightarrow> (\<And>a x. P a \<Longrightarrow> x \<in> set xs \<Longrightarrow> P (f a x)) \<Longrightarrow> P (foldl f a xs)"
  by (induction xs arbitrary: a) auto

lemma update_mem: "(k, v) \<in> set (AList.update n x xs) \<Longrightarrow> (k, v) \<in> set xs \<or> k = n \<and> v = x"
  by (induction xs) (auto split: if_splits)

lemma delete_mem: "(k, v) \<in> set (AList.delete n xs) \<Longrightarrow> (k, v) \<in> set xs \<and> k \<noteq> n"
  by (auto simp: AList.delete_eq)

lemma patched_fields:
  assumes "distinct (map fst ts)" "\<forall>(n, v) \<in> set ts. v \<noteq> SNull"
  shows "distinct (map fst (foldl patch_field ts fs)) \<and> (\<forall>(n, v) \<in> set (foldl patch_field ts fs). v \<noteq> SNull)"
proof (rule foldl_invariant)
  fix a :: fields and x :: "string \<times> setting"
  assume a: "distinct (map fst a) \<and> (\<forall>(n, v) \<in> set a. v \<noteq> SNull)"
  then show "distinct (map fst (patch_field a x)) \<and> (\<forall>(n, v) \<in> set (patch_field a x). v \<noteq> SNull)"
    by (auto simp: patch_field_def distinct_update distinct_delete dest!: update_mem delete_mem)
qed (use assms in blast)

lemma shaped_update:
  assumes "shaped s" "fs \<noteq> []" "distinct (map fst fs)" "\<forall>(n, v) \<in> set fs. v \<noteq> SNull"
  shows "shaped (AList.update c (Fields fs) s)"
  using assms unfolding shaped_def wf_settings_def
  by (auto simp: distinct_update dest!: update_mem split: category.splits)

lemma shaped_delete: "shaped s \<Longrightarrow> shaped (AList.delete c s)"
  unfolding shaped_def wf_settings_def by (auto simp: distinct_delete dest!: delete_mem)

lemma patched_shaped:
  assumes "shaped s"
  shows "shaped (apply_patch_to_settings s patch)"
  unfolding apply_patch_to_settings_def
proof (rule foldl_invariant[where P = shaped, OF assms])
  fix a :: settings and e :: "string \<times> category"
  assume a: "shaped a"
  show "shaped (patch_category a e)"
  proof (cases "snd e")
    case (Fields fs)
    let ?ts = "case map_of a (fst e) of Some (Fields ts) \<Rightarrow> ts | _ \<Rightarrow> []"
    have "distinct (map fst ?ts) \<and> (\<forall>(n, v) \<in> set ?ts. v \<noteq> SNull)"
    proof (cases "map_of a (fst e)")
      case (Some cat)
      then have m: "(fst e, cat) \<in> set a" by (rule map_of_SomeD)
      then obtain ts where ts: "cat = Fields ts" "\<forall>(n, v) \<in> set ts. v \<noteq> SNull" using a by (auto simp: shaped_def)
      moreover have "distinct (map fst ts)" using a m wf_settings_fields ts(1) unfolding shaped_def by blast
      ultimately show ?thesis using Some by simp
    qed simp
    then have "distinct (map fst (foldl patch_field ?ts fs))" "\<forall>(n, v) \<in> set (foldl patch_field ?ts fs). v \<noteq> SNull"
      using patched_fields by blast+
    then show ?thesis using Fields a by (auto simp: patch_category_def Let_def intro: shaped_update shaped_delete)
  qed (simp_all add: patch_category_def a)
qed

lemma update_new: "k \<notin> fst ` set xs \<Longrightarrow> AList.update k v xs = xs @ [(k, v)]"
  by (induction xs) auto

lemma patch_fields_new:
  assumes "distinct (map fst (ts @ fs))" "\<forall>(n, v) \<in> set fs. v \<noteq> SNull"
  shows "foldl patch_field ts fs = ts @ fs"
  using assms
proof (induction fs arbitrary: ts)
  case (Cons e fs)
  then have "patch_field ts e = ts @ [e]" by (cases e) (auto simp: patch_field_def update_new)
  then show ?case using Cons.IH[of "ts @ [e]"] Cons.prems by simp
qed simp

text \<open>Patching nothing with settings in their stored shape gives those settings.\<close>

lemma patch_onto_empty:
  assumes "shaped s"
  shows "apply_patch_to_settings [] s = s"
proof -
  have "foldl patch_category xs ys = xs @ ys" if "shaped (xs @ ys)" for xs ys
    using that
  proof (induction ys arbitrary: xs)
    case (Cons e ys)
    obtain c cat where e: "e = (c, cat)" by (cases e)
    obtain fs where fs: "cat = Fields fs" "fs \<noteq> []" "\<forall>(n, v) \<in> set fs. v \<noteq> SNull"
      using Cons.prems by (auto simp: shaped_def e)
    have d: "distinct (map fst fs)" using Cons.prems by (auto simp: shaped_def wf_settings_def e fs(1))
    have new: "c \<notin> fst ` set xs" using Cons.prems by (auto simp: shaped_def wf_settings_def e)
    then have "map_of xs c = None" by (simp add: map_of_eq_None_iff)
    then have "patch_category xs e = xs @ [e]"
      using fs d new patch_fields_new[of "[]" fs] by (simp add: patch_category_def e update_new Let_def)
    then show ?case using Cons.IH[of "xs @ [e]"] Cons.prems by simp
  qed simp
  from this[of "[]" s] assms show ?thesis by (simp add: apply_patch_to_settings_def)
qed

section \<open>Interleaved transactions\<close>

text \<open>
  The versions of every scope count from one without gaps, in the order in which they were written; the history table
  repeats them with their predecessor, and the audit has the redacted state after each write.
\<close>

definition history_row :: "settings_row \<Rightarrow> version_row" where
  "history_row r = \<lparr>vr_scope = sr_scope r, vr_scope_key = sr_scope_key r, vr_version = sr_version r,
     vr_previous_version = (if sr_version r = 1 then None else Some (sr_version r - 1)), vr_settings = sr_settings r,
     vr_changed_by = sr_created_by r, vr_reason = sr_reason r, vr_request_id = sr_request_id r\<rparr>"

definition counted :: "settings_db \<Rightarrow> bool" where
  "counted db \<longleftrightarrow> (\<forall>scope key. map sr_version (scope_rows db scope key) = map int [1..<Suc (length (scope_rows db scope key))])
    \<and> sd_versions db = map history_row (sd_rows db)"

definition settings_ok :: "settings_db \<Rightarrow> bool" where
  "settings_ok db \<longleftrightarrow> counted db
    \<and> (\<forall>r \<in> set (sd_rows db). stored_ok (sr_settings r) \<and> strip (sr_reason r) \<noteq> [] \<and> strip (sr_request_id r) \<noteq> [] \<and> sr_created_by r \<noteq> [])
    \<and> map su_after_state (sd_audit db) = map (\<lambda>r. redact_dict (settings_json (sr_settings r))) (sd_rows db)"

text \<open>The reading of version \<open>v\<close> of a scope.\<close>

definition version_of :: "settings_db \<Rightarrow> string \<Rightarrow> string \<Rightarrow> nat \<Rightarrow> current_settings" where
  "version_of db scope key v = \<lparr>cs_version = int v, cs_settings = (if v = 0 then [] else sr_settings (scope_rows db scope key ! (v - 1)))\<rparr>"

type_synonym settings_reading = "(string \<times> string) \<times> current_settings"

text \<open>A state of the running service: the tables, and the readings of the transactions that are under way.\<close>

inductive settings_step :: "settings_db \<times> settings_reading list \<Rightarrow> settings_db \<times> settings_reading list \<Rightarrow> bool" where
  read: "settings_step (db, rs) (db, ((scope, key), get_current_settings db scope key) # rs)"
| patch: "((scope, key), cur) \<in> set rs \<Longrightarrow> check_request q = Inr () \<Longrightarrow> wf_settings p
    \<Longrightarrow> vd_valid (validate_settings settings_descriptor True p)
    \<Longrightarrow> patch_commit e db scope key cur (vd_normalized (validate_settings settings_descriptor True p)) expected q = Inr (db', res)
    \<Longrightarrow> settings_step (db, rs) (db', rs)"
| rollback: "((scope, key), cur) \<in> set rs \<Longrightarrow> check_request q = Inr () \<Longrightarrow> target \<in> set (sd_versions db)
    \<Longrightarrow> vr_scope target = scope \<Longrightarrow> vr_scope_key target = key
    \<Longrightarrow> rollback_commit e db scope key cur target expected q = Inr (db', res) \<Longrightarrow> settings_step (db, rs) (db', rs)"

inductive_cases settings_stepE: "settings_step (db, rs) s'"

definition empty_settings :: settings_db where
  "empty_settings = \<lparr>sd_rows = [], sd_versions = [], sd_audit = [], sd_outbox = []\<rparr>"

lemma sort_versions:
  assumes "map sr_version rs = map int [a..<b]"
  shows "sort_key (\<lambda>r. - sr_version r) rs = rev rs"
proof (rule sort_key_inj_key_eq)
  show "mset rs = mset (rev rs)" by simp
  have v: "sr_version (rs ! i) = int (a + i)" if "i < length rs" for i
  proof -
    have "sr_version (rs ! i) = map int [a..<b] ! i" using that assms by (metis nth_map)
    moreover have "i < b - a" using that assms by (metis diff_is_0_eq' length_map length_upt)
    ultimately show ?thesis by simp
  qed
  show "inj_on (\<lambda>r. - sr_version r) (set rs)"
  proof (rule inj_onI)
    fix x y assume "x \<in> set rs" "y \<in> set rs" "- sr_version x = - sr_version y"
    then show "x = y" using v by (metis add.inverse_inverse add_left_imp_eq in_set_conv_nth of_nat_eq_iff)
  qed
  show "sorted (map (\<lambda>r. - sr_version r) (rev rs))"
    unfolding sorted_iff_nth_mono_less using v by (auto simp: rev_nth)
qed

lemma newest_is_last:
  assumes "counted db"
  shows "newest_row db scope key = (if scope_rows db scope key = [] then None else Some (last (scope_rows db scope key)))"
proof -
  have "sort_key (\<lambda>r. - sr_version r) (scope_rows db scope key) = rev (scope_rows db scope key)"
    using assms sort_versions unfolding counted_def by blast
  then show ?thesis by (cases "scope_rows db scope key" rule: rev_cases) (simp_all add: newest_row_def)
qed

lemma scope_version_nth:
  assumes "counted db" "i < length (scope_rows db scope key)"
  shows "sr_version (scope_rows db scope key ! i) = int (Suc i)"
proof -
  have "map sr_version (scope_rows db scope key) ! i = map int [1..<Suc (length (scope_rows db scope key))] ! i"
    using assms(1) unfolding counted_def by simp
  with assms(2) show ?thesis by (simp del: upt_Suc)
qed

lemma current_is_version_of:
  assumes "counted db"
  shows "get_current_settings db scope key = version_of db scope key (length (scope_rows db scope key))"
proof (cases "scope_rows db scope key = []")
  case False
  then have l: "last (scope_rows db scope key) = scope_rows db scope key ! (length (scope_rows db scope key) - 1)"
    by (simp add: last_conv_nth)
  with False scope_version_nth[OF assms, of "length (scope_rows db scope key) - 1" scope key] show ?thesis
    by (simp add: get_current_settings_def newest_is_last[OF assms] version_of_def)
qed (simp add: get_current_settings_def newest_is_last[OF assms] version_of_def)

lemma raising_Inr [simp]: "raising r = Inr x \<longleftrightarrow> r = Inr x"
  by (cases r) (auto simp: raising_def)

definition new_row :: "string \<Rightarrow> string \<Rightarrow> current_settings \<Rightarrow> settings \<Rightarrow> string \<Rightarrow> write_request \<Rightarrow> settings_row" where
  "new_row scope key cur after user q = \<lparr>sr_scope = scope, sr_scope_key = key, sr_version = cs_version cur + 1, sr_settings = after,
     sr_created_by = user, sr_reason = wq_reason q, sr_request_id = wq_request_id q\<rparr>"

lemma write_version_Inr:
  assumes "write_version e db scope key cur after operation q = Inr (db', res)"
  shows "\<exists>user. assert_can_write_settings (wq_actor q) operation (cs_settings cur) after (wq_confirm q) (wq_operator_signoff q) = Inr user
    \<and> sd_rows db' = sd_rows db @ [new_row scope key cur after (fst user) q]
    \<and> sd_versions db' = sd_versions db @ [history_row (new_row scope key cur after (fst user) q)]
    \<and> map su_after_state (sd_audit db') = map su_after_state (sd_audit db) @ [redact_dict (settings_json after)]
    \<and> (\<forall>r \<in> set (sd_rows db). \<not> (sr_scope r = scope \<and> sr_scope_key r = key \<and> sr_version r = cs_version cur + 1))
    \<and> enqueue_order_management_event (ev_sha e) (ev_fresh e) (sd_outbox db) ''order_management_settings'' (scope @ '':'' @ key)
         ''settings.changed'' (wq_request_id q)
         [(''scope'', JStr scope), (''scope_key'', JStr key), (''version'', JNum (of_int (cs_version cur + 1))), (''settings'', JObj (settings_json after))]
         (Some (wq_request_id q)) (ev_clock e) = Inr (sd_outbox db', wr_outbox_event_id res)
    \<and> wr_version res = cs_version cur + 1 \<and> wr_settings res = after \<and> 0 < cs_version cur + 1"
proof -
  obtain user db1 where user: "assert_can_write_settings (wq_actor q) operation (cs_settings cur) after (wq_confirm q) (wq_operator_signoff q) = Inr user"
    and ins: "insert_settings_version db scope key (cs_version cur + 1) (previous_of cur) after (fst user) (wq_reason q) (wq_request_id q) = Inr db1"
    and pub: "bind_result (raising (publish_settings_changed (ev_sha e) (ev_fresh e) (ev_clock e)
        (record_settings_audit (ev_name_uuid e) db1 user (''settings.'' @ operation) (scope @ '':'' @ key) (cs_settings cur) after (wq_reason q) (wq_request_id q))
        scope key (cs_version cur + 1) after (wq_request_id q)))
      (\<lambda>(db3, eid). Inr (db3, \<lparr>wr_version = cs_version cur + 1, wr_previous_version = previous_of cur, wr_settings = after, wr_outbox_event_id = eid\<rparr>))
      = Inr (db', res)"
    using assms unfolding write_version_def Let_def bind_result_Inr_iff by auto
  have db1: "db1 = db \<lparr>sd_rows := sd_rows db @ [new_row scope key cur after (fst user) q],
      sd_versions := sd_versions db @ [\<lparr>vr_scope = scope, vr_scope_key = key, vr_version = cs_version cur + 1,
        vr_previous_version = previous_of cur, vr_settings = after, vr_changed_by = fst user, vr_reason = wq_reason q, vr_request_id = wq_request_id q\<rparr>]\<rparr>"
    and free: "\<forall>r \<in> set (sd_rows db). \<not> (sr_scope r = scope \<and> sr_scope_key r = key \<and> sr_version r = cs_version cur + 1)" "0 < cs_version cur + 1"
    using ins by (auto simp: insert_settings_version_def new_row_def list_ex_iff split: if_splits)
  have h: "\<lparr>vr_scope = scope, vr_scope_key = key, vr_version = cs_version cur + 1, vr_previous_version = previous_of cur, vr_settings = after,
      vr_changed_by = fst user, vr_reason = wq_reason q, vr_request_id = wq_request_id q\<rparr> = history_row (new_row scope key cur after (fst user) q)"
    by (simp add: history_row_def new_row_def previous_of_def)
  show ?thesis
    using user pub free unfolding publish_settings_changed_def db1 h
    by (auto simp: bind_result_Inr_iff record_settings_audit_def settings_audit_row_def)
qed

lemma scope_rows_write:
  assumes "sd_rows db' = sd_rows db @ [new_row scope key cur after user q]"
  shows "scope_rows db' sc k = scope_rows db sc k @ (if sc = scope \<and> k = key then [new_row scope key cur after user q] else [])"
  using assms by (auto simp: scope_rows_def new_row_def)

text \<open>A reading that is still that of some version can be written on only when that version is the newest.\<close>

lemma stale_write_refused:
  assumes "counted db" "cur = version_of db scope key v" "v \<le> length (scope_rows db scope key)"
    "write_version e db scope key cur after operation q = Inr (db', res)"
  shows "v = length (scope_rows db scope key)"
proof (rule ccontr)
  assume "v \<noteq> length (scope_rows db scope key)"
  then have l: "v < length (scope_rows db scope key)" using assms(3) by simp
  then have "scope_rows db scope key ! v \<in> set (scope_rows db scope key)" by simp
  then have "scope_rows db scope key ! v \<in> set (sd_rows db)" "sr_scope (scope_rows db scope key ! v) = scope"
    "sr_scope_key (scope_rows db scope key ! v) = key" by (simp_all add: scope_rows_def)
  moreover have "sr_version (scope_rows db scope key ! v) = cs_version cur + 1"
    using scope_version_nth[OF assms(1) l] by (simp add: assms(2) version_of_def)
  ultimately show False using write_version_Inr[OF assms(4)] by blast
qed

lemma write_keeps_counted:
  assumes "counted db" "cur = version_of db scope key (length (scope_rows db scope key))"
    "write_version e db scope key cur after operation q = Inr (db', res)"
  shows "counted db'" "get_current_settings db' scope key = \<lparr>cs_version = cs_version cur + 1, cs_settings = after\<rparr>"
    "(sc, k) \<noteq> (scope, key) \<Longrightarrow> get_current_settings db' sc k = get_current_settings db sc k"
proof -
  obtain user where w: "sd_rows db' = sd_rows db @ [new_row scope key cur after user q]"
    "sd_versions db' = sd_versions db @ [history_row (new_row scope key cur after user q)]"
    using write_version_Inr[OF assms(3)] by blast
  note rows = scope_rows_write[OF w(1)]
  have "map sr_version (scope_rows db' sc k) = map int [1..<Suc (length (scope_rows db' sc k))]" for sc k
  proof -
    have "map sr_version (scope_rows db sc k) = map int [1..<Suc (length (scope_rows db sc k))]"
      using assms(1) by (simp add: counted_def)
    then show ?thesis unfolding rows by (simp add: new_row_def assms(2) version_of_def)
  qed
  then show c: "counted db'" using assms(1) w by (simp add: counted_def)
  show "get_current_settings db' scope key = \<lparr>cs_version = cs_version cur + 1, cs_settings = after\<rparr>"
    unfolding current_is_version_of[OF c] version_of_def rows by (simp add: new_row_def assms(2) version_of_def nth_append)
  show "get_current_settings db' sc k = get_current_settings db sc k" if "(sc, k) \<noteq> (scope, key)"
    using that unfolding current_is_version_of[OF c] current_is_version_of[OF assms(1)] version_of_def rows by auto
qed

lemma version_of_write:
  assumes "sd_rows db' = sd_rows db @ [new_row scope key cur after user q]" "v \<le> length (scope_rows db sc k)"
  shows "version_of db' sc k v = version_of db sc k v" "v \<le> length (scope_rows db' sc k)"
  using assms(2) unfolding version_of_def scope_rows_write[OF assms(1)] by (auto simp: nth_append)

definition run_ok :: "settings_db \<times> settings_reading list \<Rightarrow> bool" where
  "run_ok s \<longleftrightarrow> settings_ok (fst s)
    \<and> (\<forall>((scope, key), cur) \<in> set (snd s). \<exists>v \<le> length (scope_rows (fst s) scope key). cur = version_of (fst s) scope key v)"

lemma actor_named:
  assumes "assert_can_write_settings actor operation before after confirm signoff = Inr user"
  shows "fst user \<noteq> [] \<and> has_settings_permission (snd user) operation
    \<and> (requires_live_risk_confirmation before after \<longrightarrow> confirm = Some True \<and> text_or_blank signoff \<noteq> [])"
  using assms by (auto simp: assert_can_write_settings_def Let_def split: if_splits)

text \<open>One write on a reading of the run keeps the run in order.\<close>

lemma write_step_ok:
  assumes run: "run_ok (db, rs)" and cur: "((scope, key), cur) \<in> set rs"
    and w: "write_version e db scope key cur after operation q = Inr (db', res)"
    and after: "stored_ok after" and q: "check_request q = Inr ()"
  shows "run_ok (db', rs) \<and> get_current_settings db scope key = cur"
proof -
  have ok: "settings_ok db" and c: "counted db" using run by (auto simp: run_ok_def settings_ok_def)
  obtain v where v: "v \<le> length (scope_rows db scope key)" "cur = version_of db scope key v" using run cur by (force simp: run_ok_def)
  have new: "cur = version_of db scope key (length (scope_rows db scope key))" using stale_write_refused[OF c v(2,1) w] v(2) by simp
  obtain user where as: "assert_can_write_settings (wq_actor q) operation (cs_settings cur) after (wq_confirm q) (wq_operator_signoff q) = Inr user"
    and rows: "sd_rows db' = sd_rows db @ [new_row scope key cur after (fst user) q]"
    and audit: "map su_after_state (sd_audit db') = map su_after_state (sd_audit db) @ [redact_dict (settings_json after)]"
    using write_version_Inr[OF w] by blast
  have u: "fst user \<noteq> []" using actor_named[OF as] by blast
  have "strip (wq_reason q) \<noteq> []" "strip (wq_request_id q) \<noteq> []" using q by (auto simp: check_request_def split: if_splits)
  then have "settings_ok db'"
    using ok write_keeps_counted(1)[OF c new w] u after audit
    by (auto simp: settings_ok_def rows new_row_def)
  moreover have "\<exists>v \<le> length (scope_rows db' sc k). x = version_of db' sc k v" if "((sc, k), x) \<in> set rs" for sc k x
  proof -
    obtain v where "v \<le> length (scope_rows db sc k)" "x = version_of db sc k v" using run \<open>((sc, k), x) \<in> set rs\<close> by (force simp: run_ok_def)
    then show ?thesis using version_of_write[OF rows] by metis
  qed
  ultimately show ?thesis using new current_is_version_of[OF c] by (auto simp: run_ok_def)
qed

lemma patch_commit_Inr:
  assumes "patch_commit e db scope key cur normalized expected q = Inr (db', res)"
  shows "cs_version cur = expected \<and> vd_valid (validate_settings settings_descriptor True (apply_patch_to_settings (cs_settings cur) normalized))
    \<and> write_version e db scope key cur (apply_patch_to_settings (cs_settings cur) normalized) ''patch'' q = Inr (db', res)"
  using assms by (auto simp: patch_commit_def Let_def split: if_splits)

lemma reading_stored:
  assumes "run_ok (db, rs)" "((scope, key), cur) \<in> set rs"
  shows "stored_ok (cs_settings cur)"
proof -
  obtain v where v: "v \<le> length (scope_rows db scope key)" "cur = version_of db scope key v" using assms by (force simp: run_ok_def)
  show ?thesis
  proof (cases v)
    case (Suc i)
    then have "scope_rows db scope key ! i \<in> set (sd_rows db)" using v(1) nth_mem[of i "scope_rows db scope key"] by (auto simp: scope_rows_def)
    with assms(1) v(2) Suc show ?thesis by (simp add: version_of_def run_ok_def settings_ok_def)
  qed (simp add: v(2) version_of_def)
qed

lemma settings_step_ok:
  assumes "settings_step s s'" "run_ok s"
  shows "run_ok s'"
  using assms
proof (induction rule: settings_step.induct)
  case (read db rs scope key)
  then have "counted db" by (simp add: run_ok_def settings_ok_def)
  with read current_is_version_of show ?case by (auto simp: run_ok_def)
next
  case (patch scope key cur rs q p e db expected db' res)
  note w = patch_commit_Inr[OF patch.hyps(5)]
  have "stored_ok (apply_patch_to_settings (cs_settings cur) (vd_normalized (validate_settings settings_descriptor True p)))"
    using shaped_valid_stored[OF patched_shaped[OF stored_shaped[OF reading_stored[OF patch.prems patch.hyps(1)]]]] w by blast
  with write_step_ok[OF patch.prems patch.hyps(1)] w patch.hyps(2) show ?case by blast
next
  case (rollback scope key cur rs q target db e expected db' res)
  have w: "write_version e db scope key cur (vr_settings target) ''rollback'' q = Inr (db', res)"
    using rollback.hyps(6) by (simp add: rollback_commit_def split: if_splits)
  have "stored_ok (vr_settings target)"
    using rollback.hyps(3) rollback.prems by (auto simp: run_ok_def settings_ok_def counted_def history_row_def)
  with write_step_ok[OF rollback.prems rollback.hyps(1) w] rollback.hyps(2) show ?case by blast
qed

interpretation settings_run: invariant_store "(empty_settings, [])" settings_step run_ok
proof
  show "run_ok (empty_settings, [])"
    by (simp add: run_ok_def settings_ok_def counted_def empty_settings_def scope_rows_def)
  show "\<And>s s'. run_ok s \<Longrightarrow> settings_step s s' \<Longrightarrow> run_ok s'" using settings_step_ok by blast
qed

text \<open>
  C34. No update is lost. Whatever transactions read and commit in between, a patch commits only if the version it
  read is still the newest of its scope; it then becomes the next version, the current settings are the
  patch applied to what was read, and the other scopes are untouched. A transaction that was overtaken runs into the
  unique constraint.
\<close>

theorem settings_no_lost_update:
  assumes "settings_step\<^sup>*\<^sup>* (empty_settings, []) (db, rs)" "((scope, key), cur) \<in> set rs" "check_request q = Inr ()"
    "patch_commit e db scope key cur normalized expected q = Inr (db', res)"
  shows "get_current_settings db scope key = cur \<and> expected = cs_version cur
    \<and> get_current_settings db' scope key = \<lparr>cs_version = cs_version cur + 1, cs_settings = apply_patch_to_settings (cs_settings cur) normalized\<rparr>
    \<and> (\<forall>sc k. (sc, k) \<noteq> (scope, key) \<longrightarrow> get_current_settings db' sc k = get_current_settings db sc k)"
proof -
  have run: "run_ok (db, rs)" by (rule settings_run.reachable_inv[OF assms(1)])
  then have c: "counted db" by (simp add: run_ok_def settings_ok_def)
  note w = patch_commit_Inr[OF assms(4)]
  have "stored_ok (apply_patch_to_settings (cs_settings cur) normalized)"
    using shaped_valid_stored[OF patched_shaped[OF stored_shaped[OF reading_stored[OF run assms(2)]]]] w by blast
  then have now: "get_current_settings db scope key = cur" using write_step_ok[OF run assms(2)] w assms(3) by blast
  then have cur: "cur = version_of db scope key (length (scope_rows db scope key))" using current_is_version_of[OF c] by simp
  show ?thesis using write_keeps_counted(2,3)[OF c cur] w now by blast
qed

text \<open>
  C35. In every reachable state the stored settings are well typed: each version of each scope holds only known
  fields, each with a value of its type and within its bounds, no nulls and no empty categories. The versions of a scope
  count from one without a gap, the history table repeats each with its predecessor, every version names its author, reason
  and request, and the audit has the redacted state of each write in order.
\<close>

theorem stored_settings_well_typed:
  assumes "settings_step\<^sup>*\<^sup>* (empty_settings, []) (db, rs)"
  shows "(\<forall>r \<in> set (sd_rows db). wf_settings (sr_settings r) \<and> strip (sr_reason r) \<noteq> [] \<and> strip (sr_request_id r) \<noteq> [] \<and> sr_created_by r \<noteq> []
      \<and> (\<forall>(c, cat) \<in> set (sr_settings r). \<exists>fs. cat = Fields fs \<and> fs \<noteq> []
          \<and> (\<forall>(n, v) \<in> set fs. v \<noteq> SNull \<and> (\<exists>f. field_descriptor settings_descriptor c n = Inr f \<and> validate_value c n v f = []))))
    \<and> (\<forall>scope key. map sr_version (scope_rows db scope key) = map int [1..<Suc (length (scope_rows db scope key))])
    \<and> sd_versions db = map history_row (sd_rows db)
    \<and> map su_after_state (sd_audit db) = map (\<lambda>r. redact_dict (settings_json (sr_settings r))) (sd_rows db)"
  using settings_run.reachable_inv[OF assms] by (auto simp: run_ok_def settings_ok_def counted_def stored_ok_def simp del: upt_Suc)

text \<open>The operations of the service are runs of the interleaved system: a reading followed by its commit.\<close>

lemma patch_settings_runs:
  assumes "patch_settings e db scope scope_key p expected q = Inr (db', res)" "wf_settings p"
  shows "\<exists>rs'. settings_step\<^sup>*\<^sup>* (db, rs) (db', rs')"
proof -
  obtain x sc key where x: "expected = Some x" and q: "check_request q = Inr ()"
    and valid: "vd_valid (validate_settings settings_descriptor True p)"
    and c: "patch_commit e db sc key (get_current_settings db sc key) (vd_normalized (validate_settings settings_descriptor True p)) x q = Inr (db', res)"
    using assms(1) by (auto simp: patch_settings_def bind_result_Inr_iff Let_def split: option.splits if_splits)
  have r: "settings_step (db, rs) (db, ((sc, key), get_current_settings db sc key) # rs)" by (rule settings_step.read)
  have "settings_step (db, ((sc, key), get_current_settings db sc key) # rs) (db', ((sc, key), get_current_settings db sc key) # rs)"
    by (rule settings_step.patch[OF _ q assms(2) valid c]) simp
  with r show ?thesis by (meson converse_rtranclp_into_rtranclp r_into_rtranclp)
qed

lemma rollback_settings_runs:
  assumes "rollback_settings e db scope scope_key target_version expected q = Inr (db', res)"
  shows "\<exists>rs'. settings_step\<^sup>*\<^sup>* (db, rs) (db', rs')"
proof -
  obtain sc key where q: "check_request q = Inr ()"
    and v: "(case get_version db sc key target_version of Inl _ \<Rightarrow> Inl (ServiceError ''version_not_found'' [])
      | Inr target \<Rightarrow> rollback_commit e db sc key (get_current_settings db sc key) target expected q) = Inr (db', res)"
    using assms(1) by (auto simp: rollback_settings_def bind_result_Inr_iff split: if_splits)
  obtain target where t: "get_version db sc key target_version = Inr target"
    and c: "rollback_commit e db sc key (get_current_settings db sc key) target expected q = Inr (db', res)"
    using v by (cases "get_version db sc key target_version") auto
  from t have m: "target \<in> set (sd_versions db)" "vr_scope target = sc" "vr_scope_key target = key"
    by (auto simp: get_version_def split: option.splits dest!: find_SomeD)
  have r: "settings_step (db, rs) (db, ((sc, key), get_current_settings db sc key) # rs)" by (rule settings_step.read)
  have "settings_step (db, ((sc, key), get_current_settings db sc key) # rs) (db', ((sc, key), get_current_settings db sc key) # rs)"
    by (rule settings_step.rollback[OF _ q m c]) simp
  with r show ?thesis by (meson converse_rtranclp_into_rtranclp r_into_rtranclp)
qed

section \<open>Authority\<close>

lemma patch_settings_Inr:
  assumes "patch_settings e db scope scope_key p expected q = Inr (db', res)"
  shows "\<exists>sc key. service_scope scope scope_key = Inr (sc, key) \<and> check_request q = Inr ()
    \<and> vd_valid (validate_settings settings_descriptor True p)
    \<and> (\<exists>x. expected = Some x \<and> patch_commit e db sc key (get_current_settings db sc key)
         (vd_normalized (validate_settings settings_descriptor True p)) x q = Inr (db', res))"
  using assms by (auto simp: patch_settings_def bind_result_Inr_iff Let_def split: option.splits if_splits)


text \<open>When a write goes through.\<close>

lemma enqueue_succeeds:
  assumes "strip r \<noteq> []"
  shows "\<exists>box' i. enqueue_order_management_event sha fresh box ty aid ''settings.changed'' key payload (Some r) clock = Inr (box', i)"
proof -
  obtain p where "outbox_payload sha fresh ty aid key payload (Some r) = Inr p" using assms outbox_payload_Inr by blast
  then show ?thesis by (simp add: enqueue_order_management_event_def outbox_event_type_ok_def Let_def)
qed

lemma write_version_succeeds:
  assumes "assert_can_write_settings (wq_actor q) operation (cs_settings cur) after (wq_confirm q) (wq_operator_signoff q) = Inr user"
    "\<forall>r \<in> set (sd_rows db). \<not> (sr_scope r = scope \<and> sr_scope_key r = key)" "\<forall>r \<in> set (sd_versions db). \<not> (vr_scope r = scope \<and> vr_scope_key r = key)"
    "0 \<le> cs_version cur" "strip (wq_request_id q) \<noteq> []"
  shows "\<exists>db' res. write_version e db scope key cur after operation q = Inr (db', res)"
proof -
  have i: "\<exists>db1. insert_settings_version db scope key (cs_version cur + 1) (previous_of cur) after (fst user) (wq_reason q) (wq_request_id q) = Inr db1"
    using assms(2-4) by (auto simp: insert_settings_version_def list_ex_iff)
  then obtain db1 where db1: "insert_settings_version db scope key (cs_version cur + 1) (previous_of cur) after (fst user) (wq_reason q) (wq_request_id q) = Inr db1"
    by blast
  let ?db2 = "record_settings_audit (ev_name_uuid e) db1 user (''settings.'' @ operation) (scope @ '':'' @ key) (cs_settings cur) after (wq_reason q) (wq_request_id q)"
  obtain box eid where "enqueue_order_management_event (ev_sha e) (ev_fresh e) (sd_outbox ?db2) ''order_management_settings'' (scope @ '':'' @ key)
      ''settings.changed'' (wq_request_id q)
      [(''scope'', JStr scope), (''scope_key'', JStr key), (''version'', JNum (of_int (cs_version cur + 1))), (''settings'', JObj (settings_json after))]
      (Some (wq_request_id q)) (ev_clock e) = Inr (box, eid)"
    using enqueue_succeeds[OF assms(5)] by blast
  then show ?thesis using assms(1) db1 by (simp add: write_version_def raising_def publish_settings_changed_def Let_def)
qed

section \<open>Export and import\<close>

text \<open>The names of the descriptor are in lower case and contain no secret word.\<close>

definition not_upper :: "char \<Rightarrow> bool" where
  "not_upper c = (digit5 c \<or> c = CHR ''_'')"

lemma not_upper_lower: "not_upper c \<Longrightarrow> lower_char c = c"
proof (cases c)
  case (Char b0 b1 b2 b3 b4 b5 b6 b7)
  assume "not_upper c"
  then show ?thesis
    unfolding Char not_upper_def
    by (cases b5; cases b6; cases b7; simp add: lower_char_def of_char_def horner_sum_simps Let_def)
qed

lemma descriptor_names_lower: "list_all (\<lambda>(c, fs). list_all (\<lambda>(n, f). list_all not_upper n \<and> \<not> sf_secret f) fs) (de_categories settings_descriptor)"
  by code_simp

lemma descriptor_names_clean:
  "list_all (\<lambda>(c, fs). list_all (\<lambda>(n, f). \<not> list_ex (\<lambda>w. contains_sub w n) secret_name_words) fs) (de_categories settings_descriptor)"
  by code_simp

lemma descriptor_no_secrets:
  assumes "(c, fs) \<in> set (de_categories settings_descriptor)" "(n, f) \<in> set fs"
  shows "\<not> secret_name n \<and> \<not> sf_secret f"
proof -
  have "list_all not_upper n \<and> \<not> sf_secret f" using descriptor_names_lower assms by (fastforce simp: list_all_iff)
  moreover have "\<not> list_ex (\<lambda>w. contains_sub w n) secret_name_words" using descriptor_names_clean assms by (fastforce simp: list_all_iff)
  moreover have "list_all not_upper n \<Longrightarrow> lower n = n" by (auto simp: lower_def list_all_iff not_upper_lower intro: map_idI)
  ultimately show ?thesis by (simp add: secret_name_def)
qed

lemma sanitize_stored:
  assumes "stored_ok s"
  shows "sanitize_export s = s"
proof -
  let ?p = "\<lambda>c n. \<not> secret_name n \<and> (case field_descriptor settings_descriptor c n of Inr f \<Rightarrow> \<not> sf_secret f | Inl _ \<Rightarrow> False)"
  have known: "?p c n" if k: "field_descriptor settings_descriptor c n = Inr f" for c n f
  proof -
    obtain fs where "map_of (de_categories settings_descriptor) c = Some fs" "map_of fs n = Some f"
      using k by (auto simp: field_descriptor_def split: option.splits)
    then have "(c, fs) \<in> set (de_categories settings_descriptor)" "(n, f) \<in> set fs" by (simp_all add: map_of_SomeD)
    then show ?thesis using descriptor_no_secrets k by simp
  qed
  have one: "(case e of (c, cat) \<Rightarrow> case cat of Fields fs \<Rightarrow> (case filter (\<lambda>(n, v). ?p c n) fs of [] \<Rightarrow> [] | kept \<Rightarrow> [(c, Fields kept)]) | _ \<Rightarrow> []) = [e]"
    if m: "e \<in> set s" for e
  proof -
    obtain c cat where e: "e = (c, cat)" by (cases e)
    obtain fs where fs: "cat = Fields fs" "fs \<noteq> []"
      "\<forall>(n, v) \<in> set fs. v \<noteq> SNull \<and> (\<exists>f. field_descriptor settings_descriptor c n = Inr f \<and> validate_value c n v f = [])"
      using assms m unfolding e stored_ok_def by blast
    have "filter (\<lambda>(n, v). ?p c n) fs = fs" by (rule filter_True) (use fs(3) known in fast)
    then show ?thesis unfolding e fs(1) prod.case category.case using fs(2) by (cases fs) simp_all
  qed
  then show ?thesis unfolding sanitize_export_def keep_fields_def by (intro concat_singletons) blast
qed

lemma current_stored: "run_ok (db, rs) \<Longrightarrow> stored_ok (cs_settings (get_current_settings db scope key))"
  using reading_stored[of db "((scope, key), get_current_settings db scope key) # rs" scope key]
    settings_step_ok[OF settings_step.read] by simp


section \<open>Applying a change\<close>

text \<open>The wait ends once the clock passes the deadline, and an acknowledgement is a version the provider reported.\<close>

lemma wait_ends:
  assumes "deadline \<le> clock_at (Suc (i + n))"
  shows "\<exists>r. wait_for_ack provider clock_at deadline desired i = Some r"
  using assms
proof (induction n arbitrary: i)
  case 0
  then show ?case by (subst wait_for_ack.simps) (auto split: option.splits)
next
  case (Suc n)
  then have "deadline \<le> clock_at (Suc (Suc i + n))" by simp
  then obtain r where "wait_for_ack provider clock_at deadline desired (Suc i) = Some r" using Suc.IH by blast
  then show ?case by (subst wait_for_ack.simps) (auto split: option.splits)
qed

lemma wait_acknowledged:
  assumes "wait_for_ack provider clock_at deadline desired i = Some (Inr v)"
  shows "desired \<le> v \<and> (\<exists>j \<ge> i. provider j = Some v)"
proof -
  have "wait_for_ack provider clock_at deadline desired i = Some y \<Longrightarrow> (\<forall>v. y = Inr v \<longrightarrow> desired \<le> v \<and> (\<exists>j \<ge> i. provider j = Some v))" for y
  proof (induction rule: wait_for_ack.raw_induct[rotated 1, consumes 1])
    case (1 f provider clock_at deadline desired i y)
    then show ?case by (auto split: option.splits if_splits) (metis Suc_leD)+
  qed
  with assms show ?thesis by blast
qed

section \<open>A scope without versions\<close>

lemma fresh_current:
  assumes "\<forall>r \<in> set (sd_rows db). \<not> (sr_scope r = scope \<and> sr_scope_key r = key)"
  shows "get_current_settings db scope key = \<lparr>cs_version = 0, cs_settings = []\<rparr>"
proof -
  have "scope_rows db scope key = []" using assms by (simp add: scope_rows_def filter_empty_conv)
  then show ?thesis by (simp add: get_current_settings_def newest_row_def)
qed

lemma fresh_commit:
  assumes rows: "\<forall>r \<in> set (sd_rows db). \<not> (sr_scope r = scope \<and> sr_scope_key r = key)"
    "\<forall>r \<in> set (sd_versions db). \<not> (vr_scope r = scope \<and> vr_scope_key r = key)"
    and p: "stored_ok p" and q: "check_request q = Inr ()"
    and a: "assert_can_write_settings (wq_actor q) ''patch'' [] p (wq_confirm q) (wq_operator_signoff q) = Inr user"
  shows "\<exists>db' res. patch_commit e db scope key \<lparr>cs_version = 0, cs_settings = []\<rparr> p 0 q = Inr (db', res)"
proof -
  have r: "strip (wq_request_id q) \<noteq> []" using q by (auto simp: check_request_def split: if_splits)
  have "\<exists>db' res. write_version e db scope key \<lparr>cs_version = 0, cs_settings = []\<rparr> p ''patch'' q = Inr (db', res)"
    by (rule write_version_succeeds[OF _ rows _ r]) (use a in simp_all)
  then show ?thesis using stored_normalizes(1)[OF p] patch_onto_empty[OF stored_shaped[OF p]] by (simp add: patch_commit_def)
qed

lemma fresh_patch:
  assumes "service_scope scope scope_key = Inr (sc, key)"
    and rows: "\<forall>r \<in> set (sd_rows db). \<not> (sr_scope r = sc \<and> sr_scope_key r = key)"
    "\<forall>r \<in> set (sd_versions db). \<not> (vr_scope r = sc \<and> vr_scope_key r = key)"
    and p: "stored_ok p" and q: "check_request q = Inr ()"
    and a: "assert_can_write_settings (wq_actor q) ''patch'' [] p (wq_confirm q) (wq_operator_signoff q) = Inr user"
  shows "\<exists>db' res. patch_settings e db scope scope_key p (Some 0) q = Inr (db', res) \<and> wr_settings res = p
    \<and> sd_rows db' = sd_rows db @ [new_row sc key \<lparr>cs_version = 0, cs_settings = []\<rparr> p (fst user) q]"
proof -
  let ?cur = "\<lparr>cs_version = 0, cs_settings = []\<rparr>"
  obtain db' res where c: "patch_commit e db sc key ?cur p 0 q = Inr (db', res)" using fresh_commit[OF rows p q a] by blast
  then have "patch_settings e db scope scope_key p (Some 0) q = Inr (db', res)"
    using assms(1) q stored_normalizes[OF p] by (simp add: patch_settings_def fresh_current[OF rows(1)])
  moreover have w: "write_version e db sc key ?cur p ''patch'' q = Inr (db', res)"
    using patch_commit_Inr[OF c] patch_onto_empty[OF stored_shaped[OF p]] by simp
  ultimately show ?thesis using write_version_Inr[OF w] a by auto
qed

section \<open>What the live risk check does not see\<close>

definition live_global :: settings where
  "live_global = [(''general'', Fields [(''execution_mode'', SStr ''live'')]), (''money'', Fields [(''max_leverage'', SInt 2)])]"

definition raised_leverage :: settings where
  "raised_leverage = [(''money'', Fields [(''max_leverage'', SInt 100)])]"

definition live_row :: settings_row where
  "live_row = \<lparr>sr_scope = ''global'', sr_scope_key = ''global'', sr_version = 1, sr_settings = live_global, sr_created_by = ''root'',
     sr_reason = ''go live'', sr_request_id = ''req-0''\<rparr>"

definition live_db :: settings_db where
  "live_db = \<lparr>sd_rows = [live_row], sd_versions = [history_row live_row], sd_audit = [], sd_outbox = []\<rparr>"

definition operator_request :: write_request where
  "operator_request = \<lparr>wq_reason = ''override'', wq_request_id = ''req-1'', wq_actor = \<lparr>sa_actor_id = Some ''op'', sa_role = Some ''operator''\<rparr>,
     wq_confirm = None, wq_operator_signoff = None\<rparr>"

lemma default_mode: "default_settings settings_descriptor (''general'', ''execution_mode'') = Some (SStr ''shadow'')"
  by code_simp

lemma mode_not_live:
  assumes "wf_settings before" "wf_settings after"
    "layer_value before (''general'', ''execution_mode'') \<noteq> Some (SStr ''live'')" "layer_value after (''general'', ''execution_mode'') \<noteq> Some (SStr ''live'')"
  shows "\<not> requires_live_risk_confirmation before after"
proof -
  have "with_defaults before (''general'', ''execution_mode'') \<noteq> Some (SStr ''live'')" "with_defaults after (''general'', ''execution_mode'') \<noteq> Some (SStr ''live'')"
    using assms(3,4) unfolding with_defaults_value[OF assms(1)] with_defaults_value[OF assms(2)] default_mode
    by (auto split: option.splits)
  then show ?thesis unfolding requires_live_risk_confirmation_def Let_def by blast
qed

lemma raised_leverage_facts:
  "stored_ok raised_leverage" "layer_value raised_leverage (''general'', ''execution_mode'') = None"
proof -
  have f: "field_descriptor settings_descriptor ''money'' ''max_leverage'' = Inr (number_field ''multiple'' (SInt 1) 1 125 ''hot_reload'' True)"
    by (simp add: field_descriptor_def settings_descriptor_def money_fields_def)
  moreover have "validate_value ''money'' ''max_leverage'' (SInt 100) (number_field ''multiple'' (SInt 1) 1 125 ''hot_reload'' True) = []"
    by code_simp
  ultimately show "stored_ok raised_leverage" by (simp add: stored_ok_def wf_settings_def raised_leverage_def)
  show "layer_value raised_leverage (''general'', ''execution_mode'') = None"
    by (simp add: layer_value_def setting_at_def raised_leverage_def)
qed

lemma raised_leverage_allowed:
  "assert_can_write_settings (wq_actor operator_request) ''patch'' [] raised_leverage (wq_confirm operator_request) (wq_operator_signoff operator_request)
    = Inr (''op'', ''operator'')"
proof -
  have "text_or_blank (Some ''op'') = ''op''" "text_or_blank (Some ''operator'') = ''operator''" "has_settings_permission ''operator'' ''patch''"
    by code_simp+
  moreover have "\<not> requires_live_risk_confirmation [] raised_leverage"
    by (rule mode_not_live) (use raised_leverage_facts in \<open>simp_all add: stored_ok_def wf_settings_def layer_value_def setting_at_def\<close>)
  ultimately show ?thesis by (simp add: assert_can_write_settings_def operator_request_def)
qed

lemma operator_request_ok: "check_request operator_request = Inr ()"
  by code_simp

lemma account_scope: "service_scope (Some ''account'') (Some ''account-a'') = Inr (''account'', ''account-a'')"
  by code_simp

text \<open>
  The live risk check looks at one scope only. With the global scope live at a leverage of 2, an operator raises the leverage of an account
  to 100 without confirmation or sign-off, because the account's own layer does not say that it is live; the effective
  settings of the account are then live at 100. The same change in the global scope needs the confirmation.
\<close>

theorem account_override_skips_confirmation:
  "\<exists>db' res. patch_settings e live_db (Some ''account'') (Some ''account-a'') raised_leverage (Some 0) operator_request = Inr (db', res)
    \<and> merged_layers settings_descriptor (fetch_latest_settings_by_scope live_db) [(''global'', ''global''), (''account'', ''account-a'')]
        (''money'', ''max_leverage'') = Some (SInt 2, ''global'')
    \<and> merged_layers settings_descriptor (fetch_latest_settings_by_scope db') [(''global'', ''global''), (''account'', ''account-a'')]
        (''money'', ''max_leverage'') = Some (SInt 100, ''account'')
    \<and> merged_layers settings_descriptor (fetch_latest_settings_by_scope db') [(''global'', ''global''), (''account'', ''account-a'')]
        (''general'', ''execution_mode'') = Some (SStr ''live'', ''global'')
    \<and> requires_live_risk_confirmation live_global (apply_patch_to_settings live_global raised_leverage)"
proof -
  let ?chain = "[(''global'', ''global''), (''account'', ''account-a'')]"
  obtain db' res where p: "patch_settings e live_db (Some ''account'') (Some ''account-a'') raised_leverage (Some 0) operator_request = Inr (db', res)"
    and rows: "sd_rows db' = sd_rows live_db @ [new_row ''account'' ''account-a'' \<lparr>cs_version = 0, cs_settings = []\<rparr> raised_leverage ''op'' operator_request]"
    using fresh_patch[OF account_scope _ _ raised_leverage_facts(1) operator_request_ok raised_leverage_allowed, of live_db e]
    by (auto simp: live_db_def live_row_def history_row_def)
  have l: "fetch_latest_settings_by_scope live_db (''global'', ''global'') = Some live_global"
    "fetch_latest_settings_by_scope live_db (''account'', ''account-a'') = None"
    "fetch_latest_settings_by_scope db' (''global'', ''global'') = Some live_global"
    "fetch_latest_settings_by_scope db' (''account'', ''account-a'') = Some raised_leverage"
    by (simp_all add: fetch_latest_settings_by_scope_def newest_row_def scope_rows_def rows live_db_def live_row_def new_row_def)
  have wf: "wf_settings live_global" "wf_settings raised_leverage" "wf_settings []"
    by (simp_all add: wf_settings_def live_global_def raised_leverage_def)
  have v: "layer_value live_global (''money'', ''max_leverage'') = Some (SInt 2)" "layer_value raised_leverage (''money'', ''max_leverage'') = Some (SInt 100)"
    "layer_value live_global (''general'', ''execution_mode'') = Some (SStr ''live'')" "layer_value [] q = None" for q
    by (simp_all add: layer_value_def setting_at_def live_global_def raised_leverage_def)
  have d: "default_settings settings_descriptor (''money'', ''max_leverage'') = Some (SInt 1)" by code_simp
  have m: "merged_layers settings_descriptor ls ?chain q = (case default_settings settings_descriptor q of None \<Rightarrow> None | Some x \<Rightarrow>
      Some (case layer_value (case ls (''account'', ''account-a'') of Some s \<Rightarrow> s | None \<Rightarrow> []) q of Some v \<Rightarrow> (v, ''account'') | None \<Rightarrow>
        (case layer_value (case ls (''global'', ''global'') of Some s \<Rightarrow> s | None \<Rightarrow> []) q of Some v \<Rightarrow> (v, ''global'') | None \<Rightarrow> (x, ''system_default''))))"
    if "wf_settings (case ls (''account'', ''account-a'') of Some s \<Rightarrow> s | None \<Rightarrow> [])" "wf_settings (case ls (''global'', ''global'') of Some s \<Rightarrow> s | None \<Rightarrow> [])"
    for ls q
    using that by (simp add: merged_layers_def merge_layer_def overlay_value split: option.splits)
  have ap: "apply_patch_to_settings live_global raised_leverage = [(''general'', Fields [(''execution_mode'', SStr ''live'')]), (''money'', Fields [(''max_leverage'', SInt 100)])]"
    by code_simp
  have "requires_live_risk_confirmation live_global (apply_patch_to_settings live_global raised_leverage)"
  proof -
    let ?a = "apply_patch_to_settings live_global raised_leverage"
    have wa: "wf_settings ?a" by (simp add: ap wf_settings_def)
    have "with_defaults ?a (''general'', ''execution_mode'') = Some (SStr ''live'')"
      "with_defaults ?a (''money'', ''max_leverage'') = Some (SInt 100)" "with_defaults live_global (''money'', ''max_leverage'') = Some (SInt 2)"
      unfolding ap with_defaults_value[OF wa[unfolded ap]] with_defaults_value[OF wf(1)]
      by (simp_all add: default_mode d layer_value_def setting_at_def live_global_def)
    then show ?thesis by (simp add: requires_live_risk_confirmation_def Let_def risk_increase_fields_def)
  qed
  then show ?thesis using p l wf v d raised_leverage_facts(2) by (auto simp: m default_mode)
qed

text \<open>
  A request id that is used again announces nothing: the second patch writes its version, but its event has the id of the
  first one and is dropped.
\<close>

lemma repeated_request_not_announced:
  assumes "patch_settings e db scope scope_key p x q = Inr (db1, r1)" "patch_settings e' db1 scope scope_key p' x' q' = Inr (db2, r2)"
    "wq_request_id q' = wq_request_id q" "ev_sha e' = ev_sha e"
  shows "sd_outbox db2 = sd_outbox db1 \<and> wr_outbox_event_id r2 = wr_outbox_event_id r1 \<and> length (sd_rows db2) = Suc (length (sd_rows db1))"
proof -
  obtain sc key where s: "service_scope scope scope_key = Inr (sc, key)" using patch_settings_Inr[OF assms(1)] by blast
  obtain cur after where w1: "write_version e db sc key cur after ''patch'' q = Inr (db1, r1)"
    using patch_settings_Inr[OF assms(1)] s patch_commit_Inr by (metis Inr_inject prod.inject)
  obtain cur' after' where w2: "write_version e' db1 sc key cur' after' ''patch'' q' = Inr (db2, r2)"
    using patch_settings_Inr[OF assms(2)] s patch_commit_Inr by (metis Inr_inject prod.inject)
  note e1 = write_version_Inr[OF w1] and e2 = write_version_Inr[OF w2, unfolded assms(3,4)]
  have "length (sd_rows db2) = Suc (length (sd_rows db1))" using e2 by auto
  moreover have "(sd_outbox db2, wr_outbox_event_id r2) = (sd_outbox db1, wr_outbox_event_id r1)"
  proof -
    obtain payload where a: "enqueue_order_management_event (ev_sha e) (ev_fresh e) (sd_outbox db) ''order_management_settings'' (sc @ '':'' @ key)
         ''settings.changed'' (wq_request_id q) payload (Some (wq_request_id q)) (ev_clock e) = Inr (sd_outbox db1, wr_outbox_event_id r1)"
      using e1 by blast
    obtain payload' where b: "enqueue_order_management_event (ev_sha e) (ev_fresh e') (sd_outbox db1) ''order_management_settings'' (sc @ '':'' @ key)
         ''settings.changed'' (wq_request_id q) payload' (Some (wq_request_id q)) (ev_clock e') = Inr (sd_outbox db2, wr_outbox_event_id r2)"
      using e2 by blast
    show ?thesis using enqueue_idempotent[OF a, of "ev_fresh e'" payload' "ev_clock e'"] b by simp
  qed
  ultimately show ?thesis by simp
qed

section \<open>Example\<close>

definition example_env :: settings_env where
  "example_env = \<lparr>ev_sha = (\<lambda>_. 0), ev_fresh = ''trace'', ev_clock = 0, ev_name_uuid = (\<lambda>s. s)\<rparr>"

definition admin_request :: write_request where
  "admin_request = operator_request \<lparr>wq_actor := \<lparr>sa_actor_id = Some ''root'', sa_role = Some ''risk_admin''\<rparr>\<rparr>"

lemma raised_leverage_wf: "wf_settings raised_leverage"
  using raised_leverage_facts(1) by (simp add: stored_ok_def)

lemma admin_request_ok: "check_request admin_request = Inr ()"
  by code_simp

lemma admin_allowed:
  "assert_can_write_settings (wq_actor admin_request) ''patch'' [] raised_leverage (wq_confirm admin_request) (wq_operator_signoff admin_request)
    = Inr (''root'', ''risk_admin'')"
  "assert_can_write_settings (wq_actor admin_request) ''import'' [] [] None None = Inr (''root'', ''risk_admin'')"
proof -
  have a: "text_or_blank (Some ''root'') = ''root''" "text_or_blank (Some ''risk_admin'') = ''risk_admin''" "has_settings_permission ''risk_admin'' ''patch''"
    "has_settings_permission ''risk_admin'' ''import''" by code_simp+
  have "\<not> requires_live_risk_confirmation [] raised_leverage" "\<not> requires_live_risk_confirmation [] []"
    by (rule mode_not_live; use raised_leverage_facts in \<open>simp add: stored_ok_def wf_settings_def layer_value_def setting_at_def\<close>)+
  with a show "assert_can_write_settings (wq_actor admin_request) ''patch'' [] raised_leverage (wq_confirm admin_request) (wq_operator_signoff admin_request)
      = Inr (''root'', ''risk_admin'')"
    "assert_can_write_settings (wq_actor admin_request) ''import'' [] [] None None = Inr (''root'', ''risk_admin'')"
    by (simp_all add: assert_can_write_settings_def admin_request_def operator_request_def)
qed

lemma global_scope: "service_scope None None = Inr (''global'', ''global'')"
  by code_simp

lemma empty_settings_rows [simp]: "sd_rows empty_settings = []" "sd_versions empty_settings = []"
  by (simp_all add: empty_settings_def)

lemma example_patch: "\<exists>db' res. patch_settings example_env empty_settings None None raised_leverage (Some 0) admin_request = Inr (db', res)
    \<and> wr_settings res = raised_leverage"
  using fresh_patch[OF global_scope _ _ raised_leverage_facts(1) admin_request_ok admin_allowed(1), of empty_settings example_env] by auto

theorem settings_no_lost_update_witness:
  "\<exists>db' res. patch_commit example_env empty_settings ''global'' ''global'' \<lparr>cs_version = 0, cs_settings = []\<rparr> raised_leverage 0 admin_request = Inr (db', res)
    \<and> get_current_settings db' ''global'' ''global'' = \<lparr>cs_version = 1, cs_settings = raised_leverage\<rparr>"
proof -
  let ?cur = "\<lparr>cs_version = 0, cs_settings = []\<rparr>"
  obtain db' res where c: "patch_commit example_env empty_settings ''global'' ''global'' ?cur raised_leverage 0 admin_request = Inr (db', res)"
    using fresh_commit[OF _ _ raised_leverage_facts(1) admin_request_ok admin_allowed(1), of empty_settings "''global''" "''global''" example_env]
    by auto
  have "get_current_settings empty_settings ''global'' ''global'' = ?cur" by (rule fresh_current) simp
  with settings_step.read[of empty_settings "[]" "''global''" "''global''"]
  have run: "settings_step\<^sup>*\<^sup>* (empty_settings, []) (empty_settings, [((''global'', ''global''), ?cur)])" by auto
  have m: "((''global'', ''global''), ?cur) \<in> set [((''global'', ''global''), ?cur)]" by simp
  from settings_no_lost_update[OF run m admin_request_ok c] c patch_onto_empty[OF stored_shaped[OF raised_leverage_facts(1)]]
  show ?thesis by auto
qed

theorem stored_settings_well_typed_witness:
  "\<exists>db rs. settings_step\<^sup>*\<^sup>* (empty_settings, []) (db, rs) \<and> sd_versions db = map history_row (sd_rows db)
    \<and> (\<forall>r \<in> set (sd_rows db). wf_settings (sr_settings r) \<and> sr_created_by r \<noteq> []) \<and> length (sd_rows db) = 1"
proof -
  obtain db res where p: "patch_settings example_env empty_settings None None raised_leverage (Some 0) admin_request = Inr (db, res)"
    and rows: "length (sd_rows db) = 1"
    using fresh_patch[OF global_scope _ _ raised_leverage_facts(1) admin_request_ok admin_allowed(1), of empty_settings example_env] by auto
  obtain rs where run: "settings_step\<^sup>*\<^sup>* (empty_settings, []) (db, rs)"
    using patch_settings_runs[OF p raised_leverage_wf, of "[]"] by blast
  from stored_settings_well_typed[OF run] run rows show ?thesis by blast
qed



end
