(* ===== verification/Event_Spool.thy ===== *)
theory Event_Spool
  imports Client_Order_Ids "HOL-Library.Product_Lexorder" "HOL-Library.List_Lexorder" "HOL-Library.Char_ord" "HOL-Library.Multiset"
begin

text \<open>
  The durable spool of execution events (\<open>projection/spool.py\<close>): a write-ahead log of appended
  events that an acknowledgement rewrites as a snapshot, and the recovery from the file after a restart.

  The file is modelled by its lines: complete lines, and a tail without a newline that a crash in the middle of a write
  leaves behind. What a complete line parses to is its constructor; the number of bytes of a line, newline
  included, is the parameter \<open>lsize\<close>. A rewrite replaces the file atomically, as \<open>os.replace\<close> does. The
  lock makes the operations of one process sequential.
\<close>

section \<open>Events, lines and files\<close>

record spool_event =
  sv_event_id :: string
  sv_node_id :: node_id
  sv_account_id :: account_id
  sv_intent_id :: "uuid option"
  sv_client_order_id :: "string option"
  sv_venue_order_id :: "string option"
  sv_trade_id :: "string option"
  sv_event_type :: string
  sv_ts_event :: instant
  sv_ts_ingest :: instant
  sv_payload :: dict

datatype spool_record =
    AppendRecord spool_event
  | SnapshotRecord "string list" "spool_event list"
  | OtherRecord string

text \<open>A snapshot of the old format has no operation.\<close>

datatype wal_line =
    Complete spool_record
  | LegacyLine "string list" "spool_event list"
  | EmptyLine
  | CorruptLine
  | NotAnObject

datatype wal_tail = NoTail | TornTail nat | LegacyTail "string list" "spool_event list"

record wal_file =
  wf_lines :: "wal_line list"
  wf_tail :: wal_tail

datatype spool_error = SpoolCapacityError | SpoolCorruptionError | SpoolTypeError | SpoolValueError

record spool_config =
  sc_max_bytes :: nat
  sc_degraded_ratio :: rat
  sc_seen_event_limit :: nat

record spool =
  sp_pending :: "spool_event list"
  sp_seen :: "string list"
  sp_size :: nat
  sp_last_append :: nat
  sp_file :: "wal_file option"

definition spool_config_ok :: "spool_config \<Rightarrow> bool" where
  "spool_config_ok cfg \<longleftrightarrow> 1 \<le> sc_max_bytes cfg \<and> 0 < sc_degraded_ratio cfg \<and> sc_degraded_ratio cfg < 1 \<and> 1 \<le> sc_seen_event_limit cfg"

definition event_type_order :: "string \<Rightarrow> int" where
  "event_type_order t =
     (case map_of [(''OrderSubmitted'', 10), (''OrderAccepted'', 20), (''OrderPendingUpdate'', 30), (''OrderUpdated'', 40),
        (''OrderFilled'', 50), (''OrderPendingCancel'', 60), (''OrderCanceled'', 70), (''OrderRejected'', 80), (''OrderExpired'', 90)] t of
        Some n \<Rightarrow> n | None \<Rightarrow> 100)"

definition event_order_key :: "spool_event \<Rightarrow> instant \<times> int \<times> string" where
  "event_order_key e = (sv_ts_event e, event_type_order (sv_event_type e), sv_event_id e)"

definition sort_events :: "spool_event list \<Rightarrow> spool_event list" where
  "sort_events es = sort_key event_order_key es"

definition ids :: "spool_event list \<Rightarrow> string list" where
  "ids es = map sv_event_id es"

section \<open>Operations\<close>

definition file_lines :: "wal_file option \<Rightarrow> wal_line list" where
  "file_lines f = (case f of Some x \<Rightarrow> wf_lines x | None \<Rightarrow> [])"

definition lines_size :: "(wal_line \<Rightarrow> nat) \<Rightarrow> wal_line list \<Rightarrow> nat" where
  "lines_size lsize ls = sum_list (map lsize ls)"

text \<open>Writing at the end of the file: after a tail without a newline the new line runs on from it.\<close>

definition append_encoded :: "wal_file option \<Rightarrow> wal_line \<Rightarrow> wal_file option" where
  "append_encoded f l =
     Some \<lparr>wf_lines = file_lines f @ [if (case f of Some x \<Rightarrow> wf_tail x | None \<Rightarrow> NoTail) \<in> {NoTail, TornTail 0} then l else CorruptLine],
           wf_tail = NoTail\<rparr>"

text \<open>A write that ends after \<open>n\<close> bytes.\<close>

definition torn_write :: "wal_file option \<Rightarrow> nat \<Rightarrow> wal_file option" where
  "torn_write f n = Some \<lparr>wf_lines = file_lines f, wf_tail = TornTail n\<rparr>"

definition is_degraded :: "spool_config \<Rightarrow> spool \<Rightarrow> bool" where
  "is_degraded cfg s \<longleftrightarrow> of_nat (sp_size s) / of_nat (sc_max_bytes cfg) \<ge> sc_degraded_ratio cfg
     \<or> 0 < sp_last_append s \<and> sp_size s + sp_last_append s > sc_max_bytes cfg"

definition append_once :: "(wal_line \<Rightarrow> nat) \<Rightarrow> spool_config \<Rightarrow> spool \<Rightarrow> spool_event \<Rightarrow> spool_error + spool \<times> bool" where
  "append_once lsize cfg s e =
     (if sv_event_id e \<in> set (sp_seen s) then Inr (s, False)
      else
        let encoded = Complete (AppendRecord e); n = lsize encoded
        in if sp_size s + n > sc_max_bytes cfg then Inl SpoolCapacityError
           else Inr (s \<lparr>sp_file := append_encoded (sp_file s) encoded, sp_pending := sort_events (sp_pending s @ [e]),
                  sp_seen := sp_seen s @ [sv_event_id e], sp_size := sp_size s + n, sp_last_append := max (sp_last_append s) n\<rparr>, True))"

definition pending_events :: "spool \<Rightarrow> nat option \<Rightarrow> spool_event list" where
  "pending_events s limit = (case limit of None \<Rightarrow> sp_pending s | Some n \<Rightarrow> take n (sp_pending s))"

text \<open>The last acknowledged ids up to the limit, then the ids of the pending events.\<close>

definition compact_seen_event_ids :: "spool_config \<Rightarrow> spool_event list \<Rightarrow> string list \<Rightarrow> string list" where
  "compact_seen_event_ids cfg pending seen =
     (let acked = filter (\<lambda>i. i \<notin> set (ids pending)) seen
      in drop (length acked - sc_seen_event_limit cfg) acked @ remdups (ids pending))"

definition commit_state :: "(wal_line \<Rightarrow> nat) \<Rightarrow> spool_config \<Rightarrow> spool \<Rightarrow> spool_event list \<Rightarrow> string list \<Rightarrow> spool_error + spool" where
  "commit_state lsize cfg s pending seen =
     (let compacted = compact_seen_event_ids cfg pending seen; encoded = Complete (SnapshotRecord compacted pending)
      in if lsize encoded > sc_max_bytes cfg then Inl SpoolCapacityError
         else Inr (s \<lparr>sp_file := Some \<lparr>wf_lines = [encoded], wf_tail = NoTail\<rparr>, sp_pending := pending, sp_seen := compacted,
                sp_size := lsize encoded\<rparr>))"

definition mark_acked :: "(wal_line \<Rightarrow> nat) \<Rightarrow> spool_config \<Rightarrow> spool \<Rightarrow> string set \<Rightarrow> spool_error + spool" where
  "mark_acked lsize cfg s acked =
     (if acked = {} then Inr s
      else commit_state lsize cfg s (filter (\<lambda>e. sv_event_id e \<notin> acked) (sp_pending s)) (sp_seen s))"

section \<open>Recovery\<close>

text \<open>The lines of a log whose text as a whole is not one JSON value.\<close>

fun decode_wal_records :: "wal_line list \<Rightarrow> spool_error + spool_record list" where
  "decode_wal_records [] = Inr []"
| "decode_wal_records (Complete r # ls) = bind_result (decode_wal_records ls) (\<lambda>rs. Inr (r # rs))"
| "decode_wal_records (LegacyLine seen pending # ls) = bind_result (decode_wal_records ls) (\<lambda>rs. Inr (SnapshotRecord seen pending # rs))"
| "decode_wal_records (_ # ls) = Inl SpoolCorruptionError"

text \<open>The records, whether the file is a snapshot of the old format, and the durable part of the file.\<close>

definition decode_records :: "wal_file \<Rightarrow> spool_error + spool_record list \<times> bool \<times> wal_file" where
  "decode_records f =
     (case (filter (\<lambda>l. l \<noteq> EmptyLine) (wf_lines f), wf_tail f) of
        ([LegacyLine seen pending], NoTail) \<Rightarrow> Inr ([SnapshotRecord seen pending], True, f)
      | ([Complete r], NoTail) \<Rightarrow> Inr ([r], False, f)
      | ([NotAnObject], NoTail) \<Rightarrow> Inl SpoolTypeError
      | ([], LegacyTail seen pending) \<Rightarrow> Inr ([SnapshotRecord seen pending], True, f)
      | (_, _) \<Rightarrow> bind_result (decode_wal_records (wf_lines f)) (\<lambda>rs. Inr (rs, False, \<lparr>wf_lines = wf_lines f, wf_tail = NoTail\<rparr>)))"

definition add_id :: "string list \<Rightarrow> string \<Rightarrow> string list" where
  "add_id seen i = (if i \<in> set seen then seen else seen @ [i])"

definition apply_record :: "spool_event list \<times> string list \<Rightarrow> spool_record \<Rightarrow> spool_error + spool_event list \<times> string list" where
  "apply_record st r =
     (case r of
        SnapshotRecord seen pending \<Rightarrow> Inr (pending, foldl add_id [] (seen @ ids pending))
      | AppendRecord e \<Rightarrow>
          if sv_event_id e \<in> set (snd st) then Inr st else Inr (fst st @ [e], snd st @ [sv_event_id e])
      | OtherRecord _ \<Rightarrow> Inl SpoolValueError)"

fun apply_records :: "spool_event list \<times> string list \<Rightarrow> spool_record list \<Rightarrow> spool_error + spool_event list \<times> string list" where
  "apply_records st [] = Inr st"
| "apply_records st (r # rs) = bind_result (apply_record st r) (\<lambda>st'. apply_records st' rs)"

definition append_sizes :: "(wal_line \<Rightarrow> nat) \<Rightarrow> spool_record list \<Rightarrow> nat" where
  "append_sizes lsize rs = foldl max 0 (map (\<lambda>r. case r of AppendRecord e \<Rightarrow> lsize (Complete r) | _ \<Rightarrow> 0) rs)"

definition empty_spool :: spool where
  "empty_spool = \<lparr>sp_pending = [], sp_seen = [], sp_size = 0, sp_last_append = 0, sp_file = None\<rparr>"

definition tail_size :: "(wal_line \<Rightarrow> nat) \<Rightarrow> wal_tail \<Rightarrow> nat" where
  "tail_size lsize t = (case t of NoTail \<Rightarrow> 0 | TornTail n \<Rightarrow> n | LegacyTail seen pending \<Rightarrow> lsize (LegacyLine seen pending) - 1)"

definition load :: "(wal_line \<Rightarrow> nat) \<Rightarrow> spool_config \<Rightarrow> wal_file option \<Rightarrow> spool_error + spool" where
  "load lsize cfg file =
     (case file of
        None \<Rightarrow> Inr empty_spool
      | Some f \<Rightarrow>
          if wf_lines f = [] \<and> (wf_tail f = NoTail \<or> wf_tail f = TornTail 0) then Inr (empty_spool \<lparr>sp_file := Some f\<rparr>)
          else
            bind_result (decode_records f) (\<lambda>(records, legacy, durable).
            bind_result (apply_records ([], []) records) (\<lambda>(raw_pending, raw_seen).
            let compacted = compact_seen_event_ids cfg raw_pending raw_seen;
                pending = sort_events raw_pending;
                n = lines_size lsize (wf_lines durable) + tail_size lsize (wf_tail durable)
            in if n > sc_max_bytes cfg then Inl SpoolCapacityError
               else
                 let s = \<lparr>sp_pending = pending, sp_seen = compacted, sp_size = n, sp_last_append = append_sizes lsize records,
                          sp_file = Some durable\<rparr>
                 in if legacy \<or> compacted \<noteq> raw_seen then commit_state lsize cfg s pending compacted else Inr s)))"

section \<open>Recovery loses nothing\<close>

lemma event_key_inj: "distinct (ids es) \<Longrightarrow> inj_on event_order_key (set es)"
  by (auto simp: ids_def event_order_key_def inj_on_def distinct_map)

lemma sort_events_eq:
  assumes "distinct (ids es)" "mset es = mset fs"
  shows "sort_events es = sort_events fs"
  unfolding sort_events_def
proof (rule sort_key_inj_key_eq)
  show "mset es = mset (sort_key event_order_key fs)" using assms(2) by simp
  show "inj_on event_order_key (set es)" by (rule event_key_inj[OF assms(1)])
qed simp

lemma mset_sort_events [simp]: "mset (sort_events es) = mset es"
  by (simp add: sort_events_def)

lemma set_sort_events [simp]: "set (sort_events es) = set es"
  by (simp add: sort_events_def)

lemma ids_sort_events: "mset (ids (sort_events es)) = mset (ids es)"
  by (simp add: ids_def)

lemma distinct_ids_sort [simp]: "distinct (ids (sort_events es)) = distinct (ids es)"
  using ids_sort_events mset_eq_imp_distinct_iff by blast

lemma set_ids_sort [simp]: "set (ids (sort_events es)) = set (ids es)"
  by (simp add: ids_def)

lemma ids_append [simp]: "ids (es @ fs) = ids es @ ids fs"
  by (simp add: ids_def)

lemma foldl_add_id_seen: "set xs \<subseteq> set acc \<Longrightarrow> foldl add_id acc xs = acc"
  by (induction xs) (auto simp: add_id_def)

lemma foldl_add_id_distinct: "distinct (acc @ xs) \<Longrightarrow> foldl add_id acc xs = acc @ xs"
  by (induction xs arbitrary: acc) (auto simp: add_id_def)

lemma apply_records_append: "apply_records st (rs @ [r]) = bind_result (apply_records st rs) (\<lambda>st'. apply_record st' r)"
proof (induction rs arbitrary: st)
  case Nil
  then show ?case by (cases "apply_record st r") simp_all
next
  case (Cons x rs)
  then show ?case by (cases "apply_record st x") simp_all
qed

lemma decode_complete_lines [simp]: "decode_wal_records (map Complete rs) = Inr rs"
  by (induction rs) simp_all

lemma decode_complete:
  assumes "t = NoTail \<or> t = TornTail n"
  shows "decode_records \<lparr>wf_lines = map Complete rs, wf_tail = t\<rparr> = Inr (rs, False, \<lparr>wf_lines = map Complete rs, wf_tail = NoTail\<rparr>)"
proof -
  have "filter (\<lambda>l. l \<noteq> EmptyLine) (map Complete rs) = map Complete rs" by (induction rs) simp_all
  then show ?thesis
    using assms by (cases rs; cases "tl rs") (auto simp: decode_records_def split: list.splits wal_line.splits)
qed

text \<open>The acknowledged ids that are still remembered.\<close>

definition acked_ids :: "spool_event list \<Rightarrow> string list \<Rightarrow> string list" where
  "acked_ids pending seen = filter (\<lambda>i. i \<notin> set (ids pending)) seen"

text \<open>The memory is what the file replays to, within the byte budget and the limit on remembered ids.\<close>

definition spool_ok :: "(wal_line \<Rightarrow> nat) \<Rightarrow> spool_config \<Rightarrow> spool \<Rightarrow> bool" where
  "spool_ok lsize cfg s \<longleftrightarrow>
     distinct (ids (sp_pending s)) \<and> distinct (sp_seen s) \<and> set (ids (sp_pending s)) \<subseteq> set (sp_seen s)
     \<and> length (acked_ids (sp_pending s) (sp_seen s)) \<le> sc_seen_event_limit cfg
     \<and> sp_size s = lines_size lsize (file_lines (sp_file s)) \<and> sp_size s \<le> sc_max_bytes cfg
     \<and> (\<exists>rs raw. file_lines (sp_file s) = map Complete rs \<and> (\<forall>f. sp_file s = Some f \<longrightarrow> wf_tail f \<in> {NoTail, TornTail 0})
          \<and> apply_records ([], []) rs = Inr (raw, sp_seen s) \<and> sp_pending s = sort_events raw)"

lemma spool_okI:
  assumes "file_lines (sp_file s) = map Complete rs" "\<forall>f. sp_file s = Some f \<longrightarrow> wf_tail f \<in> {NoTail, TornTail 0}"
    "apply_records ([], []) rs = Inr (raw, sp_seen s)" "sp_pending s = sort_events raw"
    "distinct (ids (sp_pending s))" "distinct (sp_seen s)" "set (ids (sp_pending s)) \<subseteq> set (sp_seen s)"
    "length (acked_ids (sp_pending s) (sp_seen s)) \<le> sc_seen_event_limit cfg"
    "sp_size s = lines_size lsize (file_lines (sp_file s))" "sp_size s \<le> sc_max_bytes cfg"
  shows "spool_ok lsize cfg s"
  unfolding spool_ok_def using assms by blast

lemma compact_props:
  assumes "distinct seen" "distinct (ids pending)"
  shows "distinct (compact_seen_event_ids cfg pending seen)" "set (ids pending) \<subseteq> set (compact_seen_event_ids cfg pending seen)"
    "length (acked_ids pending (compact_seen_event_ids cfg pending seen)) \<le> sc_seen_event_limit cfg"
    "length (acked_ids pending seen) \<le> sc_seen_event_limit cfg \<Longrightarrow>
       acked_ids pending (compact_seen_event_ids cfg pending seen) = acked_ids pending seen"
proof -
  let ?a = "acked_ids pending seen" and ?l = "sc_seen_event_limit cfg"
  have c: "compact_seen_event_ids cfg pending seen = drop (length ?a - ?l) ?a @ ids pending"
    using assms(2) by (simp add: compact_seen_event_ids_def acked_ids_def Let_def distinct_remdups_id)
  have na: "set ?a \<inter> set (ids pending) = {}" by (auto simp: acked_ids_def)
  have "distinct ?a" using assms(1) by (simp add: acked_ids_def)
  then show "distinct (compact_seen_event_ids cfg pending seen)" unfolding c using assms(2) na by (auto dest: in_set_dropD)
  show "set (ids pending) \<subseteq> set (compact_seen_event_ids cfg pending seen)" unfolding c by simp
  have keep: "filter (\<lambda>i. i \<notin> set (ids pending)) (drop k ?a) = drop k ?a" for k
    by (rule filter_True) (use na in \<open>auto dest: in_set_dropD\<close>)
  have "acked_ids pending (compact_seen_event_ids cfg pending seen) = drop (length ?a - ?l) ?a"
    unfolding c by (simp add: acked_ids_def[of pending "_ @ _"] keep)
  then show "length (acked_ids pending (compact_seen_event_ids cfg pending seen)) \<le> ?l"
    "length ?a \<le> ?l \<Longrightarrow> acked_ids pending (compact_seen_event_ids cfg pending seen) = ?a" by simp_all
qed

lemma commit_ok:
  assumes "commit_state lsize cfg s pending seen = Inr s'" "distinct seen" "distinct (ids pending)" "sort_events pending = pending"
  shows "spool_ok lsize cfg s'" "sp_pending s' = pending" "sp_seen s' = compact_seen_event_ids cfg pending seen"
proof -
  let ?c = "compact_seen_event_ids cfg pending seen" and ?r = "SnapshotRecord (compact_seen_event_ids cfg pending seen) pending"
  have s': "s' = s \<lparr>sp_file := Some \<lparr>wf_lines = [Complete ?r], wf_tail = NoTail\<rparr>, sp_pending := pending, sp_seen := ?c, sp_size := lsize (Complete ?r)\<rparr>"
    and size_ok: "lsize (Complete ?r) \<le> sc_max_bytes cfg"
    using assms(1) by (auto simp: commit_state_def Let_def split: if_splits)
  note c = compact_props[OF assms(2,3), of cfg]
  have "apply_records ([], []) [?r] = Inr (pending, ?c)"
    using c(1,2) by (simp add: apply_record_def foldl_add_id_distinct[of "[]"] foldl_add_id_seen)
  then show "spool_ok lsize cfg s'"
    unfolding spool_ok_def s' using c assms(3,4) size_ok
    by (auto simp: file_lines_def lines_size_def intro!: exI[of _ "[?r]"] exI[of _ pending])
  show "sp_pending s' = pending" "sp_seen s' = ?c" by (simp_all add: s')
qed

lemma append_ok:
  assumes "append_once lsize cfg s e = Inr (s', b)" "spool_ok lsize cfg s"
  shows "spool_ok lsize cfg s' \<and> set (sp_pending s) \<subseteq> set (sp_pending s') \<and> (b \<longrightarrow> e \<in> set (sp_pending s'))"
proof (cases "sv_event_id e \<in> set (sp_seen s)")
  case True
  with assms show ?thesis by (simp add: append_once_def)
next
  case False
  let ?r = "AppendRecord e"
  have s': "s' = s \<lparr>sp_file := append_encoded (sp_file s) (Complete ?r), sp_pending := sort_events (sp_pending s @ [e]),
      sp_seen := sp_seen s @ [sv_event_id e], sp_size := sp_size s + lsize (Complete ?r), sp_last_append := max (sp_last_append s) (lsize (Complete ?r))\<rparr>"
    and fits: "sp_size s + lsize (Complete ?r) \<le> sc_max_bytes cfg"
    using assms(1) False by (auto simp: append_once_def Let_def split: if_splits)
  obtain rs raw where rs: "file_lines (sp_file s) = map Complete rs" "\<forall>f. sp_file s = Some f \<longrightarrow> wf_tail f \<in> {NoTail, TornTail 0}"
    "apply_records ([], []) rs = Inr (raw, sp_seen s)" "sp_pending s = sort_events raw"
    using assms(2) unfolding spool_ok_def by blast
  have old: "distinct (ids (sp_pending s))" "distinct (sp_seen s)" "set (ids (sp_pending s)) \<subseteq> set (sp_seen s)"
    "length (acked_ids (sp_pending s) (sp_seen s)) \<le> sc_seen_event_limit cfg" "sp_size s = lines_size lsize (file_lines (sp_file s))"
    using assms(2) by (auto simp: spool_ok_def)
  have fl: "file_lines (sp_file s') = map Complete (rs @ [?r])" "wf_tail (the (sp_file s')) = NoTail"
    using rs(1,2) by (auto simp: s' append_encoded_def file_lines_def split: option.splits)
  have new: "sv_event_id e \<notin> set (ids (sp_pending s))" using False old(3) by blast
  have d: "distinct (ids (sp_pending s @ [e]))" using old(1) new by (simp add: ids_def)
  have tl: "\<forall>f. sp_file s' = Some f \<longrightarrow> wf_tail f \<in> {NoTail, TornTail 0}" by (simp add: s' append_encoded_def)
  have sz: "lines_size lsize (file_lines (sp_file s')) = sp_size s + lsize (Complete ?r)"
    unfolding fl(1) old(5) rs(1) by (simp add: lines_size_def)
  have sub: "set (ids raw) \<subseteq> insert (sv_event_id e) (set (sp_seen s))" "set (ids [e]) \<subseteq> insert (sv_event_id e) (set (sp_seen s))"
    using old(3) unfolding rs(4) by (auto simp: ids_def)
  have "sort_events (sp_pending s @ [e]) = sort_events (raw @ [e])"
    by (rule sort_events_eq[OF d]) (simp add: rs(4))
  moreover have "apply_records ([], []) (rs @ [?r]) = Inr (raw @ [e], sp_seen s @ [sv_event_id e])"
    using False rs(3) by (simp add: apply_records_append apply_record_def)
  moreover have "acked_ids (sort_events (sp_pending s @ [e])) (sp_seen s @ [sv_event_id e]) = acked_ids (sp_pending s) (sp_seen s)"
    using False by (auto simp: acked_ids_def ids_def intro!: filter_cong)
  moreover have "distinct (ids (sort_events (sp_pending s @ [e])))" using d by simp
  ultimately have "spool_ok lsize cfg s'"
    using old(1-4) False fits fl(1) tl sz sub
    by (intro spool_okI[of _ "rs @ [?r]" "raw @ [e]"]) (simp_all add: s')
  then show ?thesis by (auto simp: s')
qed

lemma ack_ok:
  assumes "mark_acked lsize cfg s A = Inr s'" "spool_ok lsize cfg s"
  shows "spool_ok lsize cfg s' \<and> set (sp_pending s') = {e \<in> set (sp_pending s). sv_event_id e \<notin> A}"
proof (cases "A = {}")
  case True
  with assms show ?thesis by (simp add: mark_acked_def)
next
  case False
  let ?p = "filter (\<lambda>e. sv_event_id e \<notin> A) (sp_pending s)"
  have c: "commit_state lsize cfg s ?p (sp_seen s) = Inr s'" using assms(1) False by (simp add: mark_acked_def)
  have d: "distinct (sp_seen s)" "distinct (ids (sp_pending s))" using assms(2) by (auto simp: spool_ok_def)
  have dp: "distinct (ids ?p)" using d(2) by (simp add: ids_def distinct_map_filter)
  have "sort_events ?p = ?p"
  proof -
    have "sorted (map event_order_key (sp_pending s))" using assms(2) by (auto simp: spool_ok_def sort_events_def)
    then show ?thesis unfolding sort_events_def by (intro sort_key_id_if_sorted sorted_filter)
  qed
  from commit_ok[OF c d(1) dp this] show ?thesis by auto
qed

text \<open>The file that a restart finds: the one of the last operation, or one more write that was torn off.\<close>

definition found :: "wal_file option \<Rightarrow> nat option \<Rightarrow> wal_file option" where
  "found f torn = (case torn of None \<Rightarrow> f | Some n \<Rightarrow> torn_write f n)"

lemma load_no_lines:
  assumes "file_lines f = []" "\<forall>x. f = Some x \<longrightarrow> wf_tail x = NoTail \<or> (\<exists>n. wf_tail x = TornTail n)"
  shows "\<exists>s'. load lsize cfg f = Inr s' \<and> spool_ok lsize cfg s' \<and> sp_pending s' = [] \<and> sp_seen s' = []"
proof -
  have ok: "spool_ok lsize cfg s'"
    if "sp_pending s' = []" "sp_seen s' = []" "sp_size s' = 0" "file_lines (sp_file s') = []"
      "\<forall>x. sp_file s' = Some x \<longrightarrow> wf_tail x \<in> {NoTail, TornTail 0}" for s'
    using that by (intro spool_okI[of _ "[]" "[]"]) (simp_all add: ids_def acked_ids_def sort_events_def lines_size_def)
  show ?thesis
  proof (cases f)
    case None
    then show ?thesis using ok[of empty_spool] by (simp add: load_def empty_spool_def file_lines_def)
  next
    case (Some x)
    have l: "wf_lines x = []" using assms(1) Some by (simp add: file_lines_def)
    show ?thesis
    proof (cases "wf_tail x = NoTail \<or> wf_tail x = TornTail 0")
      case True
      then have "load lsize cfg f = Inr (empty_spool \<lparr>sp_file := Some x\<rparr>)" using Some l by (simp add: load_def)
      then show ?thesis using ok[of "empty_spool \<lparr>sp_file := Some x\<rparr>"] True l by (auto simp: empty_spool_def file_lines_def)
    next
      case False
      let ?s = "empty_spool \<lparr>sp_file := Some \<lparr>wf_lines = [], wf_tail = NoTail\<rparr>\<rparr>"
      obtain n where n: "wf_tail x = TornTail n" using assms(2) Some False by auto
      have "compact_seen_event_ids cfg [] [] = []" by (simp add: compact_seen_event_ids_def ids_def)
      then have "load lsize cfg f = Inr ?s"
        using Some l False n
        by (simp add: load_def decode_records_def Let_def lines_size_def tail_size_def sort_events_def append_sizes_def empty_spool_def)
      then show ?thesis using ok[of ?s] by (auto simp: empty_spool_def file_lines_def)
    qed
  qed
qed

lemma load_found:
  assumes "spool_ok lsize cfg s"
  shows "case load lsize cfg (found (sp_file s) torn) of
      Inl err \<Rightarrow> err = SpoolCapacityError
    | Inr s' \<Rightarrow> spool_ok lsize cfg s' \<and> sp_pending s' = sp_pending s \<and> set (sp_seen s') = set (sp_seen s)"
proof -
  obtain rs raw where rs: "file_lines (sp_file s) = map Complete rs" "\<forall>f. sp_file s = Some f \<longrightarrow> wf_tail f \<in> {NoTail, TornTail 0}"
    "apply_records ([], []) rs = Inr (raw, sp_seen s)" "sp_pending s = sort_events raw"
    using assms unfolding spool_ok_def by blast
  have old: "distinct (ids raw)" "distinct (sp_seen s)" "set (ids raw) \<subseteq> set (sp_seen s)"
    "length (acked_ids raw (sp_seen s)) \<le> sc_seen_event_limit cfg" "sp_size s = lines_size lsize (map Complete rs)" "sp_size s \<le> sc_max_bytes cfg"
    using assms unfolding spool_ok_def rs(1,4) by (simp_all add: acked_ids_def)
  note c = compact_props[OF old(2,1), of cfg]
  let ?c = "compact_seen_event_ids cfg raw (sp_seen s)" and ?p = "sort_events raw"
  have cs: "set ?c = set (sp_seen s)"
  proof -
    have u: "set xs = set (acked_ids raw xs) \<union> set (ids raw)" if "set (ids raw) \<subseteq> set xs" for xs
      using that by (auto simp: acked_ids_def)
    show ?thesis using u[OF c(2)] u[OF old(3)] unfolding c(4)[OF old(4)] by simp
  qed
  show ?thesis
  proof (cases "rs = []")
    case True
    then have e: "raw = []" "sp_seen s = []" using rs(3) by simp_all
    have "file_lines (found (sp_file s) torn) = []" "\<forall>f. found (sp_file s) torn = Some f \<longrightarrow> wf_tail f = NoTail \<or> (\<exists>n. wf_tail f = TornTail n)"
      using rs(1,2) True by (cases torn; auto simp: found_def torn_write_def file_lines_def)+
    from load_no_lines[OF this] obtain s' where "load lsize cfg (found (sp_file s) torn) = Inr s'" "spool_ok lsize cfg s'" "sp_pending s' = []" "sp_seen s' = []"
      by blast
    then show ?thesis using e rs(4) by (simp add: sort_events_def)
  next
    case False
    obtain f where f: "found (sp_file s) torn = Some f" "wf_lines f = map Complete rs" "wf_tail f = NoTail \<or> (\<exists>n. wf_tail f = TornTail n)"
    proof (cases torn)
      case None
      with False rs(1,2) that show ?thesis by (cases "sp_file s") (auto simp: found_def file_lines_def)
    next
      case (Some n)
      with rs(1) that show ?thesis by (auto simp: found_def torn_write_def)
    qed
    have dec: "decode_records f = Inr (rs, False, \<lparr>wf_lines = map Complete rs, wf_tail = NoTail\<rparr>)"
      using decode_complete[of "wf_tail f" _ rs] f(2,3) by (cases f) auto
    let ?s = "\<lparr>sp_pending = ?p, sp_seen = ?c, sp_size = sp_size s, sp_last_append = append_sizes lsize rs,
      sp_file = Some \<lparr>wf_lines = map Complete rs, wf_tail = NoTail\<rparr>\<rparr>"
    have l: "load lsize cfg (found (sp_file s) torn) = (if ?c \<noteq> sp_seen s then commit_state lsize cfg ?s ?p ?c else Inr ?s)"
      unfolding f(1) using False f(2) old(5,6) rs(3) by (simp add: load_def dec Let_def tail_size_def)
    show ?thesis
    proof (cases "?c = sp_seen s")
      case True
      have "spool_ok lsize cfg ?s"
        unfolding spool_ok_def using old rs(3) True by (auto simp: file_lines_def acked_ids_def intro!: exI[of _ rs] exI[of _ raw])
      then show ?thesis unfolding l using True rs(4) by simp
    next
      case neq: False
      show ?thesis
      proof (cases "commit_state lsize cfg ?s ?p ?c")
        case (Inl err)
        then show ?thesis unfolding l using neq by (auto simp: commit_state_def Let_def split: if_splits)
      next
        case (Inr s')
        have "sort_events ?p = ?p" unfolding sort_events_def by (intro sort_key_id_if_sorted sorted_sort_key)
        from commit_ok[OF Inr c(1) _ this] old(1)
        have s': "spool_ok lsize cfg s'" "sp_pending s' = ?p" "sp_seen s' = compact_seen_event_ids cfg ?p ?c" by simp_all
        have a: "acked_ids ?p ?c = acked_ids raw (sp_seen s)" using c(4)[OF old(4)] by (simp add: acked_ids_def)
        have k: "acked_ids ?p (compact_seen_event_ids cfg ?p ?c) = acked_ids ?p ?c" "set (ids ?p) \<subseteq> set (compact_seen_event_ids cfg ?p ?c)"
          using compact_props(2,4)[OF c(1), of ?p cfg] old(1,4) a by auto
        have "set (sp_seen s') = set ?c"
        proof -
          have u: "set xs = set (acked_ids ?p xs) \<union> set (ids ?p)" if "set (ids ?p) \<subseteq> set xs" for xs
            using that by (auto simp: acked_ids_def)
          show ?thesis using u[OF k(2)] u[of ?c] c(2) unfolding s'(3) k(1) by simp
        qed
        then show ?thesis unfolding l using neq Inr s' cs rs(4) by simp
      qed
    qed
  qed
qed

text \<open>
  The steps of the spool: an event is offered, ids are acknowledged, or the process restarts, possibly after a write that
  was torn off. The set is what the step acknowledges.
\<close>

inductive spool_step :: "(wal_line \<Rightarrow> nat) \<Rightarrow> spool_config \<Rightarrow> string set \<Rightarrow> spool \<Rightarrow> spool \<Rightarrow> bool"
  for lsize cfg where
  offered: "append_once lsize cfg s e = Inr (s', b) \<Longrightarrow> spool_step lsize cfg {} s s'"
| acked: "mark_acked lsize cfg s A = Inr s' \<Longrightarrow> spool_step lsize cfg A s s'"
| restarted: "load lsize cfg (found (sp_file s) torn) = Inr s' \<Longrightarrow> spool_step lsize cfg {} s s'"

definition spool_run :: "(wal_line \<Rightarrow> nat) \<Rightarrow> spool_config \<Rightarrow> string set \<Rightarrow> spool \<Rightarrow> spool \<Rightarrow> bool" where
  "spool_run lsize cfg keep s s' \<longleftrightarrow> (\<exists>A. A \<inter> keep = {} \<and> spool_step lsize cfg A s s')"

lemma spool_step_ok:
  assumes "spool_step lsize cfg A s s'" "spool_ok lsize cfg s"
  shows "spool_ok lsize cfg s' \<and> {e \<in> set (sp_pending s). sv_event_id e \<notin> A} \<subseteq> set (sp_pending s')"
  using assms
proof (induction rule: spool_step.induct)
  case (offered s e s' b)
  then show ?case using append_ok by blast
next
  case (acked s A s')
  then show ?case using ack_ok by auto
next
  case (restarted s torn s')
  then show ?case using load_found[of lsize cfg s torn] by simp
qed

lemma empty_spool_ok: "spool_ok lsize cfg empty_spool"
  by (auto simp: spool_ok_def empty_spool_def lines_size_def ids_def acked_ids_def sort_events_def file_lines_def intro!: exI[of _ "[]"])

interpretation event_spool: invariant_store empty_spool "spool_run lsize cfg keep" "spool_ok lsize cfg" for lsize cfg keep
proof
  show "spool_ok lsize cfg empty_spool" by (rule empty_spool_ok)
  show "\<And>s s'. spool_ok lsize cfg s \<Longrightarrow> spool_run lsize cfg keep s s' \<Longrightarrow> spool_ok lsize cfg s'"
    using spool_step_ok by (auto simp: spool_run_def)
qed

text \<open>
  C23. A restart loses nothing. Whatever was offered, acknowledged and restarted before, and wherever a last write was torn
  off, loading the file gives back exactly the pending events, in their order, and the same remembered ids; the only
  failure is a file that does not fit the byte budget. The pending events have distinct ids and are ordered by time, and the
  bytes in use stay within the budget.
\<close>

theorem spool_recovers:
  assumes "(spool_run lsize cfg {})\<^sup>*\<^sup>* empty_spool s"
  shows "(case load lsize cfg (found (sp_file s) torn) of
      Inl err \<Rightarrow> err = SpoolCapacityError
    | Inr s' \<Rightarrow> sp_pending s' = sp_pending s \<and> set (sp_seen s') = set (sp_seen s))
    \<and> distinct (map sv_event_id (sp_pending s)) \<and> sorted (map sv_ts_event (sp_pending s)) \<and> sp_size s \<le> sc_max_bytes cfg"
proof -
  have ok: "spool_ok lsize cfg s" by (rule event_spool.reachable_inv[OF assms])
  then have "sorted (map event_order_key (sp_pending s))" by (auto simp: spool_ok_def sort_events_def)
  then have "sorted (map sv_ts_event (sp_pending s))" unfolding sorted_map by (rule sorted_wrt_mono_rel[rotated]) (auto simp: event_order_key_def)
  then show ?thesis using load_found[OF ok, of torn] ok by (auto simp: spool_ok_def ids_def split: sum.splits)
qed

text \<open>
  The spool as a durable queue: an event that it took stays pending, unchanged, until its id is acknowledged.
\<close>

interpretation spool_queue: durable_queue "spool_step lsize cfg" "\<lambda>s. set (sp_pending s)" sv_event_id "spool_ok lsize cfg" for lsize cfg
proof
  show "\<And>A s s'. spool_step lsize cfg A s s' \<Longrightarrow> spool_ok lsize cfg s \<Longrightarrow> spool_ok lsize cfg s'"
    using spool_step_ok by blast
  show "\<And>A s s' e. spool_step lsize cfg A s s' \<Longrightarrow> spool_ok lsize cfg s \<Longrightarrow> e \<in> set (sp_pending s) \<Longrightarrow> sv_event_id e \<notin> A
      \<Longrightarrow> e \<in> set (sp_pending s')"
    using spool_step_ok by blast
qed

section \<open>Writes that fail without a restart\<close>

text \<open>
  A write that fails part of the way and does not end the process leaves bytes without a newline in the file; the
  next event is written behind them, and the next start refuses the log as corrupt.
\<close>

theorem failed_write_corrupts_log:
  "\<exists>e s'. append_once (\<lambda>_. 10) \<lparr>sc_max_bytes = 100, sc_degraded_ratio = 4 / 5, sc_seen_event_limit = 10\<rparr>
      (empty_spool \<lparr>sp_file := torn_write None 3\<rparr>) e = Inr (s', True)
    \<and> load (\<lambda>_. 10) \<lparr>sc_max_bytes = 100, sc_degraded_ratio = 4 / 5, sc_seen_event_limit = 10\<rparr> (sp_file s') = Inl SpoolCorruptionError"
  by (rule exI[of _ "\<lparr>sv_event_id = ''e1'', sv_node_id = ''n1'', sv_account_id = ''a1'', sv_intent_id = None,
      sv_client_order_id = None, sv_venue_order_id = None, sv_trade_id = None, sv_event_type = ''OrderFilled'',
      sv_ts_event = 5, sv_ts_ingest = 6, sv_payload = []\<rparr>"])
    (simp add: append_once_def empty_spool_def torn_write_def append_encoded_def file_lines_def load_def decode_records_def Let_def)

section \<open>Example\<close>

definition example_config :: spool_config where
  "example_config = \<lparr>sc_max_bytes = 1000, sc_degraded_ratio = 4 / 5, sc_seen_event_limit = 10\<rparr>"

definition example_event :: spool_event where
  "example_event = \<lparr>sv_event_id = ''e1'', sv_node_id = ''n1'', sv_account_id = ''a1'', sv_intent_id = None,
      sv_client_order_id = None, sv_venue_order_id = None, sv_trade_id = None, sv_event_type = ''OrderFilled'',
      sv_ts_event = 5, sv_ts_ingest = 6, sv_payload = []\<rparr>"

lemma example_append: "\<exists>s. append_once (\<lambda>_. 10) example_config empty_spool example_event = Inr (s, True) \<and> sp_pending s = [example_event]"
  by (simp add: append_once_def empty_spool_def example_config_def sort_events_def)

theorem spool_recovers_witness:
  "\<exists>s :: spool. sp_pending s = [example_event] \<and> sp_size s \<le> 1000
    \<and> (case load (\<lambda>_. 10) example_config (found (sp_file s) (Some 4)) of
         Inl err \<Rightarrow> err = SpoolCapacityError
       | Inr s' \<Rightarrow> sp_pending s' = sp_pending s \<and> set (sp_seen s') = set (sp_seen s))"
proof -
  obtain s where a: "append_once (\<lambda>_. 10) example_config empty_spool example_event = Inr (s, True)" "sp_pending s = [example_event]"
    using example_append by blast
  have "spool_run (\<lambda>_. 10) example_config {} empty_spool s" unfolding spool_run_def using spool_step.offered[OF a(1)] by blast
  then have "(spool_run (\<lambda>_. 10) example_config {})\<^sup>*\<^sup>* empty_spool s" by blast
  from spool_recovers[OF this, of "Some 4"] have "sp_size s \<le> 1000" "case load (\<lambda>_. 10) example_config (found (sp_file s) (Some 4)) of
         Inl err \<Rightarrow> err = SpoolCapacityError
       | Inr s' \<Rightarrow> sp_pending s' = sp_pending s \<and> set (sp_seen s') = set (sp_seen s)"
    by (simp_all add: example_config_def)
  with a(2) show ?thesis by (intro exI[of _ s] conjI)
qed

end
