(* ===== verification/Projection_Actor.thy ===== *)
theory Projection_Actor
  imports Event_Spool
begin

text \<open>
  The projection actor of the node (\<open>projection/actor.py\<close>) and its event mapper
  (\<open>projection/event_mapper.py\<close>): execution events of the trading framework become envelopes, envelopes in the scope
  of the node go to the durable spool, and a flush sends the oldest of them to the control plane and forgets what it
  acknowledges.

  An event of the framework is given by its attributes (the keys of a dict or the attributes of an object) as JSON values,
  its nested payload and its raw time. SHA-256 of the canonical JSON text is the parameter \<open>digest\<close>, the control
  plane the parameter \<open>sink\<close>, which raises by returning nothing, and the clock the argument \<open>now\<close>.
\<close>

section \<open>Mapping events\<close>

definition ORDER_EVENT_TYPES :: "string list" where
  "ORDER_EVENT_TYPES =
     [''OrderSubmitted'', ''OrderAccepted'', ''OrderFilled'', ''OrderCanceled'', ''OrderRejected'', ''OrderDenied'',
      ''OrderExpired'', ''OrderUpdated'', ''OrderPendingUpdate'', ''OrderPendingCancel'']"

definition POSITION_EVENT_TYPES :: "string list" where
  "POSITION_EVENT_TYPES = [''PositionOpened'', ''PositionChanged'', ''PositionClosed'']"

definition ACCOUNT_EVENT_TYPES :: "string list" where
  "ACCOUNT_EVENT_TYPES = [''AccountState'', ''AccountBalance'', ''AccountMargin'']"

datatype event_family = OrderFamily | PositionFamily | AccountFamily

definition EVENT_MAPPING_CATALOG :: "string \<Rightarrow> event_family option" where
  "EVENT_MAPPING_CATALOG t =
     (if t \<in> set ACCOUNT_EVENT_TYPES then Some AccountFamily
      else if t \<in> set POSITION_EVENT_TYPES then Some PositionFamily
      else if t \<in> set ORDER_EVENT_TYPES then Some OrderFamily
      else None)"

record ProjectionConfig =
  prc_node_id :: node_id
  prc_account_id :: account_id
  prc_max_flush_batch_size :: nat
  prc_allowed_instrument_ids :: "string list"
  prc_require_robot_order_ownership :: bool

datatype raw_ts = NoTs | IntTs int | DatetimeTs instant

record raw_event =
  rw_class_name :: string
  rw_attributes :: dict
  rw_nested :: dict
  rw_ts :: raw_ts
  rw_payload_extra :: dict

fun attr :: "raw_event \<Rightarrow> string list \<Rightarrow> json" where
  "attr e [] = JNull"
| "attr e (name # names) =
     (if jget (rw_attributes e) name \<noteq> JNull then jget (rw_attributes e) name
      else if jget (rw_nested e) name \<noteq> JNull then jget (rw_nested e) name
      else attr e names)"

definition optional_str :: "json \<Rightarrow> string option" where
  "optional_str v = (if v = JNull \<or> json_str v = [] then None else Some (json_str v))"

definition event_type :: "raw_event \<Rightarrow> string" where
  "event_type e =
     (case optional_str (attr e [''event_type'', ''type'']) of Some t \<Rightarrow> t | None \<Rightarrow> rw_class_name e)"

definition event_is_in_scope :: "ProjectionConfig \<Rightarrow> string \<Rightarrow> string option \<Rightarrow> string option \<Rightarrow> string option \<Rightarrow> bool" where
  "event_is_in_scope cfg etype client_order_id instrument_id position_id =
     (if EVENT_MAPPING_CATALOG etype = Some AccountFamily then True
      else if prc_allowed_instrument_ids cfg \<noteq> [] \<and> instrument_id \<notin> Some ` set (prc_allowed_instrument_ids cfg) then False
      else if \<not> prc_require_robot_order_ownership cfg then True
      else if EVENT_MAPPING_CATALOG etype = Some OrderFamily
        then (case client_order_id of Some c \<Rightarrow> is_robot_client_order_id c | None \<Rightarrow> False)
      else (case position_id of None \<Rightarrow> False | Some p \<Rightarrow> \<not> endswith (upper p) ''-EXTERNAL''))"

text \<open>
  A whole number of seconds, milliseconds or nanoseconds, told apart by its size, as microseconds. A quotient is a float;
  its fraction is scaled to microseconds in float arithmetic and rounded half to even, as \<open>datetime.fromtimestamp\<close> does. An
  instant outside the years 1 to 9999 raises.
\<close>

definition from_timestamp :: "rat \<Rightarrow> instant result" where
  "from_timestamp x =
     (let whole = round_down x; us = whole * 1000000 + round_half_even (flt (flt (x - of_int whole) * 1000000))
      in if - 62135596800000000 \<le> us \<and> us < 253402300800000000 then Inr us else Inl ValueError)"

definition timestamp_to_datetime :: "raw_ts \<Rightarrow> instant result" where
  "timestamp_to_datetime raw =
     (case raw of
        DatetimeTs t \<Rightarrow> Inr t
      | NoTs \<Rightarrow> Inr 0
      | IntTs v \<Rightarrow>
          if \<bar>v\<bar> > 10000000000000 then from_timestamp (flt (of_int v / 1000000000))
          else if \<bar>v\<bar> > 10000000000 then from_timestamp (flt (of_int v / 1000))
          else from_timestamp (of_int v))"

definition stable_timestamp_part :: "raw_ts \<Rightarrow> msg" where
  "stable_timestamp_part raw =
     (case raw of NoTs \<Rightarrow> [] | IntTs v \<Rightarrow> [PDec (of_int v)] | DatetimeTs t \<Rightarrow> [PInstant t])"

definition text_or_empty :: "string option \<Rightarrow> string" where
  "text_or_empty s = (case s of Some t \<Rightarrow> t | None \<Rightarrow> [])"

definition stable_event_id ::
    "((string \<times> msg) list \<Rightarrow> string) \<Rightarrow> account_id \<Rightarrow> string \<Rightarrow> string option \<Rightarrow> string option \<Rightarrow> string option \<Rightarrow> raw_ts \<Rightarrow> string" where
  "stable_event_id digest account etype client_order_id venue_order_id trade_id raw =
     digest [(''account_id'', [PText account]), (''event_type'', [PText etype]),
       (''client_order_id'', [PText (text_or_empty client_order_id)]), (''venue_order_id'', [PText (text_or_empty venue_order_id)]),
       (''trade_id'', [PText (text_or_empty trade_id)]), (''ts_event'', stable_timestamp_part raw)]"

definition PAYLOAD_KEYS :: "string list" where
  "PAYLOAD_KEYS =
     [''instrument_id'', ''order_side'', ''side'', ''order_type'', ''time_in_force'', ''quantity'', ''qty'', ''filled_qty'',
      ''leaves_qty'', ''price'', ''avg_px'', ''last_px'', ''last_qty'', ''quote_qty'', ''commission'', ''commission_asset'',
      ''position_side'', ''reduce_only'', ''maker'', ''buyer'', ''status'', ''recovered'', ''source'', ''position_id'',
      ''realized_pnl'', ''currency'', ''balance'', ''margin_balance'', ''total'', ''free'', ''locked'', ''reason'']"

text \<open>Iterating over a value: the elements of a list, the characters of a text, the keys of an object.\<close>

fun json_iter :: "json \<Rightarrow> json list result" where
  "json_iter (JList xs) = Inr xs"
| "json_iter (JObj d) = Inr (map (JStr \<circ> fst) d)"
| "json_iter (JStr s) = Inr (map (\<lambda>c. JStr [c]) s)"
| "json_iter (JDec x) = Inr (map (\<lambda>c. JStr [c]) (show_dec x))"
| "json_iter _ = Inl TypeError"

definition event_tags :: "raw_event \<Rightarrow> string list result" where
  "event_tags e =
     (let tags = attr e [''tags'']
      in if truthy tags then bind_result (json_iter tags) (\<lambda>xs. Inr (map json_str xs)) else Inr [])"

definition event_payload :: "raw_event \<Rightarrow> string option \<Rightarrow> dict result" where
  "event_payload e instrument_id =
     (let extra = dict_update [] (rw_payload_extra e);
          with_instrument = (case instrument_id of Some i \<Rightarrow> dict_set extra ''instrument_id'' (JStr i) | None \<Rightarrow> extra);
          payload = foldl (\<lambda>acc k. if attr e [k] = JNull then acc else dict_set acc k (attr e [k])) with_instrument PAYLOAD_KEYS
      in bind_result (event_tags e) (\<lambda>tags.
           Inr (if truthy (attr e [''tags'']) then dict_set payload ''tags'' (JList (map JStr tags)) else payload)))"

definition uuid_or_none :: "string \<Rightarrow> uuid option" where
  "uuid_or_none s = (case parse_uuid s of Inr u \<Rightarrow> Some u | Inl _ \<Rightarrow> None)"

definition intent_from_client_order_id :: "string \<Rightarrow> uuid option" where
  "intent_from_client_order_id c =
     (if length c \<noteq> 35 \<or> \<not> startswith c ''B'' then None else uuid_or_none (take 32 (drop 1 c)))"

definition event_intent_id :: "raw_event \<Rightarrow> string option \<Rightarrow> uuid option result" where
  "event_intent_id e client_order_id =
     (case optional_str (attr e [''intent_id'']) of
        Some direct \<Rightarrow> Inr (uuid_or_none direct)
      | None \<Rightarrow>
          bind_result (event_tags e) (\<lambda>tags.
          Inr (case List.find (\<lambda>t. startswith t ''intent_id='') tags of
                 Some t \<Rightarrow> uuid_or_none (drop 10 t)
               | None \<Rightarrow> (case client_order_id of Some c \<Rightarrow> intent_from_client_order_id c | None \<Rightarrow> None))))"

text \<open>An event time before 2020 counts as missing and is replaced by the time of ingestion.\<close>

definition to_envelope ::
    "((string \<times> msg) list \<Rightarrow> string) \<Rightarrow> ProjectionConfig \<Rightarrow> instant \<Rightarrow> raw_event \<Rightarrow> spool_event option result" where
  "to_envelope digest cfg now e =
     (let etype = event_type e
      in if EVENT_MAPPING_CATALOG etype = None then Inr None
         else bind_result (timestamp_to_datetime (rw_ts e)) (\<lambda>t.
           let ts_event = (if t < 1577836800000000 then now else t);
               client_order_id = optional_str (attr e [''client_order_id'']);
               venue_order_id = optional_str (attr e [''venue_order_id'', ''order_id'']);
               trade_id = optional_str (attr e [''trade_id'', ''venue_trade_id'']);
               instrument_id = optional_str (attr e [''instrument_id'']);
               position_id = optional_str (attr e [''position_id''])
           in if \<not> event_is_in_scope cfg etype client_order_id instrument_id position_id then Inr None
              else bind_result (event_intent_id e client_order_id) (\<lambda>intent_id.
                   bind_result (event_payload e instrument_id) (\<lambda>payload.
                   if prc_node_id cfg = [] \<or> prc_account_id cfg = [] then Inl ValueError
                   else Inr (Some
                     \<lparr>sv_event_id = stable_event_id digest (prc_account_id cfg) etype client_order_id venue_order_id trade_id (rw_ts e),
                      sv_node_id = prc_node_id cfg, sv_account_id = prc_account_id cfg, sv_intent_id = intent_id,
                      sv_client_order_id = client_order_id, sv_venue_order_id = venue_order_id, sv_trade_id = trade_id,
                      sv_event_type = etype, sv_ts_event = ts_event, sv_ts_ingest = now, sv_payload = payload\<rparr>)))))"

definition is_expected_ownership_ignore :: "ProjectionConfig \<Rightarrow> raw_event \<Rightarrow> bool" where
  "is_expected_ownership_ignore cfg e \<longleftrightarrow>
     EVENT_MAPPING_CATALOG (event_type e) \<noteq> None
     \<and> \<not> event_is_in_scope cfg (event_type e) (optional_str (attr e [''client_order_id''])) (optional_str (attr e [''instrument_id'']))
          (optional_str (attr e [''position_id'']))"

section \<open>The actor\<close>

datatype ProjectionIngestOutcome = DURABLE | DEDUPED | IGNORED | FILTERED | OUTCOME_HALTED

text \<open>A usage is printed in tenths of a percent.\<close>

datatype egress_reason = TextReason string | UsageReason int

datatype health_call =
    RecordProgress int string
  | ProjectionReady
  | ProjectionFailed string
  | ProjectionDegraded egress_reason
  | DegradedCleared

record pending_pos =
  pp_pending_count :: nat
  pp_first_event_id :: "string option"
  pp_last_event_id :: "string option"

record unflushed_position =
  up_position :: pending_pos
  up_reason :: string
  up_recorded_at :: instant

record projection_actor =
  pa_spool :: spool
  pa_degraded :: egress_reason
  pa_halted :: string
  pa_health :: "health_call list"
  pa_unflushed :: "unflushed_position option"

datatype actor_error = SpoolRaised spool_error | EventRaised py_exc

datatype actor_event = Envelope spool_event | Raw raw_event

definition health_notice :: "projection_actor \<Rightarrow> health_call \<Rightarrow> projection_actor" where
  "health_notice a c = a \<lparr>pa_health := pa_health a @ [c]\<rparr>"

definition mark_egress_degraded :: "projection_actor \<Rightarrow> egress_reason \<Rightarrow> projection_actor" where
  "mark_egress_degraded a reason =
     (if pa_halted a \<noteq> [] then a
      else if pa_degraded a = reason then a
      else health_notice (a \<lparr>pa_degraded := reason\<rparr>) (ProjectionDegraded reason))"

definition clear_egress_degraded :: "projection_actor \<Rightarrow> projection_actor" where
  "clear_egress_degraded a =
     (if pa_halted a \<noteq> [] then a
      else if pa_degraded a = TextReason [] then a
      else health_notice (a \<lparr>pa_degraded := TextReason []\<rparr>) DegradedCleared)"

definition halt_egress :: "projection_actor \<Rightarrow> string \<Rightarrow> projection_actor" where
  "halt_egress a reason =
     (if pa_halted a \<noteq> [] then a else health_notice (a \<lparr>pa_halted := reason\<rparr>) (ProjectionFailed reason))"

definition sync_spool_pressure :: "spool_config \<Rightarrow> projection_actor \<Rightarrow> projection_actor" where
  "sync_spool_pressure scfg a =
     (if is_degraded scfg (pa_spool a)
      then mark_egress_degraded a (UsageReason (round_half_even (1000 * of_nat (sp_size (pa_spool a)) / of_nat (sc_max_bytes scfg))))
      else clear_egress_degraded a)"

definition start_actor :: "spool_config \<Rightarrow> spool \<Rightarrow> projection_actor" where
  "start_actor scfg s =
     sync_spool_pressure scfg \<lparr>pa_spool = s, pa_degraded = TextReason [], pa_halted = [], pa_health = [], pa_unflushed = None\<rparr>"

definition lag_ms :: "instant \<Rightarrow> instant \<Rightarrow> int" where
  "lag_ms now ts_event = max 0 (round_down (flt (total_seconds (now - ts_event) * 1000)))"

definition record_projection_progress :: "instant \<Rightarrow> projection_actor \<Rightarrow> spool_event \<Rightarrow> projection_actor" where
  "record_projection_progress now a e = health_notice a (RecordProgress (lag_ms now (sv_ts_event e)) (sv_event_id e))"

definition mark_projection_ready :: "projection_actor \<Rightarrow> projection_actor" where
  "mark_projection_ready a = (if pa_halted a \<noteq> [] then a else health_notice a ProjectionReady)"

definition payload_str :: "dict \<Rightarrow> string \<Rightarrow> string option" where
  "payload_str payload k = (if jget payload k = JNull then None else Some (json_str (jget payload k)))"

definition envelope_event_in_scope :: "ProjectionConfig \<Rightarrow> spool_event \<Rightarrow> bool" where
  "envelope_event_in_scope cfg e =
     event_is_in_scope cfg (sv_event_type e) (sv_client_order_id e) (payload_str (sv_payload e) ''instrument_id'')
       (payload_str (sv_payload e) ''position_id'')"

definition canonical_envelope_in_scope :: "ProjectionConfig \<Rightarrow> spool_event \<Rightarrow> bool" where
  "canonical_envelope_in_scope cfg e =
     (if sv_account_id e \<noteq> prc_account_id cfg then False
      else if sv_node_id e \<noteq> prc_node_id cfg then False
      else if EVENT_MAPPING_CATALOG (sv_event_type e) = None then False
      else envelope_event_in_scope cfg e)"

definition canonical_envelope_ownership_ignore :: "ProjectionConfig \<Rightarrow> spool_event \<Rightarrow> bool" where
  "canonical_envelope_ownership_ignore cfg e =
     (if sv_account_id e \<noteq> prc_account_id cfg then False
      else if sv_node_id e \<noteq> prc_node_id cfg then False
      else if EVENT_MAPPING_CATALOG (sv_event_type e) = None then False
      else \<not> envelope_event_in_scope cfg e)"

text \<open>The envelope of an event, or the outcome that ends its ingestion.\<close>

definition accepted_envelope ::
    "((string \<times> msg) list \<Rightarrow> string) \<Rightarrow> ProjectionConfig \<Rightarrow> instant \<Rightarrow> actor_event \<Rightarrow> actor_error + (ProjectionIngestOutcome + spool_event)" where
  "accepted_envelope digest cfg now ev =
     (case ev of
        Envelope e \<Rightarrow>
          if \<not> canonical_envelope_in_scope cfg e
          then Inr (Inl (if canonical_envelope_ownership_ignore cfg e then IGNORED else FILTERED))
          else Inr (Inr e)
      | Raw e \<Rightarrow>
          (case to_envelope digest cfg now e of
             Inl err \<Rightarrow> Inl (EventRaised err)
           | Inr None \<Rightarrow> Inr (Inl (if is_expected_ownership_ignore cfg e then IGNORED else FILTERED))
           | Inr (Some env) \<Rightarrow> Inr (Inr env)))"

definition ingest_event ::
    "((string \<times> msg) list \<Rightarrow> string) \<Rightarrow> (wal_line \<Rightarrow> nat) \<Rightarrow> spool_config \<Rightarrow> ProjectionConfig \<Rightarrow> instant \<Rightarrow> projection_actor
      \<Rightarrow> actor_event \<Rightarrow> actor_error + projection_actor \<times> ProjectionIngestOutcome \<times> string option" where
  "ingest_event digest lsize scfg cfg now a ev =
     (if pa_halted a \<noteq> [] then Inr (a, OUTCOME_HALTED, None)
      else
        bind_result (accepted_envelope digest cfg now ev) (\<lambda>r.
        case r of
          Inl outcome \<Rightarrow> Inr (a, outcome, None)
        | Inr e \<Rightarrow>
            (case append_once lsize scfg (pa_spool a) e of
               Inl err \<Rightarrow> Inl (SpoolRaised err)
             | Inr (s, appended) \<Rightarrow>
                 let a1 = sync_spool_pressure scfg (a \<lparr>pa_spool := s\<rparr>)
                 in if appended then Inr (record_projection_progress now a1 e, DURABLE, Some (sv_event_id e))
                    else Inr (a1, DEDUPED, Some (sv_event_id e)))))"

definition find_event :: "spool_event list \<Rightarrow> string \<Rightarrow> spool_event option" where
  "find_event es i = List.find (\<lambda>e. sv_event_id e = i) es"

definition flush ::
    "(node_id \<Rightarrow> spool_event list \<Rightarrow> string list option) \<Rightarrow> (wal_line \<Rightarrow> nat) \<Rightarrow> spool_config \<Rightarrow> ProjectionConfig \<Rightarrow> instant \<Rightarrow> projection_actor
      \<Rightarrow> actor_error + projection_actor \<times> string list" where
  "flush sink lsize scfg cfg now a =
     (let pending = pending_events (pa_spool a) (Some (prc_max_flush_batch_size cfg))
      in if pending = [] then Inr (a, [])
         else case sink (prc_node_id cfg) pending of
                None \<Rightarrow> Inr (health_notice a (ProjectionFailed ''control-plane execution-event sink unavailable''), [])
              | Some acked \<Rightarrow>
                  (case mark_acked lsize scfg (pa_spool a) (set acked) of
                     Inl err \<Rightarrow> Inl (SpoolRaised err)
                   | Inr s \<Rightarrow>
                       let a1 = sync_spool_pressure scfg (a \<lparr>pa_spool := s\<rparr>);
                           a2 = (if acked = [] then a1
                                 else case find_event pending (last acked) of
                                        None \<Rightarrow> a1
                                      | Some e \<Rightarrow> record_projection_progress now a1 e);
                           a3 = (if sp_pending (pa_spool a2) = [] then mark_projection_ready a2 else a2)
                       in Inr (a3, acked)))"

definition on_event ::
    "((string \<times> msg) list \<Rightarrow> string) \<Rightarrow> (node_id \<Rightarrow> spool_event list \<Rightarrow> string list option) \<Rightarrow> (wal_line \<Rightarrow> nat) \<Rightarrow> spool_config
      \<Rightarrow> ProjectionConfig \<Rightarrow> instant \<Rightarrow> projection_actor \<Rightarrow> actor_event \<Rightarrow> actor_error + projection_actor \<times> string option" where
  "on_event digest sink lsize scfg cfg now a ev =
     bind_result (ingest_event digest lsize scfg cfg now a ev) (\<lambda>(a1, outcome, event_id).
     if outcome \<notin> {DURABLE, DEDUPED} then Inr (a1, None)
     else bind_result (flush sink lsize scfg cfg now a1) (\<lambda>(a2, _). Inr (a2, event_id)))"

definition pending_position :: "projection_actor \<Rightarrow> pending_pos" where
  "pending_position a =
     (let pending = pending_events (pa_spool a) None
      in \<lparr>pp_pending_count = length pending,
          pp_first_event_id = (if pending = [] then None else Some (sv_event_id (hd pending))),
          pp_last_event_id = (if pending = [] then None else Some (sv_event_id (last pending)))\<rparr>)"

definition record_unflushed_position :: "instant \<Rightarrow> projection_actor \<Rightarrow> string \<Rightarrow> projection_actor \<times> unflushed_position" where
  "record_unflushed_position now a reason =
     (let r = \<lparr>up_position = pending_position a, up_reason = reason, up_recorded_at = now\<rparr>
      in (a \<lparr>pa_unflushed := Some r\<rparr>, r))"


section \<open>The actor drives the spool\<close>

lemma pa_spool_simps [simp]:
  "pa_spool (health_notice a c) = pa_spool a" "pa_spool (mark_egress_degraded a r) = pa_spool a"
  "pa_spool (clear_egress_degraded a) = pa_spool a" "pa_spool (halt_egress a reason) = pa_spool a"
  "pa_spool (sync_spool_pressure scfg a) = pa_spool a" "pa_spool (record_projection_progress now a e) = pa_spool a"
  "pa_spool (mark_projection_ready a) = pa_spool a" "pa_spool (start_actor scfg s) = s"
  "pa_spool (fst (record_unflushed_position now a reason)) = pa_spool a"
  by (simp_all add: health_notice_def mark_egress_degraded_def clear_egress_degraded_def halt_egress_def sync_spool_pressure_def
      record_projection_progress_def mark_projection_ready_def start_actor_def record_unflushed_position_def Let_def)

lemma pa_halted_simps [simp]:
  "pa_halted (sync_spool_pressure scfg a) = pa_halted a" "pa_halted (record_projection_progress now a e) = pa_halted a"
  by (simp_all add: sync_spool_pressure_def mark_egress_degraded_def clear_egress_degraded_def health_notice_def record_projection_progress_def)

text \<open>The steps of an actor; the set is what the control plane acknowledged in the step.\<close>

inductive actor_step ::
    "((string \<times> msg) list \<Rightarrow> string) \<Rightarrow> (wal_line \<Rightarrow> nat) \<Rightarrow> spool_config \<Rightarrow> ProjectionConfig \<Rightarrow> string set
      \<Rightarrow> projection_actor \<Rightarrow> projection_actor \<Rightarrow> bool"
  for digest lsize scfg cfg where
  ingested: "ingest_event digest lsize scfg cfg now a ev = Inr (a', outcome, i) \<Longrightarrow> actor_step digest lsize scfg cfg {} a a'"
| flushed: "flush sink lsize scfg cfg now a = Inr (a', acked) \<Longrightarrow> actor_step digest lsize scfg cfg (set acked) a a'"
| degraded: "actor_step digest lsize scfg cfg {} a (mark_egress_degraded a r)"
| cleared: "actor_step digest lsize scfg cfg {} a (clear_egress_degraded a)"
| halted: "actor_step digest lsize scfg cfg {} a (halt_egress a reason)"
| noted: "actor_step digest lsize scfg cfg {} a (fst (record_unflushed_position now a reason))"
| reopened: "load lsize scfg (found (sp_file (pa_spool a)) torn) = Inr s \<Longrightarrow> actor_step digest lsize scfg cfg {} a (start_actor scfg s)"

lemma ingest_cases:
  assumes "ingest_event digest lsize scfg cfg now a ev = Inr (a', outcome, i)"
  obtains "pa_spool a' = pa_spool a" "outcome \<in> {OUTCOME_HALTED, IGNORED, FILTERED}" "i = None"
  | e b where "accepted_envelope digest cfg now ev = Inr (Inr e)" "append_once lsize scfg (pa_spool a) e = Inr (pa_spool a', b)"
      "outcome = (if b then DURABLE else DEDUPED)" "i = Some (sv_event_id e)"
proof (cases "pa_halted a = []")
  case False
  then show ?thesis using assms that(1) by (simp add: ingest_event_def)
next
  case True
  then obtain r where r: "accepted_envelope digest cfg now ev = Inr r"
    using assms by (cases "accepted_envelope digest cfg now ev") (simp_all add: ingest_event_def)
  show ?thesis
  proof (cases r)
    case (Inl out)
    have "out \<in> {IGNORED, FILTERED}"
      using r Inl by (auto simp: accepted_envelope_def split: actor_event.splits if_splits sum.splits option.splits)
    then show ?thesis using assms r Inl True that(1) by (simp add: ingest_event_def)
  next
    case (Inr e)
    then obtain s b where sb: "append_once lsize scfg (pa_spool a) e = Inr (s, b)"
      using assms r True by (cases "append_once lsize scfg (pa_spool a) e") (auto simp: ingest_event_def)
    then show ?thesis using assms r Inr True that(2)[of e b] by (cases b) (auto simp: ingest_event_def Let_def)
  qed
qed

lemma flush_cases:
  assumes "flush sink lsize scfg cfg now a = Inr (a', acked)"
  shows "pa_spool a' = pa_spool a \<or> mark_acked lsize scfg (pa_spool a) (set acked) = Inr (pa_spool a')"
proof (cases "pending_events (pa_spool a) (Some (prc_max_flush_batch_size cfg)) = []")
  case True
  then show ?thesis using assms by (simp add: flush_def)
next
  case False
  show ?thesis
  proof (cases "sink (prc_node_id cfg) (pending_events (pa_spool a) (Some (prc_max_flush_batch_size cfg)))")
    case None
    then show ?thesis using assms False by (auto simp: flush_def)
  next
    case (Some ids')
    then show ?thesis
      using assms False
      by (cases "mark_acked lsize scfg (pa_spool a) (set ids')") (auto simp: flush_def Let_def split: option.splits)
  qed
qed

text \<open>A step of the actor is a step of its spool or leaves the spool alone.\<close>

lemma actor_refines_spool:
  assumes "actor_step digest lsize scfg cfg A a a'"
  shows "pa_spool a' = pa_spool a \<or> spool_step lsize scfg A (pa_spool a) (pa_spool a')"
  using assms
proof (induction rule: actor_step.induct)
  case (ingested now a ev a' outcome i)
  then show ?case by (cases rule: ingest_cases) (auto intro: spool_step.offered)
next
  case (flushed sink now a a' acked)
  then show ?case using flush_cases by (blast intro: spool_step.acked)
next
  case (reopened a torn s)
  then show ?case by (simp add: spool_step.restarted)
qed simp_all

definition actor_run ::
    "((string \<times> msg) list \<Rightarrow> string) \<Rightarrow> (wal_line \<Rightarrow> nat) \<Rightarrow> spool_config \<Rightarrow> ProjectionConfig \<Rightarrow> string set
      \<Rightarrow> projection_actor \<Rightarrow> projection_actor \<Rightarrow> bool" where
  "actor_run digest lsize scfg cfg keep a a' \<longleftrightarrow> (\<exists>A. A \<inter> keep = {} \<and> actor_step digest lsize scfg cfg A a a')"

section \<open>Scope\<close>

lemma jget_fold_attrs:
  "jget (foldl (\<lambda>acc k. if attr e [k] = JNull then acc else dict_set acc k (attr e [k])) d ks) k
     = (if k \<in> set ks \<and> attr e [k] \<noteq> JNull then attr e [k] else jget d k)"
  by (induction ks arbitrary: d) (auto simp: jget_dict_set)

lemma payload_key:
  assumes "event_payload e instrument_id = Inr payload" "k \<in> set PAYLOAD_KEYS" "attr e [k] \<noteq> JNull" "k \<noteq> ''tags''"
  shows "jget payload k = attr e [k]"
proof -
  obtain tags where "event_tags e = Inr tags" using assms(1) by (cases "event_tags e") (auto simp: event_payload_def Let_def)
  with assms show ?thesis
    by (auto simp: event_payload_def Let_def jget_dict_set jget_fold_attrs simp del: attr.simps split: if_splits)
qed

text \<open>The envelope of a mapped event passes the scope check of envelopes as well.\<close>

lemma mapped_envelope_in_scope:
  assumes "to_envelope digest cfg now e = Inr (Some env)"
  shows "canonical_envelope_in_scope cfg env"
proof -
  obtain t where t: "timestamp_to_datetime (rw_ts e) = Inr t" and cat: "EVENT_MAPPING_CATALOG (event_type e) \<noteq> None"
    using assms by (cases "timestamp_to_datetime (rw_ts e)") (auto simp: to_envelope_def Let_def split: if_splits)
  let ?c = "optional_str (attr e [''client_order_id''])" and ?i = "optional_str (attr e [''instrument_id''])"
    and ?p = "optional_str (attr e [''position_id''])"
  have scope: "event_is_in_scope cfg (event_type e) ?c ?i ?p"
    using assms t cat by (auto simp: to_envelope_def Let_def simp del: attr.simps split: if_splits)
  obtain u where u: "event_intent_id e ?c = Inr u"
    using assms t cat scope by (cases "event_intent_id e ?c") (auto simp: to_envelope_def Let_def simp del: attr.simps)
  obtain payload where pl: "event_payload e ?i = Inr payload"
    using assms t cat scope u by (cases "event_payload e ?i") (auto simp: to_envelope_def Let_def simp del: attr.simps)
  have env: "sv_account_id env = prc_account_id cfg" "sv_node_id env = prc_node_id cfg" "sv_event_type env = event_type e"
    "sv_client_order_id env = ?c" "sv_payload env = payload"
    using assms t cat scope u pl by (auto simp: to_envelope_def Let_def simp del: attr.simps split: if_splits)
  have key: "payload_str payload k = Some x" if "k \<in> {''instrument_id'', ''position_id''}" "optional_str (attr e [k]) = Some x" for k x
  proof -
    have v: "attr e [k] \<noteq> JNull" "json_str (attr e [k]) = x" using that(2) by (auto simp: optional_str_def simp del: attr.simps split: if_splits)
    have "k \<in> set PAYLOAD_KEYS" "k \<noteq> ''tags''" using that(1) by (auto simp: PAYLOAD_KEYS_def)
    from payload_key[OF pl this(1) v(1) this(2)] v show ?thesis by (simp add: payload_str_def del: attr.simps)
  qed
  have "event_is_in_scope cfg (event_type e) ?c (payload_str payload ''instrument_id'') (payload_str payload ''position_id'')"
  proof -
    have i: "?i \<in> Some ` S \<Longrightarrow> payload_str payload ''instrument_id'' \<in> Some ` S" for S
      using key[of "''instrument_id''"] by (auto simp del: attr.simps)
    show ?thesis
      using scope i key[of "''position_id''"]
      by (auto simp: event_is_in_scope_def simp del: attr.simps split: if_splits option.splits)
  qed
  then show ?thesis using env cat by (simp add: canonical_envelope_in_scope_def envelope_event_in_scope_def del: attr.simps)
qed

lemma accepted_in_scope: "accepted_envelope digest cfg now ev = Inr (Inr e) \<Longrightarrow> canonical_envelope_in_scope cfg e"
  using mapped_envelope_in_scope by (auto simp: accepted_envelope_def split: actor_event.splits if_splits sum.splits option.splits)

definition actor_ok :: "(wal_line \<Rightarrow> nat) \<Rightarrow> spool_config \<Rightarrow> ProjectionConfig \<Rightarrow> projection_actor \<Rightarrow> bool" where
  "actor_ok lsize scfg cfg a \<longleftrightarrow>
     spool_ok lsize scfg (pa_spool a) \<and> (\<forall>e \<in> set (sp_pending (pa_spool a)). canonical_envelope_in_scope cfg e)"

lemma append_seen: "append_once lsize scfg s e = Inr (s', b) \<Longrightarrow> sv_event_id e \<in> set (sp_seen s')"
  by (auto simp: append_once_def Let_def split: if_splits)

lemma append_pending: "append_once lsize scfg s e = Inr (s', b) \<Longrightarrow> set (sp_pending s') \<subseteq> insert e (set (sp_pending s))"
  by (auto simp: append_once_def Let_def split: if_splits)

lemma actor_step_ok:
  assumes "actor_step digest lsize scfg cfg A a a'" "actor_ok lsize scfg cfg a"
  shows "actor_ok lsize scfg cfg a'"
proof -
  have "spool_ok lsize scfg (pa_spool a')"
    using actor_refines_spool[OF assms(1)] spool_step_ok assms(2) by (auto simp: actor_ok_def)
  moreover have "\<forall>e \<in> set (sp_pending (pa_spool a')). canonical_envelope_in_scope cfg e"
    using assms
  proof (induction rule: actor_step.induct)
    case (ingested now a ev a' outcome i)
    then show ?case
      by (cases rule: ingest_cases) (auto simp: actor_ok_def dest!: append_pending accepted_in_scope)
  next
    case (flushed sink now a a' acked)
    then show ?case using flush_cases[OF flushed.hyps] ack_ok by (fastforce simp: actor_ok_def)
  next
    case (reopened a torn s)
    then show ?case using load_found[of lsize scfg "pa_spool a" torn] by (simp add: actor_ok_def)
  qed (simp_all add: actor_ok_def)
  ultimately show ?thesis by (simp add: actor_ok_def)
qed

text \<open>The actor is a durable queue because its spool is one.\<close>

interpretation actor_queue: durable_queue "actor_step digest lsize scfg cfg" "\<lambda>a. set (sp_pending (pa_spool a))" sv_event_id "actor_ok lsize scfg cfg"
  for digest lsize scfg cfg
proof
  fix A a a'
  assume step: "actor_step digest lsize scfg cfg A a a'" and ok: "actor_ok lsize scfg cfg a"
  show "actor_ok lsize scfg cfg a'" by (rule actor_step_ok[OF step ok])
  show "e \<in> set (sp_pending (pa_spool a'))" if "e \<in> set (sp_pending (pa_spool a))" "sv_event_id e \<notin> A" for e
    using actor_refines_spool[OF step] spool_queue.step_keeps ok that unfolding actor_ok_def by metis
qed

interpretation projection: invariant_store "start_actor scfg empty_spool" "actor_run digest lsize scfg cfg keep" "actor_ok lsize scfg cfg"
  for digest lsize scfg cfg keep
proof
  show "actor_ok lsize scfg cfg (start_actor scfg empty_spool)"
    by (simp add: actor_ok_def empty_spool_ok) (simp add: empty_spool_def)
  show "\<And>a a'. actor_ok lsize scfg cfg a \<Longrightarrow> actor_run digest lsize scfg cfg keep a a' \<Longrightarrow> actor_ok lsize scfg cfg a'"
    using actor_step_ok by (auto simp: actor_run_def)
qed

text \<open>
  C25. Everything the node projects is its own. In every reachable state each event waiting for the control plane belongs to
  the account and the node of the actor and has a known type; unless it is an account event, it concerns an allowed
  instrument when those are restricted, and when ownership is required an order event carries a client order id of the
  robot's namespace and a position event a position that was not opened outside.
\<close>

theorem projected_events_owned:
  assumes "(actor_run digest lsize scfg cfg {})\<^sup>*\<^sup>* (start_actor scfg empty_spool) a" "e \<in> set (sp_pending (pa_spool a))"
  shows "sv_account_id e = prc_account_id cfg \<and> sv_node_id e = prc_node_id cfg
    \<and> (\<exists>family. EVENT_MAPPING_CATALOG (sv_event_type e) = Some family
        \<and> (family \<noteq> AccountFamily \<and> prc_allowed_instrument_ids cfg \<noteq> []
             \<longrightarrow> (\<exists>i \<in> set (prc_allowed_instrument_ids cfg). json_str (jget (sv_payload e) ''instrument_id'') = i))
        \<and> (family = OrderFamily \<and> prc_require_robot_order_ownership cfg
             \<longrightarrow> (\<exists>c. sv_client_order_id e = Some c \<and> is_robot_client_order_id c))
        \<and> (family = PositionFamily \<and> prc_require_robot_order_ownership cfg
             \<longrightarrow> \<not> endswith (upper (json_str (jget (sv_payload e) ''position_id''))) ''-EXTERNAL''))"
proof -
  have "canonical_envelope_in_scope cfg e" using projection.reachable_inv[OF assms(1)] assms(2) by (simp add: actor_ok_def)
  then show ?thesis
    by (auto simp: canonical_envelope_in_scope_def envelope_event_in_scope_def event_is_in_scope_def payload_str_def
        split: if_splits option.splits)
qed

text \<open>
  C24. No event is lost on the way to the control plane. Once the ingestion of an event reports it durable, the event waits in
  the spool until a flush in which the control plane returned its id: failed flushes, other acknowledgements, halts,
  pressure on the spool and restarts, torn writes included, do not remove it.
\<close>

theorem durable_until_sink_acks:
  assumes "(actor_run digest lsize scfg cfg {})\<^sup>*\<^sup>* (start_actor scfg empty_spool) a"
    "ingest_event digest lsize scfg cfg now a ev = Inr (a1, DURABLE, Some i)"
    "(actor_run digest lsize scfg cfg {i})\<^sup>*\<^sup>* a1 a2"
  shows "i \<in> set (map sv_event_id (sp_pending (pa_spool a2)))"
  using assms(2)
proof (cases rule: ingest_cases)
  case (2 e b)
  then have i: "append_once lsize scfg (pa_spool a) e = Inr (pa_spool a1, True)" "i = sv_event_id e" by (auto split: if_splits)
  have a: "actor_ok lsize scfg cfg a" by (rule projection.reachable_inv[OF assms(1)])
  then have a1: "actor_ok lsize scfg cfg a1" using actor_step_ok[OF actor_step.ingested[OF assms(2)]] by simp
  have "e \<in> set (sp_pending (pa_spool a1))" using append_ok[OF i(1)] a by (simp add: actor_ok_def)
  moreover have "(\<lambda>s s'. \<exists>A. A \<inter> {i} = {} \<and> actor_step digest lsize scfg cfg A s s')\<^sup>*\<^sup>* a1 a2"
    using assms(3) unfolding actor_run_def[abs_def] .
  ultimately have "e \<in> set (sp_pending (pa_spool a2))" using actor_queue.kept_until_acked a1 i(2) by blast
  then show ?thesis using i(2) by simp
qed simp

text \<open>
  The same event seen twice is projected once: its id does not depend on when it is seen, so a second ingestion reports it
  deduplicated and leaves the spool alone.
\<close>

lemma to_envelope_later:
  assumes "to_envelope digest cfg now e = Inr (Some env)"
  shows "\<exists>env'. to_envelope digest cfg now' e = Inr (Some env') \<and> sv_event_id env' = sv_event_id env"
proof (cases "timestamp_to_datetime (rw_ts e)")
  case (Inl err)
  with assms show ?thesis by (auto simp: to_envelope_def Let_def split: if_splits)
next
  case (Inr t)
  with assms show ?thesis
    by (auto simp: to_envelope_def Let_def bind_result_def simp del: attr.simps split: if_splits sum.splits)
qed

theorem reingested_event_deduped:
  assumes "ingest_event digest lsize scfg cfg now a (Raw e) = Inr (a1, outcome, Some i)"
  shows "\<exists>a2. ingest_event digest lsize scfg cfg now' a1 (Raw e) = Inr (a2, DEDUPED, Some i) \<and> pa_spool a2 = pa_spool a1"
  using assms
proof (cases rule: ingest_cases)
  case (2 env b)
  have live: "pa_halted a1 = []"
    using assms 2(1,2) by (auto simp: ingest_event_def Let_def split: if_splits dest!: arg_cong[of _ a1 pa_halted])
  have "to_envelope digest cfg now e = Inr (Some env)"
    using 2(1) by (auto simp: accepted_envelope_def split: sum.splits option.splits)
  then obtain env' where env': "to_envelope digest cfg now' e = Inr (Some env')" "sv_event_id env' = i"
    using to_envelope_later 2(4) by (metis option.inject)
  have "i \<in> set (sp_seen (pa_spool a1))" using append_seen[OF 2(2)] 2(4) by simp
  then have "append_once lsize scfg (pa_spool a1) env' = Inr (pa_spool a1, False)" using env'(2) by (simp add: append_once_def)
  then show ?thesis using live env' by (simp add: ingest_event_def accepted_envelope_def Let_def)
qed simp

section \<open>Example\<close>

definition example_projection :: ProjectionConfig where
  "example_projection = \<lparr>prc_node_id = ''n1'', prc_account_id = ''a1'', prc_max_flush_batch_size = 100,
     prc_allowed_instrument_ids = [], prc_require_robot_order_ownership = False\<rparr>"

definition example_actor :: projection_actor where
  "example_actor = start_actor example_config empty_spool"

lemma example_ingest:
  "\<exists>a. ingest_event (\<lambda>_. ''x'') (\<lambda>_. 10) example_config example_projection 7 example_actor (Envelope example_event) = Inr (a, DURABLE, Some ''e1'')
     \<and> sp_pending (pa_spool a) = [example_event]"
proof -
  have "canonical_envelope_in_scope example_projection example_event"
    by (simp add: canonical_envelope_in_scope_def envelope_event_in_scope_def event_is_in_scope_def example_projection_def
        example_event_def EVENT_MAPPING_CATALOG_def ORDER_EVENT_TYPES_def POSITION_EVENT_TYPES_def ACCOUNT_EVENT_TYPES_def)
  moreover have "pa_halted example_actor = []"
    by (simp add: example_actor_def start_actor_def sync_spool_pressure_def mark_egress_degraded_def clear_egress_degraded_def health_notice_def)
  moreover have "pa_spool example_actor = empty_spool" by (simp add: example_actor_def)
  moreover have "sv_event_id example_event = ''e1''" by (simp add: example_event_def)
  ultimately show ?thesis using example_append by (auto simp: ingest_event_def accepted_envelope_def Let_def)
qed

theorem projected_events_owned_witness:
  "\<exists>a. actor_run (\<lambda>_. ''x'') (\<lambda>_. 10) example_config example_projection {} example_actor a
     \<and> example_event \<in> set (sp_pending (pa_spool a)) \<and> sv_account_id example_event = ''a1''"
proof -
  obtain a where a: "ingest_event (\<lambda>_. ''x'') (\<lambda>_. 10) example_config example_projection 7 example_actor (Envelope example_event) = Inr (a, DURABLE, Some ''e1'')"
    "sp_pending (pa_spool a) = [example_event]" using example_ingest by blast
  have run: "actor_run (\<lambda>_. ''x'') (\<lambda>_. 10) example_config example_projection {} example_actor a"
    unfolding actor_run_def using actor_step.ingested[OF a(1)] by blast
  then have runs: "(actor_run (\<lambda>_. ''x'') (\<lambda>_. 10) example_config example_projection {})\<^sup>*\<^sup>* (start_actor example_config empty_spool) a"
    unfolding example_actor_def by blast
  have pend: "example_event \<in> set (sp_pending (pa_spool a))" using a(2) by simp
  have "sv_account_id example_event = ''a1''"
    using projected_events_owned[OF runs pend] by (simp add: example_projection_def)
  with run pend show ?thesis by blast
qed

theorem durable_until_sink_acks_witness:
  "\<exists>a a'. ingest_event (\<lambda>_. ''x'') (\<lambda>_. 10) example_config example_projection 7 example_actor (Envelope example_event) = Inr (a, DURABLE, Some ''e1'')
     \<and> flush (\<lambda>_ _. None) (\<lambda>_. 10) example_config example_projection 8 a = Inr (a', [])
     \<and> ''e1'' \<in> set (map sv_event_id (sp_pending (pa_spool a')))"
proof -
  obtain a where a: "ingest_event (\<lambda>_. ''x'') (\<lambda>_. 10) example_config example_projection 7 example_actor (Envelope example_event) = Inr (a, DURABLE, Some ''e1'')"
    "sp_pending (pa_spool a) = [example_event]" using example_ingest by blast
  obtain a' where f: "flush (\<lambda>_ _. None) (\<lambda>_. 10) example_config example_projection 8 a = Inr (a', [])"
    using a(2) by (simp add: flush_def pending_events_def example_projection_def)
  have "actor_run (\<lambda>_. ''x'') (\<lambda>_. 10) example_config example_projection {''e1''} a a'"
    unfolding actor_run_def using actor_step.flushed[OF f] by auto
  then have "''e1'' \<in> set (map sv_event_id (sp_pending (pa_spool a')))"
    by (intro durable_until_sink_acks[OF rtranclp.rtrancl_refl a(1)[unfolded example_actor_def]]) blast
  with a(1) f show ?thesis by blast
qed

end
