(* ===== verification/Node_Commands.thy ===== *)
theory Node_Commands
  imports Identifiers Json "HOL-Library.List_Lexorder" "HOL-Library.Char_ord"
begin

text \<open>
  The commands of an operator on the node (\<open>commands/\<close>): the processor that runs each command once
  (\<open>handler.py\<close>), cancelling every working order (\<open>cancel_all.py\<close>), closing every position
  (\<open>close_all.py\<close>) with the identity of positions it relies on (\<open>position_identity.py\<close>), and the sink that
  reports results (\<open>result_sink.py\<close>).

  What the code reaches through an interface, the venue, the execution engine, the lifecycle and the control plane, is a
  function on a world of any type: it returns the world it leaves behind and a text, the message of the exception it raises,
  or a value. A pause may change the world as well.
\<close>

section \<open>Repeated attempts\<close>

text \<open>
  A call is tried up to \<open>n\<close> times, pausing between the attempts; the result comes with the number of its attempt, the
  failure with the last message.
\<close>

fun attempt_loop :: "('w \<Rightarrow> 'w \<times> (string + 'r)) \<Rightarrow> ('w \<Rightarrow> 'w) \<Rightarrow> nat \<Rightarrow> nat \<Rightarrow> string \<Rightarrow> 'w \<Rightarrow> 'w \<times> (string + nat \<times> 'r)" where
  "attempt_loop call pause 0 k err w = (w, Inl err)"
| "attempt_loop call pause (Suc n) k err w =
     (case call w of
        (w1, Inr r) \<Rightarrow> (w1, Inr (k, r))
      | (w1, Inl e) \<Rightarrow> attempt_loop call pause n (k + 1) e (if 0 < n then pause w1 else w1))"

text \<open>A listing is repeated until it is empty or the attempts are used up; a listing that raises ends it.\<close>

fun verify_loop :: "('w \<Rightarrow> 'w \<times> (string + 'r list)) \<Rightarrow> ('w \<Rightarrow> 'w) \<Rightarrow> nat \<Rightarrow> 'r list \<Rightarrow> 'w \<Rightarrow> 'w \<times> (string + 'r list)" where
  "verify_loop listing pause 0 remaining w = (w, Inr remaining)"
| "verify_loop listing pause (Suc n) remaining w =
     (case listing w of
        (w1, Inl e) \<Rightarrow> (w1, Inl e)
      | (w1, Inr found) \<Rightarrow> if found = [] then (w1, Inr []) else verify_loop listing pause n found (if 0 < n then pause w1 else w1))"

text \<open>A call for each element in turn, pausing between two.\<close>

fun each_with_pause :: "('x \<Rightarrow> 'w \<Rightarrow> 'w \<times> 'r) \<Rightarrow> ('w \<Rightarrow> 'w) \<Rightarrow> 'x list \<Rightarrow> 'w \<Rightarrow> 'w \<times> 'r list" where
  "each_with_pause f pause [] w = (w, [])"
| "each_with_pause f pause (x # xs) w =
     (let (w1, r) = f x w;
          (w2, rs) = each_with_pause f pause xs (if xs = [] then w1 else pause w1)
      in (w2, r # rs))"

definition sleep_for :: "(rat \<Rightarrow> 'w \<Rightarrow> 'w) \<Rightarrow> rat \<Rightarrow> 'w \<Rightarrow> 'w" where
  "sleep_for sleep seconds w = (if 0 < seconds then sleep seconds w else w)"

record AttemptSettings =
  as_max_attempts :: int
  as_inter_item_delay_seconds :: rat
  as_retry_delay_seconds :: rat
  as_verify_attempts :: int
  as_verify_delay_seconds :: rat

definition attempts_of :: "int \<Rightarrow> nat" where
  "attempts_of n = nat (max n 1)"

section \<open>Cancelling every order\<close>

record 'w cancel_venue =
  cv_list_working_orders :: "account_id option \<Rightarrow> string list option \<Rightarrow> 'w \<Rightarrow> 'w \<times> (string + dict list)"
  cv_cancel_order :: "dict \<Rightarrow> 'w \<Rightarrow> 'w \<times> (string + json)"

record cancel_item =
  ci_order_id :: string
  ci_status :: string
  ci_attempts :: nat
  ci_result :: dict
  ci_error :: "string option"

record cancel_all_result =
  cr_status :: string
  cr_orders :: "cancel_item list"
  cr_remaining_working_orders :: "dict list"

definition working_order_id :: "dict \<Rightarrow> string option" where
  "working_order_id order = map_option json_str (List.find truthy (map (jget order) [''order_id'', ''venue_order_id'', ''client_order_id'', ''id'']))"

definition cancel_one :: "'w cancel_venue \<Rightarrow> (rat \<Rightarrow> 'w \<Rightarrow> 'w) \<Rightarrow> AttemptSettings \<Rightarrow> string \<Rightarrow> dict \<Rightarrow> 'w \<Rightarrow> 'w \<times> cancel_item" where
  "cancel_one venue sleep cfg order_id order w =
     (case attempt_loop (cv_cancel_order venue order) (sleep_for sleep (as_retry_delay_seconds cfg)) (attempts_of (as_max_attempts cfg)) 1 [] w of
        (w1, Inr (k, r)) \<Rightarrow>
          (w1, \<lparr>ci_order_id = order_id, ci_status = ''cancel_requested'', ci_attempts = k,
             ci_result = (case r of JObj d \<Rightarrow> d | _ \<Rightarrow> [(''accepted'', JBool True)]), ci_error = None\<rparr>)
      | (w1, Inl e) \<Rightarrow>
          (w1, \<lparr>ci_order_id = order_id, ci_status = ''failed'', ci_attempts = attempts_of (as_max_attempts cfg), ci_result = [],
             ci_error = Some (if e = [] then ''cancel failed'' else e)\<rparr>))"

text \<open>
  The orders are cancelled one after the other. An order without an id raises when its turn comes, and ends the command.
\<close>

fun cancel_each ::
    "'w cancel_venue \<Rightarrow> (rat \<Rightarrow> 'w \<Rightarrow> 'w) \<Rightarrow> AttemptSettings \<Rightarrow> dict list \<Rightarrow> 'w \<Rightarrow> 'w \<times> (string + cancel_item list)" where
  "cancel_each venue sleep cfg [] w = (w, Inr [])"
| "cancel_each venue sleep cfg (order # orders) w =
     (case working_order_id order of
        None \<Rightarrow> (w, Inl ''working order missing order id'')
      | Some i \<Rightarrow>
          (case cancel_one venue sleep cfg i order w of
             (w1, item) \<Rightarrow>
               (case cancel_each venue sleep cfg orders (if orders = [] then w1 else sleep_for sleep (as_inter_item_delay_seconds cfg) w1) of
                  (w2, Inl e) \<Rightarrow> (w2, Inl e)
                | (w2, Inr items) \<Rightarrow> (w2, Inr (item # items)))))"

definition verify_no_working_orders ::
    "'w cancel_venue \<Rightarrow> (rat \<Rightarrow> 'w \<Rightarrow> 'w) \<Rightarrow> AttemptSettings \<Rightarrow> account_id option \<Rightarrow> string list option \<Rightarrow> 'w \<Rightarrow> 'w \<times> (string + dict list)" where
  "verify_no_working_orders venue sleep cfg account instruments w =
     verify_loop (cv_list_working_orders venue account instruments) (sleep_for sleep (as_verify_delay_seconds cfg))
       (attempts_of (as_verify_attempts cfg)) [] w"

definition cancel_all ::
    "'w cancel_venue \<Rightarrow> (rat \<Rightarrow> 'w \<Rightarrow> 'w) \<Rightarrow> AttemptSettings \<Rightarrow> account_id option \<Rightarrow> string list option \<Rightarrow> 'w
      \<Rightarrow> 'w \<times> (string + cancel_all_result)" where
  "cancel_all venue sleep cfg account instruments w =
     (case cv_list_working_orders venue account instruments w of
        (w1, Inl e) \<Rightarrow> (w1, Inl e)
      | (w1, Inr orders) \<Rightarrow>
          (case cancel_each venue sleep cfg orders w1 of
             (w2, Inl e) \<Rightarrow> (w2, Inl e)
           | (w2, Inr items) \<Rightarrow>
               (case verify_no_working_orders venue sleep cfg account instruments w2 of
                  (w3, Inl e) \<Rightarrow> (w3, Inl e)
                | (w3, Inr remaining) \<Rightarrow>
                    (w3, Inr \<lparr>cr_status = (if remaining = [] then ''completed'' else ''partial''), cr_orders = items,
                       cr_remaining_working_orders = remaining\<rparr>))))"

section \<open>The identity of positions\<close>

definition canonical_key_from_text :: "account_id \<Rightarrow> string \<Rightarrow> string result" where
  "canonical_key_from_text account k =
     (let parts = split_all CHR '':'' k
      in if length parts < 2 then Inr k
         else position_key_key \<lparr>pk_account_id = Some account, pk_venue_symbol = parts ! 1,
                pk_side = (if length parts \<ge> 3 then Some (parts ! 2) else None)\<rparr>)"

definition hedge_side :: "dict \<Rightarrow> string option" where
  "hedge_side snapshot =
     (let mode = upper (str_or [jget snapshot ''position_mode''] []);
          raw_side = lower (str_or [jget snapshot ''position_side'', jget snapshot ''side''] [])
      in if mode = ''HEDGE'' \<and> raw_side \<in> {''long'', ''short''} then Some raw_side else None)"

definition position_key_for_snapshot :: "account_id \<Rightarrow> dict \<Rightarrow> string result" where
  "position_key_for_snapshot account_id snapshot =
     bind_result (canonical_account_id (Some (str_or [jget snapshot ''account_id''] account_id))) (\<lambda>account.
     if truthy (jget snapshot ''position_key'') then canonical_key_from_text account (json_str (jget snapshot ''position_key''))
     else
       let instrument = str_or [jget snapshot ''instrument_id'', jget snapshot ''venue_symbol'', jget snapshot ''symbol''] [];
           sym' = canonical_instrument_key instrument
       in if sym' = [] then Inl ValueError
          else position_key_key \<lparr>pk_account_id = Some account, pk_venue_symbol = sym', pk_side = hedge_side snapshot\<rparr>)"

definition snapshot_decimal :: "json \<Rightarrow> rat" where
  "snapshot_decimal v = (case decimal_or_none v of Some x \<Rightarrow> x | None \<Rightarrow> 0)"

definition snapshot_quantity :: "dict \<Rightarrow> rat" where
  "snapshot_quantity snapshot = dabs (snapshot_decimal (jor (jget snapshot ''quantity'') (jget snapshot ''qty'')))"

definition snapshot_position_id :: "dict \<Rightarrow> string \<Rightarrow> string" where
  "snapshot_position_id snapshot k =
     str_or [jget snapshot ''position_id'', jget snapshot ''id'', jget snapshot ''venue_position_id''] k"

definition source_ids :: "dict \<Rightarrow> json list" where
  "source_ids item = (case jget item ''source_position_ids'' of JList xs \<Rightarrow> xs | _ \<Rightarrow> [])"

definition snapshot_item :: "dict \<Rightarrow> string \<Rightarrow> rat \<Rightarrow> json list \<Rightarrow> dict" where
  "snapshot_item snapshot k q sources =
     dict_set (dict_set (dict_set snapshot ''position_key'' (JStr k)) ''quantity'' (JDec q)) ''source_position_ids'' (JList sources)"

text \<open>Snapshots of the same position are one: the one with the largest quantity, with the ids of all.\<close>

definition merge_snapshot :: "account_id \<Rightarrow> (string \<times> dict) list \<Rightarrow> dict \<Rightarrow> (string \<times> dict) list result" where
  "merge_snapshot account_id merged snapshot =
     (let quantity = snapshot_quantity snapshot
      in if quantity = 0 then Inr merged
         else bind_result (position_key_for_snapshot account_id snapshot) (\<lambda>k.
           let pid = JStr (snapshot_position_id snapshot k)
           in case map_of merged k of
                None \<Rightarrow> Inr (AList.update k (snapshot_item snapshot k quantity [pid]) merged)
              | Some current \<Rightarrow>
                  let kept = (if quantity > snapshot_decimal (jget current ''quantity'')
                              then snapshot_item snapshot k quantity (source_ids current) else current)
                  in Inr (AList.update k (dict_set kept ''source_position_ids'' (JList (source_ids kept @ [pid]))) merged)))"

fun merge_loop :: "account_id \<Rightarrow> (string \<times> dict) list \<Rightarrow> dict list \<Rightarrow> (string \<times> dict) list result" where
  "merge_loop account_id merged [] = Inr merged"
| "merge_loop account_id merged (s # ss) = bind_result (merge_snapshot account_id merged s) (\<lambda>m. merge_loop account_id m ss)"

definition merge_position_snapshots :: "account_id \<Rightarrow> dict list \<Rightarrow> dict list result" where
  "merge_position_snapshots account_id snapshots = bind_result (merge_loop account_id [] snapshots) (\<lambda>m. Inr (map snd m))"

definition item_key :: "dict \<Rightarrow> string" where
  "item_key item = json_str (jget item ''position_key'')"

definition residual_positions :: "account_id \<Rightarrow> string list \<Rightarrow> dict list \<Rightarrow> dict list result" where
  "residual_positions account_id target_keys snapshots =
     bind_result (merge_position_snapshots account_id snapshots) (\<lambda>items. Inr (filter (\<lambda>i. item_key i \<in> set target_keys) items))"

definition close_boundary_flat :: "account_id \<Rightarrow> string list \<Rightarrow> dict list \<Rightarrow> dict list option \<Rightarrow> bool result" where
  "close_boundary_flat account_id target_keys venue_positions db_positions =
     bind_result (residual_positions account_id target_keys venue_positions) (\<lambda>left.
     if left \<noteq> [] then Inr False
     else case db_positions of
            None \<Rightarrow> Inr True
          | Some rows \<Rightarrow> bind_result (residual_positions account_id target_keys rows) (\<lambda>left. Inr (left = [])))"

section \<open>Closing every position\<close>

record 'w close_venue =
  cl_list_open_positions :: "account_id \<Rightarrow> 'w \<Rightarrow> 'w \<times> (string + dict list)"
  cl_close_one :: "account_id \<Rightarrow> string \<Rightarrow> dict \<Rightarrow> 'w \<Rightarrow> 'w \<times> (string + dict)"

record close_item =
  cp_position_key :: string
  cp_status :: string
  cp_attempts :: nat
  cp_reduce_only :: bool
  cp_result :: dict
  cp_error :: "string option"

record close_all_result =
  ca_status :: string
  ca_positions :: "close_item list"
  ca_residual_positions :: "dict list"
  ca_flat :: bool
  ca_target_position_keys :: "string list"

text \<open>A result that says it failed counts as a raise.\<close>

definition close_call :: "'w close_venue \<Rightarrow> account_id \<Rightarrow> dict \<Rightarrow> 'w \<Rightarrow> 'w \<times> (string + dict)" where
  "close_call venue account_id position w =
     (case cl_close_one venue account_id (item_key position) position w of
        (w1, Inl e) \<Rightarrow> (w1, Inl e)
      | (w1, Inr result) \<Rightarrow>
          if jget result ''success'' = JBool False \<or> jget result ''status'' \<in> {JStr ''failed'', JStr ''partial''}
          then (w1, Inl (str_or [jget result ''error'', jget result ''reason''] ''close failed''))
          else (w1, Inr result))"

definition close_position_item :: "'w close_venue \<Rightarrow> (rat \<Rightarrow> 'w \<Rightarrow> 'w) \<Rightarrow> AttemptSettings \<Rightarrow> account_id \<Rightarrow> dict \<Rightarrow> 'w \<Rightarrow> 'w \<times> close_item" where
  "close_position_item venue sleep cfg account_id position w =
     (case attempt_loop (close_call venue account_id position) (sleep_for sleep (as_retry_delay_seconds cfg))
             (attempts_of (as_max_attempts cfg)) 1 [] w of
        (w1, Inr (k, r)) \<Rightarrow>
          (w1, \<lparr>cp_position_key = item_key position, cp_status = ''closed'', cp_attempts = k, cp_reduce_only = True, cp_result = r, cp_error = None\<rparr>)
      | (w1, Inl e) \<Rightarrow>
          (w1, \<lparr>cp_position_key = item_key position, cp_status = ''failed'', cp_attempts = attempts_of (as_max_attempts cfg),
             cp_reduce_only = True, cp_result = [], cp_error = Some (if e = [] then ''close failed'' else e)\<rparr>))"

text \<open>The message of an exception of the identity functions is not kept.\<close>

definition of_result :: "'a result \<Rightarrow> string + 'a" where
  "of_result r = (case r of Inr x \<Rightarrow> Inr x | Inl _ \<Rightarrow> Inl ''position snapshot missing instrument identity'')"

definition list_residual :: "'w close_venue \<Rightarrow> account_id \<Rightarrow> string list \<Rightarrow> 'w \<Rightarrow> 'w \<times> (string + dict list)" where
  "list_residual venue account_id target_keys w =
     (case cl_list_open_positions venue account_id w of
        (w1, Inl e) \<Rightarrow> (w1, Inl e)
      | (w1, Inr snapshots) \<Rightarrow> (w1, of_result (residual_positions account_id target_keys snapshots)))"

definition verify_flat ::
    "'w close_venue \<Rightarrow> (rat \<Rightarrow> 'w \<Rightarrow> 'w) \<Rightarrow> AttemptSettings \<Rightarrow> account_id \<Rightarrow> string list \<Rightarrow> 'w \<Rightarrow> 'w \<times> (string + dict list)" where
  "verify_flat venue sleep cfg account_id target_keys w =
     verify_loop (list_residual venue account_id target_keys) (sleep_for sleep (as_verify_delay_seconds cfg))
       (attempts_of (as_verify_attempts cfg)) [] w"

definition close_all ::
    "'w close_venue \<Rightarrow> (rat \<Rightarrow> 'w \<Rightarrow> 'w) \<Rightarrow> AttemptSettings \<Rightarrow> account_id \<Rightarrow> dict list option \<Rightarrow> 'w \<Rightarrow> 'w \<times> (string + close_all_result)" where
  "close_all venue sleep cfg account_id positions w =
     (case (case positions of Some ps \<Rightarrow> (w, Inr ps) | None \<Rightarrow> cl_list_open_positions venue account_id w) of
        (w1, Inl e) \<Rightarrow> (w1, Inl e)
      | (w1, Inr snapshots) \<Rightarrow>
          (case of_result (merge_position_snapshots account_id snapshots) of
             Inl e \<Rightarrow> (w1, Inl e)
           | Inr open_positions \<Rightarrow>
               (case each_with_pause (close_position_item venue sleep cfg account_id) (sleep_for sleep (as_inter_item_delay_seconds cfg))
                       open_positions w1 of
                  (w2, results) \<Rightarrow>
                    (case verify_flat venue sleep cfg account_id (map item_key open_positions) w2 of
                       (w3, Inl e) \<Rightarrow> (w3, Inl e)
                     | (w3, Inr residual) \<Rightarrow>
                         (w3, Inr \<lparr>ca_status = (if residual = [] then ''completed'' else ''partial''), ca_positions = results,
                            ca_residual_positions = residual, ca_flat = (residual = []),
                            ca_target_position_keys = map item_key open_positions\<rparr>)))))"

section \<open>Reporting results\<close>

text \<open>Two JSON values with the same text when their keys are sorted.\<close>

fun sorted_json :: "json \<Rightarrow> json" where
  "sorted_json (JObj d) = JObj (sort_key fst (map (\<lambda>e. (fst e, sorted_json (snd e))) d))"
| "sorted_json (JList xs) = JList (map sorted_json xs)"
| "sorted_json v = v"

record sink_result =
  sr_status :: string
  sr_result :: dict
  sr_error :: "string option"
  sr_items :: "(string \<times> dict) list"

type_synonym ack_key = "string \<times> string \<times> json \<times> string option"

record 'w result_sink =
  rs_results :: "(string \<times> sink_result) list"
  rs_acked :: "ack_key list"
  rs_world :: 'w

definition sink_item_id :: "dict \<Rightarrow> string option" where
  "sink_item_id item =
     map_option json_str (List.find truthy (map (jget item) [''item_id'', ''order_id'', ''position_key'', ''position_id'', ''client_order_id'']))"

fun add_items :: "(string \<times> dict) list \<Rightarrow> dict list \<Rightarrow> string + (string \<times> dict) list" where
  "add_items m [] = Inr m"
| "add_items m (i # is) =
     (case sink_item_id i of None \<Rightarrow> Inl ''command item result missing stable item id'' | Some k \<Rightarrow> add_items (AList.update k i m) is)"

definition opt_dict :: "dict option \<Rightarrow> dict" where
  "opt_dict d = (case d of Some x \<Rightarrow> x | None \<Rightarrow> [])"

definition build_result :: "'w result_sink \<Rightarrow> string \<Rightarrow> string \<Rightarrow> dict option \<Rightarrow> string option \<Rightarrow> dict list \<Rightarrow> string + sink_result" where
  "build_result s command_id status result error items =
     (let known = (case map_of (rs_results s) command_id of Some r \<Rightarrow> sr_items r | None \<Rightarrow> [])
      in bind_result (add_items known items) (\<lambda>m.
           Inr \<lparr>sr_status = status, sr_result = opt_dict result, sr_error = error, sr_items = m\<rparr>))"

definition sink_ack_key :: "string \<Rightarrow> string \<Rightarrow> dict option \<Rightarrow> string option \<Rightarrow> ack_key" where
  "sink_ack_key command_id status result error = (command_id, status, sorted_json (JObj (opt_dict result)), error)"

definition sink_ack ::
    "(string \<Rightarrow> string \<Rightarrow> dict option \<Rightarrow> string option \<Rightarrow> 'w \<Rightarrow> 'w \<times> (string + unit)) \<Rightarrow> ('w \<Rightarrow> 'w) \<Rightarrow> int
      \<Rightarrow> string \<Rightarrow> string \<Rightarrow> dict option \<Rightarrow> string option \<Rightarrow> 'w \<Rightarrow> 'w \<times> (string + nat \<times> unit)" where
  "sink_ack ack pause max_ack_attempts command_id status result error w =
     attempt_loop (ack command_id status result error) pause (attempts_of max_ack_attempts) 1 [] w"

definition sink_record ::
    "(string \<Rightarrow> string \<Rightarrow> dict option \<Rightarrow> string option \<Rightarrow> 'w \<Rightarrow> 'w \<times> (string + unit)) \<Rightarrow> ('w \<Rightarrow> 'w) \<Rightarrow> int
      \<Rightarrow> 'w result_sink \<Rightarrow> string \<Rightarrow> string \<Rightarrow> dict option \<Rightarrow> string option \<Rightarrow> dict list \<Rightarrow> 'w result_sink \<times> (string + sink_result)" where
  "sink_record ack pause max_ack_attempts s command_id status result error items =
     (case build_result s command_id status result error items of
        Inl e \<Rightarrow> (s, Inl e)
      | Inr payload \<Rightarrow>
          let k = sink_ack_key command_id status result error
          in if k \<in> set (rs_acked s) then (s \<lparr>rs_results := AList.update command_id payload (rs_results s)\<rparr>, Inr payload)
             else (case sink_ack ack pause max_ack_attempts command_id status result error (rs_world s) of
                     (w, Inl e) \<Rightarrow> (s \<lparr>rs_world := w\<rparr>, Inl e)
                   | (w, Inr _) \<Rightarrow>
                       (s \<lparr>rs_world := w, rs_acked := rs_acked s @ [k], rs_results := AList.update command_id payload (rs_results s)\<rparr>,
                        Inr payload)))"

definition record_running where
  "record_running ack pause n s command_id result items = sink_record ack pause n s command_id ''running'' result None items"

definition record_completed where
  "record_completed ack pause n s command_id result items = sink_record ack pause n s command_id ''completed'' result None items"

definition record_failed where
  "record_failed ack pause n s command_id error result items = sink_record ack pause n s command_id ''failed'' result (Some error) items"

definition get_item_result :: "'w result_sink \<Rightarrow> string \<Rightarrow> string \<Rightarrow> dict option" where
  "get_item_result s command_id item_id =
     (case map_of (rs_results s) command_id of None \<Rightarrow> None | Some r \<Rightarrow> map_of (sr_items r) item_id)"

section \<open>Running a command once\<close>

datatype CommandType = HALT | RESUME | SET_REDUCING | CANCEL_ALL | CLOSE_ALL | REFRESH_EVIDENCE

datatype CommandAckStatus = ACK_ACCEPTED | ACK_RUNNING | ACK_COMPLETED | ACK_FAILED

record NodeCommand =
  no_command_id :: string
  no_type :: CommandType
  no_args :: dict

record NodePositionSnapshot =
  sn_position_id :: string
  sn_instrument_id :: string

record CommandStateRecord =
  cs_command_id :: string
  cs_command_type :: CommandType
  cs_status :: CommandAckStatus
  cs_result :: "dict option"
  cs_error :: "string option"

record 'w command_engine =
  en_apply_operator_state :: "string \<Rightarrow> string \<Rightarrow> 'w \<Rightarrow> 'w \<times> (string + unit)"
  en_trading_state :: "'w \<Rightarrow> string"
  en_cancel_all :: "string list option \<Rightarrow> 'w \<Rightarrow> 'w \<times> (string + dict)"
  en_wait_for_no_working_orders :: "'w \<Rightarrow> 'w \<times> (string + unit)"
  en_open_positions :: "string list option \<Rightarrow> 'w \<Rightarrow> 'w \<times> (string + NodePositionSnapshot list)"
  en_close_position_reduce_only :: "NodePositionSnapshot \<Rightarrow> 'w \<Rightarrow> 'w \<times> (string + dict)"
  en_wait_until_flat :: "NodePositionSnapshot list \<Rightarrow> 'w \<Rightarrow> 'w \<times> (string + unit)"
  en_ack_command :: "string \<Rightarrow> CommandAckStatus \<Rightarrow> dict option \<Rightarrow> string option \<Rightarrow> 'w \<Rightarrow> 'w \<times> (string + unit)"

text \<open>\<open>pr_runs\<close> lists the commands whose execution began, in order.\<close>

record 'w processor =
  pr_store :: "(string \<times> CommandStateRecord) list"
  pr_world :: 'w
  pr_runs :: "string list"

definition and_then :: "'w \<times> (string + 'a) \<Rightarrow> ('a \<Rightarrow> 'w \<Rightarrow> 'w \<times> (string + 'b)) \<Rightarrow> 'w \<times> (string + 'b)" where
  "and_then r f = (case r of (w, Inl e) \<Rightarrow> (w, Inl e) | (w, Inr x) \<Rightarrow> f x w)"

fun is_text :: "json \<Rightarrow> bool" where
  "is_text (JStr s) = (s \<noteq> [])"
| "is_text (JDec x) = True"
| "is_text _ = False"

definition instrument_ids :: "dict \<Rightarrow> string + string list option" where
  "instrument_ids args =
     (case jget args ''instrument_ids'' of
        JNull \<Rightarrow> Inr None
      | JList xs \<Rightarrow> if list_all is_text xs then Inr (Some (map json_str xs)) else Inl ''instrument_ids must be a list of non-empty strings''
      | _ \<Rightarrow> Inl ''instrument_ids must be a list of non-empty strings'')"

definition command_reason :: "NodeCommand \<Rightarrow> string \<Rightarrow> string" where
  "command_reason c what = ''command '' @ no_command_id c @ '' '' @ what"

definition set_operator_state :: "'w command_engine \<Rightarrow> string \<Rightarrow> string \<Rightarrow> 'w \<Rightarrow> 'w \<times> (string + dict)" where
  "set_operator_state en state reason w =
     and_then (en_apply_operator_state en state reason w) (\<lambda>_ w. (w, Inr [(''trading_state'', JStr state)]))"

definition handle_cancel_all :: "'w command_engine \<Rightarrow> NodeCommand \<Rightarrow> 'w \<Rightarrow> 'w \<times> (string + dict)" where
  "handle_cancel_all en c w =
     and_then (w, instrument_ids (no_args c)) (\<lambda>is w.
     and_then (en_cancel_all en is w) (\<lambda>r w.
     and_then (en_wait_for_no_working_orders en w) (\<lambda>_ w.
     (w, Inr [(''trading_state'', JStr (en_trading_state en w)), (''cancel'', JObj r)]))))"

fun close_each :: "'w command_engine \<Rightarrow> NodePositionSnapshot list \<Rightarrow> 'w \<Rightarrow> 'w \<times> (string + dict list)" where
  "close_each en [] w = (w, Inr [])"
| "close_each en (p # ps) w =
     and_then (en_close_position_reduce_only en p w) (\<lambda>r w. and_then (close_each en ps w) (\<lambda>rs w. (w, Inr (r # rs))))"

definition handle_close_all :: "'w command_engine \<Rightarrow> NodeCommand \<Rightarrow> 'w \<Rightarrow> 'w \<times> (string + dict)" where
  "handle_close_all en c w =
     and_then (w, instrument_ids (no_args c)) (\<lambda>is w.
     and_then (en_apply_operator_state en ''REDUCING'' (command_reason c ''close_all'') w) (\<lambda>_ w.
     and_then (en_cancel_all en is w) (\<lambda>r w.
     and_then (en_wait_for_no_working_orders en w) (\<lambda>_ w.
     and_then (en_open_positions en is w) (\<lambda>ps w.
     and_then (close_each en ps w) (\<lambda>rs w.
     and_then (en_wait_until_flat en ps w) (\<lambda>_ w.
     (w, Inr [(''trading_state'', JStr ''REDUCING''), (''cancel'', JObj r), (''closed_positions'', JList (map JObj rs))]))))))))"

definition execute_command :: "'w command_engine \<Rightarrow> NodeCommand \<Rightarrow> 'w \<Rightarrow> 'w \<times> (string + dict)" where
  "execute_command en c w =
     (case no_type c of
        HALT \<Rightarrow> set_operator_state en ''HALTED'' (str_or [jget (no_args c) ''reason''] (command_reason c ''halt'')) w
      | RESUME \<Rightarrow> set_operator_state en ''ACTIVE'' (command_reason c ''resume'') w
      | SET_REDUCING \<Rightarrow> set_operator_state en ''REDUCING'' (command_reason c ''set_reducing'') w
      | CANCEL_ALL \<Rightarrow> handle_cancel_all en c w
      | CLOSE_ALL \<Rightarrow> handle_close_all en c w
      | REFRESH_EVIDENCE \<Rightarrow> (w, Inr [(''evidence_refreshed'', JBool True)]))"

definition save_record :: "CommandStateRecord \<Rightarrow> 'w processor \<Rightarrow> 'w processor" where
  "save_record r p = p \<lparr>pr_store := AList.update (cs_command_id r) r (pr_store p)\<rparr>"

definition ack_record :: "'w command_engine \<Rightarrow> CommandStateRecord \<Rightarrow> 'w processor \<Rightarrow> 'w processor \<times> (string + unit)" where
  "ack_record en r p =
     (case en_ack_command en (cs_command_id r) (cs_status r) (cs_result r) (cs_error r) (pr_world p) of
        (w, x) \<Rightarrow> (p \<lparr>pr_world := w\<rparr>, x))"

definition command_record :: "NodeCommand \<Rightarrow> CommandAckStatus \<Rightarrow> dict option \<Rightarrow> string option \<Rightarrow> CommandStateRecord" where
  "command_record c status result error =
     \<lparr>cs_command_id = no_command_id c, cs_command_type = no_type c, cs_status = status, cs_result = result, cs_error = error\<rparr>"

text \<open>The command is acknowledged as accepted, then recorded as such.\<close>

definition accept_command :: "'w command_engine \<Rightarrow> NodeCommand \<Rightarrow> 'w processor \<Rightarrow> 'w processor \<times> (string + unit)" where
  "accept_command en c p =
     (let accepted = command_record c ACK_ACCEPTED None None
      in case ack_record en accepted p of
           (p1, Inl e) \<Rightarrow> (p1, Inl e)
         | (p1, Inr _) \<Rightarrow> (save_record accepted p1, Inr ()))"

definition finish_command :: "'w command_engine \<Rightarrow> CommandStateRecord \<Rightarrow> 'w processor \<Rightarrow> 'w processor \<times> (string + CommandStateRecord)" where
  "finish_command en r p =
     (case ack_record en r (save_record r p) of (p1, Inl e) \<Rightarrow> (p1, Inl e) | (p1, Inr _) \<Rightarrow> (p1, Inr r))"

definition run_command :: "'w command_engine \<Rightarrow> NodeCommand \<Rightarrow> 'w processor \<Rightarrow> 'w processor \<times> (string + CommandStateRecord)" where
  "run_command en c p =
     (case execute_command en c (pr_world p) of
        (w, r) \<Rightarrow>
          let p1 = p \<lparr>pr_world := w, pr_runs := pr_runs p @ [no_command_id c]\<rparr>
          in case r of
               Inl e \<Rightarrow> finish_command en (command_record c ACK_FAILED None (Some e)) p1
             | Inr d \<Rightarrow> finish_command en (command_record c ACK_COMPLETED (Some d) None) p1)"

definition handle_command :: "'w command_engine \<Rightarrow> NodeCommand \<Rightarrow> 'w processor \<Rightarrow> 'w processor \<times> (string + CommandStateRecord)" where
  "handle_command en c p =
     (case map_of (pr_store p) (no_command_id c) of
        Some existing \<Rightarrow>
          (case ack_record en existing p of (p1, Inl e) \<Rightarrow> (p1, Inl e) | (p1, Inr _) \<Rightarrow> (p1, Inr existing))
      | None \<Rightarrow>
          (case accept_command en c p of
             (p1, Inl e) \<Rightarrow> (p1, Inl e)
           | (p1, Inr _) \<Rightarrow> run_command en c p1))"

section \<open>What a completed command leaves behind\<close>

lemma verify_loop_empty:
  "verify_loop listing pause n remaining w = (w', Inr []) \<Longrightarrow> 0 < n \<or> remaining \<noteq> [] \<Longrightarrow> \<exists>w1. listing w1 = (w', Inr [])"
proof (induction n arbitrary: remaining w)
  case (Suc n)
  then show ?case by (fastforce split: prod.splits sum.splits if_splits)
qed simp

lemma attempts_of_pos [simp]: "0 < attempts_of n"
  by (simp add: attempts_of_def)

lemma attempt_loop_bounds: "attempt_loop call pause n k err w = (w', Inr (j, r)) \<Longrightarrow> k \<le> j \<and> j < k + n"
proof (induction n arbitrary: k err w)
  case (Suc n)
  then show ?case by (fastforce split: prod.splits sum.splits)
qed simp

lemma close_position_item_props:
  assumes "close_position_item venue sleep cfg account_id position w = (w', i)"
  shows "cp_position_key i = item_key position" "cp_reduce_only i" "1 \<le> cp_attempts i" "cp_attempts i \<le> attempts_of (as_max_attempts cfg)"
proof -
  obtain w1 r where l: "attempt_loop (close_call venue account_id position) (sleep_for sleep (as_retry_delay_seconds cfg))
      (attempts_of (as_max_attempts cfg)) 1 [] w = (w1, r)" by fastforce
  have p: "1 \<le> attempts_of (as_max_attempts cfg)" using attempts_of_pos[of "as_max_attempts cfg"] by linarith
  have i: "i = (case r of
      Inr (k, x) \<Rightarrow> \<lparr>cp_position_key = item_key position, cp_status = ''closed'', cp_attempts = k, cp_reduce_only = True, cp_result = x, cp_error = None\<rparr>
    | Inl e \<Rightarrow> \<lparr>cp_position_key = item_key position, cp_status = ''failed'', cp_attempts = attempts_of (as_max_attempts cfg),
        cp_reduce_only = True, cp_result = [], cp_error = Some (if e = [] then ''close failed'' else e)\<rparr>)"
    using assms l by (auto simp: close_position_item_def split: sum.splits)
  show "cp_position_key i = item_key position" "cp_reduce_only i" unfolding i by (simp_all split: sum.split)
  show "1 \<le> cp_attempts i" "cp_attempts i \<le> attempts_of (as_max_attempts cfg)"
    unfolding i using p l by (auto split: sum.split dest!: attempt_loop_bounds)
qed

lemma each_with_pause_props:
  assumes "each_with_pause f pause xs w = (w', rs)" "\<And>x w w1 r. f x w = (w1, r) \<Longrightarrow> P x r"
  shows "list_all2 P xs rs"
  using assms(1)
proof (induction xs arbitrary: w rs)
  case (Cons x xs)
  then show ?case using assms(2) by (auto simp: Let_def split: prod.splits)
qed simp

definition merged_ok :: "(string \<times> dict) list \<Rightarrow> bool" where
  "merged_ok m \<longleftrightarrow> distinct (map fst m) \<and> (\<forall>(k, item) \<in> set m. item_key item = k)"

lemma merge_snapshot_keys:
  assumes "merge_snapshot a m s = Inr m'" "merged_ok m"
  shows "merged_ok m'"
    "fst ` set m' = fst ` set m \<union> (if snapshot_quantity s = 0 then {} else {k. position_key_for_snapshot a s = Inr k})"
proof -
  have "merged_ok m' \<and> fst ` set m' = fst ` set m \<union> (if snapshot_quantity s = 0 then {} else {k. position_key_for_snapshot a s = Inr k})"
  proof (cases "snapshot_quantity s = 0")
    case True
    then show ?thesis using assms by (simp add: merge_snapshot_def Let_def)
  next
    case False
    then obtain k where k: "position_key_for_snapshot a s = Inr k"
      using assms(1) by (cases "position_key_for_snapshot a s") (auto simp: merge_snapshot_def Let_def)
    obtain item where m': "m' = AList.update k item m" and item: "item_key item = k"
    proof (cases "map_of m k")
      case None
      then show ?thesis using assms(1) False k that[of "snapshot_item s k (snapshot_quantity s) [JStr (snapshot_position_id s k)]"]
        by (auto simp: merge_snapshot_def Let_def snapshot_item_def item_key_def)
    next
      case (Some current)
      then have "item_key current = k" using assms(2) by (auto simp: merged_ok_def dest: map_of_SomeD)
      then show ?thesis using assms(1) False k Some that
        by (auto simp: merge_snapshot_def Let_def snapshot_item_def item_key_def split: if_splits)
    qed
    have d: "distinct (map fst m')" using assms(2) by (simp add: m' merged_ok_def distinct_update)
    have "item_key it = k'" if "(k', it) \<in> set m'" for k' it
      using map_of_is_SomeI[OF d that] assms(2) item
      by (auto simp: m' update_conv merged_ok_def split: if_splits dest: map_of_SomeD)
    then have "\<forall>(k, item) \<in> set m'. item_key item = k" by blast
    moreover note d
    moreover have "set (map fst m') = insert k (set (map fst m))" unfolding m' update_keys by auto
    ultimately show ?thesis using False k by (auto simp: merged_ok_def)
  qed
  then show "merged_ok m'" "fst ` set m' = fst ` set m \<union> (if snapshot_quantity s = 0 then {} else {k. position_key_for_snapshot a s = Inr k})"
    by simp_all
qed

lemma merge_loop_keys:
  assumes "merge_loop a m ss = Inr m'" "merged_ok m"
  shows "merged_ok m' \<and> fst ` set m' = fst ` set m \<union> {k. \<exists>s \<in> set ss. snapshot_quantity s \<noteq> 0 \<and> position_key_for_snapshot a s = Inr k}"
  using assms
proof (induction ss arbitrary: m)
  case (Cons s ss)
  then obtain m1 where m1: "merge_snapshot a m s = Inr m1" "merge_loop a m1 ss = Inr m'"
    by (cases "merge_snapshot a m s") auto
  from Cons.IH[OF m1(2) merge_snapshot_keys(1)[OF m1(1) Cons.prems(2)]] merge_snapshot_keys(2)[OF m1(1) Cons.prems(2)]
  show ?case by (auto split: if_splits)
qed auto

lemma merged_positions_keys:
  assumes "merge_position_snapshots a ss = Inr items"
  shows "distinct (map item_key items)"
    "set (map item_key items) = {k. \<exists>s \<in> set ss. snapshot_quantity s \<noteq> 0 \<and> position_key_for_snapshot a s = Inr k}"
proof -
  obtain m where m: "merge_loop a [] ss = Inr m" "items = map snd m"
    using assms by (cases "merge_loop a [] ss") (auto simp: merge_position_snapshots_def)
  note k = merge_loop_keys[OF m(1)]
  have e: "map item_key items = map fst m" using k by (auto simp: m(2) merged_ok_def)
  show "distinct (map item_key items)" using k unfolding e by (simp add: merged_ok_def)
  show "set (map item_key items) = {k. \<exists>s \<in> set ss. snapshot_quantity s \<noteq> 0 \<and> position_key_for_snapshot a s = Inr k}"
    using k unfolding e by (simp add: merged_ok_def)
qed

lemma residual_empty:
  assumes "residual_positions a ks ss = Inr []"
  shows "\<forall>s \<in> set ss. \<forall>k. snapshot_quantity s \<noteq> 0 \<longrightarrow> position_key_for_snapshot a s = Inr k \<longrightarrow> k \<notin> set ks"
proof -
  obtain items where items: "merge_position_snapshots a ss = Inr items" "\<forall>i \<in> set items. item_key i \<notin> set ks"
    using assms by (cases "merge_position_snapshots a ss") (auto simp: residual_positions_def filter_empty_conv)
  then have "set (map item_key items) \<inter> set ks = {}" by auto
  then show ?thesis unfolding merged_positions_keys(2)[OF items(1)] by blast
qed

text \<open>
  C27. Closing every position is completed only when it is: if the command reports completed, the last listing of the venue,
  taken after every close, shows none of the targeted positions with a quantity. The targets are, once each, the positions
  with a quantity of the first listing, whatever ids and sides the snapshots give them, and each target was closed by
  reduce-only orders in at least one and at most the configured number of attempts.
\<close>

theorem completed_close_all_is_flat:
  assumes "close_all venue sleep cfg account_id positions w = (w', Inr r)" "ca_status r = ''completed''"
  shows "\<exists>first w1 last_listing.
      (case positions of Some ps \<Rightarrow> first = ps | None \<Rightarrow> \<exists>w0. cl_list_open_positions venue account_id w = (w0, Inr first))
    \<and> distinct (ca_target_position_keys r)
    \<and> set (ca_target_position_keys r) = {k. \<exists>s \<in> set first. snapshot_quantity s \<noteq> 0 \<and> position_key_for_snapshot account_id s = Inr k}
    \<and> cl_list_open_positions venue account_id w1 = (w', Inr last_listing)
    \<and> (\<forall>s \<in> set last_listing. \<forall>k \<in> set (ca_target_position_keys r).
          position_key_for_snapshot account_id s = Inr k \<longrightarrow> snapshot_quantity s = 0)
    \<and> list_all2 (\<lambda>k i. cp_position_key i = k \<and> cp_reduce_only i \<and> 1 \<le> cp_attempts i \<and> cp_attempts i \<le> attempts_of (as_max_attempts cfg))
        (ca_target_position_keys r) (ca_positions r)"
proof -
  obtain w0 first where first: "(case positions of Some ps \<Rightarrow> (w, Inr ps) | None \<Rightarrow> cl_list_open_positions venue account_id w) = (w0, Inr first)"
    using assms(1) by (auto simp: close_all_def split: prod.splits sum.splits)
  obtain items where items: "merge_position_snapshots account_id first = Inr items"
    using assms(1) first by (cases "merge_position_snapshots account_id first") (auto simp: close_all_def of_result_def)
  obtain w2 results where each: "each_with_pause (close_position_item venue sleep cfg account_id)
      (sleep_for sleep (as_inter_item_delay_seconds cfg)) items w0 = (w2, results)" by fastforce
  obtain residual where v: "verify_flat venue sleep cfg account_id (map item_key items) w2 = (w', Inr residual)"
    and r: "r = \<lparr>ca_status = (if residual = [] then ''completed'' else ''partial''), ca_positions = results,
      ca_residual_positions = residual, ca_flat = (residual = []), ca_target_position_keys = map item_key items\<rparr>"
    using assms(1) first items each by (auto simp: close_all_def of_result_def split: prod.splits sum.splits)
  have "residual = []" using assms(2) r by (auto split: if_splits)
  then obtain w1 where "list_residual venue account_id (map item_key items) w1 = (w', Inr [])"
    using v verify_loop_empty unfolding verify_flat_def by (metis attempts_of_pos)
  then obtain last_listing where ll: "cl_list_open_positions venue account_id w1 = (w', Inr last_listing)"
    "residual_positions account_id (map item_key items) last_listing = Inr []"
    by (auto simp: list_residual_def of_result_def split: prod.splits sum.splits)
  have "list_all2 (\<lambda>p i. cp_position_key i = item_key p \<and> cp_reduce_only i \<and> 1 \<le> cp_attempts i \<and> cp_attempts i \<le> attempts_of (as_max_attempts cfg))
      items results"
    by (rule each_with_pause_props[OF each]) (intro conjI; rule close_position_item_props)
  then have "list_all2 (\<lambda>k i. cp_position_key i = k \<and> cp_reduce_only i \<and> 1 \<le> cp_attempts i \<and> cp_attempts i \<le> attempts_of (as_max_attempts cfg))
      (map item_key items) results" by (simp add: list_all2_map1)
  moreover have "case positions of Some ps \<Rightarrow> first = ps | None \<Rightarrow> \<exists>w0. cl_list_open_positions venue account_id w = (w0, Inr first)"
    using first by (auto split: option.splits)
  moreover have "\<forall>s \<in> set last_listing. \<forall>k \<in> set (map item_key items). position_key_for_snapshot account_id s = Inr k \<longrightarrow> snapshot_quantity s = 0"
    using residual_empty[OF ll(2)] by blast
  moreover have t: "ca_target_position_keys r = map item_key items" "ca_positions r = results" by (simp_all add: r)
  ultimately show ?thesis
    using ll(1) merged_positions_keys[OF items] unfolding t
    by (intro exI[of _ first] exI[of _ w1] exI[of _ last_listing] conjI)
qed

text \<open>Cancelling every order is completed only when the last listing of the venue shows no working order.\<close>

theorem completed_cancel_all_is_clear:
  assumes "cancel_all venue sleep cfg account instruments w = (w', Inr r)" "cr_status r = ''completed''"
  shows "\<exists>w1. cv_list_working_orders venue account instruments w1 = (w', Inr [])"
proof -
  obtain w2 remaining where v: "verify_no_working_orders venue sleep cfg account instruments w2 = (w', Inr remaining)"
    and "cr_status r = (if remaining = [] then ''completed'' else ''partial'')"
    using assms(1) by (auto simp: cancel_all_def split: prod.splits sum.splits)
  then have "remaining = []" using assms(2) by (auto split: if_splits)
  then show ?thesis using v verify_loop_empty unfolding verify_no_working_orders_def by (metis attempts_of_pos)
qed

section \<open>Every command runs once\<close>

text \<open>
  The steps of a node: a command is handled, the process dies after the command was recorded as accepted, before or while it
  is executed, or something happens in the world.
\<close>

inductive processor_step :: "'w command_engine \<Rightarrow> 'w processor \<Rightarrow> 'w processor \<Rightarrow> bool" for en where
  handled: "handle_command en c p = (p', x) \<Longrightarrow> processor_step en p p'"
| died_accepted: "map_of (pr_store p) (no_command_id c) = None \<Longrightarrow> accept_command en c p = (p1, Inr ()) \<Longrightarrow>
    processor_step en p (p1 \<lparr>pr_world := w\<rparr>)"
| died_running: "map_of (pr_store p) (no_command_id c) = None \<Longrightarrow> accept_command en c p = (p1, Inr ()) \<Longrightarrow>
    processor_step en p (p1 \<lparr>pr_world := w, pr_runs := pr_runs p1 @ [no_command_id c]\<rparr>)"
| elapsed: "processor_step en p (p \<lparr>pr_world := w\<rparr>)"

definition new_processor :: "'w \<Rightarrow> 'w processor" where
  "new_processor w = \<lparr>pr_store = [], pr_world = w, pr_runs = []\<rparr>"

definition processor_ok :: "'w processor \<Rightarrow> bool" where
  "processor_ok p \<longleftrightarrow> distinct (pr_runs p) \<and> set (pr_runs p) \<subseteq> dom (map_of (pr_store p))
     \<and> (\<forall>k r. map_of (pr_store p) k = Some r \<longrightarrow> cs_status r \<noteq> ACK_ACCEPTED \<longrightarrow> k \<in> set (pr_runs p))"

lemma accept_effect:
  assumes "accept_command en c p = (p1, Inr ())"
  shows "map_of (pr_store p1) = (map_of (pr_store p))(no_command_id c \<mapsto> command_record c ACK_ACCEPTED None None)" "pr_runs p1 = pr_runs p"
  using assms by (auto simp: accept_command_def ack_record_def save_record_def command_record_def update_conv' Let_def split: prod.splits sum.splits)

lemma accept_refused: "accept_command en c p = (p1, Inl e) \<Longrightarrow> pr_store p1 = pr_store p \<and> pr_runs p1 = pr_runs p"
  by (auto simp: accept_command_def ack_record_def Let_def split: prod.splits sum.splits)

lemma run_effect:
  assumes "run_command en c p = (p', x)"
  shows "\<exists>r. cs_status r \<noteq> ACK_ACCEPTED \<and> map_of (pr_store p') = (map_of (pr_store p))(no_command_id c \<mapsto> r)
    \<and> pr_runs p' = pr_runs p @ [no_command_id c]"
proof -
  obtain w e where ex: "execute_command en c (pr_world p) = (w, e)" by fastforce
  define q where "q = p \<lparr>pr_world := w, pr_runs := pr_runs p @ [no_command_id c]\<rparr>"
  define r where "r = (case e of Inl m \<Rightarrow> command_record c ACK_FAILED None (Some m) | Inr d \<Rightarrow> command_record c ACK_COMPLETED (Some d) None)"
  have f: "finish_command en r q = (p', x)" using assms ex by (auto simp: run_command_def q_def r_def Let_def split: sum.splits)
  have r: "cs_status r \<noteq> ACK_ACCEPTED" "cs_command_id r = no_command_id c" by (simp_all add: r_def command_record_def split: sum.split)
  have "map_of (pr_store p') = (map_of (pr_store q))(no_command_id c \<mapsto> r)" "pr_runs p' = pr_runs q"
    using f r(2) by (auto simp: finish_command_def ack_record_def save_record_def update_conv' split: prod.splits sum.splits)
  then show ?thesis using r(1) by (intro exI[of _ r]) (simp add: q_def)
qed

text \<open>A step leaves the records and runs alone, or makes the first record of a command.\<close>

lemma processor_step_effect:
  assumes "processor_step en p p'"
  shows "(map_of (pr_store p') = map_of (pr_store p) \<and> pr_runs p' = pr_runs p)
    \<or> (\<exists>k r. map_of (pr_store p) k = None \<and> map_of (pr_store p') = (map_of (pr_store p))(k \<mapsto> r)
         \<and> (pr_runs p' = pr_runs p @ [k] \<or> pr_runs p' = pr_runs p \<and> cs_status r = ACK_ACCEPTED))"
  using assms
proof (induction rule: processor_step.induct)
  case (handled c p p' x)
  show ?case
  proof (cases "map_of (pr_store p) (no_command_id c)")
    case (Some existing)
    then show ?thesis using handled by (auto simp: handle_command_def ack_record_def split: prod.splits sum.splits)
  next
    case None
    obtain p1 y where a: "accept_command en c p = (p1, y)" by fastforce
    show ?thesis
    proof (cases y)
      case (Inl e)
      then show ?thesis using handled None a accept_refused by (fastforce simp: handle_command_def)
    next
      case (Inr u)
      then have a1: "accept_command en c p = (p1, Inr ())" using a by simp
      then have "run_command en c p1 = (p', x)" using handled None by (simp add: handle_command_def)
      from run_effect[OF this] obtain r where r: "map_of (pr_store p') = (map_of (pr_store p1))(no_command_id c \<mapsto> r)"
        "pr_runs p' = pr_runs p1 @ [no_command_id c]" by blast
      show ?thesis
        by (intro disjI2 exI[of _ "no_command_id c"] exI[of _ r]) (simp add: r accept_effect[OF a1] None)
    qed
  qed
next
  case (died_accepted p c p1 w)
  note a = accept_effect[OF died_accepted(2)]
  show ?case
    by (intro disjI2 exI[of _ "no_command_id c"] exI[of _ "command_record c ACK_ACCEPTED None None"])
      (simp add: a died_accepted(1), simp add: command_record_def)
next
  case (died_running p c p1 w)
  note a = accept_effect[OF died_running(2)]
  show ?case
    by (intro disjI2 exI[of _ "no_command_id c"] exI[of _ "command_record c ACK_ACCEPTED None None"]) (simp add: a died_running(1))
qed simp

lemma processor_step_ok:
  assumes "processor_step en p p'" "processor_ok p"
  shows "processor_ok p'"
  using processor_step_effect[OF assms(1)]
proof
  assume "map_of (pr_store p') = map_of (pr_store p) \<and> pr_runs p' = pr_runs p"
  then show ?thesis using assms(2) by (simp add: processor_ok_def)
next
  assume "\<exists>k r. map_of (pr_store p) k = None \<and> map_of (pr_store p') = (map_of (pr_store p))(k \<mapsto> r)
         \<and> (pr_runs p' = pr_runs p @ [k] \<or> pr_runs p' = pr_runs p \<and> cs_status r = ACK_ACCEPTED)"
  then obtain k r where kr: "map_of (pr_store p) k = None" "map_of (pr_store p') = (map_of (pr_store p))(k \<mapsto> r)"
    "pr_runs p' = pr_runs p @ [k] \<or> pr_runs p' = pr_runs p \<and> cs_status r = ACK_ACCEPTED" by blast
  have "k \<notin> set (pr_runs p)" using kr(1) assms(2) by (auto simp: processor_ok_def)
  then show ?thesis using assms(2) kr(2,3) by (auto simp: processor_ok_def)
qed

interpretation processor: invariant_store "new_processor w" "processor_step en" processor_ok for w :: 'w and en
proof
  show "processor_ok (new_processor w)" by (simp add: processor_ok_def new_processor_def)
qed (rule processor_step_ok)

lemma records_kept:
  assumes "(processor_step en)\<^sup>*\<^sup>* p p'" "map_of (pr_store p) k = Some r"
  shows "map_of (pr_store p') k = Some r \<and> (k \<in> set (pr_runs p') \<longrightarrow> k \<in> set (pr_runs p))"
  using assms
proof (induction rule: rtranclp_induct)
  case (step q q')
  then have q: "map_of (pr_store q) k = Some r" "k \<in> set (pr_runs q) \<longrightarrow> k \<in> set (pr_runs p)" by auto
  from processor_step_effect[OF step.hyps(2)] show ?case using q by auto
qed simp

text \<open>
  C26. No command runs twice, however often it is delivered and wherever the process dies, and its answer is final: a command
  recorded as completed or failed did run, and every later state has the same record for it, which is what redeliveries
  are answered with.
\<close>

theorem command_runs_once:
  assumes "(processor_step en)\<^sup>*\<^sup>* (new_processor w) p" "(processor_step en)\<^sup>*\<^sup>* p p'"
  shows "distinct (pr_runs p')
    \<and> (\<forall>k r. map_of (pr_store p) k = Some r \<and> cs_status r \<noteq> ACK_ACCEPTED \<longrightarrow> k \<in> set (pr_runs p) \<and> map_of (pr_store p') k = Some r)"
proof -
  have "processor_ok p" by (rule processor.reachable_inv[OF assms(1)])
  moreover have "processor_ok p'" by (rule processor.inv_steps[OF assms(2) \<open>processor_ok p\<close>])
  ultimately show ?thesis using records_kept[OF assms(2)] by (auto simp: processor_ok_def)
qed

text \<open>
  C39. A command whose process died between recording it as accepted and executing it is never executed: every later
  delivery finds the record and only repeats that the command was accepted.
\<close>

theorem interrupted_command_never_runs:
  assumes "(processor_step en)\<^sup>*\<^sup>* (new_processor w) p" "map_of (pr_store p) (no_command_id c) = None"
    "accept_command en c p = (p1, Inr ())" "(processor_step en)\<^sup>*\<^sup>* p1 p2"
  shows "no_command_id c \<notin> set (pr_runs p2) \<and> map_of (pr_store p2) (no_command_id c) = Some (command_record c ACK_ACCEPTED None None)"
proof -
  have "no_command_id c \<notin> set (pr_runs p)" using processor.reachable_inv[OF assms(1)] assms(2) by (auto simp: processor_ok_def)
  then show ?thesis using records_kept[OF assms(4)] accept_effect[OF assms(3)] by auto
qed

text \<open>The sink delivers each report once: a report that was acknowledged is not sent again.\<close>

theorem repeated_report_not_sent:
  assumes "sink_record ack pause n s command_id status result error items = (s1, Inr payload)"
    "sink_record ack pause n s1 command_id status result error items' = (s2, x)"
  shows "rs_world s2 = rs_world s1 \<and> rs_acked s2 = rs_acked s1"
proof -
  have "sink_ack_key command_id status result error \<in> set (rs_acked s1)"
    using assms(1) by (auto simp: sink_record_def Let_def split: sum.splits if_splits prod.splits)
  then show ?thesis using assms(2) by (auto simp: sink_record_def Let_def split: sum.splits)
qed

section \<open>Example\<close>

definition example_engine :: "nat command_engine" where
  "example_engine =
     \<lparr>en_apply_operator_state = (\<lambda>_ _ w. (w + 1, Inr ())), en_trading_state = (\<lambda>_. ''ACTIVE''), en_cancel_all = (\<lambda>_ w. (w, Inr [])),
      en_wait_for_no_working_orders = (\<lambda>w. (w, Inr ())), en_open_positions = (\<lambda>_ w. (w, Inr [])),
      en_close_position_reduce_only = (\<lambda>_ w. (w, Inr [])), en_wait_until_flat = (\<lambda>_ w. (w, Inr ())),
      en_ack_command = (\<lambda>_ _ _ _ w. (w, Inr ()))\<rparr>"

definition example_halt :: NodeCommand where
  "example_halt = \<lparr>no_command_id = ''c1'', no_type = HALT, no_args = []\<rparr>"

lemmas example_command_defs = example_engine_def example_halt_def handle_command_def accept_command_def run_command_def finish_command_def
  execute_command_def set_operator_state_def and_then_def ack_record_def save_record_def command_record_def new_processor_def

theorem command_runs_once_witness:
  "pr_runs (fst (handle_command example_engine example_halt (fst (handle_command example_engine example_halt (new_processor 0))))) = [''c1'']
    \<and> distinct (pr_runs (fst (handle_command example_engine example_halt (fst (handle_command example_engine example_halt (new_processor 0))))))"
proof -
  let ?p = "fst (handle_command example_engine example_halt (new_processor 0))"
  have a: "(processor_step example_engine)\<^sup>*\<^sup>* (new_processor 0) ?p"
    using processor_step.handled[of example_engine example_halt "new_processor 0" ?p] by (metis prod.collapse r_into_rtranclp)
  have b: "(processor_step example_engine)\<^sup>*\<^sup>* ?p (fst (handle_command example_engine example_halt ?p))"
    using processor_step.handled[of example_engine example_halt ?p] by (metis prod.collapse r_into_rtranclp)
  have "distinct (pr_runs (fst (handle_command example_engine example_halt ?p)))" using command_runs_once[OF a b] by (rule conjunct1)
  then show ?thesis by (simp add: example_command_defs)
qed

theorem interrupted_command_never_runs_witness:
  "\<exists>p1. accept_command example_engine example_halt (new_processor 0) = (p1, Inr ())
    \<and> ''c1'' \<notin> set (pr_runs (fst (handle_command example_engine example_halt p1)))"
proof -
  let ?c = example_halt
  obtain p1 where a: "accept_command example_engine ?c (new_processor 0) = (p1, Inr ())"
    by (simp add: example_command_defs)
  have n: "map_of (pr_store (new_processor (0 :: nat))) (no_command_id ?c) = None" by (simp add: new_processor_def)
  have "(processor_step example_engine)\<^sup>*\<^sup>* p1 (fst (handle_command example_engine ?c p1))"
    using processor_step.handled[of example_engine ?c p1] by (metis prod.collapse r_into_rtranclp)
  from interrupted_command_never_runs[OF rtranclp.rtrancl_refl n a this] a show ?thesis by (auto simp: example_halt_def)
qed

definition example_close_venue :: "bool close_venue" where
  "example_close_venue =
     \<lparr>cl_list_open_positions = (\<lambda>_ flat. (flat, Inr (if flat then [] else [[(''instrument_id'', JStr ''BTCUSDT''), (''quantity'', JDec 2)]]))),
      cl_close_one = (\<lambda>_ _ _ _. (True, Inr []))\<rparr>"

definition example_attempts :: AttemptSettings where
  "example_attempts = \<lparr>as_max_attempts = 3, as_inter_item_delay_seconds = 0, as_retry_delay_seconds = 0, as_verify_attempts = 3,
     as_verify_delay_seconds = 0\<rparr>"

theorem completed_close_all_is_flat_witness:
  "\<exists>w' r. close_all example_close_venue (\<lambda>_ w. w) example_attempts ''a1'' None False = (w', Inr r)
     \<and> ca_target_position_keys r = [''a1:BTCUSDT''] \<and> (\<exists>listing. cl_list_open_positions example_close_venue ''a1'' w' = (w', Inr listing) \<and> listing = [])"
proof -
  have "case close_all example_close_venue (\<lambda>_ w. w) example_attempts ''a1'' None False of
      (w', Inr r) \<Rightarrow> w' \<and> ca_status r = ''completed'' \<and> ca_target_position_keys r = [''a1:BTCUSDT''] | (_, Inl _) \<Rightarrow> False"
    by code_simp
  then obtain w' r where c: "close_all example_close_venue (\<lambda>_ w. w) example_attempts ''a1'' None False = (w', Inr r)" "w'"
    "ca_status r = ''completed''" "ca_target_position_keys r = [''a1:BTCUSDT'']" by (auto split: prod.splits sum.splits)
  from completed_close_all_is_flat[OF c(1,3)] have "distinct (ca_target_position_keys r)" by blast
  then show ?thesis using c by (intro exI[of _ w'] exI[of _ r]) (simp add: example_close_venue_def)
qed

end
