(* ===== verification/Node_Limits.thy ===== *)
theory Node_Limits
  imports Client_Order_Ids "HOL-Library.List_Lexorder" "HOL-Library.Char_ord"
begin

text \<open>
  The limits the node applies itself: the gate of the trading state and the mirror of the engine's order limits
  (\<open>risk/limits.py\<close>), the configuration handed to the engine (\<open>risk/config.py\<close>), and the claim of a fill by
  its identity (\<open>persistence/idempotency.py\<close>).

  The text of a decimal number is its value, \<open>None\<close> if it does not spell one; numbers are finite.
\<close>

section \<open>The gate of the trading state\<close>

datatype TradingStateOrderAction = SUBMIT | MODIFY | CANCEL

record TradingStateOrderRequest =
  to_action :: TradingStateOrderAction
  to_reduce_only :: bool

record RiskLimitDecision =
  rd_allowed :: bool
  rd_reason :: string

definition limit_ok :: RiskLimitDecision where
  "limit_ok = \<lparr>rd_allowed = True, rd_reason = []\<rparr>"

definition limit_deny :: "string \<Rightarrow> RiskLimitDecision" where
  "limit_deny reason = \<lparr>rd_allowed = False, rd_reason = reason\<rparr>"

definition order_gate_check :: "string \<Rightarrow> TradingStateOrderRequest \<Rightarrow> RiskLimitDecision" where
  "order_gate_check state request =
     (if to_action request = CANCEL then limit_ok
      else if state = ''ACTIVE'' then limit_ok
      else if state = ''HALTED'' then limit_deny ''trading_halted''
      else if state = ''REDUCING'' then (if to_reduce_only request then limit_ok else limit_deny ''trading_reducing'')
      else limit_deny ''unknown_trading_state'')"

section \<open>Rates\<close>

text \<open>\<open>int(text)\<close>: blanks around it, a sign, digits with single underscores between them.\<close>

fun dec_tail :: "nat \<Rightarrow> string \<Rightarrow> nat option" where
  "dec_tail acc [] = Some acc"
| "dec_tail acc (c # cs) =
     (if is_ascii_digit c then dec_tail (10 * acc + (of_char c - 48)) cs
      else if c = CHR ''_'' \<and> cs \<noteq> [] \<and> is_ascii_digit (hd cs) then dec_tail acc cs else None)"

definition parse_int10 :: "string \<Rightarrow> int option" where
  "parse_int10 s =
     (let t = strip s;
          neg = (t \<noteq> [] \<and> hd t = CHR ''-'');
          u = (if t \<noteq> [] \<and> hd t \<in> {CHR ''-'', CHR ''+''} then tl t else t)
      in if u = [] \<or> \<not> is_ascii_digit (hd u) then None
         else map_option (\<lambda>n. if neg then - int n else int n) (dec_tail 0 u))"

text \<open>\<open>text.split(c, n)\<close>.\<close>

fun split_max :: "char \<Rightarrow> nat \<Rightarrow> string \<Rightarrow> string list" where
  "split_max c n [] = [[]]"
| "split_max c n (x # s) =
     (if x = c \<and> 0 < n then [] # split_max c (n - 1) s else (x # hd (split_max c n s)) # tl (split_max c n s))"

definition seconds_of :: "int \<Rightarrow> int \<Rightarrow> int \<Rightarrow> duration" where
  "seconds_of h m s = (h * 3600 + m * 60 + s) * 1000000"

definition mirror_parse_rate :: "string \<Rightarrow> (int \<times> duration) result" where
  "mirror_parse_rate rate =
     (case split_max CHR ''/'' 1 rate of
        [count_raw, interval] \<Rightarrow>
          (case split_max CHR '':'' 2 interval of
             [h, m, s] \<Rightarrow>
               (case (parse_int10 h, parse_int10 m, parse_int10 s, parse_int10 count_raw) of
                  (Some h', Some m', Some s', Some n) \<Rightarrow> Inr (n, seconds_of h' m' s')
                | _ \<Rightarrow> Inl ValueError)
           | _ \<Rightarrow> Inl ValueError)
      | _ \<Rightarrow> Inl ValueError)"

text \<open>The timestamps that left the window are forgotten, then the request is refused or remembered.\<close>

definition check_rate :: "instant list \<Rightarrow> int \<times> duration \<Rightarrow> instant \<Rightarrow> string \<Rightarrow> instant list \<times> RiskLimitDecision" where
  "check_rate timestamps rate ts reason =
     (let recent = dropWhile (\<lambda>t. t \<le> ts - snd rate) timestamps
      in if int (length recent) \<ge> fst rate then (recent, limit_deny reason) else (recent @ [ts], limit_ok))"

section \<open>The mirror of the order limits\<close>

record LimitOrderRequest =
  lr_instrument_id :: string
  lr_quantity :: "rat option"
  lr_price :: "rat option"
  lr_ts :: instant

record InstrumentPrecision =
  ip_price_increment :: "rat option"
  ip_quantity_increment :: "rat option"

record RiskLimitConfig =
  rl_max_notional_per_order :: "(string \<times> rat option) list"
  rl_max_order_submit_rate :: string
  rl_max_order_modify_rate :: string
  rl_instrument_precision :: "(string \<times> InstrumentPrecision) list"

record RiskLimitMirror =
  rm_config :: RiskLimitConfig
  rm_submit_rate :: "int \<times> duration"
  rm_modify_rate :: "int \<times> duration"
  rm_submit_timestamps :: "instant list"
  rm_modify_timestamps :: "instant list"

definition new_mirror :: "RiskLimitConfig \<Rightarrow> RiskLimitMirror result" where
  "new_mirror cfg =
     bind_result (mirror_parse_rate (rl_max_order_submit_rate cfg)) (\<lambda>sr.
     bind_result (mirror_parse_rate (rl_max_order_modify_rate cfg)) (\<lambda>mr.
     Inr \<lparr>rm_config = cfg, rm_submit_rate = sr, rm_modify_rate = mr, rm_submit_timestamps = [], rm_modify_timestamps = []\<rparr>))"

definition limit_decimal :: "rat option \<Rightarrow> rat result" where
  "limit_decimal v = (case v of Some x \<Rightarrow> Inr x | None \<Rightarrow> Inl ValueError)"

text \<open>The remainder is exact, and undefined for a quotient of more than 28 digits.\<close>

definition is_multiple :: "rat \<Rightarrow> rat \<Rightarrow> bool result" where
  "is_multiple x increment =
     (if increment \<le> 0 then Inl ValueError
      else if \<bar>x / increment\<bar> \<ge> 10 ^ 28 then Inl InvalidOperation
      else Inr (of_int \<lfloor>x / increment\<rfloor> = x / increment))"

definition check_notional :: "RiskLimitConfig \<Rightarrow> LimitOrderRequest \<Rightarrow> RiskLimitDecision result" where
  "check_notional cfg request =
     (case map_of (rl_max_notional_per_order cfg) (lr_instrument_id request) of
        None \<Rightarrow> Inr (limit_deny ''max_notional_missing'')
      | Some limit_raw \<Rightarrow>
          bind_result (limit_decimal (lr_quantity request)) (\<lambda>quantity.
          bind_result (limit_decimal (lr_price request)) (\<lambda>price.
          if quantity \<le> 0 \<or> price \<le> 0 then Inr (limit_deny ''non_positive_order'')
          else bind_result (limit_decimal limit_raw) (\<lambda>cap.
            if dmul quantity price > cap then Inr (limit_deny ''max_notional_exceeded'') else Inr limit_ok))))"

definition check_precision :: "RiskLimitConfig \<Rightarrow> LimitOrderRequest \<Rightarrow> RiskLimitDecision result" where
  "check_precision cfg request =
     (case map_of (rl_instrument_precision cfg) (lr_instrument_id request) of
        None \<Rightarrow> Inr limit_ok
      | Some precision \<Rightarrow>
          bind_result (limit_decimal (ip_price_increment precision)) (\<lambda>price_increment.
          bind_result (limit_decimal (ip_quantity_increment precision)) (\<lambda>quantity_increment.
          bind_result (limit_decimal (lr_price request)) (\<lambda>price.
          bind_result (is_multiple price price_increment) (\<lambda>p_ok.
          if \<not> p_ok then Inr (limit_deny ''instrument_precision'')
          else
            bind_result (limit_decimal (lr_quantity request)) (\<lambda>quantity.
            bind_result (is_multiple quantity quantity_increment) (\<lambda>q_ok.
            if \<not> q_ok then Inr (limit_deny ''instrument_precision'') else Inr limit_ok)))))))"

definition check_submit :: "RiskLimitMirror \<Rightarrow> LimitOrderRequest \<Rightarrow> (RiskLimitMirror \<times> RiskLimitDecision) result" where
  "check_submit m request =
     bind_result (check_notional (rm_config m) request) (\<lambda>notional.
     if \<not> rd_allowed notional then Inr (m, notional)
     else bind_result (check_precision (rm_config m) request) (\<lambda>precision.
       if \<not> rd_allowed precision then Inr (m, precision)
       else let (ts, d) = check_rate (rm_submit_timestamps m) (rm_submit_rate m) (lr_ts request) ''submit_rate_exceeded''
            in Inr (m \<lparr>rm_submit_timestamps := ts\<rparr>, d)))"

definition check_modify :: "RiskLimitMirror \<Rightarrow> LimitOrderRequest \<Rightarrow> (RiskLimitMirror \<times> RiskLimitDecision) result" where
  "check_modify m request =
     bind_result (check_precision (rm_config m) request) (\<lambda>precision.
     if \<not> rd_allowed precision then Inr (m, precision)
     else let (ts, d) = check_rate (rm_modify_timestamps m) (rm_modify_rate m) (lr_ts request) ''modify_rate_exceeded''
          in Inr (m \<lparr>rm_modify_timestamps := ts\<rparr>, d))"

section \<open>The configuration of the engine\<close>

definition config_parse_rate :: "string \<Rightarrow> (int \<times> string) result" where
  "config_parse_rate rate =
     (case split_max CHR ''/'' 1 rate of
        [count_raw, interval] \<Rightarrow>
          (case parse_int10 count_raw of
             None \<Rightarrow> Inl ValueError
           | Some n \<Rightarrow>
               if n \<le> 0 then Inl ValueError
               else let parts = split_all CHR '':'' interval
                    in if length parts \<noteq> 3 \<or> list_ex (\<lambda>p. p = [] \<or> \<not> list_all is_ascii_digit p) parts then Inl ValueError
                       else Inr (n, interval))
      | _ \<Rightarrow> Inl ValueError)"

fun validate_caps :: "(string \<times> rat option) list \<Rightarrow> (string \<times> rat) list result" where
  "validate_caps [] = Inr []"
| "validate_caps ((i, v) # rest) =
     (if i = [] then Inl ValueError
      else case v of
             None \<Rightarrow> Inl ValueError
           | Some cap \<Rightarrow> if cap \<le> 0 then Inl ValueError else bind_result (validate_caps rest) (\<lambda>caps. Inr ((i, cap) # caps)))"

definition validate_limit_config :: "RiskLimitConfig \<Rightarrow> (string \<times> rat) list result" where
  "validate_limit_config cfg =
     (if rl_max_notional_per_order cfg = [] then Inl ValueError
      else
        bind_result (validate_caps (rl_max_notional_per_order cfg)) (\<lambda>caps.
        bind_result (config_parse_rate (rl_max_order_submit_rate cfg)) (\<lambda>_.
        bind_result (config_parse_rate (rl_max_order_modify_rate cfg)) (\<lambda>_.
        Inr (sort_key fst caps)))))"

definition DEFAULT_LIVE_ENTRY_NOTIONAL_KEY :: string where
  "DEFAULT_LIVE_ENTRY_NOTIONAL_KEY = ''*''"

record engine_kwargs =
  ek_bypass :: bool
  ek_max_order_submit_rate :: string
  ek_max_order_modify_rate :: string
  ek_max_notional_per_order :: "(string \<times> rat) list"

definition build_live_risk_engine_kwargs :: "RiskLimitConfig \<Rightarrow> engine_kwargs result" where
  "build_live_risk_engine_kwargs cfg =
     bind_result (validate_limit_config cfg) (\<lambda>inventory.
     Inr \<lparr>ek_bypass = False, ek_max_order_submit_rate = rl_max_order_submit_rate cfg,
       ek_max_order_modify_rate = rl_max_order_modify_rate cfg,
       ek_max_notional_per_order = filter (\<lambda>(i, _). i \<noteq> DEFAULT_LIVE_ENTRY_NOTIONAL_KEY) inventory\<rparr>)"

definition build_live_entry_notional_inventory :: "RiskLimitConfig \<Rightarrow> (string \<times> rat) list result" where
  "build_live_entry_notional_inventory cfg = validate_limit_config cfg"

section \<open>Claiming fills\<close>

record FillIdentity =
  fi_account_id :: account_id
  fi_venue_order_id :: string
  fi_trade_id :: string
  fi_event_kind :: string

definition escape :: "string \<Rightarrow> string" where
  "escape s = map (\<lambda>c. if c = CHR '':'' then CHR ''_'' else c) s"

definition dedup_key :: "FillIdentity \<Rightarrow> string result" where
  "dedup_key f =
     (if fi_account_id f = [] \<or> fi_venue_order_id f = [] \<or> fi_trade_id f = [] \<or> fi_event_kind f = [] then Inl ValueError
      else Inr (''fills'' @ '':'' @ escape (fi_account_id f) @ '':'' @ escape (fi_event_kind f) @ '':'' @
                escape (fi_venue_order_id f) @ '':'' @ escape (fi_trade_id f)))"

definition claim_key :: "string \<Rightarrow> string set \<Rightarrow> string set \<times> bool" where
  "claim_key k keys = (if k \<in> keys then (keys, False) else (insert k keys, True))"

definition memory_claim_fill :: "string set \<Rightarrow> FillIdentity \<Rightarrow> (string set \<times> bool) result" where
  "memory_claim_fill keys f =
     bind_result (dedup_key f) (\<lambda>k. Inr (claim_key k keys))"

text \<open>\<open>SET name 1 NX EX ttl\<close> on keys with their expiry.\<close>

definition redis_set_nx :: "(string \<rightharpoonup> instant option) \<Rightarrow> instant \<Rightarrow> string \<Rightarrow> duration option \<Rightarrow> (string \<rightharpoonup> instant option) \<times> bool" where
  "redis_set_nx db now name ttl =
     (if (case db name of Some (Some expiry) \<Rightarrow> now < expiry | Some None \<Rightarrow> True | None \<Rightarrow> False) then (db, False)
      else (db(name \<mapsto> map_option (\<lambda>d. now + d) ttl), True))"

definition redis_claim_fill ::
    "string \<Rightarrow> duration option \<Rightarrow> (string \<rightharpoonup> instant option) \<Rightarrow> instant \<Rightarrow> FillIdentity \<Rightarrow> ((string \<rightharpoonup> instant option) \<times> bool) result" where
  "redis_claim_fill key_prefix ttl db now f =
     bind_result (dedup_key f) (\<lambda>k. Inr (redis_set_nx db now (rstrip_colons key_prefix @ '':idempotency:'' @ k) ttl))"

section \<open>The rate limit holds in every window\<close>

text \<open>The timestamps accepted from a sequence of requests.\<close>

fun rate_run :: "int \<times> duration \<Rightarrow> instant list \<Rightarrow> instant list \<Rightarrow> instant list" where
  "rate_run rate state [] = []"
| "rate_run rate state (t # ts) =
     (let (state', d) = check_rate state rate t [] in (if rd_allowed d then [t] else []) @ rate_run rate state' ts)"

definition in_window :: "duration \<Rightarrow> instant \<Rightarrow> instant list \<Rightarrow> nat" where
  "in_window width t ts = length (filter (\<lambda>x. t - width < x \<and> x \<le> t) ts)"

lemma recent_filter: "sorted ts \<Longrightarrow> dropWhile (\<lambda>t. t \<le> c) ts = filter (\<lambda>t. c < t) (ts :: int list)"
proof (induction ts)
  case (Cons a ts)
  then have "c < a \<Longrightarrow> filter (\<lambda>t. c < t) ts = ts" by (auto simp: filter_id_conv)
  with Cons show ?case by auto
qed simp

text \<open>What is remembered is the accepted part of the last window.\<close>

lemma rate_run_window:
  assumes "sorted (acc @ ts)" "0 < width" "state = filter (\<lambda>x. c < x) acc" "\<forall>t \<in> set ts. c \<le> t - width" "sorted state"
    "\<forall>t. int (in_window width t acc) \<le> max n 0"
  shows "int (in_window width t (acc @ rate_run (n, width) state ts)) \<le> max n 0"
  using assms
proof (induction ts arbitrary: acc state c)
  case Nil
  then show ?case by simp
next
  case (Cons x ts)
  let ?recent = "filter (\<lambda>y. x - width < y) acc"
  have r: "dropWhile (\<lambda>y. y \<le> x - width) state = ?recent"
    using Cons.prems(3-5) by (subst recent_filter) (auto intro!: filter_cong)
  have sa: "sorted acc" "\<forall>y \<in> set acc. y \<le> x" "sorted (x # ts)" using Cons.prems(1) by (auto simp: sorted_append)
  have cut: "\<forall>t \<in> set ts. x - width \<le> t - width" using sa(3) by auto
  show ?case
  proof (cases "int (length ?recent) \<ge> n")
    case True
    have "sorted (acc @ ts)" using Cons.prems(1) by (auto simp: sorted_append)
    from Cons.IH[OF this Cons.prems(2) refl cut sorted_wrt_filter[OF sa(1)] Cons.prems(6)] True
    show ?thesis by (simp add: check_rate_def r Let_def limit_deny_def)
  next
    case False
    have w: "in_window width u (acc @ [x]) \<le> Suc (length ?recent)" if "x \<le> u" for u
    proof -
      have "filter (\<lambda>y. u - width < y \<and> y \<le> u) acc = filter (\<lambda>y. u - width < y \<and> y \<le> u) ?recent"
        unfolding filter_filter using that by (intro filter_cong) auto
      then have "length (filter (\<lambda>y. u - width < y \<and> y \<le> u) acc) \<le> length ?recent"
        by (metis length_filter_le)
      then show ?thesis by (simp add: in_window_def)
    qed
    have "int (in_window width u (acc @ [x])) \<le> max n 0" for u
    proof (cases "x \<le> u")
      case True
      then show ?thesis using w[of u] False by linarith
    next
      case before: False
      then show ?thesis using Cons.prems(6) by (simp add: in_window_def)
    qed
    then have all: "\<forall>u. int (in_window width u (acc @ [x])) \<le> max n 0" by blast
    have state: "?recent @ [x] = filter (\<lambda>y. x - width < y) (acc @ [x])" using Cons.prems(2) by simp
    have sorted: "sorted ((acc @ [x]) @ ts)" "sorted (?recent @ [x])"
      using Cons.prems(1) sa sorted_wrt_filter[OF sa(1)] by (auto simp: sorted_append)
    from Cons.IH[OF sorted(1) Cons.prems(2) state cut sorted(2) all] False
    show ?thesis by (simp add: check_rate_def r Let_def limit_ok_def)
  qed
qed


text \<open>
  C29. The rate limit holds in every window, not only in aligned ones: of the requests of a node, seen in the order of their
  times, at most the configured number is let through in any interval of the configured length.
\<close>

theorem rate_limit_holds_in_every_window:
  assumes "sorted ts"
  shows "int (in_window width t (rate_run (n, width) [] ts)) \<le> max n 0"
proof (cases "0 < width")
  case True
  have "in_window width u [] = 0" for u by (simp add: in_window_def)
  then show ?thesis
    using rate_run_window[of "[]" ts width "[]" "(if ts = [] then 0 else hd ts - width)" n t] assms True
    by (cases ts) auto
next
  case False
  then have "in_window width t (rate_run (n, width) [] ts) = 0" by (auto simp: in_window_def filter_empty_conv)
  then show ?thesis by simp
qed

theorem rate_limit_holds_in_every_window_witness:
  "sorted [1, 2, 3, 12 :: int] \<and> rate_run (2, 10) [] [1, 2, 3, 12] = [1, 2, 12] \<and> in_window 10 5 [1, 2, 12] = 2"
  using rate_limit_holds_in_every_window[of "[1, 2, 3, 12]" 10 5 2]
  by (simp add: check_rate_def in_window_def limit_ok_def limit_deny_def)

text \<open>
  An order that the mirror lets through has a cap of its own instrument, a positive quantity and price, and a notional,
  in Decimal arithmetic, within the cap.
\<close>

theorem submitted_order_within_cap:
  assumes "check_submit m request = Inr (m', d)" "rd_allowed d"
  shows "\<exists>cap q p. map_of (rl_max_notional_per_order (rm_config m)) (lr_instrument_id request) = Some (Some cap)
    \<and> lr_quantity request = Some q \<and> lr_price request = Some p \<and> 0 < q \<and> 0 < p \<and> dmul q p \<le> cap"
proof -
  obtain n where n: "check_notional (rm_config m) request = Inr n"
    using assms(1) by (cases "check_notional (rm_config m) request") (auto simp: check_submit_def)
  then have "rd_allowed n" using assms by (auto simp: check_submit_def split: if_splits)
  with n show ?thesis
    by (auto simp: check_notional_def limit_decimal_def limit_deny_def not_less not_le split: option.splits if_splits)
qed

text \<open>A cancel passes in every state; nothing else passes while halted, and only reducing orders while reducing.\<close>

theorem order_gate_cases:
  "rd_allowed (order_gate_check state request) \<longleftrightarrow>
     to_action request = CANCEL \<or> state = ''ACTIVE'' \<or> state = ''REDUCING'' \<and> to_reduce_only request"
  by (auto simp: order_gate_check_def limit_ok_def limit_deny_def)

text \<open>The engine is never configured to bypass its checks, and every cap it gets is positive.\<close>

lemma validate_caps_props: "validate_caps raw = Inr caps \<Longrightarrow> \<forall>(i, cap) \<in> set caps. i \<noteq> [] \<and> 0 < cap"
proof (induction raw arbitrary: caps)
  case (Cons x raw)
  then show ?case by (cases x) (fastforce simp: bind_result_Inr_iff split: if_splits option.splits)
qed simp

theorem engine_limits_active:
  assumes "build_live_risk_engine_kwargs cfg = Inr kw"
  shows "\<not> ek_bypass kw \<and> (\<forall>(i, cap) \<in> set (ek_max_notional_per_order kw). i \<noteq> [] \<and> 0 < cap)"
  using assms validate_caps_props
  by (fastforce simp: build_live_risk_engine_kwargs_def validate_limit_config_def bind_result_Inr_iff split: if_splits)

section \<open>The identity of a fill\<close>

lemma escape_no_colon: "CHR '':'' \<notin> set (escape s)"
  by (auto simp: escape_def)

lemma split_at_colon:
  assumes "a @ CHR '':'' # x = b @ CHR '':'' # y" "CHR '':'' \<notin> set a" "CHR '':'' \<notin> set b"
  shows "a = b \<and> x = y"
  using assms
proof (induction a arbitrary: b)
  case Nil
  then show ?case by (cases b) auto
next
  case (Cons c a)
  then show ?case by (cases b) auto
qed

text \<open>The parts of a key can be told apart: two fills share a key exactly when their escaped parts agree.\<close>

theorem dedup_key_parts:
  assumes "dedup_key f = Inr k" "dedup_key g = Inr k'"
  shows "k = k' \<longleftrightarrow> escape (fi_account_id f) = escape (fi_account_id g) \<and> escape (fi_event_kind f) = escape (fi_event_kind g)
    \<and> escape (fi_venue_order_id f) = escape (fi_venue_order_id g) \<and> escape (fi_trade_id f) = escape (fi_trade_id g)"
proof
  assume "k = k'"
  with assms have "escape (fi_account_id f) @ CHR '':'' # (escape (fi_event_kind f) @ CHR '':'' # (escape (fi_venue_order_id f) @ CHR '':'' # escape (fi_trade_id f)))
    = escape (fi_account_id g) @ CHR '':'' # (escape (fi_event_kind g) @ CHR '':'' # (escape (fi_venue_order_id g) @ CHR '':'' # escape (fi_trade_id g)))"
    by (auto simp: dedup_key_def split: if_splits)
  from split_at_colon[OF this escape_no_colon escape_no_colon]
  have 1: "escape (fi_account_id f) = escape (fi_account_id g)"
    "escape (fi_event_kind f) @ CHR '':'' # (escape (fi_venue_order_id f) @ CHR '':'' # escape (fi_trade_id f))
     = escape (fi_event_kind g) @ CHR '':'' # (escape (fi_venue_order_id g) @ CHR '':'' # escape (fi_trade_id g))" by simp_all
  from split_at_colon[OF 1(2) escape_no_colon escape_no_colon]
  have 2: "escape (fi_event_kind f) = escape (fi_event_kind g)"
    "escape (fi_venue_order_id f) @ CHR '':'' # escape (fi_trade_id f) = escape (fi_venue_order_id g) @ CHR '':'' # escape (fi_trade_id g)" by simp_all
  from split_at_colon[OF 2(2) escape_no_colon escape_no_colon] 1(1) 2(1)
  show "escape (fi_account_id f) = escape (fi_account_id g) \<and> escape (fi_event_kind f) = escape (fi_event_kind g)
    \<and> escape (fi_venue_order_id f) = escape (fi_venue_order_id g) \<and> escape (fi_trade_id f) = escape (fi_trade_id g)" by simp
next
  assume "escape (fi_account_id f) = escape (fi_account_id g) \<and> escape (fi_event_kind f) = escape (fi_event_kind g)
    \<and> escape (fi_venue_order_id f) = escape (fi_venue_order_id g) \<and> escape (fi_trade_id f) = escape (fi_trade_id g)"
  then show "k = k'" using assms by (auto simp: dedup_key_def split: if_splits)
qed

text \<open>
  What a client of a claim store relies on: a claim is won exactly when the key is not held, and makes it held. Then
  whatever is claimed in whatever order, every key is won once at most.
\<close>

fun claims_won :: "('k \<Rightarrow> 's \<Rightarrow> 's \<times> bool) \<Rightarrow> 's \<Rightarrow> 'k list \<Rightarrow> 'k list" where
  "claims_won claim s [] = []"
| "claims_won claim s (k # ks) = (if snd (claim k s) then [k] else []) @ claims_won claim (fst (claim k s)) ks"

locale claim_store =
  fixes claim :: "'k \<Rightarrow> 's \<Rightarrow> 's \<times> bool" and held :: "'s \<Rightarrow> 'k set"
  assumes won_iff: "snd (claim k s) \<longleftrightarrow> k \<notin> held s"
    and claim_holds: "held (fst (claim k s)) = insert k (held s)"
begin

lemma won_once: "distinct (claims_won claim s ks) \<and> set (claims_won claim s ks) = set ks - held s"
  by (induction ks arbitrary: s) (auto simp: won_iff claim_holds)

end

interpretation memory_claims: claim_store claim_key "\<lambda>keys. keys"
  by unfold_locales (auto simp: claim_key_def)

definition live_keys :: "instant \<Rightarrow> (string \<rightharpoonup> instant option) \<Rightarrow> string set" where
  "live_keys now db = {k. case db k of Some (Some expiry) \<Rightarrow> now < expiry | Some None \<Rightarrow> True | None \<Rightarrow> False}"

text \<open>Thirty days, in microseconds.\<close>

definition default_ttl :: duration where
  "default_ttl = 30 * 24 * 60 * 60 * 1000000"

interpretation redis_claims: claim_store "\<lambda>k db. redis_set_nx db now k (Some default_ttl)" "live_keys now" for now
  by unfold_locales (auto simp: redis_set_nx_def live_keys_def default_ttl_def split: option.splits)

text \<open>The first claim of a fill succeeds and every later one fails while the key lives.\<close>

theorem fill_claimed_once:
  assumes "redis_claim_fill prefix ttl db now f = Inr (db1, won)" "redis_claim_fill prefix ttl db1 now' f = Inr (db2, won')"
    "case ttl of Some d \<Rightarrow> now \<le> now' \<and> now' < now + d | None \<Rightarrow> True" "won"
  shows "\<not> won' \<and> db2 = db1"
  using assms by (auto simp: redis_claim_fill_def redis_set_nx_def bind_result_Inr_iff split: if_splits option.splits)

text \<open>Escaping is not injective: a second, different fill can find its key taken and is then ignored.\<close>

theorem distinct_fills_share_key:
  "\<exists>f g. f \<noteq> g \<and> dedup_key f = dedup_key g \<and> (\<exists>keys. memory_claim_fill {} f = Inr (keys, True) \<and> memory_claim_fill keys g = Inr (keys, False))"
proof -
  let ?f = "\<lparr>fi_account_id = ''a'', fi_venue_order_id = ''1'', fi_trade_id = ''x:1'', fi_event_kind = ''fill''\<rparr>"
  let ?g = "\<lparr>fi_account_id = ''a'', fi_venue_order_id = ''1'', fi_trade_id = ''x_1'', fi_event_kind = ''fill''\<rparr>"
  have "?f \<noteq> ?g" "dedup_key ?f = dedup_key ?g" "\<exists>k. dedup_key ?f = Inr k" by (simp_all add: dedup_key_def escape_def)
  then show ?thesis by (intro exI[of _ ?f] exI[of _ ?g]) (auto simp: memory_claim_fill_def claim_key_def)
qed

end
