(* ===== verification/Account_Routing.thy ===== *)
theory Account_Routing
  imports Client_Order_Ids "HOL-Library.Multiset"
begin

text \<open>
  Routing between several accounts and their nodes (\<open>routing/multi_account.py\<close>): every account has one node and
  mutable namespaces of its own, a Redis prefix and a spool file; intents and commands reach the node of their account only.

  A path is the list of its components; the root of a spool is given that way.
\<close>

section \<open>Routes\<close>

datatype routing_error = RoutingError | UnknownAccountError | WrongAccountError | RouteConflictError

record AccountRoute =
  ar_account_id :: account_id
  ar_node_id :: node_id
  ar_redis_key_prefix :: string
  ar_control_plane_base_url :: string
  ar_spool_root :: "string list"
  ar_environment :: string
  ar_initial_trading_state :: string
  ar_spool_file_name :: string

definition account_route_ok :: "AccountRoute \<Rightarrow> bool" where
  "account_route_ok r \<longleftrightarrow>
     list_all (\<lambda>s. strip s \<noteq> [])
       [ar_account_id r, ar_node_id r, ar_redis_key_prefix r, ar_control_plane_base_url r, ar_environment r, ar_initial_trading_state r,
        ar_spool_file_name r]
     \<and> startswith (ar_redis_key_prefix r) (''nautilus:'' @ ar_account_id r @ '':'')"

definition namespace_part :: "string \<Rightarrow> routing_error + string" where
  "namespace_part s =
     (let stripped = strip s
      in if stripped = [] then Inl RoutingError
         else Inr (map (\<lambda>c. if c = CHR '':'' \<or> c = CHR ''/'' then CHR ''_'' else c) stripped))"

definition spool_path :: "AccountRoute \<Rightarrow> routing_error + string list" where
  "spool_path r =
     bind_result (namespace_part (ar_account_id r)) (\<lambda>account.
     bind_result (namespace_part (ar_node_id r)) (\<lambda>node.
     Inr (filter (\<lambda>p. p \<noteq> ''.'') (ar_spool_root r @ [account, node, ar_spool_file_name r]))))"

fun namespace_parts :: "string list \<Rightarrow> routing_error + string list" where
  "namespace_parts [] = Inr []"
| "namespace_parts (p # ps) = bind_result (namespace_part p) (\<lambda>x. bind_result (namespace_parts ps) (\<lambda>xs. Inr (x # xs)))"

fun join_colon :: "string list \<Rightarrow> string" where
  "join_colon [] = []"
| "join_colon [p] = p"
| "join_colon (p # ps) = p @ '':'' @ join_colon ps"

definition redis_key :: "AccountRoute \<Rightarrow> string list \<Rightarrow> routing_error + string" where
  "redis_key r parts =
     (if parts = [] then Inl RoutingError
      else bind_result (namespace_parts parts) (\<lambda>ps. Inr (rstrip_colons (ar_redis_key_prefix r) @ '':'' @ join_colon ps)))"

record ClientOrderRef =
  rf_account_id :: account_id
  rf_node_id :: node_id
  rf_client_order_id :: string
  rf_namespace_key :: string
  rf_tags :: "string list"

definition client_order_ref :: "AccountRoute \<Rightarrow> uuid \<Rightarrow> int \<Rightarrow> routing_error + ClientOrderRef" where
  "client_order_ref r intent_id seq =
     (case encode_client_order_id intent_id seq of
        Inl _ \<Rightarrow> Inl RoutingError
      | Inr cid \<Rightarrow>
          bind_result (namespace_part (ar_account_id r)) (\<lambda>account.
          Inr \<lparr>rf_account_id = ar_account_id r, rf_node_id = ar_node_id r, rf_client_order_id = cid,
            rf_namespace_key = join_colon [''client-order-id'', account, cid],
            rf_tags = [''account_id='' @ ar_account_id r, ''node_id='' @ ar_node_id r, ''client_order_id='' @ cid]\<rparr>))"

definition event_stream :: "AccountRoute \<Rightarrow> string \<Rightarrow> routing_error + string" where
  "event_stream r event_type =
     bind_result (namespace_parts [ar_account_id r, ar_node_id r, event_type]) (\<lambda>ps. Inr (join_colon (''execution-events'' # ps)))"

definition event_route_key :: "AccountRoute \<Rightarrow> string \<Rightarrow> routing_error + string" where
  "event_route_key r event_id =
     bind_result (namespace_parts [ar_account_id r, ar_node_id r, event_id]) (\<lambda>ps. Inr (join_colon (''execution-event'' # ps)))"

section \<open>The route table\<close>

record route_table =
  rt_routes :: "(account_id \<times> AccountRoute) list"
  rt_account_by_node :: "(node_id \<times> account_id) list"
  rt_node_status :: "(node_id \<times> string) list"

record CommandRoute =
  co_command_type :: string
  co_node_ids :: "node_id list"
  co_account_ids :: "account_id list"

definition COMMAND_TYPES :: "string list" where
  "COMMAND_TYPES = [''halt'', ''resume'', ''set_reducing'', ''cancel_all'', ''close_all'']"

text \<open>The loop over the routes with what it has seen.\<close>

fun no_conflicts :: "account_id list \<Rightarrow> node_id list \<Rightarrow> string list \<Rightarrow> string list list \<Rightarrow> AccountRoute list \<Rightarrow> routing_error + unit" where
  "no_conflicts accounts nodes prefixes spools [] = Inr ()"
| "no_conflicts accounts nodes prefixes spools (r # rs) =
     (if ar_account_id r \<in> set accounts then Inl RouteConflictError
      else if ar_node_id r \<in> set nodes then Inl RouteConflictError
      else if rstrip_colons (ar_redis_key_prefix r) \<in> set prefixes then Inl RouteConflictError
      else bind_result (spool_path r) (\<lambda>path.
        if path \<in> set spools then Inl RouteConflictError
        else no_conflicts (ar_account_id r # accounts) (ar_node_id r # nodes) (rstrip_colons (ar_redis_key_prefix r) # prefixes)
               (path # spools) rs))"

definition assert_no_conflicts :: "AccountRoute list \<Rightarrow> routing_error + unit" where
  "assert_no_conflicts rs = no_conflicts [] [] [] [] rs"

definition drop_old_node :: "AccountRoute \<Rightarrow> route_table \<Rightarrow> route_table" where
  "drop_old_node r t =
     (case map_of (rt_routes t) (ar_account_id r) of
        Some old \<Rightarrow>
          if ar_node_id old \<noteq> ar_node_id r
          then t \<lparr>rt_account_by_node := AList.delete (ar_node_id old) (rt_account_by_node t),
                  rt_node_status := AList.delete (ar_node_id old) (rt_node_status t)\<rparr>
          else t
      | None \<Rightarrow> t)"

definition upsert_route :: "AccountRoute \<Rightarrow> route_table \<Rightarrow> routing_error + route_table" where
  "upsert_route r t =
     (let candidates = map snd (filter (\<lambda>(a, _). a \<noteq> ar_account_id r) (rt_routes t))
      in bind_result (assert_no_conflicts (candidates @ [r])) (\<lambda>_.
         let t1 = drop_old_node r t
         in Inr (t1 \<lparr>rt_routes := AList.update (ar_account_id r) r (rt_routes t1),
                  rt_account_by_node := AList.update (ar_node_id r) (ar_account_id r) (rt_account_by_node t1),
                  rt_node_status := (if map_of (rt_node_status t1) (ar_node_id r) = None
                                     then rt_node_status t1 @ [(ar_node_id r, ''running'')] else rt_node_status t1)\<rparr>)))"

definition empty_routes :: route_table where
  "empty_routes = \<lparr>rt_routes = [], rt_account_by_node = [], rt_node_status = []\<rparr>"

fun route_table_of :: "route_table \<Rightarrow> AccountRoute list \<Rightarrow> routing_error + route_table" where
  "route_table_of t [] = Inr t"
| "route_table_of t (r # rs) = bind_result (upsert_route r t) (\<lambda>t. route_table_of t rs)"

definition route_for_account :: "route_table \<Rightarrow> account_id \<Rightarrow> routing_error + AccountRoute" where
  "route_for_account t a = (case map_of (rt_routes t) a of Some r \<Rightarrow> Inr r | None \<Rightarrow> Inl UnknownAccountError)"

text \<open>An account of a node without a route does not occur (below); the code would raise a KeyError.\<close>

definition route_for_node :: "route_table \<Rightarrow> node_id \<Rightarrow> routing_error + AccountRoute" where
  "route_for_node t n =
     (case map_of (rt_account_by_node t) n of
        None \<Rightarrow> Inl UnknownAccountError
      | Some a \<Rightarrow> (case map_of (rt_routes t) a of Some r \<Rightarrow> Inr r | None \<Rightarrow> Inl RoutingError))"

definition intent_account :: "dict \<Rightarrow> account_id option" where
  "intent_account intent =
     (let v = jget intent ''account_id'' in if v = JNull \<or> json_str v = [] then None else Some (json_str v))"

definition route_intent :: "route_table \<Rightarrow> dict \<Rightarrow> routing_error + AccountRoute" where
  "route_intent t intent = (case intent_account intent of None \<Rightarrow> Inl UnknownAccountError | Some a \<Rightarrow> route_for_account t a)"

definition assert_intent_for_node :: "route_table \<Rightarrow> dict \<Rightarrow> node_id \<Rightarrow> routing_error + AccountRoute" where
  "assert_intent_for_node t intent n =
     bind_result (route_intent t intent) (\<lambda>r. if ar_node_id r \<noteq> n then Inl WrongAccountError else Inr r)"

definition mark_node_unavailable :: "node_id \<Rightarrow> route_table \<Rightarrow> routing_error + route_table" where
  "mark_node_unavailable n t =
     bind_result (route_for_node t n) (\<lambda>_. Inr (t \<lparr>rt_node_status := AList.update n ''unavailable'' (rt_node_status t)\<rparr>))"

definition node_status :: "route_table \<Rightarrow> node_id \<Rightarrow> routing_error + string" where
  "node_status t n =
     bind_result (route_for_node t n) (\<lambda>_. Inr (case map_of (rt_node_status t) n of Some s \<Rightarrow> s | None \<Rightarrow> ''running''))"

definition route_command :: "route_table \<Rightarrow> string \<Rightarrow> account_id option \<Rightarrow> node_id option \<Rightarrow> bool \<Rightarrow> routing_error + CommandRoute" where
  "route_command t command_type account node all_nodes =
     (if command_type \<notin> set COMMAND_TYPES then Inl RoutingError
      else if length (filter id [account \<noteq> None, node \<noteq> None, all_nodes]) \<noteq> 1 then Inl RoutingError
      else
        bind_result
          (if all_nodes then Inr (map snd (rt_routes t))
           else case account of
                  Some a \<Rightarrow> bind_result (route_for_account t a) (\<lambda>r. Inr [r])
                | None \<Rightarrow> bind_result (route_for_node t (the node)) (\<lambda>r. Inr [r]))
          (\<lambda>rs. Inr \<lparr>co_command_type = command_type, co_node_ids = map ar_node_id rs, co_account_ids = map ar_account_id rs\<rparr>))"

section \<open>Accounts are kept apart\<close>

definition routes_ok :: "route_table \<Rightarrow> bool" where
  "routes_ok t \<longleftrightarrow>
     distinct (map fst (rt_routes t)) \<and> (\<forall>(a, r) \<in> set (rt_routes t). ar_account_id r = a)
     \<and> distinct (map (ar_node_id \<circ> snd) (rt_routes t))
     \<and> distinct (map (rstrip_colons \<circ> ar_redis_key_prefix \<circ> snd) (rt_routes t))
     \<and> distinct (map (spool_path \<circ> snd) (rt_routes t))
     \<and> (\<forall>n a. map_of (rt_account_by_node t) n = Some a \<longleftrightarrow> (\<exists>r. map_of (rt_routes t) a = Some r \<and> ar_node_id r = n))"

lemma no_conflicts_distinct:
  assumes "no_conflicts as ns ps ss rs = Inr ()"
  shows "distinct (map ar_account_id rs) \<and> set (map ar_account_id rs) \<inter> set as = {}"
    "distinct (map ar_node_id rs) \<and> set (map ar_node_id rs) \<inter> set ns = {}"
    "distinct (map (rstrip_colons \<circ> ar_redis_key_prefix) rs) \<and> set (map (rstrip_colons \<circ> ar_redis_key_prefix) rs) \<inter> set ps = {}"
    "distinct (map spool_path rs) \<and> set (map spool_path rs) \<inter> Inr ` set ss = {}"
proof -
  have "distinct (map ar_account_id rs) \<and> set (map ar_account_id rs) \<inter> set as = {}
    \<and> distinct (map ar_node_id rs) \<and> set (map ar_node_id rs) \<inter> set ns = {}
    \<and> distinct (map (rstrip_colons \<circ> ar_redis_key_prefix) rs) \<and> set (map (rstrip_colons \<circ> ar_redis_key_prefix) rs) \<inter> set ps = {}
    \<and> distinct (map spool_path rs) \<and> set (map spool_path rs) \<inter> Inr ` set ss = {}"
    using assms
  proof (induction rs arbitrary: "as" ns ps ss)
    case (Cons r rs)
    then obtain path where path: "spool_path r = Inr path" "path \<notin> set ss"
      and new: "ar_account_id r \<notin> set as" "ar_node_id r \<notin> set ns" "rstrip_colons (ar_redis_key_prefix r) \<notin> set ps"
      and rest: "no_conflicts (ar_account_id r # as) (ar_node_id r # ns) (rstrip_colons (ar_redis_key_prefix r) # ps) (path # ss) rs = Inr ()"
      by (cases "spool_path r") (auto split: if_splits)
    from Cons.IH[OF rest] path new show ?case by auto
  qed simp
  then show "distinct (map ar_account_id rs) \<and> set (map ar_account_id rs) \<inter> set as = {}"
    "distinct (map ar_node_id rs) \<and> set (map ar_node_id rs) \<inter> set ns = {}"
    "distinct (map (rstrip_colons \<circ> ar_redis_key_prefix) rs) \<and> set (map (rstrip_colons \<circ> ar_redis_key_prefix) rs) \<inter> set ps = {}"
    "distinct (map spool_path rs) \<and> set (map spool_path rs) \<inter> Inr ` set ss = {}" by auto
qed

text \<open>Updating a key of a dict replaces its entry.\<close>

lemma mset_update:
  assumes "distinct (map fst m)"
  shows "mset (AList.update k v m) = mset (filter (\<lambda>(x, _). x \<noteq> k) m @ [(k, v)])"
  using assms
proof (induction m)
  case (Cons e m)
  have "filter (\<lambda>(x, _). x \<noteq> k) m = m" if "k \<notin> fst ` set m" using that by (force intro!: filter_True)
  then have "mset m = filter_mset (\<lambda>(x, _). x \<noteq> k) (mset m)" if "k \<notin> fst ` set m" using that by (metis mset_filter)
  with Cons show ?case by (cases e) auto
qed simp

lemma distinct_map_update:
  assumes "distinct (map fst m)"
  shows "distinct (map f (AList.update k v m)) \<longleftrightarrow> distinct (map f (filter (\<lambda>(x, _). x \<noteq> k) m @ [(k, v)]))"
  by (rule mset_eq_imp_distinct_iff) (simp only: mset_map mset_update[OF assms])

lemma upsert_route_cases:
  assumes "upsert_route r t = Inr t'"
  defines "cs \<equiv> map snd (filter (\<lambda>(a, _). a \<noteq> ar_account_id r) (rt_routes t))"
  shows "no_conflicts [] [] [] [] (cs @ [r]) = Inr ()" "rt_routes t' = AList.update (ar_account_id r) r (rt_routes t)"
    "rt_account_by_node t' = AList.update (ar_node_id r) (ar_account_id r) (rt_account_by_node (drop_old_node r t))"
proof -
  have "assert_no_conflicts (cs @ [r]) = Inr ()"
    using assms by (cases "assert_no_conflicts (cs @ [r])") (auto simp: upsert_route_def)
  then show "no_conflicts [] [] [] [] (cs @ [r]) = Inr ()" by (simp add: assert_no_conflicts_def)
  have d: "rt_routes (drop_old_node r t) = rt_routes t" by (auto simp: drop_old_node_def split: option.splits)
  show "rt_routes t' = AList.update (ar_account_id r) r (rt_routes t)"
    "rt_account_by_node t' = AList.update (ar_node_id r) (ar_account_id r) (rt_account_by_node (drop_old_node r t))"
    using assms \<open>assert_no_conflicts (cs @ [r]) = Inr ()\<close> by (auto simp: upsert_route_def Let_def d)
qed

lemma upsert_route_ok:
  assumes "upsert_route r t = Inr t'" "routes_ok t"
  shows "routes_ok t'"
proof -
  let ?a = "ar_account_id r" and ?m = "rt_routes t"
  let ?others = "filter (\<lambda>(a, _). a \<noteq> ?a) ?m"
  note u = upsert_route_cases[OF assms(1)]
  note c = no_conflicts_distinct[OF u(1)]
  have d: "distinct (map fst ?m)" and keys: "\<forall>(a, r) \<in> set ?m. ar_account_id r = a"
    and by_node: "\<And>n a. map_of (rt_account_by_node t) n = Some a \<longleftrightarrow> (\<exists>r. map_of ?m a = Some r \<and> ar_node_id r = n)"
    using assms(2) by (auto simp: routes_ok_def)
  have routes: "map_of (rt_routes t') = (map_of ?m)(?a \<mapsto> r)" by (simp add: u(2) update_conv')
  have dist: "distinct (map (f \<circ> snd) (rt_routes t'))" if "distinct (map f (map snd ?others @ [r]))" for f
    unfolding u(2) distinct_map_update[OF d] using that by (simp add: comp_def)
  have other_nodes: "ar_node_id r' \<noteq> ar_node_id r" if "map_of ?m b = Some r'" "b \<noteq> ?a" for b r'
  proof -
    have "r' \<in> set (map snd ?others)" using map_of_SomeD[OF that(1)] that(2) by force
    then have "ar_node_id r' \<in> set (map ar_node_id (map snd ?others))" by (simp only: set_map imageI)
    then show ?thesis using c(2) unfolding map_append distinct_append by fastforce
  qed
  have "\<forall>n b. map_of (rt_account_by_node t') n = Some b \<longleftrightarrow> (\<exists>r'. map_of (rt_routes t') b = Some r' \<and> ar_node_id r' = n)"
  proof (intro allI)
    fix n b
    have abn: "map_of (rt_account_by_node t') n = (if n = ar_node_id r then Some ?a
        else if (\<exists>old. map_of ?m ?a = Some old \<and> ar_node_id old = n) then None else map_of (rt_account_by_node t) n)"
      unfolding u(3) by (auto simp: update_conv' drop_old_node_def delete_conv' split: option.splits)
    show "map_of (rt_account_by_node t') n = Some b \<longleftrightarrow> (\<exists>r'. map_of (rt_routes t') b = Some r' \<and> ar_node_id r' = n)"
    proof (cases "b = ?a")
      case True
      then show ?thesis using by_node[of n ?a] by (auto simp: abn routes)
    next
      case False
      have "ar_node_id old \<noteq> n" if "map_of ?m ?a = Some old" "map_of (rt_account_by_node t) n = Some b" for old
        using by_node[of "ar_node_id old" ?a] that False by force
      then show ?thesis using False other_nodes[of b] by_node[of n b] by (auto simp: abn routes)
    qed
  qed
  moreover have "distinct (map fst (rt_routes t'))" using d by (simp add: u(2) distinct_update)
  moreover have "\<forall>(a, x) \<in> set (rt_routes t'). ar_account_id x = a"
  proof -
    have "set (rt_routes t') = set (?others @ [(?a, r)])"
      unfolding u(2) using mset_update[OF d, of ?a r] by (metis set_mset_mset)
    then show ?thesis using keys by auto
  qed
  moreover have "distinct (map (ar_node_id \<circ> snd) (rt_routes t'))" "distinct (map (rstrip_colons \<circ> ar_redis_key_prefix \<circ> snd) (rt_routes t'))"
    "distinct (map (spool_path \<circ> snd) (rt_routes t'))"
    using dist[of ar_node_id] dist[of "rstrip_colons \<circ> ar_redis_key_prefix"] dist[of spool_path] c(2-4) by simp_all
  ultimately show ?thesis by (simp add: routes_ok_def)
qed

inductive route_step :: "route_table \<Rightarrow> route_table \<Rightarrow> bool" where
  upserted: "account_route_ok r \<Longrightarrow> upsert_route r t = Inr t' \<Longrightarrow> route_step t t'"
| marked: "mark_node_unavailable n t = Inr t' \<Longrightarrow> route_step t t'"

interpretation route_store: invariant_store empty_routes route_step routes_ok
proof
  show "routes_ok empty_routes" by (simp add: routes_ok_def empty_routes_def)
  show "\<And>t t'. routes_ok t \<Longrightarrow> route_step t t' \<Longrightarrow> routes_ok t'"
  proof -
    fix t t'
    assume "route_step t t'" "routes_ok t"
    then show "routes_ok t'"
    proof (induction rule: route_step.induct)
      case (marked n t t')
      then show ?case by (auto simp: mark_node_unavailable_def bind_result_Inr_iff routes_ok_def)
    qed (rule upsert_route_ok)
  qed
qed

text \<open>
  C28. Accounts are kept apart. Whatever routes were added, moved and marked before, two different accounts never share a node, a
  Redis prefix or a spool file; a node accepts an intent only when it is the node of the intent's account; and a command
  reaches the node of its account only, or every node once when it is addressed to all.
\<close>

theorem accounts_kept_apart:
  assumes "route_step\<^sup>*\<^sup>* empty_routes t"
  shows "(\<forall>a b r q. map_of (rt_routes t) a = Some r \<and> map_of (rt_routes t) b = Some q \<and> a \<noteq> b \<longrightarrow>
        ar_account_id r \<noteq> ar_account_id q \<and> ar_node_id r \<noteq> ar_node_id q
        \<and> rstrip_colons (ar_redis_key_prefix r) \<noteq> rstrip_colons (ar_redis_key_prefix q) \<and> spool_path r \<noteq> spool_path q)
    \<and> (\<forall>intent n r. assert_intent_for_node t intent n = Inr r \<longrightarrow>
        intent_account intent = Some (ar_account_id r) \<and> route_for_node t n = Inr r)
    \<and> (\<forall>c a x. route_command t c (Some a) None False = Inr x \<longrightarrow>
        (\<exists>r. route_for_account t a = Inr r \<and> co_node_ids x = [ar_node_id r] \<and> co_account_ids x = [a]))
    \<and> (\<forall>c x. route_command t c None None True = Inr x \<longrightarrow>
        distinct (co_node_ids x) \<and> set (co_node_ids x) = dom (map_of (rt_account_by_node t)))"
proof -
  have ok: "routes_ok t" by (rule route_store.reachable_inv[OF assms])
  have d: "distinct (map fst (rt_routes t))" using ok by (simp add: routes_ok_def)
  have key: "ar_account_id r = a" if "map_of (rt_routes t) a = Some r" for a r
    using ok map_of_SomeD[OF that] by (auto simp: routes_ok_def)
  have apart: "f r \<noteq> f q" if "map_of (rt_routes t) a = Some r" "map_of (rt_routes t) b = Some q" "a \<noteq> b" "distinct (map (f \<circ> snd) (rt_routes t))"
    for f :: "AccountRoute \<Rightarrow> 'x" and a b r q
    using map_of_SomeD[OF that(1)] map_of_SomeD[OF that(2)] that(3,4) unfolding distinct_map inj_on_def by fastforce
  have dist: "distinct (map (ar_node_id \<circ> snd) (rt_routes t))" "distinct (map ((rstrip_colons \<circ> ar_redis_key_prefix) \<circ> snd) (rt_routes t))"
    "distinct (map (spool_path \<circ> snd) (rt_routes t))" using ok by (simp_all add: routes_ok_def comp_assoc)
  have 1: "\<forall>a b r q. map_of (rt_routes t) a = Some r \<and> map_of (rt_routes t) b = Some q \<and> a \<noteq> b \<longrightarrow>
        ar_account_id r \<noteq> ar_account_id q \<and> ar_node_id r \<noteq> ar_node_id q
        \<and> rstrip_colons (ar_redis_key_prefix r) \<noteq> rstrip_colons (ar_redis_key_prefix q) \<and> spool_path r \<noteq> spool_path q"
    using key apart[OF _ _ _ dist(1)] apart[OF _ _ _ dist(2)] apart[OF _ _ _ dist(3)] by fastforce
  have node: "route_for_node t (ar_node_id r) = Inr r" if "map_of (rt_routes t) a = Some r" for a r
  proof -
    have "map_of (rt_account_by_node t) (ar_node_id r) = Some a" using ok that by (auto simp: routes_ok_def)
    then show ?thesis using that by (simp add: route_for_node_def)
  qed
  have 2: "intent_account intent = Some (ar_account_id r) \<and> route_for_node t n = Inr r" if "assert_intent_for_node t intent n = Inr r" for intent n r
    using that key node by (auto simp: assert_intent_for_node_def route_intent_def route_for_account_def bind_result_Inr_iff split: option.splits if_splits)
  have 3: "\<exists>r. route_for_account t a = Inr r \<and> co_node_ids x = [ar_node_id r] \<and> co_account_ids x = [a]"
    if "route_command t c (Some a) None False = Inr x" for c a x
    using that key by (auto simp: route_command_def route_for_account_def bind_result_Inr_iff split: option.splits if_splits)
  have 4: "distinct (co_node_ids x) \<and> set (co_node_ids x) = dom (map_of (rt_account_by_node t))" if "route_command t c None None True = Inr x" for c x
  proof -
    have x: "co_node_ids x = map (ar_node_id \<circ> snd) (rt_routes t)" using that by (auto simp: route_command_def split: if_splits)
    have "set (co_node_ids x) = {n. \<exists>a r. map_of (rt_routes t) a = Some r \<and> ar_node_id r = n}"
      unfolding x using d by (force dest: map_of_SomeD)
    also have "\<dots> = dom (map_of (rt_account_by_node t))" using ok by (auto simp: routes_ok_def dom_def)
    finally show ?thesis using dist(1) x by simp
  qed
  from 1 2 3 4 show ?thesis by blast
qed

section \<open>Example\<close>

definition example_route :: AccountRoute where
  "example_route = \<lparr>ar_account_id = ''a'', ar_node_id = ''n'', ar_redis_key_prefix = ''nautilus:a:'', ar_control_plane_base_url = ''http'',
     ar_spool_root = [''var''], ar_environment = ''testnet'', ar_initial_trading_state = ''HALTED'', ar_spool_file_name = ''events.json''\<rparr>"

theorem accounts_kept_apart_witness:
  "\<exists>t x. route_step\<^sup>*\<^sup>* empty_routes t \<and> route_command t ''halt'' None None True = Inr x \<and> co_node_ids x = [''n''] \<and> distinct (co_node_ids x)"
proof -
  have ok: "account_route_ok example_route" by code_simp
  obtain t where t: "upsert_route example_route empty_routes = Inr t" "map snd (rt_routes t) = [example_route]"
    by (simp add: upsert_route_def assert_no_conflicts_def empty_routes_def example_route_def drop_old_node_def spool_path_def
        namespace_part_def strip_def lstrip_def is_space_def Let_def)
  have steps: "route_step\<^sup>*\<^sup>* empty_routes t" using route_step.upserted[OF ok t(1)] by blast
  obtain x where x: "route_command t ''halt'' None None True = Inr x" "co_node_ids x = [''n'']"
    using t(2) by (simp add: route_command_def COMMAND_TYPES_def example_route_def)
  have "distinct (co_node_ids x)" using accounts_kept_apart[OF steps] x(1) by blast
  with steps x show ?thesis by blast
qed

end
