(* ===== verification/Spec2Isabelle.thy ===== *)
theory Spec2Isabelle
  imports Position_Sizing Exposure Exchange_Filters Loss_Limits Reservations Governor
    Operator_Commands Command_Runs Order_Reducer Position_Exits Execution_Jobs Reconciliation
    Zone_Ladder Decision_Gateway Outbox_Publisher Settings_Service Projection_Actor Node_Commands Node_Limits Account_Routing
begin

text \<open>
  Verification of the order-management core of trader-bot.

  \<^bold>\<open>The program.\<close> Trading messages become decisions, decisions become approved intents, intents become exchange
  orders, and execution events come back and are projected into orders, positions and accounts. Two services share the work.
  The control plane (\<open>services/control-plane\<close>) decides: its decision gateway lets an intent through only after
  the risk governor, the freshness gate, the mode and the risk budgets agree; it keeps reservations, commands, execution jobs,
  settings and the projections in PostgreSQL and announces changes through an outbox. The node
  (\<open>services/nautilus-node\<close>) executes: it plans orders from approved intents, keeps positions protected, runs the operator's
  commands and sends execution events back through a durable spool. \<open>packages/execution-domain\<close> holds what both share,
  \<open>packages/contracts\<close> the frozen descriptors.

  \<^bold>\<open>Foundations.\<close>
  \<^item> \<open>Prelude\<close>: type synonyms, results with exceptions, list and map lemmas, and the interfaces \<open>invariant_store\<close> (an
    initial state, steps, an invariant they keep) and \<open>durable_queue\<close> (an entry waits until it is acknowledged).
  \<^item> \<open>Rounding\<close>: Decimal (28 digits) and float (53 bits) arithmetic as rounded rationals, with the interface
    \<open>sig_rounding\<close> of what the clients use of both.
  \<^item> \<open>Py_Text\<close>, \<open>Json\<close>: string methods; JSON values, dicts and their text.
  \<^item> \<open>Identifiers\<close>, \<open>Client_Order_Ids\<close>, \<open>Idempotency\<close>: canonical accounts, instruments and positions
    (\<open>identifiers.py\<close>), client order ids and the robot's namespace (\<open>order_ownership.py\<close>), keys and trace ids
    (\<open>idempotency.py\<close>, \<open>observability/_shared.py\<close>) and the outbox (\<open>outbox.py\<close>).

  \<^bold>\<open>Control plane.\<close>
  \<^item> \<open>State_Descriptor\<close>, \<open>Freshness\<close>: the frozen state machines of \<open>order_state.v1.json\<close> with ranks, settlement
    and permissions; the staleness gate, which fails closed.
  \<^item> \<open>Account_Budget\<close>, \<open>Position_Sizing\<close>, \<open>Exposure\<close>, \<open>Exchange_Filters\<close>, \<open>Loss_Limits\<close>, \<open>Reservations\<close>,
    \<open>Governor\<close>: the modules of \<open>risk/\<close>. An approved size stays within every budget, an approval satisfies every check
    of the governor, held risk never exceeds its budget under any interleaving, and a loss breach latches.
  \<^item> \<open>Decision_Gateway\<close>, \<open>Zone_Ladder\<close>: the transaction that turns a decision into an intent and the expansion of a price
    zone. Every written intent is justified by an approving risk decision and traceable to its message; the tranches of a zone
    carry at most the risk of the trade.
  \<^item> \<open>Order_Reducer\<close>, \<open>Position_Projection\<close>, \<open>Position_Exits\<close>: the reducers of execution events, closes,
    breakeven, trailing and the installation of the stop. Projected orders are monotone, fills count once, a filled entry
    is protected or the account is stopped, a completed close is flat.
  \<^item> \<open>Execution_Jobs\<close>, \<open>Execution_Policies\<close>, \<open>Reconciliation\<close>: jobs with claims and retries, the policies for orders that
    do not simply fill, the comparison with the venue and the recovery of protection.
  \<^item> \<open>Position_Revisions\<close>, \<open>Operator_Commands\<close>, \<open>Command_Runs\<close>: optimistic revisions of positions, commands with their
    acknowledgements, the lifecycle of command runs.
  \<^item> \<open>Outbox_Publisher\<close>: polling and delivery of outbox rows, at most once, with due rows drained.
  \<^item> \<open>Settings_Schema\<close>, \<open>Access_Control\<close>, \<open>Settings_Service\<close>: the settings descriptor and the effective value of a
    setting, sessions, principals and audited operations, and the settings service as transactions that interleave: no lost update,
    stored settings are well-typed, relaxing live risk is signed off, an export imports back.

  \<^bold>\<open>Node.\<close>
  \<^item> \<open>Order_Specs\<close>, \<open>Planner\<close>, \<open>Protection_Orders\<close>: the whole planner of \<open>strategy/intent_execution_planner.py\<close> and the
    builders of stops, take profits and trailing stops. An entry plan stays within the approved notional and the mode,
    a management plan only reduces, a plan cancels its own orders only.
  \<^item> \<open>Execution_Ledger\<close>, \<open>Ownership_Ledger\<close>: evidence of venue and cache per book, and what the robot owns of a position.
  \<^item> \<open>Event_Spool\<close>, \<open>Projection_Actor\<close>: the write-ahead log of execution events, its recovery from torn writes, and the actor
    that maps, spools and flushes events (\<open>projection/\<close>). The actor refines the spool step by step and both are interpretations
    of \<open>durable_queue\<close>: an event reported durable waits until the control plane returned its id.
  \<^item> \<open>Node_Commands\<close>: the processor of commands, cancelling and closing everything, the result sink (\<open>commands/\<close>). No command
    runs twice; one whose process dies after its acceptance is never run; a completed close left nothing open.
  \<^item> \<open>Node_Limits\<close>, \<open>Account_Routing\<close>: the node's own gate and limits (\<open>risk/\<close>), the claim of fills, the routes of several
    accounts (\<open>routing/\<close>). The rate limit holds in every window; accounts never share a namespace.

  This theory holds what spans the services: the gates of control plane and node agree on what a mode permits.

  \<^bold>\<open>Conventions.\<close> A function that may raise returns a sum with the exception on the left. A table is a list of rows in insertion
  order; the constraints of the migrations that a statement can violate are checked where it writes. A transaction is one
  function on the tables; where the code reads before it writes in another transaction, as the settings service does, the
  reading is a separate step and other steps may come between. Instants are microseconds, strings are ASCII,
  numbers are finite. A numeric text is represented by its value and printed in its shortest form. Messages made for people are
  kept where code reads them back and otherwise as their parts or not at all.

  \<^bold>\<open>Parameters.\<close> What is not in the repository is an argument of the definitions: SHA-256, HMAC and the JSON parser, the
  JSON-schema validator, fresh uuids and the clock, and the exchange, engine, sink, repairer and submitter behind the interfaces
  of the code. They carry no assumptions unless a theorem states one.

  \<^bold>\<open>Termination and fuel.\<close> Loops are structural recursion or have a measure. The sizing loop of the zone ladder runs over the
  bounded number of rounds of the source. The polling pass runs at most a batch of rows, and its theorem says that
  a batch that covers the due rows drains them. Attempts on the venue are bounded by their settings. Waiting for the acknowledgement of
  a settings change has no bound but the clock and is a partial function.

  \<^bold>\<open>Not modelled.\<close> The HTTP layer (\<open>api/\<close>, \<open>settings/router.py\<close>, \<open>http_client.py\<close>), which routes to operations modelled here and
  shapes their answers; the callbacks of the trading framework (\<open>strategy/intent_execution_strategy.py\<close>, \<open>app/\<close>,
  \<open>data_client/\<close>, \<open>runtime/\<close>), whose behaviour is that of a third-party engine around the modelled planner and protection;
  the Redis lease, whose logic is Lua run by the server; connections, migrations, metrics and alerts; reading
  configuration from the environment; the message intake and the language-model worker, whose output enters as rows of the decision gateway;
  reports, scripts and the research and legacy trees (\<open>quant-lab\<close>, \<open>bridge\<close>, \<open>engine\<close>, \<open>.live-mirror\<close>).
\<close>

section \<open>One kill switch\<close>

text \<open>
  The mode of an account is looked at in three places: the permission matrix of the frozen contract, which the control plane
  reads, the matrix of the node's planner, and the gate of the node before the engine.
\<close>

lemma planner_matrix_agrees:
  "list_all (\<lambda>(m, row). list_all (\<lambda>(a, b). a \<in> {''cancel_all'', ''close_all''}
     \<or> (case map_of action_permission_matrix m of Some allowed \<Rightarrow> a \<in> set allowed | None \<Rightarrow> False) = b) row) permission_matrix"
  by code_simp

lemma gate_matrix_agrees:
  "list_all (\<lambda>(m, row). list_all (\<lambda>(a, b). a \<in> set opening_actions \<longrightarrow>
     rd_allowed (order_gate_check m \<lparr>to_action = SUBMIT, to_reduce_only = False\<rparr>) = b) row) permission_matrix"
  by code_simp

text \<open>
  C1. Control plane and node agree on the kill switch. For every action and mode that the frozen contract knows, except the two commands
  that are not intents, the planner permits exactly what the contract permits; and a new order that does not reduce passes the
  gate of the node exactly in the modes in which the contract permits to open or add to a position.
\<close>

theorem mode_gates_agree:
  assumes "halted_action_allowed action mode = Inr b"
  shows "(action \<notin> {''cancel_all'', ''close_all''} \<longrightarrow> planner_action_allowed action mode = b)
    \<and> (action \<in> set opening_actions \<longrightarrow>
        rd_allowed (order_gate_check (upper mode) \<lparr>to_action = SUBMIT, to_reduce_only = False\<rparr>) = b)"
proof -
  obtain row where row: "(upper mode, row) \<in> set permission_matrix" "(action, b) \<in> set row"
    using halted_action_allowed_Inr[OF assms] by blast
  show ?thesis
    using planner_matrix_agrees gate_matrix_agrees row unfolding list_all_iff planner_action_allowed_def by fastforce
qed

theorem mode_gates_agree_witness:
  "halted_action_allowed ''add_position'' ''reducing'' = Inr False \<and> \<not> planner_action_allowed ''add_position'' ''reducing''"
proof -
  have h: "halted_action_allowed ''add_position'' ''reducing'' = Inr False" by code_simp
  with mode_gates_agree[OF h] show ?thesis by simp
qed

text \<open>
  They disagree on the way out: while an account is halted the contract and the planner permit to close a position, but the
  gate of the node refuses the reduce-only order that does it.
\<close>

theorem halted_close_refused_by_gate:
  "halted_action_allowed ''close_position'' ''HALTED'' = Inr True \<and> planner_action_allowed ''close_position'' ''HALTED''
    \<and> \<not> rd_allowed (order_gate_check ''HALTED'' \<lparr>to_action = SUBMIT, to_reduce_only = True\<rparr>)"
  by (intro conjI; code_simp)

end
